(* ===== verification/Prelude.thy ===== *)
theory Prelude
  imports Main "HOL-Library.Char_ord" "HOL-Library.List_Lexorder"
begin

text \<open>
  The prelude: the fact collections of the development, the Go conventions every component
  shares (nil slices, pointer fields, the error type) and the functions of Go's \<open>strings\<close>
  package the source calls, on byte strings, with the lemmas the component proofs use.
\<close>

named_theorems go_string_simps \<open>evaluation rules for the string functions\<close>

section \<open>Go conventions\<close>

text \<open>
  A Go \<open>*T\<close> field is a \<open>'a option\<close>; a slice whose nil-ness the code distinguishes is a
  \<open>'a list option\<close> (\<open>None\<close> is nil, \<open>Some []\<close> an explicit empty slice).
\<close>

type_synonym 'a ptr = "'a option"
type_synonym 'a slice = "'a list option"

definition slice_elems :: "'a slice \<Rightarrow> 'a list" where
  "slice_elems s = (case s of None \<Rightarrow> [] | Some xs \<Rightarrow> xs)"

lemma slice_elems_simps [simp]:
  "slice_elems None = []" "slice_elems (Some xs) = xs"
  by (simp_all add: slice_elems_def)

text \<open>A nil-guarded assignment: \<open>if other.F != nil { merged.F = other.F }\<close>.\<close>

definition override :: "'a option \<Rightarrow> 'a option \<Rightarrow> 'a option" where
  "override m n = (case n of None \<Rightarrow> m | Some v \<Rightarrow> Some v)"

lemma override_simps [simp]:
  "override m None = m" "override m (Some v) = Some v" "override None n = n"
  by (simp_all add: override_def split: option.splits)

lemma override_assoc: "override (override a b) c = override a (override b c)"
  by (simp add: override_def split: option.splits)

lemma override_idem [simp]: "override a a = a"
  by (simp add: override_def split: option.splits)

lemma override_eq_None [simp]: "override a b = None \<longleftrightarrow> a = None \<and> b = None"
  by (auto simp: override_def split: option.splits)

text \<open>Presence of a pointer to \<open>true\<close>: \<open>p != nil && *p\<close>.\<close>

definition is_true :: "bool ptr \<Rightarrow> bool" where
  "is_true p \<longleftrightarrow> p = Some True"

lemma is_true_simps [simp]:
  "is_true None = False" "is_true (Some b) = b"
  by (simp_all add: is_true_def)

section \<open>The strings package\<close>

fun HasPrefix :: "string \<Rightarrow> string \<Rightarrow> bool" where
  "HasPrefix s [] = True"
| "HasPrefix [] (p # ps) = False"
| "HasPrefix (c # cs) (p # ps) = (c = p \<and> HasPrefix cs ps)"

definition HasSuffix :: "string \<Rightarrow> string \<Rightarrow> bool" where
  "HasSuffix s p = HasPrefix (rev s) (rev p)"

definition TrimPrefix :: "string \<Rightarrow> string \<Rightarrow> string" where
  "TrimPrefix s p = (if HasPrefix s p then drop (length p) s else s)"

definition TrimSuffix :: "string \<Rightarrow> string \<Rightarrow> string" where
  "TrimSuffix s p = (if HasSuffix s p then take (length s - length p) s else s)"

definition CutPrefix :: "string \<Rightarrow> string \<Rightarrow> string option" where
  "CutPrefix s p = (if HasPrefix s p then Some (drop (length p) s) else None)"

fun Cut :: "string \<Rightarrow> string \<Rightarrow> (string \<times> string) option" where
  "Cut [] sep = (if sep = [] then Some ([], []) else None)"
| "Cut (c # cs) sep =
     (if HasPrefix (c # cs) sep then Some ([], drop (length sep) (c # cs))
      else map_option (\<lambda>(a, b). (c # a, b)) (Cut cs sep))"

definition Contains :: "string \<Rightarrow> string \<Rightarrow> bool" where
  "Contains s sub \<longleftrightarrow> Cut s sub \<noteq> None"

text \<open>\<open>strings.Split\<close> at a one-byte separator; the empty string splits into one empty part.\<close>

fun split1 :: "char \<Rightarrow> string \<Rightarrow> string list" where
  "split1 d [] = [[]]"
| "split1 d (c # cs) =
     (if c = d then [] # split1 d cs
      else (case split1 d cs of w # ws \<Rightarrow> (c # w) # ws | [] \<Rightarrow> [[c]]))"

fun Join :: "string list \<Rightarrow> string \<Rightarrow> string" where
  "Join [] sep = []"
| "Join [x] sep = x"
| "Join (x # y # ys) sep = x @ sep @ Join (y # ys) sep"

text \<open>
  \<open>strings.TrimSpace\<close>: the UTF-8 encodings of the code points \<open>unicode.IsSpace\<close> accepts,
  stripped from both ends.
\<close>

definition space_encodings :: "string list" where
  "space_encodings =
     [[CHR 0x09], [CHR 0x0A], [CHR 0x0B], [CHR 0x0C], [CHR 0x0D], [CHR 0x20], [CHR 0xC2, CHR 0x85],
      [CHR 0xC2, CHR 0xA0], [CHR 0xE1, CHR 0x9A, CHR 0x80], [CHR 0xE2, CHR 0x80, CHR 0x80],
      [CHR 0xE2, CHR 0x80, CHR 0x81], [CHR 0xE2, CHR 0x80, CHR 0x82],
      [CHR 0xE2, CHR 0x80, CHR 0x83], [CHR 0xE2, CHR 0x80, CHR 0x84],
      [CHR 0xE2, CHR 0x80, CHR 0x85], [CHR 0xE2, CHR 0x80, CHR 0x86],
      [CHR 0xE2, CHR 0x80, CHR 0x87], [CHR 0xE2, CHR 0x80, CHR 0x88],
      [CHR 0xE2, CHR 0x80, CHR 0x89], [CHR 0xE2, CHR 0x80, CHR 0x8A],
      [CHR 0xE2, CHR 0x80, CHR 0xA8], [CHR 0xE2, CHR 0x80, CHR 0xA9],
      [CHR 0xE2, CHR 0x80, CHR 0xAF], [CHR 0xE2, CHR 0x81, CHR 0x9F],
      [CHR 0xE3, CHR 0x80, CHR 0x80]]"

definition strip_one :: "string list \<Rightarrow> string \<Rightarrow> string option" where
  "strip_one encs s = (case filter (\<lambda>e. e \<noteq> [] \<and> HasPrefix s e) encs of
     [] \<Rightarrow> None | e # _ \<Rightarrow> Some (drop (length e) s))"

lemma strip_one_shorter: "strip_one encs s = Some t \<Longrightarrow> length t < length s"
proof -
  assume "strip_one encs s = Some t"
  then obtain e es where "filter (\<lambda>e. e \<noteq> [] \<and> HasPrefix s e) encs = e # es"
      and t: "t = drop (length e) s"
    by (auto simp: strip_one_def split: list.splits)
  then have "e \<in> set (filter (\<lambda>e. e \<noteq> [] \<and> HasPrefix s e) encs)" by simp
  then have e: "e \<noteq> []" "HasPrefix s e" by auto
  then have "s \<noteq> []" by (cases s; cases e) auto
  with e t show ?thesis by (cases e) auto
qed

function trim_front :: "string list \<Rightarrow> string \<Rightarrow> string" where
  "trim_front encs s = (case strip_one encs s of None \<Rightarrow> s | Some t \<Rightarrow> trim_front encs t)"
  by pat_completeness auto
termination
  by (relation "measure (\<lambda>(_, s). length s)") (auto dest: strip_one_shorter)

declare trim_front.simps [simp del]

definition TrimSpace :: "string \<Rightarrow> string" where
  "TrimSpace s =
     rev (trim_front (map rev space_encodings) (rev (trim_front space_encodings s)))"

subsection \<open>Laws of the string functions\<close>

lemma HasPrefix_iff: "HasPrefix s p \<longleftrightarrow> (\<exists>t. s = p @ t)"
  by (induction s p rule: HasPrefix.induct) auto

lemma HasPrefix_append [simp]: "HasPrefix (p @ t) p"
  by (auto simp: HasPrefix_iff)

lemma HasPrefix_refl [simp]: "HasPrefix p p"
  by (auto simp: HasPrefix_iff)

lemma HasPrefix_trans: "HasPrefix s p \<Longrightarrow> HasPrefix p q \<Longrightarrow> HasPrefix s q"
  by (auto simp: HasPrefix_iff)

lemma HasSuffix_iff: "HasSuffix s p \<longleftrightarrow> (\<exists>t. s = t @ p)"
proof -
  have "HasSuffix s p \<longleftrightarrow> (\<exists>t. rev s = rev p @ t)"
    by (simp add: HasSuffix_def HasPrefix_iff)
  also have "\<dots> \<longleftrightarrow> (\<exists>t. s = t @ p)"
    by (metis rev_append rev_rev_ident)
  finally show ?thesis .
qed

lemma HasSuffix_append [simp]: "HasSuffix (t @ p) p"
  by (auto simp: HasSuffix_iff)

lemma TrimPrefix_append [simp]: "TrimPrefix (p @ t) p = t"
  by (simp add: TrimPrefix_def)

lemma TrimSuffix_append [simp]: "TrimSuffix (t @ p) p = t"
  by (simp add: TrimSuffix_def)

lemma CutPrefix_append [simp]: "CutPrefix (p @ t) p = Some t"
  by (simp add: CutPrefix_def)

lemma CutPrefix_Some_iff: "CutPrefix s p = Some t \<longleftrightarrow> s = p @ t"
  by (auto simp: CutPrefix_def HasPrefix_iff)

lemma Cut_Some: "Cut s sep = Some (a, b) \<Longrightarrow> s = a @ sep @ b"
proof (induction s sep arbitrary: a rule: Cut.induct)
  case (1 sep)
  then show ?case by (auto split: if_splits)
next
  case (2 c cs sep)
  show ?case
  proof (cases "HasPrefix (c # cs) sep")
    case True
    from True obtain t where t: "c # cs = sep @ t" by (auto simp: HasPrefix_iff)
    from True "2.prems" have "a = []" "b = drop (length sep) (c # cs)" by auto
    then show ?thesis by (simp add: t del: drop_Cons)
  next
    case False
    with "2.prems" obtain a' where "Cut cs sep = Some (a', b)" "a = c # a'" by auto
    with "2.IH"[OF False] show ?thesis by simp
  qed
qed

lemma Cut_char_fst: "Cut s [d] = Some (a, b) \<Longrightarrow> d \<notin> set a"
  by (induction s arbitrary: a) (auto split: if_splits)

lemma Cut_char_None: "Cut s [d] = None \<longleftrightarrow> d \<notin> set s"
  by (induction s) auto

lemma Cut_char: "d \<notin> set a \<Longrightarrow> Cut (a @ d # b) [d] = Some (a, b)"
  by (induction a) auto

lemma Cut_char_nosep: "d \<notin> set a \<Longrightarrow> Cut a [d] = None"
  by (simp add: Cut_char_None)

lemma Contains_char [simp]: "Contains s [d] \<longleftrightarrow> d \<in> set s"
  by (simp add: Contains_def Cut_char_None)

lemma split1_not_Nil [simp]: "split1 d s \<noteq> []"
  by (induction s) (auto split: list.splits)

lemma split1_no_sep: "w \<in> set (split1 d s) \<Longrightarrow> d \<notin> set w"
proof (induction s arbitrary: w)
  case Nil
  then show ?case by simp
next
  case (Cons c cs)
  then show ?case by (cases "split1 d cs") (auto split: if_splits)
qed

lemma split1_nosep [simp]: "d \<notin> set s \<Longrightarrow> split1 d s = [s]"
  by (induction s) auto

lemma split1_append: "d \<notin> set a \<Longrightarrow> split1 d (a @ d # b) = a # split1 d b"
  by (induction a) auto

lemma Join_Cons: "xs \<noteq> [] \<Longrightarrow> Join (x # xs) sep = x @ sep @ Join xs sep"
  by (cases xs) auto

lemma Join_split1 [simp]: "Join (split1 d s) [d] = s"
proof (induction s)
  case Nil
  then show ?case by simp
next
  case (Cons c cs)
  then show ?case
    by (cases "split1 d cs"; cases "tl (split1 d cs)") (auto simp: Join_Cons)
qed

lemma split1_Join:
  "xs \<noteq> [] \<Longrightarrow> \<forall>x \<in> set xs. d \<notin> set x \<Longrightarrow> split1 d (Join xs [d]) = xs"
proof (induction xs "[d]" rule: Join.induct)
  case 1
  then show ?case by simp
next
  case (2 x)
  then show ?case by simp
next
  case (3 x y ys)
  then show ?case by (simp add: split1_append)
qed

lemma Join_eq_Nil: "\<forall>e \<in> set es. e \<noteq> [] \<Longrightarrow> Join es sep = [] \<longleftrightarrow> es = []"
  by (induction es sep rule: Join.induct) auto

lemma split1_snoc: "split1 d (x @ [d]) = split1 d x @ [[]]"
  by (induction x) (auto split: list.splits)

lemma split1_sep: "split1 d (a @ d # b) = split1 d a @ split1 d b"
proof (induction a)
  case Nil
  then show ?case by simp
next
  case (Cons c cs)
  then show ?case by (cases "split1 d cs") auto
qed

lemma split1_inj: "split1 d s = split1 d t \<Longrightarrow> s = t"
  by (metis Join_split1)

lemma HasSuffix_simps [go_string_simps]:
  "HasSuffix s p = HasPrefix (rev s) (rev p)"
  by (simp add: HasSuffix_def)

text \<open>\<open>strings.ReplaceAll\<close> for a nonempty old text.\<close>

function ReplaceAll :: "string \<Rightarrow> string \<Rightarrow> string \<Rightarrow> string" where
  "ReplaceAll [] old new = []"
| "ReplaceAll (c # cs) old new =
     (if old \<noteq> [] \<and> HasPrefix (c # cs) old then new @ ReplaceAll (drop (length old) (c # cs)) old new
      else c # ReplaceAll cs old new)"
  by pat_completeness auto
termination by (relation "measure (\<lambda>(s, _, _). length s)") (auto simp: diff_less_Suc)

declare ReplaceAll.simps(2) [simp del]

text \<open>Replacing one byte.\<close>

lemma ReplaceAll_byte: "ReplaceAll s [c] new = concat (map (\<lambda>x. if x = c then new else [x]) s)"
  by (induction s) (auto simp: ReplaceAll.simps(2))

lemmas [go_string_simps] = TrimPrefix_def TrimSuffix_def CutPrefix_def

end
