(* ===== verification/GoTime.thy ===== *)
theory GoTime
  imports Prelude
begin

text \<open>
  Go durations (\<open>time.Duration\<close>, nanoseconds in an int64) and \<open>time.ParseDuration\<close>, which the
  sweatfile's duration knobs are read with. A fraction is scaled by the exact quotient; Go
  computes the same product in float64. \<open>None\<close> is the parse error.
\<close>

type_synonym Duration = int

definition Nanosecond :: Duration where "Nanosecond = 1"
definition Second :: Duration where "Second = 1000000000"
definition Minute :: Duration where "Minute = 60 * Second"
definition Hour :: Duration where "Hour = 60 * Minute"

definition digit_val :: "char \<Rightarrow> int option" where
  "digit_val c = (if CHR ''0'' \<le> c \<and> c \<le> CHR ''9'' then Some (int (of_char c) - 48) else None)"

text \<open>\<open>leadingInt\<close>: \<open>None\<close> on overflow past \<open>1<<63\<close>.\<close>

fun leadingInt :: "int \<Rightarrow> string \<Rightarrow> (int \<times> string) option" where
  "leadingInt x [] = Some (x, [])"
| "leadingInt x (c # cs) =
     (case digit_val c of
        None \<Rightarrow> Some (x, c # cs)
      | Some d \<Rightarrow>
          if x > 2 ^ 63 div 10 then None
          else if x * 10 + d > 2 ^ 63 then None
          else leadingInt (x * 10 + d) cs)"

text \<open>\<open>leadingFraction\<close>: digits after an overflow are consumed and ignored.\<close>

fun leadingFraction :: "int \<Rightarrow> int \<Rightarrow> bool \<Rightarrow> string \<Rightarrow> int \<times> int \<times> string" where
  "leadingFraction x scale overflow [] = (x, scale, [])"
| "leadingFraction x scale overflow (c # cs) =
     (case digit_val c of
        None \<Rightarrow> (x, scale, c # cs)
      | Some d \<Rightarrow>
          if overflow \<or> x > (2 ^ 63 - 1) div 10 \<or> x * 10 + d > 2 ^ 63
          then leadingFraction x scale True cs
          else leadingFraction (x * 10 + d) (scale * 10) False cs)"

definition unitMap :: "string \<Rightarrow> int option" where
  "unitMap u =
     (if u = ''ns'' then Some 1
      else if u = ''us'' \<or> u = map char_of [0xC2::nat, 0xB5, 0x73] \<or> u = map char_of [0xCE::nat, 0xBC, 0x73]
        then Some 1000
      else if u = ''ms'' then Some 1000000
      else if u = ''s'' then Some 1000000000
      else if u = ''m'' then Some 60000000000
      else if u = ''h'' then Some 3600000000000
      else None)"

definition number_char :: "char \<Rightarrow> bool" where
  "number_char c \<longleftrightarrow> c = CHR ''.'' \<or> digit_val c \<noteq> None"

text \<open>The optional \<open>(\.[0-9]*)\<close>: its digits, their scale, the rest, and whether any digit was read.\<close>

fun fraction_part :: "string \<Rightarrow> int \<times> int \<times> string \<times> bool" where
  "fraction_part [] = (0, 1, [], False)"
| "fraction_part (c # cs) =
     (if c = CHR ''.'' then
        (case leadingFraction 0 1 False cs of (f, sc, r) \<Rightarrow> (f, sc, r, length r \<noteq> length cs))
      else (0, 1, c # cs, False))"

text \<open>One \<open>[0-9]*(\.[0-9]*)?[a-z]+\<close> group: its value in nanoseconds and the rest.\<close>

definition parse_group :: "string \<Rightarrow> (int \<times> string) option" where
  "parse_group s =
     (if s = [] \<or> \<not> number_char (hd s) then None
      else case leadingInt 0 s of
        None \<Rightarrow> None
      | Some (v, s1) \<Rightarrow>
          let pre = (length s1 \<noteq> length s);
              (f, scale, s2, post) = fraction_part s1
          in if \<not> pre \<and> \<not> post then None
             else
               let u = takeWhile (\<lambda>c. \<not> number_char c) s2;
                   rest = dropWhile (\<lambda>c. \<not> number_char c) s2
               in if u = [] then None
                  else case unitMap u of
                    None \<Rightarrow> None
                  | Some un \<Rightarrow>
                      if v > 2 ^ 63 div un then None
                      else
                        let w = v * un + (if f > 0 then f * un div scale else 0)
                        in if w > 2 ^ 63 then None else Some (w, rest))"

lemma leadingInt_length: "leadingInt x s = Some (v, r) \<Longrightarrow> length r \<le> length s"
  by (induction x s rule: leadingInt.induct) (auto split: option.splits if_splits)

lemma leadingFraction_length: "leadingFraction x sc ov s = (f, sc', r) \<Longrightarrow> length r \<le> length s"
  by (induction x sc ov s rule: leadingFraction.induct) (auto split: option.splits if_splits)

lemma dropWhile_shorter: "takeWhile P s \<noteq> [] \<Longrightarrow> length (dropWhile P s) < length s"
proof -
  assume "takeWhile P s \<noteq> []"
  moreover have "length s = length (takeWhile P s) + length (dropWhile P s)"
    by (metis length_append takeWhile_dropWhile_id)
  ultimately show ?thesis by simp
qed

lemma fraction_part_length: "fraction_part s = (f, sc, r, post) \<Longrightarrow> length r \<le> length s"
  by (cases s) (auto dest: leadingFraction_length split: if_splits prod.splits)

lemma parse_group_shorter:
  assumes "parse_group s = Some (w, r)"
  shows "length r < length s"
proof -
  from assms obtain v s1 where i: "leadingInt 0 s = Some (v, s1)"
    by (auto simp: parse_group_def split: if_splits option.splits)
  obtain f sc s2 post where q: "fraction_part s1 = (f, sc, s2, post)"
    by (cases "fraction_part s1") auto
  from assms i q have "takeWhile (\<lambda>c. \<not> number_char c) s2 \<noteq> []"
      and "r = dropWhile (\<lambda>c. \<not> number_char c) s2"
    by (auto simp: parse_group_def Let_def split: if_splits option.splits)
  with dropWhile_shorter have "length r < length s2" by blast
  with fraction_part_length[OF q] leadingInt_length[OF i] show ?thesis by linarith
qed

lemma parse_group_bound: "parse_group s = Some (w, r) \<Longrightarrow> w \<le> 2 ^ 63"
  by (auto simp: parse_group_def Let_def split: if_splits option.splits prod.splits)

function parse_groups :: "int \<Rightarrow> string \<Rightarrow> int option" where
  "parse_groups d s =
     (if s = [] then Some d
      else case parse_group s of
        None \<Rightarrow> None
      | Some (w, r) \<Rightarrow> if d + w > 2 ^ 63 then None else parse_groups (d + w) r)"
  by pat_completeness auto
termination
  by (relation "measure (\<lambda>(d, s). length s)") (auto dest: parse_group_shorter)

declare parse_groups.simps [simp del]

definition ParseDuration :: "string \<Rightarrow> Duration option" where
  "ParseDuration orig =
     (let neg = HasPrefix orig ''-'';
          s = (if HasPrefix orig ''-'' \<or> HasPrefix orig ''+'' then drop 1 orig else orig)
      in if s = ''0'' then Some 0
         else if s = [] then None
         else case parse_groups 0 s of
           None \<Rightarrow> None
         | Some d \<Rightarrow>
             if neg then Some (- d)
             else if d > 2 ^ 63 - 1 then None else Some d)"

lemma parse_groups_bound: "parse_groups d s = Some r \<Longrightarrow> d \<le> 2 ^ 63 \<Longrightarrow> r \<le> 2 ^ 63"
proof (induction d s rule: parse_groups.induct)
  case (1 d s)
  show ?case
  proof (cases "s = []")
    case True
    with "1.prems" show ?thesis by (simp add: parse_groups.simps[of d "[]"])
  next
    case False
    with "1.prems"(1) obtain w t where g: "parse_group s = Some (w, t)"
        and le: "\<not> d + w > 2 ^ 63" and rec: "parse_groups (d + w) t = Some r"
      by (auto simp: parse_groups.simps[of d s] split: option.splits if_splits)
    from "1.IH"[OF False g refl le rec] le show ?thesis by simp
  qed
qed

text \<open>Every duration the model returns is a value of an int64.\<close>

lemma digit_val_nonneg: "digit_val c = Some d \<Longrightarrow> 0 \<le> d"
  by (auto simp: digit_val_def less_eq_char_def split: if_splits)

lemma leadingInt_nonneg: "leadingInt x s = Some (v, r) \<Longrightarrow> 0 \<le> x \<Longrightarrow> 0 \<le> v"
  by (induction x s rule: leadingInt.induct)
     (auto dest!: digit_val_nonneg split: option.splits if_splits)

lemma leadingFraction_nonneg:
  "leadingFraction x sc ov s = (f, sc', r) \<Longrightarrow> 0 \<le> x \<Longrightarrow> 0 < sc \<Longrightarrow> 0 \<le> f \<and> 0 < sc'"
  by (induction x sc ov s rule: leadingFraction.induct)
     (auto dest!: digit_val_nonneg split: option.splits if_splits)

lemma unitMap_pos: "unitMap u = Some n \<Longrightarrow> 0 < n"
  by (auto simp: unitMap_def split: if_splits)

lemma fraction_part_nonneg: "fraction_part s = (f, sc, r, post) \<Longrightarrow> 0 \<le> f \<and> 0 < sc"
  by (cases s) (auto dest: leadingFraction_nonneg split: if_splits prod.splits)

lemma parse_group_nonneg: "parse_group s = Some (w, r) \<Longrightarrow> 0 \<le> w"
  by (auto intro!: add_nonneg_nonneg mult_nonneg_nonneg pos_imp_zdiv_nonneg_iff[THEN iffD2] simp: parse_group_def Let_def
           dest!: leadingInt_nonneg fraction_part_nonneg unitMap_pos
           split: if_splits option.splits prod.splits list.splits)

lemma parse_groups_nonneg: "parse_groups d s = Some r \<Longrightarrow> 0 \<le> d \<Longrightarrow> 0 \<le> r"
proof (induction d s rule: parse_groups.induct)
  case (1 d s)
  show ?case
  proof (cases "s = []")
    case True
    with "1.prems" show ?thesis by (simp add: parse_groups.simps[of d "[]"])
  next
    case False
    with "1.prems"(1) obtain w t where g: "parse_group s = Some (w, t)"
        and le: "\<not> d + w > 2 ^ 63" and rec: "parse_groups (d + w) t = Some r"
      by (auto simp: parse_groups.simps[of d s] split: option.splits if_splits)
    from "1.IH"[OF False g refl le rec] parse_group_nonneg[OF g] "1.prems"(2) show ?thesis by simp
  qed
qed

lemma ParseDuration_int64: "ParseDuration s = Some d \<Longrightarrow> - (2 ^ 63) \<le> d \<and> d < 2 ^ 63"
  by (auto simp: ParseDuration_def Let_def dest: parse_groups_bound parse_groups_nonneg
           split: if_splits option.splits)

lemma ParseDuration_zero: "ParseDuration ''0'' = Some 0"
  by (simp add: ParseDuration_def)

end
