(* ===== verification/Sweatfile.thy ===== *)
theory Sweatfile
  imports GoTime "HOL-Library.AList"
begin

text \<open>
  The sweatfile data model (\<open>src/internal/0/sweatfile/sweatfile.go\<close>): one record per TOML table,
  pointer fields as options, slices whose nil-ness matters as \<open>slice\<close>, and the accessors the rest
  of the program reads the merged file through. The lemmas cover the accessors that decide
  something: which hooks and targets are active, how a bad duration degrades, which MCP servers
  are approved.
\<close>

text \<open>A \<open>map[string]string\<close> is an association list read with \<open>map_of\<close>.\<close>

type_synonym smap = "(string \<times> string) list"

section \<open>Tables\<close>

text \<open>The \<open>[claude]\<close> table.\<close>

record Claude =
  cl_Allow :: "string slice"

text \<open>The \<open>[git]\<close> table.\<close>

record Git =
  git_Excludes :: "string slice"

text \<open>The \<open>[direnv]\<close> table.\<close>

record Direnv =
  de_Envrc :: "string slice"
  de_Dotenv :: "smap option"

text \<open>The \<open>[session-entry]\<close> table.\<close>

record SessionEntry =
  se_Start :: "string list"
  se_Resume :: "string list"
  se_Env :: "smap"
  se_LivenessProbe :: "string list"
  se_TombstoneRetention :: "string"
  se_SpawnEntry :: "string list"
  se_SpawnWindow :: "string list"
  se_ModelFlags :: "smap"
  se_ModelIDs :: "smap"
  se_DisableAutoMode :: "bool ptr"
  se_SpawnProfile :: "string"
  se_Restart :: "string slice"
  se_UnattendedPermissionMode :: "string ptr"

text \<open>The \<open>[hooks]\<close> table.\<close>

record Hooks =
  hk_Create :: "string ptr"
  hk_Stop :: "string ptr"
  hk_PreMerge :: "string ptr"
  hk_ConfinedPreMerge :: "string ptr"
  hk_PostMerge :: "string ptr"
  hk_Repair :: "string ptr"
  hk_PreCommit :: "string ptr"
  hk_OnAttach :: "string ptr"
  hk_OnDetach :: "string ptr"
  hk_DisallowMainWorktree :: "bool ptr"
  hk_ToolUseLog :: "bool ptr"
  hk_DisableMerge :: "bool ptr"
  hk_DisableMergeQueue :: "bool ptr"
  hk_DisableMergeStacking :: "bool ptr"
  hk_DisableRepair :: "bool ptr"
  hk_DisablePostMerge :: "bool ptr"
  hk_DisablePreCommit :: "bool ptr"
  hk_DisableNixGC :: "bool ptr"
  hk_DisableImplicitSessions :: "bool ptr"
  hk_DisableMergeBuildWorktree :: "bool ptr"
  hk_DisableWorktreePathRewrite :: "bool ptr"
  hk_PreMergeOutputFormat :: "string ptr"
  hk_InactivityTimeout :: "string ptr"
  hk_PostMergeTimeout :: "string ptr"
  hk_RepairTimeout :: "string ptr"
  hk_AutoRebuildOnResume :: "bool ptr"
  hk_AllowStaleBase :: "bool ptr"
  hk_AllowNoCredential :: "bool ptr"
  hk_RequireHookScope :: "bool ptr"

text \<open>The \<open>[auth]\<close> table.\<close>

record Auth =
  au_MintCommand :: "string ptr"
  au_RevokeCommand :: "string ptr"
  au_ForgeHosts :: "string slice"
  au_URLResolver :: "string ptr"

text \<open>The \<open>[profile-rights]\<close> table.\<close>

record ProfileRights =
  pr_Enforce :: "bool ptr"
  pr_TransitionTTL :: "string ptr"

text \<open>The \<open>[confinement]\<close> table.\<close>

record Confinement =
  cf_Enabled :: "bool ptr"
  cf_DefaultSpawn :: "bool ptr"
  cf_LaunchUnit :: "bool ptr"
  cf_EgressAllow :: "string slice"
  cf_HarnessConfigWritable :: "bool ptr"

text \<open>The \<open>[permissions]\<close> table.\<close>

record Permissions =
  pm_DenySweatfileEdits :: "bool ptr"
  pm_AllowSelfClose :: "bool ptr"

text \<open>The \<open>[folio]\<close> table (\<open>Folio\<close> in the source).\<close>

record FolioTable =
  fo_Read :: "string slice"
  fo_Write :: "string slice"
  fo_Deny :: "string slice"
  fo_Unmatched :: "string ptr"

text \<open>The \<open>[health]\<close> table.\<close>

record Health =
  he_BusyBound :: "string ptr"

text \<open>The \<open>[madder]\<close> table.\<close>

record Madder =
  md_Retain :: "string ptr"

text \<open>The \<open>[metrics]\<close> table.\<close>

record Metrics =
  mt_StatsdAddress :: "string ptr"
  mt_DisableStatsd :: "bool ptr"

text \<open>The \<open>[store]\<close> table.\<close>

record Store =
  st_AuthorName :: "string ptr"
  st_AuthorEmail :: "string ptr"
  st_CommitterName :: "string ptr"
  st_CommitterEmail :: "string ptr"

text \<open>The \<open>[sysprompt]\<close> table.\<close>

record Sysprompt =
  sy_DocIndexDirs :: "string slice"
  sy_ManIndex :: "string slice"
  sy_RepoIndex :: "string slice"
  sy_IndexLimit :: "int ptr"

text \<open>One \<open>[[mcps]]\<close> entry.\<close>

record MCPServerDef =
  mcp_Name :: "string"
  mcp_Command :: "string"
  mcp_Args :: "string list"
  mcp_Env :: "smap"

text \<open>One \<open>[[start-commands]]\<close> entry.\<close>

record StartCommand =
  sc_Name :: "string"
  sc_Description :: "string"
  sc_ArgName :: "string"
  sc_ArgHelp :: "string"
  sc_ArgRegex :: "string ptr"
  sc_ExecCompletions :: "string list"
  sc_ExecStart :: "string list"

text \<open>One \<open>[[remotes]]\<close> entry.\<close>

record Remote =
  rm_Name :: "string"
  rm_SSH :: "string"
  rm_Attach :: "string list"
  rm_Remove :: "bool"

text \<open>One \<open>[[pre-merge-skills]]\<close> entry.\<close>

record PreMergeSkill =
  ps_Name :: "string"
  ps_Rationale :: "string"

text \<open>One \<open>[[pre-merge-exemptions]]\<close> entry.\<close>

record PreMergeExemption =
  pe_Name :: "string"
  pe_Command :: "string"

text \<open>One \<open>[[post-merge]]\<close> target.\<close>

record PostMergeTarget =
  pt_Name :: "string"
  pt_Command :: "string"
  pt_Verify :: "string ptr"

text \<open>A parsed sweatfile: one pointer per table, one list per array of tables.\<close>

record Sweatfile =
  sf_Claude :: "Claude ptr"
  sf_Git :: "Git ptr"
  sf_Direnv :: "Direnv ptr"
  sf_Hooks :: "Hooks ptr"
  sf_Auth :: "Auth ptr"
  sf_Metrics :: "Metrics ptr"
  sf_Madder :: "Madder ptr"
  sf_Store :: "Store ptr"
  sf_ProfileRights :: "ProfileRights ptr"
  sf_Confinement :: "Confinement ptr"
  sf_Permissions :: "Permissions ptr"
  sf_Folio :: "FolioTable ptr"
  sf_Health :: "Health ptr"
  sf_Sysprompt :: "Sysprompt ptr"
  sf_SessionEntry :: "SessionEntry ptr"
  sf_StartCommands :: "StartCommand list"
  sf_AllowedMCPs :: "string slice"
  sf_MCPs :: "MCPServerDef list"
  sf_PreMergeSkills :: "PreMergeSkill list"
  sf_PreMergeExemptions :: "PreMergeExemption list"
  sf_Remotes :: "Remote list"
  sf_PostMerge :: "PostMergeTarget list"

section \<open>Zero values\<close>

text \<open>\<open>&T{}\<close> of the tables \<open>MergeWith\<close> creates, and the empty sweatfile.\<close>

definition empty_Claude :: Claude where
  "empty_Claude =
     \<lparr>cl_Allow = None\<rparr>"

definition empty_Git :: Git where
  "empty_Git =
     \<lparr>git_Excludes = None\<rparr>"

definition empty_Direnv :: Direnv where
  "empty_Direnv =
     \<lparr>de_Envrc = None, de_Dotenv = None\<rparr>"

definition empty_SessionEntry :: SessionEntry where
  "empty_SessionEntry =
     \<lparr>se_Start = [], se_Resume = [], se_Env = [], se_LivenessProbe = [],
       se_TombstoneRetention = [], se_SpawnEntry = [], se_SpawnWindow = [],
       se_ModelFlags = [], se_ModelIDs = [], se_DisableAutoMode = None, se_SpawnProfile = [],
       se_Restart = None, se_UnattendedPermissionMode = None\<rparr>"

definition empty_Hooks :: Hooks where
  "empty_Hooks =
     \<lparr>hk_Create = None, hk_Stop = None, hk_PreMerge = None, hk_ConfinedPreMerge = None,
       hk_PostMerge = None, hk_Repair = None, hk_PreCommit = None, hk_OnAttach = None,
       hk_OnDetach = None, hk_DisallowMainWorktree = None, hk_ToolUseLog = None,
       hk_DisableMerge = None, hk_DisableMergeQueue = None, hk_DisableMergeStacking = None,
       hk_DisableRepair = None, hk_DisablePostMerge = None, hk_DisablePreCommit = None,
       hk_DisableNixGC = None, hk_DisableImplicitSessions = None,
       hk_DisableMergeBuildWorktree = None, hk_DisableWorktreePathRewrite = None,
       hk_PreMergeOutputFormat = None, hk_InactivityTimeout = None,
       hk_PostMergeTimeout = None, hk_RepairTimeout = None, hk_AutoRebuildOnResume = None,
       hk_AllowStaleBase = None, hk_AllowNoCredential = None, hk_RequireHookScope = None\<rparr>"

definition empty_Auth :: Auth where
  "empty_Auth =
     \<lparr>au_MintCommand = None, au_RevokeCommand = None, au_ForgeHosts = None,
       au_URLResolver = None\<rparr>"

definition empty_Metrics :: Metrics where
  "empty_Metrics =
     \<lparr>mt_StatsdAddress = None, mt_DisableStatsd = None\<rparr>"

definition empty_Madder :: Madder where
  "empty_Madder =
     \<lparr>md_Retain = None\<rparr>"

definition empty_Store :: Store where
  "empty_Store =
     \<lparr>st_AuthorName = None, st_AuthorEmail = None, st_CommitterName = None,
       st_CommitterEmail = None\<rparr>"

definition empty_Sysprompt :: Sysprompt where
  "empty_Sysprompt =
     \<lparr>sy_DocIndexDirs = None, sy_ManIndex = None, sy_RepoIndex = None, sy_IndexLimit = None\<rparr>"

definition empty_Sweatfile :: Sweatfile where
  "empty_Sweatfile =
     \<lparr>sf_Claude = None, sf_Git = None, sf_Direnv = None, sf_Hooks = None, sf_Auth = None,
       sf_Metrics = None, sf_Madder = None, sf_Store = None, sf_ProfileRights = None,
       sf_Confinement = None, sf_Permissions = None, sf_Folio = None, sf_Health = None,
       sf_Sysprompt = None, sf_SessionEntry = None, sf_StartCommands = [],
       sf_AllowedMCPs = None, sf_MCPs = [], sf_PreMergeSkills = [],
       sf_PreMergeExemptions = [], sf_Remotes = [], sf_PostMerge = []\<rparr>"

section \<open>Accessors\<close>

abbreviation newline :: char where "newline \<equiv> CHR 0x0A"

text \<open>\<open>Remote.Dest\<close>.\<close>

definition Remote_Dest :: "Remote \<Rightarrow> string" where
  "Remote_Dest r = (if rm_SSH r \<noteq> [] then rm_SSH r else rm_Name r)"

text \<open>\<open>NormalizeCommand\<close> drops the blank lines of a declared command.\<close>

definition NormalizeCommand :: "string \<Rightarrow> string" where
  "NormalizeCommand s = Join (filter (\<lambda>l. TrimSpace l \<noteq> []) (split1 newline s)) [newline]"

definition PostMergeTarget_HasVerify :: "PostMergeTarget \<Rightarrow> bool" where
  "PostMergeTarget_HasVerify t =
     (case pt_Verify t of None \<Rightarrow> False | Some v \<Rightarrow> NormalizeCommand v \<noteq> [])"

text \<open>The nil-guarded reads of a \<open>[hooks]\<close> field: a command pointer and a boolean switch.\<close>

definition hook_string :: "(Hooks \<Rightarrow> string ptr) \<Rightarrow> Sweatfile \<Rightarrow> string ptr" where
  "hook_string f sf = (case sf_Hooks sf of None \<Rightarrow> None | Some h \<Rightarrow> f h)"

definition hook_flag :: "(Hooks \<Rightarrow> bool ptr) \<Rightarrow> Sweatfile \<Rightarrow> bool" where
  "hook_flag f sf = (case sf_Hooks sf of None \<Rightarrow> False | Some h \<Rightarrow> is_true (f h))"

definition StopHookCommand where "StopHookCommand = hook_string hk_Stop"
definition CreateHookCommand where "CreateHookCommand = hook_string hk_Create"
definition PreMergeHookCommand where "PreMergeHookCommand = hook_string hk_PreMerge"
definition PostMergeHookCommand where "PostMergeHookCommand = hook_string hk_PostMerge"
definition RepairHookCommand where "RepairHookCommand = hook_string hk_Repair"
definition OnAttachHookCommand where "OnAttachHookCommand = hook_string hk_OnAttach"
definition OnDetachHookCommand where "OnDetachHookCommand = hook_string hk_OnDetach"
definition PreCommitHookCommand where "PreCommitHookCommand = hook_string hk_PreCommit"

definition DisallowMainWorktreeEnabled where "DisallowMainWorktreeEnabled = hook_flag hk_DisallowMainWorktree"
definition ToolUseLogEnabled where "ToolUseLogEnabled = hook_flag hk_ToolUseLog"
definition DisableMergeEnabled where "DisableMergeEnabled = hook_flag hk_DisableMerge"
definition DisableMergeQueueEnabled where "DisableMergeQueueEnabled = hook_flag hk_DisableMergeQueue"
definition DisableMergeStackingEnabled where "DisableMergeStackingEnabled = hook_flag hk_DisableMergeStacking"
definition RepairDisabled where "RepairDisabled = hook_flag hk_DisableRepair"
definition PostMergeDisabled where "PostMergeDisabled = hook_flag hk_DisablePostMerge"
definition PreCommitDisabled where "PreCommitDisabled = hook_flag hk_DisablePreCommit"
definition AutoRebuildOnResume where "AutoRebuildOnResume = hook_flag hk_AutoRebuildOnResume"
definition AllowStaleBase where "AllowStaleBase = hook_flag hk_AllowStaleBase"
definition AllowNoCredential where "AllowNoCredential = hook_flag hk_AllowNoCredential"
definition RequireHookScope where "RequireHookScope = hook_flag hk_RequireHookScope"
definition DisableNixGCEnabled where "DisableNixGCEnabled = hook_flag hk_DisableNixGC"
definition DisableImplicitSessionsEnabled where "DisableImplicitSessionsEnabled = hook_flag hk_DisableImplicitSessions"
definition MergeBuildWorktreeDisabled where "MergeBuildWorktreeDisabled = hook_flag hk_DisableMergeBuildWorktree"
definition WorktreePathRewriteDisabled where "WorktreePathRewriteDisabled = hook_flag hk_DisableWorktreePathRewrite"

text \<open>\<open>cmd != nil && NormalizeCommand(*cmd) != ""\<close>.\<close>

definition command_set :: "string ptr \<Rightarrow> bool" where
  "command_set c = (case c of None \<Rightarrow> False | Some s \<Rightarrow> NormalizeCommand s \<noteq> [])"

definition PostMergeActive :: "Sweatfile \<Rightarrow> bool" where
  "PostMergeActive sf = (if PostMergeDisabled sf then False else command_set (PostMergeHookCommand sf))"

definition RepairActive :: "Sweatfile \<Rightarrow> bool" where
  "RepairActive sf = (if RepairDisabled sf then False else command_set (RepairHookCommand sf))"

definition PreCommitActive :: "Sweatfile \<Rightarrow> bool" where
  "PreCommitActive sf = (if PreCommitDisabled sf then False else command_set (PreCommitHookCommand sf))"

definition ActivePostMergeTargets :: "Sweatfile \<Rightarrow> PostMergeTarget list" where
  "ActivePostMergeTargets sf = filter (\<lambda>t. NormalizeCommand (pt_Command t) \<noteq> []) (sf_PostMerge sf)"

definition PostMergePhaseActive :: "Sweatfile \<Rightarrow> bool" where
  "PostMergePhaseActive sf =
     (if PostMergeDisabled sf then False
      else if length (ActivePostMergeTargets sf) > 0 then True
      else command_set (PostMergeHookCommand sf))"

definition ActiveMCPs :: "Sweatfile \<Rightarrow> MCPServerDef list" where
  "ActiveMCPs sf = filter (\<lambda>m. mcp_Command m \<noteq> []) (sf_MCPs sf)"

definition ActivePreMergeSkills :: "Sweatfile \<Rightarrow> PreMergeSkill list" where
  "ActivePreMergeSkills sf = filter (\<lambda>s. ps_Rationale s \<noteq> []) (sf_PreMergeSkills sf)"

definition ActivePreMergeExemptions :: "Sweatfile \<Rightarrow> PreMergeExemption list" where
  "ActivePreMergeExemptions sf =
     filter (\<lambda>e. NormalizeCommand (pe_Command e) \<noteq> []) (sf_PreMergeExemptions sf)"

definition ActiveRemotes :: "Sweatfile \<Rightarrow> Remote list" where
  "ActiveRemotes sf = filter (\<lambda>r. \<not> rm_Remove r) (sf_Remotes sf)"

text \<open>\<open>EffectiveAllowedMCPs\<close>: a first-seen deduplication over two loops sharing \<open>seen\<close>.\<close>

fun dedup_seen :: "string list \<Rightarrow> string set \<Rightarrow> string list \<Rightarrow> string set \<times> string list" where
  "dedup_seen [] seen result = (seen, result)"
| "dedup_seen (n # ns) seen result =
     (if n \<in> seen then dedup_seen ns seen result
      else dedup_seen ns (insert n seen) (result @ [n]))"

definition EffectiveAllowedMCPs :: "Sweatfile \<Rightarrow> string list" where
  "EffectiveAllowedMCPs sf =
     (let (seen, result) = dedup_seen (slice_elems (sf_AllowedMCPs sf)) {} [] in
      snd (dedup_seen (map mcp_Name (filter (\<lambda>m. mcp_Command m \<noteq> []) (sf_MCPs sf))) seen result))"

subsection \<open>Duration knobs\<close>

datatype cap_error = Unparseable string string | Negative string string

text \<open>\<open>parseHookCap\<close>: the one rule for a hook's wall-clock cap.\<close>

definition parseHookCap :: "string \<Rightarrow> string \<Rightarrow> cap_error + Duration" where
  "parseHookCap knob v =
     (case ParseDuration v of
        None \<Rightarrow> Inl (Unparseable knob v)
      | Some d \<Rightarrow> if d < 0 then Inl (Negative knob v) else Inr d)"

definition ParsePostMergeTimeout :: "string \<Rightarrow> cap_error + Duration" where
  "ParsePostMergeTimeout v = parseHookCap ''post-merge-timeout'' v"

definition ParseRepairTimeout :: "string \<Rightarrow> cap_error + Duration" where
  "ParseRepairTimeout v = parseHookCap ''repair-timeout'' v"

definition DefaultPostMergeTimeout :: Duration where "DefaultPostMergeTimeout = 10 * Minute"
definition DefaultRepairTimeout :: Duration where "DefaultRepairTimeout = 10 * Minute"

definition PostMergeTimeoutValue :: "Sweatfile \<Rightarrow> Duration" where
  "PostMergeTimeoutValue sf =
     (case hook_string hk_PostMergeTimeout sf of
        None \<Rightarrow> DefaultPostMergeTimeout
      | Some v \<Rightarrow>
          if v = [] then DefaultPostMergeTimeout
          else (case ParsePostMergeTimeout v of Inl _ \<Rightarrow> DefaultPostMergeTimeout | Inr d \<Rightarrow> d))"

definition RepairTimeoutValue :: "Sweatfile \<Rightarrow> Duration" where
  "RepairTimeoutValue sf =
     (case hook_string hk_RepairTimeout sf of
        None \<Rightarrow> DefaultRepairTimeout
      | Some v \<Rightarrow>
          if v = [] then DefaultRepairTimeout
          else (case ParseRepairTimeout v of Inl _ \<Rightarrow> DefaultRepairTimeout | Inr d \<Rightarrow> d))"

definition InactivityTimeoutValue :: "Sweatfile \<Rightarrow> Duration" where
  "InactivityTimeoutValue sf =
     (case hook_string hk_InactivityTimeout sf of
        None \<Rightarrow> 0
      | Some v \<Rightarrow> (case ParseDuration v of None \<Rightarrow> 0 | Some d \<Rightarrow> if d < 0 then 0 else d))"

text \<open>\<open>(d, true)\<close> is \<open>Some d\<close>, \<open>(0, false)\<close> is \<open>None\<close>.\<close>

definition AttestationRetention :: "Sweatfile \<Rightarrow> Duration option" where
  "AttestationRetention sf =
     (case sf_Madder sf of None \<Rightarrow> None | Some m \<Rightarrow>
       (case md_Retain m of None \<Rightarrow> None | Some v \<Rightarrow>
         if v = [] then None
         else (case ParseDuration v of None \<Rightarrow> None | Some d \<Rightarrow> if d \<le> 0 then None else Some d)))"

definition TombstoneRetention :: "Sweatfile \<Rightarrow> Duration option" where
  "TombstoneRetention sf =
     (case sf_SessionEntry sf of None \<Rightarrow> None | Some e \<Rightarrow>
       if se_TombstoneRetention e = [] then None else ParseDuration (se_TombstoneRetention e))"

definition DefaultTransitionTTL :: Duration where "DefaultTransitionTTL = 24 * Hour"

datatype ttl_error = TTLUnparseable string | TTLOutOfRange string

definition ParseTransitionTTL :: "string \<Rightarrow> ttl_error + Duration" where
  "ParseTransitionTTL v =
     (case ParseDuration v of
        None \<Rightarrow> Inl (TTLUnparseable v)
      | Some d \<Rightarrow> if d < Minute \<or> d > 168 * Hour then Inl (TTLOutOfRange v) else Inr d)"

subsection \<open>The other tables\<close>

definition AuthMintCommand :: "Sweatfile \<Rightarrow> string ptr" where
  "AuthMintCommand sf = (case sf_Auth sf of None \<Rightarrow> None | Some a \<Rightarrow> au_MintCommand a)"

definition AuthRevokeCommand :: "Sweatfile \<Rightarrow> string ptr" where
  "AuthRevokeCommand sf = (case sf_Auth sf of None \<Rightarrow> None | Some a \<Rightarrow> au_RevokeCommand a)"

definition AuthForgeHosts :: "Sweatfile \<Rightarrow> string slice" where
  "AuthForgeHosts sf = (case sf_Auth sf of None \<Rightarrow> None | Some a \<Rightarrow> au_ForgeHosts a)"

definition MetricsStatsdAddress :: "Sweatfile \<Rightarrow> string" where
  "MetricsStatsdAddress sf =
     (case sf_Metrics sf of None \<Rightarrow> [] | Some m \<Rightarrow>
       (case mt_StatsdAddress m of None \<Rightarrow> [] | Some v \<Rightarrow> v))"

definition MetricsStatsdDisabled :: "Sweatfile \<Rightarrow> bool" where
  "MetricsStatsdDisabled sf =
     (case sf_Metrics sf of None \<Rightarrow> False | Some m \<Rightarrow> is_true (mt_DisableStatsd m))"

definition valueOf :: "string ptr \<Rightarrow> string" where
  "valueOf p = (case p of None \<Rightarrow> [] | Some v \<Rightarrow> v)"

text \<open>\<open>StoreIdentity\<close>: author name and email, committer name and email.\<close>

definition StoreIdentity :: "Sweatfile \<Rightarrow> string \<times> string \<times> string \<times> string" where
  "StoreIdentity sf =
     (case sf_Store sf of
        None \<Rightarrow> ([], [], [], [])
      | Some s \<Rightarrow>
          let authorName = valueOf (st_AuthorName s); authorEmail = valueOf (st_AuthorEmail s);
              committerName = valueOf (st_CommitterName s); committerEmail = valueOf (st_CommitterEmail s);
              committerName = (if committerName = [] then authorName else committerName);
              committerEmail = (if committerEmail = [] then authorEmail else committerEmail)
          in (authorName, authorEmail, committerName, committerEmail))"

definition PreMergeOutputFormatValue :: "Sweatfile \<Rightarrow> string" where
  "PreMergeOutputFormatValue sf =
     (case hook_string hk_PreMergeOutputFormat sf of
        None \<Rightarrow> ''raw'' | Some v \<Rightarrow> if v = [] then ''raw'' else v)"

definition GitExcludes :: "Sweatfile \<Rightarrow> string slice" where
  "GitExcludes sf = (case sf_Git sf of None \<Rightarrow> None | Some g \<Rightarrow> git_Excludes g)"

text \<open>The \<open>[sysprompt]\<close> reads return the value and whether it was set.\<close>

definition SyspromptDocIndexDirs :: "Sweatfile \<Rightarrow> string list option" where
  "SyspromptDocIndexDirs sf = (case sf_Sysprompt sf of None \<Rightarrow> None | Some s \<Rightarrow> sy_DocIndexDirs s)"

definition SyspromptManIndex :: "Sweatfile \<Rightarrow> string list option" where
  "SyspromptManIndex sf = (case sf_Sysprompt sf of None \<Rightarrow> None | Some s \<Rightarrow> sy_ManIndex s)"

definition SyspromptRepoIndex :: "Sweatfile \<Rightarrow> string list option" where
  "SyspromptRepoIndex sf = (case sf_Sysprompt sf of None \<Rightarrow> None | Some s \<Rightarrow> sy_RepoIndex s)"

definition SyspromptIndexLimit :: "Sweatfile \<Rightarrow> int option" where
  "SyspromptIndexLimit sf = (case sf_Sysprompt sf of None \<Rightarrow> None | Some s \<Rightarrow> sy_IndexLimit s)"

text \<open>\<open>SessionStart\<close> reads \<open>$SHELL\<close>: the argument.\<close>

definition SessionStart :: "string \<Rightarrow> Sweatfile \<Rightarrow> string list" where
  "SessionStart shell sf =
     (let dflt = [if shell = [] then ''/bin/sh'' else shell] in
      case sf_SessionEntry sf of None \<Rightarrow> dflt
      | Some e \<Rightarrow> if length (se_Start e) > 0 then se_Start e else dflt)"

definition SessionResume :: "Sweatfile \<Rightarrow> string list" where
  "SessionResume sf = (case sf_SessionEntry sf of None \<Rightarrow> [] | Some e \<Rightarrow> se_Resume e)"

definition SessionSpawnEntry :: "Sweatfile \<Rightarrow> string list" where
  "SessionSpawnEntry sf =
     (let dflt = [''clown'', ''--clown-attach=spawn'', ''--'', ''{prompt}''] in
      case sf_SessionEntry sf of None \<Rightarrow> dflt
      | Some e \<Rightarrow> if length (se_SpawnEntry e) > 0 then se_SpawnEntry e else dflt)"

definition SessionSpawnWindow :: "Sweatfile \<Rightarrow> string list" where
  "SessionSpawnWindow sf = (case sf_SessionEntry sf of None \<Rightarrow> [] | Some e \<Rightarrow> se_SpawnWindow e)"

definition SessionModelFlags :: "Sweatfile \<Rightarrow> smap" where
  "SessionModelFlags sf =
     (let dflt = [(''claude'', ''--model'')] in
      case sf_SessionEntry sf of None \<Rightarrow> dflt
      | Some e \<Rightarrow> if length (se_ModelFlags e) > 0 then se_ModelFlags e else dflt)"

definition SessionModelIDs :: "Sweatfile \<Rightarrow> smap" where
  "SessionModelIDs sf = (case sf_SessionEntry sf of None \<Rightarrow> [] | Some e \<Rightarrow> se_ModelIDs e)"

definition SessionAutoModeDisabled :: "Sweatfile \<Rightarrow> bool" where
  "SessionAutoModeDisabled sf =
     (case sf_SessionEntry sf of None \<Rightarrow> False | Some e \<Rightarrow> is_true (se_DisableAutoMode e))"

definition ValidUnattendedPermissionMode :: "string \<Rightarrow> bool" where
  "ValidUnattendedPermissionMode mode \<longleftrightarrow> mode = ''dontAsk'' \<or> mode = ''auto''"

definition SessionSpawnProfile :: "Sweatfile \<Rightarrow> string" where
  "SessionSpawnProfile sf = (case sf_SessionEntry sf of None \<Rightarrow> [] | Some e \<Rightarrow> se_SpawnProfile e)"

definition SessionEnv :: "Sweatfile \<Rightarrow> smap" where
  "SessionEnv sf = (case sf_SessionEntry sf of None \<Rightarrow> [] | Some e \<Rightarrow> se_Env e)"

definition SessionLivenessProbe :: "Sweatfile \<Rightarrow> string list" where
  "SessionLivenessProbe sf = (case sf_SessionEntry sf of None \<Rightarrow> [] | Some e \<Rightarrow> se_LivenessProbe e)"

section \<open>Commands and active entries\<close>

lemma strip_one_Nil [simp]: "strip_one encs [] = None"
proof -
  have "filter (\<lambda>e. e \<noteq> [] \<and> HasPrefix [] e) encs = []"
    by (induction encs) (auto simp: neq_Nil_conv)
  then show ?thesis by (simp add: strip_one_def)
qed

lemma TrimSpace_Nil [simp]: "TrimSpace [] = []"
  by (simp add: TrimSpace_def trim_front.simps)

definition command_lines :: "string \<Rightarrow> string list" where
  "command_lines s = filter (\<lambda>l. TrimSpace l \<noteq> []) (split1 newline s)"

lemma command_lines_nonempty: "l \<in> set (command_lines s) \<Longrightarrow> l \<noteq> [] \<and> newline \<notin> set l"
  by (auto simp: command_lines_def dest: split1_no_sep)

lemma NormalizeCommand_lines: "NormalizeCommand s = Join (command_lines s) [newline]"
  by (simp add: NormalizeCommand_def command_lines_def)

lemma NormalizeCommand_empty: "NormalizeCommand s = [] \<longleftrightarrow> command_lines s = []"
  by (simp add: NormalizeCommand_lines Join_eq_Nil command_lines_nonempty)

lemma command_lines_NormalizeCommand: "command_lines (NormalizeCommand s) = command_lines s"
proof (cases "command_lines s = []")
  case True
  then show ?thesis by (simp add: NormalizeCommand_lines) (simp add: command_lines_def)
next
  case False
  then have "split1 newline (NormalizeCommand s) = command_lines s"
    by (simp add: NormalizeCommand_lines split1_Join command_lines_nonempty)
  then show ?thesis by (simp add: command_lines_def)
qed

text \<open>
  \<open>NormalizeCommand\<close> keeps exactly the non-blank lines, in order: its result is empty
  precisely when every line is blank, normalising twice changes nothing, and a command is
  reported active by \<open>PostMergePhaseActive\<close> only when it is not disabled and a target or the
  legacy string has a non-blank line.
\<close>

theorem NormalizeCommand_spec:
  "command_lines (NormalizeCommand s) = command_lines s \<and>
   NormalizeCommand (NormalizeCommand s) = NormalizeCommand s \<and>
   (NormalizeCommand s = [] \<longleftrightarrow> (\<forall>l \<in> set (split1 newline s). TrimSpace l = [])) \<and>
   (PostMergePhaseActive sf \<longleftrightarrow>
      \<not> PostMergeDisabled sf \<and>
      ((\<exists>t \<in> set (sf_PostMerge sf). command_lines (pt_Command t) \<noteq> []) \<or>
       (\<exists>c. PostMergeHookCommand sf = Some c \<and> command_lines c \<noteq> [])))"
proof (intro conjI)
  show "NormalizeCommand (NormalizeCommand s) = NormalizeCommand s"
    by (simp add: NormalizeCommand_lines[of "NormalizeCommand s"] command_lines_NormalizeCommand)
       (simp add: NormalizeCommand_lines)
  show "NormalizeCommand s = [] \<longleftrightarrow> (\<forall>l \<in> set (split1 newline s). TrimSpace l = [])"
    by (simp add: NormalizeCommand_empty) (simp add: command_lines_def filter_empty_conv)
  show "PostMergePhaseActive sf \<longleftrightarrow>
      \<not> PostMergeDisabled sf \<and>
      ((\<exists>t \<in> set (sf_PostMerge sf). command_lines (pt_Command t) \<noteq> []) \<or>
       (\<exists>c. PostMergeHookCommand sf = Some c \<and> command_lines c \<noteq> []))"
    by (auto simp: PostMergePhaseActive_def ActivePostMergeTargets_def command_set_def
          NormalizeCommand_empty filter_empty_conv split: option.splits if_splits)
qed (rule command_lines_NormalizeCommand)

section \<open>Deduplicated MCP names\<close>

lemma dedup_seen_spec:
  assumes "dedup_seen ns seen res = (seen', res')" "seen = set res" "distinct res"
  shows "seen' = set res' \<and> distinct res' \<and> set res' = set res \<union> set ns \<and> (\<exists>t. res' = res @ t)"
  using assms
proof (induction ns seen res arbitrary: seen' res' rule: dedup_seen.induct)
  case (1 seen result)
  then show ?case by auto
next
  case (2 n ns seen result)
  show ?case
  proof (cases "n \<in> seen")
    case True
    have "dedup_seen ns seen result = (seen', res')" using "2.prems"(1) True by simp
    from "2.IH"(1)[OF True this "2.prems"(2,3)] True "2.prems"(2) show ?thesis by auto
  next
    case False
    have "dedup_seen ns (insert n seen) (result @ [n]) = (seen', res')" using "2.prems"(1) False by simp
    from "2.IH"(2)[OF False this] False "2.prems"(2,3) show ?thesis by auto
  qed
qed

text \<open>
  \<open>EffectiveAllowedMCPs\<close> lists each approved server once: exactly the explicit
  \<open>allowed-mcps\<close> names and the names of the declared servers with a command (so a removal
  sentinel alone approves nothing), the explicit names first.
\<close>

theorem EffectiveAllowedMCPs_spec:
  "distinct (EffectiveAllowedMCPs sf) \<and>
   set (EffectiveAllowedMCPs sf) =
     set (slice_elems (sf_AllowedMCPs sf)) \<union> mcp_Name ` set (ActiveMCPs sf) \<and>
   (\<exists>later. EffectiveAllowedMCPs sf =
      EffectiveAllowedMCPs (sf\<lparr>sf_MCPs := []\<rparr>) @ later)"
proof -
  obtain seen res where e: "dedup_seen (slice_elems (sf_AllowedMCPs sf)) {} [] = (seen, res)" by fastforce
  from dedup_seen_spec[OF e] have 1:
    "seen = set res" "distinct res" "set res = set (slice_elems (sf_AllowedMCPs sf))" by auto
  obtain seen' res' where m:
    "dedup_seen (map mcp_Name (filter (\<lambda>m. mcp_Command m \<noteq> []) (sf_MCPs sf))) seen res = (seen', res')"
    by fastforce
  from dedup_seen_spec[OF m 1(1,2)] 1(3) e m show ?thesis
    by (auto simp: EffectiveAllowedMCPs_def ActiveMCPs_def)
qed

section \<open>Timeouts\<close>

lemma parseHookCap_nonneg: "parseHookCap k v = Inr d \<Longrightarrow> 0 \<le> d \<and> ParseDuration v = Some d"
  by (auto simp: parseHookCap_def split: option.splits if_splits)

text \<open>
  A hook cap that is on by default cannot be stripped by a typo: the effective post-merge and
  repair caps are never negative and fit an int64, and either is 0 (no cap) only when the
  sweatfile spells a zero duration; the inactivity watchdog degrades the other way, to off.
\<close>

theorem hook_caps:
  "0 \<le> PostMergeTimeoutValue sf \<and> PostMergeTimeoutValue sf < 2 ^ 63 \<and>
   0 \<le> RepairTimeoutValue sf \<and> RepairTimeoutValue sf < 2 ^ 63 \<and> 0 \<le> InactivityTimeoutValue sf \<and>
   (PostMergeTimeoutValue sf = 0 \<longleftrightarrow>
      (\<exists>v. hook_string hk_PostMergeTimeout sf = Some v \<and> v \<noteq> [] \<and> ParseDuration v = Some 0)) \<and>
   (RepairTimeoutValue sf = 0 \<longleftrightarrow>
      (\<exists>v. hook_string hk_RepairTimeout sf = Some v \<and> v \<noteq> [] \<and> ParseDuration v = Some 0)) \<and>
   (InactivityTimeoutValue sf \<noteq> 0 \<longleftrightarrow>
      (\<exists>v d. hook_string hk_InactivityTimeout sf = Some v \<and> ParseDuration v = Some d \<and> 0 < d))"
proof -
  have default: "DefaultPostMergeTimeout = 600000000000" "DefaultRepairTimeout = 600000000000"
    by (simp_all add: DefaultPostMergeTimeout_def DefaultRepairTimeout_def Minute_def Second_def)
  note d64 = ParseDuration_int64
  show ?thesis
    by (auto simp: PostMergeTimeoutValue_def RepairTimeoutValue_def InactivityTimeoutValue_def default
          ParsePostMergeTimeout_def ParseRepairTimeout_def parseHookCap_def
          dest: d64 split: option.splits sum.splits if_splits)
qed

end
