(* ===== verification/Merge.thy ===== *)
theory Merge
  imports Sweatfile
begin

text \<open>
  The sweatfile cascade's merge (\<open>src/internal/0/sweatfile/hierarchy.go\<close>): \<open>MergeWith\<close>, one
  definition per table, the loop that merges an array of tables by name, and the laws of a fold of
  \<open>MergeWith\<close> over the layers: which layer decides each kind of key, and which keys are never
  carried into a merged file.
\<close>

section \<open>Table merges\<close>

text \<open>The list directive rule: nil inherits, an explicit empty list clears, otherwise append.\<close>

definition append_directive :: "string slice \<Rightarrow> string slice \<Rightarrow> string slice" where
  "append_directive m n =
     (case n of None \<Rightarrow> m
      | Some xs \<Rightarrow> if length xs = 0 then Some [] else Some (slice_elems m @ xs))"

text \<open>The copy-or-create of a table pointer before it is written.\<close>

definition table_or :: "'a \<Rightarrow> 'a ptr \<Rightarrow> 'a" where
  "table_or zero m = (case m of None \<Rightarrow> zero | Some t \<Rightarrow> t)"

lemma append_directive_simps [simp]:
  "append_directive m None = m"
  "append_directive m (Some []) = Some []"
  "append_directive m (Some (x # xs)) = Some (slice_elems m @ x # xs)"
  by (simp_all add: append_directive_def)

definition merge_claude :: "Claude ptr \<Rightarrow> Claude ptr \<Rightarrow> Claude ptr" where
  "merge_claude m n =
     (case n of None \<Rightarrow> m
      | Some t \<Rightarrow> let b = table_or empty_Claude m in
          Some (b\<lparr>cl_Allow := append_directive (cl_Allow b) (cl_Allow t)\<rparr>))"

definition merge_git :: "Git ptr \<Rightarrow> Git ptr \<Rightarrow> Git ptr" where
  "merge_git m n =
     (case n of None \<Rightarrow> m
      | Some t \<Rightarrow> let b = table_or empty_Git m in
          Some (b\<lparr>git_Excludes := append_directive (git_Excludes b) (git_Excludes t)\<rparr>))"

definition merge_direnv :: "Direnv ptr \<Rightarrow> Direnv ptr \<Rightarrow> Direnv ptr" where
  "merge_direnv m n =
     (case n of None \<Rightarrow> m
      | Some t \<Rightarrow> let b = table_or empty_Direnv m in
          Some (b\<lparr>de_Envrc := append_directive (de_Envrc b) (de_Envrc t),
                  de_Dotenv := (case de_Dotenv t of None \<Rightarrow> de_Dotenv b
                    | Some kvs \<Rightarrow>
                        Some (AList.merge (case de_Dotenv b of None \<Rightarrow> [] | Some d \<Rightarrow> d) kvs))\<rparr>))"

text \<open>\<open>[hooks]\<close>: every field is a nil-guarded override.\<close>

definition override_hooks :: "Hooks \<Rightarrow> Hooks \<Rightarrow> Hooks" where
  "override_hooks m n =
     \<lparr>hk_Create = override (hk_Create m) (hk_Create n),
       hk_Stop = override (hk_Stop m) (hk_Stop n),
       hk_PreMerge = override (hk_PreMerge m) (hk_PreMerge n),
       hk_ConfinedPreMerge = override (hk_ConfinedPreMerge m) (hk_ConfinedPreMerge n),
       hk_PostMerge = override (hk_PostMerge m) (hk_PostMerge n),
       hk_Repair = override (hk_Repair m) (hk_Repair n),
       hk_PreCommit = override (hk_PreCommit m) (hk_PreCommit n),
       hk_OnAttach = override (hk_OnAttach m) (hk_OnAttach n),
       hk_OnDetach = override (hk_OnDetach m) (hk_OnDetach n),
       hk_DisallowMainWorktree = override (hk_DisallowMainWorktree m) (hk_DisallowMainWorktree n),
       hk_ToolUseLog = override (hk_ToolUseLog m) (hk_ToolUseLog n),
       hk_DisableMerge = override (hk_DisableMerge m) (hk_DisableMerge n),
       hk_DisableMergeQueue = override (hk_DisableMergeQueue m) (hk_DisableMergeQueue n),
       hk_DisableMergeStacking = override (hk_DisableMergeStacking m) (hk_DisableMergeStacking n),
       hk_DisableRepair = override (hk_DisableRepair m) (hk_DisableRepair n),
       hk_DisablePostMerge = override (hk_DisablePostMerge m) (hk_DisablePostMerge n),
       hk_DisablePreCommit = override (hk_DisablePreCommit m) (hk_DisablePreCommit n),
       hk_DisableNixGC = override (hk_DisableNixGC m) (hk_DisableNixGC n),
       hk_DisableImplicitSessions = override (hk_DisableImplicitSessions m) (hk_DisableImplicitSessions n),
       hk_DisableMergeBuildWorktree = override (hk_DisableMergeBuildWorktree m) (hk_DisableMergeBuildWorktree n),
       hk_DisableWorktreePathRewrite = override (hk_DisableWorktreePathRewrite m) (hk_DisableWorktreePathRewrite n),
       hk_PreMergeOutputFormat = override (hk_PreMergeOutputFormat m) (hk_PreMergeOutputFormat n),
       hk_InactivityTimeout = override (hk_InactivityTimeout m) (hk_InactivityTimeout n),
       hk_PostMergeTimeout = override (hk_PostMergeTimeout m) (hk_PostMergeTimeout n),
       hk_RepairTimeout = override (hk_RepairTimeout m) (hk_RepairTimeout n),
       hk_AutoRebuildOnResume = override (hk_AutoRebuildOnResume m) (hk_AutoRebuildOnResume n),
       hk_AllowStaleBase = override (hk_AllowStaleBase m) (hk_AllowStaleBase n),
       hk_AllowNoCredential = override (hk_AllowNoCredential m) (hk_AllowNoCredential n),
       hk_RequireHookScope = override (hk_RequireHookScope m) (hk_RequireHookScope n)\<rparr>"

definition merge_hooks :: "Hooks ptr \<Rightarrow> Hooks ptr \<Rightarrow> Hooks ptr" where
  "merge_hooks m n =
     (case n of None \<Rightarrow> m | Some t \<Rightarrow> Some (override_hooks (table_or empty_Hooks m) t))"

text \<open>\<open>[auth]\<close>, then the unconditional clearing of \<open>url-resolver\<close>.\<close>

definition merge_auth :: "Auth ptr \<Rightarrow> Auth ptr \<Rightarrow> Auth ptr" where
  "merge_auth m n =
     (let merged = (case n of None \<Rightarrow> m
        | Some t \<Rightarrow> let b = table_or empty_Auth m in
            Some (b\<lparr>au_MintCommand := override (au_MintCommand b) (au_MintCommand t),
                    au_RevokeCommand := override (au_RevokeCommand b) (au_RevokeCommand t),
                    au_ForgeHosts := override (au_ForgeHosts b) (au_ForgeHosts t)\<rparr>))
      in case merged of None \<Rightarrow> None
         | Some a \<Rightarrow> if au_URLResolver a \<noteq> None then Some (a\<lparr>au_URLResolver := None\<rparr>) else Some a)"

definition merge_metrics :: "Metrics ptr \<Rightarrow> Metrics ptr \<Rightarrow> Metrics ptr" where
  "merge_metrics m n =
     (case n of None \<Rightarrow> m
      | Some t \<Rightarrow> let b = table_or empty_Metrics m in
          Some (b\<lparr>mt_StatsdAddress := override (mt_StatsdAddress b) (mt_StatsdAddress t),
                  mt_DisableStatsd := override (mt_DisableStatsd b) (mt_DisableStatsd t)\<rparr>))"

definition merge_madder :: "Madder ptr \<Rightarrow> Madder ptr \<Rightarrow> Madder ptr" where
  "merge_madder m n =
     (case n of None \<Rightarrow> m
      | Some t \<Rightarrow> let b = table_or empty_Madder m in
          Some (b\<lparr>md_Retain := override (md_Retain b) (md_Retain t)\<rparr>))"

definition merge_sysprompt :: "Sysprompt ptr \<Rightarrow> Sysprompt ptr \<Rightarrow> Sysprompt ptr" where
  "merge_sysprompt m n =
     (case n of None \<Rightarrow> m
      | Some t \<Rightarrow> let b = table_or empty_Sysprompt m in
          Some (b\<lparr>sy_DocIndexDirs := override (sy_DocIndexDirs b) (sy_DocIndexDirs t),
                  sy_ManIndex := override (sy_ManIndex b) (sy_ManIndex t),
                  sy_RepoIndex := override (sy_RepoIndex b) (sy_RepoIndex t),
                  sy_IndexLimit := override (sy_IndexLimit b) (sy_IndexLimit t)\<rparr>))"

text \<open>\<open>if len(other.F) > 0 { merged.F = other.F }\<close>, for slices and strings.\<close>

definition nonempty_override :: "'a list \<Rightarrow> 'a list \<Rightarrow> 'a list" where
  "nonempty_override m n = (if length n > 0 then n else m)"

text \<open>The per-key merge of \<open>env\<close>, \<open>model-flags\<close> and \<open>model-ids\<close>.\<close>

definition merge_smap :: "smap \<Rightarrow> smap \<Rightarrow> smap" where
  "merge_smap m n = (if length n > 0 then AList.merge m n else m)"

definition override_session_entry :: "SessionEntry \<Rightarrow> SessionEntry \<Rightarrow> SessionEntry" where
  "override_session_entry m n =
     m\<lparr>se_Start := nonempty_override (se_Start m) (se_Start n),
       se_Resume := nonempty_override (se_Resume m) (se_Resume n),
       se_Env := merge_smap (se_Env m) (se_Env n),
       se_ModelFlags := merge_smap (se_ModelFlags m) (se_ModelFlags n),
       se_ModelIDs := merge_smap (se_ModelIDs m) (se_ModelIDs n),
       se_DisableAutoMode := override (se_DisableAutoMode m) (se_DisableAutoMode n),
       se_SpawnProfile := nonempty_override (se_SpawnProfile m) (se_SpawnProfile n),
       se_LivenessProbe := nonempty_override (se_LivenessProbe m) (se_LivenessProbe n),
       se_TombstoneRetention := nonempty_override (se_TombstoneRetention m) (se_TombstoneRetention n),
       se_SpawnEntry := nonempty_override (se_SpawnEntry m) (se_SpawnEntry n),
       se_SpawnWindow := nonempty_override (se_SpawnWindow m) (se_SpawnWindow n)\<rparr>"

text \<open>\<open>[session-entry]\<close>, then the clearing of the two keys that are never merged.\<close>

definition merge_session_entry :: "SessionEntry ptr \<Rightarrow> SessionEntry ptr \<Rightarrow> SessionEntry ptr" where
  "merge_session_entry m n =
     (let merged = (case n of None \<Rightarrow> m
        | Some t \<Rightarrow> Some (override_session_entry (table_or empty_SessionEntry m) t))
      in case merged of None \<Rightarrow> None
         | Some e \<Rightarrow>
             if se_Restart e \<noteq> None \<or> se_UnattendedPermissionMode e \<noteq> None
             then Some (e\<lparr>se_Restart := None, se_UnattendedPermissionMode := None\<rparr>)
             else Some e)"

section \<open>Arrays of tables, merged by name\<close>

text \<open>
  The loop all six arrays share: copy the inherited list, index it by name (a later duplicate
  wins the index), then replace in place or append.
\<close>

definition name_index :: "('a \<Rightarrow> string) \<Rightarrow> 'a list \<Rightarrow> (string \<rightharpoonup> nat)" where
  "name_index nm xs = fold (\<lambda>(i, x) idx. idx(nm x \<mapsto> i)) (enumerate 0 xs) Map.empty"

fun merge_entry :: "('a \<Rightarrow> string) \<Rightarrow> 'a \<Rightarrow> (string \<rightharpoonup> nat) \<times> 'a list \<Rightarrow> (string \<rightharpoonup> nat) \<times> 'a list" where
  "merge_entry nm x (idx, xs) =
     (case idx (nm x) of
        Some i \<Rightarrow> (idx, xs[i := x])
      | None \<Rightarrow> (idx(nm x \<mapsto> length xs), xs @ [x]))"

definition merge_named :: "('a \<Rightarrow> string) \<Rightarrow> 'a list \<Rightarrow> 'a list \<Rightarrow> 'a list" where
  "merge_named nm base other =
     (if length other > 0 then snd (fold (merge_entry nm) other (name_index nm base, base)) else base)"

text \<open>\<open>MergeWith\<close>: the tables that are never merged are set to nil.\<close>

definition MergeWith :: "Sweatfile \<Rightarrow> Sweatfile \<Rightarrow> Sweatfile" where
  "MergeWith sf other =
     \<lparr>sf_Claude = merge_claude (sf_Claude sf) (sf_Claude other),
      sf_Git = merge_git (sf_Git sf) (sf_Git other),
      sf_Direnv = merge_direnv (sf_Direnv sf) (sf_Direnv other),
      sf_Hooks = merge_hooks (sf_Hooks sf) (sf_Hooks other),
      sf_Auth = merge_auth (sf_Auth sf) (sf_Auth other),
      sf_Metrics = merge_metrics (sf_Metrics sf) (sf_Metrics other),
      sf_Madder = merge_madder (sf_Madder sf) (sf_Madder other),
      sf_Store = None, sf_ProfileRights = None, sf_Confinement = None, sf_Permissions = None,
      sf_Folio = None, sf_Health = None,
      sf_Sysprompt = merge_sysprompt (sf_Sysprompt sf) (sf_Sysprompt other),
      sf_SessionEntry = merge_session_entry (sf_SessionEntry sf) (sf_SessionEntry other),
      sf_StartCommands = merge_named sc_Name (sf_StartCommands sf) (sf_StartCommands other),
      sf_AllowedMCPs = append_directive (sf_AllowedMCPs sf) (sf_AllowedMCPs other),
      sf_MCPs = merge_named mcp_Name (sf_MCPs sf) (sf_MCPs other),
      sf_PreMergeSkills = merge_named ps_Name (sf_PreMergeSkills sf) (sf_PreMergeSkills other),
      sf_PreMergeExemptions = merge_named pe_Name (sf_PreMergeExemptions sf) (sf_PreMergeExemptions other),
      sf_Remotes = merge_named rm_Name (sf_Remotes sf) (sf_Remotes other),
      sf_PostMerge = merge_named pt_Name (sf_PostMerge sf) (sf_PostMerge other)\<rparr>"

text \<open>The fold every loader performs: \<open>merged = merged.MergeWith(layer)\<close> from the zero sweatfile.\<close>

definition merge_layers :: "Sweatfile list \<Rightarrow> Sweatfile" where
  "merge_layers ls = foldl MergeWith empty_Sweatfile ls"

lemma merge_layers_simps [simp]:
  "merge_layers [] = empty_Sweatfile"
  "merge_layers (ls @ [l]) = MergeWith (merge_layers ls) l"
  by (simp_all add: merge_layers_def)


section \<open>The array merge as a map of names\<close>

definition lookup_named :: "('a \<Rightarrow> string) \<Rightarrow> 'a list \<Rightarrow> string \<rightharpoonup> 'a" where
  "lookup_named nm xs = map_of (map (\<lambda>x. (nm x, x)) xs)"

definition good_index :: "('a \<Rightarrow> string) \<Rightarrow> (string \<rightharpoonup> nat) \<times> 'a list \<Rightarrow> bool" where
  "good_index nm s \<longleftrightarrow>
     distinct (map nm (snd s)) \<and>
     (\<forall>n i. fst s n = Some i \<longleftrightarrow> i < length (snd s) \<and> nm (snd s ! i) = n)"

lemma name_index_snoc:
  "name_index nm (xs @ [x]) = (name_index nm xs)(nm x \<mapsto> length xs)"
  by (simp add: name_index_def enumerate_append_eq)

lemma good_index_fresh:
  "good_index nm (idx, xs) \<Longrightarrow> nm x \<notin> nm ` set xs \<Longrightarrow>
   good_index nm (idx(nm x \<mapsto> length xs), xs @ [x])"
proof -
  assume g: "good_index nm (idx, xs)" and f: "nm x \<notin> nm ` set xs"
  have "(idx(nm x \<mapsto> length xs)) n = Some i \<longleftrightarrow>
      i < length (xs @ [x]) \<and> nm ((xs @ [x]) ! i) = n" for n i
  proof (cases "i < length xs")
    case True
    then have "nm (xs ! i) \<noteq> nm x" using f by (metis image_eqI nth_mem)
    with True g show ?thesis by (auto simp: good_index_def nth_append)
  next
    case False
    with g have "idx n \<noteq> Some i" by (simp add: good_index_def)
    with False show ?thesis by (auto simp: nth_append less_Suc_eq)
  qed
  with g f show ?thesis by (simp add: good_index_def)
qed

lemma good_index_init: "distinct (map nm xs) \<Longrightarrow> good_index nm (name_index nm xs, xs)"
proof (induction xs rule: rev_induct)
  case Nil
  then show ?case by (simp add: good_index_def name_index_def)
next
  case (snoc x xs)
  then have "good_index nm (name_index nm xs, xs)" and "nm x \<notin> nm ` set xs" by simp_all
  then show ?case unfolding name_index_snoc by (rule good_index_fresh)
qed

lemma lookup_named_None: "lookup_named nm xs n = None \<longleftrightarrow> n \<notin> nm ` set xs"
  by (auto simp: lookup_named_def map_of_eq_None_iff image_image)

lemma lookup_named_Cons: "lookup_named nm (x # xs) = (lookup_named nm xs)(nm x \<mapsto> x)"
  by (simp add: lookup_named_def)

lemma lookup_named_append: "lookup_named nm (xs @ ys) = lookup_named nm ys ++ lookup_named nm xs"
  by (simp add: lookup_named_def)

lemma lookup_named_snoc:
  "nm x \<notin> nm ` set xs \<Longrightarrow> lookup_named nm (xs @ [x]) = (lookup_named nm xs)(nm x \<mapsto> x)"
proof
  fix n
  assume "nm x \<notin> nm ` set xs"
  then have "lookup_named nm xs (nm x) = None" by (simp add: lookup_named_None)
  then show "lookup_named nm (xs @ [x]) n = ((lookup_named nm xs)(nm x \<mapsto> x)) n"
    by (cases "lookup_named nm xs n")
       (auto simp: lookup_named_append lookup_named_Cons map_add_def, simp_all add: lookup_named_def)
qed

lemma lookup_named_update:
  "i < length xs \<Longrightarrow> nm (xs ! i) = nm x \<Longrightarrow> distinct (map nm xs) \<Longrightarrow>
   lookup_named nm (xs[i := x]) = (lookup_named nm xs)(nm x \<mapsto> x)"
proof (induction xs arbitrary: i)
  case Nil
  then show ?case by simp
next
  case (Cons y ys)
  show ?case
  proof (cases i)
    case 0
    with Cons.prems show ?thesis by (simp add: lookup_named_Cons fun_eq_iff)
  next
    case (Suc j)
    have "lookup_named nm (ys[j := x]) = (lookup_named nm ys)(nm x \<mapsto> x)"
      by (rule Cons.IH) (use Cons.prems Suc in auto)
    moreover have "nm x \<noteq> nm y"
      using Cons.prems Suc by (metis distinct.simps(2) image_eqI length_Cons list.set_map list.simps(9) not_less_eq nth_Cons_Suc nth_mem)
    ultimately show ?thesis unfolding Suc list_update.simps nat.case lookup_named_Cons
      by (simp only: fun_upd_twist)
  qed
qed

lemma merge_entry_step:
  assumes "good_index nm s"
  shows "good_index nm (merge_entry nm x s) \<and>
    lookup_named nm (snd (merge_entry nm x s)) = (lookup_named nm (snd s))(nm x \<mapsto> x) \<and>
    (\<exists>new. map nm (snd (merge_entry nm x s)) = map nm (snd s) @ new)"
proof (cases s)
  case (Pair idx xs)
  show ?thesis
  proof (cases "idx (nm x)")
    case None
    have "nm x \<noteq> nm (xs ! i)" if "i < length xs" for i
    proof -
      have "idx (nm (xs ! i)) = Some i" using assms Pair that by (simp add: good_index_def)
      with None show ?thesis by (metis option.distinct(1))
    qed
    then have "nm x \<notin> nm ` set xs" by (force simp: in_set_conv_nth)
    with good_index_fresh[of nm idx xs x] None assms Pair show ?thesis
      by (simp add: lookup_named_snoc del: fun_upd_apply)
  next
    case (Some i)
    then have i: "i < length xs" "nm (xs ! i) = nm x" "distinct (map nm xs)"
      using assms Pair by (auto simp: good_index_def)
    then have m: "map nm (xs[i := x]) = map nm xs"
      by (simp add: map_update list_update_same_conv)
    moreover have "nm (xs[i := x] ! j) = nm (xs ! j)" if "j < length xs" for j
      using m that by (metis length_list_update nth_map)
    moreover have r: "merge_entry nm x s = (idx, xs[i := x])" using Some Pair by simp
    ultimately show ?thesis unfolding r
      using i assms Pair by (auto simp: good_index_def lookup_named_update)
  qed
qed

lemma merge_entries:
  "good_index nm s \<Longrightarrow>
   good_index nm (fold (merge_entry nm) other s) \<and>
   lookup_named nm (snd (fold (merge_entry nm) other s)) = lookup_named nm (snd s) ++ lookup_named nm (rev other) \<and>
   (\<exists>new. map nm (snd (fold (merge_entry nm) other s)) = map nm (snd s) @ new)"
proof (induction other arbitrary: s)
  case Nil
  then show ?case by (simp add: lookup_named_def)
next
  case (Cons x other)
  from merge_entry_step[OF Cons.prems, of x] obtain new1 where
    1: "good_index nm (merge_entry nm x s)"
       "lookup_named nm (snd (merge_entry nm x s)) = (lookup_named nm (snd s))(nm x \<mapsto> x)"
       "map nm (snd (merge_entry nm x s)) = map nm (snd s) @ new1" by blast
  have "lookup_named nm (rev (x # other)) = (Map.empty(nm x \<mapsto> x)) ++ lookup_named nm (rev other)"
    by (simp add: lookup_named_def)
  then have "lookup_named nm (snd s) ++ lookup_named nm (rev (x # other)) =
      (lookup_named nm (snd s))(nm x \<mapsto> x) ++ lookup_named nm (rev other)"
    by (simp only: map_add_assoc map_add_upd map_add_empty)
  moreover have "\<exists>k. map nm (snd s) @ new1 @ new = map nm (snd s) @ k" for new by blast
  ultimately show ?case using Cons.IH[OF 1(1)]
    unfolding fold_simps comp_apply 1(2,3) append_assoc by metis
qed

text \<open>The contract of an array of tables merged by name.\<close>

locale keyed_array =
  fixes nm :: "'a \<Rightarrow> string" and mrg :: "'a list \<Rightarrow> 'a list \<Rightarrow> 'a list"
  assumes lookup_merge: "distinct (map nm b) \<Longrightarrow> lookup_named nm (mrg b t) = lookup_named nm b ++ lookup_named nm (rev t)"
    and distinct_merge: "distinct (map nm b) \<Longrightarrow> distinct (map nm (mrg b t))"
    and order_merge: "distinct (map nm b) \<Longrightarrow> \<exists>new. map nm (mrg b t) = map nm b @ new"
    and merge_nothing: "mrg b [] = b"
begin

lemma distinct_layers: "distinct (map nm (foldl mrg [] ls))"
  by (induction ls rule: rev_induct) (auto simp: distinct_merge)

lemma lookup_layers_snoc:
  "lookup_named nm (foldl mrg [] (ls @ [l])) n =
     (case lookup_named nm (rev l) n of Some x \<Rightarrow> Some x | None \<Rightarrow> lookup_named nm (foldl mrg [] ls) n)"
  using lookup_merge[OF distinct_layers[of ls], of l]
  by (simp add: map_add_def split: option.splits)

lemma lookup_undeclared: "n \<notin> nm ` set l \<Longrightarrow> lookup_named nm (rev l) n = None"
  by (auto simp: lookup_named_def map_of_eq_None_iff)

lemma nearest_layer:
  "lookup_named nm (rev l) n = Some x \<Longrightarrow> \<forall>k \<in> set later. n \<notin> nm ` set k \<Longrightarrow>
   lookup_named nm (foldl mrg [] (pre @ [l] @ later)) n = Some x"
proof (induction later rule: rev_induct)
  case Nil
  then show ?case by (simp add: lookup_layers_snoc del: foldl_append)
next
  case (snoc k later)
  have "lookup_named nm (rev k) n = None" using snoc.prems(2) by (intro lookup_undeclared) simp
  with snoc lookup_layers_snoc[of "pre @ [l] @ later" k n] show ?case by (simp del: foldl_append)
qed

lemma lookup_layers: "lookup_named nm (foldl mrg [] ls) = lookup_named nm (rev (concat ls))"
proof (induction ls rule: rev_induct)
  case Nil
  then show ?case by simp
next
  case (snoc l ls)
  then show ?case by (simp add: lookup_merge[OF distinct_layers] lookup_named_append)
qed

lemma lookup_member: "distinct (map nm xs) \<Longrightarrow> x \<in> set xs \<Longrightarrow> lookup_named nm xs (nm x) = Some x"
  by (simp add: lookup_named_def image_image o_def distinct_map inj_on_def)

lemma lookup_in: "lookup_named nm xs n = Some x \<Longrightarrow> x \<in> set xs \<and> nm x = n"
  by (auto simp: lookup_named_def dest: map_of_SomeD)

text \<open>The surviving entries are the last declarations of their names over the whole cascade.\<close>

lemma active_entries:
  "set (filter active (foldl mrg [] ls)) =
     {x. lookup_named nm (rev (concat ls)) (nm x) = Some x \<and> active x}"
proof -
  have "x \<in> set (foldl mrg [] ls) \<longleftrightarrow> lookup_named nm (rev (concat ls)) (nm x) = Some x" for x
    using lookup_member[OF distinct_layers[of ls], of x] lookup_in[of "foldl mrg [] ls" "nm x" x]
    by (auto simp: lookup_layers[symmetric])
  then show ?thesis by auto
qed

lemma distinct_active: "distinct (map nm (filter active (foldl mrg [] ls)))"
  by (rule distinct_map_filter) (rule distinct_layers)

text \<open>A nearest entry that a filter rejects (a removal sentinel) hides every inherited one.\<close>

lemma sentinel_removes:
  assumes "lookup_named nm (rev l) n = Some x" "\<forall>k \<in> set later. n \<notin> nm ` set k" "\<not> active x"
  shows "n \<notin> nm ` set (filter active (foldl mrg [] (pre @ [l] @ later)))"
proof
  let ?m = "foldl mrg [] (pre @ [l] @ later)"
  assume "n \<in> nm ` set (filter active ?m)"
  then obtain y where y: "y \<in> set ?m" "active y" "nm y = n" by auto
  with lookup_member[OF distinct_layers y(1)] nearest_layer[OF assms(1,2), of pre] assms(3)
  show False by simp
qed

end

lemma keyed_array_merge_named: "keyed_array nm (merge_named nm)"
proof
  fix b t :: "'a list"
  assume d: "distinct (map nm b)"
  note m = merge_entries[OF good_index_init[OF d], of t]
  show "lookup_named nm (merge_named nm b t) = lookup_named nm b ++ lookup_named nm (rev t)"
    using m by (auto simp: merge_named_def lookup_named_def)
  show "distinct (map nm (merge_named nm b t))"
    using m d by (auto simp: merge_named_def good_index_def)
  show "\<exists>new. map nm (merge_named nm b t) = map nm b @ new"
    using m by (auto simp: merge_named_def)
qed (simp add: merge_named_def)

interpretation start_commands: keyed_array sc_Name "merge_named sc_Name"
  by (rule keyed_array_merge_named)
interpretation mcps: keyed_array mcp_Name "merge_named mcp_Name"
  by (rule keyed_array_merge_named)
interpretation skills: keyed_array ps_Name "merge_named ps_Name"
  by (rule keyed_array_merge_named)
interpretation exemptions: keyed_array pe_Name "merge_named pe_Name"
  by (rule keyed_array_merge_named)
interpretation remotes: keyed_array rm_Name "merge_named rm_Name"
  by (rule keyed_array_merge_named)
interpretation post_merge: keyed_array pt_Name "merge_named pt_Name"
  by (rule keyed_array_merge_named)

section \<open>What a fold of layers keeps\<close>

lemma merge_layers_StartCommands: "sf_StartCommands (merge_layers ls) = foldl (merge_named sc_Name) [] (map sf_StartCommands ls)"
  by (induction ls rule: rev_induct) (simp_all add: empty_Sweatfile_def MergeWith_def)

lemma merge_layers_MCPs: "sf_MCPs (merge_layers ls) = foldl (merge_named mcp_Name) [] (map sf_MCPs ls)"
  by (induction ls rule: rev_induct) (simp_all add: empty_Sweatfile_def MergeWith_def)

lemma merge_layers_PreMergeSkills: "sf_PreMergeSkills (merge_layers ls) = foldl (merge_named ps_Name) [] (map sf_PreMergeSkills ls)"
  by (induction ls rule: rev_induct) (simp_all add: empty_Sweatfile_def MergeWith_def)

lemma merge_layers_PreMergeExemptions: "sf_PreMergeExemptions (merge_layers ls) = foldl (merge_named pe_Name) [] (map sf_PreMergeExemptions ls)"
  by (induction ls rule: rev_induct) (simp_all add: empty_Sweatfile_def MergeWith_def)

lemma merge_layers_Remotes: "sf_Remotes (merge_layers ls) = foldl (merge_named rm_Name) [] (map sf_Remotes ls)"
  by (induction ls rule: rev_induct) (simp_all add: empty_Sweatfile_def MergeWith_def)

lemma merge_layers_PostMerge: "sf_PostMerge (merge_layers ls) = foldl (merge_named pt_Name) [] (map sf_PostMerge ls)"
  by (induction ls rule: rev_induct) (simp_all add: empty_Sweatfile_def MergeWith_def)

lemma merge_layers_AllowedMCPs: "sf_AllowedMCPs (merge_layers ls) = foldl append_directive None (map sf_AllowedMCPs ls)"
  by (induction ls rule: rev_induct) (simp_all add: empty_Sweatfile_def MergeWith_def)

lemmas merge_layers_arrays =
  merge_layers_StartCommands merge_layers_MCPs merge_layers_PreMergeSkills
  merge_layers_PreMergeExemptions merge_layers_Remotes merge_layers_PostMerge

text \<open>The keys of \<open>[hooks]\<close>, by their selectors.\<close>

definition hook_string_fields :: "(Hooks \<Rightarrow> string ptr) list" where
  "hook_string_fields =
     [hk_Create,
      hk_Stop,
      hk_PreMerge,
      hk_ConfinedPreMerge,
      hk_PostMerge,
      hk_Repair,
      hk_PreCommit,
      hk_OnAttach,
      hk_OnDetach,
      hk_PreMergeOutputFormat,
      hk_InactivityTimeout,
      hk_PostMergeTimeout,
      hk_RepairTimeout]"

definition hook_flag_fields :: "(Hooks \<Rightarrow> bool ptr) list" where
  "hook_flag_fields =
     [hk_DisallowMainWorktree,
      hk_ToolUseLog,
      hk_DisableMerge,
      hk_DisableMergeQueue,
      hk_DisableMergeStacking,
      hk_DisableRepair,
      hk_DisablePostMerge,
      hk_DisablePreCommit,
      hk_DisableNixGC,
      hk_DisableImplicitSessions,
      hk_DisableMergeBuildWorktree,
      hk_DisableWorktreePathRewrite,
      hk_AutoRebuildOnResume,
      hk_AllowStaleBase,
      hk_AllowNoCredential,
      hk_RequireHookScope]"


definition hook_key :: "(Hooks \<Rightarrow> 'a ptr) \<Rightarrow> Sweatfile \<Rightarrow> 'a ptr" where
  "hook_key f sf = (case sf_Hooks sf of None \<Rightarrow> None | Some h \<Rightarrow> f h)"

text \<open>The setting of the last layer that has one.\<close>

definition nearest :: "(Sweatfile \<Rightarrow> 'a ptr) \<Rightarrow> Sweatfile list \<Rightarrow> 'a ptr" where
  "nearest key ls = (let set_by = filter (\<lambda>l. key l \<noteq> None) ls in if set_by = [] then None else key (last set_by))"

lemma nearest_simps [simp]:
  "nearest key [] = None"
  "nearest key (ls @ [l]) = override (nearest key ls) (key l)"
  by (auto simp: nearest_def override_def Let_def split: option.splits)

lemma override_hooks_keys:
  "f \<in> set hook_string_fields \<Longrightarrow> f (override_hooks m n) = override (f m) (f n)"
  "g \<in> set hook_flag_fields \<Longrightarrow> g (override_hooks m n) = override (g m) (g n)"
  "f \<in> set hook_string_fields \<Longrightarrow> f empty_Hooks = None"
  "g \<in> set hook_flag_fields \<Longrightarrow> g empty_Hooks = None"
  by (auto simp: hook_string_fields_def hook_flag_fields_def override_hooks_def empty_Hooks_def)

lemma hook_key_fold:
  assumes "\<And>m n. f (override_hooks m n) = override (f m) (f n)" "f empty_Hooks = None"
  shows "hook_key f (merge_layers ls) = nearest (hook_key f) ls"
proof -
  have "hook_key f (MergeWith m l) = override (hook_key f m) (hook_key f l)" for m l
    by (auto simp: hook_key_def MergeWith_def merge_hooks_def table_or_def assms split: option.splits)
  then show ?thesis
    by (induction ls rule: rev_induct)
       (simp_all add: nearest_simps, simp add: hook_key_def empty_Sweatfile_def)
qed

section \<open>Properties of the cascade\<close>

text \<open>
  Every scalar \<open>[hooks]\<close> key of the folded cascade, command or flag, is the setting of the
  last layer that sets it, and unset when no layer does.
\<close>

theorem hooks_nearest_layer_wins:
  "(\<forall>f \<in> set hook_string_fields. hook_key f (merge_layers ls) = nearest (hook_key f) ls) \<and>
   (\<forall>g \<in> set hook_flag_fields. hook_key g (merge_layers ls) = nearest (hook_key g) ls)"
  using override_hooks_keys hook_key_fold by (metis (no_types, lifting))

lemma hooks_nearest_layer_wins_witness:
  "hook_key hk_PreMerge
     (merge_layers [empty_Sweatfile\<lparr>sf_Hooks := Some (empty_Hooks\<lparr>hk_PreMerge := Some ''make''\<rparr>)\<rparr>,
                    empty_Sweatfile\<lparr>sf_Hooks := Some (empty_Hooks\<lparr>hk_PreMerge := Some []\<rparr>)\<rparr>]) = Some []"
  by (subst bspec[OF conjunct1[OF hooks_nearest_layer_wins]])
     (simp_all add: hook_string_fields_def nearest_def hook_key_def)

text \<open>
  No key that is read from trusted layers only survives a merge: whatever the layers say, the
  merged sweatfile carries no store, profile-rights, confinement, permissions, folio or health
  table, no \<open>[auth].url-resolver\<close>, no \<open>[session-entry].restart\<close> and no
  \<open>unattended-permission-mode\<close>.
\<close>

theorem merged_has_no_trusted_keys:
  "sf_Store (merge_layers ls) = None \<and> sf_ProfileRights (merge_layers ls) = None \<and>
   sf_Confinement (merge_layers ls) = None \<and> sf_Permissions (merge_layers ls) = None \<and>
   sf_Folio (merge_layers ls) = None \<and> sf_Health (merge_layers ls) = None \<and>
   (case sf_Auth (merge_layers ls) of None \<Rightarrow> True | Some a \<Rightarrow> au_URLResolver a = None) \<and>
   (case sf_SessionEntry (merge_layers ls) of None \<Rightarrow> True
      | Some e \<Rightarrow> se_Restart e = None \<and> se_UnattendedPermissionMode e = None)"
proof (induction ls rule: rev_induct)
  case Nil
  then show ?case by (simp add: empty_Sweatfile_def)
next
  case (snoc l ls)
  then show ?case
    by (auto simp: MergeWith_def merge_auth_def merge_session_entry_def Let_def split: option.splits)
qed

text \<open>
  The MCP servers a session is given are exactly the last declarations of their names over all
  layers, in cascade order, that are not the removal sentinel (an empty command), one per name.
\<close>

theorem active_mcps_are_last_declarations:
  "set (ActiveMCPs (merge_layers ls)) =
     {m. lookup_named mcp_Name (rev (concat (map sf_MCPs ls))) (mcp_Name m) = Some m \<and> mcp_Command m \<noteq> []} \<and>
   distinct (map mcp_Name (ActiveMCPs (merge_layers ls)))"
  unfolding ActiveMCPs_def merge_layers_MCPs
  by (intro conjI mcps.active_entries mcps.distinct_active)

text \<open>
  A list directive is the concatenation of the layers' lists since the last layer that cleared
  it with an explicit empty list, and stays absent only when no layer mentions it.
\<close>

theorem allowed_mcps_since_last_clear:
  "slice_elems (sf_AllowedMCPs (merge_layers ls)) =
     concat (map slice_elems (rev (takeWhile (\<lambda>d. d \<noteq> Some []) (rev (map sf_AllowedMCPs ls))))) \<and>
   (sf_AllowedMCPs (merge_layers ls) = None \<longleftrightarrow> sf_AllowedMCPs ` set ls \<subseteq> {None})"
  unfolding merge_layers_AllowedMCPs
proof (induction ls rule: rev_induct)
  case Nil
  then show ?case by simp
next
  case (snoc l ls)
  then show ?case
    by (cases "sf_AllowedMCPs l"; cases "slice_elems (sf_AllowedMCPs l)") auto
qed

end
