(* ===== verification/GoPath.thy ===== *)
theory GoPath
  imports Prelude
begin

text \<open>
  Go's \<open>path/filepath\<close> on Unix, as the source uses it: \<open>Clean\<close>, \<open>Join\<close>, \<open>Dir\<close>, \<open>Base\<close>,
  \<open>IsAbs\<close> and \<open>Rel\<close>. A path is a byte string; its elements are the parts between slashes.
  Resolving symbolic links reads the file system, so \<open>EvalSymlinks\<close> is a parameter of the
  definitions that use it.
\<close>

abbreviation slash :: char where "slash \<equiv> CHR ''/''"

definition IsAbs :: "string \<Rightarrow> bool" where
  "IsAbs p \<longleftrightarrow> HasPrefix p ''/''"

text \<open>\<open>Clean\<close>'s element stack (kept reversed): empty and \<open>.\<close> elements are dropped, \<open>..\<close>
  removes the last real element, is dropped at the root and kept at the front of a relative path.\<close>

fun clean_step :: "bool \<Rightarrow> string list \<Rightarrow> string \<Rightarrow> string list" where
  "clean_step rooted st e =
     (if e = [] \<or> e = ''.'' then st
      else if e = ''..'' then
        (case st of
           [] \<Rightarrow> if rooted then [] else [''..'']
         | x # xs \<Rightarrow> if x = ''..'' then ''..'' # st else xs)
      else e # st)"

definition clean_elems :: "bool \<Rightarrow> string list \<Rightarrow> string list" where
  "clean_elems rooted es = rev (fold (\<lambda>e st. clean_step rooted st e) es [])"

definition render_path :: "bool \<Rightarrow> string list \<Rightarrow> string" where
  "render_path rooted es =
     (if rooted then slash # Join es ''/''
      else if es = [] then ''.'' else Join es ''/'')"

definition path_elems :: "string \<Rightarrow> string list" where
  "path_elems p = clean_elems (IsAbs p) (split1 slash p)"

definition Clean :: "string \<Rightarrow> string" where
  "Clean p = render_path (IsAbs p) (path_elems p)"

text \<open>\<open>filepath.Join\<close> skips leading empty elements and cleans the rest joined by slashes.\<close>

fun JoinPath :: "string list \<Rightarrow> string" where
  "JoinPath [] = []"
| "JoinPath (e # es) = (if e \<noteq> [] then Clean (Join (e # es) ''/'') else JoinPath es)"

text \<open>\<open>Dir\<close>: everything up to and including the last slash, cleaned.\<close>

definition Dir :: "string \<Rightarrow> string" where
  "Dir p = Clean (rev (dropWhile (\<lambda>c. c \<noteq> slash) (rev p)))"

definition Base :: "string \<Rightarrow> string" where
  "Base p =
     (if p = [] then ''.''
      else let q = rev (dropWhile (\<lambda>c. c = slash) (rev p));
               b = rev (takeWhile (\<lambda>c. c \<noteq> slash) (rev q))
           in if b = [] then ''/'' else b)"

fun strip_common :: "string list \<Rightarrow> string list \<Rightarrow> string list \<times> string list" where
  "strip_common (b # bs) (t # ts) = (if b = t then strip_common bs ts else (b # bs, t # ts))"
| "strip_common bs ts = (bs, ts)"

text \<open>\<open>Rel base targ\<close>: \<open>None\<close> is its error. Both operands of every call in the source are
  absolute, or one of them is and the call errors.\<close>

definition Rel :: "string \<Rightarrow> string \<Rightarrow> string option" where
  "Rel base targ =
     (if Clean base = Clean targ then Some ''.''
      else if IsAbs base \<noteq> IsAbs targ then None
      else case strip_common (path_elems base) (path_elems targ) of
        (bs, ts) \<Rightarrow>
          if bs \<noteq> [] \<and> hd bs = ''..'' then None
          else Some (Join (replicate (length bs) ''..'' @ ts) ''/''))"

section \<open>Elements of a path\<close>

text \<open>A plain element: what a cleaned absolute path is made of.\<close>

definition plain_elem :: "string \<Rightarrow> bool" where
  "plain_elem e \<longleftrightarrow> e \<noteq> [] \<and> e \<noteq> ''.'' \<and> e \<noteq> ''..'' \<and> slash \<notin> set e"

definition abs_path :: "string list \<Rightarrow> string" where
  "abs_path es = slash # Join es ''/''"

lemma clean_step_plain: "plain_elem e \<Longrightarrow> clean_step r st e = e # st"
  by (simp add: plain_elem_def)

lemma fold_clean_plain:
  "\<forall>e \<in> set es. plain_elem e \<Longrightarrow> fold (\<lambda>e st. clean_step r st e) es st = rev es @ st"
  by (induction es arbitrary: st) (auto simp: clean_step_plain simp del: clean_step.simps)

lemma clean_elems_plain [simp]: "\<forall>e \<in> set es. plain_elem e \<Longrightarrow> clean_elems r es = es"
  by (simp add: clean_elems_def fold_clean_plain del: clean_step.simps)

lemma clean_step_rooted:
  "\<forall>x \<in> set st. plain_elem x \<Longrightarrow> slash \<notin> set e \<Longrightarrow> \<forall>x \<in> set (clean_step True st e). plain_elem x"
  by (cases st) (auto simp: plain_elem_def)

lemma fold_clean_rooted:
  "\<forall>x \<in> set st. plain_elem x \<Longrightarrow> \<forall>e \<in> set es. slash \<notin> set e \<Longrightarrow>
   \<forall>x \<in> set (fold (\<lambda>e st. clean_step True st e) es st). plain_elem x"
proof (induction es arbitrary: st)
  case Nil
  then show ?case by simp
next
  case (Cons e es)
  from Cons.prems have "\<forall>x \<in> set (clean_step True st e). plain_elem x"
    using clean_step_rooted by auto
  with Cons.IH Cons.prems show ?case by simp
qed

lemma path_elems_plain: "IsAbs p \<Longrightarrow> e \<in> set (path_elems p) \<Longrightarrow> plain_elem e"
  using fold_clean_rooted[of "[]" "split1 slash p"] split1_no_sep
  by (auto simp: path_elems_def clean_elems_def simp del: clean_step.simps)

lemma IsAbs_abs_path [simp]: "IsAbs (abs_path es)"
  by (simp add: abs_path_def IsAbs_def)

lemma split1_abs_path:
  assumes "\<forall>e \<in> set es. slash \<notin> set e" and "es \<noteq> []"
  shows "split1 slash (abs_path es) = [] # es"
  using assms by (simp add: abs_path_def split1_Join)

lemma clean_elems_Nil [simp]: "clean_elems r ([] # es) = clean_elems r es"
  by (simp add: clean_elems_def)

lemma path_elems_abs [simp]:
  assumes "\<forall>e \<in> set es. plain_elem e"
  shows "path_elems (abs_path es) = es"
proof (cases "es = []")
  case True
  then show ?thesis by (simp add: path_elems_def abs_path_def IsAbs_def clean_elems_def)
next
  case False
  have "\<forall>e \<in> set es. slash \<notin> set e" using assms by (simp add: plain_elem_def)
  then show ?thesis
    using False assms by (simp add: path_elems_def split1_abs_path)
qed

lemma Clean_abs: "IsAbs p \<Longrightarrow> Clean p = abs_path (path_elems p)"
  by (simp add: Clean_def render_path_def abs_path_def)

lemma Clean_abs_path [simp]: "\<forall>e \<in> set es. plain_elem e \<Longrightarrow> Clean (abs_path es) = abs_path es"
  by (simp add: Clean_abs)

lemma Clean_idem_abs: "IsAbs p \<Longrightarrow> Clean (Clean p) = Clean p"
  by (simp add: Clean_abs path_elems_plain)

lemma IsAbs_Clean: "IsAbs p \<Longrightarrow> IsAbs (Clean p)"
  by (simp add: Clean_abs)

lemma path_elems_Clean: "IsAbs p \<Longrightarrow> path_elems (Clean p) = path_elems p"
  by (simp add: Clean_abs path_elems_plain)

lemma Join_inj:
  assumes "\<forall>e \<in> set es. plain_elem e" "\<forall>e \<in> set fs. plain_elem e"
    and "Join es ''/'' = Join fs ''/''"
  shows "es = fs"
proof -
  have "path_elems (abs_path es) = path_elems (abs_path fs)"
    using assms(3) by (simp add: abs_path_def)
  then show ?thesis using assms by simp
qed

lemma abs_path_inj:
  "\<forall>e \<in> set es. plain_elem e \<Longrightarrow> \<forall>e \<in> set fs. plain_elem e \<Longrightarrow>
   abs_path es = abs_path fs \<longleftrightarrow> es = fs"
  by (auto simp: abs_path_def dest: Join_inj)

lemma Clean_eq_iff:
  "IsAbs p \<Longrightarrow> IsAbs q \<Longrightarrow> Clean p = Clean q \<longleftrightarrow> path_elems p = path_elems q"
  by (simp add: Clean_abs abs_path_inj path_elems_plain)

section \<open>Rel and the ancestor relation\<close>

lemma strip_common_prefix: "strip_common bs (bs @ ts) = ([], ts)"
  by (induction bs) (cases ts, auto)

lemma strip_common_Nil: "strip_common bs ts = ([], us) \<Longrightarrow> ts = bs @ us"
  by (induction bs ts rule: strip_common.induct) (auto split: if_splits)

lemma strip_common_spec: "\<exists>cs. bs = cs @ fst (strip_common bs ts) \<and> ts = cs @ snd (strip_common bs ts)"
proof (induction bs ts rule: strip_common.induct)
  case (1 b bs t ts)
  show ?case
  proof (cases "b = t")
    case True
    with 1 obtain cs where "bs = cs @ fst (strip_common bs ts)" "ts = cs @ snd (strip_common bs ts)"
      by blast
    with True show ?thesis by (intro exI[of _ "t # cs"]) simp
  qed simp
qed auto

lemma Rel_below:
  assumes "IsAbs b" "IsAbs t" "path_elems t = path_elems b @ us" "us \<noteq> []"
  shows "Rel b t = Some (Join us ''/'')"
  using assms by (simp add: Rel_def Clean_eq_iff strip_common_prefix)

lemma Rel_self: "Rel b b = Some ''.''"
  by (simp add: Rel_def)

lemma Rel_outside:
  assumes abs: "IsAbs b" "IsAbs t" and out: "\<nexists>us. path_elems t = path_elems b @ us"
  shows "\<exists>r. Rel b t = Some r \<and> (r = ''..'' \<or> HasPrefix r ''../'')"
proof -
  obtain bs ts where s: "strip_common (path_elems b) (path_elems t) = (bs, ts)" by fastforce
  with out have ne: "bs \<noteq> []" using strip_common_Nil by (cases bs) fastforce+
  obtain cs where "path_elems b = cs @ bs"
    using strip_common_spec[of "path_elems b" "path_elems t"] s by auto
  then have "plain_elem (hd bs)"
    using ne path_elems_plain[OF abs(1)] by (cases bs) auto
  then have hd: "hd bs \<noteq> ''..''" by (simp add: plain_elem_def)
  have neq: "Clean b \<noteq> Clean t" using abs out by (auto simp: Clean_eq_iff)
  let ?r = "Join (replicate (length bs) ''..'' @ ts) ''/''"
  have "Rel b t = Some ?r" using s hd neq abs by (simp add: Rel_def)
  moreover have "?r = ''..'' \<or> HasPrefix ?r ''../''"
  proof (cases "replicate (length bs - 1) ''..'' @ ts = []")
    case True
    then show ?thesis using ne by (cases bs) auto
  next
    case False
    have "replicate (length bs) ''..'' @ ts = ''..'' # (replicate (length bs - 1) ''..'' @ ts)"
      using ne by (cases bs) auto
    with False show ?thesis by (auto simp: Join_Cons)
  qed
  ultimately show ?thesis by blast
qed

text \<open>A path at or below another, element by element.\<close>

definition at_or_below :: "string \<Rightarrow> string \<Rightarrow> bool" where
  "at_or_below root p \<longleftrightarrow> (\<exists>us. path_elems p = path_elems root @ us)"

section \<open>Climbing to the root\<close>

text \<open>Climbing with \<open>Dir\<close> ends: every step before the fixed point shortens the path.\<close>

definition weight :: "string list \<Rightarrow> nat" where
  "weight es = sum_list (map (\<lambda>e. Suc (length e)) es)"

lemma weight_simps [simp]:
  "weight [] = 0" "weight (e # es) = Suc (length e) + weight es"
  "weight (es @ fs) = weight es + weight fs" "weight (rev es) = weight es"
  by (simp_all add: weight_def rev_map[symmetric])

lemma weight_split1: "weight (split1 d s) = Suc (length s)"
  by (induction s) (auto split: list.splits)

lemma length_Join: "es \<noteq> [] \<Longrightarrow> Suc (length (Join es [d])) = weight es"
  by (induction es rule: induct_list012) auto

lemma weight_clean_step: "weight (clean_step r st e) \<le> weight st + (if e = [] then 0 else Suc (length e))"
  by (auto split: list.splits)

lemma weight_fold_clean:
  "weight (fold (\<lambda>e st. clean_step r st e) es st) \<le> weight st + weight (filter (\<lambda>e. e \<noteq> []) es)"
proof (induction es arbitrary: st)
  case (Cons e es)
  have "weight (clean_step r st e) \<le> weight st + (if e = [] then 0 else Suc (length e))"
    by (rule weight_clean_step)
  with Cons.IH[of "clean_step r st e"] show ?case by (auto simp del: clean_step.simps)
qed simp

definition climb_size :: "string \<Rightarrow> nat" where
  "climb_size p = (if p = ''.'' \<or> p = ''/'' then 0 else Suc (length p))"

lemma weight_filter_le: "weight (filter P es) \<le> weight es"
  by (induction es) auto

lemma weight_path_elems:
  "weight (path_elems (x @ ''/'')) \<le> (if IsAbs (x @ ''/'') then length x else Suc (length x))"
proof -
  let ?f = "filter (\<lambda>e. e \<noteq> [])"
  have "weight (path_elems (x @ ''/'')) \<le> weight (?f (split1 slash x))"
    using weight_fold_clean[of "IsAbs (x @ ''/'')" "split1 slash (x @ ''/'')" "[]"]
    by (simp add: path_elems_def clean_elems_def split1_snoc del: clean_step.simps)
  moreover have "weight (?f (split1 slash x)) \<le> Suc (length x)"
    using weight_filter_le[of "\<lambda>e. e \<noteq> []" "split1 slash x"] by (simp add: weight_split1)
  moreover have "weight (?f (split1 slash x)) \<le> length x" if "IsAbs (x @ ''/'')"
  proof (cases x)
    case (Cons c y)
    with that have "split1 slash x = [] # split1 slash y" by (simp add: IsAbs_def)
    then show ?thesis
      using weight_filter_le[of "\<lambda>e. e \<noteq> []" "split1 slash y"] Cons by (simp add: weight_split1)
  qed simp
  ultimately show ?thesis by fastforce
qed

lemma Clean_slash_size: "climb_size (Clean (x @ ''/'')) \<le> Suc (length x)"
proof (cases "path_elems (x @ ''/'') = []")
  case True
  then show ?thesis by (simp add: Clean_def render_path_def climb_size_def)
next
  case False
  from length_Join[OF False, of slash] weight_path_elems[of x] False show ?thesis
    by (auto simp: Clean_def render_path_def climb_size_def split: if_splits)
qed

lemma Dir_climbs: "Dir p \<noteq> p \<Longrightarrow> climb_size (Dir p) < climb_size p"
proof (cases "slash \<in> set p")
  case False
  then have "dropWhile (\<lambda>c. c \<noteq> slash) (rev p) = []" by (auto simp: dropWhile_eq_Nil_conv)
  moreover have "Clean [] = ''.''" by code_simp
  ultimately have d: "Dir p = ''.''" by (simp only: Dir_def rev.simps)
  assume "Dir p \<noteq> p"
  moreover have "p \<noteq> ''/''" using False by auto
  ultimately show ?thesis using d by (simp add: climb_size_def)
next
  case True
  from split_list_last[OF True] obtain x y where p: "p = x @ slash # y" "slash \<notin> set y" by blast
  then have "\<forall>c \<in> set y. c \<noteq> slash" by auto
  then have "dropWhile (\<lambda>c. c \<noteq> slash) (rev p) = slash # rev x"
    using p(1) by (simp add: dropWhile_append3)
  then have d: "Dir p = Clean (x @ ''/'')" by (simp add: Dir_def)
  assume ne: "Dir p \<noteq> p"
  have "p \<noteq> ''/''"
  proof
    assume "p = ''/''"
    moreover have "Dir ''/'' = ''/''" by code_simp
    ultimately show False using ne by simp
  qed
  moreover have "p \<noteq> ''.''" using True by auto
  ultimately have "climb_size p = Suc (Suc (length x + length y))"
    using p(1) by (simp add: climb_size_def)
  with Clean_slash_size[of x] show ?thesis by (simp add: d)
qed

text \<open>The parents of an absolute path.\<close>

lemma Dir_abs_path:
  assumes "\<forall>e \<in> set es. plain_elem e" "plain_elem e"
  shows "Dir (abs_path (es @ [e])) = abs_path es"
proof -
  have j: "abs_path (es @ [e]) = abs_path es @ (if es = [] then [] else ''/'') @ e"
  proof (induction es rule: induct_list012)
    case (3 x y zs)
    then show ?case by (simp add: abs_path_def Join_Cons)
  qed (simp_all add: abs_path_def)
  have "slash \<notin> set e" using assms(2) by (simp add: plain_elem_def)
  then have "\<forall>x \<in> set e. x \<noteq> slash" by auto
  then have dw: "rev (dropWhile (\<lambda>c. c \<noteq> slash) (rev (a @ slash # e))) = a @ ''/''" for a
    by (simp add: dropWhile_append3)
  show ?thesis
  proof (cases "es = []")
    case True
    then show ?thesis using j dw[of "[]"] by (simp add: Dir_def abs_path_def) code_simp
  next
    case False
    then have "Dir (abs_path (es @ [e])) = Clean (abs_path es @ ''/'')"
      using j dw[of "abs_path es"] by (simp add: Dir_def)
    also have "\<dots> = abs_path es"
    proof -
      have "split1 slash (abs_path es @ ''/'') = [] # es @ [[]]"
        using assms(1) False by (simp add: split1_snoc split1_abs_path plain_elem_def)
      moreover have "IsAbs (abs_path es @ ''/'')" by (simp add: IsAbs_def abs_path_def)
      moreover have "clean_elems True (es @ [[]]) = es"
        using fold_clean_plain[OF assms(1), of True "[]"] by (simp add: clean_elems_def)
      ultimately have "path_elems (abs_path es @ ''/'') = es" by (simp add: path_elems_def)
      then show ?thesis by (simp add: Clean_def render_path_def abs_path_def IsAbs_def)
    qed
    finally show ?thesis .
  qed
qed

lemma Dir_root: "Dir (abs_path []) = abs_path []"
  by (simp add: abs_path_def) code_simp

lemma abs_path_append:
  assumes "rs \<noteq> []" "us \<noteq> []"
  shows "abs_path (rs @ us) = abs_path rs @ slash # Join us ''/''"
proof -
  have "Join (rs @ us) ''/'' = Join rs ''/'' @ slash # Join us ''/''"
    using assms(1)
  proof (induction rs rule: induct_list012)
    case (2 x)
    then show ?case using assms(2) by (simp add: Join_Cons)
  qed auto
  then show ?thesis by (simp add: abs_path_def)
qed

lemma JoinPath_abs_paths:
  assumes "\<forall>x \<in> set (es @ fs). plain_elem x" "fs \<noteq> []"
  shows "JoinPath (abs_path es # fs) = abs_path (es @ fs)"
proof -
  have ns: "split1 slash (Join fs ''/'') = fs"
    using assms by (intro split1_Join) (auto simp: plain_elem_def)
  have j: "JoinPath (abs_path es # fs) = Clean (abs_path es @ slash # Join fs ''/'')"
    using assms(2) by (simp add: abs_path_def[of es] Join_Cons)
  show ?thesis
  proof (cases "es = []")
    case True
    have "split1 slash (slash # slash # Join fs ''/'') = [] # [] # fs" using ns by simp
    then have "path_elems (slash # slash # Join fs ''/'') = fs"
      using assms(1) True by (simp add: path_elems_def del: clean_step.simps)
    then have "Clean (slash # slash # Join fs ''/'') = abs_path fs" by (simp add: Clean_abs IsAbs_def)
    then show ?thesis using j True by (simp add: abs_path_def)
  next
    case False
    then have "JoinPath (abs_path es # fs) = Clean (abs_path (es @ fs))"
      using j assms(2) by (simp add: abs_path_append)
    then show ?thesis using assms(1) by simp
  qed
qed

lemma JoinPath_abs_path:
  "\<forall>x \<in> set es. plain_elem x \<Longrightarrow> plain_elem e \<Longrightarrow> JoinPath [abs_path es, e] = abs_path (es @ [e])"
  using JoinPath_abs_paths[of es "[e]"] by simp

lemma Base_abs_path:
  assumes "plain_elem e"
  shows "Base (abs_path (es @ [e])) = e"
proof -
  have "slash \<notin> set e" "e \<noteq> []" using assms by (simp_all add: plain_elem_def)
  then have all: "\<forall>x \<in> set e. x \<noteq> slash" by auto
  obtain a where a: "abs_path (es @ [e]) = a @ slash # e"
    by (cases "es = []") (auto simp: abs_path_append, auto simp: abs_path_def)
  obtain c f where rev: "rev e = c # f" "c \<noteq> slash" using \<open>e \<noteq> []\<close> all
    by (cases "rev e") auto
  have "rev (dropWhile (\<lambda>c. c = slash) (rev (a @ slash # e))) = a @ slash # e"
    using rev by (simp add: rev_swap)
  moreover have "rev (takeWhile (\<lambda>c. c \<noteq> slash) (rev (a @ slash # e))) = e"
    using all by (simp add: takeWhile_append)
  ultimately show ?thesis using a \<open>e \<noteq> []\<close> unfolding Base_def Let_def by (simp only:) simp
qed

lemma HasPrefix_abs_path:
  assumes "\<forall>e \<in> set rs. plain_elem e" "\<forall>e \<in> set ps. plain_elem e" "rs \<noteq> []"
  shows "HasPrefix (abs_path ps) (abs_path rs @ ''/'') \<longleftrightarrow> (\<exists>us. us \<noteq> [] \<and> ps = rs @ us)"
proof
  have r: "split1 slash (abs_path rs) = [] # rs"
    using assms by (intro split1_abs_path) (auto simp: plain_elem_def)
  assume "HasPrefix (abs_path ps) (abs_path rs @ ''/'')"
  then obtain t where t: "abs_path ps = abs_path rs @ slash # t" by (auto simp: HasPrefix_iff)
  have "ps \<noteq> []"
  proof
    assume "ps = []"
    with t have "[slash] = abs_path rs @ slash # t" by (simp add: abs_path_def)
    then show False by (simp add: abs_path_def)
  qed
  then have "split1 slash (abs_path ps) = [] # ps"
    using assms(2) by (intro split1_abs_path) (auto simp: plain_elem_def)
  with r t have "ps = rs @ split1 slash t" by (simp add: split1_sep)
  then show "\<exists>us. us \<noteq> [] \<and> ps = rs @ us" by (intro exI[of _ "split1 slash t"]) simp
next
  assume "\<exists>us. us \<noteq> [] \<and> ps = rs @ us"
  then show "HasPrefix (abs_path ps) (abs_path rs @ ''/'')"
    using assms(3) by (auto simp: abs_path_append HasPrefix_iff)
qed

end
