(* ===== verification/Trust.thy ===== *)
theory Trust
  imports Merge GoPath
begin

text \<open>
  Which sweatfile layers may set a security key (\<open>src/internal/alfa/sweatfileio/trust.go\<close>,
  \<open>trust_folio.go\<close>, \<open>trust_unattended.go\<close>): a layer is trusted when it lies strictly above the
  repository or is the global sweatfile, and each \<open>Trusted...\<close> reader honours the trusted layers
  only. The locale states what every reader promises: its value is a function of the trusted
  layers, so an edit of the repository's own sweatfile cannot change it.
\<close>

section \<open>Sources and trust\<close>

record LoadSource =
  ls_Path :: string
  ls_Found :: bool
  ls_File :: Sweatfile
  ls_SkipReason :: string

record Hierarchy =
  h_Sources :: "LoadSource list"
  h_Merged :: Sweatfile

text \<open>What the code asks the operating system: \<open>filepath.EvalSymlinks\<close> (\<open>None\<close> is its error)
  and \<open>os.Getwd\<close>, which \<open>filepath.Abs\<close> uses for a relative path.\<close>

record World =
  w_EvalSymlinks :: "string \<Rightarrow> string option"
  w_Getwd :: "string option"

definition Abs_path :: "World \<Rightarrow> string \<Rightarrow> string option" where
  "Abs_path W p =
     (if IsAbs p then Some (Clean p) else map_option (\<lambda>wd. JoinPath [wd, p]) (w_Getwd W))"

definition canonicalDir :: "World \<Rightarrow> string \<Rightarrow> string" where
  "canonicalDir W dir = (case w_EvalSymlinks W dir of None \<Rightarrow> dir | Some r \<Rightarrow> r)"

definition globalPath :: "string \<Rightarrow> string" where
  "globalPath home = JoinPath [home, ''.config'', ''spinclass'', ''sweatfile'']"

definition strictAncestor :: "string \<Rightarrow> string \<Rightarrow> bool" where
  "strictAncestor dir root =
     (case Rel dir root of
        None \<Rightarrow> False
      | Some rel \<Rightarrow> \<not> (rel = ''.'' \<or> rel = ''..'' \<or> HasPrefix rel ''../''))"

definition LayerAboveRepo :: "World \<Rightarrow> string \<Rightarrow> string \<Rightarrow> string \<Rightarrow> bool" where
  "LayerAboveRepo W layerPath home repoRoot =
     (if layerPath = globalPath home then True
      else if \<not> IsAbs layerPath then False
      else case Abs_path W repoRoot of
        None \<Rightarrow> False
      | Some absRoot \<Rightarrow>
          let dir = Dir layerPath
          in strictAncestor dir absRoot \<or> strictAncestor (canonicalDir W dir) (canonicalDir W absRoot))"

section \<open>The readers\<close>

text \<open>
  The loop the readers share: a skipped or missing source and one that does not set the key
  contribute nothing, a trusted one updates the value, another is reported.
\<close>

fun trusted_scan ::
  "(LoadSource \<Rightarrow> bool) \<Rightarrow> (LoadSource \<Rightarrow> 'k option) \<Rightarrow> (LoadSource \<Rightarrow> 'k \<Rightarrow> 'a \<Rightarrow> 'a) \<Rightarrow>
   LoadSource list \<Rightarrow> 'a \<times> string list \<Rightarrow> 'a \<times> string list" where
  "trusted_scan trusted key upd [] acc = acc"
| "trusted_scan trusted key upd (src # srcs) (v, untrusted) =
     (if ls_SkipReason src \<noteq> [] \<or> \<not> ls_Found src then trusted_scan trusted key upd srcs (v, untrusted)
      else case key src of
        None \<Rightarrow> trusted_scan trusted key upd srcs (v, untrusted)
      | Some k \<Rightarrow>
          if trusted src then trusted_scan trusted key upd srcs (upd src k v, untrusted)
          else trusted_scan trusted key upd srcs (v, untrusted @ [ls_Path src]))"

abbreviation trusted_in :: "World \<Rightarrow> string \<Rightarrow> string \<Rightarrow> LoadSource \<Rightarrow> bool" where
  "trusted_in W home repoRoot \<equiv> (\<lambda>src. LayerAboveRepo W (ls_Path src) home repoRoot)"

definition enforce_key :: "LoadSource \<Rightarrow> bool option" where
  "enforce_key src = Option.bind (sf_ProfileRights (ls_File src)) pr_Enforce"

definition TrustedEnforceProfileRights :: "World \<Rightarrow> Hierarchy \<Rightarrow> string \<Rightarrow> string \<Rightarrow> bool \<times> string list" where
  "TrustedEnforceProfileRights W h home repoRoot =
     trusted_scan (trusted_in W home repoRoot) enforce_key (\<lambda>_ k enforce. enforce \<or> k)
       (h_Sources h) (False, [])"

text \<open>\<open>TrustedTransitionTTL\<close> stops at the first trusted value that does not parse, naming its layer.\<close>

definition ttl_key :: "LoadSource \<Rightarrow> string option" where
  "ttl_key src = Option.bind (sf_ProfileRights (ls_File src)) pr_TransitionTTL"

fun ttl_scan ::
  "(LoadSource \<Rightarrow> bool) \<Rightarrow> LoadSource list \<Rightarrow> Duration \<times> string list \<Rightarrow>
   ((string \<times> ttl_error) + Duration) \<times> string list" where
  "ttl_scan trusted [] (ttl, untrusted) = (Inr ttl, untrusted)"
| "ttl_scan trusted (src # srcs) (ttl, untrusted) =
     (if ls_SkipReason src \<noteq> [] \<or> \<not> ls_Found src then ttl_scan trusted srcs (ttl, untrusted)
      else case ttl_key src of
        None \<Rightarrow> ttl_scan trusted srcs (ttl, untrusted)
      | Some k \<Rightarrow>
          if \<not> trusted src then ttl_scan trusted srcs (ttl, untrusted @ [ls_Path src])
          else case ParseTransitionTTL k of
            Inl e \<Rightarrow> (Inl (ls_Path src, e), untrusted)
          | Inr d \<Rightarrow> ttl_scan trusted srcs (d, untrusted))"

definition TrustedTransitionTTL ::
  "World \<Rightarrow> Hierarchy \<Rightarrow> string \<Rightarrow> string \<Rightarrow> ((string \<times> ttl_error) + Duration) \<times> string list" where
  "TrustedTransitionTTL W h home repoRoot =
     ttl_scan (trusted_in W home repoRoot) (h_Sources h) (DefaultTransitionTTL, [])"

record ConfinementPolicy =
  cp_Enabled :: bool
  cp_DefaultSpawn :: bool
  cp_HarnessConfigWritable :: bool

definition DefaultConfines :: "ConfinementPolicy \<Rightarrow> bool" where
  "DefaultConfines p \<longleftrightarrow> cp_Enabled p \<and> cp_DefaultSpawn p"

text \<open>The local variables of \<open>TrustedConfinement\<close>'s loop.\<close>

record confinement_acc =
  ca_enabled :: "bool ptr"
  ca_defaultSpawn :: "bool ptr"
  ca_harnessWritable :: "bool ptr"
  ca_legacy :: bool
  ca_egress :: "string slice"

definition confinement_key :: "LoadSource \<Rightarrow> Confinement option" where
  "confinement_key src =
     (case sf_Confinement (ls_File src) of
        None \<Rightarrow> None
      | Some c \<Rightarrow>
          if cf_Enabled c = None \<and> cf_DefaultSpawn c = None \<and> cf_LaunchUnit c = None \<and>
             cf_EgressAllow c = None \<and> cf_HarnessConfigWritable c = None
          then None else Some c)"

definition confinement_upd :: "Confinement \<Rightarrow> confinement_acc \<Rightarrow> confinement_acc" where
  "confinement_upd c a =
     \<lparr>ca_enabled = override (ca_enabled a) (cf_Enabled c),
      ca_defaultSpawn = override (ca_defaultSpawn a) (cf_DefaultSpawn c),
      ca_harnessWritable = override (ca_harnessWritable a) (cf_HarnessConfigWritable c),
      ca_legacy = (ca_legacy a \<or> is_true (cf_LaunchUnit c)),
      ca_egress = override (ca_egress a) (cf_EgressAllow c)\<rparr>"

definition TrustedConfinement ::
  "World \<Rightarrow> Hierarchy \<Rightarrow> string \<Rightarrow> string \<Rightarrow> ConfinementPolicy \<times> string slice \<times> string list" where
  "TrustedConfinement W h home repoRoot =
     (case trusted_scan (trusted_in W home repoRoot) confinement_key (\<lambda>_. confinement_upd)
         (h_Sources h)
         (\<lparr>ca_enabled = None, ca_defaultSpawn = None, ca_harnessWritable = None, ca_legacy = False,
           ca_egress = None\<rparr>, []) of
       (a, untrusted) \<Rightarrow>
         (\<lparr>cp_Enabled = (case ca_enabled a of None \<Rightarrow> ca_legacy a | Some b \<Rightarrow> b),
           cp_DefaultSpawn = (case ca_defaultSpawn a of None \<Rightarrow> True | Some b \<Rightarrow> b),
           cp_HarnessConfigWritable = is_true (ca_harnessWritable a)\<rparr>, ca_egress a, untrusted))"

definition deny_edits_key :: "LoadSource \<Rightarrow> bool option" where
  "deny_edits_key src = Option.bind (sf_Permissions (ls_File src)) pm_DenySweatfileEdits"

definition TrustedDenySweatfileEdits :: "World \<Rightarrow> Hierarchy \<Rightarrow> string \<Rightarrow> string \<Rightarrow> bool \<times> string list" where
  "TrustedDenySweatfileEdits W h home repoRoot =
     trusted_scan (trusted_in W home repoRoot) deny_edits_key (\<lambda>_ k _. k) (h_Sources h) (False, [])"

definition store_key :: "LoadSource \<Rightarrow> Store option" where
  "store_key src =
     (case sf_Store (ls_File src) of
        None \<Rightarrow> None
      | Some s \<Rightarrow>
          if st_AuthorName s = None \<and> st_AuthorEmail s = None \<and>
             st_CommitterName s = None \<and> st_CommitterEmail s = None
          then None else Some s)"

definition store_upd :: "Store \<Rightarrow> Store \<Rightarrow> Store" where
  "store_upd s t =
     \<lparr>st_AuthorName = override (st_AuthorName t) (st_AuthorName s),
      st_AuthorEmail = override (st_AuthorEmail t) (st_AuthorEmail s),
      st_CommitterName = override (st_CommitterName t) (st_CommitterName s),
      st_CommitterEmail = override (st_CommitterEmail t) (st_CommitterEmail s)\<rparr>"

definition TrustedStoreIdentity ::
  "World \<Rightarrow> Hierarchy \<Rightarrow> string \<Rightarrow> string \<Rightarrow> (string \<times> string \<times> string \<times> string) \<times> string list" where
  "TrustedStoreIdentity W h home repoRoot =
     (case trusted_scan (trusted_in W home repoRoot) store_key (\<lambda>_. store_upd)
         (h_Sources h) (empty_Store, []) of
       (trusted, untrusted) \<Rightarrow> (StoreIdentity (empty_Sweatfile\<lparr>sf_Store := Some trusted\<rparr>), untrusted))"

definition self_close_key :: "LoadSource \<Rightarrow> bool option" where
  "self_close_key src = Option.bind (sf_Permissions (ls_File src)) pm_AllowSelfClose"

definition TrustedAllowSelfClose :: "World \<Rightarrow> Hierarchy \<Rightarrow> string \<Rightarrow> string \<Rightarrow> bool \<times> string list" where
  "TrustedAllowSelfClose W h home repoRoot =
     trusted_scan (trusted_in W home repoRoot) self_close_key (\<lambda>_ k _. k) (h_Sources h) (False, [])"

definition DefaultConfinedPreMerge :: string where
  "DefaultConfinedPreMerge = ''nix flake check --no-update-lock-file''"

record ConfinedPreMergeGate =
  cg_Command :: string
  cg_Source :: string
  cg_Ignored :: "string list"

definition confined_gate_key :: "LoadSource \<Rightarrow> string option" where
  "confined_gate_key src = Option.bind (sf_Hooks (ls_File src)) hk_ConfinedPreMerge"

definition confined_gate_upd :: "LoadSource \<Rightarrow> string \<Rightarrow> ConfinedPreMergeGate \<Rightarrow> ConfinedPreMergeGate" where
  "confined_gate_upd src v _ =
     (let cmd = TrimSpace v
      in if cmd \<noteq> [] then \<lparr>cg_Command = cmd, cg_Source = ls_Path src, cg_Ignored = []\<rparr>
         else \<lparr>cg_Command = DefaultConfinedPreMerge, cg_Source = [], cg_Ignored = []\<rparr>)"

definition TrustedConfinedPreMerge ::
  "World \<Rightarrow> Hierarchy \<Rightarrow> string \<Rightarrow> string \<Rightarrow> ConfinedPreMergeGate \<times> string list" where
  "TrustedConfinedPreMerge W h home repoRoot =
     (case trusted_scan (trusted_in W home repoRoot) confined_gate_key confined_gate_upd
         (h_Sources h)
         (\<lparr>cg_Command = DefaultConfinedPreMerge, cg_Source = [], cg_Ignored = []\<rparr>, []) of
       (gate, untrusted) \<Rightarrow> (gate\<lparr>cg_Ignored := untrusted\<rparr>, untrusted))"

definition DefaultHealthBusyBound :: Duration where
  "DefaultHealthBusyBound = 60 * Minute"

definition busy_bound_key :: "LoadSource \<Rightarrow> string option" where
  "busy_bound_key src = Option.bind (sf_Health (ls_File src)) he_BusyBound"

definition busy_bound_upd :: "string \<Rightarrow> Duration \<Rightarrow> Duration" where
  "busy_bound_upd v bound =
     (case ParseDuration (TrimSpace v) of
        None \<Rightarrow> bound | Some d \<Rightarrow> if d > 0 then d else bound)"

definition TrustedHealthBusyBound :: "World \<Rightarrow> Hierarchy \<Rightarrow> string \<Rightarrow> string \<Rightarrow> Duration \<times> string list" where
  "TrustedHealthBusyBound W h home repoRoot =
     trusted_scan (trusted_in W home repoRoot) busy_bound_key (\<lambda>_. busy_bound_upd)
       (h_Sources h) (DefaultHealthBusyBound, [])"

definition spawn_profile_key :: "LoadSource \<Rightarrow> string option" where
  "spawn_profile_key src =
     (case sf_SessionEntry (ls_File src) of
        None \<Rightarrow> None | Some e \<Rightarrow> if se_SpawnProfile e = [] then None else Some (se_SpawnProfile e))"

definition TrustedSpawnProfile :: "World \<Rightarrow> Hierarchy \<Rightarrow> string \<Rightarrow> string \<Rightarrow> string \<times> string list" where
  "TrustedSpawnProfile W h home repoRoot =
     trusted_scan (trusted_in W home repoRoot) spawn_profile_key (\<lambda>_ k _. k) (h_Sources h) ([], [])"

definition restart_key :: "LoadSource \<Rightarrow> string list option" where
  "restart_key src = Option.bind (sf_SessionEntry (ls_File src)) se_Restart"

definition TrustedRestartHandoff :: "World \<Rightarrow> Hierarchy \<Rightarrow> string \<Rightarrow> string \<Rightarrow> string slice \<times> string list" where
  "TrustedRestartHandoff W h home repoRoot =
     (case trusted_scan (trusted_in W home repoRoot) restart_key (\<lambda>_ k _. Some k) (h_Sources h) (None, []) of
       (argv, untrusted) \<Rightarrow> (if length (slice_elems argv) = 0 then None else argv, untrusted))"

definition url_resolver_key :: "LoadSource \<Rightarrow> string option" where
  "url_resolver_key src = Option.bind (sf_Auth (ls_File src)) au_URLResolver"

definition TrustedURLResolver :: "World \<Rightarrow> Hierarchy \<Rightarrow> string \<Rightarrow> string \<Rightarrow> string \<times> string list" where
  "TrustedURLResolver W h home repoRoot =
     trusted_scan (trusted_in W home repoRoot) url_resolver_key (\<lambda>_ k _. TrimSpace k) (h_Sources h) ([], [])"

definition unattended_key :: "LoadSource \<Rightarrow> string option" where
  "unattended_key src =
     (case Option.bind (sf_SessionEntry (ls_File src)) se_UnattendedPermissionMode of
        None \<Rightarrow> None | Some v \<Rightarrow> if v = [] then None else Some v)"

definition TrustedUnattendedPermissionMode :: "World \<Rightarrow> Hierarchy \<Rightarrow> string \<Rightarrow> string \<Rightarrow> string \<times> string list" where
  "TrustedUnattendedPermissionMode W h home repoRoot =
     trusted_scan (trusted_in W home repoRoot) unattended_key (\<lambda>_ k _. k) (h_Sources h) ([], [])"

subsection \<open>The folio stanza\<close>

record FolioPolicy =
  fp_Read :: "string slice"
  fp_Write :: "string slice"
  fp_Deny :: "string slice"
  fp_Unmatched :: string
  fp_Configured :: bool

definition appendOrClear :: "string slice \<Rightarrow> string slice \<Rightarrow> string slice" where
  "appendOrClear acc layer =
     (case layer of None \<Rightarrow> acc
      | Some xs \<Rightarrow> if length xs = 0 then Some [] else Some (slice_elems acc @ xs))"

text \<open>\<open>append(acc, xs...)\<close>: appending nothing keeps a nil slice nil.\<close>

definition append_elems :: "string slice \<Rightarrow> string list \<Rightarrow> string slice" where
  "append_elems acc xs = (if xs = [] then acc else Some (slice_elems acc @ xs))"

fun folio_scan ::
  "(LoadSource \<Rightarrow> bool) \<Rightarrow> LoadSource list \<Rightarrow> FolioPolicy \<times> string list \<times> string list \<Rightarrow>
   FolioPolicy \<times> string list \<times> string list" where
  "folio_scan trusted [] acc = acc"
| "folio_scan trusted (src # srcs) (policy, lowerDenies, untrusted) =
     (if ls_SkipReason src \<noteq> [] \<or> \<not> ls_Found src then folio_scan trusted srcs (policy, lowerDenies, untrusted)
      else case sf_Folio (ls_File src) of
        None \<Rightarrow> folio_scan trusted srcs (policy, lowerDenies, untrusted)
      | Some f \<Rightarrow>
          if \<not> trusted src then
            folio_scan trusted srcs
              (policy, lowerDenies @ slice_elems (fo_Deny f),
               if fo_Read f \<noteq> None \<or> fo_Write f \<noteq> None \<or> fo_Unmatched f \<noteq> None
               then untrusted @ [ls_Path src] else untrusted)
          else
            folio_scan trusted srcs
              (\<lparr>fp_Read = appendOrClear (fp_Read policy) (fo_Read f),
                fp_Write = appendOrClear (fp_Write policy) (fo_Write f),
                fp_Deny = appendOrClear (fp_Deny policy) (fo_Deny f),
                fp_Unmatched = (case fo_Unmatched f of None \<Rightarrow> fp_Unmatched policy | Some u \<Rightarrow> u),
                fp_Configured = True\<rparr>, lowerDenies, untrusted))"

definition empty_FolioPolicy :: FolioPolicy where
  "empty_FolioPolicy =
     \<lparr>fp_Read = None, fp_Write = None, fp_Deny = None, fp_Unmatched = [], fp_Configured = False\<rparr>"

definition TrustedFolio :: "World \<Rightarrow> Hierarchy \<Rightarrow> string \<Rightarrow> string \<Rightarrow> FolioPolicy \<times> string list" where
  "TrustedFolio W h home repoRoot =
     (case folio_scan (trusted_in W home repoRoot) (h_Sources h) (empty_FolioPolicy, [], []) of
       (policy, lowerDenies, untrusted) \<Rightarrow>
         (policy\<lparr>fp_Deny := append_elems (fp_Deny policy) lowerDenies\<rparr>, untrusted))"

section \<open>What a scan depends on\<close>

text \<open>A source that sets the key, among those the loops look at.\<close>

definition sets :: "(LoadSource \<Rightarrow> 'k option) \<Rightarrow> LoadSource \<Rightarrow> bool" where
  "sets key src \<longleftrightarrow> ls_SkipReason src = [] \<and> ls_Found src \<and> key src \<noteq> None"

lemma trusted_scan_spec:
  "trusted_scan trusted key upd srcs (v, u) =
     (fold (\<lambda>s. upd s (the (key s))) (filter (\<lambda>s. trusted s \<and> sets key s) srcs) v,
      u @ map ls_Path (filter (\<lambda>s. \<not> trusted s \<and> sets key s) srcs))"
  by (induction srcs arbitrary: v u) (auto simp: sets_def split: option.splits)

lemma fold_last:
  "fold (\<lambda>s _. g s) xs v = (if xs = [] then v else g (last xs))"
  by (induction xs arbitrary: v) auto

definition trusted_layers :: "World \<Rightarrow> Hierarchy \<Rightarrow> string \<Rightarrow> string \<Rightarrow> LoadSource list" where
  "trusted_layers W h home repoRoot = filter (trusted_in W home repoRoot) (h_Sources h)"

text \<open>The setting of the last trusted layer, with the reader's default.\<close>

definition last_trusted :: "World \<Rightarrow> Hierarchy \<Rightarrow> string \<Rightarrow> string \<Rightarrow> (LoadSource \<Rightarrow> 'k option) \<Rightarrow> 'k \<Rightarrow> 'k" where
  "last_trusted W h home repoRoot key d =
     (let ls = filter (sets key) (trusted_layers W h home repoRoot)
      in if ls = [] then d else the (key (last ls)))"

definition untrusted_paths :: "World \<Rightarrow> Hierarchy \<Rightarrow> string \<Rightarrow> string \<Rightarrow> (LoadSource \<Rightarrow> 'k option) \<Rightarrow> string list" where
  "untrusted_paths W h home repoRoot key =
     map ls_Path (filter (\<lambda>s. \<not> trusted_in W home repoRoot s \<and> sets key s) (h_Sources h))"

lemma trusted_scan_last:
  "trusted_scan (trusted_in W home repoRoot) key (\<lambda>_ k _. g k) (h_Sources h) (g d, []) =
     (g (last_trusted W h home repoRoot key d), untrusted_paths W h home repoRoot key)"
  unfolding trusted_scan_spec fold_last
  by (simp add: last_trusted_def trusted_layers_def untrusted_paths_def Let_def)

lemma ttl_scan_trusted: "fst (ttl_scan trusted (filter trusted srcs) (t, u')) = fst (ttl_scan trusted srcs (t, u))"
  by (induction srcs arbitrary: t u u') (auto split: option.splits sum.splits)

section \<open>The contract of a trusted reader\<close>

locale trusted_reader =
  fixes reader :: "World \<Rightarrow> Hierarchy \<Rightarrow> string \<Rightarrow> string \<Rightarrow> 'v"
  assumes reads_trusted:
    "reader W h home repoRoot =
       reader W \<lparr>h_Sources = trusted_layers W h home repoRoot, h_Merged = empty_Sweatfile\<rparr> home repoRoot"
begin

lemma edit_inert:
  "trusted_layers W h home repoRoot = trusted_layers W h' home repoRoot \<Longrightarrow>
   reader W h home repoRoot = reader W h' home repoRoot"
  by (subst (1 2) reads_trusted) simp

end

lemmas reader_defs =
  TrustedEnforceProfileRights_def TrustedConfinement_def TrustedDenySweatfileEdits_def
  TrustedStoreIdentity_def TrustedAllowSelfClose_def TrustedConfinedPreMerge_def
  TrustedHealthBusyBound_def TrustedSpawnProfile_def TrustedRestartHandoff_def
  TrustedURLResolver_def TrustedUnattendedPermissionMode_def

lemmas reader_simps = reader_defs trusted_scan_spec trusted_layers_def

interpretation enforce: trusted_reader "\<lambda>W h home r. fst (TrustedEnforceProfileRights W h home r)"
  by unfold_locales (simp add: reader_simps)
interpretation transition_ttl: trusted_reader "\<lambda>W h home r. fst (TrustedTransitionTTL W h home r)"
  by unfold_locales (simp add: TrustedTransitionTTL_def trusted_layers_def ttl_scan_trusted[where u' = "[]" and u = "[]"])
interpretation confinement: trusted_reader
    "\<lambda>W h home r. (fst (TrustedConfinement W h home r), fst (snd (TrustedConfinement W h home r)))"
  by unfold_locales (simp add: reader_simps)
interpretation deny_edits: trusted_reader "\<lambda>W h home r. fst (TrustedDenySweatfileEdits W h home r)"
  by unfold_locales (simp add: reader_simps)
interpretation store_identity: trusted_reader "\<lambda>W h home r. fst (TrustedStoreIdentity W h home r)"
  by unfold_locales (simp add: reader_simps)
interpretation self_close: trusted_reader "\<lambda>W h home r. fst (TrustedAllowSelfClose W h home r)"
  by unfold_locales (simp add: reader_simps)
interpretation confined_gate: trusted_reader "\<lambda>W h home r. cg_Command (fst (TrustedConfinedPreMerge W h home r))"
  by unfold_locales (simp add: reader_simps)
interpretation busy_bound: trusted_reader "\<lambda>W h home r. fst (TrustedHealthBusyBound W h home r)"
  by unfold_locales (simp add: reader_simps)
interpretation spawn_profile: trusted_reader "\<lambda>W h home r. fst (TrustedSpawnProfile W h home r)"
  by unfold_locales (simp add: reader_simps)
interpretation restart_handoff: trusted_reader "\<lambda>W h home r. fst (TrustedRestartHandoff W h home r)"
  by unfold_locales (simp add: reader_simps)
interpretation url_resolver: trusted_reader "\<lambda>W h home r. fst (TrustedURLResolver W h home r)"
  by unfold_locales (simp add: reader_simps)
interpretation unattended: trusted_reader "\<lambda>W h home r. fst (TrustedUnattendedPermissionMode W h home r)"
  by unfold_locales (simp add: reader_simps)

section \<open>Where trust lies\<close>

lemma IsAbs_dir_part: "IsAbs p \<Longrightarrow> IsAbs (rev (dropWhile (\<lambda>c. c \<noteq> slash) (rev p)))"
proof -
  assume "IsAbs p"
  then obtain q where p: "p = slash # q" by (cases p) (auto simp: IsAbs_def)
  have "\<exists>r. rev (dropWhile (\<lambda>c. c \<noteq> slash) (rev p)) = slash # r"
  proof -
    have "dropWhile (\<lambda>c. c \<noteq> slash) (rev q @ [slash]) = dropWhile (\<lambda>c. c \<noteq> slash) (rev q) @ [slash]"
      by (induction "rev q" arbitrary: q rule: rev_induct) (auto simp: dropWhile_append)
    then show ?thesis using p by simp
  qed
  then show ?thesis by (auto simp: IsAbs_def)
qed

lemma IsAbs_Dir: "IsAbs p \<Longrightarrow> IsAbs (Dir p)"
  unfolding Dir_def by (intro IsAbs_Clean IsAbs_dir_part)

lemma strictAncestor_iff:
  assumes "IsAbs d" "IsAbs r"
  shows "strictAncestor d r \<longleftrightarrow> (\<exists>us. us \<noteq> [] \<and> path_elems r = path_elems d @ us)"
proof (cases "\<exists>us. path_elems r = path_elems d @ us")
  case False
  with Rel_outside[OF assms False] show ?thesis by (auto simp: strictAncestor_def)
next
  case True
  then obtain us where us: "path_elems r = path_elems d @ us" by blast
  show ?thesis
  proof (cases "us = []")
    case True
    with us assms have "Rel d r = Some ''.''" by (simp add: Rel_def Clean_eq_iff)
    with us True show ?thesis by (simp add: strictAncestor_def)
  next
    case False
    have plain: "\<forall>e \<in> set us. plain_elem e" using path_elems_plain[OF assms(2)] us by auto
    from Rel_below[OF assms us False] have "Rel d r = Some (Join us ''/'')" .
    moreover have s: "split1 slash (Join us ''/'') = us"
      using plain False by (intro split1_Join) (auto simp: plain_elem_def)
    moreover have "Join us ''/'' \<noteq> ''.''"
    proof
      assume "Join us ''/'' = ''.''"
      then have "us = split1 slash ''.''" using s by (simp only:)
      with plain show False by (simp add: plain_elem_def)
    qed
    moreover have "Join us ''/'' \<noteq> ''..''"
    proof
      assume "Join us ''/'' = ''..''"
      then have "us = split1 slash ''..''" using s by (simp only:)
      with plain show False by (simp add: plain_elem_def)
    qed
    moreover have "\<not> HasPrefix (Join us ''/'') ''../''"
    proof
      assume "HasPrefix (Join us ''/'') ''../''"
      then obtain t where "Join us ''/'' = ''../'' @ t" by (auto simp: HasPrefix_iff)
      with s have "us = ''..'' # split1 slash t" by simp
      with plain show False by (simp add: plain_elem_def)
    qed
    ultimately show ?thesis using us False by (auto simp: strictAncestor_def)
  qed
qed

definition strictly_above :: "string \<Rightarrow> string \<Rightarrow> bool" where
  "strictly_above d r \<longleftrightarrow> (\<exists>us. us \<noteq> [] \<and> path_elems r = path_elems d @ us)"

lemma strictly_above_not_below: "at_or_below r d \<Longrightarrow> \<not> strictly_above d r"
  by (auto simp: at_or_below_def strictly_above_def)

text \<open>
  For an absolute repository path, and a symlink resolution that keeps absolute paths absolute,
  a layer is trusted exactly when it is the global sweatfile or an absolute path whose directory is
  a proper ancestor of the repository, lexically or after resolving both; so a layer in the
  repository or in a worktree under it, unless it is the global one, is never trusted.
\<close>

theorem LayerAboveRepo_spec:
  assumes "IsAbs repoRoot" "\<And>d r. w_EvalSymlinks W d = Some r \<Longrightarrow> IsAbs d \<Longrightarrow> IsAbs r"
  shows "(LayerAboveRepo W p home repoRoot \<longleftrightarrow>
      p = globalPath home \<or>
      IsAbs p \<and> (strictly_above (Dir p) repoRoot \<or>
        strictly_above (canonicalDir W (Dir p)) (canonicalDir W (Clean repoRoot)))) \<and>
    (p \<noteq> globalPath home \<and> at_or_below repoRoot (Dir p) \<and>
      at_or_below (canonicalDir W (Clean repoRoot)) (canonicalDir W (Dir p)) \<longrightarrow>
      \<not> LayerAboveRepo W p home repoRoot)"
proof -
  have c: "IsAbs (canonicalDir W d)" if "IsAbs d" for d
    using assms(2) that by (simp add: canonicalDir_def split: option.splits)
  have l: "strictAncestor (Dir p) (Clean repoRoot) \<longleftrightarrow> strictly_above (Dir p) repoRoot"
    and r: "strictAncestor (canonicalDir W (Dir p)) (canonicalDir W (Clean repoRoot)) \<longleftrightarrow>
      strictly_above (canonicalDir W (Dir p)) (canonicalDir W (Clean repoRoot))" if "IsAbs p"
    using strictAncestor_iff[OF IsAbs_Dir[OF that] IsAbs_Clean[OF assms(1)]]
      strictAncestor_iff[OF c[OF IsAbs_Dir[OF that]] c[OF IsAbs_Clean[OF assms(1)]]]
    unfolding strictly_above_def path_elems_Clean[OF assms(1)] by simp_all
  have m: "LayerAboveRepo W p home repoRoot \<longleftrightarrow>
      p = globalPath home \<or>
      IsAbs p \<and> (strictly_above (Dir p) repoRoot \<or>
        strictly_above (canonicalDir W (Dir p)) (canonicalDir W (Clean repoRoot)))"
    using l r assms(1) by (simp add: LayerAboveRepo_def Abs_path_def Let_def)
  then show ?thesis using strictly_above_not_below by blast
qed

lemma LayerAboveRepo_spec_witness:
  "LayerAboveRepo \<lparr>w_EvalSymlinks = Some, w_Getwd = None\<rparr> ''/h/eng/sweatfile'' ''/h'' ''/h/eng/repo'' \<and>
   \<not> LayerAboveRepo \<lparr>w_EvalSymlinks = Some, w_Getwd = None\<rparr> ''/h/eng/repo/.worktrees/a/sweatfile'' ''/h'' ''/h/eng/repo''"
proof -
  let ?W = "\<lparr>w_EvalSymlinks = Some, w_Getwd = None\<rparr> :: World"
  have r: "IsAbs ''/h/eng/repo''" by (simp add: IsAbs_def)
  note spec = LayerAboveRepo_spec[OF r, of ?W _ "''/h''"]
  have e: "path_elems ''/h/eng/repo'' = [''h'', ''eng'', ''repo'']"
    "path_elems (Dir ''/h/eng/sweatfile'') = [''h'', ''eng'']"
    "path_elems (Dir ''/h/eng/repo/.worktrees/a/sweatfile'') = [''h'', ''eng'', ''repo'', ''.worktrees'', ''a'']"
    "Clean ''/h/eng/repo'' = ''/h/eng/repo''" "globalPath ''/h'' = ''/h/.config/spinclass/sweatfile''"
    by code_simp+
  show ?thesis
    using conjunct1[OF spec, of "''/h/eng/sweatfile''"] conjunct1[OF spec, of "''/h/eng/repo/.worktrees/a/sweatfile''"]
    by (simp add: e strictly_above_def canonicalDir_def IsAbs_def)
qed


definition layer_at :: "string \<Rightarrow> Sweatfile \<Rightarrow> LoadSource" where
  "layer_at p sf = \<lparr>ls_Path = p, ls_Found = True, ls_File = sf, ls_SkipReason = []\<rparr>"


text \<open>
  The overriding trusted keys are decided by the last trusted layer that sets them, with the
  documented defaults when none does, and every untrusted layer that sets one is reported.
\<close>

theorem trusted_scalars_last_layer_wins:
  "TrustedDenySweatfileEdits W h home r =
     (last_trusted W h home r deny_edits_key False, untrusted_paths W h home r deny_edits_key) \<and>
   TrustedAllowSelfClose W h home r =
     (last_trusted W h home r self_close_key False, untrusted_paths W h home r self_close_key) \<and>
   TrustedSpawnProfile W h home r =
     (last_trusted W h home r spawn_profile_key [], untrusted_paths W h home r spawn_profile_key) \<and>
   TrustedUnattendedPermissionMode W h home r =
     (last_trusted W h home r unattended_key [], untrusted_paths W h home r unattended_key) \<and>
   TrustedURLResolver W h home r =
     (TrimSpace (last_trusted W h home r url_resolver_key []), untrusted_paths W h home r url_resolver_key)"
  unfolding reader_defs
  by (intro conjI trusted_scan_last[where g = "\<lambda>k. k"]
      trusted_scan_last[where g = TrimSpace and d = "[]", unfolded TrimSpace_Nil])

text \<open>
  Profile-rights enforcement is sticky: it is on exactly when some trusted layer says true, so
  consulting more layers, or a nearer layer saying false, never turns it off.
\<close>

theorem enforcement_is_sticky:
  "fst (TrustedEnforceProfileRights W h home r) \<longleftrightarrow>
     (\<exists>src \<in> set (trusted_layers W h home r).
        ls_SkipReason src = [] \<and> ls_Found src \<and> enforce_key src = Some True)"
proof -
  have f: "fold (\<lambda>s e. e \<or> the (enforce_key s)) xs v \<longleftrightarrow> v \<or> (\<exists>s \<in> set xs. the (enforce_key s))" for xs v
    by (induction xs arbitrary: v) auto
  show ?thesis
    by (auto simp: reader_simps f sets_def)
qed

fun ttl_outcome :: "LoadSource list \<Rightarrow> Duration \<Rightarrow> (string \<times> ttl_error) + Duration" where
  "ttl_outcome [] t = Inr t"
| "ttl_outcome (s # ls) t =
     (case ParseTransitionTTL (the (ttl_key s)) of
        Inl e \<Rightarrow> Inl (ls_Path s, e) | Inr d \<Rightarrow> ttl_outcome ls d)"

lemma ttl_scan_outcome:
  "fst (ttl_scan tr srcs (t, u)) = ttl_outcome (filter (sets ttl_key) (filter tr srcs)) t"
  by (induction srcs arbitrary: t u) (auto simp: sets_def split: option.splits sum.splits)

lemma ttl_outcome_spec:
  "ttl_outcome ls t =
     (case filter (\<lambda>s. isl (ParseTransitionTTL (the (ttl_key s)))) ls of
        s # _ \<Rightarrow> Inl (ls_Path s, projl (ParseTransitionTTL (the (ttl_key s))))
      | [] \<Rightarrow> Inr (if ls = [] then t else projr (ParseTransitionTTL (the (ttl_key (last ls))))))"
  by (induction ls arbitrary: t) (auto split: sum.splits list.splits)

text \<open>
  The profile-rights transition lifetime: an error exactly when some trusted layer's value does
  not parse, and it names the first such layer; otherwise the last trusted value, or 24 hours.
\<close>

theorem transition_ttl_spec:
  "fst (TrustedTransitionTTL W h home r) =
     (let ls = filter (sets ttl_key) (trusted_layers W h home r)
      in case filter (\<lambda>s. isl (ParseTransitionTTL (the (ttl_key s)))) ls of
           s # _ \<Rightarrow> Inl (ls_Path s, projl (ParseTransitionTTL (the (ttl_key s))))
         | [] \<Rightarrow> Inr (if ls = [] then 24 * Hour else projr (ParseTransitionTTL (the (ttl_key (last ls))))))"
  unfolding TrustedTransitionTTL_def ttl_scan_outcome ttl_outcome_spec Let_def
    trusted_layers_def DefaultTransitionTTL_def by (rule refl)

text \<open>The denies of the layers that may not clear them.\<close>

definition lower_denies :: "(LoadSource \<Rightarrow> bool) \<Rightarrow> LoadSource list \<Rightarrow> string list" where
  "lower_denies trusted srcs =
     concat (map (\<lambda>s. case sf_Folio (ls_File s) of None \<Rightarrow> [] | Some f \<Rightarrow> slice_elems (fo_Deny f))
       (filter (\<lambda>s. \<not> trusted s \<and> ls_SkipReason s = [] \<and> ls_Found s) srcs))"

lemma folio_scan_policy:
  "fst (folio_scan tr srcs (p, l, u)) = fst (folio_scan tr (filter tr srcs) (p, l', u'))"
  by (induction srcs arbitrary: p l u l' u') (simp_all split: option.splits)

lemma folio_scan_denies:
  "fst (snd (folio_scan tr srcs (p, l, u))) = l @ lower_denies tr srcs"
  by (induction srcs arbitrary: p l u) (simp_all add: lower_denies_def split: option.splits)

lemma folio_lower_denies_trusted: "lower_denies tr (filter tr srcs) = []"
  by (simp add: lower_denies_def filter_empty_conv)

lemma TrustedFolio_split:
  "let p = fst (TrustedFolio W h home r);
       t = fst (TrustedFolio W (h\<lparr>h_Sources := trusted_layers W h home r\<rparr>) home r);
       low = lower_denies (trusted_in W home r) (h_Sources h)
   in fp_Read p = fp_Read t \<and> fp_Write p = fp_Write t \<and> fp_Unmatched p = fp_Unmatched t \<and>
      fp_Configured p = fp_Configured t \<and> slice_elems (fp_Deny p) = slice_elems (fp_Deny t) @ low"
proof -
  have f: "fst (TrustedFolio W h' home r) =
      (let s = folio_scan (trusted_in W home r) (h_Sources h') (empty_FolioPolicy, [], [])
       in (fst s)\<lparr>fp_Deny := append_elems (fp_Deny (fst s)) (fst (snd s))\<rparr>)" for h'
    by (simp add: TrustedFolio_def split_beta Let_def)
  have e: "slice_elems (append_elems a xs) = slice_elems a @ xs" for a xs
    by (simp add: append_elems_def)
  show ?thesis
    unfolding f Let_def folio_scan_denies
    using folio_scan_policy[of "trusted_in W home r" "h_Sources h" empty_FolioPolicy "[]" "[]" "[]" "[]"]
    by (simp add: trusted_layers_def folio_lower_denies_trusted e)
qed

text \<open>
  A layer that is not trusted can only narrow the folio policy: the allow lists, the unmatched
  verdict and whether the policy is configured are those of the trusted layers alone, and the deny
  list is theirs followed by every untrusted layer's denies.
\<close>

theorem folio_untrusted_layers_only_deny:
  "let p = fst (TrustedFolio W h home r);
       t = fst (TrustedFolio W (h\<lparr>h_Sources := trusted_layers W h home r\<rparr>) home r);
       low = lower_denies (trusted_in W home r) (h_Sources h)
   in fp_Read p = fp_Read t \<and> fp_Write p = fp_Write t \<and> fp_Unmatched p = fp_Unmatched t \<and>
      fp_Configured p = fp_Configured t \<and> slice_elems (fp_Deny p) = slice_elems (fp_Deny t) @ low"
  by (rule TrustedFolio_split)

end
