(* ===== verification/Loader.thy ===== *)
theory Loader
  imports Trust
begin

text \<open>
  The hierarchy loader (\<open>src/internal/alfa/sweatfileio/hierarchy.go\<close>, \<open>coding.go\<close>) and the
  resolution of a linked git worktree from its pointer file (\<open>src/internal/0/git/harden.go\<close>): which
  files become layers of the cascade, in which order, and what is merged. The lemmas give the
  ancestor chain in closed form, the merged file as the fold of the layers found, and that no layer
  lies outside the ancestor chains of the main checkout.
\<close>

section \<open>The file system the loader reads\<close>

datatype read_result = NotExist | ReadError string | Contents string

datatype node = RegularFile | OtherNode

text \<open>\<open>os.ReadFile\<close>, \<open>os.Stat\<close>, \<open>os.Lstat\<close>, and the generated decoder \<open>DecodeSweatfile\<close>, which is
  not part of the source tree's hand-written code.\<close>

record Disk =
  d_World :: World
  d_Read :: "string \<Rightarrow> read_result"
  d_Stat :: "string \<Rightarrow> bool"
  d_Lstat :: "string \<Rightarrow> node option"
  d_Decode :: "string \<Rightarrow> string + Sweatfile"

definition Load :: "Disk \<Rightarrow> string \<Rightarrow> string + Sweatfile" where
  "Load D path =
     (case d_Read D path of
        NotExist \<Rightarrow> d_Decode D []
      | ReadError e \<Rightarrow> Inl e
      | Contents data \<Rightarrow> d_Decode D data)"

section \<open>Linked worktrees\<close>

definition pointerCommonDir :: "Disk \<Rightarrow> string \<Rightarrow> string option" where
  "pointerCommonDir D worktree =
     (case d_Read D (JoinPath [worktree, ''.git'']) of
        Contents pointer \<Rightarrow>
          (case CutPrefix (TrimSpace pointer) ''gitdir:'' of
             None \<Rightarrow> None
           | Some g \<Rightarrow>
               let gitdir = TrimSpace g;
                   gitdir = (if IsAbs gitdir then gitdir else JoinPath [worktree, gitdir]);
                   gitdir = Clean gitdir
               in if Base (Dir gitdir) \<noteq> ''worktrees'' then None else Some (Dir (Dir gitdir)))
      | _ \<Rightarrow> None)"

function find_pointer :: "Disk \<Rightarrow> string \<Rightarrow> (string \<times> string) option" where
  "find_pointer D d =
     (case d_Lstat D (JoinPath [d, ''.git'']) of
        Some n \<Rightarrow>
          if n \<noteq> RegularFile then None
          else map_option (\<lambda>common. (d, common)) (pointerCommonDir D d)
      | None \<Rightarrow> if Dir d = d then None else find_pointer D (Dir d))"
  by auto
termination by (relation "measure (\<lambda>(_, d). climb_size d)") (simp_all add: Dir_climbs)

declare find_pointer.simps [simp del]

definition LinkedWorktree :: "Disk \<Rightarrow> string \<Rightarrow> (string \<times> string) option" where
  "LinkedWorktree D dir =
     (case Abs_path (d_World D) dir of None \<Rightarrow> None | Some d \<Rightarrow> find_pointer D d)"

definition LayoutCommonDir :: "Disk \<Rightarrow> string \<Rightarrow> string option" where
  "LayoutCommonDir D dir = map_option snd (LinkedWorktree D dir)"

definition mainCheckoutRoot :: "Disk \<Rightarrow> string \<Rightarrow> string" where
  "mainCheckoutRoot D dir =
     (case LayoutCommonDir D dir of
        Some common \<Rightarrow> if Base common = ''.git'' then Dir common else dir
      | None \<Rightarrow> dir)"

section \<open>The cascade\<close>

function ancestors_from :: "string \<Rightarrow> string \<Rightarrow> string list \<Rightarrow> string list" where
  "ancestors_from homeDir d ancestors =
     (let parent = Dir d in
      if parent = d then ancestors
      else if parent = ''/'' then ancestors
      else if parent = homeDir then ancestors
      else ancestors_from homeDir parent (parent # ancestors))"
  by auto
termination by (relation "measure (\<lambda>(_, d, _). climb_size d)") (simp_all add: Dir_climbs)

declare ancestors_from.simps [simp del]

definition chainAncestors :: "string \<Rightarrow> string \<Rightarrow> string list" where
  "chainAncestors start homeDir = ancestors_from homeDir start []"

text \<open>The locals of \<open>loadHierarchy\<close>: the sources, the merged file, the canonical directories seen.\<close>

type_synonym load_state = "LoadSource list \<times> Sweatfile \<times> string set"

definition addSource :: "Disk \<Rightarrow> string \<Rightarrow> load_state \<Rightarrow> string + load_state" where
  "addSource D dir s =
     (case s of (sources, merged, seen) \<Rightarrow>
        let sweatfilePath = JoinPath [dir, ''sweatfile'']; canonical = canonicalDir (d_World D) dir
        in if canonical \<in> seen then
             Inr (sources @ [\<lparr>ls_Path = sweatfilePath, ls_Found = False, ls_File = empty_Sweatfile,
                              ls_SkipReason = ''already loaded via '' @ canonical\<rparr>], merged, seen)
           else case Load D sweatfilePath of
             Inl e \<Rightarrow> Inl e
           | Inr sf \<Rightarrow>
               let found = d_Stat D sweatfilePath
               in Inr (sources @ [\<lparr>ls_Path = sweatfilePath, ls_Found = found, ls_File = sf, ls_SkipReason = []\<rparr>],
                       if found then MergeWith merged sf else merged, insert canonical seen))"

fun addSources :: "Disk \<Rightarrow> string list \<Rightarrow> load_state \<Rightarrow> string + load_state" where
  "addSources D [] s = Inr s"
| "addSources D (dir # dirs) s =
     (case addSource D dir s of Inl e \<Rightarrow> Inl e | Inr s' \<Rightarrow> addSources D dirs s')"

text \<open>The directories of steps 2 to 4, in order.\<close>

definition layer_dirs :: "Disk \<Rightarrow> string \<Rightarrow> string \<Rightarrow> bool \<Rightarrow> string list" where
  "layer_dirs D home repoDir withRepo =
     (let cleanHome = Clean home; cleanRepo = Clean repoDir; realRepo = canonicalDir (d_World D) cleanRepo
      in chainAncestors cleanRepo cleanHome @
         (if realRepo \<noteq> cleanRepo then chainAncestors realRepo cleanHome else []) @
         (if withRepo then cleanRepo # (if realRepo \<noteq> cleanRepo then [realRepo] else []) else []))"

definition loadHierarchy :: "Disk \<Rightarrow> string \<Rightarrow> string \<Rightarrow> bool \<Rightarrow> string + Hierarchy" where
  "loadHierarchy D home repoDir withRepo =
     (let repoDir = mainCheckoutRoot D (Clean repoDir); global = globalPath home
      in case Load D global of
           Inl e \<Rightarrow> Inl e
         | Inr sf \<Rightarrow>
             let found = d_Stat D global;
                 start = ([\<lparr>ls_Path = global, ls_Found = found, ls_File = sf, ls_SkipReason = []\<rparr>],
                          if found then MergeWith empty_Sweatfile sf else empty_Sweatfile, {})
             in case addSources D (layer_dirs D home repoDir withRepo) start of
                  Inl e \<Rightarrow> Inl e
                | Inr (sources, merged, _) \<Rightarrow> Inr \<lparr>h_Sources = sources, h_Merged = merged\<rparr>)"

definition LoadHierarchy :: "Disk \<Rightarrow> string \<Rightarrow> string \<Rightarrow> string + Hierarchy" where
  "LoadHierarchy D home repoDir = loadHierarchy D home repoDir True"

text \<open>\<open>Overrides\<close>: what a worktree's own sweatfile may still say.\<close>

definition WorktreeOverrides :: "Disk \<Rightarrow> string \<Rightarrow> bool ptr" where
  "WorktreeOverrides D dir =
     (case Load D (JoinPath [dir, ''sweatfile'']) of
        Inl _ \<Rightarrow> None
      | Inr sf \<Rightarrow> (case sf_Hooks sf of None \<Rightarrow> None | Some h \<Rightarrow> hk_DisableNixGC h))"

definition withTopLayer :: "Disk \<Rightarrow> Hierarchy \<Rightarrow> string \<Rightarrow> string \<Rightarrow> bool \<Rightarrow> string + Hierarchy" where
  "withTopLayer D h label data found =
     (case (if found then d_Decode D data else Inr empty_Sweatfile) of
        Inl e \<Rightarrow> Inl (label @ '': '' @ e)
      | Inr sf \<Rightarrow>
          Inr \<lparr>h_Sources = h_Sources h @ [\<lparr>ls_Path = label, ls_Found = found, ls_File = sf, ls_SkipReason = []\<rparr>],
               h_Merged = (if found then MergeWith (h_Merged h) sf else h_Merged h)\<rparr>)"

text \<open>\<open>git.FileAtRev\<close> runs git: \<open>fileAtRev repo rev name\<close> is its error or the bytes, if present.\<close>

definition LoadCommittedHierarchy ::
  "Disk \<Rightarrow> (string \<Rightarrow> string \<Rightarrow> string \<Rightarrow> string + string option) \<Rightarrow>
   string \<Rightarrow> string \<Rightarrow> string \<Rightarrow> string \<Rightarrow> string + Hierarchy" where
  "LoadCommittedHierarchy D fileAtRev home mainRepoRoot revision label =
     (case fileAtRev mainRepoRoot revision ''sweatfile'' of
        Inl e \<Rightarrow> Inl (''read sweatfile at '' @ label @ '': '' @ e)
      | Inr blob \<Rightarrow>
          (case loadHierarchy D home mainRepoRoot False of
             Inl e \<Rightarrow> Inl e
           | Inr h \<Rightarrow>
               withTopLayer D h (label @ '':sweatfile'')
                 (case blob of None \<Rightarrow> [] | Some b \<Rightarrow> b) (blob \<noteq> None)))"

definition LoadHierarchyWithLayer ::
  "Disk \<Rightarrow> string \<Rightarrow> string \<Rightarrow> string \<Rightarrow> string \<Rightarrow> bool \<Rightarrow> string + Hierarchy" where
  "LoadHierarchyWithLayer D home mainRepoRoot label data found =
     (case LoadHierarchy D home mainRepoRoot of
        Inl e \<Rightarrow> Inl e | Inr h \<Rightarrow> withTopLayer D h label data found)"

section \<open>The chain in closed form\<close>

definition chain_from :: "string list \<Rightarrow> string list \<Rightarrow> nat" where
  "chain_from hs es = Suc (if length hs < length es \<and> take (length hs) es = hs then length hs else 0)"

lemma ancestors_from_spec:
  assumes "\<forall>e \<in> set es. plain_elem e" "\<forall>e \<in> set hs. plain_elem e"
  shows "ancestors_from (abs_path hs) (abs_path es) acc =
    map (\<lambda>k. abs_path (take k es)) [chain_from hs es..<length es] @ acc"
  using assms(1)
proof (induction es arbitrary: acc rule: rev_induct)
  case Nil
  then show ?case by (simp add: ancestors_from.simps[of _ "abs_path []"] Dir_root)
next
  case (snoc e es)
  then have pl: "\<forall>e \<in> set es. plain_elem e" and e: "plain_elem e" by auto
  have d: "Dir (abs_path (es @ [e])) = abs_path es" by (rule Dir_abs_path[OF pl e])
  have ne: "abs_path es \<noteq> abs_path (es @ [e])"
    using abs_path_inj[OF pl, of "es @ [e]"] pl e by auto
  have root: "abs_path es = ''/'' \<longleftrightarrow> es = []"
    using abs_path_inj[OF pl, of "[]"] by (simp add: abs_path_def)
  have home: "abs_path es = abs_path hs \<longleftrightarrow> es = hs" by (rule abs_path_inj[OF pl assms(2)])
  show ?case
  proof (cases "es = [] \<or> es = hs")
    case True
    then show ?thesis
      using d ne root home by (subst ancestors_from.simps) (auto simp: chain_from_def)
  next
    case False
    have lo: "chain_from hs (es @ [e]) = chain_from hs es"
      using False by (auto simp: chain_from_def less_Suc_eq)
    have "chain_from hs es \<le> length es" using False by (cases es) (auto simp: chain_from_def)
    then have "map (\<lambda>k. abs_path (take k (es @ [e]))) [chain_from hs (es @ [e])..<length (es @ [e])] =
        map (\<lambda>k. abs_path (take k es)) [chain_from hs es..<length es] @ [abs_path es]"
      by (simp add: lo)
    moreover have "ancestors_from (abs_path hs) (abs_path (es @ [e])) acc =
        ancestors_from (abs_path hs) (abs_path es) (abs_path es # acc)"
      using d ne root home False by (subst ancestors_from.simps) (simp add: Let_def)
    ultimately show ?thesis using snoc.IH[OF pl] by simp
  qed
qed

section \<open>What a load yields\<close>

text \<open>Every source a load adds: its path, and the file merged when it was found.\<close>

definition load_inv :: "string list \<Rightarrow> load_state \<Rightarrow> bool" where
  "load_inv paths s =
     (case s of (sources, merged, seen) \<Rightarrow>
        map ls_Path sources = paths \<and>
        merged = merge_layers (map ls_File (filter ls_Found sources)) \<and>
        (\<forall>src \<in> set sources. ls_SkipReason src \<noteq> [] \<longrightarrow> \<not> ls_Found src))"

lemma addSource_inv:
  "load_inv paths s \<Longrightarrow> addSource D dir s = Inr s' \<Longrightarrow>
   load_inv (paths @ [JoinPath [dir, ''sweatfile'']]) s'"
  by (cases s) (auto simp: addSource_def load_inv_def Let_def simp del: JoinPath.simps split: if_splits sum.splits)

lemma addSources_inv:
  "load_inv paths s \<Longrightarrow> addSources D dirs s = Inr s' \<Longrightarrow>
   load_inv (paths @ map (\<lambda>d. JoinPath [d, ''sweatfile'']) dirs) s'"
proof (induction dirs arbitrary: paths s)
  case (Cons d dirs)
  then obtain t where t: "addSource D d s = Inr t" "addSources D dirs t = Inr s'"
    by (auto split: sum.splits)
  from Cons.IH[OF addSource_inv[OF Cons.prems(1) t(1)] t(2)] show ?case
    by (simp del: JoinPath.simps)
qed (simp add: load_inv_def)

lemma loadHierarchy_inv:
  assumes "loadHierarchy D home r withRepo = Inr h"
  shows "\<exists>seen. load_inv (globalPath home #
      map (\<lambda>d. JoinPath [d, ''sweatfile'']) (layer_dirs D home (mainCheckoutRoot D (Clean r)) withRepo))
    (h_Sources h, h_Merged h, seen)"
proof -
  let ?dirs = "layer_dirs D home (mainCheckoutRoot D (Clean r)) withRepo"
  obtain sf where sf: "Load D (globalPath home) = Inr sf"
    using assms by (auto simp: loadHierarchy_def Let_def split: sum.splits)
  let ?found = "d_Stat D (globalPath home)"
  let ?start = "([\<lparr>ls_Path = globalPath home, ls_Found = ?found, ls_File = sf, ls_SkipReason = []\<rparr>],
      if ?found then MergeWith empty_Sweatfile sf else empty_Sweatfile, {})"
  obtain sources merged seen where a: "addSources D ?dirs ?start = Inr (sources, merged, seen)"
    and h: "h = \<lparr>h_Sources = sources, h_Merged = merged\<rparr>"
    using assms sf by (auto simp: loadHierarchy_def Let_def split: sum.splits prod.splits)
  have "load_inv [globalPath home] ?start" by (simp add: load_inv_def merge_layers_def)
  from addSources_inv[OF this a] show ?thesis by (auto simp: h simp del: JoinPath.simps)
qed

lemma loadHierarchy_paths:
  "loadHierarchy D home r withRepo = Inr h \<Longrightarrow> map ls_Path (h_Sources h) = globalPath home #
      map (\<lambda>d. JoinPath [d, ''sweatfile'']) (layer_dirs D home (mainCheckoutRoot D (Clean r)) withRepo)"
  by (drule loadHierarchy_inv) (auto simp: load_inv_def simp del: JoinPath.simps)

text \<open>A disk with a main checkout, a linked worktree of it, and one sweatfile above it.\<close>

definition sample_disk :: Disk where
  "sample_disk =
     \<lparr>d_World = \<lparr>w_EvalSymlinks = (\<lambda>p. Some (Clean p)), w_Getwd = None\<rparr>,
      d_Read = (\<lambda>p. if p = ''/w/.git'' then Contents ''gitdir: /p/r/.git/worktrees/a''
                    else if p = ''/p/sweatfile'' then Contents ''x'' else NotExist),
      d_Stat = (\<lambda>p. p = ''/p/sweatfile''),
      d_Lstat = (\<lambda>p. if p = ''/w/.git'' then Some RegularFile
                     else if p = ''/p/r/.git'' then Some OtherNode else None),
      d_Decode = (\<lambda>data. Inr (empty_Sweatfile\<lparr>sf_AllowedMCPs := (if data = [] then None else Some [data])\<rparr>))\<rparr>"

definition sample_load :: Hierarchy where
  "sample_load = projr (loadHierarchy sample_disk ''/h'' ''/w/s'' True)"

lemma sample_load: "loadHierarchy sample_disk ''/h'' ''/w/s'' True = Inr sample_load"
proof -
  have "\<not> isl (loadHierarchy sample_disk ''/h'' ''/w/s'' True)" by code_simp
  then show ?thesis unfolding sample_load_def by (rule sum.collapse(2)[symmetric])
qed

text \<open>
  A successful load looks at the global sweatfile, then at the ancestor chains and the
  repository directories in order, and its merged file is the fold of exactly the files found; a
  source skipped as a duplicate is never merged.
\<close>

theorem loadHierarchy_merges_found:
  assumes "loadHierarchy D home r withRepo = Inr h"
  shows "map ls_Path (h_Sources h) = globalPath home #
      map (\<lambda>d. JoinPath [d, ''sweatfile'']) (layer_dirs D home (mainCheckoutRoot D (Clean r)) withRepo) \<and>
    h_Merged h = merge_layers (map ls_File (filter ls_Found (h_Sources h))) \<and>
    (\<forall>src \<in> set (h_Sources h). ls_SkipReason src \<noteq> [] \<longrightarrow> \<not> ls_Found src)"
  using loadHierarchy_inv[OF assms] by (auto simp: load_inv_def simp del: JoinPath.simps)

lemma loadHierarchy_merges_found_witness:
  "sf_AllowedMCPs (h_Merged sample_load) =
     sf_AllowedMCPs (merge_layers (map ls_File (filter ls_Found (h_Sources sample_load)))) \<and>
   sf_AllowedMCPs (h_Merged sample_load) = Some [''x'']"
proof -
  have "sf_AllowedMCPs (h_Merged sample_load) = Some [''x'']" by code_simp
  moreover have "h_Merged sample_load = merge_layers (map ls_File (filter ls_Found (h_Sources sample_load)))"
    using loadHierarchy_merges_found[OF sample_load] by (elim conjE)
  ultimately show ?thesis by (simp only:)
qed

lemma Clean_fix_abs_path:
  "IsAbs p \<Longrightarrow> Clean p = p \<Longrightarrow> p = abs_path (path_elems p) \<and> (\<forall>e \<in> set (path_elems p). plain_elem e)"
  using Clean_abs path_elems_plain by metis

text \<open>
  For cleaned absolute paths the ancestor chain is the proper ancestors of the start, root
  first, without the root itself, and only those strictly below home when the start lies under it.
\<close>

theorem chainAncestors_spec:
  assumes "IsAbs start" "Clean start = start" "IsAbs home" "Clean home = home"
  shows "chainAncestors start home =
    map (\<lambda>k. abs_path (take k (path_elems start)))
      [chain_from (path_elems home) (path_elems start)..<length (path_elems start)]"
proof -
  note s = Clean_fix_abs_path[OF assms(1,2)] and h = Clean_fix_abs_path[OF assms(3,4)]
  have "ancestors_from (abs_path (path_elems home)) (abs_path (path_elems start)) [] =
    map (\<lambda>k. abs_path (take k (path_elems start)))
      [chain_from (path_elems home) (path_elems start)..<length (path_elems start)]"
    using ancestors_from_spec[of "path_elems start" "path_elems home" "[]"] s h by simp
  then show ?thesis using s h unfolding chainAncestors_def by simp
qed

lemma chainAncestors_spec_witness:
  "chainAncestors ''/h/u/eng/repo'' ''/h/u'' = [''/h/u/eng''] \<and>
   chainAncestors ''/srv/a/repo'' ''/h/u'' = [''/srv'', ''/srv/a'']"
proof -
  have e: "path_elems ''/h/u/eng/repo'' = [''h'', ''u'', ''eng'', ''repo'']" "path_elems ''/h/u'' = [''h'', ''u'']"
    "path_elems ''/srv/a/repo'' = [''srv'', ''a'', ''repo'']"
    "Clean ''/h/u/eng/repo'' = ''/h/u/eng/repo''" "Clean ''/h/u'' = ''/h/u''" "Clean ''/srv/a/repo'' = ''/srv/a/repo''"
    by code_simp+
  have a: "IsAbs ''/h/u/eng/repo''" "IsAbs ''/h/u''" "IsAbs ''/srv/a/repo''" by code_simp+
  show ?thesis
    unfolding chainAncestors_spec[OF a(1) e(4) a(2) e(5)] chainAncestors_spec[OF a(3) e(6) a(2) e(5)]
    by (simp add: e chain_from_def abs_path_def upt_rec)
qed

lemma chainAncestors_above:
  assumes "IsAbs start" "Clean start = start" "IsAbs home" "Clean home = home"
    and "d \<in> set (chainAncestors start home)"
  shows "at_or_below d start"
proof -
  have pl: "\<forall>e \<in> set (take k (path_elems start)). plain_elem e" for k
    using path_elems_plain[OF assms(1)] by (meson in_set_takeD)
  from assms(5) obtain k where d: "d = abs_path (take k (path_elems start))"
    unfolding chainAncestors_spec[OF assms(1-4)] by auto
  have "path_elems d = take k (path_elems start)" unfolding d by (rule path_elems_abs[OF pl])
  then show ?thesis unfolding at_or_below_def by (metis append_take_drop_id)
qed

text \<open>What Go documents of \<open>EvalSymlinks\<close>: the result is cleaned, and absolute for an absolute path.\<close>

definition resolves_cleanly :: "World \<Rightarrow> bool" where
  "resolves_cleanly W \<longleftrightarrow>
     (\<forall>d r. w_EvalSymlinks W d = Some r \<longrightarrow> IsAbs d \<longrightarrow> IsAbs r \<and> Clean r = r)"

lemma layer_dirs_above:
  assumes W: "resolves_cleanly (d_World D)" and abs: "IsAbs home" "IsAbs main" "Clean main = main"
    and d: "d \<in> set (layer_dirs D home main withRepo)"
  shows "at_or_below d main \<or> at_or_below d (canonicalDir (d_World D) main)"
proof -
  let ?real = "canonicalDir (d_World D) main"
  have real: "IsAbs ?real" "Clean ?real = ?real"
    using W abs by (auto simp: resolves_cleanly_def canonicalDir_def split: option.splits)
  have home: "IsAbs (Clean home)" "Clean (Clean home) = Clean home"
    using abs(1) IsAbs_Clean Clean_idem_abs by auto
  have self: "at_or_below x x" for x by (simp add: at_or_below_def)
  show ?thesis
    using d self chainAncestors_above[OF abs(2,3) home] chainAncestors_above[OF real home]
    by (auto simp: layer_dirs_def Let_def abs(3) split: if_splits)
qed

text \<open>
  Loading from inside a linked worktree never makes a layer of anything in the worktree: beside
  the global file, every source is the \<open>sweatfile\<close> of a directory at or above the main checkout
  that the worktree's pointer file names, or at or above that checkout's resolved path.
\<close>

theorem worktree_never_a_layer:
  assumes "LinkedWorktree D (Clean r) = Some (wt, common)" "Base common = ''.git''" "IsAbs common"
    and "IsAbs home" "resolves_cleanly (d_World D)" "loadHierarchy D home r withRepo = Inr h"
    and "src \<in> set (tl (h_Sources h))"
  shows "\<exists>d. ls_Path src = JoinPath [d, ''sweatfile''] \<and>
    (at_or_below d (Dir common) \<or> at_or_below d (canonicalDir (d_World D) (Dir common)))"
proof -
  have main: "mainCheckoutRoot D (Clean r) = Dir common"
    using assms(1,2) by (simp add: mainCheckoutRoot_def LayoutCommonDir_def)
  have "IsAbs (rev (dropWhile (\<lambda>c. c \<noteq> slash) (rev common)))"
    using IsAbs_dir_part[OF assms(3)] .
  then have clean: "Clean (Dir common) = Dir common"
    unfolding Dir_def by (rule Clean_idem_abs)
  have "ls_Path src \<in> set (tl (map ls_Path (h_Sources h)))"
    using assms(7) by (simp add: map_tl[symmetric])
  then obtain d where "d \<in> set (layer_dirs D home (Dir common) withRepo)" "ls_Path src = JoinPath [d, ''sweatfile'']"
    using loadHierarchy_paths[OF assms(6)] unfolding main by auto
  with layer_dirs_above[OF assms(5,4) IsAbs_Dir[OF assms(3)] clean] show ?thesis by blast
qed

lemma worktree_never_a_layer_witness:
  "\<exists>d. ls_Path (hd (tl (h_Sources sample_load))) = JoinPath [d, ''sweatfile''] \<and>
     (at_or_below d (Dir ''/p/r/.git'') \<or> at_or_below d (canonicalDir (d_World sample_disk) (Dir ''/p/r/.git'')))"
proof (rule worktree_never_a_layer)
  show "LinkedWorktree sample_disk (Clean ''/w/s'') = Some (''/w'', ''/p/r/.git'')"
    by code_simp
  show "Base ''/p/r/.git'' = ''.git''" "IsAbs ''/p/r/.git''" "IsAbs ''/h''" by code_simp+
  show "resolves_cleanly (d_World sample_disk)"
    by (auto simp: resolves_cleanly_def sample_disk_def IsAbs_Clean Clean_idem_abs)
  show "loadHierarchy sample_disk ''/h'' ''/w/s'' True = Inr sample_load" by (rule sample_load)
  show "hd (tl (h_Sources sample_load)) \<in> set (tl (h_Sources sample_load))"
    by (rule hd_in_set) code_simp
qed

end
