(* ===== verification/Folio.thy ===== *)
theory Folio
  imports GoPath
begin

text \<open>
  The grammar of the \<open>[folio]\<close> stanza (\<open>src/internal/0/folio/pattern.go\<close>): an entry is
  \<open><anchor>:<path>\<close>, parsed into an anchor, its argument and the path segments below the
  anchor's root. The lemmas say what a parsed pattern can look like.
\<close>

text \<open>Anchor names are the source's string constants.\<close>

datatype Anchor =
    AnchorPwd | AnchorHome | AnchorEnv | AnchorNixStore | AnchorSpinclass | AnchorMadder

fun anchor_of :: "string \<Rightarrow> Anchor option" where
  "anchor_of s =
     (if s = ''pwd'' then Some AnchorPwd
      else if s = ''home'' then Some AnchorHome
      else if s = ''env'' then Some AnchorEnv
      else if s = ''nix-store'' then Some AnchorNixStore
      else if s = ''spinclass'' then Some AnchorSpinclass
      else if s = ''madder'' then Some AnchorMadder
      else None)"

definition SpinclassRoots :: "string list" where
  "SpinclassRoots = [''worktree'', ''repo'', ''worktrees'', ''children'', ''siblings'']"

record Pattern =
  pat_Anchor :: Anchor
  pat_Arg :: string
  pat_Segments :: "string list"
  pat_Raw :: string

text \<open>\<open>Pattern.String\<close>.\<close>

definition Pattern_String :: "Pattern \<Rightarrow> string" where
  "Pattern_String p = pat_Raw p"

datatype path_error =
    LeadingSlash | TrailingSlash | EmptySegment | DotSegment string
  | DoubleStarInside | TildeSegment | PartialStar

datatype pattern_error =
    NotAnchorPath string | BadEnvEntry string | BadSpinclassRoot string
  | RootTrailingSlash string | MadderTakesNoPath string | UnknownAnchor string string
  | BadPath string path_error

definition letter :: "char \<Rightarrow> bool" where
  "letter c \<longleftrightarrow> (CHR ''A'' \<le> c \<and> c \<le> CHR ''Z'') \<or> (CHR ''a'' \<le> c \<and> c \<le> CHR ''z'')"

definition digit :: "char \<Rightarrow> bool" where
  "digit c \<longleftrightarrow> CHR ''0'' \<le> c \<and> c \<le> CHR ''9''"

text \<open>The regular expression \<open>^[A-Za-z_][A-Za-z0-9_]*$\<close>.\<close>

fun envName :: "string \<Rightarrow> bool" where
  "envName [] = False"
| "envName (c # cs) =
     ((letter c \<or> c = CHR ''_'') \<and> list_all (\<lambda>d. letter d \<or> digit d \<or> d = CHR ''_'') cs)"

text \<open>One iteration of \<open>parsePath\<close>'s loop: the first defect of a segment, in the order of
  the source's cases.\<close>

definition segment_error :: "string \<Rightarrow> path_error option" where
  "segment_error s =
     (if s = [] then Some EmptySegment
      else if s = ''.'' \<or> s = ''..'' then Some (DotSegment s)
      else if s = ''**'' then Some DoubleStarInside
      else if Contains s ''~'' then Some TildeSegment
      else if Contains s ''*'' \<and> s \<noteq> ''*'' then Some PartialStar
      else None)"

fun first_error :: "string list \<Rightarrow> path_error option" where
  "first_error [] = None"
| "first_error (s # ss) = (case segment_error s of Some e \<Rightarrow> Some e | None \<Rightarrow> first_error ss)"

definition parsePath :: "string \<Rightarrow> path_error + string list" where
  "parsePath path =
     (if path = [] then Inr []
      else if HasPrefix path ''/'' then Inl LeadingSlash
      else
        let path = TrimSuffix path ''/**'' in
        if path = [] then Inr []
        else if HasSuffix path ''/'' then Inl TrailingSlash
        else
          let segs = split1 slash path in
          (case first_error segs of Some e \<Rightarrow> Inl e | None \<Rightarrow> Inr segs))"

text \<open>The tail of \<open>ParsePattern\<close>, shared by every anchor that takes a path.\<close>

definition with_path :: "string \<Rightarrow> Anchor \<Rightarrow> string \<Rightarrow> string \<Rightarrow> pattern_error + Pattern" where
  "with_path raw a arg path =
     (case parsePath path of
        Inl e \<Rightarrow> Inl (BadPath raw e)
      | Inr segs \<Rightarrow> Inr \<lparr>pat_Anchor = a, pat_Arg = arg, pat_Segments = segs, pat_Raw = raw\<rparr>)"

definition ParsePattern :: "string \<Rightarrow> pattern_error + Pattern" where
  "ParsePattern raw =
     (case Cut raw '':'' of
        None \<Rightarrow> Inl (NotAnchorPath raw)
      | Some (anchor, rest) \<Rightarrow>
          if anchor = [] then Inl (NotAnchorPath raw)
          else (case anchor_of anchor of
              None \<Rightarrow> Inl (UnknownAnchor raw anchor)
            | Some AnchorEnv \<Rightarrow>
                (case Cut rest '':'' of
                   None \<Rightarrow> Inl (BadEnvEntry raw)
                 | Some (nm, after) \<Rightarrow>
                     if \<not> envName nm then Inl (BadEnvEntry raw)
                     else with_path raw AnchorEnv nm after)
            | Some AnchorSpinclass \<Rightarrow>
                (let (root, after) = (case Cut rest ''/'' of None \<Rightarrow> (rest, []) | Some p \<Rightarrow> p) in
                 if root \<notin> set SpinclassRoots then Inl (BadSpinclassRoot raw)
                 else if HasSuffix rest ''/'' \<and> after = [] then Inl (RootTrailingSlash raw)
                 else with_path raw AnchorSpinclass root after)
            | Some AnchorMadder \<Rightarrow>
                if rest \<noteq> [] then Inl (MadderTakesNoPath raw)
                else Inr \<lparr>pat_Anchor = AnchorMadder, pat_Arg = [], pat_Segments = [], pat_Raw = raw\<rparr>
            | Some a \<Rightarrow> with_path raw a [] rest))"

section \<open>What a parsed pattern looks like\<close>

text \<open>A segment is the wildcard or a plain path element without \<open>*\<close> and \<open>~\<close>.\<close>

definition wf_segment :: "string \<Rightarrow> bool" where
  "wf_segment s \<longleftrightarrow>
     s = ''*'' \<or> (plain_elem s \<and> CHR ''*'' \<notin> set s \<and> CHR ''~'' \<notin> set s)"

definition wf_pattern :: "Pattern \<Rightarrow> bool" where
  "wf_pattern p \<longleftrightarrow>
     list_all wf_segment (pat_Segments p) \<and>
     (case pat_Anchor p of
        AnchorEnv \<Rightarrow> envName (pat_Arg p)
      | AnchorSpinclass \<Rightarrow> pat_Arg p \<in> set SpinclassRoots
      | AnchorMadder \<Rightarrow> pat_Segments p = [] \<and> pat_Arg p = []
      | _ \<Rightarrow> pat_Arg p = [])"

lemma segment_ok: "segment_error s = None \<Longrightarrow> slash \<notin> set s \<Longrightarrow> wf_segment s"
  by (auto simp: segment_error_def wf_segment_def plain_elem_def split: if_splits)

lemma segment_ok_iff: "slash \<notin> set s \<Longrightarrow> segment_error s = None \<longleftrightarrow> wf_segment s"
  by (auto simp: segment_error_def wf_segment_def plain_elem_def)

lemma first_error_None: "first_error ss = None \<longleftrightarrow> (\<forall>s \<in> set ss. segment_error s = None)"
  by (induction ss) (auto split: option.splits)

lemma parsePath_wf: "parsePath path = Inr segs \<Longrightarrow> list_all wf_segment segs"
  by (auto simp: parsePath_def Let_def list_all_iff first_error_None
           intro!: segment_ok dest: split1_no_sep split: if_splits option.splits)

lemma with_path_wf:
  "with_path raw a arg path = Inr p \<Longrightarrow>
   list_all wf_segment (pat_Segments p) \<and> pat_Anchor p = a \<and> pat_Arg p = arg \<and> pat_Raw p = raw"
  by (auto simp: with_path_def dest: parsePath_wf split: sum.splits)

lemma ParsePattern_wf: "ParsePattern raw = Inr p \<Longrightarrow> wf_pattern p"
  by (auto simp: ParsePattern_def wf_pattern_def Let_def dest!: with_path_wf
           split: option.splits if_splits Anchor.splits prod.splits)

lemma ParsePattern_raw: "ParsePattern raw = Inr p \<Longrightarrow> pat_Raw p = raw"
  by (auto simp: ParsePattern_def Let_def dest!: with_path_wf
           split: option.splits if_splits Anchor.splits prod.splits)

section \<open>The written form of a pattern\<close>

text \<open>The entry a pattern stands for, in the grammar of the package comment.\<close>

fun anchor_name :: "Anchor \<Rightarrow> string" where
  "anchor_name AnchorPwd = ''pwd''"
| "anchor_name AnchorHome = ''home''"
| "anchor_name AnchorEnv = ''env''"
| "anchor_name AnchorNixStore = ''nix-store''"
| "anchor_name AnchorSpinclass = ''spinclass''"
| "anchor_name AnchorMadder = ''madder''"

definition write_entry :: "Anchor \<Rightarrow> string \<Rightarrow> string list \<Rightarrow> string" where
  "write_entry a arg segs =
     anchor_name a @ '':'' @
     (case a of
        AnchorEnv \<Rightarrow> arg @ '':'' @ Join segs ''/''
      | AnchorSpinclass \<Rightarrow> if segs = [] then arg else arg @ ''/'' @ Join segs ''/''
      | _ \<Rightarrow> Join segs ''/'')"

lemma wf_segment_slash: "wf_segment s \<Longrightarrow> slash \<notin> set s \<and> s \<noteq> []"
  by (auto simp: wf_segment_def plain_elem_def)

lemma wf_segment_not_dstar: "wf_segment s \<Longrightarrow> s \<noteq> ''**''"
  by (auto simp: wf_segment_def)

lemma Join_last: "xs \<noteq> [] \<Longrightarrow> \<exists>t. Join xs sep = t @ last xs"
  by (induction xs sep rule: Join.induct) auto

lemma Join_hd: "xs \<noteq> [] \<Longrightarrow> \<exists>t. Join xs sep = hd xs @ t"
  by (induction xs sep rule: Join.induct) auto

lemma parsePath_Join:
  assumes wf: "list_all wf_segment segs"
  shows "parsePath (Join segs ''/'') = Inr segs"
proof (cases "segs = []")
  case True
  then show ?thesis by (simp add: parsePath_def)
next
  case False
  let ?p = "Join segs ''/''"
  have noslash: "\<forall>s \<in> set segs. slash \<notin> set s \<and> s \<noteq> []"
    using wf by (auto simp: list_all_iff dest: wf_segment_slash)
  have split: "split1 slash ?p = segs" using noslash False by (simp add: split1_Join)
  have ne: "?p \<noteq> []" using noslash False by (simp add: Join_eq_Nil)
  have "\<not> HasPrefix ?p ''/''"
  proof
    assume "HasPrefix ?p ''/''"
    then obtain t where "?p = slash # t" by (auto simp: HasPrefix_iff)
    with split have "segs = [] # split1 slash t" by simp
    with noslash show False by auto
  qed
  moreover have nosuf: "\<not> HasSuffix ?p (slash # w)" if "\<not> wf_segment w" "slash \<notin> set w" for w
  proof
    assume "HasSuffix ?p (slash # w)"
    then obtain t where "?p = t @ slash # w" by (auto simp: HasSuffix_iff)
    with split have "segs = split1 slash t @ [w]" using that by (simp add: split1_sep)
    with wf that show False by simp
  qed
  have "\<not> HasSuffix ?p ''/**''" by (rule nosuf) (auto simp: wf_segment_def)
  moreover have "\<not> HasSuffix ?p ''/''" by (rule nosuf) (auto simp: wf_segment_def plain_elem_def)
  moreover have "first_error segs = None"
    using wf noslash by (simp add: first_error_None list_all_iff segment_ok_iff)
  ultimately show ?thesis using ne split by (simp add: parsePath_def TrimSuffix_def Let_def)
qed


lemma Cut_anchor: "Cut (anchor_name a @ CHR '':'' # r) '':'' = Some (anchor_name a, r)"
  by (rule Cut_char) (cases a; simp)

lemma anchor_of_name: "anchor_of (anchor_name a) = Some a"
  by (cases a) auto

lemma anchor_name_nonempty: "anchor_name a \<noteq> []"
  by (cases a) auto

lemma envName_chars: "envName s \<Longrightarrow> c \<in> set s \<Longrightarrow> letter c \<or> digit c \<or> c = CHR ''_''"
  by (cases s) (auto simp: list_all_iff)

lemma envName_no_colon: "envName s \<Longrightarrow> CHR '':'' \<notin> set s"
  by (auto dest!: envName_chars simp: letter_def digit_def)

lemma root_no_slash: "r \<in> set SpinclassRoots \<Longrightarrow> slash \<notin> set r \<and> r \<noteq> []"
  by (auto simp: SpinclassRoots_def)

lemma root_not_suffix: "r \<in> set SpinclassRoots \<Longrightarrow> \<not> HasSuffix r ''/''"
  by (auto simp: SpinclassRoots_def HasSuffix_def)

lemma with_path_Join:
  "list_all wf_segment segs \<Longrightarrow>
   with_path raw a arg (Join segs ''/'') =
     Inr \<lparr>pat_Anchor = a, pat_Arg = arg, pat_Segments = segs, pat_Raw = raw\<rparr>"
  by (simp add: with_path_def parsePath_Join)

lemma Join_wf_nonempty:
  "list_all wf_segment segs \<Longrightarrow> segs \<noteq> [] \<Longrightarrow> Join segs ''/'' \<noteq> []"
  by (simp add: list_all_iff Join_eq_Nil wf_segment_slash)

text \<open>
  Every entry the grammar can write is parsed to exactly the anchor, argument and segments
  it was written from, and every pattern \<open>ParsePattern\<close> accepts is well formed: its segments are
  the wildcard or plain elements (no empty, dot, dot-dot, tilde or partial-star segment), an
  \<open>env\<close> argument is a variable name, a \<open>spinclass\<close> argument one of the five roots, and a
  \<open>madder\<close> pattern has no path.
\<close>

theorem ParsePattern_roundtrip:
  "(wf_pattern p \<longrightarrow>
      ParsePattern (write_entry (pat_Anchor p) (pat_Arg p) (pat_Segments p)) =
        Inr (p\<lparr>pat_Raw := write_entry (pat_Anchor p) (pat_Arg p) (pat_Segments p)\<rparr>)) \<and>
   (ParsePattern raw = Inr q \<longrightarrow> wf_pattern q \<and> pat_Raw q = raw)"
proof (rule conjI; rule impI)
  assume wf: "wf_pattern p"
  obtain a arg segs rw where p: "p = \<lparr>pat_Anchor = a, pat_Arg = arg, pat_Segments = segs, pat_Raw = rw\<rparr>"
    by (cases p)
  have segs: "list_all wf_segment segs" using wf by (simp add: p wf_pattern_def)
  note parse = ParsePattern_def write_entry_def Cut_anchor anchor_name_nonempty anchor_of_name
  show "ParsePattern (write_entry (pat_Anchor p) (pat_Arg p) (pat_Segments p)) =
        Inr (p\<lparr>pat_Raw := write_entry (pat_Anchor p) (pat_Arg p) (pat_Segments p)\<rparr>)"
  proof (cases a)
    case AnchorEnv
    with wf have "envName arg" by (simp add: p wf_pattern_def)
    then show ?thesis
      using segs AnchorEnv by (simp add: p parse Cut_char envName_no_colon with_path_Join del: envName.simps anchor_of.simps anchor_name.simps)
  next
    case AnchorSpinclass
    with wf have r: "arg \<in> set SpinclassRoots" by (simp add: p wf_pattern_def)
    show ?thesis
    proof (cases "segs = []")
      case True
      then show ?thesis
        using AnchorSpinclass r with_path_Join[of "[]"]
        by (simp add: p parse Cut_char_nosep root_no_slash root_not_suffix del: anchor_of.simps anchor_name.simps)
    next
      case False
      then show ?thesis
        using AnchorSpinclass r segs
        by (simp add: p parse Cut_char root_no_slash with_path_Join Join_wf_nonempty del: anchor_of.simps anchor_name.simps)
    qed
  next
    case AnchorMadder
    with wf have "segs = []" "arg = []" by (simp_all add: p wf_pattern_def)
    with AnchorMadder show ?thesis by (simp add: p parse del: anchor_of.simps anchor_name.simps)
  qed (use wf segs in \<open>simp_all add: p wf_pattern_def parse with_path_Join del: anchor_of.simps anchor_name.simps\<close>)
next
  assume "ParsePattern raw = Inr q"
  then show "wf_pattern q \<and> pat_Raw q = raw" by (simp add: ParsePattern_wf ParsePattern_raw)
qed

theorem ParsePattern_roundtrip_witness:
  "ParsePattern ''env:SRC:a/*/b'' =
     Inr \<lparr>pat_Anchor = AnchorEnv, pat_Arg = ''SRC'', pat_Segments = [''a'', ''*'', ''b''], pat_Raw = ''env:SRC:a/*/b''\<rparr> \<and>
   wf_pattern \<lparr>pat_Anchor = AnchorEnv, pat_Arg = ''SRC'', pat_Segments = [''a'', ''*'', ''b''], pat_Raw = ''env:SRC:a/*/b''\<rparr>"
proof -
  let ?p = "\<lparr>pat_Anchor = AnchorEnv, pat_Arg = ''SRC'', pat_Segments = [''a'', ''*'', ''b''], pat_Raw = ''env:SRC:a/*/b''\<rparr>"
  have wf: "wf_pattern ?p"
    by (simp add: wf_pattern_def wf_segment_def plain_elem_def letter_def digit_def)
  have "ParsePattern (write_entry (pat_Anchor ?p) (pat_Arg ?p) (pat_Segments ?p)) =
        Inr (?p\<lparr>pat_Raw := write_entry (pat_Anchor ?p) (pat_Arg ?p) (pat_Segments ?p)\<rparr>)"
    using ParsePattern_roundtrip [of ?p "''x''" ?p] wf by blast
  with wf show ?thesis by (simp add: write_entry_def)
qed

end
