(* ===== verification/FolioEval.thy ===== *)
theory FolioEval
  imports Folio Trust
begin

text \<open>
  The evaluation of a compiled folio policy (\<open>src/internal/bravo/folioeval/eval.go\<close>): compiling the
  trusted stanza, matching an entry against an absolute path, and the rule that the most specific
  matching entry decides, deny on a tie. The lemmas characterise the verdict, show that denies only
  narrow, and that a match never leaves its anchor's root.
\<close>

section \<open>Verdicts, operations and policies\<close>

abbreviation VerdictAllow :: string where "VerdictAllow \<equiv> ''allow''"
abbreviation VerdictAsk :: string where "VerdictAsk \<equiv> ''ask''"
abbreviation VerdictDeny :: string where "VerdictDeny \<equiv> ''deny''"
abbreviation OpRead :: string where "OpRead \<equiv> ''read''"
abbreviation OpWrite :: string where "OpWrite \<equiv> ''write''"
abbreviation OpExec :: string where "OpExec \<equiv> ''exec''"

record Policy =
  po_Read :: "Pattern list"
  po_Write :: "Pattern list"
  po_Deny :: "Pattern list"
  po_Unmatched :: string

datatype compile_error =
    NotConfigured | BadEntry string pattern_error | NoUnmatched | BadUnmatched string

fun parse_entries :: "string \<Rightarrow> string list \<Rightarrow> Pattern list \<Rightarrow> compile_error + Pattern list" where
  "parse_entries nm [] dst = Inr dst"
| "parse_entries nm (e # es) dst =
     (case ParsePattern e of
        Inl err \<Rightarrow> Inl (BadEntry nm err)
      | Inr pat \<Rightarrow> parse_entries nm es (dst @ [pat]))"

definition Compile :: "FolioPolicy \<Rightarrow> compile_error + Policy" where
  "Compile p =
     (if \<not> fp_Configured p then Inl NotConfigured
      else case parse_entries ''read'' (slice_elems (fp_Read p)) [] of
        Inl e \<Rightarrow> Inl e
      | Inr rs \<Rightarrow>
      (case parse_entries ''write'' (slice_elems (fp_Write p)) [] of
        Inl e \<Rightarrow> Inl e
      | Inr ws \<Rightarrow>
      (case parse_entries ''deny'' (slice_elems (fp_Deny p)) [] of
        Inl e \<Rightarrow> Inl e
      | Inr ds \<Rightarrow>
          if fp_Unmatched p = VerdictAsk \<or> fp_Unmatched p = VerdictDeny then
            Inr \<lparr>po_Read = rs, po_Write = ws, po_Deny = ds, po_Unmatched = fp_Unmatched p\<rparr>
          else if fp_Unmatched p = [] then Inl NoUnmatched
          else Inl (BadUnmatched (fp_Unmatched p)))))"

record Roots =
  r_Pwd :: string
  r_Home :: string
  r_NixStore :: string
  r_Env :: "(string \<Rightarrow> string) option"
  r_Worktree :: string
  r_Repo :: string
  r_Worktrees :: string
  r_Children :: "string list"
  r_SiblingsParent :: string
  r_SiblingsExclude :: string

section \<open>Specificity\<close>

datatype Specificity = Specificity (Literals: nat) (Wildcards: nat)

text \<open>The order the source's tuple comparison describes.\<close>

instantiation Specificity :: linorder
begin

definition less_eq_Specificity :: "Specificity \<Rightarrow> Specificity \<Rightarrow> bool" where
  "less_eq_Specificity s t \<longleftrightarrow>
     Literals s < Literals t \<or> Literals s = Literals t \<and> Wildcards s \<le> Wildcards t"

definition less_Specificity :: "Specificity \<Rightarrow> Specificity \<Rightarrow> bool" where
  "less_Specificity s t \<longleftrightarrow>
     Literals s < Literals t \<or> Literals s = Literals t \<and> Wildcards s < Wildcards t"

instance
  by standard
     (auto simp: less_eq_Specificity_def less_Specificity_def intro: Specificity.expand)

end

definition Beats :: "Specificity \<Rightarrow> Specificity \<Rightarrow> bool" where
  "Beats s t =
     (if Literals s \<noteq> Literals t then Literals s > Literals t else Wildcards s > Wildcards t)"

lemma Beats_iff: "Beats s t \<longleftrightarrow> t < s"
  by (auto simp: Beats_def less_Specificity_def)

fun count_segments :: "string list \<Rightarrow> Specificity \<Rightarrow> Specificity" where
  "count_segments [] s = s"
| "count_segments (seg # segs) s =
     count_segments segs
       (if seg = ''*'' then Specificity (Literals s) (Wildcards s + 1)
        else Specificity (Literals s + 1) (Wildcards s))"

definition SpecificityOf :: "Pattern \<Rightarrow> Specificity" where
  "SpecificityOf p = count_segments (pat_Segments p) (Specificity 0 0)"

section \<open>Matching\<close>

definition matchUnder :: "string \<Rightarrow> string list \<Rightarrow> string \<Rightarrow> bool" where
  "matchUnder root segs path =
     (if root = [] \<or> \<not> IsAbs root then False
      else
        let root = Clean root in
        if path \<noteq> root \<and> \<not> HasPrefix path (root @ ''/'') then False
        else
          let rel = TrimPrefix (TrimPrefix path root) ''/'';
              relSegs = (if rel \<noteq> [] then split1 slash rel else [])
          in if length relSegs < length segs then False
             else list_all (\<lambda>(s, x). s = ''*'' \<or> x = s) (zip segs relSegs))"

text \<open>The roots an anchor expands to, and the segments to match under them; \<open>None\<close> is the early
  \<open>return false\<close>.\<close>

definition anchor_roots :: "Roots \<Rightarrow> Pattern \<Rightarrow> (string list \<times> string list) option" where
  "anchor_roots r pat =
     (let segs = pat_Segments pat in
      case pat_Anchor pat of
        AnchorMadder \<Rightarrow> None
      | AnchorPwd \<Rightarrow> Some ([r_Pwd r], segs)
      | AnchorHome \<Rightarrow> Some ([r_Home r], segs)
      | AnchorNixStore \<Rightarrow> Some ([r_NixStore r], segs)
      | AnchorEnv \<Rightarrow> Some (case r_Env r of None \<Rightarrow> [] | Some env \<Rightarrow> [env (pat_Arg pat)], segs)
      | AnchorSpinclass \<Rightarrow>
          (if pat_Arg pat = ''worktree'' then Some ([r_Worktree r], segs)
           else if pat_Arg pat = ''repo'' then Some ([r_Repo r], segs)
           else if pat_Arg pat = ''worktrees'' then Some ([r_Worktrees r], segs)
           else if pat_Arg pat = ''children'' then Some (r_Children r, segs)
           else if pat_Arg pat = ''siblings'' then
             (if r_SiblingsParent r = [] then None else Some ([r_SiblingsParent r], ''*'' # segs))
           else Some ([], segs)))"

definition excluded_sibling :: "Roots \<Rightarrow> Pattern \<Rightarrow> string \<Rightarrow> string \<Rightarrow> bool" where
  "excluded_sibling r pat root path \<longleftrightarrow>
     pat_Anchor pat = AnchorSpinclass \<and> pat_Arg pat = ''siblings'' \<and> r_SiblingsExclude r \<noteq> [] \<and>
     (let rel = (case Rel root path of None \<Rightarrow> [] | Some p \<Rightarrow> p); first = hd (split1 slash rel)
      in JoinPath [root, first] = r_SiblingsExclude r)"

definition matchPattern :: "Roots \<Rightarrow> Pattern \<Rightarrow> string \<Rightarrow> bool" where
  "matchPattern r pat path =
     (case anchor_roots r pat of
        None \<Rightarrow> False
      | Some (roots, segs) \<Rightarrow>
          list_ex (\<lambda>root. matchUnder root segs path \<and> \<not> excluded_sibling r pat root path) roots)"

section \<open>Deciding\<close>

fun best_from :: "(Pattern \<Rightarrow> bool) \<Rightarrow> Pattern list \<Rightarrow> (Pattern \<times> Specificity) option \<Rightarrow> (Pattern \<times> Specificity) option" where
  "best_from matches [] cur = cur"
| "best_from matches (pat # ps) cur =
     (if \<not> matches pat then best_from matches ps cur
      else let spec = SpecificityOf pat in
           if (case cur of None \<Rightarrow> True | Some (_, t) \<Rightarrow> Beats spec t)
           then best_from matches ps (Some (pat, spec))
           else best_from matches ps cur)"

definition best :: "Pattern list \<Rightarrow> (Pattern \<Rightarrow> bool) \<Rightarrow> (Pattern \<times> Specificity) option" where
  "best ps matches = best_from matches ps None"

definition allows_for :: "Policy \<Rightarrow> string \<Rightarrow> Pattern list" where
  "allows_for p op = (if op = OpRead then po_Read p else if op = OpWrite then po_Write p else [])"

definition decide :: "Policy \<Rightarrow> string \<Rightarrow> (Pattern \<Rightarrow> bool) \<Rightarrow> string \<times> string" where
  "decide p op matches =
     (let bestAllow = best (allows_for p op) matches; bestDeny = best (po_Deny p) matches in
      case (bestAllow, bestDeny) of
        (None, None) \<Rightarrow> (po_Unmatched p, ''unmatched'')
      | (Some (a, _), None) \<Rightarrow> (VerdictAllow, op @ '' '' @ Pattern_String a)
      | (None, Some (d, _)) \<Rightarrow> (VerdictDeny, ''deny '' @ Pattern_String d)
      | (Some (a, sa), Some (d, sd)) \<Rightarrow>
          if \<not> Beats sa sd then (VerdictDeny, ''deny '' @ Pattern_String d)
          else (VerdictAllow, op @ '' '' @ Pattern_String a))"

definition Evaluate :: "Policy \<Rightarrow> Roots \<Rightarrow> string \<Rightarrow> string \<Rightarrow> string \<times> string" where
  "Evaluate p r op path =
     (if \<not> IsAbs path then (po_Unmatched p, ''unmatched: path is not absolute'')
      else decide p op (\<lambda>pat. matchPattern r pat path))"

definition blobPrefix :: string where
  "blobPrefix = ''madder://blobs/''"

definition EvaluateBlob :: "Policy \<Rightarrow> string \<Rightarrow> string \<Rightarrow> string \<times> string" where
  "EvaluateBlob p op uri =
     (case CutPrefix uri blobPrefix of
        Some digest \<Rightarrow>
          if digest = [] \<or> Contains digest ''/''
          then (po_Unmatched p, ''unmatched: resource is not a '' @ blobPrefix @ ''<digest> URI'')
          else decide p op (\<lambda>pat. pat_Anchor pat = AnchorMadder)
      | None \<Rightarrow> (po_Unmatched p, ''unmatched: resource is not a '' @ blobPrefix @ ''<digest> URI''))"

section \<open>The best match\<close>

lemma count_segments_spec:
  "count_segments segs s =
     Specificity (Literals s + length (filter (\<lambda>x. x \<noteq> ''*'') segs))
       (Wildcards s + length (filter (\<lambda>x. x = ''*'') segs))"
  by (induction segs arbitrary: s) auto

lemma best_from_spec:
  "best_from m ps cur = None \<longleftrightarrow> cur = None \<and> (\<forall>p \<in> set ps. \<not> m p)"
  "best_from m ps cur = Some (a, s) \<Longrightarrow>
     (cur = Some (a, s) \<or> a \<in> set ps \<and> m a \<and> s = SpecificityOf a) \<and>
     (\<forall>p \<in> set ps. m p \<longrightarrow> SpecificityOf p \<le> s) \<and> (\<forall>b t. cur = Some (b, t) \<longrightarrow> t \<le> s)"
proof (induction ps arbitrary: cur)
  case Nil
  { case 1 then show ?case by simp }
  { case 2 then show ?case by simp }
next
  case (Cons p ps)
  { case 1 then show ?case using Cons.IH(1)
      by (auto simp: Let_def simp del: not_None_eq not_Some_eq split_paired_Ex split_paired_All split: option.splits) }
  { case 2
    show ?case
    proof (cases "m p \<and> (case cur of None \<Rightarrow> True | Some (_, t) \<Rightarrow> Beats (SpecificityOf p) t)")
      case True
      with 2 Cons.IH(2)[of "Some (p, SpecificityOf p)"] show ?thesis
        by (auto simp: Let_def Beats_iff split: option.splits)
    next
      case False
      with 2 have "best_from m ps cur = Some (a, s)" by (auto simp: Let_def split: if_splits)
      with Cons.IH(2)[of cur] False show ?thesis
        by (fastforce simp: Beats_iff not_less split: option.splits)
    qed }
qed

lemma best_None: "best ps m = None \<longleftrightarrow> (\<forall>p \<in> set ps. \<not> m p)"
  by (simp add: best_def best_from_spec(1))

lemma best_Some:
  "best ps m = Some (a, s) \<Longrightarrow>
     a \<in> set ps \<and> m a \<and> s = SpecificityOf a \<and> (\<forall>p \<in> set ps. m p \<longrightarrow> SpecificityOf p \<le> SpecificityOf a)"
  unfolding best_def by (drule best_from_spec(2)) auto

text \<open>The verdict, entry by entry.\<close>

lemma decide_deny_or_allow:
  "fst (decide p op m) =
     (if (\<exists>a \<in> set (allows_for p op). m a \<and> (\<forall>d \<in> set (po_Deny p). m d \<longrightarrow> SpecificityOf d < SpecificityOf a))
      then VerdictAllow
      else if (\<exists>d \<in> set (po_Deny p). m d) then VerdictDeny
      else po_Unmatched p)"
proof (cases "best (allows_for p op) m"; cases "best (po_Deny p) m")
  assume a: "best (allows_for p op) m = None" and d: "best (po_Deny p) m = None"
  then show ?thesis using best_None[of "allows_for p op" m] best_None[of "po_Deny p" m]
    by (auto simp: decide_def)
next
  fix x assume a: "best (allows_for p op) m = Some x" and d: "best (po_Deny p) m = None"
  then show ?thesis using best_Some[of "allows_for p op" m "fst x" "snd x"] best_None[of "po_Deny p" m]
    by (auto simp: decide_def split: prod.splits)
next
  fix y assume a: "best (allows_for p op) m = None" and d: "best (po_Deny p) m = Some y"
  then show ?thesis using best_Some[of "po_Deny p" m "fst y" "snd y"] best_None[of "allows_for p op" m]
    by (auto simp: decide_def split: prod.splits)
next
  fix x y assume a: "best (allows_for p op) m = Some x" and d: "best (po_Deny p) m = Some y"
  have A: "fst x \<in> set (allows_for p op)" "m (fst x)" "snd x = SpecificityOf (fst x)"
      "\<forall>b \<in> set (allows_for p op). m b \<longrightarrow> SpecificityOf b \<le> SpecificityOf (fst x)"
    using best_Some[of "allows_for p op" m "fst x" "snd x"] a by auto
  have E: "fst y \<in> set (po_Deny p)" "m (fst y)" "snd y = SpecificityOf (fst y)"
      "\<forall>b \<in> set (po_Deny p). m b \<longrightarrow> SpecificityOf b \<le> SpecificityOf (fst y)"
    using best_Some[of "po_Deny p" m "fst y" "snd y"] d by auto
  have "SpecificityOf (fst y) < SpecificityOf (fst x) \<longleftrightarrow>
      (\<exists>b \<in> set (allows_for p op). m b \<and> (\<forall>e \<in> set (po_Deny p). m e \<longrightarrow> SpecificityOf e < SpecificityOf b))"
    using A E by (meson le_less_trans less_le_trans)
  with E(1,2) A(3) E(3) a d show ?thesis
    by (auto simp: decide_def Beats_iff split: prod.splits)
qed

section \<open>Containment\<close>

text \<open>The segments an entry asks for, against the elements of a path below the root.\<close>

definition segs_match :: "string list \<Rightarrow> string list \<Rightarrow> bool" where
  "segs_match segs us \<longleftrightarrow> length segs \<le> length us \<and> list_all (\<lambda>(s, x). s = ''*'' \<or> x = s) (zip segs us)"

lemma matchUnder_below:
  assumes rs: "\<forall>e \<in> set rs. plain_elem e" "rs \<noteq> []" and ps: "\<forall>e \<in> set ps. plain_elem e"
  shows "matchUnder (abs_path rs) segs (abs_path ps) \<longleftrightarrow> (\<exists>us. ps = rs @ us \<and> segs_match segs us)"
proof -
  have c: "Clean (abs_path rs) = abs_path rs" "abs_path rs \<noteq> []" "IsAbs (abs_path rs)"
    using rs by (simp_all add: abs_path_def[of rs] IsAbs_def Clean_abs_path[unfolded abs_path_def])
  consider (same) "ps = rs" | (below) us where "us \<noteq> []" "ps = rs @ us" | (out) "\<nexists>us. ps = rs @ us"
    by blast
  then show ?thesis
  proof cases
    case same
    then show ?thesis using c by (simp add: matchUnder_def Let_def segs_match_def TrimPrefix_def)
  next
    case below
    have us: "\<forall>e \<in> set us. plain_elem e" using ps below by auto
    have ne: "Join us ''/'' \<noteq> []"
      using below(1) us by (cases us rule: list.exhaust; auto simp: plain_elem_def Join_eq_Nil)
    have sp: "split1 slash (Join us ''/'') = us"
      using us below(1) by (intro split1_Join) (auto simp: plain_elem_def)
    have pre: "HasPrefix (abs_path ps) (abs_path rs @ ''/'')"
      using below HasPrefix_abs_path[OF rs(1) ps rs(2)] by blast
    have rel: "TrimPrefix (TrimPrefix (abs_path ps) (abs_path rs)) ''/'' = Join us ''/''"
      using rs(2) below TrimPrefix_append[of "''/''" "Join us ''/''"] by (simp add: abs_path_append)
    have "matchUnder (abs_path rs) segs (abs_path ps) \<longleftrightarrow> segs_match segs us"
      using c pre ne unfolding matchUnder_def Let_def c(1) rel sp
      by (auto simp: segs_match_def)
    then show ?thesis using below(2) by simp
  next
    case out
    then have "abs_path ps \<noteq> abs_path rs" "\<not> HasPrefix (abs_path ps) (abs_path rs @ ''/'')"
      using abs_path_inj[OF ps rs(1)] HasPrefix_abs_path[OF rs(1) ps rs(2)]
      by (metis append_Nil2, blast)
    with c out show ?thesis by (simp add: matchUnder_def Let_def)
  qed
qed

lemma matchUnder_Clean: "IsAbs root \<Longrightarrow> matchUnder (Clean root) segs path = matchUnder root segs path"
proof -
  assume a: "IsAbs root"
  have "root \<noteq> []" "Clean root \<noteq> []" using a IsAbs_Clean[OF a] by (auto simp: IsAbs_def)
  then show ?thesis using a IsAbs_Clean[OF a] Clean_idem_abs[OF a] by (simp only: matchUnder_def Let_def)
qed

lemma matchUnder_contained:
  assumes ps: "\<forall>e \<in> set ps. plain_elem e" and m: "matchUnder root segs (abs_path ps)"
  shows "IsAbs root \<and> (\<exists>us. ps = path_elems root @ us \<and> segs_match segs us)"
proof -
  have root: "IsAbs root" using m by (simp add: matchUnder_def split: if_splits)
  let ?rs = "path_elems root"
  have rs: "\<forall>e \<in> set ?rs. plain_elem e" using path_elems_plain[OF root] by blast
  have c: "Clean root = abs_path ?rs" by (rule Clean_abs[OF root])
  have m': "matchUnder (abs_path ?rs) segs (abs_path ps)"
    using m matchUnder_Clean[OF root] c by simp
  show ?thesis
  proof (cases "?rs = []")
    case False
    from matchUnder_below[OF rs False ps] m' root show ?thesis by blast
  next
    case True
    have "ps = []"
    proof (rule ccontr)
      assume ne: "ps \<noteq> []"
      then obtain a qs where q: "ps = a # qs" by (cases ps) auto
      then obtain c cs where "a = c # cs" "c \<noteq> slash" using ps by (cases a) (auto simp: plain_elem_def)
      then have "\<not> HasPrefix (abs_path ps) ''//''" "abs_path ps \<noteq> ''/''"
        using q by (cases qs; simp add: abs_path_def)+
      with m' True show False
        using Clean_abs_path[of "[]"] by (simp add: matchUnder_def Let_def abs_path_def split: if_splits)
    qed
    moreover have "segs = []"
      using m' True \<open>ps = []\<close> Clean_abs_path[of "[]"]
      by (cases segs) (auto simp: matchUnder_def Let_def abs_path_def TrimPrefix_def split: if_splits)
    ultimately show ?thesis using root True by (simp add: segs_match_def)
  qed
qed

lemma parse_entries_append:
  "parse_entries nm (xs @ ys) dst = Inr rs \<Longrightarrow> \<exists>ms zs. parse_entries nm xs dst = Inr ms \<and> rs = ms @ zs"
proof (induction xs arbitrary: dst)
  case Nil
  have "parse_entries nm ys dst = Inr rs \<Longrightarrow> \<exists>zs. rs = dst @ zs" for dst
    by (induction ys arbitrary: dst) (fastforce split: sum.splits)+
  with Nil show ?case by simp
next
  case (Cons x xs)
  then show ?case by (auto split: sum.splits)
qed

lemma Compile_Inr:
  "Compile f = Inr p \<longleftrightarrow> fp_Configured f \<and> (fp_Unmatched f = VerdictAsk \<or> fp_Unmatched f = VerdictDeny) \<and>
     po_Unmatched p = fp_Unmatched f \<and> parse_entries ''read'' (slice_elems (fp_Read f)) [] = Inr (po_Read p) \<and>
     parse_entries ''write'' (slice_elems (fp_Write f)) [] = Inr (po_Write p) \<and>
     parse_entries ''deny'' (slice_elems (fp_Deny f)) [] = Inr (po_Deny p)"
  by (cases p) (auto simp: Compile_def split: sum.splits if_splits)

section \<open>Properties of the evaluation\<close>

text \<open>
  The verdict of a compiled policy on an absolute path: allow exactly when some matching allow
  entry of the operation is strictly more specific than every matching deny entry; otherwise deny
  when a deny entry matches, and the policy's unmatched verdict, never allow, when none does.
\<close>

theorem Evaluate_spec:
  assumes "Compile f = Inr p" "IsAbs path"
  shows "let wins = (\<exists>a \<in> set (allows_for p op). matchPattern r a path \<and>
             (\<forall>d \<in> set (po_Deny p). matchPattern r d path \<longrightarrow> SpecificityOf d < SpecificityOf a));
           denied = (\<exists>d \<in> set (po_Deny p). matchPattern r d path)
       in (fst (Evaluate p r op path) = VerdictAllow) = wins \<and>
          fst (Evaluate p r op path) =
            (if wins then VerdictAllow else if denied then VerdictDeny else fp_Unmatched f)"
  using assms by (auto simp: Evaluate_def decide_deny_or_allow Compile_Inr Let_def)

definition sample_stanza :: FolioPolicy where
  "sample_stanza =
     \<lparr>fp_Read = Some [''pwd:'', ''home:*/notes''], fp_Write = Some [''pwd:out''], fp_Deny = Some [''pwd:.git''],
      fp_Unmatched = ''ask'', fp_Configured = True\<rparr>"

definition sample_roots :: Roots where
  "sample_roots =
     \<lparr>r_Pwd = ''/r/w'', r_Home = ''/h'', r_NixStore = ''/nix/store'', r_Env = None, r_Worktree = ''/r/w'',
      r_Repo = ''/p/r'', r_Worktrees = ''/p/r/.worktrees'', r_Children = [], r_SiblingsParent = ''/p'',
      r_SiblingsExclude = ''/p/r''\<rparr>"

lemma Evaluate_spec_witness:
  "\<exists>p. Compile sample_stanza = Inr p \<and>
     fst (Evaluate p sample_roots ''read'' ''/r/w/.git/config'') = VerdictDeny \<and>
     fst (Evaluate p sample_roots ''read'' ''/r/w/a'') = VerdictAllow"
proof -
  have "\<not> isl (Compile sample_stanza)" by code_simp
  then obtain p where p: "Compile sample_stanza = Inr p" by (cases "Compile sample_stanza") auto
  have "p = projr (Compile sample_stanza)" by (simp add: p)
  moreover have "fst (Evaluate (projr (Compile sample_stanza)) sample_roots ''read'' ''/r/w/.git/config'') = VerdictDeny"
    by code_simp
  moreover have "\<exists>a \<in> set (allows_for (projr (Compile sample_stanza)) ''read''). matchPattern sample_roots a ''/r/w/a'' \<and>
      (\<forall>d \<in> set (po_Deny (projr (Compile sample_stanza))). matchPattern sample_roots d ''/r/w/a'' \<longrightarrow> SpecificityOf d < SpecificityOf a)"
    by code_simp
  moreover have "IsAbs ''/r/w/a''" by code_simp
  ultimately show ?thesis
    using Evaluate_spec[OF p, of "''/r/w/a''" "''read''" sample_roots] p by (simp add: Let_def)
qed

text \<open>
  C7. A layer that is not trusted can only narrow what the policy allows: when the policy of the
  whole hierarchy compiles and allows an operation, the policy of the trusted layers alone compiles
  and allows it too.
\<close>

theorem untrusted_folio_only_narrows:
  assumes "Compile (fst (TrustedFolio W h home r)) = Inr p" "fst (Evaluate p roots op path) = VerdictAllow"
  shows "\<exists>t. Compile (fst (TrustedFolio W (h\<lparr>h_Sources := trusted_layers W h home r\<rparr>) home r)) = Inr t \<and>
    fst (Evaluate t roots op path) = VerdictAllow"
proof -
  let ?f = "fst (TrustedFolio W h home r)"
    and ?t = "fst (TrustedFolio W (h\<lparr>h_Sources := trusted_layers W h home r\<rparr>) home r)"
  have split: "fp_Read ?f = fp_Read ?t" "fp_Write ?f = fp_Write ?t" "fp_Unmatched ?f = fp_Unmatched ?t"
    "fp_Configured ?f = fp_Configured ?t"
    "slice_elems (fp_Deny ?f) = slice_elems (fp_Deny ?t) @ lower_denies (trusted_in W home r) (h_Sources h)"
    using TrustedFolio_split[of W h home r] by (simp_all add: Let_def)
  obtain ms zs where d: "parse_entries ''deny'' (slice_elems (fp_Deny ?t)) [] = Inr ms" "po_Deny p = ms @ zs"
    using assms(1) parse_entries_append unfolding Compile_Inr split(5) by metis
  have "Compile ?t = Inr (p\<lparr>po_Deny := ms\<rparr>)"
    using assms(1) d unfolding Compile_Inr split by simp
  moreover have "po_Unmatched p \<noteq> VerdictAllow" using assms(1) by (auto simp: Compile_Inr)
  then have "fst (Evaluate (p\<lparr>po_Deny := ms\<rparr>) roots op path) = VerdictAllow"
    using assms(2) d(2) by (auto simp: Evaluate_def decide_deny_or_allow allows_for_def split: if_splits)
  ultimately show ?thesis by blast
qed

definition sample_hierarchy :: Hierarchy where
  "sample_hierarchy =
     \<lparr>h_Sources =
        [layer_at ''/p/sweatfile'' (empty_Sweatfile\<lparr>sf_Folio :=
           Some \<lparr>fo_Read = Some [''pwd:''], fo_Write = None, fo_Deny = None, fo_Unmatched = Some ''ask''\<rparr>\<rparr>),
         layer_at ''/p/r/sweatfile'' (empty_Sweatfile\<lparr>sf_Folio :=
           Some \<lparr>fo_Read = Some [''home:''], fo_Write = None, fo_Deny = Some [''pwd:.git''], fo_Unmatched = None\<rparr>\<rparr>)],
      h_Merged = empty_Sweatfile\<rparr>"

lemma untrusted_folio_only_narrows_witness:
  "\<exists>t. Compile (fst (TrustedFolio \<lparr>w_EvalSymlinks = Some, w_Getwd = None\<rparr>
        (sample_hierarchy\<lparr>h_Sources := trusted_layers \<lparr>w_EvalSymlinks = Some, w_Getwd = None\<rparr> sample_hierarchy ''/h'' ''/p/r''\<rparr>)
        ''/h'' ''/p/r'')) = Inr t \<and>
     fst (Evaluate t sample_roots ''read'' ''/r/w/a'') = VerdictAllow"
proof (rule untrusted_folio_only_narrows)
  let ?c = "Compile (fst (TrustedFolio \<lparr>w_EvalSymlinks = Some, w_Getwd = None\<rparr> sample_hierarchy ''/h'' ''/p/r''))"
  have "\<not> isl ?c" by code_simp
  then show "?c = Inr (projr ?c)" by (rule sum.collapse(2)[symmetric])
  show "fst (Evaluate (projr ?c) sample_roots ''read'' ''/r/w/a'') = VerdictAllow" by code_simp
qed

text \<open>
  An entry that matches a cleaned absolute path is not a \<open>madder:\<close> entry, and the path lies at
  or below one of the roots its anchor expands to, element by element, with the entry's segments
  matching the elements below that root.
\<close>

theorem matchPattern_contained:
  assumes "\<forall>e \<in> set ps. plain_elem e" "matchPattern r pat (abs_path ps)"
  shows "pat_Anchor pat \<noteq> AnchorMadder \<and>
    (\<exists>roots segs root us. anchor_roots r pat = Some (roots, segs) \<and> root \<in> set roots \<and> IsAbs root \<and>
       ps = path_elems root @ us \<and> segs_match segs us)"
proof -
  from assms(2) obtain roots segs root where a: "anchor_roots r pat = Some (roots, segs)" "root \<in> set roots"
      "matchUnder root segs (abs_path ps)"
    by (auto simp: matchPattern_def list_ex_iff split: option.splits)
  moreover have "pat_Anchor pat \<noteq> AnchorMadder" using a(1) by (auto simp: anchor_roots_def Let_def)
  ultimately show ?thesis using matchUnder_contained[OF assms(1)] by blast
qed

lemma matchPattern_contained_witness:
  "\<exists>roots segs root us.
     anchor_roots sample_roots \<lparr>pat_Anchor = AnchorHome, pat_Arg = [], pat_Segments = [''*'', ''notes''], pat_Raw = ''home:*/notes''\<rparr> =
       Some (roots, segs) \<and> root \<in> set roots \<and> IsAbs root \<and>
     [''h'', ''a'', ''notes'', ''x''] = path_elems root @ us \<and> segs_match segs us"
  by (rule conjunct2[OF matchPattern_contained]) (code_simp, code_simp)

text \<open>
  A \<open>spinclass:siblings\<close> entry never matches a path at or below the main checkout it excludes.
\<close>

theorem siblings_exclude_main_checkout:
  assumes "\<forall>e \<in> set (es @ [e] @ us). plain_elem e"
    and "r_SiblingsParent r = Dir (abs_path (es @ [e]))" "r_SiblingsExclude r = abs_path (es @ [e])"
    and "pat_Anchor pat = AnchorSpinclass" "pat_Arg pat = ''siblings''"
  shows "\<not> matchPattern r pat (abs_path (es @ [e] @ us))"
proof -
  have es: "\<forall>x \<in> set es. plain_elem x" and e: "plain_elem e" and eu: "\<forall>x \<in> set (e # us). plain_elem x"
    using assms(1) by auto
  let ?root = "abs_path es"
  have root: "r_SiblingsParent r = ?root" using assms(2) Dir_abs_path[OF es e] by simp
  have "Rel ?root (abs_path (es @ [e] @ us)) = Some (Join (e # us) ''/'')"
    using path_elems_abs[OF es] path_elems_abs[OF assms(1)] by (intro Rel_below) auto
  moreover have "split1 slash (Join (e # us) ''/'') = e # us"
    using eu by (intro split1_Join) (auto simp: plain_elem_def)
  moreover have "JoinPath [?root, e] = abs_path (es @ [e])" by (rule JoinPath_abs_path[OF es e])
  ultimately have "excluded_sibling r pat ?root (abs_path (es @ [e] @ us))"
    using assms(3-5) by (simp add: excluded_sibling_def abs_path_def)
  then show ?thesis
    using assms(4,5) root by (simp add: matchPattern_def anchor_roots_def Let_def)
qed

lemma siblings_exclude_main_checkout_witness:
  "\<not> matchPattern sample_roots
     \<lparr>pat_Anchor = AnchorSpinclass, pat_Arg = ''siblings'', pat_Segments = [], pat_Raw = ''spinclass:siblings''\<rparr>
     (abs_path ([''p''] @ [''r''] @ [''src'']))"
  by (rule siblings_exclude_main_checkout) code_simp+

text \<open>
  An anchor whose root is \<open>/\<close> matches nothing below it: the directory-boundary test looks for a
  path that starts with two slashes. A deny entry under such a root denies nothing.
\<close>

lemma slash_root_matches_nothing_below:
  assumes "\<forall>e \<in> set ps. plain_elem e" "ps \<noteq> []"
  shows "\<not> matchUnder ''/'' segs (abs_path ps)"
proof
  assume "matchUnder ''/'' segs (abs_path ps)"
  then have "abs_path ps = ''/'' \<or> HasPrefix (abs_path ps) ''//''"
    using Clean_abs_path[of "[]"] by (simp add: matchUnder_def abs_path_def Let_def split: if_splits)
  moreover from assms obtain a qs where q: "ps = a # qs" by (cases ps) auto
  moreover from this obtain c cs where "a = c # cs" "c \<noteq> slash"
    using assms by (cases a) (auto simp: plain_elem_def)
  ultimately show False by (cases qs) (simp_all add: abs_path_def)
qed

end
