(* ===== verification/SessionState.thy ===== *)
theory SessionState
  imports Sweatfile GoPath "HOL-Library.Multiset" "HOL-Library.Product_Lexorder"
begin

text \<open>
  The session record (\<open>src/internal/alfa/session/session.go\<close>): \<open>State\<close> with the tables it nests,
  its keys, and how its recorded state resolves against the process table and the disk.
  A \<open>time.Time\<close> is its instant in nanoseconds; \<open>HandleRights\<close> is a map, nil and empty read alike.
\<close>

type_synonym Time = int

section \<open>The record\<close>

record FrozenHook =
  fh_Command :: "string"
  fh_Bin :: "string"
  fh_BaseSha :: "string"
  fh_BaseLabel :: "string"
  fh_Frozen :: "bool"
  fh_Reason :: "string"
  fh_At :: "Time"

record CredentialRemote =
  cr_OriginURL :: "string"
  cr_ForgeHost :: "string"
  cr_ForgeRepo :: "string"
  cr_CredentialHost :: "string"
  cr_HTTPS :: "string"
  cr_From :: "string list"
  cr_Resolved :: "bool"

record Credential =
  cd_MintedAt :: "Time"
  cd_RevokedAt :: "Time ptr"
  cd_Remote :: "CredentialRemote ptr"
  cd_RevokeCommand :: "string ptr"

record PinnedEntry =
  pn_Start :: "string list"
  pn_Resume :: "string list"
  pn_Env :: "smap"
  pn_OnAttach :: "string ptr"
  pn_OnDetach :: "string ptr"

record ProfileNarrowingLink =
  nl_Grantee :: "string"
  nl_Profile :: "string"
  nl_ProfileDigest :: "string"
  nl_Base :: "string"
  nl_Prev :: "string"
  nl_Unsigned :: "bool"

record ProfileRebind =
  rb_From :: "string"
  rb_To :: "string"
  rb_Transition :: "string"
  rb_By :: "string"
  rb_At :: "Time"

record CloseRequest =
  cq_RequestedAt :: "Time"
  cq_Principal :: "string"

record RestartRequest =
  rq_RequestedAt :: "Time"
  rq_Requester :: "string"
  rq_Reason :: "string"
  rq_When :: "string"

record AttestedSkill =
  ak_Name :: "string"
  ak_Used :: "bool"
  ak_Reasoning :: "string"

record AttestationClaim =
  ac_ID :: "string"
  ac_PID :: "int"
  ac_ClaimedAt :: "Time"

record PreMergeAttestation =
  pa_RecordedAt :: "Time"
  pa_Skills :: "AttestedSkill list"
  pa_HeadSha :: "string"
  pa_Claim :: "AttestationClaim ptr"

record State =
  s_PID :: "int"
  s_SessionState :: "string"
  s_RepoPath :: "string"
  s_WorktreePath :: "string"
  s_Branch :: "string"
  s_SessionKey :: "string"
  s_Kind :: "string"
  s_Description :: "string"
  s_SpawnedBy :: "string"
  s_SpawnedByPrincipal :: "string"
  s_SpawnerReleased :: "bool"
  s_Principal :: "string"
  s_Holders :: "string list"
  s_PendingHandles :: "string list"
  s_HandleRights :: "string \<rightharpoonup> string"
  s_Profile :: "string"
  s_ProfileDigest :: "string"
  s_AuthorizingGrant :: "string"
  s_ProfileNarrowing :: "ProfileNarrowingLink ptr"
  s_ProfileRebinds :: "ProfileRebind list"
  s_HelloSentAt :: "Time ptr"
  s_Entrypoint :: "string list"
  s_Env :: "smap"
  s_StartedAt :: "Time"
  s_ExitedAt :: "Time ptr"
  s_Entry :: "PinnedEntry ptr"
  s_DeletedSHA :: "string"
  s_PreMergeAttestation :: "PreMergeAttestation ptr"
  s_SetupFingerprint :: "string"
  s_SetupScheme :: "int"
  s_SetupAt :: "Time ptr"
  s_FrozenHook :: "FrozenHook ptr"
  s_Credential :: "Credential ptr"
  s_CloseRequest :: "CloseRequest ptr"
  s_ClosingAt :: "Time ptr"
  s_RestartingAt :: "Time ptr"
  s_RestartingBy :: "string"
  s_RestartingReason :: "string"
  s_RestartingFirstAt :: "Time ptr"
  s_RestartRearms :: "int"
  s_RestartedAt :: "Time ptr"
  s_ForcedRestartAt :: "Time ptr"
  s_RestartRequest :: "RestartRequest ptr"
  s_isTombstone :: "bool"

text \<open>\<open>State{}\<close>.\<close>

definition empty_State :: State where
  "empty_State =
     \<lparr>s_PID = 0, s_SessionState = [], s_RepoPath = [], s_WorktreePath = [], s_Branch = [],
      s_SessionKey = [], s_Kind = [], s_Description = [], s_SpawnedBy = [],
      s_SpawnedByPrincipal = [], s_SpawnerReleased = False, s_Principal = [], s_Holders = [],
      s_PendingHandles = [], s_HandleRights = Map.empty, s_Profile = [],
      s_ProfileDigest = [], s_AuthorizingGrant = [], s_ProfileNarrowing = None,
      s_ProfileRebinds = [], s_HelloSentAt = None, s_Entrypoint = [], s_Env = [],
      s_StartedAt = 0, s_ExitedAt = None, s_Entry = None, s_DeletedSHA = [],
      s_PreMergeAttestation = None, s_SetupFingerprint = [], s_SetupScheme = 0,
      s_SetupAt = None, s_FrozenHook = None, s_Credential = None, s_CloseRequest = None,
      s_ClosingAt = None, s_RestartingAt = None, s_RestartingBy = [],
      s_RestartingReason = [], s_RestartingFirstAt = None, s_RestartRearms = 0,
      s_RestartedAt = None, s_ForcedRestartAt = None, s_RestartRequest = None,
      s_isTombstone = False\<rparr>"

section \<open>Names and places\<close>

text \<open>\<open>Key\<close>: the recorded session key, or the one computed for a record that predates it.\<close>

definition Key :: "State \<Rightarrow> string" where
  "Key s = (if s_SessionKey s \<noteq> [] then s_SessionKey s else Base (s_RepoPath s) @ ''/'' @ s_Branch s)"

definition BranchOrKey :: "State \<Rightarrow> string" where
  "BranchOrKey s = (if s_Branch s \<noteq> [] then s_Branch s else Key s)"

definition worktreeStatePath :: "string \<Rightarrow> string" where
  "worktreeStatePath wt = JoinPath [wt, ''.spinclass'', ''state.json'']"

definition worktreeFromRepoBranch :: "string \<Rightarrow> string \<Rightarrow> string" where
  "worktreeFromRepoBranch repoPath branch = JoinPath [repoPath, ''.worktrees'', branch]"

definition danglingStateFromTarget :: "string \<Rightarrow> State" where
  "danglingStateFromTarget target =
     (let worktree = Dir (Dir target); branch = Base worktree;
          s = empty_State\<lparr>s_WorktreePath := worktree, s_Branch := branch, s_SessionState := ''abandoned''\<rparr>;
          parent = Dir (Dir worktree)
      in if Base (Dir worktree) = ''.worktrees''
         then s\<lparr>s_RepoPath := parent, s_SessionKey := Base parent @ ''/'' @ branch\<rparr>
         else s)"

section \<open>Resolving the recorded state\<close>

abbreviation StateActive :: string where "StateActive \<equiv> ''active''"
abbreviation StateInactive :: string where "StateInactive \<equiv> ''inactive''"
abbreviation StateAbandoned :: string where "StateAbandoned \<equiv> ''abandoned''"
abbreviation StateRunningDetached :: string where "StateRunningDetached \<equiv> ''running-detached''"
abbreviation StateWorktreeGone :: string where "StateWorktreeGone \<equiv> ''worktree-gone''"
abbreviation KindImplicit :: string where "KindImplicit \<equiv> ''implicit''"

text \<open>What the code asks the machine: \<open>os.Stat\<close> and \<open>os.Lstat\<close>, whether a signal 0 reaches a
  process, and whether a worktree's confined unit runs (\<open>None\<close> when no session is confined).\<close>

datatype stat_result = Present | Missing | StatError

record Machine =
  m_Stat :: "string \<Rightarrow> stat_result"
  m_Lstat :: "string \<Rightarrow> stat_result"
  m_Kill0 :: "int \<Rightarrow> bool"
  m_ConfinedUnitRunning :: "(string \<Rightarrow> bool) option"

definition IsAlive :: "Machine \<Rightarrow> int \<Rightarrow> bool" where
  "IsAlive m pid = (if pid \<le> 0 then False else m_Kill0 m pid)"

definition confinedUnitRunning :: "Machine \<Rightarrow> string \<Rightarrow> bool" where
  "confinedUnitRunning m wt = (case m_ConfinedUnitRunning m of None \<Rightarrow> False | Some f \<Rightarrow> f wt)"

definition ResolveState :: "Machine \<Rightarrow> State \<Rightarrow> string" where
  "ResolveState m s =
     (if s_isTombstone s then StateAbandoned
      else if m_Stat m (s_WorktreePath s) = Missing then StateAbandoned
      else if s_SessionState s = StateActive \<and> \<not> IsAlive m (s_PID s) \<and>
              \<not> confinedUnitRunning m (s_WorktreePath s) then StateInactive
      else s_SessionState s)"

definition worktreeVanished :: "Machine \<Rightarrow> string \<Rightarrow> bool" where
  "worktreeVanished m dir =
     (if dir = [] then False
      else if m_Stat m dir \<noteq> Present then False
      else m_Lstat m (JoinPath [dir, ''.git'']) = Missing)"

definition ResolveDisplayState :: "Machine \<Rightarrow> State \<Rightarrow> int \<Rightarrow> string" where
  "ResolveDisplayState m s liveClowns =
     (let base = ResolveState m s in
      if base \<noteq> StateAbandoned \<and> s_Kind s \<noteq> KindImplicit \<and> worktreeVanished m (s_WorktreePath s)
      then StateWorktreeGone
      else if base = StateInactive \<and> liveClowns > 0 then StateRunningDetached
      else base)"

definition RestartInFlightWindow :: Duration where
  "RestartInFlightWindow = 2 * Minute"

definition RestartInFlight :: "State \<Rightarrow> Time \<Rightarrow> bool" where
  "RestartInFlight s now =
     (case s_RestartingAt s of None \<Rightarrow> False | Some t \<Rightarrow> now - t < RestartInFlightWindow)"

section \<open>Listing and finding\<close>

definition sort_tier :: "Machine \<Rightarrow> State \<Rightarrow> nat" where
  "sort_tier m s =
     (if ResolveState m s = StateActive then 0
      else if ResolveState m s = StateRunningDetached then 1 else 2)"

text \<open>The comparison handed to the stable sort, and that sort as an insertion sort over it.\<close>

definition state_less :: "Machine \<Rightarrow> State \<Rightarrow> State \<Rightarrow> bool" where
  "state_less m a b =
     (let ti = sort_tier m a; tj = sort_tier m b
      in if ti \<noteq> tj then ti < tj else s_Branch a < s_Branch b)"

fun insert_stable :: "('a \<Rightarrow> 'a \<Rightarrow> bool) \<Rightarrow> 'a \<Rightarrow> 'a list \<Rightarrow> 'a list" where
  "insert_stable lt x [] = [x]"
| "insert_stable lt x (y # ys) = (if lt y x then y # insert_stable lt x ys else x # y # ys)"

definition SortStates :: "Machine \<Rightarrow> State list \<Rightarrow> State list" where
  "SortStates m states = foldr (insert_stable (state_less m)) states []"

datatype find_result = TargetNotFound string | Found State | Ambiguous string "string list"

text \<open>\<open>FindByTarget\<close> over the sessions \<open>ListAll\<close> returned.\<close>

definition FindByTarget :: "State list \<Rightarrow> string \<Rightarrow> find_result" where
  "FindByTarget states target =
     (case filter (\<lambda>s. Key s = target \<or> HasSuffix (s_WorktreePath s) (''/.worktrees/'' @ target)) states of
        [] \<Rightarrow> TargetNotFound target
      | [s] \<Rightarrow> Found s
      | ms \<Rightarrow> Ambiguous target (map Key ms))"

definition pathInsideResolved :: "string \<Rightarrow> string \<Rightarrow> bool" where
  "pathInsideResolved path root =
     (case Rel root path of
        None \<Rightarrow> False
      | Some rel \<Rightarrow> rel = ''.'' \<or> \<not> HasPrefix rel ''..'')"

section \<open>Properties\<close>

text \<open>
  A dangling index entry's target gives back the session it was written for: for a worktree at
  \<open><repo>/.worktrees/<branch>\<close>, the recovered state has that repository, branch and worktree, and
  the session key that \<open>sc list\<close> would print for it.
\<close>

theorem dangling_state_roundtrip:
  assumes "\<forall>e \<in> set repo. plain_elem e" "plain_elem branch"
  shows "let wt = worktreeFromRepoBranch (abs_path repo) branch;
             s = danglingStateFromTarget (worktreeStatePath wt)
         in s_RepoPath s = abs_path repo \<and> s_Branch s = branch \<and> s_WorktreePath s = wt \<and>
            Key s = Base (abs_path repo) @ ''/'' @ branch \<and> s_SessionState s = StateAbandoned"
proof -
  let ?wt = "abs_path (repo @ [''.worktrees'', branch])"
  have pl: "plain_elem ''.worktrees''" "plain_elem ''.spinclass''" "plain_elem ''state.json''"
    by (simp_all add: plain_elem_def)
  have wt: "worktreeFromRepoBranch (abs_path repo) branch = ?wt"
    unfolding worktreeFromRepoBranch_def using assms pl by (intro JoinPath_abs_paths) auto
  have st: "worktreeStatePath ?wt = abs_path ((repo @ [''.worktrees'', branch]) @ [''.spinclass'', ''state.json''])"
    unfolding worktreeStatePath_def using assms pl by (intro JoinPath_abs_paths) auto
  have up: "Dir (abs_path (es @ [e])) = abs_path es"
    if "\<forall>x \<in> set (es @ [e]). plain_elem x" for es e
    using Dir_abs_path[of es e] that by simp
  have "Dir (worktreeStatePath ?wt) = abs_path (repo @ [''.worktrees'', branch, ''.spinclass''])"
    unfolding st using up[of "repo @ [''.worktrees'', branch, ''.spinclass'']" "''state.json''"] assms pl by auto
  then have d: "Dir (Dir (worktreeStatePath ?wt)) = ?wt"
    using up[of "repo @ [''.worktrees'', branch]" "''.spinclass''"] assms pl by auto
  have u: "Dir ?wt = abs_path (repo @ [''.worktrees''])"
    using up[of "repo @ [''.worktrees'']" branch] assms pl by auto
  have uu: "Dir (abs_path (repo @ [''.worktrees''])) = abs_path repo"
    using up[of repo "''.worktrees''"] assms pl by auto
  have b: "Base ?wt = branch" using Base_abs_path[OF assms(2), of "repo @ [''.worktrees'']"] by simp
  have bw: "Base (abs_path (repo @ [''.worktrees''])) = ''.worktrees''" by (rule Base_abs_path[OF pl(1)])
  show ?thesis
    unfolding wt danglingStateFromTarget_def Let_def d u uu b bw by (simp add: Key_def)
qed

lemma dangling_state_roundtrip_witness:
  "s_RepoPath (danglingStateFromTarget (worktreeStatePath (worktreeFromRepoBranch (abs_path [''r'']) ''b''))) = abs_path [''r'']"
  using dangling_state_roundtrip[of "[''r'']" "''b''"] by (simp add: Let_def plain_elem_def)

text \<open>The key the comparison orders by.\<close>

definition state_key :: "Machine \<Rightarrow> State \<Rightarrow> nat \<times> string" where
  "state_key m s = (sort_tier m s, s_Branch s)"

lemma insert_stable_insort: "insert_stable (state_less m) x ys = insort_key (state_key m) x ys"
  by (induction ys) (auto simp: state_less_def state_key_def Let_def less_prod_def less_eq_prod_def not_le)

lemma SortStates_sort_key: "SortStates m states = sort_key (state_key m) states"
  by (simp add: SortStates_def sort_key_def insert_stable_insort fun_eq_iff cong: foldr_cong)

text \<open>
  Sorting keeps exactly the sessions it was given, puts active before running-detached before
  the rest and orders each tier by branch, and keeps the given order among sessions that compare
  equal.
\<close>

theorem SortStates_spec:
  "mset (SortStates m states) = mset states \<and>
   sorted (map (state_key m) (SortStates m states)) \<and>
   filter (\<lambda>s. state_key m s = k) (SortStates m states) = filter (\<lambda>s. state_key m s = k) states"
  unfolding SortStates_sort_key by (simp add: sort_key_stable)

text \<open>
  A target resolves to a session exactly when that session is the only one with that key or
  that worktree name; several matches are reported with all their keys and none is picked.
\<close>

theorem FindByTarget_spec:
  "let hits = filter (\<lambda>s. Key s = target \<or> HasSuffix (s_WorktreePath s) (''/.worktrees/'' @ target)) states
   in (FindByTarget states target = Found s) = (hits = [s]) \<and>
      (FindByTarget states target = Ambiguous target ks) = (2 \<le> length hits \<and> ks = map Key hits)"
  by (auto simp: FindByTarget_def Let_def split: list.splits)

text \<open>
  A tombstone and a session whose worktree is gone are abandoned whatever their record, their
  process and their clowns say: no display state rescues them.
\<close>

theorem abandoned_never_rescued:
  assumes "s_isTombstone s \<or> m_Stat m (s_WorktreePath s) = Missing"
  shows "ResolveState m s = StateAbandoned \<and> ResolveDisplayState m s liveClowns = StateAbandoned"
  using assms by (auto simp: ResolveState_def ResolveDisplayState_def Let_def)

lemma abandoned_never_rescued_witness:
  "ResolveDisplayState \<lparr>m_Stat = (\<lambda>_. Missing), m_Lstat = (\<lambda>_. Missing), m_Kill0 = (\<lambda>_. True), m_ConfinedUnitRunning = None\<rparr>
     (empty_State\<lparr>s_SessionState := StateActive, s_PID := 7\<rparr>) 3 = StateAbandoned"
  by (rule conjunct2[OF abandoned_never_rescued]) simp

text \<open>\<open>pathInsideResolved\<close> compares the relative path with the bare prefix \<open>..\<close>, so a path whose
  first element below the root merely starts with two dots is reported outside.\<close>

lemma pathInsideResolved_dotdot_name:
  assumes "\<forall>e \<in> set root. plain_elem e" "plain_elem (''..'' @ n)"
  shows "at_or_below (abs_path root) (abs_path (root @ [''..'' @ n])) \<and>
    \<not> pathInsideResolved (abs_path (root @ [''..'' @ n])) (abs_path root)"
proof -
  have pl: "\<forall>e \<in> set (root @ [''..'' @ n]). plain_elem e" using assms by auto
  have "Rel (abs_path root) (abs_path (root @ [''..'' @ n])) = Some (Join [''..'' @ n] ''/'')"
    using path_elems_abs[OF pl] path_elems_abs[OF assms(1)] by (intro Rel_below) simp_all
  then show ?thesis
    using path_elems_abs[OF pl] path_elems_abs[OF assms(1)] by (simp add: pathInsideResolved_def at_or_below_def)
qed

end
