(* ===== verification/SessionHandles.thy ===== *)
theory SessionHandles
  imports SessionState
begin

text \<open>
  Handles on a session (\<open>src/internal/alfa/session/session.go\<close>): the rights vocabulary and its
  written form, granting, accepting on first use and releasing a handle, and the rights a principal
  resolves to. The lemmas give the invariant every sequence of handle operations keeps, that
  authority needs a grant and an acceptance, and what a grant resolves to.
\<close>

section \<open>The rights vocabulary\<close>

definition DefaultHandleRights :: string where
  "DefaultHandleRights = ''observe,close''"

definition HandleRightNames :: "string list" where
  "HandleRightNames =
     [''observe'', ''close'', ''grant'', ''instruct'', ''cap'', ''merge'', ''check'', ''restart'']"

definition AllHandleRights :: string where
  "AllHandleRights = Join HandleRightNames '',''"

text \<open>A \<open>HandleRightSet\<close> maps names to true: the set of its names.\<close>

type_synonym HandleRightSet = "string set"

definition HandleRightSet_String :: "HandleRightSet \<Rightarrow> string" where
  "HandleRightSet_String r = Join (filter (\<lambda>n. n \<in> r) HandleRightNames) '',''"

definition HandleRightSet_Missing :: "HandleRightSet \<Rightarrow> HandleRightSet \<Rightarrow> string list" where
  "HandleRightSet_Missing r want = filter (\<lambda>n. n \<in> want \<and> n \<notin> r) HandleRightNames"

fun collect_rights :: "string list \<Rightarrow> HandleRightSet \<Rightarrow> string list \<Rightarrow> HandleRightSet \<times> string list" where
  "collect_rights [] acc unknown = (acc, unknown)"
| "collect_rights (raw # names) acc unknown =
     (let name = TrimSpace raw in
      if name = [] then collect_rights names acc unknown
      else if name \<notin> set HandleRightNames then collect_rights names acc (unknown @ [name])
      else collect_rights names (insert name acc) unknown)"

text \<open>The error carries the unknown names.\<close>

definition ParseHandleRights :: "string \<Rightarrow> string list + HandleRightSet" where
  "ParseHandleRights s =
     (case collect_rights (split1 CHR '','' s) {} [] of
        (rights, unknown) \<Rightarrow> if unknown \<noteq> [] then Inl unknown else Inr rights)"

section \<open>Holding\<close>

definition IsHolder :: "State \<Rightarrow> string \<Rightarrow> bool" where
  "IsHolder s who = (if who = [] then False else who \<in> set (s_Holders s))"

definition IsPendingHolder :: "State \<Rightarrow> string \<Rightarrow> bool" where
  "IsPendingHolder s who = (if who = [] then False else who \<in> set (s_PendingHandles s))"

definition Orphan :: "State \<Rightarrow> bool" where
  "Orphan s \<longleftrightarrow> s_SpawnedByPrincipal s \<noteq> [] \<and> length (s_Holders s) = 0"

definition EffectiveSpawner :: "State \<Rightarrow> string" where
  "EffectiveSpawner s = (if s_SpawnedByPrincipal s \<noteq> [] then s_SpawnedByPrincipal s else s_SpawnedBy s)"

definition OtherHolders :: "State \<Rightarrow> string \<Rightarrow> string list" where
  "OtherHolders s excluding =
     (if excluding = [] then s_Holders s else filter (\<lambda>h. h \<noteq> excluding) (s_Holders s))"

definition RestartWakeTargets :: "State \<Rightarrow> string \<Rightarrow> string \<Rightarrow> string list" where
  "RestartWakeTargets s requester own =
     (let targets = OtherHolders s own in
      if requester \<noteq> [] \<and> requester \<noteq> own \<and> requester \<notin> set targets then targets @ [requester]
      else targets)"

text \<open>
  \<open>RightsOf\<close> can panic: on a parse error the parser returns a nil map, the error is dropped, and
  the assignment \<open>rights["observe"] = true\<close> writes to it.
\<close>

datatype 'a go_result = Panic | Ret 'a

definition with_observe :: "string list + HandleRightSet \<Rightarrow> HandleRightSet option go_result" where
  "with_observe parsed =
     (case parsed of Inl _ \<Rightarrow> Panic | Inr rights \<Rightarrow> Ret (Some (insert ''observe'' rights)))"

definition RightsOf :: "State \<Rightarrow> string \<Rightarrow> HandleRightSet option go_result" where
  "RightsOf s who =
     (if who = [] then Ret None
      else case s_HandleRights s who of
        Some raw \<Rightarrow>
          if IsHolder s who \<or> who \<in> set (s_PendingHandles s)
          then with_observe (ParseHandleRights raw)
          else if who = s_SpawnedByPrincipal s \<and> (IsHolder s who \<or> \<not> s_SpawnerReleased s)
          then with_observe (ParseHandleRights AllHandleRights)
          else Ret None
      | None \<Rightarrow>
          if who = s_SpawnedByPrincipal s \<and> (IsHolder s who \<or> \<not> s_SpawnerReleased s)
          then with_observe (ParseHandleRights AllHandleRights)
          else if IsHolder s who then with_observe (ParseHandleRights DefaultHandleRights)
          else Ret None)"

fun holders_with :: "State \<Rightarrow> string \<Rightarrow> string list \<Rightarrow> string list go_result" where
  "holders_with s right [] = Ret []"
| "holders_with s right (h # hs) =
     (case RightsOf s h of
        Panic \<Rightarrow> Panic
      | Ret r \<Rightarrow>
          (case holders_with s right hs of
             Panic \<Rightarrow> Panic
           | Ret out \<Rightarrow> Ret (if (case r of None \<Rightarrow> False | Some R \<Rightarrow> right \<in> R) then h # out else out)))"

definition HoldersWith :: "State \<Rightarrow> string \<Rightarrow> string list go_result" where
  "HoldersWith s right = holders_with s right (s_Holders s)"

section \<open>Granting, accepting, releasing\<close>

definition GrantHandle :: "State \<Rightarrow> string \<Rightarrow> string \<Rightarrow> State \<times> bool" where
  "GrantHandle s grantee rights =
     (if grantee = [] \<or> IsHolder s grantee \<or> grantee \<in> set (s_PendingHandles s) then (s, False)
      else
        let rights = (if rights = [] then DefaultHandleRights else rights)
        in (s\<lparr>s_PendingHandles := s_PendingHandles s @ [grantee],
              s_HandleRights := (s_HandleRights s)(grantee \<mapsto> rights)\<rparr>, True))"

text \<open>\<open>slices.Delete\<close> at the index of the first occurrence.\<close>

definition AcceptHandle :: "State \<Rightarrow> string \<Rightarrow> State \<times> bool" where
  "AcceptHandle s who =
     (if who \<notin> set (s_PendingHandles s) then (s, False)
      else (s\<lparr>s_PendingHandles := remove1 who (s_PendingHandles s),
              s_Holders := (if who \<notin> set (s_Holders s) then s_Holders s @ [who] else s_Holders s)\<rparr>,
            True))"

definition ReleaseHandle :: "State \<Rightarrow> string \<Rightarrow> State \<times> bool" where
  "ReleaseHandle s who =
     (if who = [] then (s, False)
      else
        let held = who \<in> set (s_Holders s); pending = who \<in> set (s_PendingHandles s);
            s1 = (if held then s\<lparr>s_Holders := remove1 who (s_Holders s)\<rparr> else s);
            s2 = (if pending then s1\<lparr>s_PendingHandles := remove1 who (s_PendingHandles s1)\<rparr> else s1);
            released = (held \<or> pending)
        in (if released then s2\<lparr>s_HandleRights := (s_HandleRights s2)(who := None)\<rparr> else s2, released))"

text \<open>A sequence of operations on one session's record.\<close>

datatype handle_op = Grant string string | Accept string | Release string

fun handle_step :: "handle_op \<Rightarrow> State \<Rightarrow> State" where
  "handle_step (Grant grantee rights) s = fst (GrantHandle s grantee rights)"
| "handle_step (Accept p) s = fst (AcceptHandle s p)"
| "handle_step (Release p) s = fst (ReleaseHandle s p)"

section \<open>The invariant\<close>

definition wf_handles :: "State \<Rightarrow> bool" where
  "wf_handles s \<longleftrightarrow>
     distinct (s_Holders s @ s_PendingHandles s) \<and> [] \<notin> set (s_Holders s @ s_PendingHandles s) \<and>
     dom (s_HandleRights s) \<subseteq> set (s_Holders s @ s_PendingHandles s)"

lemma wf_handle_step: "wf_handles s \<Longrightarrow> wf_handles (handle_step opn s)"
  by (cases opn)
     (auto simp: wf_handles_def GrantHandle_def AcceptHandle_def ReleaseHandle_def IsHolder_def Let_def
           split: if_splits dest: notin_set_remove1)

lemma wf_handles_run: "wf_handles s \<Longrightarrow> wf_handles (fold handle_step ops s)"
  by (induction ops arbitrary: s) (simp_all add: wf_handle_step)

lemma step_holders:
  "x \<in> set (s_Holders (handle_step opn s)) \<Longrightarrow>
   x \<in> set (s_Holders s) \<or> opn = Accept x \<and> x \<in> set (s_PendingHandles s)"
  by (cases opn)
     (auto simp: GrantHandle_def AcceptHandle_def ReleaseHandle_def Let_def split: if_splits dest: set_remove1_subset[THEN subsetD])

lemma step_pending:
  "x \<in> set (s_PendingHandles (handle_step opn s)) \<Longrightarrow>
   x \<in> set (s_PendingHandles s) \<or> (\<exists>r. opn = Grant x r)"
  by (cases opn)
     (auto simp: GrantHandle_def AcceptHandle_def ReleaseHandle_def Let_def split: if_splits dest: set_remove1_subset[THEN subsetD])

lemma run_pending:
  "x \<in> set (s_PendingHandles (fold handle_step ops s)) \<Longrightarrow>
   x \<in> set (s_PendingHandles s) \<or> (\<exists>r. Grant x r \<in> set ops)"
proof (induction ops rule: rev_induct)
  case (snoc opn ops)
  then show ?case using step_pending[of x opn "fold handle_step ops s"] by auto
qed simp

subsection \<open>Written rights\<close>

lemma right_names_plain:
  "n \<in> set HandleRightNames \<Longrightarrow> TrimSpace n = n \<and> n \<noteq> [] \<and> CHR '','' \<notin> set n"
proof -
  have "list_all (\<lambda>n. TrimSpace n = n \<and> n \<noteq> [] \<and> CHR '','' \<notin> set n) HandleRightNames" by code_simp
  then show "n \<in> set HandleRightNames \<Longrightarrow> ?thesis" by (simp add: list_all_iff)
qed

lemma collect_rights_spec:
  "collect_rights names acc unknown =
     (acc \<union> {n \<in> TrimSpace ` set names. n \<in> set HandleRightNames},
      unknown @ filter (\<lambda>n. n \<noteq> [] \<and> n \<notin> set HandleRightNames) (map TrimSpace names))"
proof (induction names arbitrary: acc unknown)
  case (Cons a names)
  have "[] \<notin> set HandleRightNames" using right_names_plain by blast
  with Cons show ?case by (auto simp: Let_def)
qed simp

lemma ParseHandleRights_spec:
  "ParseHandleRights s =
     (let names = map TrimSpace (split1 CHR '','' s);
          unknown = filter (\<lambda>n. n \<noteq> [] \<and> n \<notin> set HandleRightNames) names
      in if unknown \<noteq> [] then Inl unknown else Inr (set names \<inter> set HandleRightNames))"
  by (auto simp: ParseHandleRights_def collect_rights_spec Let_def)

lemma parse_written:
  assumes "R \<subseteq> set HandleRightNames"
  shows "ParseHandleRights (HandleRightSet_String R) = Inr R"
proof -
  let ?ns = "filter (\<lambda>n. n \<in> R) HandleRightNames"
  have names: "set ?ns = R" using assms by auto
  have trim: "map TrimSpace ?ns = ?ns" using right_names_plain by (intro map_idI) auto
  show ?thesis
  proof (cases "?ns = []")
    case True
    then have "HandleRightSet_String R = []" by (simp add: HandleRightSet_String_def)
    moreover have "R = {}" using True names by simp
    moreover have "ParseHandleRights [] = Inr {}" by code_simp
    ultimately show ?thesis by simp
  next
    case False
    have "split1 CHR '','' (HandleRightSet_String R) = ?ns"
      unfolding HandleRightSet_String_def using False right_names_plain by (intro split1_Join) auto
    then show ?thesis
      unfolding ParseHandleRights_spec Let_def using trim names assms
      by (simp add: filter_empty_conv Int_absorb2)
  qed
qed

lemma parse_all: "ParseHandleRights AllHandleRights = Inr (set HandleRightNames)"
  using parse_written[of "set HandleRightNames"] by (simp add: HandleRightSet_String_def AllHandleRights_def)

subsection \<open>What a release leaves\<close>

lemma release_effect:
  assumes "wf_handles s" "p \<noteq> []"
  shows "fst (ReleaseHandle s p) = s\<lparr>s_Holders := remove1 p (s_Holders s),
    s_PendingHandles := remove1 p (s_PendingHandles s), s_HandleRights := (s_HandleRights s)(p := None)\<rparr>"
proof (cases "p \<in> set (s_Holders s) \<or> p \<in> set (s_PendingHandles s)")
  case True
  then show ?thesis using assms(2) by (auto simp: ReleaseHandle_def Let_def remove1_idem)
next
  case False
  then have "s_HandleRights s p = None" using assms(1) by (auto simp: wf_handles_def)
  then have "(s_HandleRights s)(p := None) = s_HandleRights s" by (rule fun_upd_idem)
  with False assms(2) show ?thesis by (simp add: ReleaseHandle_def Let_def remove1_idem del: fun_upd_apply)
qed

section \<open>Properties\<close>

text \<open>
  Every sequence of grants, acceptances and releases keeps the handle invariant: no principal is
  listed twice or both pending and holding, the empty principal never, and rights are recorded only
  for principals that hold or were offered a handle.
\<close>

theorem handles_invariant:
  assumes "wf_handles s"
  shows "wf_handles (fold handle_step ops s)"
  using assms by (rule wf_handles_run)

lemma handles_invariant_witness:
  "wf_handles (fold handle_step [Grant ''b'' ''merge'', Accept ''b'', Release ''a''] (empty_State\<lparr>s_Holders := [''a'']\<rparr>))"
  by (rule handles_invariant) (simp add: wf_handles_def empty_State_def)

text \<open>
  A principal that holds a handle after any sequence of operations held it before, or accepted
  it during the sequence, and then the offer was already pending or was granted to that very
  principal before the acceptance.
\<close>

theorem holder_needs_grant_then_accept:
  assumes "x \<in> set (s_Holders (fold handle_step ops s))"
  shows "x \<in> set (s_Holders s) \<or>
    (\<exists>pre post. ops = pre @ Accept x # post \<and>
       (x \<in> set (s_PendingHandles s) \<or> (\<exists>r. Grant x r \<in> set pre)))"
  using assms
proof (induction ops rule: rev_induct)
  case Nil
  then show ?case by simp
next
  case (snoc opn ops)
  from snoc.prems have "x \<in> set (s_Holders (handle_step opn (fold handle_step ops s)))" by simp
  from step_holders[OF this] show ?case
  proof
    assume "x \<in> set (s_Holders (fold handle_step ops s))"
    with snoc.IH show ?thesis by (metis append_Cons append_assoc)
  next
    assume a: "opn = Accept x \<and> x \<in> set (s_PendingHandles (fold handle_step ops s))"
    with run_pending[of x ops s] have "x \<in> set (s_PendingHandles s) \<or> (\<exists>r. Grant x r \<in> set ops)" by blast
    with a show ?thesis by blast
  qed
qed

lemma holder_needs_grant_then_accept_witness:
  "\<exists>pre post. [Grant ''b'' ''merge'', Accept ''b''] = pre @ Accept ''b'' # post \<and> (\<exists>r. Grant ''b'' r \<in> set pre)"
proof -
  have "''b'' \<in> set (s_Holders (fold handle_step [Grant ''b'' ''merge'', Accept ''b''] empty_State))"
    by (simp add: GrantHandle_def AcceptHandle_def IsHolder_def empty_State_def)
  from holder_needs_grant_then_accept[OF this] show ?thesis by (simp add: empty_State_def)
qed

text \<open>
  A grant with valid rights to a principal that held nothing, once accepted, gives it exactly
  the rights the grant named, with observe, and leaves every other principal's rights as they were.
\<close>

theorem accepted_grant_rights:
  assumes "grantee \<noteq> []" "grantee \<notin> set (s_Holders s)" "grantee \<notin> set (s_PendingHandles s)"
    and "rights \<noteq> []" "ParseHandleRights rights = Inr R"
  shows "let t = handle_step (Accept grantee) (handle_step (Grant grantee rights) s)
    in RightsOf t grantee = Ret (Some (insert ''observe'' R)) \<and>
       (\<forall>q. q \<noteq> grantee \<longrightarrow> RightsOf t q = RightsOf s q)"
  using assms
  by (auto simp: GrantHandle_def AcceptHandle_def RightsOf_def IsHolder_def with_observe_def Let_def split: option.splits)

lemma accepted_grant_rights_witness:
  "RightsOf (handle_step (Accept ''b'') (handle_step (Grant ''b'' ''merge, close'') empty_State)) ''b'' =
     Ret (Some {''observe'', ''merge'', ''close''})"
proof -
  have p: "ParseHandleRights ''merge, close'' = Inr {''merge'', ''close''}" by code_simp
  have "''b'' \<notin> set (s_Holders empty_State)" "''b'' \<notin> set (s_PendingHandles empty_State)"
    by (simp_all add: empty_State_def)
  from accepted_grant_rights[OF _ this _ p] show ?thesis by (simp add: Let_def)
qed

text \<open>
  Releasing ends the handle: the principal neither holds nor is offered one, and has no rights
  left unless it is the spawner whose release was not recorded; nobody else's rights change.
\<close>

theorem release_ends_authority:
  assumes "wf_handles s" "p \<noteq> []"
  shows "let t = handle_step (Release p) s
    in \<not> IsHolder t p \<and> \<not> IsPendingHolder t p \<and>
       RightsOf t p = (if p = s_SpawnedByPrincipal s \<and> \<not> s_SpawnerReleased s
                       then Ret (Some (set HandleRightNames)) else Ret None) \<and>
       (\<forall>q. q \<noteq> p \<longrightarrow> RightsOf t q = RightsOf s q)"
proof -
  have obs: "insert ''observe'' (set HandleRightNames) = set HandleRightNames"
    by (simp add: HandleRightNames_def)
  have d: "distinct (s_Holders s)" "distinct (s_PendingHandles s)" using assms(1) by (auto simp: wf_handles_def)
  define t where "t = handle_step (Release p) s"
  have t: "t = s\<lparr>s_Holders := remove1 p (s_Holders s), s_PendingHandles := remove1 p (s_PendingHandles s),
      s_HandleRights := (s_HandleRights s)(p := None)\<rparr>"
    unfolding t_def using release_effect[OF assms] by simp
  have gone: "p \<notin> set (s_Holders t)" "p \<notin> set (s_PendingHandles t)" "s_HandleRights t p = None"
    using d by (simp_all add: t)
  have same: "q \<in> set (s_Holders t) \<longleftrightarrow> q \<in> set (s_Holders s)"
    "q \<in> set (s_PendingHandles t) \<longleftrightarrow> q \<in> set (s_PendingHandles s)"
    "s_HandleRights t q = s_HandleRights s q" if "q \<noteq> p" for q
    using that by (simp_all add: t in_set_remove1)
  have lineage: "s_SpawnedByPrincipal t = s_SpawnedByPrincipal s" "s_SpawnerReleased t = s_SpawnerReleased s"
    by (simp_all add: t)
  have "RightsOf t q = RightsOf s q" if "q \<noteq> p" for q
    unfolding RightsOf_def IsHolder_def lineage same[OF that] by (rule refl)
  moreover have "RightsOf t p = (if p = s_SpawnedByPrincipal s \<and> \<not> s_SpawnerReleased s
      then Ret (Some (set HandleRightNames)) else Ret None)"
    using gone assms(2) by (simp add: RightsOf_def IsHolder_def lineage with_observe_def parse_all obs)
  ultimately show ?thesis
    unfolding t_def[symmetric] Let_def IsHolder_def IsPendingHolder_def using gone(1,2) by simp
qed

lemma release_ends_authority_witness:
  "\<not> IsHolder (handle_step (Release ''a'') (empty_State\<lparr>s_Holders := [''a'', ''b'']\<rparr>)) ''a''"
  using release_ends_authority[of "empty_State\<lparr>s_Holders := [''a'', ''b'']\<rparr>" "''a''"]
  by (simp add: Let_def wf_handles_def empty_State_def)

text \<open>
  Rendering a set of rights and parsing it gives the set back.
\<close>

theorem HandleRights_roundtrip:
  "ParseHandleRights (HandleRightSet_String (R \<inter> set HandleRightNames)) = Inr (R \<inter> set HandleRightNames)"
  by (rule parse_written) simp

text \<open>
  Resolving a principal's rights panics exactly when the record names rights for a principal
  that holds or was offered a handle and one of the names is outside the vocabulary.
\<close>

theorem RightsOf_panics_iff:
  "RightsOf s p = Panic \<longleftrightarrow>
     p \<noteq> [] \<and> (p \<in> set (s_Holders s) \<or> p \<in> set (s_PendingHandles s)) \<and>
     (\<exists>raw bad. s_HandleRights s p = Some raw \<and> ParseHandleRights raw = Inl bad)"
proof -
  have "ParseHandleRights DefaultHandleRights = Inr {''observe'', ''close''}" by code_simp
  then show ?thesis
    by (auto simp: RightsOf_def with_observe_def IsHolder_def parse_all split: option.splits sum.splits)
qed

end
