(* ===== verification/FolioRoots.thy ===== *)
theory FolioRoots
  imports FolioEval SessionHandles
begin

text \<open>
  The roots a session's folio anchors expand to (\<open>src/internal/bravo/folioeval/roots.go\<close>): path
  resolution through the nearest existing ancestor, and the children a principal reaches through
  the handles it holds.
\<close>

function resolveExisting :: "World \<Rightarrow> string \<Rightarrow> string" where
  "resolveExisting W path =
     (case w_EvalSymlinks W path of
        Some resolved \<Rightarrow> resolved
      | None \<Rightarrow>
          if Dir path = path then path
          else JoinPath [resolveExisting W (Dir path), Base path])"
  by auto
termination by (relation "measure (\<lambda>(_, p). climb_size p)") (simp_all add: Dir_climbs)

declare resolveExisting.simps [simp del]

definition Resolve :: "World \<Rightarrow> string \<Rightarrow> string" where
  "Resolve W path =
     (let cleaned = Clean path in
      if \<not> IsAbs cleaned then cleaned
      else
        let parent = Dir cleaned; leaf = Base cleaned
        in if parent = cleaned then cleaned else JoinPath [resolveExisting W parent, leaf])"

text \<open>The loop over the session index.\<close>

definition held_children :: "World \<Rightarrow> string \<Rightarrow> State list \<Rightarrow> string list" where
  "held_children W who states =
     map (\<lambda>st. Resolve W (s_WorktreePath st))
       (filter (\<lambda>st. \<not> (s_isTombstone st \<or> s_Kind st = KindImplicit \<or> s_WorktreePath st = [] \<or> \<not> IsHolder st who))
          states)"

definition RootsFor ::
  "World \<Rightarrow> string \<Rightarrow> string \<Rightarrow> string \<Rightarrow> string \<Rightarrow> (string \<Rightarrow> string) option \<Rightarrow> State list \<Rightarrow> Roots" where
  "RootsFor W worktree repoRoot home who env states =
     (let repo = (if repoRoot \<noteq> [] then Resolve W repoRoot else [])
      in \<lparr>r_Pwd = Resolve W worktree, r_Home = Resolve W home, r_NixStore = ''/nix/store'',
          r_Env = Some (\<lambda>nm. case env of None \<Rightarrow> []
            | Some f \<Rightarrow> let v = f nm in if v \<noteq> [] \<and> IsAbs v then Resolve W v else []),
          r_Worktree = Resolve W worktree,
          r_Repo = repo,
          r_Worktrees = (if repoRoot \<noteq> [] then JoinPath [repo, ''.worktrees''] else []),
          r_Children = (if who = [] then [] else held_children W who states),
          r_SiblingsParent = (if repoRoot \<noteq> [] then Dir repo else []),
          r_SiblingsExclude = (if repoRoot \<noteq> [] then repo else [])\<rparr>)"

text \<open>
  A \<open>spinclass:children\<close> entry reaches a path only below the resolved worktree of a live
  worktree session on which the caller holds an accepted handle; a caller without an identity
  reaches nothing.
\<close>

theorem children_need_an_accepted_handle:
  assumes "\<forall>e \<in> set ps. plain_elem e" "pat_Anchor pat = AnchorSpinclass" "pat_Arg pat = ''children''"
    and "matchPattern (RootsFor W worktree repoRoot home who env states) pat (abs_path ps)"
  shows "who \<noteq> [] \<and> (\<exists>st \<in> set states. IsHolder st who \<and> \<not> s_isTombstone st \<and> s_Kind st \<noteq> KindImplicit \<and>
    at_or_below (Resolve W (s_WorktreePath st)) (abs_path ps))"
proof -
  let ?r = "RootsFor W worktree repoRoot home who env states"
  from assms(2-4) obtain root where root: "root \<in> set (r_Children ?r)" "matchUnder root (pat_Segments pat) (abs_path ps)"
    by (auto simp: matchPattern_def anchor_roots_def list_ex_iff)
  from matchUnder_contained[OF assms(1) root(2)]
  have "at_or_below root (abs_path ps)" using path_elems_abs[OF assms(1)] by (auto simp: at_or_below_def)
  with root(1) show ?thesis by (auto simp: RootsFor_def Let_def held_children_def split: if_splits)
qed

lemma children_need_an_accepted_handle_witness:
  "\<exists>st \<in> set [empty_State\<lparr>s_WorktreePath := ''/c/w'', s_Holders := [''me'']\<rparr>]. IsHolder st ''me'' \<and>
     at_or_below (Resolve \<lparr>w_EvalSymlinks = Some, w_Getwd = None\<rparr> (s_WorktreePath st)) (abs_path [''c'', ''w'', ''f''])"
proof -
  let ?st = "empty_State\<lparr>s_WorktreePath := ''/c/w'', s_Holders := [''me'']\<rparr>"
  let ?pat = "\<lparr>pat_Anchor = AnchorSpinclass, pat_Arg = ''children'', pat_Segments = [], pat_Raw = ''spinclass:children''\<rparr>"
  have "\<forall>e \<in> set [''c'', ''w'', ''f'']. plain_elem e" by (simp add: plain_elem_def)
  moreover have "matchPattern (RootsFor \<lparr>w_EvalSymlinks = Some, w_Getwd = None\<rparr> ''/w'' ''/r'' ''/h'' ''me'' None [?st])
      ?pat (abs_path [''c'', ''w'', ''f''])"
    by code_simp
  ultimately show ?thesis
    using children_need_an_accepted_handle[of "[''c'', ''w'', ''f'']" ?pat] by fastforce
qed

end
