(* ===== verification/GoUnicode.thy ===== *)
theory GoUnicode
  imports Prelude
begin

text \<open>
  UTF-8 as Go reads a string: splitting it into runes, where a byte that starts no valid encoding
  is a rune of its own, \<open>utf8.ValidString\<close> and \<open>utf8.RuneCountInString\<close>.
\<close>

definition byte_in :: "char \<Rightarrow> char \<Rightarrow> char \<Rightarrow> bool" where
  "byte_in lo hi c \<longleftrightarrow> lo \<le> c \<and> c \<le> hi"

abbreviation cont_byte :: "char \<Rightarrow> bool" where
  "cont_byte \<equiv> byte_in (CHR 0x80) (CHR 0xBF)"

text \<open>The width of the valid encoding at the front of a string, 0 when there is none.\<close>

definition rune_width :: "string \<Rightarrow> nat" where
  "rune_width s =
     (case s of
        [] \<Rightarrow> 0
      | a # t \<Rightarrow>
          if a \<le> CHR 0x7F then 1
          else (case t of
              [] \<Rightarrow> 0
            | b # u \<Rightarrow>
                if byte_in (CHR 0xC2) (CHR 0xDF) a \<and> cont_byte b then 2
                else (case u of
                    [] \<Rightarrow> 0
                  | c # v \<Rightarrow>
                      if cont_byte c \<and>
                         (a = CHR 0xE0 \<and> byte_in (CHR 0xA0) (CHR 0xBF) b \<or>
                          a = CHR 0xED \<and> byte_in (CHR 0x80) (CHR 0x9F) b \<or>
                          byte_in (CHR 0xE1) (CHR 0xEF) a \<and> a \<noteq> CHR 0xED \<and> cont_byte b) then 3
                      else (case v of
                          [] \<Rightarrow> 0
                        | d # _ \<Rightarrow>
                            if cont_byte c \<and> cont_byte d \<and>
                               (a = CHR 0xF0 \<and> byte_in (CHR 0x90) (CHR 0xBF) b \<or>
                                byte_in (CHR 0xF1) (CHR 0xF3) a \<and> cont_byte b \<or>
                                a = CHR 0xF4 \<and> byte_in (CHR 0x80) (CHR 0x8F) b) then 4
                            else 0))))"

function runes :: "string \<Rightarrow> string list" where
  "runes [] = []"
| "runes (c # cs) = (let n = max 1 (rune_width (c # cs)) in take n (c # cs) # runes (drop n (c # cs)))"
  by pat_completeness auto
termination by (relation "measure length") (auto simp: Let_def)

declare runes.simps(2) [simp del]

definition ValidString :: "string \<Rightarrow> bool" where
  "ValidString s \<longleftrightarrow> list_all (\<lambda>r. rune_width r \<noteq> 0) (runes s)"

definition RuneCount :: "string \<Rightarrow> nat" where
  "RuneCount s = length (runes s)"

section \<open>ASCII strings\<close>

definition ascii :: "string \<Rightarrow> bool" where
  "ascii s \<longleftrightarrow> list_all (\<lambda>c. c \<le> CHR 0x7F) s"

lemma ascii_append [simp]: "ascii (s @ t) \<longleftrightarrow> ascii s \<and> ascii t"
  by (simp add: ascii_def)

lemma ascii_Nil [simp]: "ascii []"
  by (simp add: ascii_def)

lemma ascii_Cons [simp]: "ascii (c # s) \<longleftrightarrow> c \<le> CHR 0x7F \<and> ascii s"
  by (simp add: ascii_def)

lemma runes_ascii: "ascii s \<Longrightarrow> runes s = map (\<lambda>c. [c]) s"
  by (induction s) (auto simp: runes.simps(2) rune_width_def)

lemma ValidString_ascii: "ascii s \<Longrightarrow> ValidString s"
  by (simp add: ValidString_def runes_ascii list_all_iff) (simp add: ascii_def list_all_iff rune_width_def)

lemma RuneCount_ascii: "ascii s \<Longrightarrow> RuneCount s = length s"
  by (simp add: RuneCount_def runes_ascii)

lemma concat_runes: "concat (runes s) = s"
  by (induction s rule: runes.induct) (auto simp: runes.simps(2) Let_def)

end
