(* ===== verification/GoClock.thy ===== *)
theory GoClock
  imports Prelude "HOL-Library.Monad_Syntax"
begin

text \<open>
  A \<open>time.Time\<close> in UTC as its civil date and clock reading, which is how Go compares it
  (\<open>Before\<close>, \<open>After\<close>) and prints it, with \<open>Format\<close> and \<open>Parse\<close> for the one layout the source uses,
  \<open>2006-01-02T15:04:05Z\<close>. As in Go, the parser takes an hour of one digit and a fractional
  second the layout does not name.
\<close>

datatype UTC = UTC (year: nat) (month: nat) (day: nat) (hour: nat) (minute: nat) (sec: nat) (nanos: nat)

definition utc_key :: "UTC \<Rightarrow> nat list" where
  "utc_key t = [year t, month t, day t, hour t, minute t, sec t, nanos t]"

lemma utc_key_inj [simp]: "utc_key s = utc_key t \<longleftrightarrow> s = t"
  by (cases s; cases t) (simp add: utc_key_def)

instantiation UTC :: linorder
begin

definition less_eq_UTC :: "UTC \<Rightarrow> UTC \<Rightarrow> bool" where
  "less_eq_UTC s t \<longleftrightarrow> utc_key s \<le> utc_key t"

definition less_UTC :: "UTC \<Rightarrow> UTC \<Rightarrow> bool" where
  "less_UTC s t \<longleftrightarrow> utc_key s < utc_key t"

instance
  by standard (auto simp: less_eq_UTC_def less_UTC_def less_le)

end

section \<open>Digits\<close>

definition digit_char :: "nat \<Rightarrow> char" where
  "digit_char n =
     (if n = 0 then CHR ''0'' else if n = 1 then CHR ''1'' else if n = 2 then CHR ''2''
      else if n = 3 then CHR ''3'' else if n = 4 then CHR ''4'' else if n = 5 then CHR ''5''
      else if n = 6 then CHR ''6'' else if n = 7 then CHR ''7'' else if n = 8 then CHR ''8'' else CHR ''9'')"

definition digit_of :: "char \<Rightarrow> nat option" where
  "digit_of c =
     (if c = CHR ''0'' then Some 0 else if c = CHR ''1'' then Some 1 else if c = CHR ''2'' then Some 2
      else if c = CHR ''3'' then Some 3 else if c = CHR ''4'' then Some 4 else if c = CHR ''5'' then Some 5
      else if c = CHR ''6'' then Some 6 else if c = CHR ''7'' then Some 7 else if c = CHR ''8'' then Some 8
      else if c = CHR ''9'' then Some 9 else None)"

lemma digit_of_char [simp]: "n < 10 \<Longrightarrow> digit_of (digit_char n) = Some n"
proof -
  assume "n < 10"
  then have "n = 0 \<or> n = 1 \<or> n = 2 \<or> n = 3 \<or> n = 4 \<or> n = 5 \<or> n = 6 \<or> n = 7 \<or> n = 8 \<or> n = 9"
    by arith
  then show ?thesis by (elim disjE) (simp_all add: digit_of_def digit_char_def)
qed

text \<open>Printing with at least \<open>w\<close> digits, padded with zeros.\<close>

fun pad_digits :: "nat \<Rightarrow> nat \<Rightarrow> string" where
  "pad_digits 0 n = (if n = 0 then [] else pad_digits 0 (n div 10) @ [digit_char (n mod 10)])"
| "pad_digits (Suc w) n = pad_digits w (n div 10) @ [digit_char (n mod 10)]"

fun read_digits :: "string \<Rightarrow> nat \<Rightarrow> nat option" where
  "read_digits [] acc = Some acc"
| "read_digits (c # cs) acc =
     (case digit_of c of None \<Rightarrow> None | Some d \<Rightarrow> read_digits cs (acc * 10 + d))"

lemma read_digits_append:
  "read_digits (s @ t) acc = (case read_digits s acc of None \<Rightarrow> None | Some a \<Rightarrow> read_digits t a)"
  by (induction s arbitrary: acc) (auto split: option.splits)

lemma pad_digits_length: "n < 10 ^ w \<Longrightarrow> length (pad_digits w n) = w"
  by (induction w arbitrary: n) (auto simp: less_mult_imp_div_less mult.commute)

lemma read_pad_digits: "n < 10 ^ w \<Longrightarrow> read_digits (pad_digits w n) 0 = Some n"
  by (induction w arbitrary: n) (auto simp: read_digits_append less_mult_imp_div_less mult.commute)

section \<open>Format and Parse\<close>

definition FormatUTC :: "UTC \<Rightarrow> string" where
  "FormatUTC t =
     pad_digits 4 (year t) @ ''-'' @ pad_digits 2 (month t) @ ''-'' @ pad_digits 2 (day t) @ ''T'' @
     pad_digits 2 (hour t) @ '':'' @ pad_digits 2 (minute t) @ '':'' @ pad_digits 2 (sec t) @ ''Z''"

definition is_leap :: "nat \<Rightarrow> bool" where
  "is_leap y \<longleftrightarrow> y mod 4 = 0 \<and> (y mod 100 \<noteq> 0 \<or> y mod 400 = 0)"

definition days_in :: "nat \<Rightarrow> nat \<Rightarrow> nat" where
  "days_in m y =
     (if m = 2 then (if is_leap y then 29 else 28)
      else if m = 4 \<or> m = 6 \<or> m = 9 \<or> m = 11 then 30 else 31)"

text \<open>A fixed-width number and the rest.\<close>

definition fixed_num :: "nat \<Rightarrow> string \<Rightarrow> (nat \<times> string) option" where
  "fixed_num w s =
     (if length s < w then None
      else map_option (\<lambda>n. (n, drop w s)) (read_digits (take w s) 0))"

text \<open>\<open>getnum\<close> without a fixed width: two digits, or one when the second is not a digit.\<close>

definition loose_num :: "string \<Rightarrow> (nat \<times> string) option" where
  "loose_num s =
     (case s of
        [] \<Rightarrow> None
      | c # cs \<Rightarrow>
          (case digit_of c of
             None \<Rightarrow> None
           | Some a \<Rightarrow>
               (case cs of
                  d # ds \<Rightarrow>
                    (case digit_of d of Some b \<Rightarrow> Some (a * 10 + b, ds) | None \<Rightarrow> Some (a, cs))
                | [] \<Rightarrow> Some (a, cs))))"

definition skip :: "string \<Rightarrow> string \<Rightarrow> string option" where
  "skip lit s = CutPrefix s lit"

text \<open>A fraction the layout does not name: up to nine digits count.\<close>

definition fraction_secs :: "string \<Rightarrow> nat \<times> string" where
  "fraction_secs s =
     (case s of
        p # c # cs \<Rightarrow>
          if (p = CHR ''.'' \<or> p = CHR '','') \<and> digit_of c \<noteq> None then
            let ds = takeWhile (\<lambda>d. digit_of d \<noteq> None) (c # cs); used = take 9 ds
            in (the (read_digits used 0) * 10 ^ (9 - length used), drop (length ds) (c # cs))
          else (0, s)
      | _ \<Rightarrow> (0, s))"

definition ParseUTC :: "string \<Rightarrow> UTC option" where
  "ParseUTC s =
     do {
       (y, s) \<leftarrow> fixed_num 4 s;
       s \<leftarrow> skip ''-'' s;
       (mo, s) \<leftarrow> fixed_num 2 s;
       s \<leftarrow> (if mo = 0 \<or> mo > 12 then None else Some s);
       s \<leftarrow> skip ''-'' s;
       (d, s) \<leftarrow> fixed_num 2 s;
       s \<leftarrow> skip ''T'' s;
       (h, s) \<leftarrow> loose_num s;
       s \<leftarrow> (if h \<ge> 24 then None else Some s);
       s \<leftarrow> skip '':'' s;
       (mi, s) \<leftarrow> fixed_num 2 s;
       s \<leftarrow> (if mi \<ge> 60 then None else Some s);
       s \<leftarrow> skip '':'' s;
       (sc, s) \<leftarrow> fixed_num 2 s;
       s \<leftarrow> (if sc \<ge> 60 then None else Some s);
       let (ns, s) = fraction_secs s;
       s \<leftarrow> skip ''Z'' s;
       if s \<noteq> [] then None
       else if d < 1 \<or> d > days_in mo y then None
       else Some (UTC y mo d h mi sc ns)
     }"

text \<open>A whole second of the years the layout can print.\<close>

definition wf_utc :: "UTC \<Rightarrow> bool" where
  "wf_utc t \<longleftrightarrow>
     year t < 10000 \<and> 1 \<le> month t \<and> month t \<le> 12 \<and> 1 \<le> day t \<and> day t \<le> days_in (month t) (year t) \<and>
     hour t < 24 \<and> minute t < 60 \<and> sec t < 60 \<and> nanos t = 0"

lemma fixed_num_pad: "n < 10 ^ w \<Longrightarrow> fixed_num w (pad_digits w n @ s) = Some (n, s)"
  by (simp add: fixed_num_def pad_digits_length read_pad_digits)

lemma loose_num_pad: "n < 100 \<Longrightarrow> loose_num (pad_digits 2 n @ s) = Some (n, s)"
  by (simp add: loose_num_def numeral_2_eq_2)

lemma days_in_le: "days_in m y \<le> 31"
  by (simp add: days_in_def)

lemma ParseUTC_FormatUTC:
  assumes "wf_utc t"
  shows "ParseUTC (FormatUTC t) = Some t"
proof -
  have b: "year t < 10 ^ 4" "month t < 10 ^ 2" "day t < 10 ^ 2" "hour t < 100" "minute t < 10 ^ 2" "sec t < 10 ^ 2"
    using assms days_in_le[of "month t" "year t"] by (auto simp: wf_utc_def)
  have z: "fraction_secs ''Z'' = (0, ''Z'')" by (simp add: fraction_secs_def)
  show ?thesis
    using assms b
    by (cases t) (simp add: ParseUTC_def FormatUTC_def fixed_num_pad loose_num_pad skip_def CutPrefix_def z wf_utc_def)
qed

end
