(* ===== verification/ProfileGrant.thy ===== *)
theory ProfileGrant
  imports GoUnicode GoClock "HOL-Library.AList"
begin

text \<open>
  Profile grants (\<open>src/internal/0/profilegrant/grant.go\<close>, \<open>act.go\<close>, \<open>identity.go\<close>): the canonical
  record text and its strict parser, the text the operator's card signs, the narrowing relation
  between a grant and its parent, and the walk from a presented grant to a card-signed root.
  Hashing goes through a third-party package and signatures are injected, so both are parameters.
  A profile map is an association list sorted by name, the order Go's code iterates it in.
\<close>

section \<open>The record\<close>

abbreviation header :: string where "header \<equiv> ''spinclass profile-grant v1''"
abbreviation rightPrefix :: string where "rightPrefix \<equiv> ''spinclass:profile:''"
abbreviation noValue :: string where "noValue \<equiv> ''-''"
abbreviation OnwardNone :: string where "OnwardNone \<equiv> ''none''"
abbreviation OnwardGrant :: string where "OnwardGrant \<equiv> ''grant''"

definition maxTextBytes :: nat where "maxTextBytes = 4096"

record Grant =
  g_Grantor :: string
  g_Grantee :: string
  g_Session :: string
  g_Profiles :: "(string \<times> string) list"
  g_Onward :: string
  g_Expires :: UTC
  g_Nonce :: string
  g_Widens :: string
  g_Prev :: string

definition profileNames :: "Grant \<Rightarrow> string list" where
  "profileNames g = sort (map fst (g_Profiles g))"

definition profile_digest :: "Grant \<Rightarrow> string \<Rightarrow> string" where
  "profile_digest g n = (case map_of (g_Profiles g) n of None \<Rightarrow> [] | Some d \<Rightarrow> d)"

definition Rights :: "Grant \<Rightarrow> string list" where
  "Rights g = map (\<lambda>n. rightPrefix @ n) (profileNames g)"

abbreviation newline :: char where "newline \<equiv> CHR 0x0A"

definition text_line :: "string \<Rightarrow> string \<Rightarrow> string" where
  "text_line key val = key @ '': '' @ val @ [newline]"

definition CanonicalText :: "Grant \<Rightarrow> string" where
  "CanonicalText g =
     header @ [newline] @
     text_line ''grantor'' (g_Grantor g) @
     text_line ''grantee'' (g_Grantee g) @
     text_line ''session'' (g_Session g) @
     text_line ''profiles'' (Join (map (\<lambda>n. n @ ''='' @ profile_digest g n) (profileNames g)) '' '') @
     text_line ''rights'' (Join (Rights g) '' '') @
     text_line ''onward'' (g_Onward g) @
     text_line ''expires'' (FormatUTC (g_Expires g)) @
     text_line ''nonce'' (g_Nonce g) @
     text_line ''widens'' (g_Widens g) @
     text_line ''prev'' (g_Prev g)"

definition lineKeys :: "string list" where
  "lineKeys = [''grantor'', ''grantee'', ''session'', ''profiles'', ''rights'', ''onward'', ''expires'',
     ''nonce'', ''widens'', ''prev'']"

section \<open>Parsing\<close>

datatype grant_error =
    TextTooLong nat | NotUTF8 | ControlCharacter char | NoFinalNewline | WrongHeader string
  | WrongLineCount nat | WantLine nat string | EmptyOrPadded string | BadIdentity string
  | BadProfileEntry string | ProfileOutOfOrder string | RightsMismatch string | BadOnward string
  | BadExpires string | NotCanonical

text \<open>The allowlist: ASCII letters and digits and \<open>._:/@+-\<close>; a byte of a longer rune is not in it.\<close>

definition identity_char :: "char \<Rightarrow> bool" where
  "identity_char r \<longleftrightarrow>
     CHR ''a'' \<le> r \<and> r \<le> CHR ''z'' \<or> CHR ''A'' \<le> r \<and> r \<le> CHR ''Z'' \<or> CHR ''0'' \<le> r \<and> r \<le> CHR ''9'' \<or>
     r \<in> set ''._:/@+-''"

definition checkIdentityValue :: "string \<Rightarrow> bool" where
  "checkIdentityValue v \<longleftrightarrow> v \<noteq> [] \<and> list_all identity_char v"

fun parse_fields :: "string list \<Rightarrow> string \<Rightarrow> (string \<times> string) list \<Rightarrow> grant_error + (string \<times> string) list" where
  "parse_fields [] previous profiles = Inr profiles"
| "parse_fields (field # flds) previous profiles =
     (case Cut field ''='' of
        None \<Rightarrow> Inl (BadProfileEntry field)
      | Some (name, dig) \<Rightarrow>
          if name = [] \<or> dig = [] then Inl (BadProfileEntry field)
          else if \<not> checkIdentityValue name then Inl (BadIdentity ''profile name'')
          else if \<not> checkIdentityValue dig then Inl (BadIdentity (''profile digest of '' @ name))
          else if name \<le> previous then Inl (ProfileOutOfOrder name)
          else parse_fields flds name (AList.update name dig profiles))"

definition parseProfiles :: "string \<Rightarrow> grant_error + (string \<times> string) list" where
  "parseProfiles value = parse_fields (split1 CHR '' '' value) [] []"

text \<open>The loop over the expected keys: the values read so far, by key.\<close>

fun parse_body :: "nat \<Rightarrow> string list \<Rightarrow> string list \<Rightarrow> (string \<times> string) list \<Rightarrow> grant_error + (string \<times> string) list" where
  "parse_body i (key # keys) (ln # lns) values =
     (case CutPrefix ln (key @ '': '') of
        None \<Rightarrow> Inl (WantLine (i + 2) key)
      | Some value \<Rightarrow>
          if value = [] \<or> value \<noteq> TrimSpace value then Inl (EmptyOrPadded key)
          else if key \<notin> {''profiles'', ''rights'', ''onward'', ''expires''} \<and> \<not> checkIdentityValue value
          then Inl (BadIdentity key)
          else parse_body (i + 1) keys lns (values @ [(key, value)]))"
| "parse_body i _ _ values = Inr values"

definition value_of :: "(string \<times> string) list \<Rightarrow> string \<Rightarrow> string" where
  "value_of values key = (case map_of values key of None \<Rightarrow> [] | Some v \<Rightarrow> v)"

definition control_char :: "char \<Rightarrow> bool" where
  "control_char r \<longleftrightarrow> r \<noteq> newline \<and> r \<noteq> CHR 0x09 \<and> (r < CHR 0x20 \<or> r = CHR 0x7F)"

definition build_grant :: "(string \<times> string) list \<Rightarrow> string \<Rightarrow> grant_error + Grant" where
  "build_grant values s =
     (case parseProfiles (value_of values ''profiles'') of
        Inl e \<Rightarrow> Inl e
      | Inr profiles \<Rightarrow>
          let g = \<lparr>g_Grantor = value_of values ''grantor'', g_Grantee = value_of values ''grantee'',
                   g_Session = value_of values ''session'', g_Profiles = profiles, g_Onward = [],
                   g_Expires = UTC 1 1 1 0 0 0 0, g_Nonce = value_of values ''nonce'',
                   g_Widens = value_of values ''widens'', g_Prev = value_of values ''prev''\<rparr>;
              onward = value_of values ''onward''
          in if value_of values ''rights'' \<noteq> Join (Rights g) '' '' then Inl (RightsMismatch (value_of values ''rights''))
             else if onward \<noteq> OnwardNone \<and> onward \<noteq> OnwardGrant then Inl (BadOnward onward)
             else (case ParseUTC (value_of values ''expires'') of
                 None \<Rightarrow> Inl (BadExpires (value_of values ''expires''))
               | Some t \<Rightarrow>
                   let g' = g\<lparr>g_Onward := onward, g_Expires := t\<rparr>
                   in if CanonicalText g' \<noteq> s then Inl NotCanonical else Inr g'))"

definition ParseCanonicalText :: "string \<Rightarrow> grant_error + Grant" where
  "ParseCanonicalText s =
     (if length s > maxTextBytes then Inl (TextTooLong (length s))
      else if \<not> ValidString s then Inl NotUTF8
      else case find control_char s of Some r \<Rightarrow> Inl (ControlCharacter r)
      | None \<Rightarrow>
          if \<not> HasSuffix s [newline] then Inl NoFinalNewline
          else
            let lines = split1 newline (TrimSuffix s [newline]); body = tl lines in
            if hd lines \<noteq> header then Inl (WrongHeader (hd lines))
            else if length body \<noteq> length lineKeys then Inl (WrongLineCount (length body))
            else case parse_body 0 lineKeys body [] of
                Inl e \<Rightarrow> Inl e
              | Inr values \<Rightarrow> build_grant values s)"

definition Holds :: "Grant \<Rightarrow> string \<Rightarrow> bool" where
  "Holds effective profile \<longleftrightarrow> map_of (g_Profiles effective) profile \<noteq> None"

section \<open>Narrowing\<close>

record BaseLink =
  bl_Name :: string
  bl_Digest :: string
  bl_Widenings :: "string list"

text \<open>\<open>WalkOptions\<close>: a nil function is \<open>None\<close>; \<open>BaseChain\<close> answers an error or the chain.\<close>

record WalkOptions =
  wo_SessionOfPrincipal :: "(string \<Rightarrow> string option) option"
  wo_BaseChain :: "(string \<Rightarrow> string \<Rightarrow> string + BaseLink list) option"

definition maxBaseDepth :: nat where "maxBaseDepth = 8"

datatype narrow_error =
    PrevMismatch | NotGrantee | NoSessionFor string | OtherSession string | ParentOnwardNone
  | ExpiryAfterParent | DigestDiffers string | NotHeld string | BaseUnchecked string string
  | BaseTooLong string | WidensBase string string "string list" | HeldAtOther string string
  | ReachesNoHeld string "string list"

definition bindsGrantor :: "WalkOptions \<Rightarrow> Grant \<Rightarrow> Grant \<Rightarrow> narrow_error option" where
  "bindsGrantor opts parent child =
     (if g_Grantor child = g_Grantee parent then None
      else case wo_SessionOfPrincipal opts of
        None \<Rightarrow> Some NotGrantee
      | Some f \<Rightarrow>
          (case f (g_Grantor child) of
             None \<Rightarrow> Some (NoSessionFor (g_Grantor child))
           | Some session \<Rightarrow> if session \<noteq> g_Grantee parent then Some (OtherSession session) else None))"

fun reach_chain :: "Grant \<Rightarrow> string \<Rightarrow> BaseLink list \<Rightarrow> string list \<Rightarrow> narrow_error option" where
  "reach_chain parent name [] names = Some (ReachesNoHeld name names)"
| "reach_chain parent name (link # chain) names =
     (if length (bl_Widenings link) > 0 then Some (WidensBase name (bl_Name link) (bl_Widenings link))
      else case map_of (g_Profiles parent) (bl_Name link) of
        Some heldDigest \<Rightarrow>
          if heldDigest \<noteq> bl_Digest link then Some (HeldAtOther name (bl_Name link)) else None
      | None \<Rightarrow> reach_chain parent name chain (names @ [bl_Name link]))"

definition reachesHeldBase :: "WalkOptions \<Rightarrow> Grant \<Rightarrow> string \<Rightarrow> string \<Rightarrow> narrow_error option" where
  "reachesHeldBase opts parent name dig =
     (case wo_BaseChain opts of
        None \<Rightarrow> Some (NotHeld name)
      | Some baseChain \<Rightarrow>
          (case baseChain name dig of
             Inl e \<Rightarrow> Some (BaseUnchecked name e)
           | Inr chain \<Rightarrow>
               if length chain > maxBaseDepth then Some (BaseTooLong name)
               else reach_chain parent name chain []))"

definition ReachesHeldBase :: "Grant \<Rightarrow> string \<Rightarrow> string \<Rightarrow> WalkOptions \<Rightarrow> narrow_error option" where
  "ReachesHeldBase holder profile dig opts = reachesHeldBase opts holder profile dig"

fun narrow_profiles :: "WalkOptions \<Rightarrow> Grant \<Rightarrow> Grant \<Rightarrow> string list \<Rightarrow> narrow_error option" where
  "narrow_profiles opts parent child [] = None"
| "narrow_profiles opts parent child (name # names) =
     (case map_of (g_Profiles parent) name of
        None \<Rightarrow>
          (case reachesHeldBase opts parent name (profile_digest child name) of
             Some e \<Rightarrow> Some e | None \<Rightarrow> narrow_profiles opts parent child names)
      | Some d \<Rightarrow>
          if profile_digest child name \<noteq> d then Some (DigestDiffers name)
          else narrow_profiles opts parent child names)"

definition Narrows :: "Grant \<Rightarrow> string \<Rightarrow> Grant \<Rightarrow> WalkOptions \<Rightarrow> narrow_error option" where
  "Narrows parent parentDigest child opts =
     (if g_Prev child \<noteq> parentDigest then Some PrevMismatch
      else case bindsGrantor opts parent child of
        Some e \<Rightarrow> Some e
      | None \<Rightarrow>
          if g_Onward parent \<noteq> OnwardGrant then Some ParentOnwardNone
          else if g_Expires parent < g_Expires child then Some ExpiryAfterParent
          else narrow_profiles opts parent child (profileNames child))"

section \<open>The text the card signs\<close>

definition MaxActLines :: nat where "MaxActLines = 15"
definition MaxActChars :: nat where "MaxActChars = 1200"
definition actWrapColumns :: nat where "actWrapColumns = 80"

definition renderedLines :: "string \<Rightarrow> nat" where
  "renderedLines t =
     sum_list (map (\<lambda>ln. max 1 ((RuneCount ln + actWrapColumns - 1) div actWrapColumns))
       (split1 newline (TrimSuffix t [newline])))"

datatype act_error =
    NoProfiles | ActBadOnward string | NoExpiry | ActBadField string | ActTooLong nat | ActTooManyLines nat
  | ActTooManyChars nat | ActBadRecord grant_error | ActTooManyDiffLines nat | ActBadDiffLine string

text \<open>The zero \<open>time.Time\<close>.\<close>

definition IsZero :: "UTC \<Rightarrow> bool" where
  "IsZero t \<longleftrightarrow> t = UTC 1 1 1 0 0 0 0"

definition act_checks :: "Grant \<Rightarrow> string \<Rightarrow> (string \<times> string) list" where
  "act_checks g dig =
     [(''record digest'', dig), (''grantor'', g_Grantor g), (''grantee'', g_Grantee g),
      (''session'', g_Session g), (''widens'', g_Widens g)] @
     concat (map (\<lambda>n. [(''profile name'', n), (''profile digest of '' @ n, profile_digest g n)]) (profileNames g))"

definition validateForAct :: "Grant \<Rightarrow> string \<Rightarrow> act_error option" where
  "validateForAct g dig =
     (if g_Profiles g = [] then Some NoProfiles
      else if g_Onward g \<noteq> OnwardNone \<and> g_Onward g \<noteq> OnwardGrant then Some (ActBadOnward (g_Onward g))
      else if IsZero (g_Expires g) then Some NoExpiry
      else map_option (\<lambda>(what, _). ActBadField what)
             (find (\<lambda>(_, v). \<not> checkIdentityValue v) (act_checks g dig)))"

definition act_body :: "Grant \<Rightarrow> string \<Rightarrow> string" where
  "act_body g dig =
     (let session = (if g_Session g \<noteq> ''-'' then ''session '' @ g_Session g else ''no session'');
          onward = (if g_Onward g = OnwardGrant then ''yes'' else ''no'');
          form = (if g_Widens g \<noteq> noValue then ''widening of '' @ g_Widens g else ''initial grant'')
      in ''spinclass profile grant (escalation): '' @ form @ [newline] @
         ''record: '' @ dig @ [newline] @
         ''from: '' @ g_Grantor g @ [newline] @
         ''allow: '' @ g_Grantee g @ '' ('' @ session @ '')'' @ [newline] @
         ''to spawn workers with these profiles, each pinned to its content digest:'' @ [newline] @
         concat (map (\<lambda>n. ''  '' @ n @ '' = '' @ profile_digest g n @ [newline]) (profileNames g)) @
         ''may pass these on: '' @ onward @ [newline] @
         ''until: '' @ FormatUTC (g_Expires g) @ [newline] @
         ''Signing this is an operator grant of these rights, bounded as stated above.'' @ [newline])"

text \<open>The budget both act texts are held to.\<close>

definition within_budget :: "string \<Rightarrow> act_error + string" where
  "within_budget out =
     (if length out > maxTextBytes then Inl (ActTooLong (length out))
      else if renderedLines out > MaxActLines then Inl (ActTooManyLines (renderedLines out))
      else if RuneCount out > MaxActChars then Inl (ActTooManyChars (RuneCount out))
      else Inr out)"

definition ActText :: "Grant \<Rightarrow> string \<Rightarrow> act_error + string" where
  "ActText g dig =
     (case validateForAct g dig of Some e \<Rightarrow> Inl e | None \<Rightarrow> within_budget (act_body g dig))"

section \<open>The walk\<close>

record Record =
  rec_Digest :: string
  rec_Text :: string
  rec_Sig :: string
  rec_Root :: bool

text \<open>\<open>Verifier\<close>: true when the check returns nil.\<close>

record Verifier =
  v_Root :: "string \<Rightarrow> string \<Rightarrow> bool"
  v_Link :: "Grant \<Rightarrow> string \<Rightarrow> bool"

definition LocalLinkVerifier :: "Grant \<Rightarrow> string \<Rightarrow> bool" where
  "LocalLinkVerifier g sig \<longleftrightarrow> length sig = 0"

datatype walk_reason =
    TooDeep | Cycle | DigestFailed | DigestMismatch string | ParseFailed grant_error | Expired
  | RootHasPrev string | LinkWithoutPrev | BadSignature | NarrowingEdge string narrow_error
  | ParentNotFound string | WrongParent string | LinkWidens string | WidenedNotFound string
  | WidenedWrongDigest string | WidenedDigestFailed | WidenedMismatch string | WidenedNotRoot
  | WidenedParse grant_error | WidenedExpired | DropsProfile string | WidenedGrantee string

definition maxChainDepth :: nat where "maxChainDepth = 32"

text \<open>\<open>DigestOf\<close>, the content address (\<open>None\<close> is its error), is a parameter.\<close>

definition verifyRecord :: "(string \<Rightarrow> string option) \<Rightarrow> UTC \<Rightarrow> Record \<Rightarrow> Verifier \<Rightarrow> walk_reason + Grant" where
  "verifyRecord DigestOf now rc v =
     (case DigestOf (rec_Text rc) of
        None \<Rightarrow> Inl DigestFailed
      | Some want \<Rightarrow>
          if rec_Digest rc \<noteq> want then Inl (DigestMismatch want)
          else case ParseCanonicalText (rec_Text rc) of
            Inl e \<Rightarrow> Inl (ParseFailed e)
          | Inr g \<Rightarrow>
              if \<not> now < g_Expires g then Inl Expired
              else if rec_Root rc \<and> g_Prev g \<noteq> noValue then Inl (RootHasPrev (g_Prev g))
              else if \<not> rec_Root rc \<and> g_Prev g = noValue then Inl LinkWithoutPrev
              else if (if rec_Root rc
                       then (case ActText g (rec_Digest rc) of Inl _ \<Rightarrow> False | Inr act \<Rightarrow> v_Root v act (rec_Sig rc))
                       else v_Link v g (rec_Sig rc))
              then Inr g else Inl BadSignature)"

definition checkWidens ::
  "(string \<Rightarrow> string option) \<Rightarrow> UTC \<Rightarrow> Record \<Rightarrow> Grant \<Rightarrow> (string \<Rightarrow> Record option) \<Rightarrow> walk_reason option" where
  "checkWidens DigestOf now rc g resolve =
     (if g_Widens g = noValue then None
      else if \<not> rec_Root rc then Some (LinkWidens (g_Widens g))
      else case resolve (g_Widens g) of
        None \<Rightarrow> Some (WidenedNotFound (g_Widens g))
      | Some widened \<Rightarrow>
          if rec_Digest widened \<noteq> g_Widens g then Some (WidenedWrongDigest (rec_Digest widened))
          else case DigestOf (rec_Text widened) of
            None \<Rightarrow> Some WidenedDigestFailed
          | Some want \<Rightarrow>
              if want \<noteq> rec_Digest widened then Some (WidenedMismatch want)
              else if \<not> rec_Root widened then Some WidenedNotRoot
              else case ParseCanonicalText (rec_Text widened) of
                Inl e \<Rightarrow> Some (WidenedParse e)
              | Inr wg \<Rightarrow>
                  if \<not> now < g_Expires wg then Some WidenedExpired
                  else case find (\<lambda>n. map_of (g_Profiles g) n = None) (profileNames wg) of
                    Some n \<Rightarrow> Some (DropsProfile n)
                  | None \<Rightarrow>
                      if g_Grantee wg \<noteq> g_Grantee g then Some (WidenedGrantee (g_Grantee wg)) else None)"

text \<open>The loop of \<open>Walk\<close>; the depth bound is its termination measure.\<close>

function walk_from ::
  "(string \<Rightarrow> string option) \<Rightarrow> UTC \<Rightarrow> (string \<Rightarrow> Record option) \<Rightarrow> Verifier \<Rightarrow> WalkOptions \<Rightarrow>
   nat \<Rightarrow> string set \<Rightarrow> Record \<Rightarrow> Grant \<Rightarrow> Grant \<Rightarrow> (string \<times> walk_reason) + Grant" where
  "walk_from DigestOf now resolve v opts depth visited rc child effective =
     (if depth > maxChainDepth then Inl (rec_Digest rc, TooDeep)
      else if rec_Digest rc \<in> visited then Inl (rec_Digest rc, Cycle)
      else case verifyRecord DigestOf now rc v of
        Inl e \<Rightarrow> Inl (rec_Digest rc, e)
      | Inr g \<Rightarrow>
          (case checkWidens DigestOf now rc g resolve of
             Some e \<Rightarrow> Inl (rec_Digest rc, e)
           | None \<Rightarrow>
               let effective = (if depth = 1 then g else effective) in
               (case (if depth = 1 then None else Narrows g (rec_Digest rc) child opts) of
                  Some e \<Rightarrow> Inl (rec_Digest rc, NarrowingEdge (g_Nonce child) e)
                | None \<Rightarrow>
                    if rec_Root rc then Inr effective
                    else case resolve (g_Prev g) of
                      None \<Rightarrow> Inl (rec_Digest rc, ParentNotFound (g_Prev g))
                    | Some parent \<Rightarrow>
                        if rec_Digest parent \<noteq> g_Prev g then Inl (rec_Digest rc, WrongParent (rec_Digest parent))
                        else walk_from DigestOf now resolve v opts (depth + 1)
                               (insert (rec_Digest rc) visited) parent g effective)))"
  by auto
termination by (relation "measure (\<lambda>(_, _, _, _, _, depth, _). Suc maxChainDepth - depth)") (auto simp: maxChainDepth_def)

declare walk_from.simps [simp del]

definition empty_Grant :: Grant where
  "empty_Grant =
     \<lparr>g_Grantor = [], g_Grantee = [], g_Session = [], g_Profiles = [], g_Onward = [],
      g_Expires = UTC 1 1 1 0 0 0 0, g_Nonce = [], g_Widens = [], g_Prev = []\<rparr>"

definition Walk ::
  "(string \<Rightarrow> string option) \<Rightarrow> UTC \<Rightarrow> Record \<Rightarrow> (string \<Rightarrow> Record option) \<Rightarrow> Verifier \<Rightarrow> WalkOptions \<Rightarrow>
   (string \<times> walk_reason) + Grant" where
  "Walk DigestOf now start resolve v opts =
     walk_from DigestOf now resolve v opts 1 {} start empty_Grant empty_Grant"

end
