(* ===== verification/GrantCodec.thy ===== *)
theory GrantCodec
  imports ProfileGrant
begin

text \<open>
  The line format of a profile grant: which values survive it, and that the canonical text and the
  strict parser are inverse to each other.
\<close>

section \<open>Values that survive the line format\<close>

definition printable :: "char \<Rightarrow> bool" where
  "printable c \<longleftrightarrow> CHR 0x21 \<le> c \<and> c \<le> CHR 0x7E"

lemma identity_printable: "identity_char c \<Longrightarrow> printable c"
  by (auto simp: identity_char_def printable_def less_eq_char_def)

lemma identity_not: "identity_char c \<Longrightarrow> c \<noteq> CHR ''='' \<and> c \<noteq> CHR ''('' \<and> c \<noteq> CHR '')''"
  by (auto simp: identity_char_def less_eq_char_def)

lemma printable_facts:
  "printable c \<Longrightarrow> c \<noteq> newline \<and> c \<noteq> CHR '' '' \<and> c \<le> CHR 0x7F \<and> \<not> control_char c"
  by (auto simp: printable_def control_char_def less_eq_char_def less_char_def)

text \<open>A field of one line: ASCII without control characters, not padded.\<close>

definition line_char :: "char \<Rightarrow> bool" where
  "line_char c \<longleftrightarrow> printable c \<or> c = CHR '' ''"

lemma line_char_facts: "line_char c \<Longrightarrow> c \<noteq> newline \<and> c \<le> CHR 0x7F \<and> \<not> control_char c"
  using printable_facts by (auto simp: line_char_def control_char_def less_eq_char_def less_char_def)

definition line_value :: "string \<Rightarrow> bool" where
  "line_value v \<longleftrightarrow> v \<noteq> [] \<and> list_all line_char v \<and> printable (hd v) \<and> printable (last v)"

lemma space_edges:
  "e \<in> set space_encodings \<Longrightarrow> e \<noteq> [] \<and> \<not> printable (hd e) \<and> \<not> printable (last e)"
proof -
  have "list_all (\<lambda>e. e \<noteq> [] \<and> \<not> printable (hd e) \<and> \<not> printable (last e)) space_encodings" by code_simp
  then show "e \<in> set space_encodings \<Longrightarrow> ?thesis" by (simp add: list_all_iff)
qed

lemma strip_one_printable:
  assumes "\<forall>e \<in> set encs. e \<noteq> [] \<and> \<not> printable (hd e)" "printable (hd v)"
  shows "strip_one encs v = None"
proof -
  have "\<not> HasPrefix v e" if "e \<in> set encs" for e
    using assms that by (cases e) (auto simp: HasPrefix_iff)
  then show ?thesis by (simp add: strip_one_def filter_empty_conv split: list.splits)
qed

lemma TrimSpace_line_value: "line_value v \<Longrightarrow> TrimSpace v = v"
proof -
  assume v: "line_value v"
  have "strip_one space_encodings v = None"
    using v space_edges by (intro strip_one_printable) (auto simp: line_value_def)
  then have 1: "trim_front space_encodings v = v" by (simp add: trim_front.simps)
  have "strip_one (map rev space_encodings) (rev v) = None"
    using v space_edges by (intro strip_one_printable) (auto simp: line_value_def hd_rev)
  then have "trim_front (map rev space_encodings) (rev v) = rev v" by (simp add: trim_front.simps)
  with 1 show ?thesis by (simp add: TrimSpace_def)
qed

lemma identity_line_value: "checkIdentityValue v \<Longrightarrow> line_value v"
  using identity_printable
  by (auto simp: checkIdentityValue_def line_value_def line_char_def list_all_iff)

lemma line_value_append:
  "line_value v \<Longrightarrow> line_value w \<Longrightarrow> list_all line_char sep \<Longrightarrow> line_value (v @ sep @ w)"
  by (auto simp: line_value_def)

lemma line_value_Join:
  "xs \<noteq> [] \<Longrightarrow> \<forall>x \<in> set xs. line_value x \<Longrightarrow> line_value (Join xs '' '')"
proof (induction xs rule: induct_list012)
  case (3 x y zs)
  then have "line_value (x @ '' '' @ Join (y # zs) '' '')"
    by (intro line_value_append) (auto simp: line_char_def)
  then show ?case by simp
qed auto

declare pad_digits.simps(1) [simp del]

lemma digit_printable: "printable (digit_char k)"
  by (simp add: digit_char_def printable_def less_eq_char_def)

lemma pad_digits_zero_printable: "c \<in> set (pad_digits 0 n) \<Longrightarrow> printable c"
proof (induction n rule: less_induct)
  case (less n)
  show ?case
  proof (cases "n = 0")
    case False
    then have "pad_digits 0 n = pad_digits 0 (n div 10) @ [digit_char (n mod 10)]"
      by (subst pad_digits.simps(1)) simp
    moreover have "n div 10 < n" using False by simp
    ultimately show ?thesis using less digit_printable by fastforce
  qed (use less.prems in \<open>simp add: pad_digits.simps(1)[of 0]\<close>)
qed

lemma pad_digits_printable: "c \<in> set (pad_digits w n) \<Longrightarrow> printable c"
  by (induction w arbitrary: n) (auto simp: pad_digits_zero_printable digit_printable)

lemma FormatUTC_line_value: "line_value (FormatUTC t)"
proof -
  have p: "printable CHR ''-''" "printable CHR ''T''" "printable CHR '':''" "printable CHR ''Z''"
    by (simp_all add: printable_def less_eq_char_def)
  have all: "list_all printable (FormatUTC t)"
    using p pad_digits_printable by (auto simp: FormatUTC_def list_all_iff)
  moreover have ne: "FormatUTC t \<noteq> []" by (simp add: FormatUTC_def)
  ultimately have "printable (hd (FormatUTC t))" "printable (last (FormatUTC t))"
    by (auto simp: list_all_iff)
  with all ne show ?thesis by (auto simp: line_value_def line_char_def list_all_iff)
qed

lemma line_value_chars:
  "line_value v \<Longrightarrow> newline \<notin> set v \<and> ascii v \<and> (\<forall>c \<in> set v. \<not> control_char c)"
  using line_char_facts by (fastforce simp: line_value_def ascii_def list_all_iff)

section \<open>The text of a well-formed grant\<close>

text \<open>A grant the writer accepts: checked values, profiles by increasing name.\<close>

definition wf_grant :: "Grant \<Rightarrow> bool" where
  "wf_grant g \<longleftrightarrow>
     list_all checkIdentityValue [g_Grantor g, g_Grantee g, g_Session g, g_Nonce g, g_Widens g, g_Prev g] \<and>
     g_Profiles g \<noteq> [] \<and> sorted_wrt (<) (map fst (g_Profiles g)) \<and>
     list_all (\<lambda>(n, d). checkIdentityValue n \<and> checkIdentityValue d) (g_Profiles g) \<and>
     (g_Onward g = OnwardNone \<or> g_Onward g = OnwardGrant) \<and> wf_utc (g_Expires g)"

definition canonical_values :: "Grant \<Rightarrow> (string \<times> string) list" where
  "canonical_values g =
     [(''grantor'', g_Grantor g), (''grantee'', g_Grantee g), (''session'', g_Session g),
      (''profiles'', Join (map (\<lambda>n. n @ ''='' @ profile_digest g n) (profileNames g)) '' ''),
      (''rights'', Join (Rights g) '' ''), (''onward'', g_Onward g),
      (''expires'', FormatUTC (g_Expires g)), (''nonce'', g_Nonce g), (''widens'', g_Widens g), (''prev'', g_Prev g)]"

definition value_line :: "string \<times> string \<Rightarrow> string" where
  "value_line kv = fst kv @ '': '' @ snd kv"

lemma CanonicalText_lines:
  "CanonicalText g = Join (header # map value_line (canonical_values g)) [newline] @ [newline]"
  by (simp add: CanonicalText_def canonical_values_def value_line_def text_line_def)

lemma profile_lookup:
  assumes "sorted_wrt (<) (map fst (g_Profiles g))"
  shows "profileNames g = map fst (g_Profiles g)"
    and "map (\<lambda>n. n @ ''='' @ profile_digest g n) (profileNames g) = map (\<lambda>(n, d). n @ ''='' @ d) (g_Profiles g)"
proof -
  have s: "sorted (map fst (g_Profiles g))" "distinct (map fst (g_Profiles g))"
    using assms by (simp_all add: strict_sorted_iff)
  show names: "profileNames g = map fst (g_Profiles g)" using s(1) by (simp add: profileNames_def sorted_sort_id)
  show "map (\<lambda>n. n @ ''='' @ profile_digest g n) (profileNames g) = map (\<lambda>(n, d). n @ ''='' @ d) (g_Profiles g)"
    unfolding names using s(2) by (auto simp: profile_digest_def)
qed

lemma update_fresh: "k \<notin> fst ` set al \<Longrightarrow> AList.update k v al = al @ [(k, v)]"
  by (induction al) auto

lemma parse_fields_profiles:
  assumes "list_all (\<lambda>(n, d). checkIdentityValue n \<and> checkIdentityValue d) ps"
    and "sorted_wrt (<) (map fst ps)" "\<forall>n \<in> fst ` set ps. previous < n" "fst ` set acc \<inter> fst ` set ps = {}"
  shows "parse_fields (map (\<lambda>(n, d). n @ ''='' @ d) ps) previous acc = Inr (acc @ ps)"
  using assms
proof (induction ps arbitrary: previous acc)
  case (Cons p ps)
  obtain n d where p: "p = (n, d)" by (cases p)
  with Cons.prems have ok: "checkIdentityValue n" "checkIdentityValue d" by auto
  then have "CHR ''='' \<notin> set n" using identity_not by (fastforce simp: checkIdentityValue_def list_all_iff)
  then have cut: "Cut (n @ CHR ''='' # d) ''='' = Some (n, d)" by (simp add: Cut_char)
  have upd: "AList.update n d acc = acc @ [(n, d)]"
    using Cons.prems(4) p by (intro update_fresh) auto
  have "parse_fields (map (\<lambda>(n, d). n @ ''='' @ d) ps) n (acc @ [(n, d)]) = Inr ((acc @ [(n, d)]) @ ps)"
    using Cons.prems p by (intro Cons.IH) auto
  with ok cut upd p Cons.prems show ?case by (auto simp: checkIdentityValue_def)
qed simp

lemma canonical_values_keys: "map fst (canonical_values g) = lineKeys"
  by (simp add: canonical_values_def lineKeys_def)

lemma profile_fields:
  assumes "wf_grant g"
  shows "\<forall>f \<in> set (map (\<lambda>(n, d). n @ ''='' @ d) (g_Profiles g)). line_value f \<and> CHR '' '' \<notin> set f"
proof -
  have eq: "line_char CHR ''=''" by (simp add: line_char_def printable_def less_eq_char_def)
  show ?thesis
    using assms identity_line_value line_value_append[of _ _ "''=''"] eq identity_printable printable_facts
    by (fastforce simp: wf_grant_def list_all_iff checkIdentityValue_def)
qed

lemma right_fields:
  assumes "wf_grant g"
  shows "Rights g \<noteq> [] \<and> (\<forall>f \<in> set (Rights g). line_value f)"
proof -
  have pre: "checkIdentityValue rightPrefix" by (simp add: checkIdentityValue_def identity_char_def less_eq_char_def)
  have "sorted_wrt (<) (map fst (g_Profiles g))" using assms by (simp add: wf_grant_def)
  note names = profile_lookup(1)[OF this]
  have "checkIdentityValue (rightPrefix @ n)" if "n \<in> fst ` set (g_Profiles g)" for n
    using assms that pre by (fastforce simp: wf_grant_def list_all_iff checkIdentityValue_def)
  then show ?thesis using assms identity_line_value by (auto simp: Rights_def names wf_grant_def)
qed

lemma canonical_values_ok:
  assumes "wf_grant g"
  shows "\<forall>(k, v) \<in> set (canonical_values g). line_value v \<and>
    (k \<notin> {''profiles'', ''rights'', ''onward'', ''expires''} \<longrightarrow> checkIdentityValue v)"
proof -
  have id: "checkIdentityValue (g_Grantor g)" "checkIdentityValue (g_Grantee g)" "checkIdentityValue (g_Session g)"
    "checkIdentityValue (g_Nonce g)" "checkIdentityValue (g_Widens g)" "checkIdentityValue (g_Prev g)"
    and srt: "sorted_wrt (<) (map fst (g_Profiles g))" and ne: "g_Profiles g \<noteq> []"
    and on: "g_Onward g = OnwardNone \<or> g_Onward g = OnwardGrant"
    using assms by (simp_all add: wf_grant_def)
  have "line_value (Join (map (\<lambda>n. n @ ''='' @ profile_digest g n) (profileNames g)) '' '')"
    unfolding profile_lookup(2)[OF srt] using profile_fields[OF assms] ne by (intro line_value_Join) auto
  moreover have "line_value (Join (Rights g) '' '')" using right_fields[OF assms] by (intro line_value_Join) auto
  moreover have "checkIdentityValue (g_Onward g)"
    using on by (auto simp: checkIdentityValue_def identity_char_def less_eq_char_def)
  ultimately show ?thesis
    using id identity_line_value FormatUTC_line_value by (simp add: canonical_values_def)
qed

lemma parse_body_values:
  assumes "\<forall>(k, v) \<in> set kvs. line_value v \<and>
    (k \<notin> {''profiles'', ''rights'', ''onward'', ''expires''} \<longrightarrow> checkIdentityValue v)"
  shows "parse_body i (map fst kvs) (map value_line kvs) acc = Inr (acc @ kvs)"
  using assms
proof (induction kvs arbitrary: i acc)
  case (Cons kv kvs)
  obtain k v where kv: "kv = (k, v)" by (cases kv)
  with Cons.prems have v: "line_value v" "k \<notin> {''profiles'', ''rights'', ''onward'', ''expires''} \<longrightarrow> checkIdentityValue v"
    by auto
  have "CutPrefix (value_line kv) (k @ '': '') = Some v"
    using CutPrefix_append[of "k @ '': ''" v] kv by (simp add: value_line_def)
  moreover have "v \<noteq> []" "TrimSpace v = v" using v(1) TrimSpace_line_value by (auto simp: line_value_def)
  moreover have "parse_body (i + 1) (map fst kvs) (map value_line kvs) (acc @ [(k, v)]) = Inr ((acc @ [(k, v)]) @ kvs)"
    using Cons.prems by (intro Cons.IH) auto
  ultimately show ?case using v kv by auto
qed simp

lemma canonical_lines_ok:
  assumes "wf_grant g"
  shows "\<forall>l \<in> set (header # map value_line (canonical_values g)).
    newline \<notin> set l \<and> ascii l \<and> (\<forall>c \<in> set l. \<not> control_char c)"
proof -
  have "list_all (\<lambda>l. list_all line_char l) (header # map (\<lambda>k. k @ '': '') lineKeys)"
    by code_simp
  then have keys: "list_all line_char header" "k \<in> set lineKeys \<Longrightarrow> list_all line_char (k @ '': '')" for k
    by (auto simp: list_all_iff)
  have "list_all line_char (value_line kv)" if "kv \<in> set (canonical_values g)" for kv
  proof -
    have "fst kv \<in> set lineKeys" using that canonical_values_keys[of g] by (metis list.set_map imageI)
    from keys(2)[OF this] have "list_all line_char (fst kv @ '': '')" .
    moreover have "line_value (snd kv)" using bspec[OF canonical_values_ok[OF assms] that] by (cases kv) simp
    ultimately show ?thesis by (simp add: value_line_def line_value_def)
  qed
  with keys(1) have "\<forall>l \<in> set (header # map value_line (canonical_values g)). list_all line_char l" by auto
  then show ?thesis using line_char_facts by (fastforce simp: list_all_iff ascii_def)
qed

lemma set_Join: "set (Join xs d) \<subseteq> \<Union> (set ` set xs) \<union> set d"
  by (induction xs rule: induct_list012) auto

lemma value_of_canonical:
  "value_of (canonical_values g) ''grantor'' = g_Grantor g" "value_of (canonical_values g) ''grantee'' = g_Grantee g"
  "value_of (canonical_values g) ''session'' = g_Session g"
  "value_of (canonical_values g) ''profiles'' = Join (map (\<lambda>n. n @ ''='' @ profile_digest g n) (profileNames g)) '' ''"
  "value_of (canonical_values g) ''rights'' = Join (Rights g) '' ''" "value_of (canonical_values g) ''onward'' = g_Onward g"
  "value_of (canonical_values g) ''expires'' = FormatUTC (g_Expires g)" "value_of (canonical_values g) ''nonce'' = g_Nonce g"
  "value_of (canonical_values g) ''widens'' = g_Widens g" "value_of (canonical_values g) ''prev'' = g_Prev g"
  by (simp_all add: value_of_def canonical_values_def)

lemma build_grant_canonical:
  assumes "wf_grant g"
  shows "build_grant (canonical_values g) (CanonicalText g) = Inr g"
proof -
  have srt: "sorted_wrt (<) (map fst (g_Profiles g))" and ne: "g_Profiles g \<noteq> []"
    and chk: "list_all (\<lambda>(n, d). checkIdentityValue n \<and> checkIdentityValue d) (g_Profiles g)"
    and on: "g_Onward g = OnwardNone \<or> g_Onward g = OnwardGrant" and t: "wf_utc (g_Expires g)"
    using assms by (simp_all add: wf_grant_def)
  have "[] < n" if "n \<in> fst ` set (g_Profiles g)" for n
    using chk that by (cases n) (auto simp: list_all_iff checkIdentityValue_def)
  then have "parse_fields (map (\<lambda>(n, d). n @ ''='' @ d) (g_Profiles g)) [] [] = Inr (g_Profiles g)"
    using parse_fields_profiles[OF chk srt, of "[]" "[]"] by simp
  moreover have "split1 CHR '' '' (Join (map (\<lambda>(n, d). n @ ''='' @ d) (g_Profiles g)) '' '') =
      map (\<lambda>(n, d). n @ ''='' @ d) (g_Profiles g)"
    using profile_fields[OF assms] ne by (intro split1_Join) auto
  ultimately have pp: "parseProfiles (value_of (canonical_values g) ''profiles'') = Inr (g_Profiles g)"
    unfolding parseProfiles_def value_of_canonical profile_lookup(2)[OF srt] by simp
  have r: "Rights (g'\<lparr>g_Profiles := g_Profiles g\<rparr>) = Rights g" for g'
    by (simp add: Rights_def profileNames_def)
  have same: "\<lparr>g_Grantor = g_Grantor g, g_Grantee = g_Grantee g, g_Session = g_Session g, g_Profiles = g_Profiles g,
      g_Onward = g_Onward g, g_Expires = g_Expires g, g_Nonce = g_Nonce g, g_Widens = g_Widens g, g_Prev = g_Prev g\<rparr> = g"
    by simp
  have r': "Rights \<lparr>g_Grantor = a, g_Grantee = b, g_Session = c, g_Profiles = g_Profiles g, g_Onward = d,
      g_Expires = e, g_Nonce = f, g_Widens = w, g_Prev = q\<rparr> = Rights g" for a b c d e f w q
    by (simp add: Rights_def profileNames_def)
  show ?thesis
    unfolding build_grant_def value_of_canonical pp[unfolded value_of_canonical] ParseUTC_FormatUTC[OF t]
    using on by (simp add: Let_def r' same)
qed

lemma ParseCanonicalText_CanonicalText:
  assumes a: "wf_grant g \<and> length (CanonicalText g) \<le> maxTextBytes"
  shows "ParseCanonicalText (CanonicalText g) = Inr g"
proof -
  let ?lines = "header # map value_line (canonical_values g)"
  note ok = canonical_lines_ok[OF conjunct1[OF a]]
  have lns: "CanonicalText g = Join ?lines [newline] @ [newline]" by (rule CanonicalText_lines)
  have chars: "\<forall>c \<in> set (CanonicalText g). c \<le> CHR 0x7F \<and> \<not> control_char c"
    unfolding lns using ok set_Join[of ?lines "[newline]"] by (fastforce simp: ascii_def list_all_iff control_char_def less_eq_char_def)
  have "find control_char (CanonicalText g) = None" using chars by (auto simp: find_None_iff)
  moreover have "ValidString (CanonicalText g)"
    using chars by (intro ValidString_ascii) (simp add: ascii_def list_all_iff)
  moreover have "HasSuffix (CanonicalText g) [newline]" unfolding lns by simp
  moreover have "split1 newline (TrimSuffix (CanonicalText g) [newline]) = ?lines"
    unfolding lns TrimSuffix_append using ok by (intro split1_Join) auto
  moreover have "length (map value_line (canonical_values g)) = length lineKeys"
    using canonical_values_keys[of g] by (metis length_map)
  moreover have "parse_body 0 lineKeys (map value_line (canonical_values g)) [] = Inr (canonical_values g)"
    using parse_body_values[OF canonical_values_ok[OF conjunct1[OF a]], of 0 "[]"] by (simp add: canonical_values_keys)
  ultimately show ?thesis
    using a build_grant_canonical by (simp add: ParseCanonicalText_def Let_def)
qed

lemma CanonicalText_ParseCanonicalText: "ParseCanonicalText s = Inr g \<Longrightarrow> CanonicalText g = s"
  by (auto simp: ParseCanonicalText_def build_grant_def Let_def split: if_splits sum.splits option.splits)

text \<open>
  C34. The canonical text is a faithful codec: a well-formed grant whose text fits the limit parses
  back from its own text, and any text that parses is exactly the canonical text of the grant it
  parses to, so no two texts denote one grant and no text is read as another.
\<close>

theorem grant_text_codec:
  "(wf_grant g \<and> length (CanonicalText g) \<le> maxTextBytes \<longrightarrow> ParseCanonicalText (CanonicalText g) = Inr g) \<and>
   (ParseCanonicalText s = Inr g \<longrightarrow> CanonicalText g = s)"
  using ParseCanonicalText_CanonicalText CanonicalText_ParseCanonicalText by blast

text \<open>A root grant of the operator, and the grant a driver passes on from it.\<close>

definition sample_root :: Grant where
  "sample_root =
     \<lparr>g_Grantor = ''operator'', g_Grantee = ''driver'', g_Session = ''repo/driver'',
      g_Profiles = [(''build'', ''d1''), (''test'', ''d2'')], g_Onward = OnwardGrant,
      g_Expires = UTC 7 1 2 3 4 5 0, g_Nonce = ''n1'', g_Widens = noValue, g_Prev = noValue\<rparr>"

definition sample_child :: Grant where
  "sample_child =
     \<lparr>g_Grantor = ''driver'', g_Grantee = ''worker'', g_Session = ''repo/worker'',
      g_Profiles = [(''test'', ''d2'')], g_Onward = OnwardNone,
      g_Expires = UTC 7 1 2 3 4 4 0, g_Nonce = ''n2'', g_Widens = noValue, g_Prev = ''root''\<rparr>"

lemma sample_grants_wf: "wf_grant sample_root" "wf_grant sample_child"
  by code_simp+

lemma sample_grants_short:
  "length (CanonicalText sample_root) \<le> maxTextBytes" "length (CanonicalText sample_child) \<le> maxTextBytes"
proof -
  have f: "FormatUTC (g_Expires sample_root) = ''0007-01-02T03:04:05Z''" "FormatUTC (g_Expires sample_child) = ''0007-01-02T03:04:04Z''"
    by code_simp+
  have n: "profileNames sample_root = [''build'', ''test'']" "profileNames sample_child = [''test'']"
    by code_simp+
  show "length (CanonicalText sample_root) \<le> maxTextBytes" "length (CanonicalText sample_child) \<le> maxTextBytes"
    unfolding CanonicalText_def f n Rights_def
    by (simp_all add: sample_root_def sample_child_def text_line_def maxTextBytes_def profile_digest_def)
qed

theorem grant_text_codec_witness:
  "ParseCanonicalText (CanonicalText sample_child) = Inr sample_child \<and> CanonicalText sample_child = CanonicalText sample_child"
  using grant_text_codec[of sample_child "CanonicalText sample_child"] sample_grants_wf sample_grants_short by blast

end
