(* ===== verification/Transition.thy ===== *)
theory Transition
  imports GrantCodec
begin

text \<open>
  Profile transitions (\<open>src/internal/0/profilegrant/transition.go\<close>): the operator's approval of one
  profile change, its record text and strict parser, the text the card signs with clown's field diff
  in it, and the check of a stored approval at redemption.
\<close>

section \<open>The record\<close>

record Transition =
  tr_Profile :: string
  tr_From :: string
  tr_To :: string
  tr_Expires :: UTC
  tr_Nonce :: string

abbreviation transitionHeader :: string where "transitionHeader \<equiv> ''spinclass profile-transition v1''"

definition transitionKeys :: "string list" where
  "transitionKeys = [''profile'', ''from'', ''to'', ''expires'', ''nonce'']"

definition MaxTransitionDiffLines :: nat where "MaxTransitionDiffLines = 6"

text \<open>The bytes of the ellipsis.\<close>

definition elisionMark :: string where "elisionMark = [CHR 0xE2, CHR 0x80, CHR 0xA6]"

definition transition_text :: "Transition \<Rightarrow> string" where
  "transition_text tr =
     transitionHeader @ [newline] @
     text_line ''profile'' (tr_Profile tr) @
     text_line ''from'' (tr_From tr) @
     text_line ''to'' (tr_To tr) @
     text_line ''expires'' (FormatUTC (tr_Expires tr)) @
     text_line ''nonce'' (tr_Nonce tr)"

datatype transition_error =
    TrTooLong nat | TrNotText | TrWrongHeader string | TrLineCount nat | TrWantLine nat string
  | TrBadIdentity string | TrBadExpires string | TrSameDigest | TrNotCanonical

fun parse_transition_body ::
  "nat \<Rightarrow> string list \<Rightarrow> string list \<Rightarrow> (string \<times> string) list \<Rightarrow> transition_error + (string \<times> string) list" where
  "parse_transition_body i (key # keys) (ln # lns) acc =
     (case CutPrefix ln (key @ '': '') of
        None \<Rightarrow> Inl (TrWantLine (i + 2) key)
      | Some val \<Rightarrow>
          if key \<noteq> ''expires'' \<and> \<not> checkIdentityValue val then Inl (TrBadIdentity key)
          else parse_transition_body (i + 1) keys lns (acc @ [(key, val)]))"
| "parse_transition_body i _ _ acc = Inr acc"

definition ParseTransitionText :: "string \<Rightarrow> transition_error + Transition" where
  "ParseTransitionText s =
     (if length s > maxTextBytes then Inl (TrTooLong (length s))
      else if \<not> ValidString s \<or> \<not> HasSuffix s [newline] then Inl TrNotText
      else
        let lines = split1 newline (TrimSuffix s [newline]) in
        if hd lines \<noteq> transitionHeader then Inl (TrWrongHeader (hd lines))
        else if length lines - 1 \<noteq> length transitionKeys then Inl (TrLineCount (length lines - 1))
        else case parse_transition_body 0 transitionKeys (tl lines) [] of
          Inl e \<Rightarrow> Inl e
        | Inr vals \<Rightarrow>
            (case ParseUTC (value_of vals ''expires'') of
               None \<Rightarrow> Inl (TrBadExpires (value_of vals ''expires''))
             | Some t \<Rightarrow>
                 let tr = \<lparr>tr_Profile = value_of vals ''profile'', tr_From = value_of vals ''from'',
                           tr_To = value_of vals ''to'', tr_Expires = t, tr_Nonce = value_of vals ''nonce''\<rparr>
                 in if tr_From tr = tr_To tr then Inl TrSameDigest
                    else if transition_text tr \<noteq> s then Inl TrNotCanonical
                    else Inr tr))"

definition Covers :: "Transition \<Rightarrow> string \<Rightarrow> string \<Rightarrow> string \<Rightarrow> bool" where
  "Covers tr profile fr t \<longleftrightarrow> tr_Profile tr = profile \<and> tr_From tr = fr \<and> tr_To tr = t"

section \<open>The text the card signs\<close>

text \<open>One rune of a diff line: printable ASCII or the elision mark.\<close>

definition diff_rune :: "string \<Rightarrow> bool" where
  "diff_rune r \<longleftrightarrow> (\<exists>c \<in> set r. r = [c] \<and> CHR 0x20 \<le> c \<and> c \<le> CHR 0x7E) \<or> r = elisionMark"

definition checkDiffLine :: "string \<Rightarrow> bool" where
  "checkDiffLine ln \<longleftrightarrow> ln \<noteq> [] \<and> RuneCount ln \<le> actWrapColumns \<and> list_all diff_rune (runes ln)"

datatype transition_act_error =
    TaRecord transition_error | TaField | TaDiffLines nat | TaDiffLine string | TaBudget act_error

definition transition_act_body :: "Transition \<Rightarrow> string \<Rightarrow> string list \<Rightarrow> string" where
  "transition_act_body tr dig diff =
     ''spinclass profile transition (escalation): '' @ tr_Profile tr @ [newline] @
     ''record: '' @ dig @ [newline] @
     ''from: '' @ tr_From tr @ [newline] @
     ''to: '' @ tr_To tr @ [newline] @
     ''redeemable until: '' @ FormatUTC (tr_Expires tr) @ [newline] @
     concat (map (\<lambda>ln. ln @ [newline]) diff) @
     ''Signing this approves the change for every session pinned to '' @ [CHR 0x22] @ ''from'' @ [CHR 0x22] @ ''.'' @ [newline]"

definition TransitionActText :: "Transition \<Rightarrow> string \<Rightarrow> string list \<Rightarrow> transition_act_error + string" where
  "TransitionActText tr dig diff =
     (case ParseTransitionText (transition_text tr) of
        Inl e \<Rightarrow> Inl (TaRecord e)
      | Inr _ \<Rightarrow>
          if \<not> checkIdentityValue dig then Inl TaField
          else if length diff > MaxTransitionDiffLines then Inl (TaDiffLines (length diff))
          else case find (\<lambda>ln. \<not> checkDiffLine ln) diff of
            Some ln \<Rightarrow> Inl (TaDiffLine ln)
          | None \<Rightarrow>
              (case within_budget (transition_act_body tr dig diff) of
                 Inl e \<Rightarrow> Inl (TaBudget e)
               | Inr out \<Rightarrow> Inr out))"

section \<open>Stored approvals\<close>

record TransitionRecord =
  trec_Digest :: string
  trec_Text :: string
  trec_Diff :: "string list"
  trec_Sig :: string

datatype redeem_error =
    ReDigestFailed | ReDigestMismatch string | ReParse transition_error | ReClosed | ReUnsigned
  | ReAct transition_act_error | ReSignature

definition CheckTransitionRecord :: "(string \<Rightarrow> string option) \<Rightarrow> TransitionRecord \<Rightarrow> redeem_error + Transition" where
  "CheckTransitionRecord DigestOf rc =
     (case DigestOf (trec_Text rc) of
        None \<Rightarrow> Inl ReDigestFailed
      | Some want \<Rightarrow>
          if trec_Digest rc \<noteq> want then Inl (ReDigestMismatch want)
          else case ParseTransitionText (trec_Text rc) of Inl e \<Rightarrow> Inl (ReParse e) | Inr tr \<Rightarrow> Inr tr)"

definition VerifyTransition ::
  "(string \<Rightarrow> string option) \<Rightarrow> UTC \<Rightarrow> TransitionRecord \<Rightarrow> (string \<Rightarrow> string \<Rightarrow> bool) \<Rightarrow> redeem_error + Transition" where
  "VerifyTransition DigestOf now rc root =
     (case CheckTransitionRecord DigestOf rc of
        Inl e \<Rightarrow> Inl e
      | Inr tr \<Rightarrow>
          if \<not> now < tr_Expires tr then Inl ReClosed
          else if length (trec_Sig rc) = 0 then Inl ReUnsigned
          else case TransitionActText tr (trec_Digest rc) (trec_Diff rc) of
            Inl e \<Rightarrow> Inl (ReAct e)
          | Inr act \<Rightarrow> if root act (trec_Sig rc) then Inr tr else Inl ReSignature)"

end
