(* ===== verification/GrantWalk.thy ===== *)
theory GrantWalk
  imports GrantCodec
begin

text \<open>
  The walk of \<open>grant.go\<close> against its specification: the loop accepts exactly the presented records
  that head a chain of verified, pairwise narrowing records ending in a card-signed root, and what
  an accepted record authorises is bounded by that root.
\<close>

section \<open>The chains a walk may accept\<close>

text \<open>One record of the chain: it verifies, and a widening it declares is of a live root.\<close>

definition sound_record ::
  "(string \<Rightarrow> string option) \<Rightarrow> UTC \<Rightarrow> (string \<Rightarrow> Record option) \<Rightarrow> Verifier \<Rightarrow> Record \<times> Grant \<Rightarrow> bool" where
  "sound_record DigestOf now resolve v rg \<longleftrightarrow>
     verifyRecord DigestOf now (fst rg) v = Inr (snd rg) \<and> checkWidens DigestOf now (fst rg) (snd rg) resolve = None"

text \<open>A child record and the record its \<open>prev\<close> resolves to.\<close>

definition sound_edge :: "(string \<Rightarrow> Record option) \<Rightarrow> WalkOptions \<Rightarrow> Record \<times> Grant \<Rightarrow> Record \<times> Grant \<Rightarrow> bool" where
  "sound_edge resolve opts c p \<longleftrightarrow>
     \<not> rec_Root (fst c) \<and> resolve (g_Prev (snd c)) = Some (fst p) \<and> rec_Digest (fst p) = g_Prev (snd c) \<and>
     Narrows (snd p) (rec_Digest (fst p)) (snd c) opts = None"

fun sound_chain ::
  "(string \<Rightarrow> string option) \<Rightarrow> UTC \<Rightarrow> (string \<Rightarrow> Record option) \<Rightarrow> Verifier \<Rightarrow> WalkOptions \<Rightarrow> (Record \<times> Grant) list \<Rightarrow> bool" where
  "sound_chain DigestOf now resolve v opts [] = False"
| "sound_chain DigestOf now resolve v opts [rg] = (sound_record DigestOf now resolve v rg \<and> rec_Root (fst rg))"
| "sound_chain DigestOf now resolve v opts (c # p # xs) =
     (sound_record DigestOf now resolve v c \<and> sound_edge resolve opts c p \<and>
      sound_chain DigestOf now resolve v opts (p # xs))"

abbreviation chain_digests :: "(Record \<times> Grant) list \<Rightarrow> string list" where
  "chain_digests xs \<equiv> map (\<lambda>rg. rec_Digest (fst rg)) xs"

lemma sound_chain_Cons:
  "sound_chain D now resolve v opts (c # xs) \<longleftrightarrow>
   sound_record D now resolve v c \<and>
   (case xs of [] \<Rightarrow> rec_Root (fst c)
    | p # ps \<Rightarrow> sound_edge resolve opts c p \<and> sound_chain D now resolve v opts xs)"
  by (cases xs) auto

text \<open>The invariant of the loop at depth \<open>depth\<close>: the rest of the chain fits, and continues the child.\<close>

definition walk_rest ::
  "(string \<Rightarrow> string option) \<Rightarrow> UTC \<Rightarrow> (string \<Rightarrow> Record option) \<Rightarrow> Verifier \<Rightarrow> WalkOptions \<Rightarrow> nat \<Rightarrow> string set \<Rightarrow>
   Record \<Rightarrow> Grant \<Rightarrow> (Record \<times> Grant) list \<Rightarrow> bool" where
  "walk_rest D now resolve v opts depth visited rc child xs \<longleftrightarrow>
     sound_chain D now resolve v opts xs \<and> fst (hd xs) = rc \<and> length xs + depth \<le> Suc maxChainDepth \<and>
     distinct (chain_digests xs) \<and> set (chain_digests xs) \<inter> visited = {} \<and>
     (depth \<noteq> 1 \<longrightarrow> Narrows (snd (hd xs)) (rec_Digest rc) child opts = None)"

lemma walk_rest_Cons:
  "walk_rest D now resolve v opts depth visited rc child (c # xs) \<longleftrightarrow>
     fst c = rc \<and> sound_record D now resolve v c \<and> depth \<le> maxChainDepth \<and> rec_Digest rc \<notin> visited \<and>
     (depth \<noteq> 1 \<longrightarrow> Narrows (snd c) (rec_Digest rc) child opts = None) \<and>
     (case xs of [] \<Rightarrow> rec_Root rc
      | p # _ \<Rightarrow> \<not> rec_Root rc \<and> resolve (g_Prev (snd c)) = Some (fst p) \<and> rec_Digest (fst p) = g_Prev (snd c) \<and>
          length xs + depth \<le> maxChainDepth \<and> rec_Digest rc \<notin> set (chain_digests xs) \<and>
          Narrows (snd p) (rec_Digest (fst p)) (snd c) opts = None \<and> sound_chain D now resolve v opts xs \<and>
          distinct (chain_digests xs) \<and> set (chain_digests xs) \<inter> visited = {})"
  by (cases xs) (auto simp: walk_rest_def sound_edge_def)

lemma walk_rest_nonempty: "walk_rest D now resolve v opts depth visited rc child xs \<Longrightarrow> xs \<noteq> []"
  by (auto simp: walk_rest_def)

lemma walk_rest_hd:
  "walk_rest D now resolve v opts depth visited rc child xs \<Longrightarrow> \<exists>g ys. xs = (rc, g) # ys"
  using walk_rest_nonempty[of D now resolve v opts depth visited rc child xs]
  by (cases xs; cases "hd xs") (auto simp: walk_rest_Cons)

lemma walk_rest_step:
  assumes "1 \<le> depth"
  shows "walk_rest D now resolve v opts depth visited rc child ((rc, g) # xs) \<longleftrightarrow>
    sound_record D now resolve v (rc, g) \<and> depth \<le> maxChainDepth \<and> rec_Digest rc \<notin> visited \<and>
    (depth \<noteq> 1 \<longrightarrow> Narrows g (rec_Digest rc) child opts = None) \<and>
    (if rec_Root rc then xs = []
     else \<exists>parent. resolve (g_Prev g) = Some parent \<and> rec_Digest parent = g_Prev g \<and>
       walk_rest D now resolve v opts (depth + 1) (insert (rec_Digest rc) visited) parent g xs)"
  using assms unfolding walk_rest_Cons
  by (cases xs) (auto simp: walk_rest_def)

lemma walk_from_iff:
  assumes "1 \<le> depth"
  shows "walk_from D now resolve v opts depth visited rc child effective = Inr g \<longleftrightarrow>
    (\<exists>g0 xs. walk_rest D now resolve v opts depth visited rc child ((rc, g0) # xs) \<and> g = (if depth = 1 then g0 else effective))"
  using assms
proof (induction D now resolve v opts depth visited rc child effective rule: walk_from.induct)
  case (1 D now resolve v opts depth visited rc child effective)
  show ?case
  proof (cases "depth \<le> maxChainDepth \<and> rec_Digest rc \<notin> visited \<and> (\<exists>g0. sound_record D now resolve v (rc, g0))")
    case False
    then show ?thesis
      by (subst walk_from.simps) (auto simp: walk_rest_Cons sound_record_def split: sum.splits option.splits)
  next
    case True
    then obtain g0 where g0: "verifyRecord D now rc v = Inr g0" "checkWidens D now rc g0 resolve = None"
      and d: "\<not> depth > maxChainDepth" and n: "rec_Digest rc \<notin> visited"
      by (auto simp: sound_record_def)
    then have only: "sound_record D now resolve v (rc, g') \<longleftrightarrow> g' = g0" for g'
      by (auto simp: sound_record_def)
    let ?eff = "if depth = 1 then g0 else effective"
    have IH: "walk_from D now resolve v opts (depth + 1) (insert (rec_Digest rc) visited) parent g0 ?eff = Inr g \<longleftrightarrow>
        (\<exists>g1 ys. walk_rest D now resolve v opts (depth + 1) (insert (rec_Digest rc) visited) parent g0 ((parent, g1) # ys) \<and> g = ?eff)"
      if "depth = 1 \<or> Narrows g0 (rec_Digest rc) child opts = None" "\<not> rec_Root rc"
        "resolve (g_Prev g0) = Some parent" "rec_Digest parent = g_Prev g0" for parent
      using "1.IH"[OF d n g0(1) g0(2) refl _ that(2,3)] that "1.prems" by auto
    have step: "walk_from D now resolve v opts depth visited rc child effective =
        (case (if depth = 1 then None else Narrows g0 (rec_Digest rc) child opts) of
           Some e \<Rightarrow> Inl (rec_Digest rc, NarrowingEdge (g_Nonce child) e)
         | None \<Rightarrow>
             if rec_Root rc then Inr ?eff
             else case resolve (g_Prev g0) of
               None \<Rightarrow> Inl (rec_Digest rc, ParentNotFound (g_Prev g0))
             | Some parent \<Rightarrow>
                 if rec_Digest parent \<noteq> g_Prev g0 then Inl (rec_Digest rc, WrongParent (rec_Digest parent))
                 else walk_from D now resolve v opts (depth + 1) (insert (rec_Digest rc) visited) parent g0 ?eff)"
      by (subst walk_from.simps) (simp only: d n g0 if_False Let_def sum.case option.case)
    note spec = walk_rest_step[OF "1.prems"] only
    show ?thesis
    proof (cases "(depth = 1 \<or> Narrows g0 (rec_Digest rc) child opts = None) \<and> \<not> rec_Root rc")
      case False
      then show ?thesis using d n unfolding step spec by (auto split: option.splits)
    next
      case nar: True
      then have nar': "(if depth = 1 then None else Narrows g0 (rec_Digest rc) child opts) = None" by auto
      show ?thesis
      proof (cases "\<exists>parent. resolve (g_Prev g0) = Some parent \<and> rec_Digest parent = g_Prev g0")
        case False
        then show ?thesis using nar unfolding step spec nar' by (auto split: option.splits)
      next
        case True
        then obtain parent where par: "resolve (g_Prev g0) = Some parent" "rec_Digest parent = g_Prev g0" by blast
        have l: "walk_from D now resolve v opts depth visited rc child effective =
            walk_from D now resolve v opts (depth + 1) (insert (rec_Digest rc) visited) parent g0 ?eff"
          unfolding step nar' using nar par by simp
        have r: "walk_rest D now resolve v opts depth visited rc child ((rc, g') # xs) \<longleftrightarrow>
            g' = g0 \<and> walk_rest D now resolve v opts (depth + 1) (insert (rec_Digest rc) visited) parent g0 xs" for g' xs
          unfolding spec using nar par d n by auto
        show ?thesis
          unfolding l r IH[OF conjunct1[OF nar] conjunct2[OF nar] par] using walk_rest_hd by blast
      qed
    qed
  qed
qed

lemma Walk_chain:
  "Walk D now start resolve v opts = Inr g \<longleftrightarrow>
   (\<exists>xs. sound_chain D now resolve v opts ((start, g) # xs) \<and> length ((start, g) # xs) \<le> maxChainDepth \<and>
      distinct (chain_digests ((start, g) # xs)))"
  unfolding Walk_def using walk_from_iff[of 1 D now resolve v opts "{}" start empty_Grant empty_Grant g]
  by (auto simp: walk_rest_def)

text \<open>
  C14. The walk implements its specification: it accepts a presented record with effective grant
  \<open>g\<close> exactly when that record heads a chain of at most 32 records with distinct digests in which
  every record passes its own check and any widening it declares, every record is found at the
  digest its child names as \<open>prev\<close> and is narrowed by that child, and the last record, and no other,
  is a root; \<open>g\<close> is then the grant of the presented record itself.
\<close>

theorem Walk_accepts_sound_chains:
  "Walk DigestOf now start resolve v opts = Inr g \<longleftrightarrow>
   (\<exists>xs. sound_chain DigestOf now resolve v opts ((start, g) # xs) \<and>
      length ((start, g) # xs) \<le> maxChainDepth \<and> distinct (chain_digests ((start, g) # xs)))"
  by (rule Walk_chain)

section \<open>What an accepted record authorises\<close>

lemma verifyRecord_facts:
  assumes "verifyRecord D now rc v = Inr g"
  shows "D (rec_Text rc) = Some (rec_Digest rc)" "ParseCanonicalText (rec_Text rc) = Inr g" "now < g_Expires g"
    "rec_Root rc \<Longrightarrow> \<exists>act. ActText g (rec_Digest rc) = Inr act \<and> v_Root v act (rec_Sig rc)"
    "\<not> rec_Root rc \<Longrightarrow> v_Link v g (rec_Sig rc)"
  using assms by (auto simp: verifyRecord_def split: option.splits sum.splits if_splits)

text \<open>
  Stacking: a profile at a digest reaches, through the links of its base chain, none of which widens,
  the name and digest of one of its bases.
\<close>

definition stacks_on :: "WalkOptions \<Rightarrow> string \<times> string \<Rightarrow> string \<times> string \<Rightarrow> bool" where
  "stacks_on opts a b \<longleftrightarrow>
     (\<exists>baseChain pre link post. wo_BaseChain opts = Some baseChain \<and>
        baseChain (fst a) (snd a) = Inr (pre @ link # post) \<and> length (pre @ link # post) \<le> maxBaseDepth \<and>
        (\<forall>l \<in> set (pre @ [link]). bl_Widenings l = []) \<and> b = (bl_Name link, bl_Digest link))"

text \<open>Every profile of one grant is a profile of the other, or stacks on one, hop by hop.\<close>

definition bounded_by :: "WalkOptions \<Rightarrow> Grant \<Rightarrow> Grant \<Rightarrow> bool" where
  "bounded_by opts g r \<longleftrightarrow>
     (\<forall>n d. map_of (g_Profiles g) n = Some d \<longrightarrow>
        (\<exists>b. (stacks_on opts)\<^sup>*\<^sup>* (n, d) b \<and> map_of (g_Profiles r) (fst b) = Some (snd b)))"

lemma bounded_by_refl [simp]: "bounded_by opts g g"
  unfolding bounded_by_def by (metis fst_conv rtranclp.rtrancl_refl snd_conv)

lemma bounded_by_trans: "bounded_by opts g h \<Longrightarrow> bounded_by opts h r \<Longrightarrow> bounded_by opts g r"
  unfolding bounded_by_def by (metis prod.collapse rtranclp_trans)

lemma bounded_by_held: "wo_BaseChain opts = None \<Longrightarrow> bounded_by opts g r \<longleftrightarrow> map_of (g_Profiles g) \<subseteq>\<^sub>m map_of (g_Profiles r)"
proof -
  assume "wo_BaseChain opts = None"
  then have "(stacks_on opts)\<^sup>*\<^sup>* a b \<longleftrightarrow> a = b" for a b
    by (auto simp: stacks_on_def elim: converse_rtranclpE)
  then show ?thesis by (auto simp: bounded_by_def map_le_def domI) (metis domI)
qed

lemma reach_chain_held:
  "reach_chain parent name chain names = None \<Longrightarrow>
   \<exists>pre link post. chain = pre @ link # post \<and> (\<forall>l \<in> set (pre @ [link]). bl_Widenings l = []) \<and>
     map_of (g_Profiles parent) (bl_Name link) = Some (bl_Digest link)"
proof (induction parent name chain names rule: reach_chain.induct)
  case (2 parent name link chain names)
  show ?case
  proof (cases "map_of (g_Profiles parent) (bl_Name link)")
    case None
    with 2 obtain pre l post where "chain = pre @ l # post" "\<forall>l \<in> set (pre @ [l]). bl_Widenings l = []"
      "map_of (g_Profiles parent) (bl_Name l) = Some (bl_Digest l)" "bl_Widenings link = []"
      by (auto split: if_splits)
    then show ?thesis by (intro exI[of _ "link # pre"] exI[of _ l] exI[of _ post]) auto
  next
    case (Some d)
    with 2(2) show ?thesis by (intro exI[of _ "[]"] exI[of _ link] exI[of _ chain]) (auto split: if_splits)
  qed
qed simp

lemma reaches_stacks:
  assumes "reachesHeldBase opts parent name dig = None"
  shows "\<exists>b. stacks_on opts (name, dig) b \<and> map_of (g_Profiles parent) (fst b) = Some (snd b)"
proof -
  from assms obtain bc chain where bc: "wo_BaseChain opts = Some bc" "bc name dig = Inr chain"
    "length chain \<le> maxBaseDepth" "reach_chain parent name chain [] = None"
    by (auto simp: reachesHeldBase_def split: option.splits sum.splits if_splits)
  from reach_chain_held[OF bc(4)] bc(1-3) show ?thesis unfolding stacks_on_def by fastforce
qed

lemma narrow_profiles_held:
  "narrow_profiles opts parent child names = None \<Longrightarrow> n \<in> set names \<Longrightarrow>
   \<exists>b. (stacks_on opts)\<^sup>*\<^sup>* (n, profile_digest child n) b \<and> map_of (g_Profiles parent) (fst b) = Some (snd b)"
proof (induction opts parent child names rule: narrow_profiles.induct)
  case (2 opts parent child name names)
  show ?case
  proof (cases "n = name")
    case True
    show ?thesis
    proof (cases "map_of (g_Profiles parent) name")
      case None
      with 2(3) have "reachesHeldBase opts parent name (profile_digest child name) = None" by (auto split: option.splits)
      from reaches_stacks[OF this] True show ?thesis by blast
    next
      case (Some d)
      with 2(3) True show ?thesis by (intro exI[of _ "(name, d)"]) (auto split: if_splits)
    qed
  next
    case False
    with 2(4) have n: "n \<in> set names" by simp
    show ?thesis
    proof (cases "map_of (g_Profiles parent) name")
      case None
      with 2(3) have "reachesHeldBase opts parent name (profile_digest child name) = None"
        "narrow_profiles opts parent child names = None" by (auto split: option.splits)
      with 2(1) None n show ?thesis by blast
    next
      case (Some d)
      with 2(3) have "\<not> profile_digest child name \<noteq> d" "narrow_profiles opts parent child names = None"
        by (auto split: if_splits)
      with 2(2) Some n show ?thesis by blast
    qed
  qed
qed simp

lemma Narrows_facts:
  assumes "Narrows p d c opts = None"
  shows "bounded_by opts c p" "g_Expires c \<le> g_Expires p" "g_Onward p = OnwardGrant"
proof -
  from assms have all: "narrow_profiles opts p c (profileNames c) = None"
    and "\<not> g_Expires p < g_Expires c" and on: "g_Onward p = OnwardGrant"
    by (auto simp: Narrows_def split: option.splits if_splits)
  then show "g_Expires c \<le> g_Expires p" "g_Onward p = OnwardGrant" by auto
  show "bounded_by opts c p" unfolding bounded_by_def
  proof (intro allI impI)
    fix n dig assume n: "map_of (g_Profiles c) n = Some dig"
    then have "n \<in> set (profileNames c)" by (force simp: profileNames_def dest: map_of_SomeD)
    from narrow_profiles_held[OF all this] n
    show "\<exists>b. (stacks_on opts)\<^sup>*\<^sup>* (n, dig) b \<and> map_of (g_Profiles p) (fst b) = Some (snd b)"
      by (simp add: profile_digest_def)
  qed
qed

lemma sound_chain_root:
  assumes "sound_chain D now resolve v opts ((rc, g) # xs)"
  shows "\<exists>root r. rec_Root root \<and> verifyRecord D now root v = Inr r \<and>
    bounded_by opts g r \<and> g_Expires g \<le> g_Expires r \<and>
    (if xs = [] then root = rc else g_Onward r = OnwardGrant)"
  using assms
proof (induction xs arbitrary: rc g)
  case Nil
  then show ?case by (auto simp: sound_record_def)
next
  case (Cons p xs)
  obtain prc pg where p: "p = (prc, pg)" by (cases p)
  with Cons.prems have edge: "Narrows pg (rec_Digest prc) g opts = None"
    and rest: "sound_chain D now resolve v opts ((prc, pg) # xs)"
    by (auto simp: sound_edge_def)
  note up = Narrows_facts[OF edge]
  from Cons.IH[OF rest] obtain root r where r: "rec_Root root" "verifyRecord D now root v = Inr r"
    "bounded_by opts pg r" "g_Expires pg \<le> g_Expires r"
    "if xs = [] then root = prc else g_Onward r = OnwardGrant" by blast
  have "verifyRecord D now prc v = Inr pg" using rest by (auto simp: sound_chain_Cons sound_record_def)
  with r(2,5) up(3) have "g_Onward r = OnwardGrant" by (auto split: if_splits)
  with r up bounded_by_trans[OF up(1) r(3)] show ?case by (intro exI[of _ root] exI[of _ r]) auto
qed

text \<open>A root record whose act the card signed, and that bounds the grant.\<close>

definition card_root_bounds ::
  "(string \<Rightarrow> string option) \<Rightarrow> UTC \<Rightarrow> (string \<Rightarrow> string \<Rightarrow> bool) \<Rightarrow> WalkOptions \<Rightarrow> Grant \<Rightarrow> Record \<Rightarrow> Grant \<Rightarrow> bool" where
  "card_root_bounds DigestOf now signed opts g root r \<longleftrightarrow>
     rec_Root root \<and> DigestOf (rec_Text root) = Some (rec_Digest root) \<and> ParseCanonicalText (rec_Text root) = Inr r \<and>
     (\<exists>act. ActText r (rec_Digest root) = Inr act \<and> signed act (rec_Sig root)) \<and>
     bounded_by opts g r \<and> g_Expires g \<le> g_Expires r \<and> now < g_Expires r"

lemma Walk_root:
  assumes "Walk DigestOf now start resolve v opts = Inr g"
  shows "ParseCanonicalText (rec_Text start) = Inr g" "DigestOf (rec_Text start) = Some (rec_Digest start)" "now < g_Expires g"
    "\<exists>root r. card_root_bounds DigestOf now (v_Root v) opts g root r \<and> (root = start \<or> g_Onward r = OnwardGrant)"
proof -
  from assms obtain xs where chain: "sound_chain DigestOf now resolve v opts ((start, g) # xs)"
    unfolding Walk_chain by blast
  then have "verifyRecord DigestOf now start v = Inr g" by (auto simp: sound_chain_Cons sound_record_def)
  from verifyRecord_facts(1-3)[OF this]
  show "ParseCanonicalText (rec_Text start) = Inr g" "DigestOf (rec_Text start) = Some (rec_Digest start)" "now < g_Expires g"
    by blast+
  from sound_chain_root[OF chain] obtain root r
    where root: "rec_Root root" "verifyRecord DigestOf now root v = Inr r" "bounded_by opts g r" "g_Expires g \<le> g_Expires r"
      "if xs = [] then root = start else g_Onward r = OnwardGrant" by blast
  from verifyRecord_facts[OF root(2)] root
  show "\<exists>root r. card_root_bounds DigestOf now (v_Root v) opts g root r \<and> (root = start \<or> g_Onward r = OnwardGrant)"
    unfolding card_root_bounds_def by (intro exI[of _ root] exI[of _ r]) (auto split: if_splits)
qed


text \<open>The operator's grant and the one the driver passes on from it, with the walk that accepts them.\<close>

definition sample_digest :: "string \<Rightarrow> string option" where
  "sample_digest t = Some (if t = CanonicalText sample_root then ''root'' else ''child'')"

definition root_record :: Record where
  "root_record = \<lparr>rec_Digest = ''root'', rec_Text = CanonicalText sample_root, rec_Sig = ''sig'', rec_Root = True\<rparr>"

definition child_record :: Record where
  "child_record = \<lparr>rec_Digest = ''child'', rec_Text = CanonicalText sample_child, rec_Sig = [], rec_Root = False\<rparr>"

definition sample_resolve :: "string \<Rightarrow> Record option" where
  "sample_resolve d = (if d = ''root'' then Some root_record else None)"

definition sample_verifier :: Verifier where
  "sample_verifier = \<lparr>v_Root = (\<lambda>act sig. sig = ''sig''), v_Link = LocalLinkVerifier\<rparr>"

definition no_options :: WalkOptions where
  "no_options = \<lparr>wo_SessionOfPrincipal = None, wo_BaseChain = None\<rparr>"

lemma sample_act: "ActText sample_root ''root'' \<noteq> Inl e"
proof -
  have "\<not> isl (ActText sample_root ''root'')" by code_simp
  then show ?thesis by auto
qed

lemma sample_root_record: "sound_record sample_digest (UTC 7 1 1 0 0 0 0) sample_resolve sample_verifier (root_record, sample_root)"
proof -
  have "ParseCanonicalText (CanonicalText sample_root) = Inr sample_root"
    using sample_grants_wf sample_grants_short by (intro ParseCanonicalText_CanonicalText) simp
  moreover have "UTC 7 1 1 0 0 0 0 < g_Expires sample_root" by code_simp
  moreover have "g_Prev sample_root = noValue" "g_Widens sample_root = noValue" by (simp_all add: sample_root_def)
  ultimately show ?thesis
    using sample_act
    by (simp add: sound_record_def verifyRecord_def checkWidens_def sample_digest_def root_record_def sample_verifier_def
        split: sum.splits)
qed

lemma sample_child_record: "sound_record sample_digest (UTC 7 1 1 0 0 0 0) sample_resolve sample_verifier (child_record, sample_child)"
proof -
  have parse: "ParseCanonicalText (CanonicalText sample_child) = Inr sample_child"
    using sample_grants_wf sample_grants_short by (intro ParseCanonicalText_CanonicalText) simp
  moreover have "ParseCanonicalText (CanonicalText sample_root) = Inr sample_root"
    using sample_grants_wf sample_grants_short by (intro ParseCanonicalText_CanonicalText) simp
  moreover have "sample_child \<noteq> sample_root" by (simp add: sample_child_def sample_root_def)
  ultimately have "CanonicalText sample_child \<noteq> CanonicalText sample_root" by auto
  moreover have "UTC 7 1 1 0 0 0 0 < g_Expires sample_child" by code_simp
  moreover have "g_Prev sample_child \<noteq> noValue" "g_Widens sample_child = noValue" by (simp_all add: sample_child_def)
  ultimately show ?thesis
    using parse
    by (simp add: sound_record_def verifyRecord_def checkWidens_def sample_digest_def child_record_def sample_verifier_def
        LocalLinkVerifier_def)
qed

lemma sample_walk:
  "Walk sample_digest (UTC 7 1 1 0 0 0 0) child_record sample_resolve sample_verifier no_options = Inr sample_child"
proof -
  have "Narrows sample_root ''root'' sample_child no_options = None" by code_simp
  moreover have "g_Prev sample_child = ''root''" by (simp add: sample_child_def)
  moreover have "rec_Digest root_record = ''root''" "rec_Root root_record" "\<not> rec_Root child_record" "rec_Digest child_record = ''child''"
    by (simp_all add: root_record_def child_record_def)
  ultimately show ?thesis
    unfolding Walk_chain
    using sample_root_record sample_child_record
    by (intro exI[of _ "[(root_record, sample_root)]"]) (simp add: sound_edge_def sample_resolve_def maxChainDepth_def)
qed


end
