(* ===== verification/ActTexts.thy ===== *)
theory ActTexts
  imports Transition GrantWalk
begin

text \<open>
  What the operator's signature covers: the text built from a grant or from a transition determines
  every field of it the operator reads, so a signature over one text serves no other record.
\<close>

section \<open>Text as a list of lines\<close>

definition unlines :: "string list \<Rightarrow> string" where
  "unlines ls = concat (map (\<lambda>l. l @ [newline]) ls)"

lemma unlines_simps [simp]:
  "unlines [] = []" "unlines (l # ls) = l @ newline # unlines ls" "unlines (ks @ ls) = unlines ks @ unlines ls"
  by (simp_all add: unlines_def)

lemma append_sep_eq: "x \<notin> set a \<Longrightarrow> x \<notin> set b \<Longrightarrow> a @ x # s = b @ x # t \<longleftrightarrow> a = b \<and> s = t"
proof (induction a arbitrary: b)
  case Nil then show ?case by (cases b) auto
next
  case (Cons y a) then show ?case by (cases b) auto
qed

lemma unlines_inject:
  "\<forall>l \<in> set ks \<union> set ls. newline \<notin> set l \<Longrightarrow> unlines ks = unlines ls \<longleftrightarrow> ks = ls"
proof (induction ks arbitrary: ls)
  case Nil then show ?case by (cases ls) auto
next
  case (Cons k ks)
  then show ?case by (cases ls) (auto simp: append_sep_eq)
qed

lemma map_eq_transfer:
  "map f xs = map g ys \<Longrightarrow> (\<And>x y. x \<in> set xs \<Longrightarrow> y \<in> set ys \<Longrightarrow> f x = g y \<Longrightarrow> h x = k y) \<Longrightarrow> map h xs = map k ys"
proof (induction xs arbitrary: ys)
  case (Cons x xs) then show ?case by (cases ys) auto
qed simp

lemma identity_chars: "checkIdentityValue v \<Longrightarrow> newline \<notin> set v \<and> CHR '' '' \<notin> set v"
  using identity_printable printable_facts by (fastforce simp: checkIdentityValue_def list_all_iff)

lemma FormatUTC_no_newline: "newline \<notin> set (FormatUTC t)"
  using FormatUTC_line_value line_value_chars by blast

section \<open>Grants\<close>

definition form_words :: "Grant \<Rightarrow> string" where
  "form_words g = (if g_Widens g \<noteq> noValue then ''widening of '' @ g_Widens g else ''initial grant'')"

definition session_words :: "Grant \<Rightarrow> string" where
  "session_words g = (if g_Session g \<noteq> ''-'' then ''session '' @ g_Session g else ''no session'')"

definition act_lines :: "Grant \<Rightarrow> string \<Rightarrow> string list" where
  "act_lines g dig =
     [''spinclass profile grant (escalation): '' @ form_words g,
      ''record: '' @ dig, ''from: '' @ g_Grantor g,
      ''allow: '' @ g_Grantee g @ '' ('' @ session_words g @ '')'',
      ''to spawn workers with these profiles, each pinned to its content digest:''] @
     map (\<lambda>n. ''  '' @ n @ '' = '' @ profile_digest g n) (profileNames g) @
     [''may pass these on: '' @ (if g_Onward g = OnwardGrant then ''yes'' else ''no''),
      ''until: '' @ FormatUTC (g_Expires g),
      ''Signing this is an operator grant of these rights, bounded as stated above.'']"

lemma act_body_lines: "act_body g dig = unlines (act_lines g dig)"
  by (simp add: act_body_def act_lines_def Let_def form_words_def session_words_def) (simp add: unlines_def comp_def)

lemma validateForAct_facts:
  assumes "validateForAct g dig = None"
  shows "checkIdentityValue dig" "checkIdentityValue (g_Grantor g)" "checkIdentityValue (g_Grantee g)"
    "checkIdentityValue (g_Session g)" "checkIdentityValue (g_Widens g)"
    "n \<in> set (profileNames g) \<Longrightarrow> checkIdentityValue n \<and> checkIdentityValue (profile_digest g n)"
    "g_Onward g = OnwardNone \<or> g_Onward g = OnwardGrant"
  using assms by (auto simp: validateForAct_def act_checks_def find_None_iff split: if_splits)

lemma ActText_facts:
  "ActText g dig = Inr t \<Longrightarrow> validateForAct g dig = None \<and> t = act_body g dig"
  by (auto simp: ActText_def within_budget_def split: option.splits if_splits)

lemma act_lines_no_newline:
  assumes "validateForAct g dig = None"
  shows "\<forall>l \<in> set (act_lines g dig). newline \<notin> set l"
  using validateForAct_facts[OF assms] identity_chars FormatUTC_no_newline
  by (auto simp: act_lines_def form_words_def session_words_def)

lemma act_lines_bind:
  assumes v: "validateForAct g dig = None" "validateForAct g' dig' = None"
    and eq: "act_lines g dig = act_lines g' dig'"
  shows "dig = dig'" "g_Grantor g = g_Grantor g'" "g_Grantee g = g_Grantee g'" "g_Session g = g_Session g'"
    "map (\<lambda>n. (n, profile_digest g n)) (profileNames g) = map (\<lambda>n. (n, profile_digest g' n)) (profileNames g')"
    "g_Onward g = g_Onward g'" "FormatUTC (g_Expires g) = FormatUTC (g_Expires g')" "g_Widens g = g_Widens g'"
proof -
  note f = validateForAct_facts[OF v(1)] and f' = validateForAct_facts[OF v(2)]
  note parts = eq[unfolded act_lines_def append_Cons append_Nil list.inject]
  show "dig = dig'" "g_Grantor g = g_Grantor g'" using parts by simp_all
  have "g_Grantee g @ CHR '' '' # CHR ''('' # session_words g @ '')'' = g_Grantee g' @ CHR '' '' # CHR ''('' # session_words g' @ '')''"
    using parts by simp
  then have "g_Grantee g = g_Grantee g'" and s: "session_words g = session_words g'"
    using identity_chars[OF f(3)] identity_chars[OF f'(3)] by (auto simp: append_sep_eq)
  then show "g_Grantee g = g_Grantee g'" by simp
  from s show "g_Session g = g_Session g'" by (auto simp: session_words_def split: if_splits)
  have "form_words g = form_words g'" using parts by simp
  then show "g_Widens g = g_Widens g'" by (auto simp: form_words_def split: if_splits)
  have tails: "map (\<lambda>n. ''  '' @ n @ '' = '' @ profile_digest g n) (profileNames g) =
      map (\<lambda>n. ''  '' @ n @ '' = '' @ profile_digest g' n) (profileNames g')"
    "(if g_Onward g = OnwardGrant then ''yes'' else ''no'') = (if g_Onward g' = OnwardGrant then ''yes'' else ''no'')"
    "FormatUTC (g_Expires g) = FormatUTC (g_Expires g')"
    using parts by (simp_all add: append_eq_append_conv)
  from tails(3) show "FormatUTC (g_Expires g) = FormatUTC (g_Expires g')" .
  from tails(2) f(7) f'(7) show "g_Onward g = g_Onward g'" by (auto split: if_splits)
  from tails(1) show "map (\<lambda>n. (n, profile_digest g n)) (profileNames g) = map (\<lambda>n. (n, profile_digest g' n)) (profileNames g')"
  proof (rule map_eq_transfer)
    fix n m assume "n \<in> set (profileNames g)" "m \<in> set (profileNames g')"
      and "''  '' @ n @ '' = '' @ profile_digest g n = ''  '' @ m @ '' = '' @ profile_digest g' m"
    moreover have "CHR '' '' \<notin> set n" "CHR '' '' \<notin> set m" using calculation f(6) f'(6) identity_chars by blast+
    ultimately show "(n, profile_digest g n) = (m, profile_digest g' m)" by (auto simp: append_sep_eq)
  qed
qed

lemma ActText_bind_lines:
  assumes "ActText g dig = Inr t" "ActText g' dig' = Inr t"
  shows "validateForAct g dig = None" "validateForAct g' dig' = None" "act_lines g dig = act_lines g' dig'"
proof -
  note f = ActText_facts[OF assms(1)] ActText_facts[OF assms(2)]
  then show v: "validateForAct g dig = None" "validateForAct g' dig' = None" by auto
  from f have "unlines (act_lines g dig) = unlines (act_lines g' dig')" by (simp add: act_body_lines)
  moreover have "\<forall>l \<in> set (act_lines g dig) \<union> set (act_lines g' dig'). newline \<notin> set l"
    using act_lines_no_newline[OF v(1)] act_lines_no_newline[OF v(2)] by blast
  ultimately show "act_lines g dig = act_lines g' dig'" by (simp add: unlines_inject)
qed

text \<open>
  The act text binds the grant: two grants for which the same text is built agree on the record
  digest, the parties, the session, the profiles with their digests, the onward flag, the printed
  expiry and the record widened, so the operator's signature over one grant serves no other.
\<close>

theorem act_text_binds_grant:
  assumes "ActText g dig = Inr t" "ActText g' dig' = Inr t"
  shows "dig = dig' \<and> g_Grantor g = g_Grantor g' \<and> g_Grantee g = g_Grantee g' \<and> g_Session g = g_Session g' \<and>
    map (\<lambda>n. (n, profile_digest g n)) (profileNames g) = map (\<lambda>n. (n, profile_digest g' n)) (profileNames g') \<and>
    g_Onward g = g_Onward g' \<and> FormatUTC (g_Expires g) = FormatUTC (g_Expires g') \<and> g_Widens g = g_Widens g'"
  using act_lines_bind[OF ActText_bind_lines[OF assms]] by blast

text \<open>A text built from a root, and from the same root with another nonce.\<close>

theorem act_text_binds_grant_witness:
  "ActText sample_root ''root'' = ActText (sample_root\<lparr>g_Nonce := ''n9''\<rparr>) ''root'' \<and>
   g_Grantee sample_root = g_Grantee (sample_root\<lparr>g_Nonce := ''n9''\<rparr>)"
proof -
  have "\<not> isl (ActText sample_root ''root'')" by code_simp
  then obtain t where t: "ActText sample_root ''root'' = Inr t" by (cases "ActText sample_root ''root''") auto
  moreover have same: "ActText (sample_root\<lparr>g_Nonce := ''n9''\<rparr>) ''root'' = ActText sample_root ''root''" by code_simp
  ultimately have t': "ActText (sample_root\<lparr>g_Nonce := ''n9''\<rparr>) ''root'' = Inr t" by simp
  from act_text_binds_grant[OF t t'] same show ?thesis by simp
qed

section \<open>Transitions\<close>

definition transition_lines :: "Transition \<Rightarrow> string \<Rightarrow> string list \<Rightarrow> string list" where
  "transition_lines tr dig diff =
     [''spinclass profile transition (escalation): '' @ tr_Profile tr, ''record: '' @ dig, ''from: '' @ tr_From tr,
      ''to: '' @ tr_To tr, ''redeemable until: '' @ FormatUTC (tr_Expires tr)] @ diff @
     [''Signing this approves the change for every session pinned to '' @ [CHR 0x22] @ ''from'' @ [CHR 0x22] @ ''.'']"

lemma transition_act_body_lines: "transition_act_body tr dig diff = unlines (transition_lines tr dig diff)"
  by (simp add: transition_act_body_def transition_lines_def) (simp add: unlines_def)

lemma diff_line_no_newline: "checkDiffLine ln \<Longrightarrow> newline \<notin> set ln"
proof -
  assume "checkDiffLine ln"
  then have "newline \<notin> set r" if "r \<in> set (runes ln)" for r
    using that by (auto simp: checkDiffLine_def list_all_iff diff_rune_def elisionMark_def less_eq_char_def dest!: bspec)
  moreover have "set ln = \<Union> (set ` set (runes ln))" by (metis concat_runes set_concat)
  ultimately show ?thesis by auto
qed

lemma parsed_transition_values:
  assumes "parse_transition_body i keys lns acc = Inr vals" "length keys = length lns" "distinct keys"
    "fst ` set acc \<inter> set keys = {}" "k \<in> set keys" "k \<noteq> ''expires''"
  shows "checkIdentityValue (value_of vals k)"
  using assms
proof (induction i keys lns acc rule: parse_transition_body.induct)
  case (1 i key keys ln lns acc)
  from "1.prems"(1) obtain v where v: "CutPrefix ln (key @ '': '') = Some v" "key = ''expires'' \<or> checkIdentityValue v"
    "parse_transition_body (i + 1) keys lns (acc @ [(key, v)]) = Inr vals"
    by (auto split: option.splits if_splits)
  have grows: "parse_transition_body i ks ls a = Inr w \<Longrightarrow> \<exists>t. w = a @ t" for i ks ls a w
  proof (induction i ks ls a rule: parse_transition_body.induct)
    case 1 then show ?case by (fastforce split: option.splits if_splits)
  qed auto
  show ?case
  proof (cases "k = key")
    case True
    obtain t where "vals = acc @ (key, v) # t" using grows[OF v(3)] by auto
    moreover have "map_of acc key = None" using "1.prems"(4) by (simp add: map_of_eq_None_iff)
    ultimately have "value_of vals k = v" using True by (simp add: value_of_def map_add_def)
    with v(2) True "1.prems"(6) show ?thesis by simp
  next
    case False
    have "\<not> (key \<noteq> ''expires'' \<and> \<not> checkIdentityValue v)" using v(2) by blast
    from "1.IH"[OF v(1) this v(3)] "1.prems" False show ?thesis by auto
  qed
qed auto

lemma ParseTransitionText_facts:
  assumes "ParseTransitionText s = Inr tr"
  shows "checkIdentityValue (tr_Profile tr)" "checkIdentityValue (tr_From tr)" "checkIdentityValue (tr_To tr)"
    "checkIdentityValue (tr_Nonce tr)" "tr_From tr \<noteq> tr_To tr" "transition_text tr = s"
proof -
  let ?lines = "split1 newline (TrimSuffix s [newline])"
  from assms obtain vals where v: "parse_transition_body 0 transitionKeys (tl ?lines) [] = Inr vals"
    and len: "length ?lines - 1 = length transitionKeys"
    and tr: "tr_Profile tr = value_of vals ''profile''" "tr_From tr = value_of vals ''from''" "tr_To tr = value_of vals ''to''"
      "tr_Nonce tr = value_of vals ''nonce''"
    and rest: "tr_From tr \<noteq> tr_To tr" "transition_text tr = s"
    by (auto simp: ParseTransitionText_def Let_def split: if_splits sum.splits option.splits)
  have "checkIdentityValue (value_of vals k)" if "k \<in> set transitionKeys" "k \<noteq> ''expires''" for k
    using parsed_transition_values[OF v _ _ _ that] len by (simp add: transitionKeys_def)
  then show "checkIdentityValue (tr_Profile tr)" "checkIdentityValue (tr_From tr)" "checkIdentityValue (tr_To tr)"
    "checkIdentityValue (tr_Nonce tr)" unfolding tr by (simp_all add: transitionKeys_def)
  from rest show "tr_From tr \<noteq> tr_To tr" "transition_text tr = s" by auto
qed

lemma TransitionActText_facts:
  assumes "TransitionActText tr dig diff = Inr t"
  shows "ParseTransitionText (transition_text tr) \<noteq> Inl e" "checkIdentityValue dig" "list_all checkDiffLine diff"
    "length diff \<le> MaxTransitionDiffLines" "t = unlines (transition_lines tr dig diff)"
  using assms
  by (auto simp: TransitionActText_def within_budget_def transition_act_body_lines find_None_iff list_all_iff
      split: sum.splits option.splits if_splits)

lemma transition_text_newlines:
  "count_list (transition_text tr) newline =
     6 + count_list (tr_Profile tr) newline + count_list (tr_From tr) newline + count_list (tr_To tr) newline +
     count_list (tr_Nonce tr) newline"
proof -
  have "count_list (FormatUTC (tr_Expires tr)) newline = 0" by (simp add: FormatUTC_no_newline)
  then show ?thesis by (simp add: transition_text_def text_line_def)
qed

text \<open>The writer's record parses, so none of its values hides a line.\<close>

lemma parsed_text_values:
  assumes "ParseTransitionText (transition_text tr) = Inr tr'"
  shows "newline \<notin> set (tr_Profile tr)" "newline \<notin> set (tr_From tr)" "newline \<notin> set (tr_To tr)" "newline \<notin> set (tr_Nonce tr)"
proof -
  note f = ParseTransitionText_facts[OF assms]
  have "count_list (transition_text tr') newline = 6"
    using f(1-4) identity_chars by (simp add: transition_text_newlines count_list_0_iff)
  with f(6) have "count_list (tr_Profile tr) newline = 0" "count_list (tr_From tr) newline = 0"
    "count_list (tr_To tr) newline = 0" "count_list (tr_Nonce tr) newline = 0"
    using transition_text_newlines[of tr] by simp_all
  then show "newline \<notin> set (tr_Profile tr)" "newline \<notin> set (tr_From tr)" "newline \<notin> set (tr_To tr)" "newline \<notin> set (tr_Nonce tr)"
    by (simp_all add: count_list_0_iff)
qed

lemma transition_lines_no_newline:
  assumes "TransitionActText tr dig diff = Inr t"
  shows "\<forall>l \<in> set (transition_lines tr dig diff). newline \<notin> set l"
proof -
  note f = TransitionActText_facts[OF assms]
  obtain tr' where parsed: "ParseTransitionText (transition_text tr) = Inr tr'"
    using f(1) by (cases "ParseTransitionText (transition_text tr)") auto
  have "newline \<notin> set l" if "l \<in> set diff" for l
    using f(3) that diff_line_no_newline by (auto simp: list_all_iff)
  then show ?thesis
    using f(2) identity_chars FormatUTC_no_newline parsed_text_values[OF parsed] by (auto simp: transition_lines_def)
qed

lemma transition_act_bind:
  assumes "TransitionActText tr dig diff = Inr t" "TransitionActText tr' dig' diff' = Inr t"
  shows "dig = dig'" "diff = diff'" "tr_Profile tr = tr_Profile tr'" "tr_From tr = tr_From tr'" "tr_To tr = tr_To tr'"
    "FormatUTC (tr_Expires tr) = FormatUTC (tr_Expires tr')"
proof -
  have "unlines (transition_lines tr dig diff) = unlines (transition_lines tr' dig' diff')"
    using TransitionActText_facts(5)[OF assms(1)] TransitionActText_facts(5)[OF assms(2)] by simp
  moreover have "\<forall>l \<in> set (transition_lines tr dig diff) \<union> set (transition_lines tr' dig' diff'). newline \<notin> set l"
    using transition_lines_no_newline[OF assms(1)] transition_lines_no_newline[OF assms(2)] by blast
  ultimately have "transition_lines tr dig diff = transition_lines tr' dig' diff'" by (simp add: unlines_inject)
  note parts = this[unfolded transition_lines_def append_Cons append_Nil list.inject]
  from parts show "dig = dig'" "diff = diff'" "tr_Profile tr = tr_Profile tr'" "tr_From tr = tr_From tr'" "tr_To tr = tr_To tr'"
    "FormatUTC (tr_Expires tr) = FormatUTC (tr_Expires tr')" by simp_all
qed

lemma transition_act_not_grant_act:
  assumes "TransitionActText tr dig diff = Inr t"
  shows "ActText g dig' \<noteq> Inr t"
proof
  assume "ActText g dig' = Inr t"
  then have "unlines (act_lines g dig') = unlines (transition_lines tr dig diff)"
    using ActText_facts TransitionActText_facts(5)[OF assms] by (metis act_body_lines)
  then show False by (simp add: act_lines_def transition_lines_def)
qed

text \<open>
  C15. Only a change the operator approved can be redeemed: if the card verifier accepts nothing but
  the act texts the operator signed, each of a grant or of a transition shown with its digest and
  diff, then a stored approval that verifies is one the operator signed as a transition with that
  profile, those two digests, that record digest and that diff; its text is the canonical text of the
  change, its redemption window is open, and the two digests differ.
\<close>

theorem redeemed_transition_was_signed:
  assumes "VerifyTransition DigestOf now rc root = Inr tr"
    and "\<forall>act sig. root act sig \<longrightarrow>
      (\<exists>g dig. ActText g dig = Inr act) \<or>
      (\<exists>(tr', dig, diff) \<in> signed. TransitionActText tr' dig diff = Inr act)"
  shows "(\<exists>(tr', dig, diff) \<in> signed. Covers tr' (tr_Profile tr) (tr_From tr) (tr_To tr) \<and>
      dig = trec_Digest rc \<and> diff = trec_Diff rc) \<and>
    transition_text tr = trec_Text rc \<and> DigestOf (trec_Text rc) = Some (trec_Digest rc) \<and>
    now < tr_Expires tr \<and> tr_From tr \<noteq> tr_To tr"
proof -
  from assms(1) obtain act where a: "DigestOf (trec_Text rc) = Some (trec_Digest rc)"
      "ParseTransitionText (trec_Text rc) = Inr tr" "now < tr_Expires tr"
      "TransitionActText tr (trec_Digest rc) (trec_Diff rc) = Inr act" "root act (trec_Sig rc)"
    by (auto simp: VerifyTransition_def CheckTransitionRecord_def split: option.splits sum.splits if_splits)
  from assms(2) a(5) transition_act_not_grant_act[OF a(4)] obtain tr' dig diff
    where s: "(tr', dig, diff) \<in> signed" "TransitionActText tr' dig diff = Inr act" by blast
  have "Covers tr' (tr_Profile tr) (tr_From tr) (tr_To tr) \<and> dig = trec_Digest rc \<and> diff = trec_Diff rc"
    using transition_act_bind[OF s(2) a(4)] by (simp add: Covers_def)
  with s(1) a(1,3) ParseTransitionText_facts(5,6)[OF a(2)] show ?thesis by blast
qed

text \<open>An approval of one change, signed and redeemed in time.\<close>

definition sample_transition :: Transition where
  "sample_transition =
     \<lparr>tr_Profile = ''build'', tr_From = ''d1'', tr_To = ''d2'', tr_Expires = UTC 7 1 2 3 4 5 0, tr_Nonce = ''n1''\<rparr>"

definition sample_approval :: TransitionRecord where
  "sample_approval =
     \<lparr>trec_Digest = ''t1'', trec_Text = transition_text sample_transition, trec_Diff = [''rights: +net''], trec_Sig = ''sig''\<rparr>"

definition sample_card :: "string \<Rightarrow> string \<Rightarrow> bool" where
  "sample_card act sig \<longleftrightarrow> Inr act = TransitionActText sample_transition ''t1'' [''rights: +net''] \<and> sig = ''sig''"

lemma sample_redeemed:
  "VerifyTransition (\<lambda>t. Some ''t1'') (UTC 7 1 1 0 0 0 0) sample_approval sample_card = Inr sample_transition"
  by code_simp

theorem redeemed_transition_was_signed_witness:
  "transition_text sample_transition = trec_Text sample_approval \<and>
   tr_From sample_transition \<noteq> tr_To sample_transition"
  using redeemed_transition_was_signed[OF sample_redeemed, of "{(sample_transition, ''t1'', [''rights: +net''])}"]
  by (auto simp: sample_card_def)

end
