(* ===== verification/MergeLock.thy ===== *)
theory MergeLock
  imports Prelude
begin

text \<open>
  The per-repository merge lock (\<open>src/internal/0/mergelock/mergelock.go\<close>): acquisitions of one lock
  file by concurrent processes as a step function over the kernel's state (the inode at the lock
  path, who holds the \<open>flock\<close> of an inode, the bytes of the file) and the phase each acquisition is
  in. An acquisition is one open file description; steps of different acquisitions interleave in
  any order and any of them may die at any step.
\<close>

section \<open>The state\<close>

text \<open>Nanoseconds.\<close>

definition pollInterval :: int where "pollInterval = 500000000"
definition waitNotifyInterval :: int where "waitNotifyInterval = 30000000000"

text \<open>Where an acquisition is: every constructor but the first and last carries its file's inode.\<close>

datatype phase =
    Idle
  | Opened nat string
  | Waiting nat string int int
  | Truncating nat string
  | Writing nat string
  | Held nat string bool
  | Unlocking nat
  | Closing nat bool
  | Returned

record LockWorld =
  lw_file :: "nat option"
  lw_next :: nat
  lw_flock :: "nat \<Rightarrow> nat option"
  lw_text :: "nat \<Rightarrow> string"
  lw_proc :: "nat \<Rightarrow> phase"
  lw_said :: "(nat \<times> string \<times> int) list"

definition init_world :: LockWorld where
  "init_world =
     \<lparr>lw_file = None, lw_next = 0, lw_flock = (\<lambda>_. None), lw_text = (\<lambda>_. []), lw_proc = (\<lambda>_. Idle), lw_said = []\<rparr>"

definition set_phase :: "nat \<Rightarrow> phase \<Rightarrow> LockWorld \<Rightarrow> LockWorld" where
  "set_phase p ph w = w\<lparr>lw_proc := (lw_proc w)(p := ph)\<rparr>"

section \<open>The operations\<close>

text \<open>\<open>O_RDWR|O_CREATE\<close>: the inode at the path, made when there is none. Nothing unlinks the path.\<close>

definition open_lock :: "nat \<Rightarrow> string \<Rightarrow> LockWorld \<Rightarrow> LockWorld" where
  "open_lock p holder w =
     (case lw_file w of
        Some i \<Rightarrow> set_phase p (Opened i holder) w
      | None \<Rightarrow> set_phase p (Opened (lw_next w) holder)
          (w\<lparr>lw_file := Some (lw_next w), lw_next := lw_next w + 1, lw_text := (lw_text w)(lw_next w := [])\<rparr>))"

text \<open>A non-blocking exclusive \<open>flock\<close>; the retry after an interrupt leaves no trace.\<close>

definition tryFlock :: "nat \<Rightarrow> nat \<Rightarrow> LockWorld \<Rightarrow> LockWorld \<times> bool" where
  "tryFlock p i w =
     (if lw_flock w i = None \<or> lw_flock w i = Some p
      then (w\<lparr>lw_flock := (lw_flock w)(i := Some p)\<rparr>, True) else (w, False))"

definition readHolder :: "nat \<Rightarrow> LockWorld \<Rightarrow> string" where
  "readHolder i w = TrimSpace (take 256 (lw_text w i))"

definition notify :: "nat \<Rightarrow> nat \<Rightarrow> int \<Rightarrow> LockWorld \<Rightarrow> LockWorld" where
  "notify p i elapsed w = w\<lparr>lw_said := lw_said w @ [(p, readHolder i w, elapsed)]\<rparr>"

text \<open>Closing the last descriptor drops the lock the description holds.\<close>

definition drop_lock :: "nat \<Rightarrow> nat \<Rightarrow> LockWorld \<Rightarrow> LockWorld" where
  "drop_lock p i w = (if lw_flock w i = Some p then w\<lparr>lw_flock := (lw_flock w)(i := None)\<rparr> else w)"

definition inode_of :: "phase \<Rightarrow> nat option" where
  "inode_of ph =
     (case ph of
        Opened i _ \<Rightarrow> Some i | Waiting i _ _ _ \<Rightarrow> Some i | Truncating i _ \<Rightarrow> Some i | Writing i _ \<Rightarrow> Some i
      | Held i _ _ \<Rightarrow> Some i | Unlocking i \<Rightarrow> Some i | Closing i _ \<Rightarrow> Some i | _ \<Rightarrow> None)"

text \<open>
  One step of an acquisition. The booleans are the outcomes of the truncations and of the unlock, the
  count is how many bytes of the identity got written; an event that is not possible in the phase has no successor.
\<close>

datatype lock_event =
    OpenLock nat string | OpenFails nat | FirstTry nat int | Poll nat int | CtxDone nat | FlockFails nat
  | TruncateHolder nat bool | WriteHolder nat nat | Release nat bool | Unlock nat bool | Close nat | Crash nat

fun lock_step :: "LockWorld \<Rightarrow> lock_event \<Rightarrow> LockWorld option" where
  "lock_step w (OpenLock p holder) = (if lw_proc w p = Idle then Some (open_lock p holder w) else None)"
| "lock_step w (OpenFails p) = (if lw_proc w p = Idle then Some (set_phase p Returned w) else None)"
| "lock_step w (FirstTry p now) =
     (case lw_proc w p of
        Opened i holder \<Rightarrow>
          (case tryFlock p i w of
             (w', True) \<Rightarrow> Some (set_phase p (Truncating i holder) w')
           | (w', False) \<Rightarrow> Some (set_phase p (Waiting i holder now now) (notify p i 0 w')))
      | _ \<Rightarrow> None)"
| "lock_step w (Poll p now) =
     (case lw_proc w p of
        Waiting i holder start lastNotify \<Rightarrow>
          (case tryFlock p i w of
             (w', True) \<Rightarrow> Some (set_phase p (Truncating i holder) w')
           | (w', False) \<Rightarrow>
               if now - lastNotify \<ge> waitNotifyInterval
               then Some (set_phase p (Waiting i holder start now) (notify p i (now - start) w'))
               else Some w')
      | _ \<Rightarrow> None)"
| "lock_step w (CtxDone p) =
     (case lw_proc w p of Waiting i _ _ _ \<Rightarrow> Some (set_phase p Returned (drop_lock p i w)) | _ \<Rightarrow> None)"
| "lock_step w (FlockFails p) =
     (case lw_proc w p of
        Opened i _ \<Rightarrow> Some (set_phase p Returned (drop_lock p i w))
      | Waiting i _ _ _ \<Rightarrow> Some (set_phase p Returned (drop_lock p i w))
      | _ \<Rightarrow> None)"
| "lock_step w (TruncateHolder p ok) =
     (case lw_proc w p of
        Truncating i holder \<Rightarrow>
          Some (if ok then set_phase p (Writing i holder) (w\<lparr>lw_text := (lw_text w)(i := [])\<rparr>)
                else set_phase p (Held i holder False) w)
      | _ \<Rightarrow> None)"
| "lock_step w (WriteHolder p n) =
     (case lw_proc w p of
        Writing i holder \<Rightarrow>
          Some (set_phase p (Held i holder (length holder \<le> n)) (w\<lparr>lw_text := (lw_text w)(i := take n holder)\<rparr>))
      | _ \<Rightarrow> None)"
| "lock_step w (Release p ok) =
     (case lw_proc w p of
        Idle \<Rightarrow> None | Opened _ _ \<Rightarrow> None | Waiting _ _ _ _ \<Rightarrow> None | Truncating _ _ \<Rightarrow> None | Writing _ _ \<Rightarrow> None
      | Held i _ _ \<Rightarrow> Some (set_phase p (Unlocking i) (if ok then w\<lparr>lw_text := (lw_text w)(i := [])\<rparr> else w))
      | _ \<Rightarrow> Some w)"
| "lock_step w (Unlock p ok) =
     (case lw_proc w p of
        Unlocking i \<Rightarrow> Some (set_phase p (Closing i ok) (if ok then drop_lock p i w else w))
      | _ \<Rightarrow> None)"
| "lock_step w (Close p) =
     (case lw_proc w p of Closing i _ \<Rightarrow> Some (set_phase p Returned (drop_lock p i w)) | _ \<Rightarrow> None)"
| "lock_step w (Crash p) =
     Some (set_phase p Returned (case inode_of (lw_proc w p) of Some i \<Rightarrow> drop_lock p i w | None \<Rightarrow> w))"

fun lock_run :: "LockWorld \<Rightarrow> lock_event list \<Rightarrow> LockWorld option" where
  "lock_run w [] = Some w"
| "lock_run w (e # es) = (case lock_step w e of None \<Rightarrow> None | Some w' \<Rightarrow> lock_run w' es)"

inductive reachable :: "LockWorld \<Rightarrow> bool" where
  start: "reachable init_world"
| move: "reachable w \<Longrightarrow> lock_step w e = Some w' \<Longrightarrow> reachable w'"

section \<open>The invariant\<close>

text \<open>The phases in which the acquisition's description holds the lock.\<close>

definition holds_lock :: "phase \<Rightarrow> bool" where
  "holds_lock ph \<longleftrightarrow>
     (case ph of Truncating _ _ \<Rightarrow> True | Writing _ _ \<Rightarrow> True | Held _ _ _ \<Rightarrow> True | Unlocking _ \<Rightarrow> True
      | Closing _ unlocked \<Rightarrow> \<not> unlocked | _ \<Rightarrow> False)"

definition lock_inv :: "LockWorld \<Rightarrow> bool" where
  "lock_inv w \<longleftrightarrow>
     (\<forall>p i. inode_of (lw_proc w p) = Some i \<longrightarrow> lw_file w = Some i) \<and>
     (\<forall>p i. lw_flock w i = Some p \<longleftrightarrow> inode_of (lw_proc w p) = Some i \<and> holds_lock (lw_proc w p)) \<and>
     (\<forall>p i holder. lw_proc w p = Held i holder True \<longrightarrow> lw_text w i = holder)"

lemma inode_of_simps [simp]:
  "inode_of Idle = None" "inode_of (Opened i h) = Some i" "inode_of (Waiting i h s l) = Some i"
  "inode_of (Truncating i h) = Some i" "inode_of (Writing i h) = Some i" "inode_of (Held i h b) = Some i"
  "inode_of (Unlocking i) = Some i" "inode_of (Closing i u) = Some i" "inode_of Returned = None"
  by (simp_all add: inode_of_def)

lemma holds_lock_simps [simp]:
  "\<not> holds_lock Idle" "\<not> holds_lock (Opened i h)" "\<not> holds_lock (Waiting i h s l)" "holds_lock (Truncating i h)"
  "holds_lock (Writing i h)" "holds_lock (Held i h b)" "holds_lock (Unlocking i)" "holds_lock (Closing i u) \<longleftrightarrow> \<not> u"
  "\<not> holds_lock Returned"
  by (simp_all add: holds_lock_def)

text \<open>A change of one acquisition's phase and of what it holds keeps the invariant.\<close>

lemma lock_inv_change:
  assumes inv: "lock_inv w"
    and fil: "lw_file w' = lw_file w \<or> (lw_file w = None \<and> lw_file w' \<noteq> None)"
    and proc: "lw_proc w' = (lw_proc w)(p := ph)"
    and own: "\<And>i. inode_of ph = Some i \<Longrightarrow> lw_file w' = Some i"
    and flock: "\<And>i q. lw_flock w' i = Some q \<longleftrightarrow>
      (if q = p then inode_of ph = Some i \<and> holds_lock ph else lw_flock w i = Some q)"
    and words: "\<And>q i holder. q \<noteq> p \<Longrightarrow> lw_proc w q = Held i holder True \<Longrightarrow> lw_text w' i = lw_text w i"
    and own_txt: "\<And>i holder. ph = Held i holder True \<Longrightarrow> lw_text w' i = holder"
  shows "lock_inv w'"
proof -
  have none: "inode_of (lw_proc w q) = None" if "lw_file w = None" for q
    using inv that by (cases "inode_of (lw_proc w q)") (auto simp: lock_inv_def)
  have "lw_file w' = Some i" if "inode_of (lw_proc w' q) = Some i" for q i
    using that own proc fil inv none by (cases "q = p") (auto simp: lock_inv_def)
  moreover have "lw_flock w' i = Some q \<longleftrightarrow> inode_of (lw_proc w' q) = Some i \<and> holds_lock (lw_proc w' q)" for q i
    using flock[of i q] proc inv by (auto simp: lock_inv_def)
  moreover have "lw_text w' i = holder" if "lw_proc w' q = Held i holder True" for q i holder
    using that proc words own_txt inv by (cases "q = p") (auto simp: lock_inv_def)
  ultimately show ?thesis by (simp add: lock_inv_def)
qed

lemma owner_unique:
  assumes "lock_inv w" "inode_of (lw_proc w p) = Some i" "holds_lock (lw_proc w p)" "holds_lock (lw_proc w q)"
  shows "q = p"
proof -
  obtain j where "inode_of (lw_proc w q) = Some j"
    using assms(4) by (cases "lw_proc w q") auto
  moreover from this have "j = i" using assms(1,2) unfolding lock_inv_def by (metis option.inject)
  ultimately show ?thesis using assms unfolding lock_inv_def by (metis option.inject)
qed

lemma lock_inv_init: "lock_inv init_world"
  by (simp add: lock_inv_def init_world_def)

lemma free_file: "lock_inv w \<Longrightarrow> lw_file w = None \<Longrightarrow> lw_flock w i = None"
  unfolding lock_inv_def by (metis not_None_eq)

lemma lock_inv_phase: "lock_inv w \<Longrightarrow> inode_of (lw_proc w p) = Some i \<Longrightarrow> lw_file w = Some i"
  by (simp add: lock_inv_def)

lemma lock_inv_flock:
  "lock_inv w \<Longrightarrow> lw_flock w i = Some p \<longleftrightarrow> inode_of (lw_proc w p) = Some i \<and> holds_lock (lw_proc w p)"
  by (simp add: lock_inv_def)

lemma lock_inv_text: "lock_inv w \<Longrightarrow> lw_proc w p = Held i holder True \<Longrightarrow> lw_text w i = holder"
  by (simp add: lock_inv_def)

text \<open>No other acquisition holds the lock while this one does, so it alone writes the file.\<close>

lemma other_not_held:
  assumes "lock_inv w" "inode_of (lw_proc w p) = Some i" "holds_lock (lw_proc w p)" "q \<noteq> p"
  shows "lw_proc w q \<noteq> Held j holder b"
  using owner_unique[OF assms(1-3), of q] assms(4) by auto

lemma held_file: "lock_inv w \<Longrightarrow> lw_proc w q = Held i holder b \<Longrightarrow> lw_file w = Some i"
  using lock_inv_phase[of w q i] by simp

fun actor :: "lock_event \<Rightarrow> nat" where
  "actor (OpenLock p _) = p" | "actor (OpenFails p) = p" | "actor (FirstTry p _) = p" | "actor (Poll p _) = p"
| "actor (CtxDone p) = p" | "actor (FlockFails p) = p" | "actor (TruncateHolder p _) = p" | "actor (WriteHolder p _) = p"
| "actor (Release p _) = p" | "actor (Unlock p _) = p" | "actor (Close p) = p" | "actor (Crash p) = p"

lemmas step_simps = set_phase_def open_lock_def tryFlock_def notify_def drop_lock_def

text \<open>The ways one acquisition changes who holds what: not at all, by taking its inode, by dropping it.\<close>

inductive flock_moves :: "LockWorld \<Rightarrow> LockWorld \<Rightarrow> nat \<Rightarrow> phase \<Rightarrow> bool" where
  keep: "lw_flock w' = lw_flock w \<Longrightarrow> holds_lock ph = holds_lock (lw_proc w p) \<Longrightarrow>
    holds_lock ph \<longrightarrow> inode_of ph = inode_of (lw_proc w p) \<Longrightarrow> flock_moves w w' p ph"
| take_it: "lw_flock w' = (lw_flock w)(i := Some p) \<Longrightarrow> lw_flock w i = None \<or> lw_flock w i = Some p \<Longrightarrow>
    \<not> holds_lock (lw_proc w p) \<Longrightarrow> holds_lock ph \<Longrightarrow> inode_of ph = Some i \<Longrightarrow> flock_moves w w' p ph"
| drop: "lw_flock w' = (lw_flock w)(i := None) \<Longrightarrow> holds_lock (lw_proc w p) \<Longrightarrow> inode_of (lw_proc w p) = Some i \<Longrightarrow>
    \<not> holds_lock ph \<Longrightarrow> flock_moves w w' p ph"

lemma flock_change:
  assumes inv: "lock_inv w" and "flock_moves w w' p ph"
  shows "lw_flock w' i = Some q \<longleftrightarrow>
    (if q = p then inode_of ph = Some i \<and> holds_lock ph else lw_flock w i = Some q)"
  using assms(2)
proof cases
  case keep
  then show ?thesis using lock_inv_flock[OF inv, of i p] by (cases "q = p") auto
next
  case (take_it j)
  have "lw_flock w i \<noteq> Some p" using take_it(3) lock_inv_flock[OF inv, of i p] by blast
  with take_it show ?thesis by (cases "i = j"; cases "q = p") auto
next
  case (drop j)
  have "lw_flock w j = Some p" using drop lock_inv_flock[OF inv, of j p] by blast
  moreover have "i \<noteq> j \<Longrightarrow> lw_flock w i \<noteq> Some p" using drop lock_inv_flock[OF inv, of i p] by auto
  ultimately show ?thesis using drop by (cases "i = j"; cases "q = p") auto
qed

lemma drop_lock_flock:
  "lock_inv w \<Longrightarrow> inode_of (lw_proc w p) = Some i \<Longrightarrow>
   drop_lock p i w = (if holds_lock (lw_proc w p) then w\<lparr>lw_flock := (lw_flock w)(i := None)\<rparr> else w)"
  by (simp add: drop_lock_def lock_inv_flock)

lemma step_flock_moves:
  assumes inv: "lock_inv w" and st: "lock_step w e = Some w'"
  shows "flock_moves w w' (actor e) (lw_proc w' (actor e))"
  using st drop_lock_flock[OF inv, of "actor e"]
  by (cases e; cases "lw_proc w (actor e)")
    (auto simp: set_phase_def open_lock_def tryFlock_def notify_def split: option.splits if_splits intro: flock_moves.intros)

lemma held_text:
  assumes "lock_step w e = Some w'" "lw_proc w' (actor e) = Held i holder True"
  shows "lw_text w' i = holder"
  using assms
  by (cases e; cases "lw_proc w (actor e)") (auto simp: step_simps split: option.splits if_splits)

text \<open>Only the creator of the file and the holder of its lock write it.\<close>

lemma step_text:
  assumes "lock_step w e = Some w'" "lw_text w' j \<noteq> lw_text w j"
  shows "lw_file w = None \<or> holds_lock (lw_proc w (actor e)) \<and> inode_of (lw_proc w (actor e)) = Some j"
  using assms
  by (cases e; cases "lw_proc w (actor e)") (auto simp: step_simps split: option.splits if_splits)

lemma lock_step_inv:
  assumes inv: "lock_inv w" and st: "lock_step w e = Some w'"
  shows "lock_inv w'"
proof (rule lock_inv_change[of w w' "actor e" "lw_proc w' (actor e)", OF inv])
  note own = lock_inv_phase[OF inv] and fl = lock_inv_flock[OF inv] and other = other_not_held[OF inv]
  let ?p = "actor e"
  show "lw_file w' = lw_file w \<or> lw_file w = None \<and> lw_file w' \<noteq> None"
    using st by (cases e; cases "lw_proc w ?p") (auto simp: step_simps split: option.splits if_splits)
  show "lw_proc w' = (lw_proc w)(?p := lw_proc w' ?p)"
    using st by (cases e; cases "lw_proc w ?p") (auto simp: step_simps split: option.splits if_splits)
  show "lw_file w' = Some i" if "inode_of (lw_proc w' ?p) = Some i" for i
    using st that own[of ?p]
    by (cases e; cases "lw_proc w ?p") (auto simp: step_simps split: option.splits if_splits)
  show "lw_flock w' i = Some q \<longleftrightarrow>
      (if q = ?p then inode_of (lw_proc w' ?p) = Some i \<and> holds_lock (lw_proc w' ?p) else lw_flock w i = Some q)" for i q
  proof (rule flock_change[OF inv])
    show "flock_moves w w' ?p (lw_proc w' ?p)" by (rule step_flock_moves[OF inv st])
  qed
  show "lw_text w' i = lw_text w i" if "q \<noteq> ?p" "lw_proc w q = Held i holder True" for q i holder
  proof (rule ccontr)
    assume "lw_text w' i \<noteq> lw_text w i"
    from step_text[OF st this] held_file[OF inv that(2)]
    have "holds_lock (lw_proc w ?p)" "inode_of (lw_proc w ?p) = Some i" by auto
    from other[OF this(2,1) that(1)] that(2) show False by blast
  qed
  show "lw_text w' i = holder" if "lw_proc w' ?p = Held i holder True" for i holder
    by (rule held_text[OF st that])
qed

lemma reachable_inv: "reachable w \<Longrightarrow> lock_inv w"
  by (induction rule: reachable.induct) (auto intro: lock_inv_init lock_step_inv)

lemma lock_run_reachable: "lock_run w es = Some w' \<Longrightarrow> reachable w \<Longrightarrow> reachable w'"
  by (induction w es rule: lock_run.induct) (auto split: option.splits intro: reachable.move)

lemma lock_run_append:
  "lock_run w (es @ fs) = (case lock_run w es of None \<Rightarrow> None | Some w' \<Rightarrow> lock_run w' fs)"
  by (induction w es rule: lock_run.induct) (auto split: option.splits)

section \<open>Mutual exclusion\<close>

text \<open>
  C3. Merges of one repository exclude each other: whatever the interleaving of acquisitions, waits,
  cancellations, releases, failed writes and deaths, while an acquisition is held no other one holds
  the lock, and once its identity is written every reader of the lock file reads that identity.
\<close>

theorem merge_lock_exclusive:
  assumes "reachable w" "lw_proc w p = Held i holder written"
  shows "{q. holds_lock (lw_proc w q)} = {p} \<and>
    (if written then readHolder i w = TrimSpace (take 256 holder) else True)"
proof -
  note inv = reachable_inv[OF assms(1)]
  have "q = p" if "holds_lock (lw_proc w q)" for q
    using owner_unique[OF inv _ _ that, of p i] assms(2) by simp
  moreover have "written \<Longrightarrow> readHolder i w = TrimSpace (take 256 holder)"
    using lock_inv_text[OF inv] assms(2) by (cases written) (auto simp: readHolder_def)
  ultimately show ?thesis using assms(2) by auto
qed

text \<open>One acquisition merging while a second waits.\<close>

definition contended :: "lock_event list" where
  "contended = [OpenLock 0 ''a'', FirstTry 0 0, OpenLock 1 ''b'', TruncateHolder 0 True, WriteHolder 0 1, FirstTry 1 7]"

definition contended_world :: LockWorld where
  "contended_world = (case lock_run init_world contended of Some w \<Rightarrow> w | None \<Rightarrow> init_world)"

lemma contended_run:
  "lock_run init_world contended = Some contended_world" "lw_proc contended_world 0 = Held 0 ''a'' True"
  "lw_proc contended_world 1 = Waiting 0 ''b'' 7 7"
  by (simp_all add: contended_world_def contended_def init_world_def step_simps)

lemma contended_reachable: "reachable contended_world"
  using lock_run_reachable[OF contended_run(1) reachable.start] .

theorem merge_lock_exclusive_witness:
  "{q. holds_lock (lw_proc contended_world q)} = {0} \<and> readHolder 0 contended_world = TrimSpace ''a''"
  using merge_lock_exclusive[OF contended_reachable contended_run(2)] by simp

section \<open>The lock as a mutex\<close>

text \<open>The abstract lock: free, or owned by one acquisition; a step takes it, drops it, or leaves it.\<close>

definition mutex_step :: "nat \<Rightarrow> nat option \<Rightarrow> nat option \<Rightarrow> bool" where
  "mutex_step p own own' \<longleftrightarrow> own' = own \<or> own = None \<and> own' = Some p \<or> own = Some p \<and> own' = None"

definition owner :: "LockWorld \<Rightarrow> nat option" where
  "owner w = (case lw_file w of None \<Rightarrow> None | Some i \<Rightarrow> lw_flock w i)"

lemma owner_iff: "lock_inv w \<Longrightarrow> owner w = Some p \<longleftrightarrow> holds_lock (lw_proc w p)"
proof -
  assume inv: "lock_inv w"
  have "\<exists>i. inode_of (lw_proc w p) = Some i" if "holds_lock (lw_proc w p)"
    using that by (cases "lw_proc w p") auto
  then show ?thesis
    using lock_inv_flock[OF inv] lock_inv_phase[OF inv] by (fastforce simp: owner_def split: option.splits)
qed

lemma owner_step:
  assumes inv: "lock_inv w" and st: "lock_step w e = Some w'"
  shows "mutex_step (actor e) (owner w) (owner w')"
proof -
  have others: "owner w' = Some q \<longleftrightarrow> owner w = Some q" if "q \<noteq> actor e" for q
  proof -
    have "lw_proc w' q = lw_proc w q"
      using st that by (cases e; cases "lw_proc w (actor e)") (auto simp: step_simps split: option.splits if_splits)
    then show ?thesis using owner_iff[OF inv] owner_iff[OF lock_step_inv[OF inv st]] by simp
  qed
  then show ?thesis unfolding mutex_step_def by (metis not_None_eq)
qed

text \<open>
  C31. The lock file implements a mutex: every step of any acquisition in a reachable state is a step
  of the abstract lock by that acquisition (taking a free lock, dropping its own, or neither), so the
  lock never passes between two merges without being free, and the abstract owner is exactly the
  acquisition whose description holds the lock.
\<close>

theorem merge_lock_refines_mutex:
  assumes "reachable w" "lock_step w e = Some w'"
  shows "mutex_step (actor e) (owner w) (owner w') \<and> (\<lambda>p. owner w' = Some p) = (\<lambda>p. holds_lock (lw_proc w' p))"
  using owner_step[OF reachable_inv[OF assms(1)] assms(2)]
    owner_iff[OF lock_step_inv[OF reachable_inv[OF assms(1)] assms(2)]] by (simp add: fun_eq_iff)

theorem merge_lock_refines_mutex_witness:
  "mutex_step 0 (owner contended_world) (owner (the (lock_step contended_world (Crash 0))))"
proof -
  have "lock_step contended_world (Crash 0) = Some (the (lock_step contended_world (Crash 0)))" by simp
  from merge_lock_refines_mutex[OF contended_reachable this] show ?thesis by simp
qed

section \<open>No waiter is stuck\<close>

text \<open>What is left for an acquisition that holds the lock, when nothing fails and it does not die.\<close>

definition finish :: "nat \<Rightarrow> phase \<Rightarrow> lock_event list" where
  "finish q ph =
     (let drop_it = [Unlock q True]; rel = Release q True # drop_it
      in case ph of
           Truncating _ _ \<Rightarrow> TruncateHolder q True # WriteHolder q 0 # rel
         | Writing _ _ \<Rightarrow> WriteHolder q 0 # rel
         | Held _ _ _ \<Rightarrow> rel
         | Unlocking _ \<Rightarrow> drop_it
         | Closing _ _ \<Rightarrow> [Close q]
         | _ \<Rightarrow> [])"

lemma finish_frees:
  assumes "lw_flock w i = Some q" "inode_of (lw_proc w q) = Some i" "holds_lock (lw_proc w q)" "p \<noteq> q"
  shows "\<exists>w'. lock_run w (finish q (lw_proc w q)) = Some w' \<and> lw_flock w' i = None \<and> lw_proc w' p = lw_proc w p"
  using assms by (cases "lw_proc w q") (auto simp: finish_def step_simps)

lemma finish_events:
  "length (finish q ph) \<le> 4" "actor ` set (finish q ph) \<subseteq> {q}" "set (finish q ph) \<inter> range Crash = {}"
  by (cases ph, auto simp: finish_def)+

lemma poll_acquires:
  assumes "lw_flock w i = None" "lw_proc w p = Waiting i holder start lastNotify"
  shows "\<exists>w'. lock_run w [Poll p now, TruncateHolder p True, WriteHolder p (length holder)] = Some w' \<and>
    lw_proc w' p = Held i holder True"
  using assms by (simp add: step_simps)

text \<open>
  C32. No waiter is stuck: from any reachable state in which an acquisition waits, the owner of the
  lock, if there is one, can finish on its own, and the waiter's next poll then holds the lock with
  its identity written; at most seven steps, all of the owner and of the waiter, none of them a death.
\<close>

theorem waiter_gets_the_lock:
  assumes "reachable w" "lw_proc w p = Waiting i holder start lastNotify"
  shows "\<exists>es w'. lock_run w es = Some w' \<and> lw_proc w' p = Held i holder True \<and> length es \<le> 7 \<and>
    actor ` set es \<subseteq> insert p {q. owner w = Some q} \<and> set es \<inter> range Crash = {}"
proof -
  note inv = reachable_inv[OF assms(1)]
  have fil: "lw_file w = Some i" using lock_inv_phase[OF inv, of p i] assms(2) by simp
  let ?take = "[Poll p start, TruncateHolder p True, WriteHolder p (length holder)]"
  show ?thesis
  proof (cases "lw_flock w i")
    case None
    from poll_acquires[OF None assms(2), of start] show ?thesis by (intro exI[of _ ?take]) auto
  next
    case (Some q)
    then have q: "inode_of (lw_proc w q) = Some i" "holds_lock (lw_proc w q)" using lock_inv_flock[OF inv] by blast+
    have "p \<noteq> q" using q(2) assms(2) by auto
    from finish_frees[OF Some q this] obtain w1
      where w1: "lock_run w (finish q (lw_proc w q)) = Some w1" "lw_flock w1 i = None" "lw_proc w1 p = lw_proc w p" by blast
    from poll_acquires[OF w1(2), of p holder start lastNotify start] w1(3) assms(2) obtain w2
      where w2: "lock_run w1 ?take = Some w2" "lw_proc w2 p = Held i holder True" by auto
    have "lock_run w (finish q (lw_proc w q) @ ?take) = Some w2" using w1(1) w2(1) by (simp add: lock_run_append)
    moreover note finish_events[of q "lw_proc w q"]
    moreover have "owner w = Some q" using fil Some by (simp add: owner_def)
    ultimately show ?thesis using w2(2) by (intro exI[of _ "finish q (lw_proc w q) @ ?take"] exI[of _ w2]) auto
  qed
qed

theorem waiter_gets_the_lock_witness:
  "\<exists>es w'. lock_run contended_world es = Some w' \<and> lw_proc w' 1 = Held 0 ''b'' True"
  using waiter_gets_the_lock[OF contended_reachable contended_run(3)] by blast

end
