(* ===== verification/MergeQueue.thy ===== *)
theory MergeQueue
  imports Prelude
begin

text \<open>
  The merge queue's depth (\<open>src/internal/0/mergelock/queue.go\<close>): one marker file per merge in the
  queue, each locked by its owner; joining counts the other live markers and removes dead ones. The
  file system's answers (open, modification time, lock) are the fields of a marker.
\<close>

definition markerSettle :: int where "markerSettle = 5000000000"

text \<open>\<open>mk_flock\<close>: \<open>None\<close> when the lock call fails, else whether the lock could be taken (no live owner).\<close>

record Marker =
  mk_path :: string
  mk_opens :: bool
  mk_mtime :: "int option"
  mk_flock :: "bool option"

text \<open>Whether the marker counts, and whether the probe removes it.\<close>

definition markerIsLive :: "int \<Rightarrow> Marker \<Rightarrow> bool \<times> bool" where
  "markerIsLive now m =
     (if \<not> mk_opens m then (False, False)
      else if (case mk_mtime m of Some t \<Rightarrow> now - t < markerSettle | None \<Rightarrow> False) then (True, False)
      else case mk_flock m of
        None \<Rightarrow> (False, False)
      | Some acquired \<Rightarrow> if \<not> acquired then (True, False) else (False, True))"

text \<open>The loop over the directory: the depth counted so far, and the markers left.\<close>

fun join_scan :: "int \<Rightarrow> string \<Rightarrow> Marker list \<Rightarrow> nat \<Rightarrow> nat \<times> Marker list" where
  "join_scan now own [] ahead = (ahead, [])"
| "join_scan now own (m # ms) ahead =
     (if mk_path m = own then (case join_scan now own ms ahead of (n, left) \<Rightarrow> (n, m # left))
      else case markerIsLive now m of
        (live, removed) \<Rightarrow>
          (case join_scan now own ms (if live then ahead + 1 else ahead) of
             (n, left) \<Rightarrow> (n, if removed then left else m # left)))"

text \<open>\<open>own\<close> is \<open>None\<close> when the directory or the marker cannot be made, \<open>dir\<close> when it cannot be read.\<close>

definition Join_queue :: "int \<Rightarrow> string option \<Rightarrow> Marker list option \<Rightarrow> nat" where
  "Join_queue now own dir =
     (case own of None \<Rightarrow> 0
      | Some path \<Rightarrow> (case dir of None \<Rightarrow> 0 | Some entries \<Rightarrow> fst (join_scan now path entries 0)))"

text \<open>A marker that is in the queue: still settling, or locked by its owner.\<close>

definition in_queue :: "int \<Rightarrow> Marker \<Rightarrow> bool" where
  "in_queue now m \<longleftrightarrow>
     mk_opens m \<and> ((\<exists>t. mk_mtime m = Some t \<and> now - t < markerSettle) \<or> mk_flock m = Some False)"

definition abandoned_marker :: "int \<Rightarrow> Marker \<Rightarrow> bool" where
  "abandoned_marker now m \<longleftrightarrow> mk_opens m \<and> \<not> in_queue now m \<and> mk_flock m = Some True"

lemma markerIsLive_spec: "markerIsLive now m = (in_queue now m, abandoned_marker now m)"
  by (auto simp: markerIsLive_def in_queue_def abandoned_marker_def split: option.splits)

lemma join_scan_spec:
  "join_scan now own ms ahead =
    (ahead + length (filter (\<lambda>m. mk_path m \<noteq> own \<and> in_queue now m) ms),
     filter (\<lambda>m. mk_path m = own \<or> \<not> abandoned_marker now m) ms)"
  by (induction ms arbitrary: ahead) (auto simp: markerIsLive_spec)

text \<open>
  The depth a merge reports is the number of other markers still in the queue, never an abandoned
  one, and the scan removes exactly the other abandoned markers.
\<close>

theorem join_counts_live_markers:
  "Join_queue now (Some own) (Some ms) = length (filter (\<lambda>m. mk_path m \<noteq> own \<and> in_queue now m) ms) \<and>
   snd (join_scan now own ms 0) = filter (\<lambda>m. mk_path m = own \<or> \<not> abandoned_marker now m) ms"
  by (simp add: Join_queue_def join_scan_spec)

end
