(* ===== verification/Perms.thy ===== *)
theory Perms
  imports GoPath
begin

text \<open>
  Permission tiers (\<open>src/internal/charlie/perms\<close>): matching a tool invocation against curated rules
  (\<open>match.go\<close>), the always-ask floor and the check hook (\<open>check.go\<close>), the tier files (\<open>tiers.go\<close>),
  promotion from a review (\<open>review.go\<close>), the report of retired rules (\<open>grit_migration.go\<close>) and the
  verdict on store tools (\<open>store.go\<close>). Tool inputs are decoded JSON; reading and writing a tier file
  is a map from paths to what a read of it gives.
\<close>

section \<open>Tool inputs\<close>

text \<open>A decoded JSON value; numbers carry no meaning here. An object is its key-value list, last key first.\<close>

datatype json = JNull | JBool bool | JNum int | JStr string | JArr "json list" | JObj "(string \<times> json) list"

type_synonym tool_input = "(string \<times> json) list"

definition stringField :: "tool_input \<Rightarrow> string \<Rightarrow> string option" where
  "stringField m key = (case map_of m key of Some (JStr s) \<Rightarrow> Some s | _ \<Rightarrow> None)"

section \<open>Rules\<close>

definition BuildPermissionString :: "string \<Rightarrow> tool_input \<Rightarrow> string" where
  "BuildPermissionString tool m =
     (let arg = (if tool = ''Bash'' then stringField m ''command''
                 else if tool \<in> {''Read'', ''Edit'', ''Write''} then stringField m ''file_path''
                 else if tool = ''WebFetch'' then stringField m ''url''
                 else None)
      in case arg of Some a \<Rightarrow> tool @ ''('' @ a @ '')'' | None \<Rightarrow> tool)"

definition parseRule :: "string \<Rightarrow> string \<times> string" where
  "parseRule rule =
     (case Cut rule ''('' of None \<Rightarrow> (rule, []) | Some (tool, inner) \<Rightarrow> (tool, TrimSuffix inner '')''))"

definition matchRulePattern :: "string \<Rightarrow> string \<Rightarrow> bool" where
  "matchRulePattern pat cmd =
     (if HasSuffix pat ''/*'' then HasPrefix cmd (TrimSuffix pat ''*'')
      else if HasSuffix pat '':*'' then
        (let pre = TrimSuffix pat '':*'' in cmd = pre \<or> HasPrefix cmd (pre @ '' ''))
      else if HasSuffix pat '' *'' then HasPrefix cmd (TrimSuffix pat ''*'')
      else pat = cmd)"

definition matchRule :: "string \<Rightarrow> string \<Rightarrow> tool_input \<Rightarrow> bool" where
  "matchRule rule tool m =
     (case parseRule rule of (ruleTool, pat) \<Rightarrow>
        if ruleTool \<noteq> tool then False
        else if pat = [] then True
        else matchRulePattern pat (snd (parseRule (BuildPermissionString tool m))))"

definition MatchingRule :: "string list \<Rightarrow> string \<Rightarrow> tool_input \<Rightarrow> string option" where
  "MatchingRule rules tool m = find (\<lambda>rule. matchRule rule tool m) rules"

definition MatchesAnyRule :: "string list \<Rightarrow> string \<Rightarrow> tool_input \<Rightarrow> bool" where
  "MatchesAnyRule rules tool m = (MatchingRule rules tool m \<noteq> None)"

section \<open>The always-ask floor\<close>

abbreviation spinclass_tool :: "string \<Rightarrow> string" where
  "spinclass_tool t \<equiv> ''mcp__plugin_spinclass_spinclass__'' @ t"

abbreviation spawnSessionTool where "spawnSessionTool \<equiv> spinclass_tool ''spawn-session''"
abbreviation closeChildSessionTool where "closeChildSessionTool \<equiv> spinclass_tool ''close-child-session''"
abbreviation grantSessionHandleTool where "grantSessionHandleTool \<equiv> spinclass_tool ''grant-session-handle''"
abbreviation releaseSessionHandleTool where "releaseSessionHandleTool \<equiv> spinclass_tool ''release-session-handle''"
abbreviation listHandlesTool where "listHandlesTool \<equiv> spinclass_tool ''list-handles''"
abbreviation restartThisSessionTool where "restartThisSessionTool \<equiv> spinclass_tool ''restart-this-session''"
abbreviation restartChildSessionTool where "restartChildSessionTool \<equiv> spinclass_tool ''restart-child-session''"

text \<open>An argument is off only when absent, null or a real false.\<close>

definition flag_requested :: "string \<Rightarrow> tool_input \<Rightarrow> bool" where
  "flag_requested key m = (case map_of m key of None \<Rightarrow> False | Some JNull \<Rightarrow> False | Some (JBool b) \<Rightarrow> b | Some _ \<Rightarrow> True)"

definition forceRequested :: "tool_input \<Rightarrow> bool" where "forceRequested m = flag_requested ''force'' m"
definition unconfinedRequested :: "tool_input \<Rightarrow> bool" where "unconfinedRequested m = flag_requested ''unconfined'' m"
definition acceptRequested :: "tool_input \<Rightarrow> bool" where "acceptRequested m = flag_requested ''accept'' m"

datatype ask_reason =
    UnconfinedSpawn | WorkerSpawn | ForcedClose | ForcedRestart | HandleGrant | HandleAccept | HandleRelease

text \<open>\<open>SpawnConfined\<close> is the seam the command line installs; \<open>None\<close> is its nil.\<close>

definition AlwaysAsk :: "(tool_input \<Rightarrow> string \<Rightarrow> bool) option \<Rightarrow> string \<Rightarrow> tool_input \<Rightarrow> string \<Rightarrow> ask_reason option" where
  "AlwaysAsk SpawnConfined tool m cwd =
     (if tool = spawnSessionTool then
        (if unconfinedRequested m then Some UnconfinedSpawn
         else if (case SpawnConfined of Some f \<Rightarrow> f m cwd | None \<Rightarrow> False) then None
         else Some WorkerSpawn)
      else if tool = closeChildSessionTool then (if forceRequested m then Some ForcedClose else None)
      else if tool = restartThisSessionTool \<or> tool = restartChildSessionTool then
        (if forceRequested m then Some ForcedRestart else None)
      else if tool = grantSessionHandleTool then Some HandleGrant
      else if tool = listHandlesTool then (if acceptRequested m then Some HandleAccept else None)
      else if tool = releaseSessionHandleTool then Some HandleRelease
      else None)"

section \<open>Tier files\<close>

text \<open>What a read of a tier file gives; \<open>TierData None\<close> is a file without an \<open>allow\<close> list.\<close>

datatype tier_file = NoFile | Unreadable | Malformed | TierData "string list option"

datatype tier_error = TierRead | TierParse | TierWrite

type_synonym tier_fs = "string \<Rightarrow> tier_file"

definition LoadTierFile :: "tier_fs \<Rightarrow> string \<Rightarrow> tier_error + string list" where
  "LoadTierFile fs path =
     (case fs path of
        NoFile \<Rightarrow> Inr [] | Unreadable \<Rightarrow> Inl TierRead | Malformed \<Rightarrow> Inl TierParse
      | TierData None \<Rightarrow> Inr [] | TierData (Some rules) \<Rightarrow> Inr rules)"

text \<open>\<open>writable\<close>: whether making the directory and writing the file succeed.\<close>

definition SaveTierFile :: "(string \<Rightarrow> bool) \<Rightarrow> tier_fs \<Rightarrow> string \<Rightarrow> string list \<Rightarrow> tier_error + tier_fs" where
  "SaveTierFile writable fs path rules =
     (if writable path then Inr (fs(path := TierData (Some rules))) else Inl TierWrite)"

definition AppendToTierFile :: "(string \<Rightarrow> bool) \<Rightarrow> tier_fs \<Rightarrow> string \<Rightarrow> string \<Rightarrow> tier_error + tier_fs" where
  "AppendToTierFile writable fs path rule =
     (case LoadTierFile fs path of
        Inl e \<Rightarrow> Inl e
      | Inr rules \<Rightarrow> if rule \<in> set rules then Inr fs else SaveTierFile writable fs path (rules @ [rule]))"

definition TiersDir :: "string \<Rightarrow> string \<Rightarrow> string" where
  "TiersDir permsDir home =
     (if permsDir \<noteq> [] then permsDir else JoinPath [home, ''.config'', ''spinclass'', ''permissions''])"

definition tierGlobalPath :: "string \<Rightarrow> string" where "tierGlobalPath tiersDir = JoinPath [tiersDir, ''global.json'']"
definition repoPath :: "string \<Rightarrow> string \<Rightarrow> string" where
  "repoPath tiersDir repo = JoinPath [tiersDir, ''repos'', repo @ ''.json'']"

fun dedup_into :: "string list \<Rightarrow> string list \<Rightarrow> string list" where
  "dedup_into merged [] = merged"
| "dedup_into merged (r # rs) = dedup_into (if r \<in> set merged then merged else merged @ [r]) rs"

text \<open>A tier that cannot be read counts as empty here.\<close>

definition LoadTiers :: "tier_fs \<Rightarrow> string \<Rightarrow> string \<Rightarrow> string list" where
  "LoadTiers fs tiersDir repo =
     (let rules = (\<lambda>p. case LoadTierFile fs p of Inl _ \<Rightarrow> [] | Inr rs \<Rightarrow> rs)
      in dedup_into (dedup_into [] (rules (tierGlobalPath tiersDir))) (rules (repoPath tiersDir repo)))"

section \<open>The check hook\<close>

definition repoFromCWD :: "string \<Rightarrow> string" where
  "repoFromCWD cwd =
     (let parts = split1 CHR ''/'' cwd in
      case find (\<lambda>i. (parts ! i = ''worktrees'' \<or> parts ! i = ''repos'') \<and> i + 1 < length parts) [0..<length parts] of
        Some i \<Rightarrow> parts ! (i + 1) | None \<Rightarrow> [])"

datatype check_outcome = CheckError tier_error | Silent | AutoApproved string

definition RunCheck ::
  "(tool_input \<Rightarrow> string \<Rightarrow> bool) option \<Rightarrow> tier_fs \<Rightarrow> string \<Rightarrow> string \<Rightarrow> tool_input \<Rightarrow> string \<Rightarrow> check_outcome" where
  "RunCheck SpawnConfined fs tiersDir tool m cwd =
     (if AlwaysAsk SpawnConfined tool m cwd \<noteq> None then Silent
      else
        let repo = repoFromCWD cwd in
        case LoadTierFile fs (tierGlobalPath tiersDir) of
          Inl e \<Rightarrow> CheckError e
        | Inr globalTier \<Rightarrow>
            (case (if repo \<noteq> [] then LoadTierFile fs (repoPath tiersDir repo) else Inr []) of
               Inl e \<Rightarrow> CheckError e
             | Inr repoTier \<Rightarrow>
                 if repo \<noteq> [] \<and> MatchingRule repoTier tool m \<noteq> None then AutoApproved repo
                 else if MatchingRule globalTier tool m \<noteq> None then AutoApproved ''global''
                 else Silent))"

section \<open>Review\<close>

datatype review_action = PromoteGlobal | PromoteRepo | Keep | Discard | UnknownAction string

record ReviewDecision =
  rd_Rule :: string
  rd_Action :: review_action

fun RouteDecisions ::
  "(string \<Rightarrow> bool) \<Rightarrow> string \<Rightarrow> string \<Rightarrow> ReviewDecision list \<Rightarrow> tier_fs \<Rightarrow> tier_error option \<times> tier_fs" where
  "RouteDecisions writable tiersDir repo [] fs = (None, fs)"
| "RouteDecisions writable tiersDir repo (d # ds) fs =
     (case (case rd_Action d of
              PromoteGlobal \<Rightarrow> AppendToTierFile writable fs (tierGlobalPath tiersDir) (rd_Rule d)
            | PromoteRepo \<Rightarrow> AppendToTierFile writable fs (repoPath tiersDir repo) (rd_Rule d)
            | _ \<Rightarrow> Inr fs) of
        Inl e \<Rightarrow> (Some e, fs)
      | Inr fs' \<Rightarrow> RouteDecisions writable tiersDir repo ds fs')"

section \<open>Retired rules\<close>

record GritFinding =
  gf_Tier :: string
  gf_Rule :: string
  gf_NewTool :: string

abbreviation gritToolPrefix :: string where "gritToolPrefix \<equiv> spinclass_tool ''grit_''"

definition leaf_char :: "char \<Rightarrow> bool" where
  "leaf_char r \<longleftrightarrow> r = CHR ''_'' \<or> r = CHR ''-'' \<or> CHR ''a'' \<le> r \<and> r \<le> CHR ''z'' \<or>
     CHR ''A'' \<le> r \<and> r \<le> CHR ''Z'' \<or> CHR ''0'' \<le> r \<and> r \<le> CHR ''9''"

definition moxyGritLeaf :: "string \<Rightarrow> string option" where
  "moxyGritLeaf rule =
     (case Cut rule ''moxy__grit_'' of
        None \<Rightarrow> None
      | Some (_, after) \<Rightarrow> let leaf = takeWhile leaf_char after in if leaf = [] then None else Some leaf)"

definition grit_findings :: "string \<Rightarrow> string list \<Rightarrow> GritFinding list" where
  "grit_findings tierName rules =
     concat (map (\<lambda>rule. case moxyGritLeaf rule of
        Some leaf \<Rightarrow> [\<lparr>gf_Tier = tierName, gf_Rule = rule, gf_NewTool = gritToolPrefix @ leaf\<rparr>]
      | None \<Rightarrow> []) rules)"

text \<open>\<open>entries\<close>: the listing of the repos directory, \<open>None\<close> when it cannot be read, with which are directories.\<close>

fun grit_scan_repos :: "tier_fs \<Rightarrow> string \<Rightarrow> (string \<times> bool) list \<Rightarrow> tier_error + GritFinding list" where
  "grit_scan_repos fs tiersDir [] = Inr []"
| "grit_scan_repos fs tiersDir ((nm, isDir) # es) =
     (if isDir \<or> \<not> HasSuffix nm ''.json'' then grit_scan_repos fs tiersDir es
      else case LoadTierFile fs (JoinPath [tiersDir, ''repos'', nm]) of
        Inl e \<Rightarrow> Inl e
      | Inr rules \<Rightarrow>
          (case grit_scan_repos fs tiersDir es of
             Inl e \<Rightarrow> Inl e
           | Inr rest \<Rightarrow> Inr (grit_findings (''repo '' @ TrimSuffix nm ''.json'') rules @ rest)))"

definition GritMigrationReport ::
  "tier_fs \<Rightarrow> string \<Rightarrow> (string \<times> bool) list option \<Rightarrow> tier_error + GritFinding list" where
  "GritMigrationReport fs tiersDir entries =
     (case LoadTierFile fs (tierGlobalPath tiersDir) of
        Inl e \<Rightarrow> Inl e
      | Inr rules \<Rightarrow>
          (case entries of
             None \<Rightarrow> Inl TierRead
           | Some es \<Rightarrow>
               (case grit_scan_repos fs tiersDir es of
                  Inl e \<Rightarrow> Inl e
                | Inr rest \<Rightarrow> Inr (grit_findings ''global'' rules @ rest))))"

section \<open>Store tools\<close>

text \<open>
  The verdict on a store tool. The two ways to find the caller's session, and the classification of
  an operation (\<open>alfa/store\<close>), are arguments; \<open>'s\<close> is the session they pass on.
\<close>

datatype store_verdict = StoreAsk | StoreAllow

definition storeToolsWithoutSubcommand :: "string list" where
  "storeToolsWithoutSubcommand = [''commit'', ''merge'', ''clone'']"

definition storeTools :: "string list" where
  "storeTools = [''stage'', ''branch'', ''tag'', ''worktree'', ''remote'', ''stash'', ''commit'', ''merge'', ''clone'']"

definition StoreVerdict ::
  "(string \<Rightarrow> 's option) \<Rightarrow> (string \<Rightarrow> string \<Rightarrow> 's option) \<Rightarrow> ('s \<Rightarrow> string \<Rightarrow> string \<Rightarrow> tool_input \<Rightarrow> store_verdict) \<Rightarrow>
   string \<Rightarrow> tool_input \<Rightarrow> string \<Rightarrow> string \<Rightarrow> bool \<Rightarrow> store_verdict option" where
  "StoreVerdict bySession byCwd Classify toolName m caller cwd inUnit =
     (case CutPrefix toolName gritToolPrefix of
        None \<Rightarrow> None
      | Some tool \<Rightarrow>
          if tool \<notin> set storeTools then None
          else
            let subcommand = (if tool \<in> set storeToolsWithoutSubcommand then Some [] else stringField m ''subcommand'') in
            case subcommand of
              None \<Rightarrow> Some StoreAsk
            | Some sub \<Rightarrow>
                (case (case bySession caller of
                         Some s \<Rightarrow> Some s | None \<Rightarrow> if \<not> inUnit then byCwd cwd caller else None) of
                   None \<Rightarrow> Some (if forceRequested m then StoreAsk else if inUnit then StoreAllow else StoreAsk)
                 | Some s \<Rightarrow> Some (if Classify s tool sub m = StoreAllow then StoreAllow else StoreAsk)))"

section \<open>Rules and invocations\<close>

text \<open>The argument a rule's pattern is matched against.\<close>

definition invocation_arg :: "string \<Rightarrow> tool_input \<Rightarrow> string" where
  "invocation_arg tool m = snd (parseRule (BuildPermissionString tool m))"

lemma parseRule_parens: "CHR ''('' \<notin> set tool \<Longrightarrow> parseRule (tool @ ''('' @ a @ '')'') = (tool, a)"
proof -
  assume "CHR ''('' \<notin> set tool"
  then have "Cut (tool @ CHR ''('' # a @ '')'') ''('' = Some (tool, a @ '')'')" by (rule Cut_char)
  then show ?thesis by (simp add: parseRule_def)
qed

lemma parseRule_plain: "CHR ''('' \<notin> set tool \<Longrightarrow> parseRule tool = (tool, [])"
  by (simp add: parseRule_def Cut_char_nosep)

lemma bash_arg: "stringField m ''command'' = Some c \<Longrightarrow> invocation_arg ''Bash'' m = c"
  using parseRule_parens[of "''Bash''" c] by (simp add: invocation_arg_def BuildPermissionString_def)

lemma matchRule_parens:
  "CHR ''('' \<notin> set tool \<Longrightarrow>
   matchRule (tool @ ''('' @ pat @ '')'') tool' m \<longleftrightarrow> tool = tool' \<and> (pat = [] \<or> matchRulePattern pat (invocation_arg tool' m))"
  by (auto simp: matchRule_def parseRule_parens[simplified] invocation_arg_def)

lemma TrimSuffix_last: "TrimSuffix (p @ [c, d]) [d] = p @ [c]"
  using TrimSuffix_append[of "p @ [c]" "[d]"] by simp

lemma matchRulePattern_colon: "matchRulePattern (p @ '':*'') c \<longleftrightarrow> c = p \<or> (\<exists>rest. c = p @ '' '' @ rest)"
  using TrimSuffix_append[of p "'':*''"] by (simp add: matchRulePattern_def HasSuffix_def HasPrefix_iff)

lemma matchRulePattern_space: "matchRulePattern (p @ '' *'') c \<longleftrightarrow> (\<exists>rest. c = p @ '' '' @ rest)"
  by (simp add: matchRulePattern_def HasSuffix_def HasPrefix_iff TrimSuffix_last)

lemma matchRulePattern_slash: "matchRulePattern (p @ ''/*'') c \<longleftrightarrow> (\<exists>rest. c = p @ ''/'' @ rest)"
  by (simp add: matchRulePattern_def HasSuffix_def HasPrefix_iff TrimSuffix_last)

text \<open>
  What a curated rule approves: a bare tool name (or empty parentheses) approves every invocation
  of that tool; a pattern ending in colon-star the prefix itself or the prefix and a space; one
  ending in space-star or slash-star the prefix with that character; none of them another tool.
\<close>

theorem rule_forms:
  assumes "CHR ''('' \<notin> set tool"
  shows "matchRule tool tool m \<and> matchRule (tool @ ''()'') tool m \<and>
    (matchRule (tool @ ''('' @ p @ '':*)'') tool' m \<longleftrightarrow>
      tool' = tool \<and> (invocation_arg tool m = p \<or> (\<exists>rest. invocation_arg tool m = p @ '' '' @ rest))) \<and>
    (matchRule (tool @ ''('' @ p @ '' *)'') tool' m \<longleftrightarrow> tool' = tool \<and> (\<exists>rest. invocation_arg tool m = p @ '' '' @ rest)) \<and>
    (matchRule (tool @ ''('' @ p @ ''/*)'') tool' m \<longleftrightarrow> tool' = tool \<and> (\<exists>rest. invocation_arg tool m = p @ ''/'' @ rest))"
  using matchRule_parens[OF assms, of "[]" tool m] matchRule_parens[OF assms, of "p @ '':*''" tool' m]
    matchRule_parens[OF assms, of "p @ '' *''" tool' m] matchRule_parens[OF assms, of "p @ ''/*''" tool' m]
  by (auto simp: matchRule_def parseRule_plain[OF assms] matchRulePattern_colon matchRulePattern_space matchRulePattern_slash)

theorem rule_forms_witness: "matchRule ''Bash(git:*)'' ''Bash'' [(''command'', JStr ''git log'')] \<and>
   \<not> matchRule ''Bash(git:*)'' ''Bash'' [(''command'', JStr ''gitk'')]"
  using rule_forms[of "''Bash''" "[(''command'', JStr ''git log'')]" "''git''" "''Bash''"]
    rule_forms[of "''Bash''" "[(''command'', JStr ''gitk'')]" "''git''" "''Bash''"]
    bash_arg[of "[(''command'', JStr ''git log'')]" "''git log''"] bash_arg[of "[(''command'', JStr ''gitk'')]" "''gitk''"]
  by (simp add: stringField_def)

section \<open>Tiers\<close>

lemma filter_all: "filter (\<lambda>r. True) xs = xs"
  by simp

lemma dedup_into_filter: "dedup_into acc rs = acc @ filter (\<lambda>r. r \<notin> set acc) (rev (remdups (rev rs)))"
proof (induction rs arbitrary: acc rule: rev_induct)
  case (snoc r rs)
  have "dedup_into acc (rs @ [r]) = (let m = dedup_into acc rs in if r \<in> set m then m else m @ [r])" for acc
    by (induction rs arbitrary: acc) (auto simp: Let_def)
  with snoc show ?case by (auto simp: Let_def)
qed simp

lemma dedup_into_append: "dedup_into (dedup_into acc rs) rs' = dedup_into acc (rs @ rs')"
  by (induction acc rs rule: dedup_into.induct) simp_all

definition tier_rules :: "tier_fs \<Rightarrow> string \<Rightarrow> string list" where
  "tier_rules fs path = (case LoadTierFile fs path of Inl _ \<Rightarrow> [] | Inr rs \<Rightarrow> rs)"

text \<open>
  C33. The tiers of a repository are the rules of the global file followed by those of its own file,
  each rule kept at its first occurrence only.
\<close>

theorem LoadTiers_first_occurrences:
  "LoadTiers fs tiersDir repo =
   rev (remdups (rev (tier_rules fs (tierGlobalPath tiersDir) @ tier_rules fs (repoPath tiersDir repo))))"
  unfolding LoadTiers_def Let_def tier_rules_def dedup_into_append
  by (simp only: dedup_into_filter list.set(1) empty_iff not_False_eq_True append_Nil filter_all)

text \<open>The file a decision promotes its rule to.\<close>

definition promotes_to :: "string \<Rightarrow> string \<Rightarrow> ReviewDecision \<Rightarrow> string option" where
  "promotes_to tiersDir repo d =
     (case rd_Action d of PromoteGlobal \<Rightarrow> Some (tierGlobalPath tiersDir) | PromoteRepo \<Rightarrow> Some (repoPath tiersDir repo) | _ \<Rightarrow> None)"

lemma append_tier_rules:
  "AppendToTierFile writable fs path rule = Inr fs' \<Longrightarrow>
   set (tier_rules fs' p) = set (tier_rules fs p) \<union> (if p = path then {rule} else {})"
  by (auto simp: AppendToTierFile_def SaveTierFile_def tier_rules_def LoadTierFile_def
      split: sum.splits if_splits tier_file.splits option.splits)

lemma route_step:
  assumes "RouteDecisions writable tiersDir repo (d # ds) fs = (None, fs')"
  shows "\<exists>fs1. RouteDecisions writable tiersDir repo ds fs1 = (None, fs') \<and>
    set (tier_rules fs1 p) = set (tier_rules fs p) \<union> (if promotes_to tiersDir repo d = Some p then {rd_Rule d} else {})"
proof (cases "promotes_to tiersDir repo d")
  case None
  with assms show ?thesis by (intro exI[of _ fs]) (auto simp: promotes_to_def split: review_action.splits)
next
  case (Some path)
  with assms obtain fs1 where "AppendToTierFile writable fs path (rd_Rule d) = Inr fs1"
    "RouteDecisions writable tiersDir repo ds fs1 = (None, fs')"
    by (auto simp: promotes_to_def split: review_action.splits sum.splits)
  with append_tier_rules[OF this(1), of p] Some show ?thesis by (intro exI[of _ fs1]) auto
qed

lemma route_rules:
  "RouteDecisions writable tiersDir repo ds fs = (None, fs') \<Longrightarrow>
   set (tier_rules fs' p) = set (tier_rules fs p) \<union> rd_Rule ` {d \<in> set ds. promotes_to tiersDir repo d = Some p}"
proof (induction ds arbitrary: fs)
  case (Cons d ds)
  from route_step[OF Cons.prems, of p] obtain fs1
    where r: "RouteDecisions writable tiersDir repo ds fs1 = (None, fs')"
      and s: "set (tier_rules fs1 p) = set (tier_rules fs p) \<union> (if promotes_to tiersDir repo d = Some p then {rd_Rule d} else {})"
    by blast
  from Cons.IH[OF r] s show ?case by auto
qed simp

text \<open>
  A review changes exactly what it decided: when every promotion is stored, each tier file holds
  the rules it held before and the rules promoted to it, and no other; kept and discarded rules
  change nothing.
\<close>

theorem review_promotes_exactly:
  assumes "RouteDecisions writable tiersDir repo ds fs = (None, fs')"
  shows "set (tier_rules fs' p) = set (tier_rules fs p) \<union> rd_Rule ` {d \<in> set ds. promotes_to tiersDir repo d = Some p}"
  by (rule route_rules[OF assms])

definition sample_review :: "ReviewDecision list" where
  "sample_review = [\<lparr>rd_Rule = ''Bash(ls:*)'', rd_Action = PromoteGlobal\<rparr>, \<lparr>rd_Rule = ''Read'', rd_Action = Discard\<rparr>]"

theorem review_promotes_exactly_witness:
  "set (tier_rules (snd (RouteDecisions (\<lambda>_. True) ''/p'' ''r'' sample_review (\<lambda>_. NoFile))) (tierGlobalPath ''/p'')) = {''Bash(ls:*)''}"
proof -
  have run: "RouteDecisions (\<lambda>_. True) ''/p'' ''r'' sample_review (\<lambda>_. NoFile) =
      (None, snd (RouteDecisions (\<lambda>_. True) ''/p'' ''r'' sample_review (\<lambda>_. NoFile)))"
    by (simp add: sample_review_def AppendToTierFile_def LoadTierFile_def SaveTierFile_def)
  have "{d \<in> set sample_review. promotes_to ''/p'' ''r'' d = Some (tierGlobalPath ''/p'')} = {hd sample_review}"
    by (auto simp: sample_review_def promotes_to_def)
  with review_promotes_exactly[OF run, of "tierGlobalPath ''/p''"] show ?thesis
    by (simp add: tier_rules_def LoadTierFile_def) (simp add: sample_review_def)
qed

section \<open>The check never passes the floor\<close>

text \<open>
  The permission check approves only what a curated rule names and never an always-ask
  invocation: an approval means the invocation is not on the floor and some rule of the tier it names
  matches it, and every invocation on the floor stays silent, whatever the tiers say.
\<close>

theorem RunCheck_approval:
  "(case RunCheck SpawnConfined fs tiersDir tool m cwd of
      AutoApproved tier \<Rightarrow>
        AlwaysAsk SpawnConfined tool m cwd = None \<and>
        (\<exists>rule. matchRule rule tool m \<and>
          (tier = repoFromCWD cwd \<and> tier \<noteq> [] \<and> rule \<in> set (tier_rules fs (repoPath tiersDir tier)) \<or>
           tier = ''global'' \<and> rule \<in> set (tier_rules fs (tierGlobalPath tiersDir))))
    | _ \<Rightarrow> True) \<and>
   (AlwaysAsk SpawnConfined tool m cwd = None \<or> RunCheck SpawnConfined fs tiersDir tool m cwd = Silent)"
  by (auto simp: RunCheck_def Let_def tier_rules_def MatchingRule_def find_Some_iff
      split: check_outcome.splits sum.splits if_splits)

end
