(* ===== verification/HookPaths.thy ===== *)
theory HookPaths
  imports Perms
begin

text \<open>
  How the tool-use hook reads paths (\<open>src/internal/delta/hooks/hooks.go\<close>, \<open>moxyfile_guard.go\<close>): resolving
  a path whose tail need not exist, the guarded locations, the rewrite of a parent-checkout path into
  the session worktree, and the paths a call names. Symlink resolution (\<open>filepath.EvalSymlinks\<close>,
  \<open>None\<close> is its error) and the shell word splitter are arguments.
\<close>

section \<open>Resolving\<close>

text \<open>The loop over the missing tail: \<open>suffix\<close> is the tail in path order.\<close>

function resolve_up :: "(string \<Rightarrow> string option) \<Rightarrow> string \<Rightarrow> string \<Rightarrow> string list \<Rightarrow> string" where
  "resolve_up EvalSymlinks cleaned current suffix =
     (let suffix = Base current # suffix in
      if Dir current = current then cleaned
      else case EvalSymlinks (Dir current) of
        Some r \<Rightarrow> JoinPath (r # suffix)
      | None \<Rightarrow> resolve_up EvalSymlinks cleaned (Dir current) suffix)"
  by auto
termination by (relation "measure (\<lambda>(_, _, current, _). climb_size current)") (simp_all add: Dir_climbs)

declare resolve_up.simps [simp del]

definition resolvePath :: "(string \<Rightarrow> string option) \<Rightarrow> string \<Rightarrow> string" where
  "resolvePath EvalSymlinks path =
     (case EvalSymlinks path of
        Some r \<Rightarrow> r
      | None \<Rightarrow> resolve_up EvalSymlinks (Clean path) (Clean path) [])"

section \<open>Guarded locations\<close>

definition pathWithin :: "string \<Rightarrow> string \<Rightarrow> bool" where
  "pathWithin path root \<longleftrightarrow> path = root \<or> HasPrefix path (root @ ''/'')"

definition isInsideSpinclassDir :: "(string \<Rightarrow> string option) \<Rightarrow> string \<Rightarrow> string \<Rightarrow> string \<Rightarrow> bool" where
  "isInsideSpinclassDir ES path mainRepoRoot sessionWorktree =
     (let resolved = resolvePath ES path in
      list_ex (\<lambda>root. root \<noteq> [] \<and>
          (HasPrefix resolved (JoinPath [root, ''.spinclass''] @ ''/'') \<or> resolved = JoinPath [root, ''.spinclass'']))
        [mainRepoRoot, sessionWorktree])"

definition isSweatfile :: "(string \<Rightarrow> string option) \<Rightarrow> string \<Rightarrow> string \<Rightarrow> string \<Rightarrow> bool" where
  "isSweatfile ES path mainRepoRoot sessionWorktree =
     (let resolved = resolvePath ES path in
      mainRepoRoot \<noteq> [] \<and> resolved = JoinPath [mainRepoRoot, ''sweatfile''] \<or>
      sessionWorktree \<noteq> [] \<and> resolved = JoinPath [sessionWorktree, ''sweatfile''])"

definition isInsideMainWorktree :: "(string \<Rightarrow> string option) \<Rightarrow> string \<Rightarrow> string \<Rightarrow> string \<Rightarrow> bool" where
  "isInsideMainWorktree ES path mainRepoRoot sessionWorktree =
     (let resolved = resolvePath ES path in
      if sessionWorktree \<noteq> [] \<and> (resolved = sessionWorktree \<or> HasPrefix resolved (sessionWorktree @ ''/''))
      then False
      else resolved = mainRepoRoot \<or> HasPrefix resolved (mainRepoRoot @ ''/''))"

text \<open>The directories a session's moxyfiles are merged from, walking up from its working directory.\<close>

function moxy_dir_above :: "string \<Rightarrow> string \<Rightarrow> string \<Rightarrow> bool" where
  "moxy_dir_above dir resolvedHome d =
     (if d = dir then True
      else if d = resolvedHome \<or> Dir d = d then False
      else moxy_dir_above dir resolvedHome (Dir d))"
  by auto
termination by (relation "measure (\<lambda>(_, _, d). climb_size d)") (simp_all add: Dir_climbs)

declare moxy_dir_above.simps [simp del]

definition isMoxyfile :: "(string \<Rightarrow> string option) \<Rightarrow> string \<Rightarrow> string \<Rightarrow> string \<Rightarrow> bool" where
  "isMoxyfile ES path home cwd =
     (let resolved = resolvePath ES path; dir = Dir resolved;
          resolvedHome = (if home \<noteq> [] then resolvePath ES home else [])
      in if Base resolved \<noteq> ''moxyfile'' then False
         else if home \<noteq> [] \<and> (dir = resolvedHome \<or> dir = JoinPath [resolvedHome, ''.config'', ''moxy'']) then True
         else if cwd = [] then False
         else moxy_dir_above dir resolvedHome (resolvePath ES cwd))"

section \<open>The rewrite into the worktree\<close>

text \<open>The new value, \<open>None\<close> when the value is left alone.\<close>

definition rewritePathString :: "(string \<Rightarrow> string option) \<Rightarrow> string \<Rightarrow> string \<Rightarrow> string \<Rightarrow> string option" where
  "rewritePathString ES val mainRoot worktree =
     (if val = [] then None
      else
        let resolved = resolvePath ES val in
        if resolved = worktree \<or> HasPrefix resolved (worktree @ ''/'') then None
        else if resolved \<noteq> mainRoot \<and> \<not> HasPrefix resolved (mainRoot @ ''/'') then None
        else case Rel mainRoot resolved of
          None \<Rightarrow> None
        | Some rel \<Rightarrow>
            let first = takeWhile (\<lambda>c. c \<noteq> CHR ''/'') rel in
            if rel \<noteq> ''.'' \<and> (first = ''.worktrees'' \<or> first = ''.spinclass'') then None
            else Some (JoinPath [worktree, rel]))"

definition rewriteArgValue :: "(string \<Rightarrow> string option) \<Rightarrow> json \<Rightarrow> string \<Rightarrow> string \<Rightarrow> json option" where
  "rewriteArgValue ES v mainRoot worktree =
     (let one = (\<lambda>s. rewritePathString ES s mainRoot worktree) in
      case v of
        JStr s \<Rightarrow> map_option JStr (one s)
      | JArr xs \<Rightarrow>
          (if list_ex (\<lambda>e. case e of JStr s \<Rightarrow> one s \<noteq> None | _ \<Rightarrow> False) xs
           then Some (JArr (map (\<lambda>e. case e of JStr s \<Rightarrow> (case one s of Some t \<Rightarrow> JStr t | None \<Rightarrow> e) | _ \<Rightarrow> e) xs))
           else None)
      | _ \<Rightarrow> None)"

fun rewrite_tokens ::
  "(string \<Rightarrow> string option) \<Rightarrow> string \<Rightarrow> string \<Rightarrow> string list \<Rightarrow> string list \<Rightarrow> string \<Rightarrow> bool \<Rightarrow> string \<times> bool" where
  "rewrite_tokens ES mainRoot worktree [] seen cmd changed = (cmd, changed)"
| "rewrite_tokens ES mainRoot worktree (tok # toks) seen cmd changed =
     (if \<not> HasPrefix tok ''/'' \<or> tok \<in> set seen then rewrite_tokens ES mainRoot worktree toks seen cmd changed
      else case rewritePathString ES tok mainRoot worktree of
        None \<Rightarrow> rewrite_tokens ES mainRoot worktree toks (tok # seen) cmd changed
      | Some nv \<Rightarrow> rewrite_tokens ES mainRoot worktree toks (tok # seen) (ReplaceAll cmd tok nv) True)"

definition rewriteBashCommand ::
  "(string \<Rightarrow> string option) \<Rightarrow> (string \<Rightarrow> string list option) \<Rightarrow> string \<Rightarrow> string \<Rightarrow> string \<Rightarrow> string option" where
  "rewriteBashCommand ES shlex cmd mainRoot worktree =
     (case shlex cmd of
        None \<Rightarrow> None
      | Some toks \<Rightarrow>
          (case rewrite_tokens ES mainRoot worktree toks [] cmd False of
             (cmd', changed) \<Rightarrow> if changed then Some cmd' else None))"

definition builtinRewriteTools :: "string list" where
  "builtinRewriteTools = [''Read'', ''Write'', ''Edit'', ''NotebookEdit'', ''Glob'', ''Grep'', ''Bash'']"

definition pathArgKeys :: "string list" where
  "pathArgKeys =
     [''file_path'', ''path'', ''notebook_path'', ''dest_path'', ''dest_dir'', ''source'', ''destination'',
      ''target'', ''repo_path'', ''cwd'', ''flake_dir'', ''file'', ''files'', ''paths'']"

abbreviation moxyToolPrefix :: string where "moxyToolPrefix \<equiv> ''mcp__plugin_moxy_moxy__''"

definition isRewriteTargetTool :: "string \<Rightarrow> bool" where
  "isRewriteTargetTool name \<longleftrightarrow> name \<in> set builtinRewriteTools \<or> HasPrefix name moxyToolPrefix"

text \<open>The corrected input and the changed keys; the keys of an input are distinct.\<close>

definition rewriteWorktreePaths ::
  "(string \<Rightarrow> string option) \<Rightarrow> (string \<Rightarrow> string list option) \<Rightarrow> string \<Rightarrow> tool_input \<Rightarrow> string \<Rightarrow> string \<Rightarrow>
   (tool_input \<times> string) option" where
  "rewriteWorktreePaths ES shlex tool m mainRoot worktree =
     (if \<not> isRewriteTargetTool tool \<or> m = [] then None
      else
        let newv = (\<lambda>(k, v).
              if tool = ''Bash'' then
                (if k = ''command'' then (case v of JStr c \<Rightarrow> map_option JStr (rewriteBashCommand ES shlex c mainRoot worktree) | _ \<Rightarrow> None)
                 else None)
              else if k \<in> set pathArgKeys then rewriteArgValue ES v mainRoot worktree else None);
            changed = map fst (filter (\<lambda>kv. newv kv \<noteq> None) m)
        in if changed = [] then None
           else Some (map (\<lambda>kv. case newv kv of Some v' \<Rightarrow> (fst kv, v') | None \<Rightarrow> kv) m, Join (sort changed) '', ''))"

section \<open>The paths a call names\<close>

definition absolute_tokens :: "(string \<Rightarrow> string list option) \<Rightarrow> tool_input \<Rightarrow> string list" where
  "absolute_tokens shlex m =
     (case stringField m ''command'' of
        None \<Rightarrow> []
      | Some cmd \<Rightarrow> if cmd = [] then [] else (case shlex cmd of None \<Rightarrow> [] | Some toks \<Rightarrow> filter (\<lambda>t. HasPrefix t ''/'') toks))"

definition nonempty_field :: "tool_input \<Rightarrow> string \<Rightarrow> string list" where
  "nonempty_field m key = (case stringField m key of Some p \<Rightarrow> if p \<noteq> [] then [p] else [] | None \<Rightarrow> [])"

definition extractPaths :: "(string \<Rightarrow> string list option) \<Rightarrow> string \<Rightarrow> tool_input \<Rightarrow> string list" where
  "extractPaths shlex tool m =
     (if tool \<in> {''Read'', ''Write'', ''Edit''} then nonempty_field m ''file_path''
      else if tool \<in> {''Glob'', ''Grep'', ''Find''} then nonempty_field m ''path''
      else if tool = ''Bash'' then absolute_tokens shlex m
      else [])"

text \<open>The command suggested instead of a \<open>cd\<close> into the main worktree, \<open>None\<close> when there is none.\<close>

definition checkBashCdToMainWorktree ::
  "(string \<Rightarrow> string option) \<Rightarrow> (string \<Rightarrow> string list option) \<Rightarrow> tool_input \<Rightarrow> string \<Rightarrow> string \<Rightarrow> string option" where
  "checkBashCdToMainWorktree ES shlex m mainRepoRoot sessionWorktree =
     (case stringField m ''command'' of
        None \<Rightarrow> None
      | Some cmd \<Rightarrow>
          if cmd = [] then None
          else case shlex cmd of
            None \<Rightarrow> None
          | Some toks \<Rightarrow>
              (case toks of
                 a # cdTarget # rest \<Rightarrow>
                   if a \<noteq> ''cd'' then None
                   else
                     let restTokens = (case dropWhile (\<lambda>t. t \<noteq> ''&&'' \<and> t \<noteq> '';'') rest of [] \<Rightarrow> [] | _ # ts \<Rightarrow> ts);
                         suggestion = Join restTokens '' ''
                     in if \<not> isInsideMainWorktree ES (resolvePath ES cdTarget) mainRepoRoot sessionWorktree then None
                        else Some (if suggestion = [] then ''(no command after cd)'' else suggestion)
               | _ \<Rightarrow> None))"

section \<open>What the reading of a path decides\<close>

lemma within_abs_path:
  assumes "\<forall>e \<in> set rs. plain_elem e" "\<forall>e \<in> set ps. plain_elem e" "rs \<noteq> []"
  shows "abs_path ps = abs_path rs \<or> HasPrefix (abs_path ps) (abs_path rs @ ''/'') \<longleftrightarrow> (\<exists>us. ps = rs @ us)"
  unfolding HasPrefix_abs_path[OF assms] abs_path_inj[OF assms(2,1)] by (metis append_Nil2)

lemma plain_elem_segment: "plain_elem e \<Longrightarrow> e \<noteq> [] \<and> slash \<notin> set e"
  by (simp add: plain_elem_def)

lemma first_segment:
  assumes "\<forall>e \<in> set us. plain_elem e" "us \<noteq> []"
  shows "takeWhile (\<lambda>c. c \<noteq> slash) (Join us ''/'') = hd us"
proof -
  obtain u vs where us: "us = u # vs" using assms(2) by (cases us) auto
  with assms(1) have "\<forall>c \<in> set u. c \<noteq> slash" using plain_elem_segment by auto
  then have t: "takeWhile (\<lambda>c. c \<noteq> slash) (u @ slash # t) = u" "takeWhile (\<lambda>c. c \<noteq> slash) u = u" for t
    by (auto simp: takeWhile_append2)
  show ?thesis using us t by (cases vs) auto
qed

lemma Join_not_dot:
  assumes "\<forall>e \<in> set us. plain_elem e" "us \<noteq> []"
  shows "Join us ''/'' \<noteq> ''.''"
proof
  assume "Join us ''/'' = ''.''"
  then have "takeWhile (\<lambda>c. c \<noteq> slash) (Join us ''/'') = ''.''" by simp
  with first_segment[OF assms] have "hd us = ''.''" by simp
  with assms show False by (cases us) (auto simp: plain_elem_def)
qed

lemma JoinPath_rel:
  assumes "\<forall>e \<in> set (ws @ us). plain_elem e" "ws \<noteq> []" "us \<noteq> []"
  shows "JoinPath [abs_path ws, Join us ''/''] = abs_path (ws @ us)"
proof -
  have "Join [abs_path ws, Join us ''/''] ''/'' = abs_path (ws @ us)"
    using assms(2,3) by (simp add: abs_path_append)
  moreover have "abs_path ws \<noteq> []" by (simp add: abs_path_def)
  ultimately show ?thesis using assms(1) by (simp del: Join.simps)
qed

lemma JoinPath_dot:
  assumes "\<forall>e \<in> set ws. plain_elem e" "ws \<noteq> []"
  shows "JoinPath [abs_path ws, ''.''] = abs_path ws"
proof -
  have s: "split1 slash (abs_path ws @ ''/.'') = [] # ws @ [''.'']"
  proof -
    have "\<forall>e \<in> set (ws @ [''.'']). slash \<notin> set e" using assms(1) plain_elem_segment by auto
    then have "split1 slash (abs_path (ws @ [''.''])) = [] # ws @ [''.'']" by (intro split1_abs_path) auto
    then show ?thesis using assms(2) by (simp add: abs_path_append)
  qed
  have "clean_elems True (ws @ [''.'']) = ws"
    using fold_clean_plain[OF assms(1), of True "[]"] by (simp add: clean_elems_def)
  then have "path_elems (abs_path ws @ ''/.'') = ws"
    using s by (simp add: path_elems_def IsAbs_def abs_path_def)
  moreover have "IsAbs (abs_path ws @ ''/.'')" by (simp add: IsAbs_def abs_path_def)
  ultimately have "Clean (abs_path ws @ ''/.'') = abs_path ws" by (simp add: Clean_abs)
  moreover have "abs_path ws \<noteq> []" by (simp add: abs_path_def)
  ultimately show ?thesis by simp
qed

text \<open>
  The path rewrite is exact: with the parent checkout and the session worktree at absolute clean
  paths, a nonempty value that resolves to an absolute path is rewritten exactly when that path lies
  in the parent checkout, outside the session worktree and outside the checkout's \<open>.worktrees\<close> and
  \<open>.spinclass\<close> trees, and then to the same relative path below the worktree.
\<close>

theorem rewrite_into_worktree:
  assumes "\<forall>e \<in> set ms. plain_elem e" "\<forall>e \<in> set ws. plain_elem e" "\<forall>e \<in> set rs. plain_elem e" "ms \<noteq> []" "ws \<noteq> []"
    and "val \<noteq> []" "resolvePath ES val = abs_path rs"
  shows "rewritePathString ES val (abs_path ms) (abs_path ws) = Some v \<longleftrightarrow>
    (\<nexists>us. rs = ws @ us) \<and>
    (\<exists>us. rs = ms @ us \<and> (us = [] \<or> hd us \<notin> {''.worktrees'', ''.spinclass''}) \<and> v = abs_path (ws @ us))"
proof (cases "(\<nexists>us. rs = ws @ us) \<and> (\<exists>us. rs = ms @ us)")
  case False
  then show ?thesis
    using within_abs_path[OF assms(2,3,5)] within_abs_path[OF assms(1,3,4)] assms(6,7)
    by (auto simp: rewritePathString_def Let_def)
next
  case True
  then obtain us where us: "rs = ms @ us" and out: "\<nexists>us. rs = ws @ us" by blast
  have not: "\<not> (abs_path rs = abs_path ws \<or> HasPrefix (abs_path rs) (abs_path ws @ ''/''))"
    "abs_path rs = abs_path ms \<or> HasPrefix (abs_path rs) (abs_path ms @ ''/'')"
    using within_abs_path[OF assms(2,3,5)] within_abs_path[OF assms(1,3,4)] out us by blast+
  have only: "rs = ms @ us' \<longleftrightarrow> us' = us" for us' using us by auto
  have plain: "\<forall>e \<in> set us. plain_elem e" using assms(3) us by auto
  show ?thesis
  proof (cases "us = []")
    case True
    then have "Rel (abs_path ms) (abs_path rs) = Some ''.''" using us by (simp add: Rel_self)
    then have "rewritePathString ES val (abs_path ms) (abs_path ws) = Some (JoinPath [abs_path ws, ''.''])"
      using not assms(6,7) by (simp add: rewritePathString_def Let_def)
    then show ?thesis using JoinPath_dot[OF assms(2,5)] out only True by auto
  next
    case False
    have "path_elems (abs_path rs) = path_elems (abs_path ms) @ us"
      unfolding path_elems_abs[OF assms(3)] path_elems_abs[OF assms(1)] by (rule us)
    from Rel_below[OF _ _ this False] have "Rel (abs_path ms) (abs_path rs) = Some (Join us ''/'')" by simp
    moreover have join: "JoinPath [abs_path ws, Join us ''/''] = abs_path (ws @ us)"
      using assms(2,5) plain False by (intro JoinPath_rel) auto
    ultimately have "rewritePathString ES val (abs_path ms) (abs_path ws) =
        (if hd us = ''.worktrees'' \<or> hd us = ''.spinclass'' then None else Some (abs_path (ws @ us)))"
      unfolding join[symmetric] using not assms(6,7) Join_not_dot[OF plain False] first_segment[OF plain False]
      by (auto simp add: rewritePathString_def Let_def simp del: JoinPath.simps Join.simps)
    then show ?thesis using out only False by auto
  qed
qed

theorem rewrite_into_worktree_witness:
  "rewritePathString Some ''/p/r/src/a.go'' ''/p/r'' ''/p/r/.worktrees/w'' = Some ''/p/r/.worktrees/w/src/a.go''"
proof -
  have "\<forall>e \<in> set [''p'', ''r'']. plain_elem e" "\<forall>e \<in> set [''p'', ''r'', ''.worktrees'', ''w'']. plain_elem e"
    "\<forall>e \<in> set [''p'', ''r'', ''src'', ''a.go'']. plain_elem e"
    by (simp_all add: plain_elem_def)
  from rewrite_into_worktree[OF this, of "''/p/r/src/a.go''" Some "''/p/r/.worktrees/w/src/a.go''"]
  show ?thesis by (simp add: resolvePath_def abs_path_def)
qed

text \<open>
  The rewrite of a Bash command is not word by word: replacing every occurrence of a rewritten
  word also rewrites inside longer words that start with it, so a path that is already inside the
  session worktree, or outside the repository, is turned into a path that names nothing.
\<close>

theorem bash_rewrite_corrupts_longer_words:
  "rewriteBashCommand Some (\<lambda>s. Some (split1 CHR '' '' s)) ''ls /r /r/.worktrees/w/f'' ''/r'' ''/r/.worktrees/w'' =
     Some ''ls /r/.worktrees/w /r/.worktrees/w/.worktrees/w/f'' \<and>
   rewriteBashCommand Some (\<lambda>s. Some (split1 CHR '' '' s)) ''ls /r /rx'' ''/r'' ''/r/.worktrees/w'' =
     Some ''ls /r/.worktrees/w /r/.worktrees/wx'' \<and>
   rewritePathString Some ''/r/.worktrees/w/f'' ''/r'' ''/r/.worktrees/w'' = None \<and>
   rewritePathString Some ''/rx'' ''/r'' ''/r/.worktrees/w'' = None"
  by (intro conjI) code_simp+

end
