(* ===== verification/GoStrconv.thy ===== *)
theory GoStrconv
  imports GoClock
begin

text \<open>
  Go's conversions between integers and their decimal text (\<open>strconv.Itoa\<close>, \<open>strconv.Atoi\<close>) and the
  fields of a string (\<open>strings.Fields\<close>), with the laws the components rest on.
\<close>

text \<open>\<open>strings.Fields\<close>.\<close>

function fields_scan :: "string \<Rightarrow> string \<Rightarrow> string list" where
  "fields_scan s cur =
     (case strip_one space_encodings s of
        Some t \<Rightarrow> (if cur = [] then [] else [cur]) @ fields_scan t []
      | None \<Rightarrow>
          (case s of [] \<Rightarrow> (if cur = [] then [] else [cur])
           | c # cs \<Rightarrow> fields_scan cs (cur @ [c])))"
  by pat_completeness auto
termination by (relation "measure (\<lambda>(s, _). length s)") (auto dest: strip_one_shorter)

declare fields_scan.simps [simp del]

definition Fields :: "string \<Rightarrow> string list" where
  "Fields s = fields_scan s []"

section \<open>Integers\<close>

definition Itoa :: "int \<Rightarrow> string" where
  "Itoa i = (if i < 0 then CHR ''-'' # pad_digits 1 (nat (- i)) else pad_digits 1 (nat i))"

text \<open>\<open>strconv.Atoi\<close>: the number and whether there was an error; a number too large is clamped.\<close>

fun parseUint :: "string \<Rightarrow> nat \<Rightarrow> nat option" where
  "parseUint [] n = Some n"
| "parseUint (c # cs) n =
     (case digit_of c of
        None \<Rightarrow> None
      | Some d \<Rightarrow> if n * 10 + d \<ge> 2 ^ 64 then Some (2 ^ 64 - 1) else parseUint cs (n * 10 + d))"

definition Atoi :: "string \<Rightarrow> int \<times> bool" where
  "Atoi s =
     (let neg = HasPrefix s ''-''; body = (if neg \<or> HasPrefix s ''+'' then drop 1 s else s) in
      case (if body = [] then None else parseUint body 0) of
        None \<Rightarrow> (0, True)
      | Some n \<Rightarrow>
          if \<not> neg \<and> n \<ge> 2 ^ 63 then (2 ^ 63 - 1, True)
          else if neg \<and> n > 2 ^ 63 then (- (2 ^ 63), True)
          else (if neg then - int n else int n, False))"

declare pad_digits.simps(1) [simp del]

section \<open>Laws\<close>

lemma read_pad_digits_zero: "read_digits (pad_digits 0 n) 0 = Some n"
proof (induction n rule: less_induct)
  case (less n)
  show ?case
  proof (cases "n = 0")
    case True
    then show ?thesis by (simp add: pad_digits.simps(1)[of 0])
  next
    case False
    then have "pad_digits 0 n = pad_digits 0 (n div 10) @ [digit_char (n mod 10)]"
      by (subst pad_digits.simps(1)) simp
    with less[of "n div 10"] False show ?thesis by (simp add: read_digits_append)
  qed
qed

lemma read_pad_digits_all: "read_digits (pad_digits w n) 0 = Some n"
  by (induction w arbitrary: n) (simp_all add: read_pad_digits_zero read_digits_append)

lemma read_digits_digit: "read_digits s a = Some n \<Longrightarrow> c \<in> set s \<Longrightarrow> digit_of c \<noteq> None"
  by (induction s arbitrary: a) (auto split: option.splits)

lemma pad_digits_no_dash: "CHR ''-'' \<notin> set (pad_digits w n)"
proof
  assume "CHR ''-'' \<in> set (pad_digits w n)"
  from read_digits_digit[OF read_pad_digits_all this] show False by (simp add: digit_of_def)
qed

lemma pad_digits_inj: "pad_digits w n = pad_digits w n' \<Longrightarrow> n = n'"
  by (metis read_pad_digits_all option.inject)

lemma read_digits_mono: "read_digits s n = Some m \<Longrightarrow> n \<le> m"
proof (induction s arbitrary: n)
  case (Cons c cs)
  then obtain d where "read_digits cs (n * 10 + d) = Some m" by (auto split: option.splits)
  from Cons.IH[OF this] show ?case by simp
qed simp

lemma parseUint_read: "read_digits s n = Some m \<Longrightarrow> m < 2 ^ 64 \<Longrightarrow> parseUint s n = Some m"
proof (induction s arbitrary: n)
  case (Cons c cs)
  then obtain d where d: "digit_of c = Some d" "read_digits cs (n * 10 + d) = Some m" by (auto split: option.splits)
  with read_digits_mono[OF d(2)] Cons show ?case by simp
qed simp

lemma pad_digits_Suc_nonempty: "pad_digits (Suc w) n \<noteq> []"
  by simp

lemma digits_first: "pad_digits (Suc 0) n = c # cs \<Longrightarrow> digit_of c \<noteq> None"
  using read_digits_digit[OF read_pad_digits_all[of "Suc 0" n], of c] by simp

lemma Atoi_Itoa: "0 \<le> i \<Longrightarrow> i < 2 ^ 63 \<Longrightarrow> Atoi (Itoa i) = (i, False)"
proof -
  assume i: "0 \<le> i" "i < 2 ^ 63"
  obtain c cs where ds: "pad_digits (Suc 0) (nat i) = c # cs"
    using pad_digits_Suc_nonempty by (cases "pad_digits (Suc 0) (nat i)") auto
  have c: "c \<noteq> CHR ''-''" "c \<noteq> CHR ''+''"
    using digits_first[OF ds] by (auto simp: digit_of_def)
  from i have "nat i < 2 ^ 63" by (simp add: nat_less_iff)
  then have n: "nat i < 2 ^ 64" by simp
  have "parseUint (c # cs) 0 = Some (nat i)"
    using parseUint_read[OF read_pad_digits_all n, of "Suc 0"] ds by simp
  with i c \<open>nat i < 2 ^ 63\<close> show ?thesis
    by (simp add: Atoi_def Itoa_def ds del: parseUint.simps pad_digits.simps)
qed

end
