(* ===== verification/BashGuard.thy ===== *)
theory BashGuard
  imports GoPath GoStrconv
begin

text \<open>
  The guard on session verbs run through Bash (\<open>src/internal/delta/hooks/agent_sc_guard.go\<close>): a
  command line is cut at its unquoted separators and every simple command is inspected for an
  invocation of the \<open>sc\<close> binary with a verb that is not read-only. Word splitting is a third-party
  package, so it is an argument (\<open>None\<close> is its error).
\<close>

section \<open>Verbs\<close>

definition isReadOnlyScVerb :: "string \<Rightarrow> bool" where
  "isReadOnlyScVerb verb \<longleftrightarrow>
     verb \<in> {''list'', ''version'', ''validate'', ''whoami'', ''list-handles'', ''perms-list'', ''host-load'',
       ''implicit-session-key'', ''attestation'', ''session-health''}"

definition scVerbMCPTool :: "string \<Rightarrow> string option" where
  "scVerbMCPTool verb =
     (if verb = ''merge'' then Some ''merge-this-session''
      else if verb = ''check'' then Some ''check-this-session''
      else if verb = ''spawn'' then Some ''spawn-session''
      else if verb = ''update-description'' then Some ''update-this-session-description''
      else if verb \<in> {''close-child-session'', ''close-this-session'', ''restart-this-session'', ''restart-child-session'',
          ''restart-hung-child'', ''cancel-restart'', ''grant-session-handle'', ''release-session-handle'', ''resurrect''}
      then Some verb
      else None)"

text \<open>The wrappers skipped ahead of a command, with the flags that take a value.\<close>

definition scWrapperValueFlags :: "(string \<times> string list) list" where
  "scWrapperValueFlags =
     [(''env'', [''-u'', ''-C'', ''-S'', ''--unset'', ''--chdir'', ''--split-string'']),
      (''command'', []),
      (''exec'', [''-a'']),
      (''nohup'', []),
      (''time'', [''-f'', ''-o'', ''--format'', ''--output'']),
      (''sudo'', [''-u'', ''-g'', ''-h'', ''-p'', ''-C'', ''-D'', ''-R'', ''-T'', ''-U'']),
      (''nice'', [''-n'', ''--adjustment''])]"

definition word_start :: "char \<Rightarrow> bool" where
  "word_start c \<longleftrightarrow> CHR ''A'' \<le> c \<and> c \<le> CHR ''Z'' \<or> CHR ''a'' \<le> c \<and> c \<le> CHR ''z'' \<or> c = CHR ''_''"

definition word_char :: "char \<Rightarrow> bool" where
  "word_char c \<longleftrightarrow> word_start c \<or> CHR ''0'' \<le> c \<and> c \<le> CHR ''9''"

definition shellAssignment :: "string \<Rightarrow> bool" where
  "shellAssignment s \<longleftrightarrow>
     (case s of [] \<Rightarrow> False
      | c # cs \<Rightarrow> word_start c \<and> (case dropWhile word_char cs of d # _ \<Rightarrow> d = CHR ''='' | [] \<Rightarrow> False))"

datatype sc_deny = ScDeny string "string option"

definition scDenyReason :: "string \<Rightarrow> string \<Rightarrow> sc_deny" where
  "scDenyReason verb sub =
     (let name = (if verb = ''perms'' \<and> sub \<noteq> [] then verb @ '' '' @ sub else verb)
      in ScDeny (if name = [] then ''<unparseable>'' else name)
           (map_option (\<lambda>t. ''mcp__plugin_spinclass_spinclass__'' @ t) (scVerbMCPTool verb)))"

section \<open>Cutting a command line\<close>

definition flush :: "string \<Rightarrow> string list" where
  "flush cur = (let s = TrimSpace cur in if s \<noteq> [] then [s] else [])"

definition backslash :: char where "backslash = CHR 0x5C"
definition double_quote :: char where "double_quote = CHR 0x22"
definition single_quote :: char where "single_quote = CHR 0x27"

definition separator :: "char \<Rightarrow> bool" where
  "separator r \<longleftrightarrow> r \<in> set [CHR ''&'', CHR ''|'', CHR '';'', CHR 0x0A, CHR ''('', CHR '')'', CHR 0x60]"

fun split_scan :: "string \<Rightarrow> char option \<Rightarrow> string \<Rightarrow> string list" where
  "split_scan [] quote cur = flush cur"
| "split_scan (r # rs) (Some q) cur =
     (if r = backslash \<and> q = double_quote \<and> rs \<noteq> []
      then (case rs of r2 # rs2 \<Rightarrow> split_scan rs2 (Some q) (cur @ [r, r2]) | [] \<Rightarrow> [])
      else if r = q then split_scan rs None (cur @ [r])
      else split_scan rs (Some q) (cur @ [r]))"
| "split_scan (r # rs) None cur =
     (if r = backslash \<and> rs \<noteq> []
      then (case rs of r2 # rs2 \<Rightarrow> split_scan rs2 None (cur @ [r, r2]) | [] \<Rightarrow> [])
      else if r = single_quote \<or> r = double_quote then split_scan rs (Some r) (cur @ [r])
      else if separator r then flush cur @ split_scan rs None []
      else split_scan rs None (cur @ [r]))"

definition splitSimpleCommands :: "string \<Rightarrow> string list" where
  "splitSimpleCommands cmd = split_scan cmd None []"

section \<open>One simple command\<close>

definition isScBinary :: "string \<Rightarrow> bool" where
  "isScBinary argv0 \<longleftrightarrow> Base argv0 = ''sc'' \<or> Base argv0 = ''spinclass''"

fun skip_flags :: "string list \<Rightarrow> string list \<Rightarrow> string list" where
  "skip_flags valueFlags [] = []"
| "skip_flags valueFlags (a # as) =
     (if a \<in> set valueFlags then (case as of [] \<Rightarrow> [] | _ # bs \<Rightarrow> skip_flags valueFlags bs)
      else if HasPrefix a ''-'' \<or> shellAssignment a then skip_flags valueFlags as
      else a # as)"

lemma skip_flags_length: "length (skip_flags vf as) \<le> length as"
proof (induction vf as rule: skip_flags.induct)
  case (2 vf a as)
  show ?case
  proof (cases "a \<in> set vf")
    case True
    with 2(1) show ?thesis by (cases as) (auto intro: le_SucI)
  next
    case False
    with 2(2) show ?thesis by (auto intro: le_SucI)
  qed
qed simp

function skipLeadingWrappers :: "string list \<Rightarrow> string list" where
  "skipLeadingWrappers [] = []"
| "skipLeadingWrappers (a # as) =
     (if shellAssignment a then skipLeadingWrappers as
      else case map_of scWrapperValueFlags (Base a) of
        None \<Rightarrow> a # as
      | Some valueFlags \<Rightarrow> skipLeadingWrappers (skip_flags valueFlags as))"
  by pat_completeness auto
termination by (relation "measure length") (auto simp: less_Suc_eq_le skip_flags_length)

record sc_parse =
  sp_verb :: string
  sp_sub :: string
  sp_help :: bool
  sp_ok :: bool

definition help_flag :: "string \<Rightarrow> bool" where
  "help_flag a \<longleftrightarrow> a = ''--help'' \<or> a = ''-h''"

definition global_flag :: "string \<Rightarrow> bool" where
  "global_flag a \<longleftrightarrow> HasPrefix a ''--format='' \<or> a = ''-v'' \<or> a = ''--verbose''"

fun scVerb :: "string list \<Rightarrow> sc_parse" where
  "scVerb [] = \<lparr>sp_verb = [], sp_sub = [], sp_help = False, sp_ok = True\<rparr>"
| "scVerb (a # args) =
     (if help_flag a then \<lparr>sp_verb = [], sp_sub = [], sp_help = True, sp_ok = True\<rparr>
      else if a = ''--format'' then (case args of [] \<Rightarrow> \<lparr>sp_verb = [], sp_sub = [], sp_help = False, sp_ok = True\<rparr> | _ # bs \<Rightarrow> scVerb bs)
      else if global_flag a then scVerb args
      else if HasPrefix a ''-'' then \<lparr>sp_verb = [], sp_sub = [], sp_help = False, sp_ok = False\<rparr>
      else \<lparr>sp_verb = a,
            sp_sub = (case find (\<lambda>r. \<not> HasPrefix r ''-'') args of Some r \<Rightarrow> r | None \<Rightarrow> []),
            sp_help = (case args of [r] \<Rightarrow> help_flag r | _ \<Rightarrow> False), sp_ok = True\<rparr>)"

definition hasAcceptFlag :: "string list \<Rightarrow> bool" where
  "hasAcceptFlag args \<longleftrightarrow> list_ex (\<lambda>a. a = ''--accept'' \<or> HasPrefix a ''--accept='') args"

text \<open>\<open>strings.Trim\<close> of the two quote characters.\<close>

definition trim_quotes :: "string \<Rightarrow> string" where
  "trim_quotes s =
     (let q = (\<lambda>c. c = double_quote \<or> c = single_quote) in rev (dropWhile q (rev (dropWhile q s))))"

definition checkSimpleCommandScVerb :: "(string \<Rightarrow> string list option) \<Rightarrow> string \<Rightarrow> sc_deny option" where
  "checkSimpleCommandScVerb shlex seg =
     (case shlex seg of
        None \<Rightarrow> if list_ex (\<lambda>f. isScBinary (trim_quotes f)) (Fields seg) then Some (scDenyReason [] []) else None
      | Some words \<Rightarrow>
          (case skipLeadingWrappers words of
             [] \<Rightarrow> None
           | argv0 # args \<Rightarrow>
               if \<not> isScBinary argv0 then None
               else
                 let p = scVerb args; verb = sp_verb p; sub = sp_sub p in
                 if \<not> sp_ok p then Some (scDenyReason [] [])
                 else if sp_help p \<or> verb = [] \<or> verb = ''help'' then None
                 else if verb = ''perms'' \<and> sub = ''list'' then None
                 else if verb = ''list-handles'' \<and> hasAcceptFlag args then Some (scDenyReason verb sub)
                 else if isReadOnlyScVerb verb then None
                 else Some (scDenyReason verb sub)))"

text \<open>The first reason among the segments; \<open>None\<close> is the empty reason.\<close>

fun first_reason :: "(string \<Rightarrow> sc_deny option) \<Rightarrow> string list \<Rightarrow> sc_deny option" where
  "first_reason f [] = None"
| "first_reason f (s # ss) = (case f s of Some r \<Rightarrow> Some r | None \<Rightarrow> first_reason f ss)"

definition checkBashScVerb :: "(string \<Rightarrow> string list option) \<Rightarrow> string \<Rightarrow> sc_deny option" where
  "checkBashScVerb shlex cmd = first_reason (checkSimpleCommandScVerb shlex) (splitSimpleCommands cmd)"

section \<open>What the guard lets through\<close>

lemma first_reason_None: "first_reason f ss = None \<longleftrightarrow> (\<forall>s \<in> set ss. f s = None)"
  by (induction ss) (auto split: option.splits)

text \<open>The arguments ahead of a verb that the guard reads past.\<close>

fun before_verb :: "string list \<Rightarrow> bool" where
  "before_verb [] = True"
| "before_verb (a # as) =
     (if a = ''--format'' then (case as of [] \<Rightarrow> False | _ # bs \<Rightarrow> before_verb bs) else global_flag a \<and> before_verb as)"

lemma global_flag_not: "global_flag a \<Longrightarrow> \<not> help_flag a"
  by (auto simp: global_flag_def help_flag_def)

lemma format_flag_not: "\<not> help_flag ''--format''"
  by (simp add: help_flag_def)

lemma scVerb_skips:
  assumes "before_verb pre"
  shows "scVerb (pre @ as) = scVerb as"
  using assms
proof (induction pre rule: before_verb.induct)
  case (2 a bs)
  show ?case
  proof (cases "a = ''--format''")
    case True
    with 2 show ?thesis by (cases bs) (simp_all add: format_flag_not)
  next
    case False
    with 2 have "global_flag a" "before_verb bs" by (simp_all split: if_splits)
    with 2(2)[OF False] False global_flag_not[of a] show ?thesis by simp
  qed
qed simp

lemma scVerb_at:
  assumes "\<not> HasPrefix verb ''-''"
  shows "scVerb (verb # args) = \<lparr>sp_verb = verb,
     sp_sub = (case find (\<lambda>r. \<not> HasPrefix r ''-'') args of Some r \<Rightarrow> r | None \<Rightarrow> []),
     sp_help = (case args of [r] \<Rightarrow> help_flag r | _ \<Rightarrow> False), sp_ok = True\<rparr>"
proof -
  have "\<not> help_flag verb" "verb \<noteq> ''--format''" "\<not> global_flag verb"
    using assms by (auto simp: help_flag_def global_flag_def HasPrefix_iff)
  with assms show ?thesis by simp
qed

text \<open>A word ahead of the command that the guard skips: an assignment, or a wrapper without flags.\<close>

definition wrapper_word :: "string \<Rightarrow> bool" where
  "wrapper_word a \<longleftrightarrow> \<not> HasPrefix a ''-'' \<and> (shellAssignment a \<or> Base a \<in> fst ` set scWrapperValueFlags)"

definition sc_command :: "string \<Rightarrow> bool" where
  "sc_command a \<longleftrightarrow> \<not> HasPrefix a ''-'' \<and> \<not> shellAssignment a \<and> isScBinary a"

lemma value_flags_dash: "map_of scWrapperValueFlags w = Some vf \<Longrightarrow> \<forall>f \<in> set vf. HasPrefix f ''-''"
proof -
  have "list_all (\<lambda>(w, vf). list_all (\<lambda>f. HasPrefix f ''-'') vf) scWrapperValueFlags" by code_simp
  then show "map_of scWrapperValueFlags w = Some vf \<Longrightarrow> ?thesis" by (fastforce simp: list_all_iff dest: map_of_SomeD)
qed

lemma sc_not_wrapper: "isScBinary a \<Longrightarrow> map_of scWrapperValueFlags (Base a) = None"
  by (auto simp: isScBinary_def scWrapperValueFlags_def)

lemma skip_flags_words:
  assumes "list_all wrapper_word pre" "sc_command bin" "\<forall>f \<in> set vf. HasPrefix f ''-''"
  shows "\<exists>pre'. list_all wrapper_word pre' \<and> length pre' \<le> length pre \<and> skip_flags vf (pre @ bin # as) = pre' @ bin # as"
  using assms(1)
proof (induction pre)
  case Nil
  with assms(2,3) show ?case by (intro exI[of _ "[]"]) (auto simp: sc_command_def)
next
  case (Cons a pre)
  then have a: "a \<notin> set vf" "\<not> HasPrefix a ''-''" using assms(3) by (auto simp: wrapper_word_def)
  show ?case
  proof (cases "shellAssignment a")
    case True
    from Cons obtain pre' where "list_all wrapper_word pre'" "length pre' \<le> length pre"
      "skip_flags vf (pre @ bin # as) = pre' @ bin # as" by auto
    with a True show ?thesis by (intro exI[of _ pre']) auto
  next
    case False
    with a Cons.prems show ?thesis by (intro exI[of _ "a # pre"]) auto
  qed
qed

lemma skip_wrappers:
  "list_all wrapper_word pre \<Longrightarrow> sc_command bin \<Longrightarrow> skipLeadingWrappers (pre @ bin # as) = bin # as"
proof (induction "length pre" arbitrary: pre rule: less_induct)
  case less
  show ?case
  proof (cases pre)
    case Nil
    then show ?thesis using less.prems(2) sc_not_wrapper by (simp add: sc_command_def)
  next
    case (Cons a rest)
    show ?thesis
    proof (cases "shellAssignment a")
      case True
      with Cons less show ?thesis by simp
    next
      case False
      with Cons less.prems obtain vf where vf: "map_of scWrapperValueFlags (Base a) = Some vf"
        by (auto simp: wrapper_word_def dest: weak_map_of_SomeI)
      from skip_flags_words[OF _ less.prems(2) value_flags_dash[OF vf], of rest as] Cons less.prems obtain pre'
        where p: "list_all wrapper_word pre'" "length pre' \<le> length rest" "skip_flags vf (rest @ bin # as) = pre' @ bin # as"
        by auto
      have "skipLeadingWrappers (pre' @ bin # as) = bin # as" using p Cons by (intro less.hyps less.prems) auto
      with False vf p Cons show ?thesis by simp
    qed
  qed
qed

text \<open>
  An agent cannot drive a session verb through Bash: if some simple command of the command line
  splits into assignments and wrappers, the \<open>sc\<close> binary, global flags and a verb that is neither help
  nor read-only (listing handles with \<open>--accept\<close> is not), the guard denies the whole command line,
  unless the verb is asked for nothing but its help.
\<close>

theorem sc_verbs_denied:
  assumes "seg \<in> set (splitSimpleCommands cmd)"
    and "shlex seg = Some (pre @ bin # flags @ verb # args)"
    and "list_all wrapper_word pre" "sc_command bin" "before_verb flags"
    and "\<not> HasPrefix verb ''-''" "verb \<noteq> []" "verb \<noteq> ''help''" "verb \<noteq> ''perms''"
    and "\<not> isReadOnlyScVerb verb \<or> verb = ''list-handles'' \<and> hasAcceptFlag args"
    and "args \<noteq> [''-h'']" "args \<noteq> [''--help'']"
  shows "checkBashScVerb shlex cmd \<noteq> None"
proof -
  have words: "skipLeadingWrappers (pre @ bin # flags @ verb # args) = bin # flags @ verb # args"
    by (rule skip_wrappers[OF assms(3,4)])
  have parse: "scVerb (flags @ verb # args) = scVerb (verb # args)" by (rule scVerb_skips[OF assms(5)])
  note at = scVerb_at[OF assms(6), of args]
  have nohelp: "\<not> (case args of [r] \<Rightarrow> help_flag r | _ \<Rightarrow> False)"
    using assms(11,12) by (auto simp: help_flag_def split: list.splits)
  have acc: "hasAcceptFlag args \<Longrightarrow> hasAcceptFlag (flags @ verb # args)" by (simp add: hasAcceptFlag_def)
  have "checkSimpleCommandScVerb shlex seg \<noteq> None"
    using assms(4,7-10) nohelp acc
    unfolding checkSimpleCommandScVerb_def assms(2) option.case words list.case parse at Let_def
    by (auto simp: sc_command_def)
  with assms(1) show ?thesis by (auto simp: checkBashScVerb_def first_reason_None)
qed

text \<open>\<open>git fetch && FOO=1 sudo sc merge\<close>, with the words cut at spaces.\<close>

theorem sc_verbs_denied_witness:
  "checkBashScVerb (\<lambda>s. Some (split1 CHR '' '' s)) ''git fetch && FOO=1 sudo sc -v merge x'' \<noteq> None"
proof (rule sc_verbs_denied[of "''FOO=1 sudo sc -v merge x''" _ _ "[''FOO=1'', ''sudo'']" "''sc''" "[''-v'']" "''merge''" "[''x'']"])
qed code_simp+

end
