(* ===== verification/PreToolUse.thy ===== *)
theory PreToolUse
  imports HookPaths BashGuard SessionHandles Sweatfile
begin

text \<open>
  The tool-use hook's decision (\<open>src/internal/delta/hooks/hooks.go\<close>: \<open>runPreToolUse\<close> and the decision
  half of \<open>Run\<close>; \<open>moxyfile_guard.go\<close>, \<open>moxy_read.go\<close>, \<open>store.go\<close>, \<open>sweatfile_guard.go\<close>), composed from
  the Bash guard, the always-ask floor, the store verdict and the path guards in the order the code
  consults them. A decision carries a tag for the reason it states; the environment the hook runs in
  is a record.
\<close>

section \<open>Inputs and decisions\<close>

record HookInput =
  hi_SessionID :: string
  hi_AgentID :: string
  hi_ToolName :: string
  hi_ToolInput :: tool_input
  hi_CWD :: string
  hi_PermissionMode :: string

text \<open>
  The environment: symlink resolution, word splitting, the home directory, \<open>CLOWN_SESSION_ID\<close>, whether
  \<open>CLOWN_UNIT\<close> is set and whether the hook runs inside a unit, the confined-spawn seam, the merged
  sweatfile of a directory (\<open>None\<close> when it does not load), the two session lookups and the classifier
  of the store verdict, and the listed sessions.
\<close>

record 's HookEnv =
  he_EvalSymlinks :: "string \<Rightarrow> string option"
  he_Split :: "string \<Rightarrow> string list option"
  he_Home :: string
  he_ClownSession :: string
  he_ClownUnit :: bool
  he_InUnit :: bool
  he_SpawnConfined :: "(tool_input \<Rightarrow> string \<Rightarrow> bool) option"
  he_Merged :: "string \<Rightarrow> Sweatfile option"
  he_BySession :: "string \<Rightarrow> 's option"
  he_ByCwd :: "string \<Rightarrow> string \<Rightarrow> 's option"
  he_Classify :: "'s \<Rightarrow> string \<Rightarrow> string \<Rightarrow> tool_input \<Rightarrow> store_verdict"
  he_Sessions :: "State list"

record HookConfig =
  hc_MainRepoRoot :: string
  hc_SessionWorktree :: string
  hc_DisallowMainWorktree :: bool
  hc_RewriteEnabled :: bool
  hc_DenySweatfile :: bool
  hc_BrokerDecides :: bool

datatype why =
    WhyAsk ask_reason | WhySubagent | WhyScVerb sc_deny | WhyStore | WhySpinclassDir string | WhySweatfile string
  | WhyMoxyfile string | WhyMainCd string | WhyMainPath string | WhyBackground | WhyConfinedSpawn | WhySessionTool
  | WhyReadOnlyTool | WhySelfClose | WhyRestart | WhyRestartHung | WhyCancelRestart | WhyPreMergeHook
  | WhyPreMergeSkills | WhyMoxyRead "string list" | WhyDontAsk why

datatype decision = NoDecision | Allow why | Ask why | Deny why | Rewrite tool_input string

section \<open>The parts of the decision\<close>

definition principalForHook :: "string \<Rightarrow> string \<Rightarrow> (string \<times> string) option" where
  "principalForHook envPrincipal hookSessionID =
     (if envPrincipal \<noteq> [] then Some (envPrincipal, ''env'')
      else if hookSessionID \<noteq> [] then Some (hookSessionID, ''hook-session-id'')
      else None)"

definition hook_principal :: "'s HookEnv \<Rightarrow> HookInput \<Rightarrow> string" where
  "hook_principal E i = (case principalForHook (he_ClownSession E) (hi_SessionID i) of Some (p, _) \<Rightarrow> p | None \<Rightarrow> [])"

definition rewritten :: "'s HookEnv \<Rightarrow> HookConfig \<Rightarrow> HookInput \<Rightarrow> (tool_input \<times> string) option" where
  "rewritten E C i =
     (if hc_RewriteEnabled C \<and> hc_MainRepoRoot C \<noteq> [] \<and> hc_SessionWorktree C \<noteq> []
      then rewriteWorktreePaths (he_EvalSymlinks E) (he_Split E) (hi_ToolName i) (hi_ToolInput i)
             (resolvePath (he_EvalSymlinks E) (hc_MainRepoRoot C)) (resolvePath (he_EvalSymlinks E) (hc_SessionWorktree C))
      else None)"

definition storeDecision :: "'s HookEnv \<Rightarrow> HookConfig \<Rightarrow> HookInput \<Rightarrow> decision option" where
  "storeDecision E C i =
     (let toolInput = (case rewritten E C i of Some (m, _) \<Rightarrow> m | None \<Rightarrow> hi_ToolInput i) in
      case StoreVerdict (he_BySession E) (he_ByCwd E) (he_Classify E) (hi_ToolName i) toolInput
             (hook_principal E i) (hi_CWD i) (he_ClownUnit E) of
        None \<Rightarrow> None
      | Some StoreAsk \<Rightarrow> Some (Ask WhyStore)
      | Some StoreAllow \<Rightarrow>
          Some (case rewritten E C i of None \<Rightarrow> Allow WhyStore | Some (m, summary) \<Rightarrow> Rewrite m summary))"

definition hasPreMergeHook :: "'s HookEnv \<Rightarrow> string \<Rightarrow> bool" where
  "hasPreMergeHook E cwd \<longleftrightarrow>
     (case he_Merged E cwd of None \<Rightarrow> False
      | Some sf \<Rightarrow> (case PreMergeHookCommand sf of None \<Rightarrow> False | Some cmd \<Rightarrow> cmd \<noteq> []))"

definition hasPreMergeSkills :: "'s HookEnv \<Rightarrow> string \<Rightarrow> bool" where
  "hasPreMergeSkills E cwd \<longleftrightarrow>
     (case he_Merged E cwd of None \<Rightarrow> False | Some sf \<Rightarrow> ActivePreMergeSkills sf \<noteq> [])"

definition mergeTools :: "string list" where
  "mergeTools = [spinclass_tool ''merge-this-session'', spinclass_tool ''merge-this-session-async'']"

definition checkTools :: "string list" where
  "checkTools = [spinclass_tool ''check-this-session'', spinclass_tool ''check-this-session-async'']"

definition attestTool :: string where
  "attestTool = spinclass_tool ''nothing-but-the-truth''"

text \<open>The switch over spinclass's own tools, \<open>None\<close> when it falls through.\<close>

definition own_tool_decision :: "'s HookEnv \<Rightarrow> HookInput \<Rightarrow> decision option" where
  "own_tool_decision E i =
     (let t = hi_ToolName i in
      if t = spawnSessionTool then Some (Allow WhyConfinedSpawn)
      else if t \<in> set (map spinclass_tool [''list'', ''update-this-session-description'', ''validate'', ''session-job-cancel'',
             ''close-child-session'']) then Some (Allow WhySessionTool)
      else if t \<in> set (map spinclass_tool [''version'', ''whoami'', ''perms-list'', ''list-handles'', ''host-load'',
             ''session-health'']) then Some (Allow WhyReadOnlyTool)
      else if t = spinclass_tool ''close-this-session'' then Some (Allow WhySelfClose)
      else if t = restartThisSessionTool \<or> t = restartChildSessionTool then Some (Allow WhyRestart)
      else if t = spinclass_tool ''restart-hung-child'' then Some (Allow WhyRestartHung)
      else if t = spinclass_tool ''cancel-restart'' then Some (Allow WhyCancelRestart)
      else if t \<in> set mergeTools \<or> t \<in> set checkTools then
        (if hasPreMergeHook E (hi_CWD i) then Some (Allow WhyPreMergeHook) else None)
      else if t = attestTool then (if hasPreMergeSkills E (hi_CWD i) then Some (Allow WhyPreMergeSkills) else None)
      else None)"

definition path_values :: "string \<Rightarrow> json option \<Rightarrow> string list" where
  "path_values key v =
     (case v of
        Some (JStr s) \<Rightarrow> if key = ''paths'' then Fields s else [s]
      | Some (JArr xs) \<Rightarrow> concat (map (\<lambda>e. case e of JStr s \<Rightarrow> [s] | _ \<Rightarrow> []) xs)
      | _ \<Rightarrow> [])"

text \<open>The code ranges over the keys in no fixed order; which offending path it names is immaterial.\<close>

definition moxySpinclassPathArg :: "'s HookEnv \<Rightarrow> HookInput \<Rightarrow> string \<Rightarrow> string \<Rightarrow> string option" where
  "moxySpinclassPathArg E i mainRepoRoot sessionWorktree =
     (if \<not> HasPrefix (hi_ToolName i) moxyToolPrefix then None
      else find (\<lambda>p. IsAbs p \<and> isInsideSpinclassDir (he_EvalSymlinks E) p mainRepoRoot sessionWorktree)
             (concat (map (\<lambda>key. path_values key (map_of (hi_ToolInput i) key)) pathArgKeys)))"

definition moxyfileWriteKeys :: "(string \<times> string list) list" where
  "moxyfileWriteKeys =
     [(''Write'', [''file_path'']), (''Edit'', [''file_path'']), (''MultiEdit'', [''file_path'']),
      (moxyToolPrefix @ ''folio_write'', [''file_path'']), (moxyToolPrefix @ ''folio_cp'', [''destination'']),
      (moxyToolPrefix @ ''folio_mv'', [''source'', ''destination'']), (moxyToolPrefix @ ''folio_link'', [''target'']),
      (moxyToolPrefix @ ''folio_rm'', [''paths''])]"

definition moxyfileWriteTarget :: "'s HookEnv \<Rightarrow> HookInput \<Rightarrow> string \<Rightarrow> string option" where
  "moxyfileWriteTarget E i sessionWorktree =
     (case map_of moxyfileWriteKeys (hi_ToolName i) of
        None \<Rightarrow> None
      | Some keys \<Rightarrow>
          let cwd = (if sessionWorktree = [] then hi_CWD i else sessionWorktree) in
          find (\<lambda>p. p \<noteq> [] \<and> IsAbs p \<and> isMoxyfile (he_EvalSymlinks E) p (he_Home E) cwd)
            (concat (map (\<lambda>key. let v = (case stringField (hi_ToolInput i) key of Some s \<Rightarrow> s | None \<Rightarrow> []) in
               if key = ''paths'' then Fields v else [v]) keys)))"

section \<open>Read-only moxy calls\<close>

text \<open>A string argument: absent, present, or of another type (\<open>None\<close>).\<close>

definition str_arg :: "tool_input \<Rightarrow> string \<Rightarrow> (string \<times> bool) option" where
  "str_arg m key = (case map_of m key of None \<Rightarrow> Some ([], False) | Some (JStr s) \<Rightarrow> Some (s, True) | Some _ \<Rightarrow> None)"

definition single_path :: "HookInput \<Rightarrow> string \<Rightarrow> string list option" where
  "single_path i key =
     (case str_arg (hi_ToolInput i) key of
        None \<Rightarrow> None
      | Some (s, present) \<Rightarrow>
          if HasPrefix s ''madder://'' then None
          else Some [if \<not> present \<or> s = [] then hi_CWD i else s])"

fun list_paths :: "string \<Rightarrow> json list \<Rightarrow> string list option" where
  "list_paths base [] = Some []"
| "list_paths base (JStr s # es) =
     map_option (\<lambda>ps. (if IsAbs s then s else JoinPath [base, s]) # ps) (list_paths base es)"
| "list_paths base (_ # es) = None"

definition moxyReadPathArgs :: "HookInput \<Rightarrow> string list option" where
  "moxyReadPathArgs i =
     (let t = hi_ToolName i; m = hi_ToolInput i in
      if t = moxyToolPrefix @ ''folio_read'' then single_path i ''file_path''
      else if t \<in> set (map (\<lambda>x. moxyToolPrefix @ x) [''folio_ls'', ''folio_tree'', ''folio_file-type'']) then single_path i ''path''
      else if t = moxyToolPrefix @ ''folio_glob'' then
        (case str_arg m ''pattern'' of
           None \<Rightarrow> None
         | Some (pat, _) \<Rightarrow>
             if HasPrefix pat ''/'' \<or> ''..'' \<in> set (split1 CHR ''/'' pat) then None else single_path i ''path'')
      else if t = moxyToolPrefix @ ''grit_branch'' \<or> t = moxyToolPrefix @ ''grit_stage'' then
        (case str_arg m ''subcommand'' of
           None \<Rightarrow> None
         | Some (sub, _) \<Rightarrow>
             if sub \<notin> set (if t = moxyToolPrefix @ ''grit_stage'' then [''status'', ''diff''] else [''log'', ''rev-parse'', ''diff''])
             then None
             else case single_path i ''repo_path'' of
               None \<Rightarrow> None
             | Some repo \<Rightarrow>
                 let base = (if IsAbs (hd repo) then hd repo else JoinPath [hi_CWD i, hd repo]) in
                 (case map_of m ''paths'' of
                    None \<Rightarrow> Some repo
                  | Some (JArr xs) \<Rightarrow> map_option (\<lambda>ps. repo @ ps) (list_paths base xs)
                  | Some _ \<Rightarrow> None))
      else None)"

record ReadRoot =
  rr_path :: string
  rr_kind :: string
  rr_own :: bool

definition moxyReadRoots :: "'s HookEnv \<Rightarrow> string \<Rightarrow> string \<Rightarrow> ReadRoot list" where
  "moxyReadRoots E ownWorktree who =
     (if ownWorktree \<noteq> []
      then [\<lparr>rr_path = resolvePath (he_EvalSymlinks E) ownWorktree, rr_kind = ''own worktree'', rr_own = True\<rparr>] else []) @
     (if who = [] then []
      else map (\<lambda>st. \<lparr>rr_path = resolvePath (he_EvalSymlinks E) (s_WorktreePath st), rr_kind = ''held child '' @ Key st, rr_own = False\<rparr>)
        (filter (\<lambda>st. \<not> (s_isTombstone st \<or> s_Kind st = KindImplicit \<or> s_WorktreePath st = [] \<or> \<not> IsHolder st who)) (he_Sessions E)))"

definition root_admits :: "string \<Rightarrow> ReadRoot \<Rightarrow> bool" where
  "root_admits resolved r \<longleftrightarrow>
     pathWithin resolved (rr_path r) \<and> \<not> (\<not> rr_own r \<and> pathWithin resolved (JoinPath [rr_path r, ''.spinclass'']))"

text \<open>The kind of the first admitting root of every path, deduplicated; \<open>None\<close> when a path has none.\<close>

fun read_kinds :: "'s HookEnv \<Rightarrow> HookInput \<Rightarrow> ReadRoot list \<Rightarrow> string list \<Rightarrow> string list \<Rightarrow> string list option" where
  "read_kinds E i roots [] kinds = Some kinds"
| "read_kinds E i roots (p # ps) kinds =
     (let p' = (if IsAbs p then p else JoinPath [hi_CWD i, p]); resolved = resolvePath (he_EvalSymlinks E) p' in
      case find (root_admits resolved) roots of
        None \<Rightarrow> None
      | Some r \<Rightarrow> if rr_kind r = [] then None
                  else read_kinds E i roots ps (if rr_kind r \<in> set kinds then kinds else kinds @ [rr_kind r]))"

definition moxyReadAllowReason :: "'s HookEnv \<Rightarrow> HookInput \<Rightarrow> string \<Rightarrow> string list option" where
  "moxyReadAllowReason E i ownWorktree =
     (case moxyReadPathArgs i of
        None \<Rightarrow> None
      | Some paths \<Rightarrow> read_kinds E i (moxyReadRoots E ownWorktree (hook_principal E i)) paths [])"

section \<open>The decision\<close>

definition sweatfileEditDecision :: "string \<Rightarrow> bool \<Rightarrow> decision" where
  "sweatfileEditDecision fp den = (if den then Deny (WhySweatfile fp) else Ask (WhySweatfile fp))"

text \<open>The guard over session-config paths of the file tools.\<close>

definition config_guard :: "'s HookEnv \<Rightarrow> HookConfig \<Rightarrow> HookInput \<Rightarrow> string \<Rightarrow> string \<Rightarrow> decision option" where
  "config_guard E C i resolvedMain resolvedWorktree =
     (if hi_ToolName i \<in> {''Read'', ''Write'', ''Edit''} then
        (case stringField (hi_ToolInput i) ''file_path'' of
           None \<Rightarrow> None
         | Some fp \<Rightarrow>
             if fp = [] then None
             else if isInsideSpinclassDir (he_EvalSymlinks E) fp resolvedMain resolvedWorktree then Some (Deny (WhySpinclassDir fp))
             else if hi_ToolName i \<in> {''Write'', ''Edit''} \<and> isSweatfile (he_EvalSymlinks E) fp resolvedMain resolvedWorktree
             then Some (sweatfileEditDecision fp (hc_DenySweatfile C))
             else None)
      else None)"

definition no_decision :: "'s HookEnv \<Rightarrow> HookConfig \<Rightarrow> HookInput \<Rightarrow> string \<Rightarrow> decision" where
  "no_decision E C i resolvedWorktree =
     (if hc_BrokerDecides C then NoDecision
      else case moxyReadAllowReason E i resolvedWorktree of Some kinds \<Rightarrow> Allow (WhyMoxyRead kinds) | None \<Rightarrow> NoDecision)"

definition main_worktree_guard :: "'s HookEnv \<Rightarrow> HookConfig \<Rightarrow> HookInput \<Rightarrow> string \<Rightarrow> string \<Rightarrow> decision" where
  "main_worktree_guard E C i resolvedMain resolvedWorktree =
     (let ES = he_EvalSymlinks E; m = hi_ToolInput i; t = hi_ToolName i in
      if \<not> hc_DisallowMainWorktree C \<or> hc_MainRepoRoot C = [] then no_decision E C i resolvedWorktree
      else
        case (if t = ''Bash'' then checkBashCdToMainWorktree ES (he_Split E) m resolvedMain resolvedWorktree else None) of
          Some cd \<Rightarrow> Deny (WhyMainCd cd)
        | None \<Rightarrow>
            (case find (\<lambda>p. isInsideMainWorktree ES p resolvedMain resolvedWorktree) (extractPaths (he_Split E) t m) of
               Some p \<Rightarrow> Deny (WhyMainPath p)
             | None \<Rightarrow> no_decision E C i resolvedWorktree))"

text \<open>The guards by path, after the switch over spinclass's own tools.\<close>

definition path_decision :: "'s HookEnv \<Rightarrow> HookConfig \<Rightarrow> HookInput \<Rightarrow> decision" where
  "path_decision E C i =
     (let ES = he_EvalSymlinks E; m = hi_ToolInput i;
          resolvedMain = resolvePath ES (hc_MainRepoRoot C); resolvedWorktree = resolvePath ES (hc_SessionWorktree C) in
      case config_guard E C i resolvedMain resolvedWorktree of
        Some d \<Rightarrow> d
      | None \<Rightarrow>
          (case moxySpinclassPathArg E i resolvedMain resolvedWorktree of
             Some p \<Rightarrow> Deny (WhySpinclassDir p)
           | None \<Rightarrow>
               (case (if he_InUnit E then None else moxyfileWriteTarget E i (hc_SessionWorktree C)) of
                  Some p \<Rightarrow> Ask (WhyMoxyfile p)
                | None \<Rightarrow>
                    (case rewritten E C i of
                       Some (m', summary) \<Rightarrow> Rewrite m' summary
                     | None \<Rightarrow> main_worktree_guard E C i resolvedMain resolvedWorktree))))"

definition runPreToolUse :: "'s HookEnv \<Rightarrow> HookConfig \<Rightarrow> HookInput \<Rightarrow> decision" where
  "runPreToolUse E C i =
     (let t = hi_ToolName i; m = hi_ToolInput i in
      if hi_AgentID i \<noteq> [] \<and> (t \<in> set mergeTools \<or> t \<in> set checkTools \<or> t = attestTool) then Deny WhySubagent
      else
        case (if t = ''Bash'' then (case stringField m ''command'' of Some c \<Rightarrow> checkBashScVerb (he_Split E) c | None \<Rightarrow> None) else None) of
          Some r \<Rightarrow> Deny (WhyScVerb r)
        | None \<Rightarrow>
            (case AlwaysAsk (he_SpawnConfined E) t m (hi_CWD i) of
               Some r \<Rightarrow> Ask (WhyAsk r)
             | None \<Rightarrow>
                 (case storeDecision E C i of
                    Some d \<Rightarrow> d
                  | None \<Rightarrow> (case own_tool_decision E i of Some d \<Rightarrow> d | None \<Rightarrow> path_decision E C i))))"

section \<open>Unattended sessions\<close>

abbreviation permissionModeDontAsk :: string where "permissionModeDontAsk \<equiv> ''dontAsk''"

definition backgroundShellTools :: "string list" where
  "backgroundShellTools = [''Monitor'', ''BashOutput'', ''KillShell'', ''KillBash'', ''BashBackground'']"

text \<open>Lower case, for the comparison with \<open>false\<close>: no other letter lowers to one of its letters.\<close>

definition lower_ascii :: "string \<Rightarrow> string" where
  "lower_ascii s = map (\<lambda>c. if CHR ''A'' \<le> c \<and> c \<le> CHR ''Z'' then char_of (of_char c + 32 :: nat) else c) s"

definition isBackgroundShellCall :: "HookInput \<Rightarrow> bool" where
  "isBackgroundShellCall i =
     (if hi_ToolName i \<in> set backgroundShellTools then True
      else if hi_ToolName i \<noteq> ''Bash'' \<and> hi_ToolName i \<noteq> ''PowerShell'' then False
      else case map_of (hi_ToolInput i) ''run_in_background'' of
        None \<Rightarrow> False | Some JNull \<Rightarrow> False | Some (JBool b) \<Rightarrow> b
      | Some (JStr s) \<Rightarrow> (let l = lower_ascii (TrimSpace s) in l \<noteq> [] \<and> l \<noteq> ''false'')
      | Some _ \<Rightarrow> True)"

definition writeDontAskVerdict :: "decision \<Rightarrow> decision" where
  "writeDontAskVerdict d = (case d of Ask w \<Rightarrow> Deny (WhyDontAsk w) | _ \<Rightarrow> d)"

text \<open>The pre-tool-use branch of \<open>Run\<close>.\<close>

definition hook_decision :: "'s HookEnv \<Rightarrow> HookConfig \<Rightarrow> HookInput \<Rightarrow> decision" where
  "hook_decision E C i =
     (if hi_PermissionMode i = permissionModeDontAsk \<and> isBackgroundShellCall i then Deny WhyBackground
      else if hi_PermissionMode i \<noteq> permissionModeDontAsk then runPreToolUse E C i
      else writeDontAskVerdict (runPreToolUse E C i))"

end
