(* ===== verification/HookDecision.thy ===== *)
theory HookDecision
  imports PreToolUse
begin

text \<open>
  What the tool-use hook guarantees, whatever the configuration, the environment and the call: the
  always-ask floor, the unattended conversion, the guarded locations, the session's own checkout and
  the scope of what it allows by itself.
\<close>

section \<open>The floor\<close>

lemma floor_decision:
  "AlwaysAsk (he_SpawnConfined E) (hi_ToolName i) (hi_ToolInput i) (hi_CWD i) = Some r \<Longrightarrow>
   runPreToolUse E C i = Ask (WhyAsk r) \<or> (\<exists>w. runPreToolUse E C i = Deny w)"
  by (auto simp: runPreToolUse_def Let_def split: option.splits)

text \<open>
  C2. The always-ask floor holds on the hook's side: a call on the floor is never allowed, rewritten
  or left undecided; it asks with the floor's reason or is denied, and an unattended session is never
  asked anything.
\<close>

theorem floor_never_bypassed:
  assumes "AlwaysAsk (he_SpawnConfined E) (hi_ToolName i) (hi_ToolInput i) (hi_CWD i) = Some r"
  shows "(hook_decision E C i = Ask (WhyAsk r) \<or> (\<exists>w. hook_decision E C i = Deny w)) \<and>
    (hi_PermissionMode j = permissionModeDontAsk \<longrightarrow> hook_decision E C j \<noteq> Ask w)"
  using floor_decision[OF assms, of C]
  by (auto simp: hook_decision_def writeDontAskVerdict_def split: decision.splits)

definition sample_env :: "unit HookEnv" where
  "sample_env =
     \<lparr>he_EvalSymlinks = Some, he_Split = (\<lambda>s. Some (split1 CHR '' '' s)), he_Home = ''/h'', he_ClownSession = ''me'',
      he_ClownUnit = False, he_InUnit = False, he_SpawnConfined = None, he_Merged = (\<lambda>_. None),
      he_BySession = (\<lambda>_. None), he_ByCwd = (\<lambda>_ _. None), he_Classify = (\<lambda>_ _ _ _. StoreAsk), he_Sessions = []\<rparr>"

definition sample_config :: HookConfig where
  "sample_config =
     \<lparr>hc_MainRepoRoot = ''/p/r'', hc_SessionWorktree = ''/p/r/.worktrees/w'', hc_DisallowMainWorktree = True,
      hc_RewriteEnabled = True, hc_DenySweatfile = True, hc_BrokerDecides = False\<rparr>"

definition sample_call :: "string \<Rightarrow> tool_input \<Rightarrow> HookInput" where
  "sample_call t m =
     \<lparr>hi_SessionID = ''s'', hi_AgentID = [], hi_ToolName = t, hi_ToolInput = m, hi_CWD = ''/p/r/.worktrees/w'',
      hi_PermissionMode = permissionModeDontAsk\<rparr>"

theorem floor_never_bypassed_witness:
  "\<exists>w. hook_decision sample_env sample_config (sample_call closeChildSessionTool [(''force'', JStr ''no'')]) = Deny w"
proof -
  have f: "AlwaysAsk (he_SpawnConfined sample_env) (hi_ToolName (sample_call closeChildSessionTool [(''force'', JStr ''no'')]))
      (hi_ToolInput (sample_call closeChildSessionTool [(''force'', JStr ''no'')]))
      (hi_CWD (sample_call closeChildSessionTool [(''force'', JStr ''no'')])) = Some ForcedClose"
    by code_simp
  from floor_never_bypassed[OF f, of sample_config "sample_call closeChildSessionTool [(''force'', JStr ''no'')]"]
  show ?thesis by (auto simp: sample_call_def)
qed

section \<open>File tools\<close>

abbreviation file_tools :: "string set" where "file_tools \<equiv> {''Read'', ''Write'', ''Edit''}"

text \<open>None of the earlier stages concerns the file tools.\<close>

lemma file_tool_not_grit: "t \<in> file_tools \<Longrightarrow> CutPrefix t gritToolPrefix = None"
  by (elim insertE emptyE) (simp_all add: CutPrefix_def)

lemma file_tool_own: "hi_ToolName i \<in> file_tools \<Longrightarrow> own_tool_decision E i = None"
  by (elim insertE emptyE) (simp_all add: own_tool_decision_def mergeTools_def checkTools_def attestTool_def)

lemma file_tool_floor: "t \<in> file_tools \<Longrightarrow> AlwaysAsk sc t m cwd = None"
  by (elim insertE emptyE) (simp_all add: AlwaysAsk_def)

lemma file_tool_store: "hi_ToolName i \<in> file_tools \<Longrightarrow> storeDecision E C i = None"
  using file_tool_not_grit[of "hi_ToolName i"] by (simp add: storeDecision_def StoreVerdict_def Let_def)

lemma file_tool_decision:
  assumes "hi_ToolName i \<in> file_tools"
  shows "runPreToolUse E C i = path_decision E C i"
proof -
  have "\<not> (hi_AgentID i \<noteq> [] \<and> (hi_ToolName i \<in> set mergeTools \<or> hi_ToolName i \<in> set checkTools \<or> hi_ToolName i = attestTool))"
    "hi_ToolName i \<noteq> ''Bash''"
    using assms by (auto simp: mergeTools_def checkTools_def attestTool_def)
  then show ?thesis
    using file_tool_own[OF assms, of E] file_tool_floor[OF assms] file_tool_store[OF assms, of E C]
    by (auto simp: runPreToolUse_def Let_def)
qed

lemma file_tool_hook:
  assumes "hi_ToolName i \<in> file_tools"
  shows "hook_decision E C i =
    (if hi_PermissionMode i = permissionModeDontAsk then writeDontAskVerdict (path_decision E C i) else path_decision E C i)"
proof -
  have "\<not> isBackgroundShellCall i" using assms by (auto simp: isBackgroundShellCall_def backgroundShellTools_def)
  then show ?thesis by (simp add: hook_decision_def file_tool_decision[OF assms])
qed

text \<open>
  Session configuration is guarded: a read or write of a path inside the \<open>.spinclass\<close> directory of
  the checkout or of the worktree is denied, and a write or edit of their sweatfile is asked or
  denied, never allowed, rewritten or left to other rules, and denied when the operator set so; path
  rewriting and the main-worktree switch change none of it.
\<close>

theorem session_config_guarded:
  assumes "hi_ToolName i \<in> file_tools" "stringField (hi_ToolInput i) ''file_path'' = Some fp" "fp \<noteq> []"
  shows "(isInsideSpinclassDir (he_EvalSymlinks E) fp (resolvePath (he_EvalSymlinks E) (hc_MainRepoRoot C))
        (resolvePath (he_EvalSymlinks E) (hc_SessionWorktree C)) \<longrightarrow> hook_decision E C i = Deny (WhySpinclassDir fp)) \<and>
    (hi_ToolName i \<noteq> ''Read'' \<and> isSweatfile (he_EvalSymlinks E) fp (resolvePath (he_EvalSymlinks E) (hc_MainRepoRoot C))
        (resolvePath (he_EvalSymlinks E) (hc_SessionWorktree C)) \<longrightarrow>
      (\<exists>w. hook_decision E C i = Deny w) \<or>
      hook_decision E C i = Ask (WhySweatfile fp) \<and> \<not> hc_DenySweatfile C \<and> hi_PermissionMode i \<noteq> permissionModeDontAsk)"
  unfolding file_tool_hook[OF assms(1)]
  using assms by (auto simp: path_decision_def Let_def config_guard_def sweatfileEditDecision_def writeDontAskVerdict_def)

theorem session_config_guarded_witness:
  "hook_decision sample_env sample_config (sample_call ''Read'' [(''file_path'', JStr ''/p/r/.spinclass/env'')]) =
   Deny (WhySpinclassDir ''/p/r/.spinclass/env'')"
proof -
  let ?i = "sample_call ''Read'' [(''file_path'', JStr ''/p/r/.spinclass/env'')]"
  have f: "hi_ToolName ?i \<in> file_tools" "stringField (hi_ToolInput ?i) ''file_path'' = Some ''/p/r/.spinclass/env''"
    by (simp_all add: sample_call_def stringField_def)
  have "isInsideSpinclassDir (he_EvalSymlinks sample_env) ''/p/r/.spinclass/env''
      (resolvePath (he_EvalSymlinks sample_env) (hc_MainRepoRoot sample_config))
      (resolvePath (he_EvalSymlinks sample_env) (hc_SessionWorktree sample_config))" by code_simp
  with session_config_guarded[OF f, of sample_env sample_config] show ?thesis by simp
qed

text \<open>The rewrite of a call with a file path concerns that path.\<close>

lemma rewritten_file_path:
  assumes "hi_ToolName i \<in> file_tools" "stringField (hi_ToolInput i) ''file_path'' = Some fp"
    and "rewritten E C i = Some (m, summary)"
  shows "stringField m ''file_path'' =
    Some (case rewritePathString (he_EvalSymlinks E) fp (resolvePath (he_EvalSymlinks E) (hc_MainRepoRoot C))
        (resolvePath (he_EvalSymlinks E) (hc_SessionWorktree C)) of Some v \<Rightarrow> v | None \<Rightarrow> fp)"
proof -
  let ?rw = "\<lambda>v. rewriteArgValue (he_EvalSymlinks E) v (resolvePath (he_EvalSymlinks E) (hc_MainRepoRoot C))
      (resolvePath (he_EvalSymlinks E) (hc_SessionWorktree C))"
  let ?new = "\<lambda>(k, v). if k \<in> set pathArgKeys then ?rw v else None"
  have "hi_ToolName i \<noteq> ''Bash''" using assms(1) by auto
  with assms(3) have m: "m = map (\<lambda>kv. case ?new kv of Some v' \<Rightarrow> (fst kv, v') | None \<Rightarrow> kv) (hi_ToolInput i)"
    by (auto simp: rewritten_def rewriteWorktreePaths_def Let_def split: if_splits)
  have key: "''file_path'' \<in> set pathArgKeys" by (simp add: pathArgKeys_def)
  have look: "map_of (map (\<lambda>kv. case ?new kv of Some v' \<Rightarrow> (fst kv, v') | None \<Rightarrow> kv) xs) ''file_path'' =
      map_option (\<lambda>v. case ?rw v of Some v' \<Rightarrow> v' | None \<Rightarrow> v) (map_of xs ''file_path'')" for xs
    using key by (induction xs) (auto split: option.splits)
  from assms(2) have "map_of (hi_ToolInput i) ''file_path'' = Some (JStr fp)"
    by (auto simp: stringField_def split: option.splits json.splits)
  then show ?thesis by (simp add: stringField_def m look rewriteArgValue_def split: option.splits)
qed

lemma config_guard_refuses: "config_guard E C i rm rw = Some d \<Longrightarrow> \<exists>w. d = Deny w \<or> d = Ask w"
  by (auto simp: config_guard_def sweatfileEditDecision_def split: option.splits if_splits)

text \<open>Every stage before the main-worktree guard refuses, asks or redirects.\<close>

lemma path_decision_stages:
  assumes "main_worktree_guard E C i (resolvePath (he_EvalSymlinks E) (hc_MainRepoRoot C))
      (resolvePath (he_EvalSymlinks E) (hc_SessionWorktree C)) = Deny w"
  shows "(\<exists>w. path_decision E C i = Deny w) \<or> (\<exists>w. path_decision E C i = Ask w) \<or>
    (\<exists>m summary. path_decision E C i = Rewrite m summary \<and> rewritten E C i = Some (m, summary))"
proof (cases "config_guard E C i (resolvePath (he_EvalSymlinks E) (hc_MainRepoRoot C))
    (resolvePath (he_EvalSymlinks E) (hc_SessionWorktree C))")
  case (Some d)
  with config_guard_refuses[OF Some] show ?thesis by (auto simp: path_decision_def Let_def)
next
  case None
  with assms show ?thesis by (simp add: path_decision_def Let_def split: option.splits)
qed

text \<open>
  A session's file tools cannot touch the main checkout while that is disallowed: a read or write
  of a path inside the checkout and outside the worktree is asked about, denied, or redirected, and a
  redirected call names the path the rewrite gives.
\<close>

theorem main_checkout_not_touched:
  assumes "hi_ToolName i \<in> file_tools" "stringField (hi_ToolInput i) ''file_path'' = Some fp" "fp \<noteq> []"
    and "hc_DisallowMainWorktree C" "hc_MainRepoRoot C \<noteq> []"
    and "isInsideMainWorktree (he_EvalSymlinks E) fp (resolvePath (he_EvalSymlinks E) (hc_MainRepoRoot C))
      (resolvePath (he_EvalSymlinks E) (hc_SessionWorktree C))"
  shows "(\<exists>w. hook_decision E C i = Deny w) \<or> (\<exists>w. hook_decision E C i = Ask w) \<or>
    (\<exists>m summary. hook_decision E C i = Rewrite m summary \<and>
      stringField m ''file_path'' =
        Some (case rewritePathString (he_EvalSymlinks E) fp (resolvePath (he_EvalSymlinks E) (hc_MainRepoRoot C))
          (resolvePath (he_EvalSymlinks E) (hc_SessionWorktree C)) of Some v \<Rightarrow> v | None \<Rightarrow> fp))"
proof -
  have "main_worktree_guard E C i (resolvePath (he_EvalSymlinks E) (hc_MainRepoRoot C))
      (resolvePath (he_EvalSymlinks E) (hc_SessionWorktree C)) = Deny (WhyMainPath fp)"
    using assms by (auto simp: main_worktree_guard_def extractPaths_def nonempty_field_def Let_def)
  from path_decision_stages[OF this] show ?thesis
  proof (elim disjE exE conjE)
    fix w assume "path_decision E C i = Deny w"
    then show ?thesis by (simp add: file_tool_hook[OF assms(1)] writeDontAskVerdict_def)
  next
    fix w assume "path_decision E C i = Ask w"
    then show ?thesis by (simp add: file_tool_hook[OF assms(1)] writeDontAskVerdict_def)
  next
    fix m summary assume r: "path_decision E C i = Rewrite m summary" "rewritten E C i = Some (m, summary)"
    then have "hook_decision E C i = Rewrite m summary"
      by (simp add: file_tool_hook[OF assms(1)] writeDontAskVerdict_def)
    with rewritten_file_path[OF assms(1,2) r(2)] show ?thesis by blast
  qed
qed

theorem main_checkout_not_touched_witness:
  "\<not> isInsideMainWorktree Some ''/p/r/.worktrees/w/a'' ''/p/r'' ''/p/r/.worktrees/w'' \<and>
   (\<forall>w. hook_decision sample_env sample_config (sample_call ''Write'' [(''file_path'', JStr ''/p/r/a'')]) \<noteq> Allow w)"
proof -
  let ?i = "sample_call ''Write'' [(''file_path'', JStr ''/p/r/a'')]"
  have f: "hi_ToolName ?i \<in> file_tools" "stringField (hi_ToolInput ?i) ''file_path'' = Some ''/p/r/a''" "''/p/r/a'' \<noteq> []"
    "hc_DisallowMainWorktree sample_config" "hc_MainRepoRoot sample_config \<noteq> []"
    by (simp_all add: sample_call_def stringField_def sample_config_def)
  have "isInsideMainWorktree (he_EvalSymlinks sample_env) ''/p/r/a''
      (resolvePath (he_EvalSymlinks sample_env) (hc_MainRepoRoot sample_config))
      (resolvePath (he_EvalSymlinks sample_env) (hc_SessionWorktree sample_config))" by code_simp
  from main_checkout_not_touched[OF f this]
  have "\<forall>w. hook_decision sample_env sample_config ?i \<noteq> Allow w" by auto
  moreover have "\<not> isInsideMainWorktree Some ''/p/r/.worktrees/w/a'' ''/p/r'' ''/p/r/.worktrees/w''" by code_simp
  ultimately show ?thesis by blast
qed

section \<open>What the hook allows by itself\<close>

lemma grit_not_rewritten:
  assumes "CutPrefix tool gritToolPrefix = Some leaf"
  shows "rewriteWorktreePaths ES shlex tool m mr wt = None"
proof -
  have t: "tool = gritToolPrefix @ leaf" using assms by (simp only: CutPrefix_Some_iff)
  have "\<not> isRewriteTargetTool tool" unfolding t by (simp add: isRewriteTargetTool_def builtinRewriteTools_def)
  then show ?thesis by (simp add: rewriteWorktreePaths_def)
qed

lemma StoreVerdict_tool: "StoreVerdict f g c t m p cwd u = Some v \<Longrightarrow> \<exists>leaf. CutPrefix t gritToolPrefix = Some leaf"
  by (auto simp: StoreVerdict_def split: option.splits)

lemma store_as_sent:
  "storeDecision E C i =
   map_option (\<lambda>v. if v = StoreAllow then Allow WhyStore else Ask WhyStore)
     (StoreVerdict (he_BySession E) (he_ByCwd E) (he_Classify E) (hi_ToolName i) (hi_ToolInput i)
        (hook_principal E i) (hi_CWD i) (he_ClownUnit E))"
proof (cases "CutPrefix (hi_ToolName i) gritToolPrefix")
  case None
  then show ?thesis by (simp add: storeDecision_def StoreVerdict_def Let_def)
next
  case (Some leaf)
  then have "rewritten E C i = None" using grit_not_rewritten[OF Some] by (auto simp: rewritten_def)
  then show ?thesis by (auto simp: storeDecision_def split: option.splits store_verdict.splits)
qed

text \<open>
  A store tool is judged on its arguments as sent and is never redirected: the path correction
  that the store decision is meant to classify on never applies to a store tool, because the rewrite
  covers the built-in and the moxy tools only.
\<close>

theorem store_tools_never_redirected:
  "storeDecision E C i \<noteq> Some (Rewrite m summary) \<and>
   storeDecision E C i =
     map_option (\<lambda>v. if v = StoreAllow then Allow WhyStore else Ask WhyStore)
       (StoreVerdict (he_BySession E) (he_ByCwd E) (he_Classify E) (hi_ToolName i) (hi_ToolInput i)
          (hook_principal E i) (hi_CWD i) (he_ClownUnit E))"
  unfolding store_as_sent by (auto split: if_splits)

text \<open>A path the caller may read unasked: its own worktree, or a live held child's outside \<open>.spinclass\<close>.\<close>

definition readable_unasked :: "'s HookEnv \<Rightarrow> string \<Rightarrow> string \<Rightarrow> string \<Rightarrow> bool" where
  "readable_unasked E ownWorktree who resolved \<longleftrightarrow>
     ownWorktree \<noteq> [] \<and> pathWithin resolved (resolvePath (he_EvalSymlinks E) ownWorktree) \<or>
     who \<noteq> [] \<and> (\<exists>st \<in> set (he_Sessions E). \<not> s_isTombstone st \<and> s_Kind st \<noteq> KindImplicit \<and> IsHolder st who \<and>
       pathWithin resolved (resolvePath (he_EvalSymlinks E) (s_WorktreePath st)) \<and>
       \<not> pathWithin resolved (JoinPath [resolvePath (he_EvalSymlinks E) (s_WorktreePath st), ''.spinclass'']))"

lemma admitted_readable:
  "r \<in> set (moxyReadRoots E own who) \<Longrightarrow> root_admits resolved r \<Longrightarrow> readable_unasked E own who resolved"
  by (auto simp: moxyReadRoots_def root_admits_def readable_unasked_def split: if_splits simp del: JoinPath.simps)

definition call_path :: "HookInput \<Rightarrow> string \<Rightarrow> string" where
  "call_path i p = (if IsAbs p then p else JoinPath [hi_CWD i, p])"

lemma read_kinds_admits:
  "read_kinds E i roots ps kinds = Some kinds' \<Longrightarrow> p \<in> set ps \<Longrightarrow>
   \<exists>r \<in> set roots. root_admits (resolvePath (he_EvalSymlinks E) (call_path i p)) r"
proof (induction E i roots ps kinds rule: read_kinds.induct)
  case (2 E i roots q ps kinds)
  let ?res = "resolvePath (he_EvalSymlinks E) (call_path i q)"
  from "2.prems"(1) obtain r where r: "find (root_admits ?res) roots = Some r" "rr_kind r \<noteq> []"
    and rest: "read_kinds E i roots ps (if rr_kind r \<in> set kinds then kinds else kinds @ [rr_kind r]) = Some kinds'"
    by (auto simp: Let_def call_path_def simp del: JoinPath.simps split: option.splits if_splits)
  show ?case
  proof (cases "p = q")
    case True
    with r(1) show ?thesis by (auto simp: find_Some_iff)
  next
    case False
    from "2.IH"[OF refl refl r(1)[unfolded call_path_def] r(2) rest] "2.prems"(2) False show ?thesis by simp
  qed
qed simp

lemma own_tools_spinclass: "own_tool_decision E i = Some d \<Longrightarrow> \<exists>t. hi_ToolName i = spinclass_tool t"
proof (rule ccontr)
  assume d: "own_tool_decision E i = Some d" and "\<nexists>t. hi_ToolName i = spinclass_tool t"
  then have ne: "hi_ToolName i \<noteq> spinclass_tool t" for t by blast
  then have nm: "hi_ToolName i \<notin> set (map spinclass_tool ts)" for ts by (induction ts) auto
  have lists: "mergeTools = map spinclass_tool [''merge-this-session'', ''merge-this-session-async'']"
    "checkTools = map spinclass_tool [''check-this-session'', ''check-this-session-async'']"
    by (simp_all only: mergeTools_def checkTools_def list.map)
  have "own_tool_decision E i = None"
    unfolding own_tool_decision_def Let_def lists attestTool_def by (simp only: ne nm if_False simp_thms)
  with d show False by simp
qed

lemma store_tools_spinclass: "storeDecision E C i = Some d \<Longrightarrow> \<exists>t. hi_ToolName i = spinclass_tool t"
proof -
  assume "storeDecision E C i = Some d"
  then obtain v where "StoreVerdict (he_BySession E) (he_ByCwd E) (he_Classify E) (hi_ToolName i) (hi_ToolInput i)
      (hook_principal E i) (hi_CWD i) (he_ClownUnit E) = Some v"
    unfolding store_as_sent by (metis map_option_eq_Some)
  from StoreVerdict_tool[OF this] obtain leaf where "CutPrefix (hi_ToolName i) gritToolPrefix = Some leaf" by blast
  then have "hi_ToolName i = gritToolPrefix @ leaf" by (simp only: CutPrefix_Some_iff)
  then have "hi_ToolName i = spinclass_tool (''grit_'' @ leaf)" by (simp only: append_assoc)
  then show ?thesis by blast
qed

lemma no_decision_allow:
  assumes "no_decision E C i wt = Allow w"
  shows "\<exists>kinds paths. w = WhyMoxyRead kinds \<and> moxyReadPathArgs i = Some paths \<and>
    (\<forall>p \<in> set paths. readable_unasked E wt (hook_principal E i) (resolvePath (he_EvalSymlinks E) (call_path i p)))"
proof -
  from assms obtain kinds paths where k: "w = WhyMoxyRead kinds" "moxyReadPathArgs i = Some paths"
    "read_kinds E i (moxyReadRoots E wt (hook_principal E i)) paths [] = Some kinds"
    by (auto simp: no_decision_def moxyReadAllowReason_def split: if_splits option.splits)
  with read_kinds_admits[OF k(3)] admitted_readable show ?thesis by blast
qed

lemma path_decision_allow:
  "path_decision E C i = Allow w \<Longrightarrow> no_decision E C i (resolvePath (he_EvalSymlinks E) (hc_SessionWorktree C)) = Allow w"
  using config_guard_refuses
  by (fastforce simp: path_decision_def main_worktree_guard_def Let_def split: option.splits if_splits)

text \<open>
  What the hook allows by itself is spinclass's own tools and contained reads: an allow is given
  only to a spinclass tool, or to a read-only moxy call whose every path resolves into the session's
  own worktree or into the worktree of a live session the caller holds, outside that session's
  \<open>.spinclass\<close>; no other tool is ever approved past Claude Code's own rules.
\<close>

theorem hook_allow_scope:
  "case hook_decision E C i of
     Allow w \<Rightarrow> (\<exists>t. hi_ToolName i = spinclass_tool t) \<or>
       (\<exists>kinds paths. w = WhyMoxyRead kinds \<and> moxyReadPathArgs i = Some paths \<and>
          set paths \<subseteq> {p. readable_unasked E (resolvePath (he_EvalSymlinks E) (hc_SessionWorktree C)) (hook_principal E i)
            (resolvePath (he_EvalSymlinks E) (call_path i p))})
   | _ \<Rightarrow> True"
proof (cases "hook_decision E C i")
  case (Allow w)
  then have run: "runPreToolUse E C i = Allow w"
    by (auto simp: hook_decision_def writeDontAskVerdict_def split: if_splits decision.splits)
  show ?thesis
  proof (cases "storeDecision E C i = None \<and> own_tool_decision E i = None")
    case False
    then obtain d where "storeDecision E C i = Some d \<or> own_tool_decision E i = Some d" by (meson not_None_eq)
    then have "\<exists>t. hi_ToolName i = spinclass_tool t" using store_tools_spinclass own_tools_spinclass by blast
    then show ?thesis unfolding Allow decision.case by (rule disjI1)
  next
    case True
    with run have "path_decision E C i = Allow w"
      by (auto simp: runPreToolUse_def Let_def split: option.splits if_splits)
    from no_decision_allow[OF path_decision_allow[OF this]] show ?thesis
      unfolding Allow decision.case by (intro disjI2) blast
  qed
qed simp_all

end
