(* ===== verification/GrantStore.thy ===== *)
theory GrantStore
  imports Transition GrantWalk
begin

text \<open>
  The on-disk store of grant records (\<open>src/internal/alfa/grantstore/grantstore.go\<close>): records by
  digest, the index that binds a grantee to its current record, and the stored transition
  approvals. The directories are maps from file names to what their files decode to, so the
  definitions answer for any content, whoever wrote it; what is proved is that a read never trusts
  that content, and that the operations keep what they promise.
\<close>

section \<open>The store on disk\<close>

text \<open>A file of records or transitions decodes to a record or (\<open>None\<close>) to nothing.\<close>

datatype store_dir = RecordsDir | IndexDir | TransitionsDir

record GrantStore =
  gs_records :: "string \<rightharpoonup> Record option"
  gs_index :: "string \<rightharpoonup> string"
  gs_transitions :: "(string \<times> TransitionRecord option) list"
  gs_writable :: "store_dir \<Rightarrow> bool"

datatype verify_error = VDigestFailed | VDigestMismatch string | VParse grant_error

datatype store_error =
    BadDigestName | NotVerified verify_error | OtherRecord | StoreIO | BadGrantee | NotInStore
  | GrantedToOther string | BadRecordText grant_error | AlreadyBound | NotATransition redeem_error

definition maxNameLen :: nat where "maxNameLen = 200"

definition digest_char :: "char \<Rightarrow> bool" where
  "digest_char r \<longleftrightarrow>
     CHR ''a'' \<le> r \<and> r \<le> CHR ''z'' \<or> CHR ''A'' \<le> r \<and> r \<le> CHR ''Z'' \<or> CHR ''0'' \<le> r \<and> r \<le> CHR ''9'' \<or>
     r \<in> set ''._@+-''"

definition checkDigestName :: "string \<Rightarrow> bool" where
  "checkDigestName digest \<longleftrightarrow>
     digest \<noteq> [] \<and> length digest \<le> maxNameLen \<and> hd digest \<noteq> CHR ''.'' \<and> list_all digest_char digest"

definition granteeFilename :: "string \<Rightarrow> string option" where
  "granteeFilename grantee =
     (if \<not> checkIdentityValue grantee then None
      else
        let name = ReplaceAll grantee ''/'' ''%2F''
        in if length name > maxNameLen \<or> hd name = CHR ''.'' then None else Some name)"

definition verified :: "(string \<Rightarrow> string option) \<Rightarrow> Record \<Rightarrow> verify_error + Grant" where
  "verified DigestOf rc =
     (case DigestOf (rec_Text rc) of
        None \<Rightarrow> Inl VDigestFailed
      | Some want \<Rightarrow>
          if rec_Digest rc \<noteq> want then Inl (VDigestMismatch want)
          else case ParseCanonicalText (rec_Text rc) of Inl e \<Rightarrow> Inl (VParse e) | Inr g \<Rightarrow> Inr g)"

definition cardSigned :: "Record \<Rightarrow> bool" where
  "cardSigned rc \<longleftrightarrow> rec_Root rc \<and> length (rec_Sig rc) > 0"

text \<open>The two subdirectories lie among the record files; neither reads as one or can be replaced by one.\<close>

definition store_subdirs :: "string list" where "store_subdirs = [''index'', ''transitions'']"

definition read_record :: "GrantStore \<Rightarrow> string \<Rightarrow> Record option" where
  "read_record s name =
     (if name \<in> set store_subdirs then None else case gs_records s name of Some (Some rc) \<Rightarrow> Some rc | _ \<Rightarrow> None)"

definition Get :: "(string \<Rightarrow> string option) \<Rightarrow> GrantStore \<Rightarrow> string \<Rightarrow> Record option" where
  "Get DigestOf s digest =
     (if \<not> checkDigestName digest then None
      else case read_record s digest of
        None \<Rightarrow> None
      | Some rc \<Rightarrow>
          if rec_Digest rc \<noteq> digest then None
          else case verified DigestOf rc of Inl _ \<Rightarrow> None | Inr _ \<Rightarrow> Some rc)"

text \<open>\<open>os.Link\<close> creates; \<open>os.Rename\<close> replaces a file but no directory.\<close>

definition link_record :: "Record \<Rightarrow> GrantStore \<Rightarrow> GrantStore" where
  "link_record rc s = s\<lparr>gs_records := (gs_records s)(rec_Digest rc \<mapsto> Some rc)\<rparr>"

definition rename_record :: "Record \<Rightarrow> GrantStore \<Rightarrow> store_error + GrantStore" where
  "rename_record rc s = (if rec_Digest rc \<in> set store_subdirs then Inl StoreIO else Inr (link_record rc s))"

definition Put :: "(string \<Rightarrow> string option) \<Rightarrow> Record \<Rightarrow> GrantStore \<Rightarrow> store_error + GrantStore" where
  "Put DigestOf rc s =
     (if \<not> checkDigestName (rec_Digest rc) then Inl BadDigestName
      else case verified DigestOf rc of
        Inl e \<Rightarrow> Inl (NotVerified e)
      | Inr _ \<Rightarrow>
          if \<not> gs_writable s RecordsDir then Inl StoreIO
          else if rec_Digest rc \<notin> set store_subdirs \<and> gs_records s (rec_Digest rc) = None then Inr (link_record rc s)
          else case Get DigestOf s (rec_Digest rc) of
            Some existing \<Rightarrow>
              if existing = rc then Inr s
              else if \<not> cardSigned rc \<or> cardSigned existing then Inl OtherRecord
              else rename_record rc s
          | None \<Rightarrow> rename_record rc s)"

section \<open>The index\<close>

definition bindingPath :: "(string \<Rightarrow> string option) \<Rightarrow> GrantStore \<Rightarrow> string \<Rightarrow> string \<Rightarrow> store_error + string" where
  "bindingPath DigestOf s grantee digest =
     (case granteeFilename grantee of
        None \<Rightarrow> Inl BadGrantee
      | Some name \<Rightarrow>
          (case Get DigestOf s digest of
             None \<Rightarrow> Inl NotInStore
           | Some rc \<Rightarrow>
               (case ParseCanonicalText (rec_Text rc) of
                  Inl e \<Rightarrow> Inl (BadRecordText e)
                | Inr g \<Rightarrow> if g_Grantee g \<noteq> grantee then Inl (GrantedToOther (g_Grantee g)) else Inr name)))"

definition write_index :: "string \<Rightarrow> string \<Rightarrow> GrantStore \<Rightarrow> GrantStore" where
  "write_index name digest s = s\<lparr>gs_index := (gs_index s)(name \<mapsto> digest)\<rparr>"

definition Bind :: "(string \<Rightarrow> string option) \<Rightarrow> string \<Rightarrow> string \<Rightarrow> GrantStore \<Rightarrow> store_error + GrantStore" where
  "Bind DigestOf grantee digest s =
     (case bindingPath DigestOf s grantee digest of
        Inl e \<Rightarrow> Inl e
      | Inr name \<Rightarrow> if gs_writable s IndexDir then Inr (write_index name digest s) else Inl StoreIO)"

definition BindNew :: "(string \<Rightarrow> string option) \<Rightarrow> string \<Rightarrow> string \<Rightarrow> GrantStore \<Rightarrow> store_error + GrantStore" where
  "BindNew DigestOf grantee digest s =
     (case bindingPath DigestOf s grantee digest of
        Inl e \<Rightarrow> Inl e
      | Inr name \<Rightarrow>
          if \<not> gs_writable s IndexDir then Inl StoreIO
          else if gs_index s name \<noteq> None then Inl AlreadyBound
          else Inr (write_index name digest s))"

definition Current :: "(string \<Rightarrow> string option) \<Rightarrow> GrantStore \<Rightarrow> string \<Rightarrow> Record option" where
  "Current DigestOf s grantee =
     (case granteeFilename grantee of
        None \<Rightarrow> None
      | Some name \<Rightarrow>
          (case gs_index s name of
             None \<Rightarrow> None
           | Some data \<Rightarrow>
               (case Get DigestOf s (TrimSpace data) of
                  None \<Rightarrow> None
                | Some rc \<Rightarrow>
                    (case ParseCanonicalText (rec_Text rc) of
                       Inl _ \<Rightarrow> None
                     | Inr g \<Rightarrow> if g_Grantee g \<noteq> grantee then None else Some rc))))"

definition Unbind :: "string \<Rightarrow> GrantStore \<Rightarrow> store_error + GrantStore" where
  "Unbind grantee s =
     (case granteeFilename grantee of
        None \<Rightarrow> Inl BadGrantee
      | Some name \<Rightarrow>
          if gs_index s name = None then Inr s
          else if gs_writable s IndexDir then Inr (s\<lparr>gs_index := (gs_index s)(name := None)\<rparr>)
          else Inl StoreIO)"

section \<open>Transition approvals\<close>

definition getTransition :: "(string \<Rightarrow> string option) \<Rightarrow> GrantStore \<Rightarrow> string \<Rightarrow> TransitionRecord option" where
  "getTransition DigestOf s digest =
     (if \<not> checkDigestName digest then None
      else case map_of (gs_transitions s) digest of
        Some (Some rc) \<Rightarrow>
          if trec_Digest rc \<noteq> digest then None
          else (case CheckTransitionRecord DigestOf rc of Inl _ \<Rightarrow> None | Inr _ \<Rightarrow> Some rc)
      | _ \<Rightarrow> None)"

definition PutTransition ::
  "(string \<Rightarrow> string option) \<Rightarrow> TransitionRecord \<Rightarrow> GrantStore \<Rightarrow> store_error + GrantStore" where
  "PutTransition DigestOf rc s =
     (if \<not> checkDigestName (trec_Digest rc) then Inl BadDigestName
      else case CheckTransitionRecord DigestOf rc of
        Inl e \<Rightarrow> Inl (NotATransition e)
      | Inr _ \<Rightarrow>
          if \<not> gs_writable s TransitionsDir then Inl StoreIO
          else if map_of (gs_transitions s) (trec_Digest rc) = None
          then Inr (s\<lparr>gs_transitions := AList.update (trec_Digest rc) (Some rc) (gs_transitions s)\<rparr>)
          else if getTransition DigestOf s (trec_Digest rc) = Some rc then Inr s
          else Inl OtherRecord)"

text \<open>\<open>os.ReadDir\<close> lists the files in the order of their names.\<close>

definition FindTransitions ::
  "(string \<Rightarrow> string option) \<Rightarrow> GrantStore \<Rightarrow> string \<Rightarrow> string \<Rightarrow> string \<Rightarrow> TransitionRecord list" where
  "FindTransitions DigestOf s profile fr t =
     filter (\<lambda>rc. case CheckTransitionRecord DigestOf rc of Inl _ \<Rightarrow> False | Inr tr \<Rightarrow> Covers tr profile fr t)
       (List.map_filter (getTransition DigestOf s)
         (filter (\<lambda>name. \<not> HasPrefix name ''.'') (sort (map fst (gs_transitions s)))))"

section \<open>The contract of a content store\<close>

text \<open>
  What both stores promise: a record is read back under its own key, a put that succeeds stores its
  record and touches no other key, and a record that is final under its key stays. \<open>puts\<close> is any
  history of puts, each of which may fail.
\<close>

locale content_store =
  fixes get_rec :: "'s \<Rightarrow> string \<Rightarrow> 'r option"
    and put_rec :: "'r \<Rightarrow> 's \<Rightarrow> 'e + 's"
    and rec_key :: "'r \<Rightarrow> string"
    and final_rec :: "'r \<Rightarrow> bool"
  assumes get_key: "get_rec s d = Some rc \<Longrightarrow> rec_key rc = d"
    and put_get: "put_rec rc s = Inr s' \<Longrightarrow> get_rec s' (rec_key rc) = Some rc"
    and put_frame: "put_rec rc s = Inr s' \<Longrightarrow> d \<noteq> rec_key rc \<Longrightarrow> get_rec s' d = get_rec s d"
    and put_final: "put_rec rc s = Inr s' \<Longrightarrow> get_rec s (rec_key rc) = Some rc0 \<Longrightarrow> final_rec rc0 \<Longrightarrow> rc0 = rc"
begin

definition puts :: "'r list \<Rightarrow> 's \<Rightarrow> 's" where
  "puts rcs s = fold (\<lambda>rc s. case put_rec rc s of Inl _ \<Rightarrow> s | Inr s' \<Rightarrow> s') rcs s"

lemma puts_simps [simp]:
  "puts [] s = s" "puts (rc # rcs) s = puts rcs (case put_rec rc s of Inl _ \<Rightarrow> s | Inr s' \<Rightarrow> s')"
  by (simp_all add: puts_def)

lemma put_get_iff:
  "put_rec rc s = Inr s' \<Longrightarrow> get_rec s' d = (if d = rec_key rc then Some rc else get_rec s d)"
  using put_get put_frame by auto

lemma final_kept: "put_rec rc s = Inr s' \<Longrightarrow> get_rec s d = Some rc0 \<Longrightarrow> final_rec rc0 \<Longrightarrow> get_rec s' d = Some rc0"
  using put_final put_get_iff by (cases "d = rec_key rc") auto

lemma final_persists: "get_rec s d = Some rc0 \<Longrightarrow> final_rec rc0 \<Longrightarrow> get_rec (puts rcs s) d = Some rc0"
  by (induction rcs arbitrary: s) (auto simp: final_kept split: sum.split)

lemma puts_get:
  "get_rec (puts rcs s) d = get_rec s d \<or> (\<exists>rc \<in> set rcs. rec_key rc = d \<and> get_rec (puts rcs s) d = Some rc)"
proof (induction rcs arbitrary: s)
  case (Cons rc rcs)
  show ?case
  proof (cases "put_rec rc s")
    case (Inr s')
    with Cons.IH[of s'] show ?thesis by (auto simp: put_get_iff split: if_splits)
  qed (use Cons.IH[of s] in auto)
qed simp

end

lemma Get_facts:
  assumes "Get D s d = Some rc"
  shows "rec_Digest rc = d" "checkDigestName d" "D (rec_Text rc) = Some d" "\<exists>g. ParseCanonicalText (rec_Text rc) = Inr g"
    "gs_records s d = Some (Some rc)" "d \<notin> set store_subdirs"
  using assms by (auto simp: Get_def verified_def read_record_def split: if_splits option.splits sum.splits)

lemma Get_link_record:
  "checkDigestName (rec_Digest rc) \<Longrightarrow> verified D rc = Inr g \<Longrightarrow> rec_Digest rc \<notin> set store_subdirs \<Longrightarrow>
   Get D (link_record rc s) (rec_Digest rc) = Some rc"
  by (simp add: Get_def read_record_def link_record_def)

lemma Get_link_other: "d \<noteq> rec_Digest rc \<Longrightarrow> Get D (link_record rc s) d = Get D s d"
  by (simp add: Get_def read_record_def link_record_def)

lemma Put_cases:
  assumes "Put D rc s = Inr s'"
  obtains (link) g where "s' = link_record rc s" "checkDigestName (rec_Digest rc)" "verified D rc = Inr g"
      "rec_Digest rc \<notin> set store_subdirs"
      "case Get D s (rec_Digest rc) of None \<Rightarrow> True | Some rc0 \<Rightarrow> \<not> cardSigned rc0 \<and> cardSigned rc"
    | (same) "s' = s" "Get D s (rec_Digest rc) = Some rc"
  using assms
  by (auto simp: Put_def rename_record_def Get_def read_record_def split: if_splits option.splits sum.splits)

interpretation grants: content_store "Get D" "Put D" rec_Digest cardSigned
proof
  show "Get D s d = Some rc \<Longrightarrow> rec_Digest rc = d" for s d rc by (rule Get_facts(1))
  show "Get D s' (rec_Digest rc) = Some rc" if "Put D rc s = Inr s'" for s s' rc
    using that by (cases rule: Put_cases) (auto simp: Get_link_record)
  show "Get D s' d = Get D s d" if "Put D rc s = Inr s'" "d \<noteq> rec_Digest rc" for s s' d rc
    using that by (cases rule: Put_cases) (auto simp: Get_link_other)
  show "rc0 = rc" if "Put D rc s = Inr s'" "Get D s (rec_Digest rc) = Some rc0" "cardSigned rc0" for s s' rc rc0
    using that by (cases rule: Put_cases) auto
qed

lemma PutTransition_cases:
  assumes "PutTransition D rc s = Inr s'"
  obtains (link) tr where "s' = s\<lparr>gs_transitions := AList.update (trec_Digest rc) (Some rc) (gs_transitions s)\<rparr>"
      "checkDigestName (trec_Digest rc)" "CheckTransitionRecord D rc = Inr tr" "map_of (gs_transitions s) (trec_Digest rc) = None"
    | (same) "s' = s" "getTransition D s (trec_Digest rc) = Some rc"
  using assms by (auto simp: PutTransition_def split: if_splits sum.splits)

interpretation approvals: content_store "getTransition D" "PutTransition D" trec_Digest "\<lambda>_. True"
proof
  show "getTransition D s d = Some rc \<Longrightarrow> trec_Digest rc = d" for s d rc
    by (auto simp: getTransition_def split: if_splits option.splits sum.splits)
  show "getTransition D s' (trec_Digest rc) = Some rc" if "PutTransition D rc s = Inr s'" for s s' rc
    using that by (cases rule: PutTransition_cases) (auto simp: getTransition_def update_conv')
  show "getTransition D s' d = getTransition D s d" if "PutTransition D rc s = Inr s'" "d \<noteq> trec_Digest rc" for s s' d rc
    using that by (cases rule: PutTransition_cases) (auto simp: getTransition_def update_conv')
  show "rc0 = rc" if "PutTransition D rc s = Inr s'" "getTransition D s (trec_Digest rc) = Some rc0" "True" for s s' rc rc0
    using that by (cases rule: PutTransition_cases) (auto simp: getTransition_def)
qed

section \<open>Index files\<close>

definition escape_slash :: "string \<Rightarrow> string" where
  "escape_slash g = concat (map (\<lambda>c. if c = CHR ''/'' then ''%2F'' else [c]) g)"

lemma escape_slash_inj:
  "list_all identity_char a \<Longrightarrow> list_all identity_char b \<Longrightarrow> escape_slash a = escape_slash b \<Longrightarrow> a = b"
proof (induction a arbitrary: b)
  case Nil
  then show ?case by (cases b) (auto simp: escape_slash_def split: if_splits)
next
  case (Cons x xs)
  have pct: "\<not> identity_char CHR ''%''" by code_simp
  show ?case
  proof (cases b)
    case Nil
    then show ?thesis using Cons.prems by (auto simp: escape_slash_def split: if_splits)
  next
    case (Cons y ys)
    have "x = y \<and> escape_slash xs = escape_slash ys"
      using Cons.prems pct unfolding Cons by (auto simp: escape_slash_def split: if_splits)
    then show ?thesis using Cons.IH[of ys] Cons.prems unfolding Cons by simp
  qed
qed

lemma granteeFilename_inj: "granteeFilename a = Some n \<Longrightarrow> granteeFilename b = Some n \<Longrightarrow> a = b"
  using escape_slash_inj[of a b]
  by (auto simp: granteeFilename_def ReplaceAll_byte checkIdentityValue_def Let_def escape_slash_def split: if_splits)

lemma bindingPath_facts:
  assumes "bindingPath D s k d = Inr n"
  obtains rc g where "granteeFilename k = Some n" "Get D s d = Some rc" "ParseCanonicalText (rec_Text rc) = Inr g" "g_Grantee g = k"
  using assms by (auto simp: bindingPath_def split: option.splits sum.splits if_splits)

text \<open>A digest name is read back from an index file as it was written.\<close>

lemma digest_char_printable: "digest_char c \<Longrightarrow> printable c"
  by (auto simp: digest_char_def printable_def less_eq_char_def)

lemma TrimSpace_digest: "checkDigestName d \<Longrightarrow> TrimSpace d = d"
  using digest_char_printable
  by (intro TrimSpace_line_value) (auto simp: checkDigestName_def line_value_def line_char_def list_all_iff)

section \<open>Histories of operations\<close>

datatype store_op =
    OpPut Record | OpBind string string | OpBindNew string string | OpUnbind string | OpPutTransition TransitionRecord

definition store_step :: "(string \<Rightarrow> string option) \<Rightarrow> store_op \<Rightarrow> GrantStore \<Rightarrow> GrantStore" where
  "store_step DigestOf op s =
     (case (case op of
              OpPut rc \<Rightarrow> Put DigestOf rc s
            | OpBind k d \<Rightarrow> Bind DigestOf k d s
            | OpBindNew k d \<Rightarrow> BindNew DigestOf k d s
            | OpUnbind k \<Rightarrow> Unbind k s
            | OpPutTransition rc \<Rightarrow> PutTransition DigestOf rc s) of
        Inl _ \<Rightarrow> s
      | Inr s' \<Rightarrow> s')"

definition store_run :: "(string \<Rightarrow> string option) \<Rightarrow> store_op list \<Rightarrow> GrantStore \<Rightarrow> GrantStore" where
  "store_run DigestOf ops s = fold (store_step DigestOf) ops s"

lemma store_run_simps [simp]:
  "store_run D [] s = s" "store_run D (op # ops) s = store_run D ops (store_step D op s)"
  by (simp_all add: store_run_def)

lemma store_run_inv:
  "P s \<Longrightarrow> (\<And>s op. P s \<Longrightarrow> op \<in> set ops \<Longrightarrow> P (store_step D op s)) \<Longrightarrow> P (store_run D ops s)"
  by (induction ops arbitrary: s) auto

lemma index_ops_keep_records:
  "Bind D k d s = Inr s' \<Longrightarrow> gs_records s' = gs_records s"
  "BindNew D k d s = Inr s' \<Longrightarrow> gs_records s' = gs_records s"
  "Unbind k s = Inr s' \<Longrightarrow> gs_records s' = gs_records s"
  "PutTransition D trc s = Inr s' \<Longrightarrow> gs_records s' = gs_records s"
  by (auto simp: Bind_def BindNew_def Unbind_def PutTransition_def write_index_def split: sum.splits option.splits if_splits)

lemma Get_cong: "gs_records s' = gs_records s \<Longrightarrow> Get D s' = Get D s"
  by (simp add: Get_def read_record_def fun_eq_iff)

lemma step_Get:
  "Get D (store_step D op s) =
     (case op of OpPut rc \<Rightarrow> (case Put D rc s of Inl _ \<Rightarrow> Get D s | Inr s' \<Rightarrow> Get D s') | _ \<Rightarrow> Get D s)"
  by (auto simp: store_step_def index_ops_keep_records intro!: Get_cong split: store_op.split sum.split)

text \<open>A record that is read keeps its text and digest; only its signature can be upgraded.\<close>

definition collision_free :: "(string \<Rightarrow> string option) \<Rightarrow> bool" where
  "collision_free DigestOf \<longleftrightarrow> (\<forall>t t' d. DigestOf t = Some d \<longrightarrow> DigestOf t' = Some d \<longrightarrow> t = t')"

definition reads_text :: "(string \<Rightarrow> string option) \<Rightarrow> GrantStore \<Rightarrow> string \<Rightarrow> string \<Rightarrow> bool" where
  "reads_text DigestOf s d t \<longleftrightarrow> (\<exists>rc. Get DigestOf s d = Some rc \<and> rec_Text rc = t)"

lemma step_reads_text:
  assumes "collision_free D" "reads_text D s d t"
  shows "reads_text D (store_step D op s) d t"
proof -
  from assms(2) obtain rc where rc: "Get D s d = Some rc" "rec_Text rc = t" by (auto simp: reads_text_def)
  have "reads_text D s' d t" if "Put D rc' s = Inr s'" for rc' s'
  proof (cases "d = rec_Digest rc'")
    case True
    have got: "Get D s' d = Some rc'" using grants.put_get[OF that] True by simp
    from Get_facts(3)[OF rc(1)] Get_facts(3)[OF got] assms(1) have "rec_Text rc' = t"
      unfolding collision_free_def using rc(2) by metis
    with got show ?thesis by (simp add: reads_text_def)
  next
    case False
    with grants.put_frame[OF that] rc show ?thesis by (simp add: reads_text_def)
  qed
  with assms(2) show ?thesis by (auto simp: reads_text_def step_Get split: store_op.split sum.split)
qed

text \<open>An index entry changes only by an operation on its own grantee.\<close>

definition touches :: "string \<Rightarrow> store_op \<Rightarrow> bool" where
  "touches k op \<longleftrightarrow> (case op of OpBind k' _ \<Rightarrow> k' = k | OpUnbind k' \<Rightarrow> k' = k | _ \<Rightarrow> False)"

lemma put_keeps_index:
  "Put D rc s = Inr s' \<Longrightarrow> gs_index s' = gs_index s" "PutTransition D trc s = Inr s' \<Longrightarrow> gs_index s' = gs_index s"
  by (erule Put_cases; simp add: link_record_def) (erule PutTransition_cases; simp)

lemma Bind_index: "Bind D k d s = Inr s' \<Longrightarrow> \<exists>n. granteeFilename k = Some n \<and> gs_index s' = (gs_index s)(n \<mapsto> d)"
  by (auto simp: Bind_def write_index_def split: sum.splits if_splits elim: bindingPath_facts)

lemma BindNew_index:
  "BindNew D k d s = Inr s' \<Longrightarrow>
   \<exists>n. granteeFilename k = Some n \<and> gs_index s n = None \<and> gs_index s' = (gs_index s)(n \<mapsto> d)"
  by (auto simp: BindNew_def write_index_def split: sum.splits if_splits elim: bindingPath_facts)

lemma Unbind_index: "Unbind k s = Inr s' \<Longrightarrow> \<exists>n. granteeFilename k = Some n \<and> gs_index s' = (gs_index s)(n := None)"
  by (auto simp: Unbind_def split: option.splits if_splits)

lemma step_index:
  assumes "granteeFilename k = Some n" "gs_index s n = Some d" "\<not> touches k op"
  shows "gs_index (store_step D op s) n = Some d"
proof -
  have other: "n' \<noteq> n" if "granteeFilename k' = Some n'" "k' \<noteq> k" for k' n'
    using granteeFilename_inj[OF assms(1), of k'] that by auto
  show ?thesis
  proof (cases op)
    case (OpBind k' d')
    with assms(3) have "k' \<noteq> k" by (simp add: touches_def)
    with assms(2) other[of k'] Bind_index[of D k' d' s] show ?thesis
      unfolding OpBind store_step_def by (cases "Bind D k' d' s") auto
  next
    case (OpBindNew k' d')
    with assms(2) BindNew_index[of D k' d' s] show ?thesis
      unfolding OpBindNew store_step_def by (cases "BindNew D k' d' s") auto
  next
    case (OpUnbind k')
    with assms(3) have "k' \<noteq> k" by (simp add: touches_def)
    with assms(2) other[of k'] Unbind_index[of k' s] show ?thesis
      unfolding OpUnbind store_step_def by (cases "Unbind k' s") auto
  qed (use assms(2) put_keeps_index in \<open>auto simp: store_step_def split: sum.split\<close>)
qed

section \<open>Properties\<close>

lemma Current_facts:
  assumes "Current D s who = Some rc"
  obtains n data g where "granteeFilename who = Some n" "gs_index s n = Some data" "Get D s (TrimSpace data) = Some rc"
    "ParseCanonicalText (rec_Text rc) = Inr g" "g_Grantee g = who"
  using assms by (auto simp: Current_def split: option.splits sum.splits if_splits)

text \<open>The operator's grant to \<open>driver\<close>, stored and bound.\<close>

definition sample_store :: GrantStore where
  "sample_store =
     \<lparr>gs_records = [''root'' \<mapsto> Some root_record], gs_index = [''driver'' \<mapsto> ''root''], gs_transitions = [], gs_writable = (\<lambda>_. True)\<rparr>"

lemma sample_root_parse: "ParseCanonicalText (CanonicalText sample_root) = Inr sample_root"
  using sample_grants_wf sample_grants_short by (intro ParseCanonicalText_CanonicalText) simp

lemma sample_driver_file: "granteeFilename ''driver'' = Some ''driver''" "TrimSpace ''root'' = ''root''" "checkDigestName ''root''"
  by code_simp+

lemma sample_get_any:
  assumes "D (CanonicalText sample_root) = Some ''root''" "gs_records s ''root'' = Some (Some root_record)"
  shows "Get D s ''root'' = Some root_record"
  using assms sample_driver_file(3) sample_root_parse
  by (simp add: Get_def read_record_def store_subdirs_def verified_def root_record_def)

lemma sample_digest_root: "sample_digest (CanonicalText sample_root) = Some ''root''"
  by (simp add: sample_digest_def)

lemmas sample_get = sample_get_any[where D = sample_digest, OF sample_digest_root]

lemma sample_current: "Current sample_digest sample_store ''driver'' = Some root_record"
proof -
  have "Get sample_digest sample_store ''root'' = Some root_record"
    by (rule sample_get) (simp add: sample_store_def)
  moreover have "gs_index sample_store ''driver'' = Some ''root''" by (simp add: sample_store_def)
  moreover have "rec_Text root_record = CanonicalText sample_root" "g_Grantee sample_root = ''driver''"
    by (simp_all add: root_record_def sample_root_def)
  ultimately show ?thesis by (simp add: Current_def sample_driver_file sample_root_parse)
qed

text \<open>A digest without collisions, and the store before the binding.\<close>

definition sample_hash :: "string \<Rightarrow> string option" where
  "sample_hash t = (if t = CanonicalText sample_root then Some ''root'' else None)"

definition unbound_store :: GrantStore where
  "unbound_store = sample_store\<lparr>gs_index := Map.empty\<rparr>"

lemma sample_bind_new: "BindNew sample_hash ''driver'' ''root'' unbound_store = Inr (write_index ''driver'' ''root'' unbound_store)"
proof -
  have "Get sample_hash unbound_store ''root'' = Some root_record"
    by (rule sample_get_any) (simp_all add: sample_hash_def unbound_store_def sample_store_def)
  moreover have "rec_Text root_record = CanonicalText sample_root" "g_Grantee sample_root = ''driver''"
    by (simp_all add: root_record_def sample_root_def)
  ultimately show ?thesis
    by (simp add: BindNew_def bindingPath_def sample_driver_file(1) sample_root_parse) (simp add: unbound_store_def sample_store_def)
qed

text \<open>
  What is read as a grantee's current record is that grantee's: whatever the files of the store
  hold, its digest names its text, its text parses to a grant to exactly this grantee, and the
  grantee's own index file names it.
\<close>

theorem current_record_is_own:
  assumes "Current DigestOf s who = Some rc"
  shows "DigestOf (rec_Text rc) = Some (rec_Digest rc) \<and>
    (\<exists>g. ParseCanonicalText (rec_Text rc) = Inr g \<and> g_Grantee g = who) \<and>
    (\<exists>n data. granteeFilename who = Some n \<and> gs_index s n = Some data \<and> TrimSpace data = rec_Digest rc)"
proof -
  from assms obtain n data g where f: "granteeFilename who = Some n" "gs_index s n = Some data"
    "Get DigestOf s (TrimSpace data) = Some rc" "ParseCanonicalText (rec_Text rc) = Inr g" "g_Grantee g = who"
    by (rule Current_facts)
  with Get_facts[OF f(3)] show ?thesis by auto
qed

theorem current_record_is_own_witness:
  "\<exists>n. granteeFilename ''driver'' = Some n \<and> gs_index sample_store n = Some ''root''"
proof -
  have "rec_Digest root_record = ''root''" by (simp add: root_record_def)
  with current_record_is_own[OF sample_current] sample_driver_file(2) show ?thesis
    by (auto simp: sample_store_def split: if_splits)
qed

text \<open>
  A card-signed record is permanent: no history of the store's operations, successful or not,
  replaces or removes a record that carries the card's signature.
\<close>

theorem card_signed_record_stays:
  assumes "Get DigestOf s d = Some rc" "cardSigned rc"
  shows "Get DigestOf (store_run DigestOf ops s) d = Some rc"
  by (rule store_run_inv[where P = "\<lambda>s. Get DigestOf s d = Some rc"])
     (use assms grants.final_kept in \<open>auto simp: step_Get split: store_op.split sum.split\<close>)

theorem card_signed_record_stays_witness:
  "Get sample_digest (store_run sample_digest [OpUnbind ''driver'', OpPut (root_record\<lparr>rec_Sig := ''other''\<rparr>)] sample_store) ''root'' =
   Some root_record"
proof (rule card_signed_record_stays)
  show "Get sample_digest sample_store ''root'' = Some root_record" by (rule sample_get) (simp add: sample_store_def)
qed (simp add: cardSigned_def root_record_def)

text \<open>
  C39. A new binding is exclusive: once \<open>BindNew\<close> has bound a grantee to a record, then after any
  history that neither binds the grantee explicitly nor unbinds it, the grantee's current record has
  that digest and every further \<open>BindNew\<close> for it is refused; collisions of the digest apart.
\<close>

theorem new_binding_is_exclusive:
  assumes "BindNew DigestOf k d s = Inr s'" "\<not> list_ex (touches k) ops" "collision_free DigestOf"
  shows "(\<exists>rc. Current DigestOf (store_run DigestOf ops s') k = Some rc \<and> rec_Digest rc = d) \<and>
    isl (BindNew DigestOf k d' (store_run DigestOf ops s'))"
proof -
  from assms(1) obtain n where path: "bindingPath DigestOf s k d = Inr n" and s': "s' = write_index n d s"
    by (auto simp: BindNew_def split: sum.splits if_splits)
  then obtain rc g where rc: "granteeFilename k = Some n" "Get DigestOf s d = Some rc"
    "ParseCanonicalText (rec_Text rc) = Inr g" "g_Grantee g = k" by (elim bindingPath_facts)
  let ?t = "store_run DigestOf ops s'"
  have "gs_index ?t n = Some d \<and> reads_text DigestOf ?t d (rec_Text rc)"
  proof (rule store_run_inv[where P = "\<lambda>s. gs_index s n = Some d \<and> reads_text DigestOf s d (rec_Text rc)"])
    show "gs_index s' n = Some d \<and> reads_text DigestOf s' d (rec_Text rc)"
      using rc(2) Get_cong[of "write_index n d s" s DigestOf] by (auto simp: s' write_index_def reads_text_def)
  qed (use assms(2,3) rc(1) step_index step_reads_text in \<open>auto simp: list_ex_iff\<close>)
  moreover have "TrimSpace d = d" by (rule TrimSpace_digest[OF Get_facts(2)[OF rc(2)]])
  ultimately show ?thesis
    using rc(1,3,4) by (auto simp: Current_def reads_text_def BindNew_def bindingPath_def Get_facts(1) split: option.splits sum.splits)
qed

theorem new_binding_is_exclusive_witness:
  "isl (BindNew sample_hash ''driver'' ''root'' (store_run sample_hash [OpUnbind ''worker'', OpBindNew ''driver'' ''root'']
     (write_index ''driver'' ''root'' unbound_store)))"
proof -
  have "collision_free sample_hash" by (simp add: collision_free_def sample_hash_def)
  moreover have "\<not> list_ex (touches ''driver'') [OpUnbind ''worker'', OpBindNew ''driver'' ''root'']" by (simp add: touches_def)
  ultimately show ?thesis using new_binding_is_exclusive[OF sample_bind_new] by blast
qed

end
