(* ===== verification/ProfileRights.thy ===== *)
theory ProfileRights
  imports GrantStore
begin

text \<open>
  The profile right at spawn time (\<open>src/internal/charlie/profilerights/profilerights.go\<close>,
  \<open>revoke.go\<close>): who holds a profile, and the link a spawner passes to its child. It composes the
  grant store with the walk. The card's keys, their signature check, the session lookup, the
  base-chain resolver, the confinement check and the random nonce are parameters.
\<close>

section \<open>The checker\<close>

record 'k Checker =
  ck_RootKeys :: "'k option"
  ck_RootVerifier :: "'k \<Rightarrow> string \<Rightarrow> string \<Rightarrow> bool"
  ck_SessionOfPrincipal :: "(string \<Rightarrow> string option) option"
  ck_BaseChain :: "(string \<Rightarrow> string \<Rightarrow> string + BaseLink list) option"
  ck_Confinement :: "string option"
  ck_Now :: UTC
  ck_DigestOf :: "string \<Rightarrow> string option"

record 'k Authorization =
  au_RecordDigest :: string
  au_Effective :: Grant
  au_MayPassOn :: bool
  au_keys :: 'k

datatype auth_error =
    NotCardRooted string | SignersNotLoaded | NoSpawner | NoProfileGrant string string
  | ChainDoesNotVerify string walk_reason | ProfileNotHeld string "string list"
  | ProfileNotStacked string "string list" narrow_error | ProfileChanged string string string

definition walkOptions :: "'k Checker \<Rightarrow> WalkOptions" where
  "walkOptions c = \<lparr>wo_SessionOfPrincipal = ck_SessionOfPrincipal c, wo_BaseChain = ck_BaseChain c\<rparr>"

definition verifier :: "'k Checker \<Rightarrow> 'k \<Rightarrow> Verifier" where
  "verifier c keys = \<lparr>v_Root = ck_RootVerifier c keys, v_Link = LocalLinkVerifier\<rparr>"

definition currentRecord :: "'k Checker \<Rightarrow> GrantStore \<Rightarrow> string \<Rightarrow> string \<Rightarrow> Record option" where
  "currentRecord c s session driver =
     (let joined =
        (if session \<noteq> [] \<and> driver \<noteq> []
         then (case ck_SessionOfPrincipal c of
                 None \<Rightarrow> None
               | Some f \<Rightarrow> if f driver = Some session then Current (ck_DigestOf c) s session else None)
         else None)
      in case joined of
           Some rc \<Rightarrow> Some rc
         | None \<Rightarrow> if driver \<noteq> [] then Current (ck_DigestOf c) s driver else None)"

definition heldList :: "Grant \<Rightarrow> string list" where
  "heldList g = profileNames g"

definition Authorize ::
  "'k Checker \<Rightarrow> GrantStore \<Rightarrow> string \<Rightarrow> string \<Rightarrow> string \<Rightarrow> string \<Rightarrow> auth_error + 'k Authorization" where
  "Authorize c s driverPrincipal driverSession profile pinnedDigest =
     (case ck_Confinement c of
        Some e \<Rightarrow> Inl (NotCardRooted e)
      | None \<Rightarrow>
          (case ck_RootKeys c of
             None \<Rightarrow> Inl SignersNotLoaded
           | Some keys \<Rightarrow>
               if driverPrincipal = [] \<and> driverSession = [] then Inl NoSpawner
               else case currentRecord c s driverSession driverPrincipal of
                 None \<Rightarrow> Inl (NoProfileGrant driverSession driverPrincipal)
               | Some rc \<Rightarrow>
                   (case Walk (ck_DigestOf c) (ck_Now c) rc (Get (ck_DigestOf c) s) (verifier c keys) (walkOptions c) of
                      Inl (d, e) \<Rightarrow> Inl (ChainDoesNotVerify d e)
                    | Inr effective \<Rightarrow>
                        let ok = Inr \<lparr>au_RecordDigest = rec_Digest rc, au_Effective = effective,
                                      au_MayPassOn = (g_Onward effective = OnwardGrant), au_keys = keys\<rparr>
                        in if \<not> Holds effective profile then
                             if ck_BaseChain c = None then Inl (ProfileNotHeld profile (heldList effective))
                             else (case ReachesHeldBase effective profile pinnedDigest (walkOptions c) of
                                 Some e \<Rightarrow> Inl (ProfileNotStacked profile (heldList effective) e)
                               | None \<Rightarrow> ok)
                           else if profile_digest effective profile \<noteq> pinnedDigest
                           then Inl (ProfileChanged profile (profile_digest effective profile) pinnedDigest)
                           else ok)))"

section \<open>Passing the right on\<close>

datatype issue_error =
    NoGrantor | AlreadyHasBinding | NoNonce | NoLinkDigest | LinkNotStored store_error | LinkNotBound store_error
  | LinkDoesNotVerify string walk_reason

definition hex_digit :: "nat \<Rightarrow> char" where
  "hex_digit n = (''0123456789abcdef'') ! (n mod 16)"

definition EncodeToString :: "string \<Rightarrow> string" where
  "EncodeToString bs = concat (map (\<lambda>b. [hex_digit (of_char b div 16), hex_digit (of_char b)]) bs)"

definition child_link :: "'k Authorization \<Rightarrow> string \<Rightarrow> string \<Rightarrow> string \<Rightarrow> string \<Rightarrow> string \<Rightarrow> Grant" where
  "child_link a driverPrincipal childSession profile digest nonce =
     \<lparr>g_Grantor = driverPrincipal, g_Grantee = childSession, g_Session = childSession,
      g_Profiles = [(profile, digest)], g_Onward = OnwardNone, g_Expires = g_Expires (au_Effective a),
      g_Nonce = EncodeToString nonce, g_Widens = noValue, g_Prev = au_RecordDigest a\<rparr>"

text \<open>The result: an error, nothing (the spawner may not pass on), or the bound link; and the store.\<close>

definition IssueChildLink ::
  "'k Checker \<Rightarrow> 'k Authorization \<Rightarrow> string \<Rightarrow> string \<Rightarrow> string \<Rightarrow> string \<Rightarrow> string option \<Rightarrow> GrantStore \<Rightarrow>
   (issue_error + Record option) \<times> GrantStore" where
  "IssueChildLink c a driverPrincipal childSession profile digest nonce s =
     (if \<not> au_MayPassOn a then (Inr None, s)
      else if driverPrincipal = [] then (Inl NoGrantor, s)
      else if Current (ck_DigestOf c) s childSession \<noteq> None then (Inl AlreadyHasBinding, s)
      else case nonce of
        None \<Rightarrow> (Inl NoNonce, s)
      | Some n \<Rightarrow>
          let t = CanonicalText (child_link a driverPrincipal childSession profile digest n) in
          (case ck_DigestOf c t of
             None \<Rightarrow> (Inl NoLinkDigest, s)
           | Some recDigest \<Rightarrow>
               let rc = \<lparr>rec_Digest = recDigest, rec_Text = t, rec_Sig = [], rec_Root = False\<rparr> in
               (case Put (ck_DigestOf c) rc s of
                  Inl e \<Rightarrow> (Inl (LinkNotStored e), s)
                | Inr s1 \<Rightarrow>
                    (case BindNew (ck_DigestOf c) childSession recDigest s1 of
                       Inl e \<Rightarrow> (Inl (if e = AlreadyBound then AlreadyHasBinding else LinkNotBound e), s1)
                     | Inr s2 \<Rightarrow>
                         (case Walk (ck_DigestOf c) (ck_Now c) rc (Get (ck_DigestOf c) s2) (verifier c (au_keys a)) (walkOptions c) of
                            Inl (d, e) \<Rightarrow>
                              (Inl (LinkDoesNotVerify d e), case Unbind childSession s2 of Inl _ \<Rightarrow> s2 | Inr s3 \<Rightarrow> s3)
                          | Inr _ \<Rightarrow> (Inr (Some rc), s2))))))"

text \<open>A store that does not exist is left alone; one that cannot be opened is an error.\<close>

datatype opened = NoStore | CannotOpen | Opened GrantStore
datatype revoke_error = StoreNotOpened | NotUnbound store_error

definition RevokeSessionIn :: "opened \<Rightarrow> string \<Rightarrow> revoke_error + GrantStore option" where
  "RevokeSessionIn st sessionKey =
     (case st of
        NoStore \<Rightarrow> Inr None
      | CannotOpen \<Rightarrow> Inl StoreNotOpened
      | Opened s \<Rightarrow> (case Unbind sessionKey s of Inl e \<Rightarrow> Inl (NotUnbound e) | Inr s' \<Rightarrow> Inr (Some s')))"

section \<open>What authorises\<close>

lemma Authorize_facts:
  assumes "Authorize c s driver session profile dig = Inr a"
  obtains rc where "ck_Confinement c = None" "ck_RootKeys c = Some (au_keys a)" "currentRecord c s session driver = Some rc"
    "Walk (ck_DigestOf c) (ck_Now c) rc (Get (ck_DigestOf c) s) (verifier c (au_keys a)) (walkOptions c) = Inr (au_Effective a)"
    "au_RecordDigest a = rec_Digest rc" "au_MayPassOn a = (g_Onward (au_Effective a) = OnwardGrant)"
    "(if Holds (au_Effective a) profile then profile_digest (au_Effective a) profile = dig
      else ck_BaseChain c \<noteq> None \<and> ReachesHeldBase (au_Effective a) profile dig (walkOptions c) = None)"
  using assms by (auto simp: Authorize_def Let_def split: option.splits sum.splits prod.splits if_splits)

lemma currentRecord_facts:
  assumes "currentRecord c s session driver = Some rc"
  obtains who where "Current (ck_DigestOf c) s who = Some rc" "driver \<noteq> []"
    "who = driver \<or> who = session \<and> (\<exists>f. ck_SessionOfPrincipal c = Some f \<and> f driver = Some session)"
  using assms by (auto simp: currentRecord_def Let_def split: option.splits if_splits)

text \<open>Holding a profile at a digest is being bounded, at that digest, by the grant.\<close>

definition one_profile :: "string \<Rightarrow> string \<Rightarrow> Grant" where
  "one_profile profile dig = empty_Grant\<lparr>g_Profiles := [(profile, dig)]\<rparr>"

lemma one_profile_bounded:
  "bounded_by opts (one_profile p d) r \<longleftrightarrow> (\<exists>b. (stacks_on opts)\<^sup>*\<^sup>* (p, d) b \<and> map_of (g_Profiles r) (fst b) = Some (snd b))"
  by (auto simp: bounded_by_def one_profile_def)

lemma authorized_bounded:
  assumes "if Holds g profile then profile_digest g profile = dig
      else ck_BaseChain c \<noteq> None \<and> ReachesHeldBase g profile dig (walkOptions c) = None"
  shows "bounded_by (walkOptions c) (one_profile profile dig) g"
proof (cases "map_of (g_Profiles g) profile")
  case None
  then have "ReachesHeldBase g profile dig (walkOptions c) = None" using assms by (simp add: Holds_def)
  from reaches_stacks[OF this[unfolded ReachesHeldBase_def]] show ?thesis unfolding one_profile_bounded by blast
next
  case (Some d)
  with assms show ?thesis
    unfolding one_profile_bounded by (intro exI[of _ "(profile, d)"]) (auto simp: Holds_def profile_digest_def)
qed

lemma authorized_root:
  assumes "Authorize c s driver session profile dig = Inr a"
  obtains rc who root r where "Current (ck_DigestOf c) s who = Some rc"
    "who = driver \<or> who = session \<and> (\<exists>f. ck_SessionOfPrincipal c = Some f \<and> f driver = Some session)"
    "ParseCanonicalText (rec_Text rc) = Inr (au_Effective a)"
    "card_root_bounds (ck_DigestOf c) (ck_Now c) (ck_RootVerifier c (au_keys a)) (walkOptions c) (au_Effective a) root r"
    "ck_Now c < g_Expires (au_Effective a)" "bounded_by (walkOptions c) (one_profile profile dig) r"
proof -
  from assms obtain rc where f: "currentRecord c s session driver = Some rc"
    "Walk (ck_DigestOf c) (ck_Now c) rc (Get (ck_DigestOf c) s) (verifier c (au_keys a)) (walkOptions c) = Inr (au_Effective a)"
    "(if Holds (au_Effective a) profile then profile_digest (au_Effective a) profile = dig
      else ck_BaseChain c \<noteq> None \<and> ReachesHeldBase (au_Effective a) profile dig (walkOptions c) = None)"
    by (rule Authorize_facts)
  from currentRecord_facts[OF f(1)] obtain who where who: "Current (ck_DigestOf c) s who = Some rc"
    "who = driver \<or> who = session \<and> (\<exists>f. ck_SessionOfPrincipal c = Some f \<and> f driver = Some session)" by blast
  note walk = Walk_root[OF f(2)]
  from walk(4) obtain root r where r: "card_root_bounds (ck_DigestOf c) (ck_Now c) (ck_RootVerifier c (au_keys a))
      (walkOptions c) (au_Effective a) root r" by (auto simp: verifier_def)
  then have "bounded_by (walkOptions c) (one_profile profile dig) r"
    using bounded_by_trans[OF authorized_bounded[OF f(3)]] by (simp add: card_root_bounds_def)
  with who walk(1,3) r show ?thesis by (intro that[of who rc root r])
qed

text \<open>
  A spawn is authorised only under the card: whatever the store holds, an authorised driver's
  record is bound to the driver's principal, or to a session that principal maps to; its text states
  the effective grant, unexpired; and there is an unexpired root record whose act text verifies
  under the loaded card keys, that expires no earlier than the grant and holds the profile at the
  pinned digest, or one the profile stacks on without widening.
\<close>

theorem authorized_spawn_is_card_rooted:
  assumes "Authorize c s driver session profile dig = Inr a"
  shows "\<exists>rc who root r. Current (ck_DigestOf c) s who = Some rc \<and>
    (who = driver \<or> who = session \<and> (\<exists>f. ck_SessionOfPrincipal c = Some f \<and> f driver = Some session)) \<and>
    ParseCanonicalText (rec_Text rc) = Inr (au_Effective a) \<and> ck_Now c < g_Expires (au_Effective a) \<and>
    card_root_bounds (ck_DigestOf c) (ck_Now c) (ck_RootVerifier c (au_keys a)) (walkOptions c) (au_Effective a) root r \<and>
    bounded_by (walkOptions c) (one_profile profile dig) r"
  using assms by (elim authorized_root) blast

definition sample_checker :: "unit Checker" where
  "sample_checker =
     \<lparr>ck_RootKeys = Some (), ck_RootVerifier = (\<lambda>_ act sig. sig = ''sig''),
      ck_SessionOfPrincipal = Some (\<lambda>p. if p = ''w1'' then Some ''worker'' else None), ck_BaseChain = None,
      ck_Confinement = None, ck_Now = UTC 7 1 1 0 0 0 0, ck_DigestOf = sample_digest\<rparr>"

definition sample_authorization :: "unit Authorization" where
  "sample_authorization = \<lparr>au_RecordDigest = ''root'', au_Effective = sample_root, au_MayPassOn = True, au_keys = ()\<rparr>"

lemma sample_authorized: "Authorize sample_checker sample_store ''driver'' [] ''test'' ''d2'' = Inr sample_authorization"
proof -
  have root: "rec_Root root_record" "rec_Digest root_record = ''root''" by (simp_all add: root_record_def)
  have "currentRecord sample_checker sample_store [] ''driver'' = Some root_record"
    using sample_current by (simp add: currentRecord_def sample_checker_def)
  moreover have "Walk sample_digest (UTC 7 1 1 0 0 0 0) root_record (Get sample_digest sample_store) sample_verifier (walkOptions sample_checker)
      = Inr sample_root"
    unfolding Walk_chain
    by (intro exI[of _ "[]"]) (use sample_root_record root in \<open>simp add: sound_record_def checkWidens_def maxChainDepth_def sample_root_def\<close>)
  moreover have "verifier sample_checker () = sample_verifier" by (simp add: verifier_def sample_checker_def sample_verifier_def)
  moreover have "map_of (g_Profiles sample_root) ''test'' = Some ''d2''" "g_Onward sample_root = OnwardGrant"
    by (simp_all add: sample_root_def)
  moreover have "ck_DigestOf sample_checker = sample_digest" "ck_Now sample_checker = UTC 7 1 1 0 0 0 0"
    "ck_Confinement sample_checker = None" "ck_RootKeys sample_checker = Some ()" by (simp_all add: sample_checker_def)
  ultimately show ?thesis
    by (simp add: Authorize_def Holds_def profile_digest_def sample_authorization_def root Let_def)
qed

theorem authorized_spawn_is_card_rooted_witness:
  "\<exists>root r. card_root_bounds sample_digest (UTC 7 1 1 0 0 0 0) (\<lambda>act sig. sig = ''sig'') (walkOptions sample_checker) sample_root root r"
proof -
  have "ck_DigestOf sample_checker = sample_digest" "ck_Now sample_checker = UTC 7 1 1 0 0 0 0"
    "ck_RootVerifier sample_checker () = (\<lambda>act sig. sig = ''sig'')" "au_Effective sample_authorization = sample_root"
    "au_keys sample_authorization = ()" by (simp_all add: sample_checker_def sample_authorization_def)
  with authorized_spawn_is_card_rooted[OF sample_authorized] show ?thesis by auto
qed

section \<open>What a child link gives\<close>

abbreviation is_link :: "'k Checker \<Rightarrow> 'k Authorization \<Rightarrow> string \<Rightarrow> string \<Rightarrow> string \<Rightarrow> string \<Rightarrow> string \<Rightarrow> Record \<Rightarrow> bool" where
  "is_link c a driver child profile dig n rc \<equiv>
     rec_Text rc = CanonicalText (child_link a driver child profile dig n) \<and> rec_Sig rc = [] \<and> \<not> rec_Root rc \<and>
     ck_DigestOf c (rec_Text rc) = Some (rec_Digest rc)"

lemma Issue_facts:
  assumes "IssueChildLink c a driver child profile dig nonce s = (Inr (Some rc), s')"
  obtains n s1 g where "nonce = Some n" "is_link c a driver child profile dig n rc"
    "Put (ck_DigestOf c) rc s = Inr s1" "BindNew (ck_DigestOf c) child (rec_Digest rc) s1 = Inr s'"
    "Walk (ck_DigestOf c) (ck_Now c) rc (Get (ck_DigestOf c) s') (verifier c (au_keys a)) (walkOptions c) = Inr g"
  using assms by (auto simp: IssueChildLink_def Let_def split: if_splits option.splits sum.splits prod.splits)

lemma digest_name_identity: "checkDigestName d \<Longrightarrow> checkIdentityValue d"
  by (auto simp: checkDigestName_def checkIdentityValue_def list_all_iff digest_char_def identity_char_def)

lemma hex_digit_identity: "identity_char (hex_digit n)"
proof -
  have "list_all (\<lambda>k. identity_char (''0123456789abcdef'' ! k)) [0..<16]" by code_simp
  then have "\<forall>k < 16. identity_char (''0123456789abcdef'' ! k)" by (simp add: list_all_iff)
  then show ?thesis by (simp add: hex_digit_def)
qed

lemma EncodeToString_identity: "n \<noteq> [] \<Longrightarrow> checkIdentityValue (EncodeToString n)"
  by (cases n) (auto simp: checkIdentityValue_def EncodeToString_def hex_digit_identity list_all_iff)

lemma noValue_identity: "checkIdentityValue noValue"
  by code_simp

lemma child_link_wf:
  assumes "list_all checkIdentityValue [driver, child, profile, dig, au_RecordDigest a]" "n \<noteq> []" "wf_utc (g_Expires (au_Effective a))"
  shows "wf_grant (child_link a driver child profile dig n)"
  using assms EncodeToString_identity[of n] noValue_identity by (simp add: wf_grant_def child_link_def)

lemma verified_short: "verified D rc = Inr g \<Longrightarrow> length (rec_Text rc) \<le> maxTextBytes"
  by (auto simp: verified_def ParseCanonicalText_def split: option.splits sum.splits if_splits)

lemma Walk_parse: "Walk D now rc resolve v opts = Inr g \<Longrightarrow> ParseCanonicalText (rec_Text rc) = Inr g"
  by (rule Walk_root(1))

lemma BindNew_keeps_records: "BindNew D k d s = Inr s' \<Longrightarrow> Get D s' = Get D s"
  by (rule Get_cong) (rule index_ops_keep_records(2))

lemma BindNew_Current:
  assumes "BindNew D k d s = Inr s'" "Get D s d = Some rc"
  shows "Current D s' k = Some rc"
proof -
  from assms(1) obtain n where path: "bindingPath D s k d = Inr n" and s': "s' = write_index n d s"
    by (auto simp: BindNew_def split: sum.splits if_splits)
  from path obtain g where g: "granteeFilename k = Some n" "ParseCanonicalText (rec_Text rc) = Inr g" "g_Grantee g = k"
    using assms(2) by (elim bindingPath_facts) simp
  have "Get D s' d = Some rc" using BindNew_keeps_records[OF assms(1)] assms(2) by simp
  moreover have "gs_index s' n = Some d" by (simp add: s' write_index_def)
  ultimately show ?thesis using g TrimSpace_digest[OF Get_facts(2)[OF assms(2)]] by (simp add: Current_def)
qed

text \<open>
  A link gives its child exactly the profile it was issued for: after an authorised spawner has
  issued a link, the principal that maps to the child's session is authorised for that profile at
  that digest, as the holder of a grant of this one profile, from this spawner, with the spawner's
  expiry, below the spawner's own record, that it may not pass on.
\<close>

theorem child_link_authorizes_child:
  assumes "Authorize c s driver session profile dig = Inr a"
    and "IssueChildLink c a driver child profile dig (Some n) s = (Inr (Some rc), s')" "n \<noteq> []"
    and "list_all checkIdentityValue [driver, child, profile, dig]" "wf_utc (g_Expires (au_Effective a))"
    and "ck_SessionOfPrincipal c = Some f" "f p = Some child" "p \<noteq> []"
  shows "Authorize c s' p child profile dig =
    Inr \<lparr>au_RecordDigest = rec_Digest rc, au_Effective = child_link a driver child profile dig n, au_MayPassOn = False,
         au_keys = au_keys a\<rparr>"
proof -
  let ?D = "ck_DigestOf c" and ?link = "child_link a driver child profile dig n"
  from assms(2) obtain s1 g where issue: "is_link c a driver child profile dig n rc" "Put ?D rc s = Inr s1"
    "BindNew ?D child (rec_Digest rc) s1 = Inr s'" "Walk ?D (ck_Now c) rc (Get ?D s') (verifier c (au_keys a)) (walkOptions c) = Inr g"
    by (elim Issue_facts) blast
  from assms(1) obtain rc0 where auth: "ck_Confinement c = None" "ck_RootKeys c = Some (au_keys a)"
    "currentRecord c s session driver = Some rc0" "au_RecordDigest a = rec_Digest rc0" by (elim Authorize_facts) blast
  from currentRecord_facts[OF auth(3)] obtain who where "Current ?D s who = Some rc0" by blast
  then obtain d where "Get ?D s d = Some rc0" by (elim Current_facts) blast
  then have prev: "checkIdentityValue (au_RecordDigest a)"
    using Get_facts(1,2) digest_name_identity auth(4) by simp
  have got: "Get ?D s1 (rec_Digest rc) = Some rc" by (rule grants.put_get[OF issue(2)])
  then obtain g' where "verified ?D rc = Inr g'" by (auto simp: Get_def split: if_splits option.splits sum.splits)
  from verified_short[OF this] issue(1) have "length (CanonicalText ?link) \<le> maxTextBytes" by simp
  with child_link_wf[of driver child profile dig a n] assms(3-5) prev
  have "ParseCanonicalText (rec_Text rc) = Inr ?link" using issue(1) ParseCanonicalText_CanonicalText[of ?link] by simp
  with Walk_parse[OF issue(4)] have g: "g = ?link" by simp
  have "currentRecord c s' child p = Some rc"
    using BindNew_Current[OF issue(3) got] assms(4,6-8) by (simp add: currentRecord_def checkIdentityValue_def)
  then show ?thesis
    using auth(1,2) issue(4) assms(8) by (simp add: Authorize_def g Holds_def profile_digest_def child_link_def)
qed

lemma put_unsigned:
  assumes "Put D rc s = Inr s1" "\<not> cardSigned rc"
  shows "Get D s d = Get D s1 d \<or> d = rec_Digest rc \<and> Get D s d = None \<and> Get D s1 d = Some rc"
proof (cases "d = rec_Digest rc")
  case True
  from assms(1) show ?thesis
  proof (cases rule: Put_cases)
    case (link g)
    then show ?thesis using True assms grants.put_get[OF assms(1)] by (auto split: option.splits)
  qed simp
next
  case False
  with grants.put_frame[OF assms(1)] show ?thesis by simp
qed

text \<open>Grantees whose index file is untouched read what they read.\<close>

lemma Current_frame:
  assumes "Put D rc s = Inr s1" "\<not> cardSigned rc" "ParseCanonicalText (rec_Text rc) = Inr g" "g_Grantee g \<noteq> k"
    and "gs_records t = gs_records s1" "\<And>n. granteeFilename k = Some n \<Longrightarrow> gs_index t n = gs_index s n"
  shows "Current D t k = Current D s k"
proof (cases "granteeFilename k")
  case None
  then show ?thesis by (simp add: Current_def)
next
  case (Some n)
  show ?thesis
  proof (cases "gs_index s n")
    case None
    then show ?thesis using Some assms(6) by (simp add: Current_def)
  next
    case (Some d)
    with put_unsigned[OF assms(1,2), of "TrimSpace d"] \<open>granteeFilename k = Some n\<close> assms(3,4,6) Get_cong[OF assms(5), of D]
    show ?thesis by (auto simp: Current_def)
  qed
qed

lemma Unbind_undoes_BindNew:
  assumes "BindNew D k d s1 = Inr s2"
  shows "\<exists>s3. Unbind k s2 = Inr s3 \<and> gs_index s3 = gs_index s1 \<and> gs_records s3 = gs_records s1"
  using assms by (auto simp: BindNew_def Unbind_def write_index_def fun_eq_iff split: sum.splits if_splits elim!: bindingPath_facts)

text \<open>
  Issuing a link touches nobody else, and a failure leaves nothing bound: whatever the outcome,
  every grantee but the child reads the current record it had, and when the issue fails, the link's
  own verification included, the index is the index before.
\<close>

theorem issuing_touches_child_only:
  assumes "IssueChildLink c a driver child profile dig (Some n) s = (res, s')" "k \<noteq> child" "n \<noteq> []"
    and "list_all checkIdentityValue [driver, child, profile, dig, au_RecordDigest a]" "wf_utc (g_Expires (au_Effective a))"
  shows "Current (ck_DigestOf c) s' k = Current (ck_DigestOf c) s k \<and> (isl res \<longrightarrow> gs_index s' = gs_index s)"
proof (cases "s' = s")
  case False
  let ?D = "ck_DigestOf c" and ?link = "child_link a driver child profile dig n"
  let ?t = "CanonicalText ?link"
  from assms(1) False obtain d where d: "?D ?t = Some d"
    by (auto simp: IssueChildLink_def Let_def split: if_splits option.splits)
  define rc where "rc = \<lparr>rec_Digest = d, rec_Text = ?t, rec_Sig = [], rec_Root = False\<rparr>"
  from assms(1) False d obtain s1 where put: "Put ?D rc s = Inr s1"
    by (auto simp: IssueChildLink_def Let_def rc_def split: if_splits option.splits sum.splits)
  have rest: "s' = s1 \<or> (\<exists>s2. BindNew ?D child d s1 = Inr s2 \<and>
      ((\<exists>r. res = Inr r) \<and> s' = s2 \<or> s' = (case Unbind child s2 of Inl _ \<Rightarrow> s2 | Inr s3 \<Rightarrow> s3)))"
    using assms(1) False d put
    by (auto simp: IssueChildLink_def Let_def rc_def split: if_splits option.splits sum.splits)
  have "verified ?D rc \<noteq> Inl e" for e using put by (auto simp: Put_def split: if_splits)
  then obtain g where g: "verified ?D rc = Inr g" by (cases "verified ?D rc") auto
  have parse: "ParseCanonicalText (rec_Text rc) = Inr ?link"
    using child_link_wf[OF assms(4,3,5)] verified_short[OF g] ParseCanonicalText_CanonicalText[of ?link] by (simp add: rc_def)
  have frame: "Current ?D t k = Current ?D s k"
    if "gs_records t = gs_records s1" "\<And>m. granteeFilename k = Some m \<Longrightarrow> gs_index t m = gs_index s m" for t
    using that assms(2) by (intro Current_frame[OF put _ parse]) (auto simp: cardSigned_def rc_def child_link_def)
  note idx = put_keeps_index(1)[OF put]
  from rest consider (stored) "s' = s1" | (bound) s2 where "BindNew ?D child d s1 = Inr s2" "s' = s2" "\<not> isl res"
    | (undone) s2 where "BindNew ?D child d s1 = Inr s2" "s' = (case Unbind child s2 of Inl _ \<Rightarrow> s2 | Inr s3 \<Rightarrow> s3)"
    by auto
  then show ?thesis
  proof cases
    case stored
    with frame[of s1] idx show ?thesis by simp
  next
    case bound
    from BindNew_index[OF bound(1)] obtain m where m: "granteeFilename child = Some m" "gs_index s2 = (gs_index s1)(m \<mapsto> d)" by blast
    have "m' \<noteq> m" if "granteeFilename k = Some m'" for m' using granteeFilename_inj[OF that] m(1) assms(2) by auto
    with frame[of s2] m(2) idx index_ops_keep_records(2)[OF bound(1)] bound show ?thesis by simp
  next
    case undone
    from Unbind_undoes_BindNew[OF undone(1)] frame[of s'] undone(2) idx show ?thesis by auto
  qed
qed simp

section \<open>An issued link\<close>

definition sample_link :: Grant where
  "sample_link = child_link sample_authorization ''driver'' ''worker'' ''test'' ''d2'' ''Z''"

definition sample_link_record :: Record where
  "sample_link_record = \<lparr>rec_Digest = ''child'', rec_Text = CanonicalText sample_link, rec_Sig = [], rec_Root = False\<rparr>"

definition sample_bound_store :: GrantStore where
  "sample_bound_store = write_index ''worker'' ''child'' (link_record sample_link_record sample_store)"

lemma sample_link_unfold:
  "sample_link = \<lparr>g_Grantor = ''driver'', g_Grantee = ''worker'', g_Session = ''worker'', g_Profiles = [(''test'', ''d2'')],
     g_Onward = OnwardNone, g_Expires = UTC 7 1 2 3 4 5 0, g_Nonce = ''5a'', g_Widens = noValue, g_Prev = ''root''\<rparr>"
  by code_simp

lemma sample_link_fields: "g_Grantee sample_link = ''worker''" "g_Prev sample_link = ''root''" "g_Widens sample_link = noValue"
  by (simp_all add: sample_link_unfold)

lemma sample_link_parse: "ParseCanonicalText (CanonicalText sample_link) = Inr sample_link"
proof -
  have "wf_grant sample_link" by code_simp
  moreover have "FormatUTC (g_Expires sample_link) = ''0007-01-02T03:04:05Z''" "profileNames sample_link = [''test'']" by code_simp+
  then have "length (CanonicalText sample_link) \<le> maxTextBytes"
    unfolding CanonicalText_def Rights_def
    by (simp add: sample_link_unfold text_line_def maxTextBytes_def profile_digest_def)
  ultimately show ?thesis by (intro ParseCanonicalText_CanonicalText) simp
qed

lemma sample_link_other: "CanonicalText sample_link \<noteq> CanonicalText sample_root"
  using sample_link_parse sample_root_parse by (auto simp: sample_link_unfold sample_root_def)

lemma sample_link_verified: "verified sample_digest sample_link_record = Inr sample_link" "checkDigestName ''child''"
  "granteeFilename ''worker'' = Some ''worker''" "TrimSpace ''child'' = ''child''"
proof -
  show "verified sample_digest sample_link_record = Inr sample_link"
    using sample_link_other by (simp add: verified_def sample_link_record_def sample_digest_def sample_link_parse)
qed code_simp+

lemma sample_put: "Put sample_digest sample_link_record sample_store = Inr (link_record sample_link_record sample_store)"
  using sample_link_verified(1,2)
  by (simp add: Put_def) (simp add: sample_link_record_def sample_store_def store_subdirs_def)

lemma sample_link_get:
  "gs_records s ''child'' = Some (Some sample_link_record) \<Longrightarrow> Get sample_digest s ''child'' = Some sample_link_record"
  using sample_link_verified(1,2) by (simp add: Get_def read_record_def store_subdirs_def) (simp add: sample_link_record_def)

lemma sample_bind: "BindNew sample_digest ''worker'' ''child'' (link_record sample_link_record sample_store) = Inr sample_bound_store"
proof -
  let ?s = "link_record sample_link_record sample_store"
  have "Get sample_digest ?s ''child'' = Some sample_link_record"
    by (rule sample_link_get) (simp add: link_record_def, simp add: sample_link_record_def)
  then have "bindingPath sample_digest ?s ''worker'' ''child'' = Inr ''worker''"
    using sample_link_parse sample_link_fields(1)
    by (simp add: bindingPath_def sample_link_verified(3)) (simp add: sample_link_record_def)
  then show ?thesis by (simp add: BindNew_def sample_bound_store_def) (simp add: link_record_def sample_store_def)
qed

lemma sample_link_walk:
  "Walk sample_digest (UTC 7 1 1 0 0 0 0) sample_link_record (Get sample_digest sample_bound_store) sample_verifier
     (walkOptions sample_checker) = Inr sample_link"
proof -
  let ?resolve = "Get sample_digest sample_bound_store" and ?now = "UTC 7 1 1 0 0 0 0"
  have "?resolve ''root'' = Some root_record"
    by (rule sample_get) (simp add: sample_bound_store_def link_record_def write_index_def sample_store_def sample_link_record_def)
  moreover have "Narrows sample_root ''root'' sample_link (walkOptions sample_checker) = None" by code_simp
  moreover have "?now < g_Expires sample_link" by code_simp
  moreover have "rec_Digest root_record = ''root''" "rec_Root root_record" by (simp_all add: root_record_def)
  moreover have "rec_Digest sample_link_record = ''child''" "rec_Text sample_link_record = CanonicalText sample_link"
    "\<not> rec_Root sample_link_record" "rec_Sig sample_link_record = []" by (simp_all add: sample_link_record_def)
  moreover have "sound_record sample_digest ?now ?resolve sample_verifier (root_record, sample_root)"
    using sample_root_record by (simp add: sound_record_def checkWidens_def sample_root_def)
  ultimately show ?thesis
    unfolding Walk_chain
    by (intro exI[of _ "[(root_record, sample_root)]"])
       (simp add: sound_chain_Cons sound_record_def sound_edge_def verifyRecord_def checkWidens_def sample_link_fields
          sample_digest_def sample_link_other sample_link_parse sample_verifier_def LocalLinkVerifier_def maxChainDepth_def)
qed

lemma sample_issue:
  "IssueChildLink sample_checker sample_authorization ''driver'' ''worker'' ''test'' ''d2'' (Some ''Z'') sample_store =
     (Inr (Some sample_link_record), sample_bound_store)"
proof -
  have c: "ck_DigestOf sample_checker = sample_digest" "ck_Now sample_checker = UTC 7 1 1 0 0 0 0"
    "verifier sample_checker () = sample_verifier"
    by (simp_all add: verifier_def sample_checker_def sample_verifier_def)
  have "Current sample_digest sample_store ''worker'' = None"
    using sample_link_verified(3) by (simp add: Current_def sample_store_def)
  moreover have "sample_digest (CanonicalText sample_link) = Some ''child''" using sample_link_other by (simp add: sample_digest_def)
  moreover have "au_MayPassOn sample_authorization" "au_keys sample_authorization = ()" by (simp_all add: sample_authorization_def)
  ultimately show ?thesis
    using sample_put sample_bind sample_link_walk
    by (simp add: IssueChildLink_def c sample_link_def[symmetric] sample_link_record_def[symmetric])
qed

lemma sample_names: "list_all checkIdentityValue [''driver'', ''worker'', ''test'', ''d2'', au_RecordDigest sample_authorization]"
  "wf_utc (g_Expires (au_Effective sample_authorization))"
  by code_simp+

theorem child_link_authorizes_child_witness:
  "Authorize sample_checker sample_bound_store ''w1'' ''worker'' ''test'' ''d2'' =
     Inr \<lparr>au_RecordDigest = ''child'', au_Effective = sample_link, au_MayPassOn = False, au_keys = ()\<rparr>"
proof -
  let ?f = "\<lambda>p. if p = ''w1'' then Some ''worker'' else None"
  have "ck_SessionOfPrincipal sample_checker = Some ?f" by (simp add: sample_checker_def)
  moreover have "list_all checkIdentityValue [''driver'', ''worker'', ''test'', ''d2'']" using sample_names(1) by simp
  ultimately have "Authorize sample_checker sample_bound_store ''w1'' ''worker'' ''test'' ''d2'' =
      Inr \<lparr>au_RecordDigest = rec_Digest sample_link_record,
           au_Effective = child_link sample_authorization ''driver'' ''worker'' ''test'' ''d2'' ''Z'', au_MayPassOn = False,
           au_keys = au_keys sample_authorization\<rparr>"
    by (intro child_link_authorizes_child[OF sample_authorized sample_issue _ _ sample_names(2), where f = ?f]) auto
  then show ?thesis by (simp add: sample_link_def[symmetric]) (simp add: sample_link_record_def)
qed

theorem issuing_touches_child_only_witness:
  "Current sample_digest sample_bound_store ''driver'' = Some root_record"
proof -
  have "ck_DigestOf sample_checker = sample_digest" by (simp add: sample_checker_def)
  with issuing_touches_child_only[OF sample_issue _ _ sample_names, of "''driver''"] sample_current show ?thesis by simp
qed

end
