(* ===== verification/LockedUpdate.thy ===== *)
theory LockedUpdate
  imports SessionState
begin

text \<open>
  The contract of a locked read-modify-write of a session's record (\<open>session.Update\<close>), which the attestation
  gate, the restart verbs and the close rest on: the change is applied to the record as it is under the lock,
  or nothing happens. What a sequence of such updates leaves is then the changes applied one after the other.
\<close>

text \<open>A change that may refuse, and what a sequence of them makes of a record.\<close>

type_synonym commit = "State \<Rightarrow> unit + State"

definition apply_commit :: "commit \<Rightarrow> State \<Rightarrow> State" where
  "apply_commit c s = (case c s of Inl _ \<Rightarrow> s | Inr s' \<Rightarrow> s')"

definition apply_commits :: "commit list \<Rightarrow> State \<Rightarrow> State" where
  "apply_commits cs s = fold apply_commit cs s"

text \<open>\<open>admits\<close> is what the provider asks of a change: the record must stay the same session's.\<close>

fun commits_admitted :: "(State \<Rightarrow> State \<Rightarrow> bool) \<Rightarrow> commit list \<Rightarrow> State \<Rightarrow> bool" where
  "commits_admitted admits [] s = True"
| "commits_admitted admits (c # cs) s \<longleftrightarrow>
     (case c s of Inl _ \<Rightarrow> True | Inr s' \<Rightarrow> admits s s') \<and> commits_admitted admits cs (apply_commit c s)"

locale locked_update =
  fixes upd :: "commit \<Rightarrow> 'w \<Rightarrow> bool \<times> 'w"
    and holds :: "State \<Rightarrow> 'w \<Rightarrow> bool"
    and admits :: "State \<Rightarrow> State \<Rightarrow> bool"
  assumes applied: "holds s w \<Longrightarrow> c s = Inr s' \<Longrightarrow> admits s s' \<Longrightarrow> fst (upd c w) \<and> holds s' (snd (upd c w))"
    and refused: "holds s w \<Longrightarrow> c s = Inl () \<Longrightarrow> \<not> fst (upd c w) \<and> holds s (snd (upd c w))"
begin

lemma committed:
  assumes "holds s w" "\<And>s'. c s = Inr s' \<Longrightarrow> admits s s'"
  shows "holds (apply_commit c s) (snd (upd c w)) \<and> (fst (upd c w) \<longleftrightarrow> (\<exists>s'. c s = Inr s'))"
proof (cases "c s")
  case (Inl u)
  then show ?thesis using refused[OF assms(1), of c] by (simp add: apply_commit_def)
next
  case (Inr s')
  then show ?thesis using applied[of s w c s', OF assms(1) Inr assms(2)[OF Inr]] by (simp add: apply_commit_def)
qed

lemma all_committed:
  "holds s w \<Longrightarrow> commits_admitted admits cs s \<Longrightarrow> holds (apply_commits cs s) (fold (\<lambda>c w. snd (upd c w)) cs w)"
proof (induction cs arbitrary: s w)
  case (Cons c cs)
  then have "holds (apply_commit c s) (snd (upd c w))" using committed[of s w c] by (auto split: sum.splits)
  with Cons show ?case by (simp add: apply_commits_def)
qed (simp add: apply_commits_def)

text \<open>A property of the record that every change keeps is kept by the sequence.\<close>

lemma commits_keep:
  assumes "holds s w" "commits_admitted admits cs s" "P s" "\<And>c s. c \<in> set cs \<Longrightarrow> P s \<Longrightarrow> P (apply_commit c s)"
  shows "\<exists>s'. holds s' (fold (\<lambda>c w. snd (upd c w)) cs w) \<and> P s'"
proof -
  have "P (apply_commits cs s)"
    using assms(3,4) by (induction cs arbitrary: s) (auto simp: apply_commits_def)
  with all_committed[OF assms(1,2)] show ?thesis by blast
qed

end

end
