(* ===== verification/Attestation.thy ===== *)
theory Attestation
  imports LockedUpdate GoStrconv
begin

text \<open>
  The attestation gate (\<open>src/internal/bravo/attestation/attestation.go\<close>): one buffered attestation
  per session, recorded by the agent, claimed by one merge or check attempt at a time, consumed by
  the attempt that lands and released by any other. The stored session state and the liveness of
  processes are parameters; an update is the locked read-modify-write of \<open>session.Update\<close>.
\<close>

section \<open>Slots\<close>

datatype slot_state = SlotUnreadable | SlotAbsent | SlotHeld State

record Slot =
  sl_state :: slot_state
  sl_writable :: bool

text \<open>A closed session reads as missing; an implicit session is bound to the id it was found with.\<close>

definition WorktreeSlot :: "slot_state \<Rightarrow> slot_state" where
  "WorktreeSlot r = (case r of SlotHeld st \<Rightarrow> if s_isTombstone st then SlotAbsent else SlotHeld st | _ \<Rightarrow> r)"

definition ImplicitSlot :: "string \<Rightarrow> (State option \<times> string) option \<Rightarrow> slot_state" where
  "ImplicitSlot randID found =
     (case found of
        None \<Rightarrow> SlotUnreadable
      | Some (st, live) \<Rightarrow> if st = None \<or> live \<noteq> randID then SlotAbsent else SlotHeld (the st))"

datatype 'e update_result = NotCalled bool | FnFailed 'e | WriteFailed | Updated

text \<open>\<open>NotCalled True\<close> is \<open>os.ErrNotExist\<close>.\<close>

definition slot_update :: "(State \<Rightarrow> 'e + State) \<Rightarrow> Slot \<Rightarrow> 'e update_result \<times> Slot" where
  "slot_update fn sl =
     (case sl_state sl of
        SlotAbsent \<Rightarrow> (NotCalled True, sl)
      | SlotUnreadable \<Rightarrow> (NotCalled False, sl)
      | SlotHeld st \<Rightarrow>
          (case fn st of
             Inl e \<Rightarrow> (FnFailed e, sl)
           | Inr st' \<Rightarrow> if sl_writable sl then (Updated, sl\<lparr>sl_state := SlotHeld st'\<rparr>) else (WriteFailed, sl)))"

text \<open>A held, writable slot keeps the contract of a locked update.\<close>

interpretation slot: locked_update
  "\<lambda>c sl. case slot_update c sl of (r, sl') \<Rightarrow> (r = Updated, sl')"
  "\<lambda>s sl. sl_state sl = SlotHeld s \<and> sl_writable sl" "\<lambda>_ _. True"
  by unfold_locales (auto simp: slot_update_def split: sum.splits)

section \<open>Validation\<close>

record ValidationError =
  ve_Missing :: "string list"
  ve_Unrecognised :: "string list"
  ve_EmptyReasoning :: "string list"

definition ValidationError_Empty :: "ValidationError \<Rightarrow> bool" where
  "ValidationError_Empty v \<longleftrightarrow> length (ve_Missing v) = 0 \<and> length (ve_Unrecognised v) = 0 \<and> length (ve_EmptyReasoning v) = 0"

fun validate_scan ::
  "string set \<Rightarrow> AttestedSkill list \<Rightarrow> string set \<Rightarrow> string list \<Rightarrow> string list \<Rightarrow> string list \<times> string list \<times> string set" where
  "validate_scan required [] seen unrec empt = (unrec, empt, seen)"
| "validate_scan required (a # as) seen unrec empt =
     (if ak_Name a \<in> seen then validate_scan required as seen (unrec @ [ak_Name a @ '' (duplicate)'']) empt
      else
        let seen = insert (ak_Name a) seen in
        if ak_Name a \<notin> required then validate_scan required as seen (unrec @ [ak_Name a]) empt
        else if TrimSpace (ak_Reasoning a) = [] then validate_scan required as seen unrec (empt @ [ak_Name a])
        else validate_scan required as seen unrec empt)"

definition Validate :: "PreMergeSkill list \<Rightarrow> AttestedSkill list \<Rightarrow> ValidationError" where
  "Validate required input =
     (let (unrec, empt, seen) = validate_scan (set (map ps_Name required)) input {} [] []
      in \<lparr>ve_Missing = filter (\<lambda>n. n \<notin> seen) (map ps_Name required), ve_Unrecognised = unrec, ve_EmptyReasoning = empt\<rparr>)"

section \<open>Recording, claiming and settling\<close>

definition Record_attestation ::
  "AttestedSkill list \<Rightarrow> string \<Rightarrow> Time \<Rightarrow> Slot \<Rightarrow> unit update_result \<times> Slot" where
  "Record_attestation skills headSha now =
     slot_update (\<lambda>st. Inr (st\<lparr>s_PreMergeAttestation :=
       Some \<lparr>pa_RecordedAt = now, pa_Skills = skills, pa_HeadSha = headSha, pa_Claim = None\<rparr>\<rparr>))"

datatype refusal = LoadFailure | NoneBuffered | HeldByLive Time int

definition evaluate :: "Machine \<Rightarrow> State \<Rightarrow> refusal option" where
  "evaluate m st =
     (case s_PreMergeAttestation st of
        None \<Rightarrow> Some NoneBuffered
      | Some a \<Rightarrow>
          (case pa_Claim a of
             None \<Rightarrow> None
           | Some c \<Rightarrow> if IsAlive m (ac_PID c) then Some (HeldByLive (ac_ClaimedAt c) (ac_PID c)) else None))"

definition Peek :: "Machine \<Rightarrow> Sweatfile \<Rightarrow> Slot \<Rightarrow> refusal option" where
  "Peek m merged sl =
     (if ActivePreMergeSkills merged = [] then None
      else case sl_state sl of SlotHeld st \<Rightarrow> evaluate m st | _ \<Rightarrow> Some LoadFailure)"

record Ticket =
  tk_HeadSha :: string
  tk_ClaimID :: string
  tk_Claimed :: "PreMergeAttestation option"

definition zero_ticket :: Ticket where
  "zero_ticket = \<lparr>tk_HeadSha = [], tk_ClaimID = [], tk_Claimed = None\<rparr>"

definition claim_id :: "int \<Rightarrow> Time \<Rightarrow> string" where
  "claim_id pid now = Itoa pid @ ''-'' @ Itoa now"

datatype claim_result = Claimed Ticket | ClaimRefused refusal | ClaimFailed

definition claim_attestation :: "int \<Rightarrow> Time \<Rightarrow> PreMergeAttestation \<Rightarrow> PreMergeAttestation" where
  "claim_attestation pid now a = a\<lparr>pa_Claim := Some \<lparr>ac_ID = claim_id pid now, ac_PID = pid, ac_ClaimedAt = now\<rparr>\<rparr>"

definition claim_ticket :: "int \<Rightarrow> Time \<Rightarrow> PreMergeAttestation \<Rightarrow> Ticket" where
  "claim_ticket pid now a =
     \<lparr>tk_HeadSha = pa_HeadSha a, tk_ClaimID = claim_id pid now, tk_Claimed = Some (a\<lparr>pa_Claim := None\<rparr>)\<rparr>"

definition Claim :: "Machine \<Rightarrow> int \<Rightarrow> Time \<Rightarrow> Sweatfile \<Rightarrow> Slot \<Rightarrow> claim_result \<times> Slot" where
  "Claim m pid now merged sl =
     (if ActivePreMergeSkills merged = [] then (Claimed zero_ticket, sl)
      else
        case slot_update
               (\<lambda>st. case evaluate m st of
                  Some r \<Rightarrow> Inl r
                | None \<Rightarrow> Inr (st\<lparr>s_PreMergeAttestation := map_option (claim_attestation pid now) (s_PreMergeAttestation st)\<rparr>)) sl of
          (Updated, sl') \<Rightarrow>
            (case sl_state sl of
               SlotHeld st \<Rightarrow> (Claimed (claim_ticket pid now (the (s_PreMergeAttestation st))), sl')
             | _ \<Rightarrow> (ClaimFailed, sl'))
        | (NotCalled _, sl') \<Rightarrow> (ClaimRefused LoadFailure, sl')
        | (FnFailed r, sl') \<Rightarrow> (ClaimRefused r, sl')
        | (WriteFailed, sl') \<Rightarrow> (ClaimFailed, sl'))"

text \<open>\<open>True\<close> when the store failed.\<close>

definition Settle :: "Ticket \<Rightarrow> bool \<Rightarrow> Slot \<Rightarrow> bool \<times> Slot" where
  "Settle t landed sl =
     (if tk_ClaimID t = [] then (False, sl)
      else
        case slot_update
               (\<lambda>st. case s_PreMergeAttestation st of
                  None \<Rightarrow> Inl ()
                | Some a \<Rightarrow>
                    (case pa_Claim a of
                       None \<Rightarrow> Inl ()
                     | Some c \<Rightarrow>
                         if ac_ID c \<noteq> tk_ClaimID t then Inl ()
                         else Inr (st\<lparr>s_PreMergeAttestation := (if landed then None else Some (a\<lparr>pa_Claim := None\<rparr>))\<rparr>))) sl of
          (NotCalled absent, sl') \<Rightarrow> (\<not> absent, sl')
        | (WriteFailed, sl') \<Rightarrow> (True, sl')
        | (_, sl') \<Rightarrow> (False, sl'))"

section \<open>Validation is exact\<close>

lemma validate_scan_spec:
  "validate_scan required as seen unrec empt = (unrec', empt', seen') \<Longrightarrow>
   seen' = seen \<union> ak_Name ` set as \<and>
   (unrec' = [] \<longleftrightarrow> unrec = [] \<and> distinct (map ak_Name as) \<and> ak_Name ` set as \<inter> seen = {} \<and> ak_Name ` set as \<subseteq> required) \<and>
   (unrec' = [] \<longrightarrow> (empt' = [] \<longleftrightarrow> empt = [] \<and> (\<forall>a \<in> set as. TrimSpace (ak_Reasoning a) \<noteq> [])))"
proof (induction required as seen unrec empt rule: validate_scan.induct)
  case (2 required a as seen unrec empt)
  show ?case
  proof (cases "ak_Name a \<in> seen")
    case True
    with 2(1)[OF True] 2(5) show ?thesis by auto
  next
    case False
    note rec = 2(2-4)[OF False refl] and run = 2(5)
    show ?thesis
    proof (cases "ak_Name a \<in> required")
      case nr: False
      with rec(1)[OF nr] run False show ?thesis by (auto simp: Let_def)
    next
      case r: True
      show ?thesis
      proof (cases "TrimSpace (ak_Reasoning a) = []")
        case True
        with rec(2) r run False show ?thesis by (auto simp: Let_def)
      next
        case ne: False
        with rec(3) r run False show ?thesis by (auto simp: Let_def)
      qed
    qed
  qed
qed auto

text \<open>
  An attestation is accepted exactly when it answers the required skills one for one: no name
  twice, every required name and no other, each with a reasoning that is not blank.
\<close>

theorem Validate_accepts:
  "ValidationError_Empty (Validate required input) =
   (distinct (map ak_Name input) \<and> ak_Name ` set input = ps_Name ` set required \<and>
    list_all (\<lambda>a. TrimSpace (ak_Reasoning a) \<noteq> []) input)"
proof -
  obtain unrec empt seen where run: "validate_scan (ps_Name ` set required) input {} [] [] = (unrec, empt, seen)"
    by (cases "validate_scan (ps_Name ` set required) input {} [] []") auto
  from validate_scan_spec[OF run] have s: "seen = ak_Name ` set input"
    "unrec = [] \<longleftrightarrow> distinct (map ak_Name input) \<and> ak_Name ` set input \<subseteq> ps_Name ` set required"
    "unrec = [] \<longrightarrow> (empt = [] \<longleftrightarrow> (\<forall>a \<in> set input. TrimSpace (ak_Reasoning a) \<noteq> []))" by auto
  define missing where "missing = filter (\<lambda>n. n \<notin> seen) (map ps_Name required)"
  have miss: "missing = [] \<longleftrightarrow> ps_Name ` set required \<subseteq> ak_Name ` set input"
    unfolding missing_def s(1) by (auto simp: filter_empty_conv)
  have "Validate required input = \<lparr>ve_Missing = missing, ve_Unrecognised = unrec, ve_EmptyReasoning = empt\<rparr>"
    by (simp add: Validate_def run missing_def)
  with s(2,3) miss show ?thesis
    by (auto simp: ValidationError_Empty_def list_all_iff)
qed

section \<open>Claim ids\<close>

lemma claim_id_nonempty: "claim_id pid t \<noteq> []"
  by (simp add: claim_id_def)

lemma split_at_dash:
  assumes "CHR ''-'' \<notin> set a" "CHR ''-'' \<notin> set b" "a @ CHR ''-'' # x = b @ CHR ''-'' # y"
  shows "x = y"
  using assms
proof (induction a arbitrary: b)
  case Nil
  then show ?case by (cases b) auto
next
  case (Cons c cs)
  then show ?case by (cases b) auto
qed

lemma claim_id_time:
  assumes "claim_id pid t = claim_id pid' t'" "0 < pid" "0 < pid'" "0 \<le> t" "0 \<le> t'"
  shows "t = t'"
proof -
  from assms have "pad_digits 1 (nat pid) @ CHR ''-'' # pad_digits 1 (nat t) = pad_digits 1 (nat pid') @ CHR ''-'' # pad_digits 1 (nat t')"
    unfolding claim_id_def Itoa_def by simp
  from split_at_dash[OF pad_digits_no_dash pad_digits_no_dash this] have "nat t = nat t'" by (rule pad_digits_inj)
  with assms(4,5) show ?thesis by simp
qed

section \<open>The protocol\<close>

text \<open>An event happens at a time, on a machine whose live processes it sees, under the loaded sweatfile.\<close>

datatype att_event = EvRecord "AttestedSkill list" string | EvClaim int | EvSettle Ticket bool

record att_moment =
  am_machine :: Machine
  am_time :: Time
  am_merged :: Sweatfile
  am_event :: att_event

definition att_step :: "att_moment \<Rightarrow> Slot \<Rightarrow> Slot" where
  "att_step e sl =
     (case am_event e of
        EvRecord skills headSha \<Rightarrow> snd (Record_attestation skills headSha (am_time e) sl)
      | EvClaim pid \<Rightarrow> snd (Claim (am_machine e) pid (am_time e) (am_merged e) sl)
      | EvSettle t landed \<Rightarrow> snd (Settle t landed sl))"

definition att_run :: "att_moment list \<Rightarrow> Slot \<Rightarrow> Slot" where
  "att_run es sl = fold att_step es sl"

lemma att_run_simps [simp]: "att_run [] sl = sl" "att_run (e # es) sl = att_run es (att_step e sl)"
  "att_run (es @ fs) sl = att_run fs (att_run es sl)"
  by (simp_all add: att_run_def)

definition attested :: "Slot \<Rightarrow> PreMergeAttestation option" where
  "attested sl = (case sl_state sl of SlotHeld st \<Rightarrow> s_PreMergeAttestation st | _ \<Rightarrow> None)"

text \<open>The effect of each operation on the buffered attestation.\<close>

lemma Record_attested:
  "attested (snd (Record_attestation skills head now sl)) =
   (case fst (Record_attestation skills head now sl) of
      Updated \<Rightarrow> Some \<lparr>pa_RecordedAt = now, pa_Skills = skills, pa_HeadSha = head, pa_Claim = None\<rparr> | _ \<Rightarrow> attested sl)"
  by (simp add: Record_attestation_def slot_update_def attested_def split: slot_state.split)

lemma Claim_attested:
  "attested (snd (Claim m pid now merged sl)) = attested sl \<or>
   (\<exists>a. attested sl = Some a \<and> attested (snd (Claim m pid now merged sl)) = Some (claim_attestation pid now a) \<and>
      (case pa_Claim a of None \<Rightarrow> True | Some c \<Rightarrow> \<not> IsAlive m (ac_PID c)))"
  by (auto simp: Claim_def slot_update_def attested_def evaluate_def split: slot_state.split option.splits)

lemma Claim_claimed:
  assumes "Claim m pid now merged sl = (Claimed tk, sl')" "ActivePreMergeSkills merged \<noteq> []"
  obtains st a where "sl_state sl = SlotHeld st" "sl_writable sl" "s_PreMergeAttestation st = Some a" "tk = claim_ticket pid now a"
    "sl' = sl\<lparr>sl_state := SlotHeld (st\<lparr>s_PreMergeAttestation := Some (claim_attestation pid now a)\<rparr>)\<rparr>" "evaluate m st = None"
  using assms
  by (auto simp: Claim_def slot_update_def split: slot_state.splits option.splits if_splits)
     (auto simp: evaluate_def split: option.splits)

lemma Settle_attested:
  "attested (snd (Settle t landed sl)) = attested sl \<or>
   (\<exists>a c. attested sl = Some a \<and> pa_Claim a = Some c \<and> ac_ID c = tk_ClaimID t \<and>
      attested (snd (Settle t landed sl)) = (if landed then None else Some (a\<lparr>pa_Claim := None\<rparr>)))"
  by (auto simp: Settle_def slot_update_def attested_def split: slot_state.split option.splits)

lemma Settle_other:
  assumes "\<And>a c. attested sl = Some a \<Longrightarrow> pa_Claim a = Some c \<Longrightarrow> ac_ID c \<noteq> tk_ClaimID t"
  shows "snd (Settle t landed sl) = sl"
proof (cases "sl_state sl")
  case (SlotHeld st)
  then have "attested sl = s_PreMergeAttestation st" by (simp add: attested_def)
  with assms SlotHeld show ?thesis
    by (cases "s_PreMergeAttestation st") (auto simp: Settle_def slot_update_def split: option.split)
qed (simp_all add: Settle_def slot_update_def)

text \<open>Every event leaves a live, writable slot live and writable.\<close>

definition live_slot :: "Slot \<Rightarrow> bool" where
  "live_slot sl \<longleftrightarrow> sl_writable sl \<and> (\<exists>st. sl_state sl = SlotHeld st)"

lemma att_step_live: "live_slot sl \<Longrightarrow> live_slot (att_step e sl)"
  by (auto simp: live_slot_def att_step_def Record_attestation_def Claim_def Settle_def slot_update_def
      split: att_event.split option.splits)

lemma att_run_live: "live_slot sl \<Longrightarrow> live_slot (att_run es sl)"
  by (induction es arbitrary: sl) (auto simp: att_step_live)

section \<open>Consumption\<close>

text \<open>A landing consumes the attestation; a recording is a \<open>nothing-but-the-truth\<close> call.\<close>

definition consumes :: "att_moment \<Rightarrow> Slot \<Rightarrow> bool" where
  "consumes e sl \<longleftrightarrow>
     (\<exists>t. am_event e = EvSettle t True) \<and> attested sl \<noteq> None \<and> attested (att_step e sl) = None"

fun consumed :: "att_moment list \<Rightarrow> Slot \<Rightarrow> nat" where
  "consumed [] sl = 0"
| "consumed (e # es) sl = (if consumes e sl then 1 else 0) + consumed es (att_step e sl)"

definition recordings :: "att_moment list \<Rightarrow> nat" where
  "recordings es = length (filter (\<lambda>e. \<exists>skills h. am_event e = EvRecord skills h) es)"

abbreviation buffered :: "Slot \<Rightarrow> nat" where
  "buffered sl \<equiv> (if attested sl = None then 0 else 1)"

lemma step_buffered:
  "(if consumes e sl then 1 else 0) + buffered (att_step e sl) \<le> buffered sl + recordings [e]"
proof (cases "am_event e")
  case (EvRecord skills h)
  then show ?thesis by (simp add: consumes_def recordings_def)
next
  case (EvClaim pid)
  with Claim_attested[of "am_machine e" pid "am_time e" "am_merged e" sl] show ?thesis
    by (auto simp: consumes_def att_step_def)
next
  case (EvSettle t landed)
  with Settle_attested[of t landed sl] show ?thesis by (auto simp: consumes_def att_step_def)
qed


section \<open>Holding\<close>

text \<open>What may happen while a claim is held: anything but a recording and the holder's own settlement.\<close>

definition leaves_claim :: "int \<Rightarrow> Ticket \<Rightarrow> att_moment \<Rightarrow> bool" where
  "leaves_claim pid tk e \<longleftrightarrow>
     IsAlive (am_machine e) pid \<and>
     (case am_event e of EvRecord _ _ \<Rightarrow> False | EvClaim _ \<Rightarrow> True | EvSettle t _ \<Rightarrow> tk_ClaimID t \<noteq> tk_ClaimID tk)"

definition holds_claim :: "int \<Rightarrow> Time \<Rightarrow> Ticket \<Rightarrow> Slot \<Rightarrow> bool" where
  "holds_claim pid now tk sl \<longleftrightarrow>
     (\<exists>st a. sl_state sl = SlotHeld st \<and> s_PreMergeAttestation st = Some a \<and>
        pa_Claim a = Some \<lparr>ac_ID = tk_ClaimID tk, ac_PID = pid, ac_ClaimedAt = now\<rparr>)"

lemma claim_holds:
  assumes "Claim m pid now merged sl = (Claimed tk, sl')" "ActivePreMergeSkills merged \<noteq> []"
  shows "holds_claim pid now tk sl'" "live_slot sl'" "tk_ClaimID tk = claim_id pid now"
proof -
  from assms obtain st a where c: "sl_writable sl" "tk = claim_ticket pid now a"
    "sl' = sl\<lparr>sl_state := SlotHeld (st\<lparr>s_PreMergeAttestation := Some (claim_attestation pid now a)\<rparr>)\<rparr>"
    by (elim Claim_claimed) blast
  show "holds_claim pid now tk sl'" "live_slot sl'" "tk_ClaimID tk = claim_id pid now"
    by (simp_all add: c holds_claim_def live_slot_def claim_ticket_def claim_attestation_def)
qed

lemma held_claim_refuses:
  assumes "holds_claim pid now tk sl" "IsAlive m pid" "ActivePreMergeSkills merged \<noteq> []"
  shows "Claim m pid' now' merged sl = (ClaimRefused (HeldByLive now pid), sl)" "Peek m merged sl = Some (HeldByLive now pid)"
  using assms by (auto simp: holds_claim_def Claim_def Peek_def slot_update_def evaluate_def)

lemma step_holds:
  assumes "holds_claim pid now tk sl" "leaves_claim pid tk e"
  shows "att_step e sl = sl"
proof (cases "am_event e")
  case (EvRecord skills h)
  with assms(2) show ?thesis by (simp add: leaves_claim_def)
next
  case (EvClaim pid')
  show ?thesis
  proof (cases "ActivePreMergeSkills (am_merged e) = []")
    case True
    with EvClaim show ?thesis by (simp add: att_step_def Claim_def)
  next
    case False
    with EvClaim assms held_claim_refuses(1) show ?thesis by (simp add: att_step_def leaves_claim_def)
  qed
next
  case (EvSettle t landed)
  with assms have "snd (Settle t landed sl) = sl"
    by (intro Settle_other) (auto simp: leaves_claim_def holds_claim_def attested_def)
  with EvSettle show ?thesis by (simp add: att_step_def)
qed

lemma run_holds: "holds_claim pid now tk sl \<Longrightarrow> list_all (leaves_claim pid tk) es \<Longrightarrow> att_run es sl = sl"
  by (induction es) (auto simp: step_holds)

text \<open>
  A claim is exclusive while its process lives: after an attempt has claimed the attestation, and
  whatever else happens short of a new recording and its own settlement, nobody can claim it or is
  told it is available, and the attempt's landing consumes it.
\<close>

theorem live_claim_excludes:
  assumes "Claim m0 pid now merged sl = (Claimed tk, sl')" "ActivePreMergeSkills merged \<noteq> []"
    and "list_all (leaves_claim pid tk) es" "IsAlive m pid" "ActivePreMergeSkills merged' \<noteq> []"
  shows "Claim m pid' now' merged' (att_run es sl') = (ClaimRefused (HeldByLive now pid), att_run es sl') \<and>
    Peek m merged' (att_run es sl') = Some (HeldByLive now pid) \<and>
    attested (snd (Settle tk True (att_run es sl'))) = None"
proof -
  note held = claim_holds[OF assms(1,2)]
  have "tk_ClaimID tk \<noteq> []" using held(3) claim_id_nonempty by simp
  with held have "attested (snd (Settle tk True sl')) = None"
    by (auto simp: holds_claim_def live_slot_def Settle_def slot_update_def attested_def)
  with held_claim_refuses[OF held(1) assms(4,5)] run_holds[OF held(1) assms(3)] show ?thesis by simp
qed

section \<open>Superseded claims\<close>

text \<open>After a recording, no claim on the slot is the old one: later claims are later.\<close>

definition later_id :: "Time \<Rightarrow> string \<Rightarrow> bool" where
  "later_id now i \<longleftrightarrow> (\<exists>pid t. i = claim_id pid t \<and> 0 < pid \<and> now < t)"

definition claim_after :: "Time \<Rightarrow> Slot \<Rightarrow> bool" where
  "claim_after now sl \<longleftrightarrow>
     (\<forall>a c. attested sl = Some a \<longrightarrow> pa_Claim a = Some c \<longrightarrow> later_id now (ac_ID c))"

definition later :: "Time \<Rightarrow> att_moment \<Rightarrow> bool" where
  "later now e \<longleftrightarrow> now < am_time e \<and> (case am_event e of EvClaim pid \<Rightarrow> 0 < pid | _ \<Rightarrow> True)"

lemma step_claim_after:
  assumes "claim_after now sl" "later now e"
  shows "claim_after now (att_step e sl)"
proof (cases "am_event e")
  case (EvRecord skills h)
  with assms(1) Record_attested[of skills h "am_time e" sl] show ?thesis
    by (auto simp: claim_after_def att_step_def split: update_result.splits)
next
  case (EvClaim pid)
  with assms(2) have t: "later_id now (claim_id pid (am_time e))"
    by (auto simp: later_def later_id_def)
  from EvClaim assms Claim_attested[of "am_machine e" pid "am_time e" "am_merged e" sl] t show ?thesis
    by (auto simp: claim_after_def att_step_def later_def claim_attestation_def)
next
  case (EvSettle t landed)
  with assms(1) Settle_attested[of t landed sl] show ?thesis
    by (auto simp: claim_after_def att_step_def split: if_splits)
qed

lemma run_claim_after: "claim_after now sl \<Longrightarrow> list_all (later now) es \<Longrightarrow> claim_after now (att_run es sl)"
  by (induction es arbitrary: sl) (auto simp: step_claim_after)

text \<open>
  A superseded settlement touches nothing: once the agent has recorded a new attestation, the
  attempt that held the old one can neither consume nor release the new one, nor anyone's later
  claim on it.
\<close>

theorem superseded_settlement_is_inert:
  assumes "Claim m pid now merged sl = (Claimed tk, sl')" "ActivePreMergeSkills merged \<noteq> []" "0 < pid" "0 \<le> now"
    and "am_event e = EvRecord skills h" "list_all (later now) es"
  shows "snd (Settle tk landed (att_run (ds @ e # es) sl')) = att_run (ds @ e # es) sl'"
proof -
  note held = claim_holds[OF assms(1,2)]
  let ?mid = "att_run ds sl'"
  have "live_slot ?mid" by (rule att_run_live[OF held(2)])
  then have "fst (Record_attestation skills h (am_time e) ?mid) = Updated"
    by (auto simp: live_slot_def Record_attestation_def slot_update_def)
  then have "claim_after now (att_step e ?mid)"
    using Record_attested[of skills h "am_time e" ?mid] by (simp add: claim_after_def att_step_def assms(5))
  then have "claim_after now (att_run es (att_step e ?mid))" using assms(6) by (rule run_claim_after)
  then show ?thesis
    using claim_id_time assms(3,4) held(3) by (intro Settle_other) (fastforce simp: claim_after_def later_id_def)
qed

section \<open>A session with one required skill\<close>

definition busy_machine :: Machine where
  "busy_machine = \<lparr>m_Stat = (\<lambda>_. Missing), m_Lstat = (\<lambda>_. Missing), m_Kill0 = (\<lambda>_. True), m_ConfinedUnitRunning = None\<rparr>"

definition gated_sweatfile :: Sweatfile where
  "gated_sweatfile = empty_Sweatfile\<lparr>sf_PreMergeSkills := [\<lparr>ps_Name = ''review'', ps_Rationale = ''read the diff''\<rparr>]\<rparr>"

definition sample_attestation :: PreMergeAttestation where
  "sample_attestation = \<lparr>pa_RecordedAt = 1, pa_Skills = [], pa_HeadSha = ''abc'', pa_Claim = None\<rparr>"

definition sample_slot :: Slot where
  "sample_slot = \<lparr>sl_state = SlotHeld (empty_State\<lparr>s_PreMergeAttestation := Some sample_attestation\<rparr>), sl_writable = True\<rparr>"

definition claimed_slot :: Slot where "claimed_slot = snd (Claim busy_machine 7 3 gated_sweatfile sample_slot)"

lemma sample_gate: "ActivePreMergeSkills gated_sweatfile \<noteq> []"
  by (simp add: ActivePreMergeSkills_def gated_sweatfile_def)

lemma sample_claim:
  "Claim busy_machine 7 3 gated_sweatfile sample_slot = (Claimed (claim_ticket 7 3 sample_attestation), claimed_slot)"
  using sample_gate
  by (simp add: Claim_def claimed_slot_def slot_update_def evaluate_def sample_slot_def)
     (simp add: sample_attestation_def)

theorem live_claim_excludes_witness:
  "Peek busy_machine gated_sweatfile
     (att_run [\<lparr>am_machine = busy_machine, am_time = 5, am_merged = gated_sweatfile, am_event = EvClaim 8\<rparr>] claimed_slot) =
   Some (HeldByLive 3 7)"
proof -
  have "list_all (leaves_claim 7 (claim_ticket 7 3 sample_attestation))
      [\<lparr>am_machine = busy_machine, am_time = 5, am_merged = gated_sweatfile, am_event = EvClaim 8\<rparr>]"
    by (simp add: leaves_claim_def IsAlive_def busy_machine_def)
  moreover have "IsAlive busy_machine 7" by (simp add: IsAlive_def busy_machine_def)
  ultimately show ?thesis using live_claim_excludes[OF sample_claim sample_gate _ _ sample_gate] by blast
qed

theorem superseded_settlement_is_inert_witness:
  "snd (Settle (claim_ticket 7 3 sample_attestation) True
     (att_run [\<lparr>am_machine = busy_machine, am_time = 5, am_merged = gated_sweatfile, am_event = EvRecord [] ''def''\<rparr>] claimed_slot)) =
   att_run [\<lparr>am_machine = busy_machine, am_time = 5, am_merged = gated_sweatfile, am_event = EvRecord [] ''def''\<rparr>] claimed_slot"
  using superseded_settlement_is_inert[OF sample_claim sample_gate,
      of "\<lparr>am_machine = busy_machine, am_time = 5, am_merged = gated_sweatfile, am_event = EvRecord [] ''def''\<rparr>" "[]" "''def''" "[]" True "[]"]
  by simp

end
