(* ===== verification/FlakeLock.thy ===== *)
theory FlakeLock
  imports GoUnicode GoClock
begin

text \<open>
  The lock policy of a guarded gate (\<open>src/internal/charlie/check/lockpolicy.go\<close>): whether the committed
  \<open>flake.lock\<close> names only remote inputs, and matches every input \<open>flake.nix\<close> declares, so that nix has
  nothing to fetch. The committed tree, the JSON decoding of the lock and the evaluation of the
  declared inputs are parameters.
\<close>

section \<open>The lock and the declared inputs\<close>

text \<open>A decoded JSON object is its entries in the order of their keys, so \<open>reflect.DeepEqual\<close> is equality;
  a number is an integer that numbers the float64 it decodes to.\<close>

datatype attr = ANull | ABool bool | ANum int | AStr string | AArr "attr list" | AObj "(string \<times> attr) list"

type_synonym flake_ref = "(string \<times> attr) list option"

definition ref_attr :: "flake_ref \<Rightarrow> string \<Rightarrow> attr option" where
  "ref_attr r key = (case r of None \<Rightarrow> None | Some kvs \<Rightarrow> map_of kvs key)"

definition ref_string :: "flake_ref \<Rightarrow> string \<Rightarrow> string" where
  "ref_string r key = (case ref_attr r key of Some (AStr s) \<Rightarrow> s | _ \<Rightarrow> [])"

text \<open>An entry of a node's inputs as JSON has it; \<open>null\<close> decodes both as a string and as an array.\<close>

datatype lock_entry = EntryId string | EntryPath "string list" | EntryNull | EntryOther

definition entry_id :: "lock_entry \<Rightarrow> string option" where
  "entry_id e = (case e of EntryId s \<Rightarrow> Some s | EntryNull \<Rightarrow> Some [] | _ \<Rightarrow> None)"

definition entry_follows :: "lock_entry \<Rightarrow> string list option" where
  "entry_follows e = (case e of EntryPath p \<Rightarrow> Some p | EntryNull \<Rightarrow> Some [] | _ \<Rightarrow> None)"

record lockNode =
  ln_Inputs :: "(string \<times> lock_entry) list"
  ln_Flake :: "bool option"
  ln_Locked :: flake_ref
  ln_Original :: flake_ref

record flakeLock =
  fl_Nodes :: "(string \<times> lockNode) list"
  fl_Root :: string

datatype inputSpec =
  InputSpec (is_Original: flake_ref) (is_Flake: bool) (is_Follows: "string option") (is_Inputs: "(string \<times> inputSpec) list")

section \<open>What a refusal may say\<close>

definition safe_rune :: "string \<Rightarrow> char" where
  "safe_rune r =
     (case r of
        [c] \<Rightarrow>
          if CHR ''a'' \<le> c \<and> c \<le> CHR ''z'' \<or> CHR ''0'' \<le> c \<and> c \<le> CHR ''9'' \<or> CHR ''A'' \<le> c \<and> c \<le> CHR ''Z'' \<or>
             c = CHR ''_'' \<or> c = CHR ''-'' then c else CHR ''?''
      | _ \<Rightarrow> CHR ''?'')"

fun safe_scan :: "nat \<Rightarrow> string list \<Rightarrow> string" where
  "safe_scan n [] = []"
| "safe_scan n (r # rs) = (if n \<ge> 64 then ''...'' else safe_rune r # safe_scan (n + 1) rs)"

definition safeName :: "string \<Rightarrow> string" where
  "safeName s = (let b = safe_scan 0 (runes s) in if b = [] then ''?'' else b)"

definition capList :: "string list \<Rightarrow> string list" where
  "capList items =
     (if length items \<le> 20 then items
      else take 20 items @ [''and '' @ pad_digits 1 (length items - 20) @ '' more''])"

definition inputLabel :: "string list \<Rightarrow> string" where
  "inputLabel path = Join (map safeName path) ''/''"

definition refKind :: "flake_ref \<Rightarrow> string" where
  "refKind r = (let typ = ref_string r ''type'' in if typ = [] then ''an untyped reference'' else ''type '' @ safeName typ)"

section \<open>The allow-list\<close>

text \<open>\<open>strings.ToLower\<close> changes the first bytes of a URL to ASCII only where they are ASCII letters.\<close>

definition lower_ascii :: "char \<Rightarrow> char" where
  "lower_ascii c = (if CHR ''A'' \<le> c \<and> c \<le> CHR ''Z'' then char_of (of_char c + (32 :: nat)) else c)"

definition https_url :: "string \<Rightarrow> bool" where
  "https_url url \<longleftrightarrow> HasPrefix (map lower_ascii url) ''https://''"

definition forge_types :: "string list" where "forge_types = [''github'', ''gitlab'', ''sourcehut'']"
definition url_types :: "string list" where "url_types = [''tarball'', ''file'', ''git'']"

definition refusedRef :: "flake_ref \<Rightarrow> bool \<Rightarrow> string" where
  "refusedRef r declared =
     (let typ = ref_string r ''type''; kind = ''type '' @ safeName typ in
      if ref_attr r ''path'' \<noteq> None then kind @ '' with a path attribute''
      else if typ \<in> set forge_types then
        (if ref_attr r ''host'' \<noteq> None then kind @ '' with a host attribute'' else [])
      else if typ \<in> set url_types then
        (if \<not> https_url (ref_string r ''url'') then kind @ '' without an https url'' else [])
      else if typ = ''indirect'' then (if declared then [] else kind @ '' as a locked reference'')
      else kind @ '' is not an accepted input type (github, gitlab, sourcehut, or tarball, file and git over https)'')"

section \<open>Comparing the lock with the declared inputs\<close>

text \<open>The problems of one declared input, and the node its nested inputs are compared with.\<close>

definition input_problems :: "flakeLock \<Rightarrow> string \<Rightarrow> string list \<Rightarrow> string \<Rightarrow> inputSpec \<Rightarrow> string list \<times> string option" where
  "input_problems lock nodeID path name spec =
     (let label = inputLabel path; node = map_of (fl_Nodes lock) nodeID in
      case (case node of None \<Rightarrow> None | Some n \<Rightarrow> map_of (ln_Inputs n) name) of
        None \<Rightarrow> ([label @ '': missing from the lock''], None)
      | Some entry \<Rightarrow>
          (case is_Follows spec of
             Some f \<Rightarrow>
               ((if entry_follows entry = None \<or> Join (the (entry_follows entry)) ''/'' \<noteq> f
                 then [label @ '': the lock does not record the declared follows''] else []) @
                (if length (is_Inputs spec) > 0 then [label @ '': overrides under a follows''] else []), None)
           | None \<Rightarrow>
               (case entry_id entry of
                  None \<Rightarrow> ([label @ '': locked as a follows, declared as a reference''], None)
                | Some childID \<Rightarrow>
                    (case map_of (fl_Nodes lock) childID of
                       None \<Rightarrow> ([label @ '': the lock names a node it lacks''], None)
                     | Some child \<Rightarrow>
                         if is_Original spec = None then ([label @ '': declared without a reference''], None)
                         else
                           ((let reason = refusedRef (is_Original spec) True
                             in if reason \<noteq> [] then [label @ '': declared '' @ reason] else []) @
                            (if is_Original spec \<noteq> ln_Original child
                             then [label @ '': declared '' @ refKind (is_Original spec) @ '', locked '' @ refKind (ln_Original child) @
                                   ''; the references differ''] else []) @
                            (if (ln_Flake child = None \<or> ln_Flake child = Some True) \<noteq> is_Flake spec
                             then [label @ '': the flake flag differs from the lock''] else []),
                            Some childID)))))"

lemma nested_inputs_smaller:
  "(name, spec) \<in> set declared \<Longrightarrow>
   size_list (\<lambda>p. size (snd p)) (is_Inputs spec) < size_list (\<lambda>p. size (snd p)) (declared :: (string \<times> inputSpec) list)"
proof -
  assume "(name, spec) \<in> set declared"
  then have "size spec \<le> size_list (\<lambda>p. size (snd p)) declared"
    by (induction declared) auto
  moreover have "size_list (\<lambda>p. size (snd p)) (is_Inputs spec) < size spec"
    by (cases spec) (auto simp: size_list_conv_sum_list less_Suc_eq_le intro!: sum_list_mono)
  ultimately show ?thesis by simp
qed

text \<open>The walk over the declared inputs, in the order of their names; it follows the declared tree, which is finite.\<close>

function lockMismatches :: "flakeLock \<Rightarrow> string \<Rightarrow> string list \<Rightarrow> (string \<times> inputSpec) list \<Rightarrow> string list" where
  "lockMismatches lock nodeID prefix declared =
     concat (map (\<lambda>(name, spec).
       case input_problems lock nodeID (prefix @ [name]) name spec of
         (problems, None) \<Rightarrow> problems
       | (problems, Some childID) \<Rightarrow> problems @ lockMismatches lock childID (prefix @ [name]) (is_Inputs spec))
       (sort_key fst declared))"
  by pat_completeness auto

termination lockMismatches
  by (relation "measure (\<lambda>(_, _, _, declared). size_list (\<lambda>p. size (snd p)) declared)") (auto simp: nested_inputs_smaller)

declare lockMismatches.simps [simp del]

section \<open>The gate\<close>

text \<open>The committed tree at HEAD: the mode of an entry (empty when there is none) and its blob; \<open>None\<close> is a git error.\<close>

record commit_tree =
  ct_ModeAtRev :: "string \<Rightarrow> string option"
  ct_Blob :: "string \<Rightarrow> string option"

definition FileAtRev :: "commit_tree \<Rightarrow> string \<Rightarrow> unit + string option" where
  "FileAtRev T path =
     (case ct_ModeAtRev T path of
        None \<Rightarrow> Inl ()
      | Some mode \<Rightarrow>
          if mode = ''120000'' then Inl ()
          else if mode \<noteq> ''100644'' \<and> mode \<noteq> ''100755'' then Inr None
          else (case ct_Blob T path of None \<Rightarrow> Inl () | Some d \<Rightarrow> Inr (Some d)))"

definition committedRegularFile :: "commit_tree \<Rightarrow> string \<Rightarrow> unit + string option" where
  "committedRegularFile T path =
     (case FileAtRev T path of
        Inl e \<Rightarrow> Inl e
      | Inr (Some d) \<Rightarrow> Inr (Some d)
      | Inr None \<Rightarrow> (case ct_ModeAtRev T path of None \<Rightarrow> Inl () | Some mode \<Rightarrow> if mode \<noteq> [] then Inl () else Inr None))"

datatype lock_refusal =
    NixNotRegular | LockNotRegular | LockMissing | LockUnparsable | BadNodes "string list" | InputsUnreadable
  | LockDiffers "string list"

definition root_name :: "flakeLock \<Rightarrow> string" where
  "root_name lock = (if fl_Root lock = [] then ''root'' else fl_Root lock)"

definition bad_nodes :: "flakeLock \<Rightarrow> string list" where
  "bad_nodes lock =
     concat (map (\<lambda>(name, node).
       if name = root_name lock then []
       else if refusedRef (ln_Locked node) False \<noteq> [] then [safeName name @ '': locked '' @ refusedRef (ln_Locked node) False]
       else if refusedRef (ln_Original node) True \<noteq> [] then [safeName name @ '': original '' @ refusedRef (ln_Original node) True]
       else []) (fl_Nodes lock))"

definition refuseUnsafeFlakeLock ::
  "(string \<Rightarrow> flakeLock option) \<Rightarrow> (string \<Rightarrow> (string \<times> inputSpec) list option) \<Rightarrow> commit_tree \<Rightarrow> lock_refusal option" where
  "refuseUnsafeFlakeLock decode declaredInputs T =
     (case committedRegularFile T ''flake.nix'' of
        Inl _ \<Rightarrow> Some NixNotRegular
      | Inr None \<Rightarrow> None
      | Inr (Some nix) \<Rightarrow>
          (case committedRegularFile T ''flake.lock'' of
             Inl _ \<Rightarrow> Some LockNotRegular
           | Inr None \<Rightarrow> Some LockMissing
           | Inr (Some raw) \<Rightarrow>
               (case decode raw of
                  None \<Rightarrow> Some LockUnparsable
                | Some lock \<Rightarrow>
                    if bad_nodes lock \<noteq> [] then Some (BadNodes (capList (sort (bad_nodes lock))))
                    else (case declaredInputs nix of
                        None \<Rightarrow> Some InputsUnreadable
                      | Some declared \<Rightarrow>
                          (let problems = lockMismatches lock (root_name lock) [] declared
                           in if problems \<noteq> [] then Some (LockDiffers (capList problems)) else None)))))"

section \<open>What is accepted\<close>

definition accepted_ref :: "flake_ref \<Rightarrow> bool \<Rightarrow> bool" where
  "accepted_ref r declared \<longleftrightarrow>
     ref_attr r ''path'' = None \<and>
     (ref_string r ''type'' \<in> set forge_types \<and> ref_attr r ''host'' = None \<or>
      ref_string r ''type'' \<in> set url_types \<and> https_url (ref_string r ''url'') \<or>
      ref_string r ''type'' = ''indirect'' \<and> declared)"

lemma types_disjoint: "''indirect'' \<notin> set forge_types" "''indirect'' \<notin> set url_types"
  "typ \<in> set forge_types \<Longrightarrow> typ \<notin> set url_types"
  by (auto simp: forge_types_def url_types_def)

lemma refusedRef_iff: "refusedRef r declared = [] \<longleftrightarrow> accepted_ref r declared"
  unfolding refusedRef_def accepted_ref_def Let_def using types_disjoint by simp

text \<open>Two paths through the inputs: the declared one, which ends at a follows, and the locked one.\<close>

fun declared_at :: "(string \<times> inputSpec) list \<Rightarrow> string list \<Rightarrow> inputSpec option" where
  "declared_at declared [] = None"
| "declared_at declared [n] = map_of declared n"
| "declared_at declared (n # m # ns) =
     (case map_of declared n of
        None \<Rightarrow> None
      | Some spec \<Rightarrow> if is_Follows spec \<noteq> None then None else declared_at (is_Inputs spec) (m # ns))"

definition locked_entry :: "flakeLock \<Rightarrow> string \<Rightarrow> string \<Rightarrow> lock_entry option" where
  "locked_entry lock nodeID n =
     (case map_of (fl_Nodes lock) nodeID of None \<Rightarrow> None | Some node \<Rightarrow> map_of (ln_Inputs node) n)"

fun locked_at :: "flakeLock \<Rightarrow> string \<Rightarrow> string list \<Rightarrow> string option" where
  "locked_at lock nodeID [] = Some nodeID"
| "locked_at lock nodeID (n # ns) =
     (case locked_entry lock nodeID n of
        None \<Rightarrow> None
      | Some entry \<Rightarrow> (case entry_id entry of None \<Rightarrow> None | Some child \<Rightarrow> locked_at lock child ns))"

text \<open>The lock holds a declared input under the node its parent is locked at.\<close>

definition holds_input :: "flakeLock \<Rightarrow> string \<Rightarrow> string \<Rightarrow> inputSpec \<Rightarrow> bool" where
  "holds_input lock parent n spec \<longleftrightarrow>
     (\<exists>entry. locked_entry lock parent n = Some entry \<and>
        (case is_Follows spec of
           Some f \<Rightarrow> (\<exists>p. entry_follows entry = Some p \<and> Join p ''/'' = f) \<and> is_Inputs spec = []
         | None \<Rightarrow>
             (\<exists>childID child. entry_id entry = Some childID \<and> map_of (fl_Nodes lock) childID = Some child \<and>
                is_Original spec \<noteq> None \<and> ln_Original child = is_Original spec \<and> accepted_ref (is_Original spec) True \<and>
                (ln_Flake child = None \<or> ln_Flake child = Some True) = is_Flake spec)))"

lemma input_problems_none:
  "input_problems lock nodeID path n spec = ([], next) \<Longrightarrow>
   holds_input lock nodeID n spec \<and>
   (is_Follows spec = None \<longrightarrow> (\<exists>entry child. locked_entry lock nodeID n = Some entry \<and> entry_id entry = Some child \<and> next = Some child))"
  unfolding input_problems_def holds_input_def Let_def locked_entry_def[symmetric]
  by (auto simp: refusedRef_iff split: option.splits if_splits)

lemma mismatches_none:
  assumes "lockMismatches lock nodeID prefix declared = []" "(n, spec) \<in> set declared"
  shows "holds_input lock nodeID n spec \<and>
    (is_Follows spec = None \<longrightarrow>
      (\<exists>entry child. locked_entry lock nodeID n = Some entry \<and> entry_id entry = Some child \<and>
         lockMismatches lock child (prefix @ [n]) (is_Inputs spec) = []))"
proof -
  obtain problems nxt where p: "input_problems lock nodeID (prefix @ [n]) n spec = (problems, nxt)" by fastforce
  have "case (problems, nxt) of (ps, None) \<Rightarrow> ps = []
      | (ps, Some c) \<Rightarrow> ps @ lockMismatches lock c (prefix @ [n]) (is_Inputs spec) = []"
    using assms p unfolding lockMismatches.simps[of lock nodeID prefix declared] by (fastforce split: option.splits)
  with input_problems_none[of lock nodeID "prefix @ [n]" n spec nxt] p show ?thesis
    by (auto split: option.splits)
qed

lemma matched_paths:
  "lockMismatches lock nodeID prefix declared = [] \<Longrightarrow> declared_at declared path = Some spec \<Longrightarrow>
   \<exists>parent. locked_at lock nodeID (butlast path) = Some parent \<and> holds_input lock parent (last path) spec"
proof (induction declared path arbitrary: nodeID prefix rule: declared_at.induct)
  case (2 declared n)
  then have "(n, spec) \<in> set declared" by (auto dest: map_of_SomeD)
  with mismatches_none[OF 2(1)] show ?case by auto
next
  case (3 declared n m ns)
  then obtain s where s: "map_of declared n = Some s" "is_Follows s = None" "declared_at (is_Inputs s) (m # ns) = Some spec"
    by (auto split: option.splits if_splits)
  then have "(n, s) \<in> set declared" by (auto dest: map_of_SomeD)
  with mismatches_none[OF 3(2)] s(2) obtain entry child where e: "locked_entry lock nodeID n = Some entry"
    "entry_id entry = Some child" "lockMismatches lock child (prefix @ [n]) (is_Inputs s) = []" by blast
  from 3(1)[OF s(1) _ e(3) s(3)] s(2) e show ?case by auto
qed simp

lemma bad_nodes_none:
  "bad_nodes lock = [] \<Longrightarrow> (name, node) \<in> set (fl_Nodes lock) \<Longrightarrow> name \<noteq> root_name lock \<Longrightarrow>
   accepted_ref (ln_Locked node) False \<and> accepted_ref (ln_Original node) True"
  unfolding bad_nodes_def by (fastforce simp: refusedRef_iff split: if_splits)


text \<open>A flake with one input, nixpkgs, locked as declared.\<close>

definition nixpkgs_ref :: flake_ref where
  "nixpkgs_ref = Some [(''owner'', AStr ''NixOS''), (''repo'', AStr ''nixpkgs''), (''type'', AStr ''github'')]"

definition sample_lock :: flakeLock where
  "sample_lock =
     \<lparr>fl_Nodes = [(''nixpkgs'', \<lparr>ln_Inputs = [], ln_Flake = None, ln_Locked = nixpkgs_ref, ln_Original = nixpkgs_ref\<rparr>),
        (''root'', \<lparr>ln_Inputs = [(''nixpkgs'', EntryId ''nixpkgs'')], ln_Flake = None, ln_Locked = None, ln_Original = None\<rparr>)],
      fl_Root = ''root''\<rparr>"

definition sample_declared :: "(string \<times> inputSpec) list" where
  "sample_declared = [(''nixpkgs'', InputSpec nixpkgs_ref True None [])]"

definition sample_tree :: commit_tree where
  "sample_tree = \<lparr>ct_ModeAtRev = (\<lambda>_. Some ''100644''), ct_Blob = (\<lambda>p. Some p)\<rparr>"

lemma lockMismatches_Nil: "lockMismatches lock nodeID prefix [] = []"
  by (subst lockMismatches.simps) simp

lemma lockMismatches_single:
  "lockMismatches lock nodeID prefix [(n, spec)] =
   (case input_problems lock nodeID (prefix @ [n]) n spec of
      (problems, None) \<Rightarrow> problems
    | (problems, Some c) \<Rightarrow> problems @ lockMismatches lock c (prefix @ [n]) (is_Inputs spec))"
  by (subst lockMismatches.simps) simp

lemma sample_accepted: "accepted_ref nixpkgs_ref d"
  by (simp add: accepted_ref_def nixpkgs_ref_def ref_attr_def ref_string_def forge_types_def)

lemma sample_lock_passes:
  "refuseUnsafeFlakeLock (\<lambda>_. Some sample_lock) (\<lambda>_. Some sample_declared) sample_tree = None"
  "committedRegularFile sample_tree ''flake.nix'' = Inr (Some ''flake.nix'')"
proof -
  have files: "committedRegularFile sample_tree p = Inr (Some p)" for p
    by (simp add: committedRegularFile_def FileAtRev_def sample_tree_def)
  have ref: "refusedRef nixpkgs_ref d = []" for d using sample_accepted by (simp add: refusedRef_iff)
  have "bad_nodes sample_lock = []" by (simp add: bad_nodes_def sample_lock_def root_name_def ref)
  moreover have "nixpkgs_ref \<noteq> None" by (simp add: nixpkgs_ref_def)
  with ref have "lockMismatches sample_lock (root_name sample_lock) [] sample_declared = []"
    unfolding sample_declared_def lockMismatches_single
    by (simp add: lockMismatches_Nil input_problems_def sample_lock_def root_name_def entry_id_def Let_def)
  ultimately show "refuseUnsafeFlakeLock (\<lambda>_. Some sample_lock) (\<lambda>_. Some sample_declared) sample_tree = None"
    by (simp add: refuseUnsafeFlakeLock_def files)
  show "committedRegularFile sample_tree ''flake.nix'' = Inr (Some ''flake.nix'')" by (rule files)
qed


section \<open>What a refusal leaks\<close>

definition plain :: "char \<Rightarrow> bool" where
  "plain c \<longleftrightarrow> CHR '' '' \<le> c \<and> c \<le> CHR ''~''"

definition plain_text :: "string \<Rightarrow> bool" where "plain_text s \<longleftrightarrow> list_all plain s"

lemma plain_append: "plain_text (a @ b) \<longleftrightarrow> plain_text a \<and> plain_text b" "plain_text []"
  "plain_text (c # s) \<longleftrightarrow> plain c \<and> plain_text s"
  by (simp_all add: plain_text_def)

lemma safe_rune_plain: "plain (safe_rune r)"
  by (auto simp: safe_rune_def plain_def less_eq_char_def split: list.split)

lemma dots_plain: "plain_text ''...''" "plain_text ''?''" "plain_text ''/''" "plain_text '': ''"
  by code_simp+

lemma safe_scan_plain: "plain_text (safe_scan n rs)"
proof (induction n rs rule: safe_scan.induct)
  case (2 n r rs)
  then show ?case using dots_plain(1) by (cases "n \<ge> 64") (simp_all only: safe_scan.simps if_True if_False plain_append safe_rune_plain simp_thms)
qed (simp add: plain_append)

lemma safe_scan_length: "n \<le> 64 \<Longrightarrow> length (safe_scan n rs) \<le> 67 - n"
  by (induction n rs rule: safe_scan.induct) auto

lemma safeName_bounds: "plain_text (safeName s)" "length (safeName s) \<le> 67"
proof -
  show "plain_text (safeName s)"
    unfolding safeName_def Let_def using safe_scan_plain dots_plain by (simp only: split: if_split) blast
  show "length (safeName s) \<le> 67" using safe_scan_length[of 0 "runes s"] by (simp add: safeName_def Let_def)
qed

lemma plain_Join: "plain_text d \<Longrightarrow> list_all plain_text xs \<Longrightarrow> plain_text (Join xs d)"
  by (induction xs rule: induct_list012) (auto simp: plain_append)

lemma inputLabel_plain: "plain_text (inputLabel path)"
  unfolding inputLabel_def by (rule plain_Join[OF dots_plain(3)]) (simp add: list_all_iff[of plain_text] safeName_bounds)

lemma refusal_words:
  "plain_text ''type ''" "plain_text '' with a path attribute''" "plain_text '' with a host attribute''"
  "plain_text '' without an https url''" "plain_text '' as a locked reference''"
  "plain_text '' is not an accepted input type (github, gitlab, sourcehut, or tarball, file and git over https)''"
  "plain_text ''an untyped reference''" "plain_text '': locked ''" "plain_text '': original ''"
  "plain_text '': declared ''" "plain_text '', locked ''" "plain_text ''; the references differ''"
  "plain_text '': the flake flag differs from the lock''" "plain_text '': missing from the lock''"
  "plain_text '': the lock does not record the declared follows''" "plain_text '': overrides under a follows''"
  "plain_text '': locked as a follows, declared as a reference''" "plain_text '': the lock names a node it lacks''"
  "plain_text '': declared without a reference''" "plain_text ''and ''" "plain_text '' more''"
  by code_simp+

lemma refusedRef_plain: "plain_text (refusedRef r d)"
  by (simp only: refusedRef_def Let_def plain_append(1,2) refusal_words safeName_bounds split: if_split) simp

lemma refKind_plain: "plain_text (refKind r)"
  by (simp only: refKind_def Let_def plain_append(1,2) refusal_words safeName_bounds split: if_split) simp

lemmas plain_simps = plain_append(1,2) refusal_words dots_plain safeName_bounds(1) inputLabel_plain refusedRef_plain refKind_plain

lemma input_problems_plain: "list_all plain_text (fst (input_problems lock nodeID path n spec))"
proof -
  have one: "list_all plain_text [inputLabel path @ w]" if "plain_text w" for w
    using that inputLabel_plain by (simp add: plain_append)
  have two: "list_all plain_text (if b then [inputLabel path @ w] else [])" if "plain_text w" for w b
    using one[OF that] by simp
  show ?thesis
    unfolding input_problems_def Let_def
    by (simp only: list_all_append one two plain_simps fst_conv list.pred_inject split: option.split if_split) simp
qed

lemma lockMismatches_plain: "list_all plain_text (lockMismatches lock nodeID prefix declared)"
proof (induction lock nodeID prefix declared rule: lockMismatches.induct)
  case (1 lock nodeID prefix declared)
  have "list_all plain_text (case input_problems lock nodeID (prefix @ [name]) name spec of
         (problems, None) \<Rightarrow> problems
       | (problems, Some childID) \<Rightarrow> problems @ lockMismatches lock childID (prefix @ [name]) (is_Inputs spec))"
    if "(name, spec) \<in> set (sort_key fst declared)" for name spec
    using input_problems_plain[of lock nodeID "prefix @ [name]" name spec] 1[OF that refl]
    by (auto split: prod.split option.split)
  then show ?case
    by (subst lockMismatches.simps) (fastforce simp: list_all_iff[of plain_text])
qed

lemma bad_nodes_plain: "list_all plain_text (bad_nodes lock)"
proof -
  have "list_all plain_text [safeName name @ '': locked '' @ refusedRef r d]" "list_all plain_text [safeName name @ '': original '' @ refusedRef r d]"
    for name r d by (simp_all only: list.pred_inject plain_simps simp_thms)
  then show ?thesis unfolding bad_nodes_def by (auto simp: list_all_iff[of plain_text])
qed

lemma digit_plain: "plain (digit_char n)"
  by (simp add: digit_char_def plain_def less_eq_char_def)

declare pad_digits.simps(1) [simp del]

lemma pad_digits_zero_plain: "plain_text (pad_digits 0 n)"
proof (induction n rule: less_induct)
  case (less n)
  show ?case
  proof (cases "n = 0")
    case True
    then show ?thesis by (simp add: pad_digits.simps(1)[of 0] plain_append)
  next
    case False
    then have "pad_digits 0 n = pad_digits 0 (n div 10) @ [digit_char (n mod 10)]"
      by (subst pad_digits.simps(1)) simp
    with less[of "n div 10"] False show ?thesis by (simp add: plain_append digit_plain)
  qed
qed

lemma pad_digits_plain: "plain_text (pad_digits w n)"
  by (induction w arbitrary: n) (simp_all add: pad_digits_zero_plain plain_append digit_plain)

lemma more_line_plain: "plain_text (''and '' @ pad_digits 1 n @ '' more'')"
  by (simp only: plain_append(1) pad_digits_plain refusal_words simp_thms)

lemma capList_bounds: "length (capList items) \<le> 21" "list_all plain_text items \<Longrightarrow> list_all plain_text (capList items)"
proof -
  show "length (capList items) \<le> 21" by (simp add: capList_def)
  show "list_all plain_text (capList items)" if "list_all plain_text items"
  proof (cases "length items \<le> 20")
    case False
    from that have "list_all plain_text (take 20 items)" by (auto simp: list_all_iff[of plain_text] dest: in_set_takeD)
    with False more_line_plain show ?thesis by (simp only: capList_def if_False list_all_append list.pred_inject simp_thms)
  qed (use that in \<open>simp add: capList_def\<close>)
qed

text \<open>
  A refusal is bounded and leaks nothing raw: it lists at most twenty-one lines, and no byte of
  it is outside printable ASCII, whatever names and references the worker committed; a name in it is
  at most 67 bytes.
\<close>

theorem lock_refusal_is_bounded:
  "list_all (\<lambda>lines. length lines \<le> 21 \<and> list_all plain_text lines)
     (case refuseUnsafeFlakeLock decode declaredInputs T of
        Some (BadNodes lines) \<Rightarrow> [lines] | Some (LockDiffers lines) \<Rightarrow> [lines] | _ \<Rightarrow> []) \<and>
   plain_text (safeName s) \<and> length (safeName s) \<le> 67"
proof -
  have "list_all plain_text (sort (bad_nodes lock))" for lock
    using bad_nodes_plain[of lock] by (simp add: list_all_iff[of plain_text])
  then show ?thesis
    using capList_bounds lockMismatches_plain safeName_bounds
    by (simp add: refuseUnsafeFlakeLock_def Let_def split: sum.split option.split)
qed

end
