(* ===== verification/MergeStack.thy ===== *)
theory MergeStack
  imports Prelude
begin

text \<open>
  The background jobs of a session and the queue of merges stacked behind them
  (\<open>src/internal/alfa/job/runner.go\<close>, \<open>src/cmd/spinclass/merge_queue.go\<close> and the merge and check
  handlers of \<open>src/cmd/spinclass/commands_mcp_only.go\<close>), for one worktree of one serve process that runs under
  clown. Handlers, the job's goroutine and the completion hook run concurrently; what a step does
  under one lock is atomic, and steps interleave in any order.
\<close>

section \<open>The state\<close>

datatype job_status = StatusSucceeded | StatusFailed | StatusAborted
datatype job_kind = KindMerge | KindCheck

text \<open>
  An attempt is a merge or check that a handler has committed to: it holds a claim on the attestation
  (nothing, where the gate is dormant), which must be settled once. It is numbered in the order of commitment.
\<close>

datatype origin = AsyncMerge | DetachedMerge | AsyncCheck | StackedMerge

definition kind_of :: "origin \<Rightarrow> job_kind" where
  "kind_of c = (if c = AsyncCheck then KindCheck else KindMerge)"

text \<open>The entry of \<open>running\<close>: in \<open>Start\<close>, its goroutine at work, or its work over and not yet cleared.\<close>

datatype run_phase = Starting | Working | Ended bool

record runEntry =
  re_id :: nat
  re_from :: origin
  re_phase :: run_phase
  re_cancelled :: bool

record stack =
  st_next :: nat
  st_ready :: "(nat \<times> origin) list"
  st_running :: "runEntry option"
  st_queue :: "nat list"
  st_hooks :: "(job_kind \<times> job_status) list"
  st_locked :: bool
  st_undispatched :: "nat list"
  st_drained :: "nat list"
  st_inline :: "(nat \<times> bool option) list"
  st_settled :: "(nat \<times> bool) list"

definition stack_init :: stack where
  "stack_init = \<lparr>st_next = 0, st_ready = [], st_running = None, st_queue = [], st_hooks = [], st_locked = False,
     st_undispatched = [], st_drained = [], st_inline = [], st_settled = []\<rparr>"

section \<open>The handlers\<close>

definition IsRunning :: "stack \<Rightarrow> bool" where
  "IsRunning s \<longleftrightarrow> st_running s \<noteq> None"

definition settle :: "nat \<Rightarrow> bool \<Rightarrow> stack \<Rightarrow> stack" where
  "settle i landed s = s\<lparr>st_settled := st_settled s @ [(i, landed)]\<rparr>"

text \<open>A committed attempt is handed on to the rest of its handler.\<close>

definition commit :: "origin \<Rightarrow> stack \<Rightarrow> stack" where
  "commit c s = s\<lparr>st_next := st_next s + 1, st_ready := st_ready s @ [(st_next s, c)]\<rparr>"

text \<open>
  The section of the asynchronous merge handler under the queue lock: refuse, enqueue behind the
  running gate, or go on to dispatch. The gate may refuse the claim.
\<close>

definition merge_async_section :: "bool \<Rightarrow> bool \<Rightarrow> stack \<Rightarrow> stack" where
  "merge_async_section stackingDisabled claimed s =
     (let busy = IsRunning s \<or> length (st_queue s) > 0 in
      if busy \<and> stackingDisabled then s
      else if \<not> claimed then s
      else if busy then s\<lparr>st_next := st_next s + 1, st_queue := st_queue s @ [st_next s]\<rparr>
      else commit AsyncMerge s)"

text \<open>The blocking merge (which may detach into a job) and the check refuse only while a job runs.\<close>

definition unqueued_section :: "origin \<Rightarrow> bool \<Rightarrow> stack \<Rightarrow> stack" where
  "unqueued_section c claimed s = (if IsRunning s \<or> \<not> claimed then s else commit c s)"

section \<open>The job runner\<close>

text \<open>The first section of \<open>Start\<close>: take the slot, or \<open>ErrAlreadyRunning\<close>.\<close>

definition claim_slot :: "nat \<Rightarrow> origin \<Rightarrow> stack \<Rightarrow> stack option" where
  "claim_slot i c s =
     (if IsRunning s then None
      else Some (s\<lparr>st_running := Some \<lparr>re_id = i, re_from = c, re_phase = Starting, re_cancelled = False\<rparr>\<rparr>))"

definition clearRunning :: "stack \<Rightarrow> stack" where
  "clearRunning s = s\<lparr>st_running := None\<rparr>"

text \<open>
  A handler whose \<open>Start\<close> failed releases its hold (\<open>onNotStarted\<close>; the deferred settlement of
  \<open>runDetachableMerge\<close>), and the blocking merge then goes on inline; the completion hook gives the lock
  back and will drain.
\<close>

definition start_failed :: "runEntry \<Rightarrow> stack \<Rightarrow> stack" where
  "start_failed e s =
     (case re_from e of
        StackedMerge \<Rightarrow> (clearRunning s)\<lparr>st_locked := False, st_undispatched := st_undispatched s @ [re_id e]\<rparr>
      | DetachedMerge \<Rightarrow> (settle (re_id e) False (clearRunning s))\<lparr>st_inline := st_inline s @ [(re_id e, None)]\<rparr>
      | _ \<Rightarrow> settle (re_id e) False (clearRunning s))"

definition start_returns :: "runEntry \<Rightarrow> stack \<Rightarrow> stack" where
  "start_returns e s =
     s\<lparr>st_running := Some (e\<lparr>re_phase := Working\<rparr>), st_locked := (if re_from e = StackedMerge then False else st_locked s)\<rparr>"

text \<open>The body returns: its deferred settlement has run.\<close>

definition body_returns :: "runEntry \<Rightarrow> bool \<Rightarrow> stack \<Rightarrow> stack" where
  "body_returns e landed s = (settle (re_id e) landed s)\<lparr>st_running := Some (e\<lparr>re_phase := Ended landed\<rparr>)\<rparr>"

definition job_result :: "runEntry \<Rightarrow> bool \<Rightarrow> job_status" where
  "job_result e landed = (if re_cancelled e then StatusAborted else if \<not> landed then StatusFailed else StatusSucceeded)"

text \<open>The record is written, the wake emitted, the slot cleared; the completion hook is about to run.\<close>

definition job_ends :: "runEntry \<Rightarrow> bool \<Rightarrow> stack \<Rightarrow> stack" where
  "job_ends e landed s = (clearRunning s)\<lparr>st_hooks := st_hooks s @ [(kind_of (re_from e), job_result e landed)]\<rparr>"

definition Cancel :: "stack \<Rightarrow> stack" where
  "Cancel s = (case st_running s of None \<Rightarrow> s | Some e \<Rightarrow> s\<lparr>st_running := Some (e\<lparr>re_cancelled := True\<rparr>)\<rparr>)"

section \<open>The completion hook\<close>

text \<open>
  The first section of the hook: nothing to do, drain, or dequeue. The dequeued entry's \<open>Start\<close> runs
  under the queue lock; it fails at once where another job has taken the slot.
\<close>

definition processMergeQueue :: "job_kind \<Rightarrow> job_status \<Rightarrow> stack \<Rightarrow> stack" where
  "processMergeQueue kind status s =
     (case st_queue s of
        [] \<Rightarrow> s
      | q # rest \<Rightarrow>
          if kind = KindMerge \<and> status \<noteq> StatusSucceeded
          then s\<lparr>st_queue := [], st_drained := st_drained s @ (q # rest)\<rparr>
          else
            (let s' = s\<lparr>st_queue := rest\<rparr> in
             case claim_slot q StackedMerge s' of
               None \<Rightarrow> s'\<lparr>st_undispatched := st_undispatched s' @ [q]\<rparr>
             | Some s'' \<Rightarrow> s''\<lparr>st_locked := True\<rparr>))"

text \<open>The second section, for an entry that could not be started: it and the rest are drained.\<close>

definition drain_rest :: "nat \<Rightarrow> stack \<Rightarrow> stack" where
  "drain_rest n s =
     s\<lparr>st_undispatched := take n (st_undispatched s) @ drop (n + 1) (st_undispatched s),
       st_queue := [],
       st_drained := st_drained s @ (st_undispatched s ! n) # st_queue s\<rparr>"

section \<open>The steps\<close>

definition remove_at :: "nat \<Rightarrow> 'a list \<Rightarrow> 'a list" where
  "remove_at n xs = take n xs @ drop (n + 1) xs"

datatype stack_event =
    CallMergeAsync bool bool | CallMerge bool | CallCheckAsync bool
  | PrepareFails nat | StartClaims nat | StartFails | StartReturns | BodyReturns bool | JobEnds | CancelJob
  | RunHook nat | DrainRest nat | ReleaseDrained nat | InlineEnds nat bool

fun stack_step :: "stack_event \<Rightarrow> stack \<Rightarrow> stack option" where
  "stack_step (CallMergeAsync disabled claimed) s =
     (if st_locked s then None else Some (merge_async_section disabled claimed s))"
| "stack_step (CallMerge claimed) s = Some (unqueued_section DetachedMerge claimed s)"
| "stack_step (CallCheckAsync claimed) s = Some (unqueued_section AsyncCheck claimed s)"
| "stack_step (PrepareFails n) s =
     (if n < length (st_ready s) \<and> snd (st_ready s ! n) = AsyncMerge
      then Some (settle (fst (st_ready s ! n)) False (s\<lparr>st_ready := remove_at n (st_ready s)\<rparr>)) else None)"
| "stack_step (StartClaims n) s =
     (if n < length (st_ready s) then
        (let (i, c) = st_ready s ! n; s' = s\<lparr>st_ready := remove_at n (st_ready s)\<rparr> in
         case claim_slot i c s' of None \<Rightarrow> Some (settle i False s') | Some s'' \<Rightarrow> Some s'')
      else None)"
| "stack_step StartFails s =
     (case st_running s of Some e \<Rightarrow> if re_phase e = Starting then Some (start_failed e s) else None | None \<Rightarrow> None)"
| "stack_step StartReturns s =
     (case st_running s of Some e \<Rightarrow> if re_phase e = Starting then Some (start_returns e s) else None | None \<Rightarrow> None)"
| "stack_step (BodyReturns landed) s =
     (case st_running s of Some e \<Rightarrow> if re_phase e = Working then Some (body_returns e landed s) else None | None \<Rightarrow> None)"
| "stack_step JobEnds s =
     (case st_running s of
        Some e \<Rightarrow> (case re_phase e of Ended landed \<Rightarrow> Some (job_ends e landed s) | _ \<Rightarrow> None)
      | None \<Rightarrow> None)"
| "stack_step CancelJob s = Some (Cancel s)"
| "stack_step (RunHook n) s =
     (if n < length (st_hooks s) \<and> \<not> st_locked s then
        (let (kind, status) = st_hooks s ! n in
         Some (processMergeQueue kind status (s\<lparr>st_hooks := remove_at n (st_hooks s)\<rparr>)))
      else None)"
| "stack_step (DrainRest n) s =
     (if n < length (st_undispatched s) \<and> \<not> st_locked s then Some (drain_rest n s) else None)"
| "stack_step (ReleaseDrained n) s =
     (if n < length (st_drained s)
      then Some (settle (st_drained s ! n) False (s\<lparr>st_drained := remove_at n (st_drained s)\<rparr>)) else None)"
| "stack_step (InlineEnds n landed) s =
     (if n < length (st_inline s) \<and> snd (st_inline s ! n) = None
      then Some (settle (fst (st_inline s ! n)) landed (s\<lparr>st_inline := (st_inline s)[n := (fst (st_inline s ! n), Some landed)]\<rparr>))
      else None)"

fun stack_run :: "stack_event list \<Rightarrow> stack \<Rightarrow> stack option" where
  "stack_run [] s = Some s"
| "stack_run (ev # evs) s = (case stack_step ev s of None \<Rightarrow> None | Some s' \<Rightarrow> stack_run evs s')"

inductive stack_reach :: "stack \<Rightarrow> stack \<Rightarrow> bool" where
  stack_refl: "stack_reach s s"
| stack_trans: "stack_reach s s' \<Longrightarrow> stack_step ev s' = Some s'' \<Longrightarrow> stack_reach s s''"

lemmas stack_defs = commit_def settle_def claim_slot_def clearRunning_def IsRunning_def start_failed_def start_returns_def
  body_returns_def job_ends_def Cancel_def merge_async_section_def unqueued_section_def processMergeQueue_def drain_rest_def Let_def

section \<open>Accounting\<close>

lemma count_remove_at:
  "n < length xs \<Longrightarrow> count_list xs y = count_list (remove_at n xs) y + (if xs ! n = y then 1 else 0)"
proof -
  assume "n < length xs"
  then have "xs = take n xs @ (xs ! n) # drop (n + 1) xs" by (simp add: id_take_nth_drop)
  then have "count_list xs y = count_list (take n xs @ (xs ! n) # drop (n + 1) xs) y" by presburger
  then show ?thesis by (simp add: remove_at_def)
qed

lemma map_remove_at: "map f (remove_at n xs) = remove_at n (map f xs)"
  by (simp add: remove_at_def take_map drop_map)

lemma set_remove_at: "set (remove_at n xs) \<subseteq> set xs"
  by (auto simp: remove_at_def dest: in_set_takeD in_set_dropD)

lemma count_map_remove_at:
  "n < length xs \<Longrightarrow>
   count_list (map f xs) y = count_list (map f (remove_at n xs)) y + (if f (xs ! n) = y then 1 else 0)"
  using count_remove_at[of n "map f xs" y] by (simp add: map_remove_at)

text \<open>The attempt in the slot whose settlement is still to come.\<close>

definition in_slot :: "stack \<Rightarrow> nat list" where
  "in_slot s = (case st_running s of None \<Rightarrow> [] | Some e \<Rightarrow> (case re_phase e of Ended _ \<Rightarrow> [] | _ \<Rightarrow> [re_id e]))"

definition owing :: "stack \<Rightarrow> nat list" where
  "owing s = map fst (st_ready s) @ in_slot s @ st_queue s @ st_undispatched s @ st_drained s"

definition inline_ended :: "(nat \<times> bool option) list \<Rightarrow> nat list" where
  "inline_ended xs = map fst (filter (\<lambda>p. snd p \<noteq> None) xs)"

lemma count_inline_ended_update:
  "n < length xs \<Longrightarrow> snd (xs ! n) = None \<Longrightarrow>
   count_list (inline_ended (xs[n := (fst (xs ! n), Some b)])) i = count_list (inline_ended xs) i + (if fst (xs ! n) = i then 1 else 0)"
proof -
  assume n: "n < length xs" "snd (xs ! n) = None"
  then have "xs = take n xs @ (xs ! n) # drop (Suc n) xs" by (simp add: id_take_nth_drop)
  then have "inline_ended xs = inline_ended (take n xs @ (xs ! n) # drop (Suc n) xs)" by presburger
  with n show ?thesis by (simp add: upd_conv_take_nth_drop inline_ended_def)
qed

lemma inline_ended_notin: "i \<notin> set (map fst xs) \<Longrightarrow> count_list (inline_ended xs) i = 0"
  by (induction xs) (auto simp: inline_ended_def)

text \<open>How each operation moves an attempt between the places that owe a settlement and the log.\<close>

definition account :: "stack \<Rightarrow> nat \<Rightarrow> int" where
  "account s i =
     int (count_list (owing s) i) + int (count_list (map fst (st_settled s)) i)
     - int (count_list (inline_ended (st_inline s)) i) - (if i < st_next s then 1 else 0)"

lemma account_simp:
  "account s i = int (count_list (map fst (st_ready s)) i) + int (count_list (in_slot s) i) + int (count_list (st_queue s) i) +
     int (count_list (st_undispatched s) i) + int (count_list (st_drained s) i) + int (count_list (map fst (st_settled s)) i)
     - int (count_list (inline_ended (st_inline s)) i) - (if i < st_next s then 1 else 0)"
  by (simp add: account_def owing_def)

lemma account_settle: "account (settle j b s) i = account s i + (if j = i then 1 else 0)"
  by (simp add: account_simp settle_def in_slot_def)

lemma account_commit: "account (commit c s) i = account s i"
  by (simp add: account_simp commit_def in_slot_def)

lemma account_enqueue: "account (s\<lparr>st_next := st_next s + 1, st_queue := st_queue s @ [st_next s]\<rparr>) i = account s i"
  by (simp add: account_simp in_slot_def)

lemma account_unready:
  "n < length (st_ready s) \<Longrightarrow>
   account (s\<lparr>st_ready := remove_at n (st_ready s)\<rparr>) i = account s i - (if fst (st_ready s ! n) = i then 1 else 0)"
  using count_map_remove_at[of n "st_ready s" fst i] by (simp add: account_simp in_slot_def)

lemma account_undrain:
  "n < length (st_drained s) \<Longrightarrow>
   account (s\<lparr>st_drained := remove_at n (st_drained s)\<rparr>) i = account s i - (if st_drained s ! n = i then 1 else 0)"
  using count_remove_at[of n "st_drained s" i] by (simp add: account_simp in_slot_def)

lemma account_fields [simp]:
  "account (s\<lparr>st_hooks := hs\<rparr>) i = account s i" "account (s\<lparr>st_locked := b\<rparr>) i = account s i"
  by (simp_all add: account_simp in_slot_def)

lemma account_claim: "claim_slot j c s = Some s' \<Longrightarrow> account s' i = account s i + (if j = i then 1 else 0)"
  by (auto simp: account_simp claim_slot_def IsRunning_def in_slot_def split: if_splits)

lemma account_clear:
  "st_running s = Some e \<Longrightarrow>
   account (clearRunning s) i = account s i - (case re_phase e of Ended _ \<Rightarrow> 0 | _ \<Rightarrow> if re_id e = i then 1 else 0)"
  by (auto simp: account_simp clearRunning_def in_slot_def split: run_phase.split)

lemma account_undispatch: "account (s\<lparr>st_undispatched := st_undispatched s @ [j]\<rparr>) i = account s i + (if j = i then 1 else 0)"
  by (simp add: account_simp in_slot_def)

lemma account_drain: "account (drain_rest n s) i = account s i" if "n < length (st_undispatched s)"
  using count_remove_at[OF that, of i] by (simp add: account_simp in_slot_def drain_rest_def remove_at_def)

lemma account_start_failed:
  "st_running s = Some e \<Longrightarrow> re_phase e = Starting \<Longrightarrow> account (start_failed e s) i = account s i"
  by (cases "re_from e") (simp_all add: start_failed_def settle_def clearRunning_def account_simp in_slot_def inline_ended_def)

lemma account_dequeue:
  "st_queue s = q # rest \<Longrightarrow> account (s\<lparr>st_queue := rest\<rparr>) i = account s i - (if q = i then 1 else 0)"
  "st_queue s = q # rest \<Longrightarrow> account (s\<lparr>st_queue := [], st_drained := st_drained s @ q # rest\<rparr>) i = account s i"
  by (auto simp: account_simp in_slot_def)

lemma account_hook: "account (processMergeQueue kind status s) i = account s i"
proof (cases "st_queue s")
  case (Cons q rest)
  then show ?thesis
    by (auto simp: processMergeQueue_def Let_def account_dequeue account_claim account_undispatch[of "s\<lparr>st_queue := rest\<rparr>", simplified]
        split: option.splits)
qed (simp add: processMergeQueue_def)

lemma account_step: assumes "stack_step ev s = Some s'" shows "account s' i = account s i"
proof (cases ev)
  case (PrepareFails n)
  with assms show ?thesis by (auto simp: account_settle account_unready split: if_splits)
next
  case (StartClaims n)
  with assms show ?thesis
    by (auto simp: Let_def account_settle account_unready account_claim split: if_splits prod.splits option.splits)
next
  case (CallMergeAsync disabled claimed)
  with assms show ?thesis by (auto simp: merge_async_section_def Let_def account_commit account_enqueue[simplified] split: if_splits)
next
  case (DrainRest n)
  with assms show ?thesis by (auto simp: account_drain split: if_splits)
next
  case (ReleaseDrained n)
  with assms show ?thesis by (auto simp: account_settle account_undrain split: if_splits)
next
  case (CallMerge claimed)
  with assms show ?thesis by (auto simp: unqueued_section_def account_commit)
next
  case (CallCheckAsync claimed)
  with assms show ?thesis by (auto simp: unqueued_section_def account_commit)
next
  case StartFails
  with assms show ?thesis
    by (auto simp: account_start_failed split: if_splits option.splits)
next
  case StartReturns
  with assms show ?thesis by (auto simp: start_returns_def account_simp in_slot_def split: if_splits option.splits)
next
  case (BodyReturns landed)
  with assms show ?thesis
    by (auto simp: body_returns_def account_simp settle_def in_slot_def split: if_splits option.splits)
next
  case JobEnds
  with assms show ?thesis by (auto simp: job_ends_def account_clear split: option.splits run_phase.splits)
next
  case CancelJob
  with assms show ?thesis by (auto simp: Cancel_def account_simp in_slot_def split: option.splits run_phase.splits)
next
  case (RunHook n)
  with assms show ?thesis by (auto simp: account_hook Let_def split: if_splits prod.splits)
next
  case (InlineEnds n landed)
  with assms show ?thesis using count_inline_ended_update[of n "st_inline s" landed i]
    by (auto simp: account_simp settle_def in_slot_def split: if_splits)
qed

lemma inline_ids_update: "n < length xs \<Longrightarrow> map fst (xs[n := (fst (xs ! n), v)]) = map fst xs"
  by (simp add: map_update list_update_same_conv)

lemma inline_step:
  assumes "stack_step ev s = Some s'" "i \<in> set (map fst (st_inline s'))"
  shows "i \<in> set (map fst (st_inline s)) \<or>
    (\<exists>e. st_running s = Some e \<and> re_phase e = Starting \<and> i = re_id e \<and> s' = start_failed e s \<and> re_from e = DetachedMerge)"
proof (cases ev)
  case (InlineEnds n landed)
  with assms show ?thesis by (auto simp: stack_defs inline_ids_update simp del: set_map split: if_splits)
next
  case StartFails
  with assms show ?thesis by (auto simp: stack_defs split: if_splits option.splits origin.splits)
qed (use assms in \<open>auto simp: stack_defs split: if_splits option.splits run_phase.splits prod.splits list.splits\<close>)

lemma next_step: "stack_step ev s = Some s' \<Longrightarrow> st_next s \<le> st_next s'"
  by (cases ev) (auto simp: stack_defs split: if_splits option.splits run_phase.splits origin.splits prod.splits list.splits)

text \<open>How often an attempt was settled beyond the end of its inline run.\<close>

definition excess :: "stack \<Rightarrow> nat \<Rightarrow> int" where
  "excess s i = int (count_list (map fst (st_settled s)) i) - int (count_list (inline_ended (st_inline s)) i)"

lemma excess_settle: "excess (settle j b s) i = excess s i + (if j = i then 1 else 0)"
  by (simp add: excess_def settle_def)

lemma excess_step: assumes "stack_step ev s = Some s'" shows "excess s i \<le> excess s' i"
proof (cases ev)
  case (InlineEnds n landed)
  with assms show ?thesis using count_inline_ended_update[of n "st_inline s" landed i]
    by (auto simp: excess_def settle_def split: if_splits)
qed (use assms in \<open>auto simp: stack_defs excess_def inline_ended_def split: if_splits option.splits run_phase.splits origin.splits prod.splits list.splits\<close>)

definition stack_inv :: "stack \<Rightarrow> bool" where
  "stack_inv s \<longleftrightarrow>
     (\<forall>i. account s i = 0 \<and> 0 \<le> excess s i \<and> (i \<in> set (map fst (st_inline s)) \<longrightarrow> 1 \<le> excess s i)) \<and>
     (st_locked s \<longrightarrow> (\<exists>e. st_running s = Some e \<and> re_phase e = Starting \<and> re_from e = StackedMerge))"

lemma stack_inv_init: "stack_inv stack_init"
  by (simp add: stack_inv_def stack_init_def account_simp excess_def in_slot_def inline_ended_def)

lemma locked_step:
  assumes "stack_step ev s = Some s'" "st_locked s \<longrightarrow> (\<exists>e. st_running s = Some e \<and> re_phase e = Starting \<and> re_from e = StackedMerge)"
  shows "st_locked s' \<longrightarrow> (\<exists>e. st_running s' = Some e \<and> re_phase e = Starting \<and> re_from e = StackedMerge)"
  using assms
  by (cases ev) (auto simp: stack_defs split: if_splits option.splits run_phase.splits origin.splits prod.splits list.splits)

lemma stack_inv_step: assumes "stack_step ev s = Some s'" "stack_inv s" shows "stack_inv s'"
proof -
  have "account s' i = 0 \<and> 0 \<le> excess s' i \<and> (i \<in> set (map fst (st_inline s')) \<longrightarrow> 1 \<le> excess s' i)" for i
  proof -
    have old: "account s i = 0" "0 \<le> excess s i" "i \<in> set (map fst (st_inline s)) \<Longrightarrow> 1 \<le> excess s i"
      using assms(2) by (auto simp: stack_inv_def)
    have "1 \<le> excess s' i" if "i \<in> set (map fst (st_inline s'))"
      using inline_step[OF assms(1) that]
    proof
      assume "i \<in> set (map fst (st_inline s))"
      with old(3) excess_step[OF assms(1), of i] show ?thesis by linarith
    next
      assume "\<exists>e. st_running s = Some e \<and> re_phase e = Starting \<and> i = re_id e \<and> s' = start_failed e s \<and> re_from e = DetachedMerge"
      with old(2) show ?thesis by (auto simp: start_failed_def settle_def clearRunning_def excess_def inline_ended_def)
    qed
    with old account_step[OF assms(1), of i] excess_step[OF assms(1), of i] show ?thesis by linarith
  qed
  moreover have "st_locked s' \<longrightarrow> (\<exists>e. st_running s' = Some e \<and> re_phase e = Starting \<and> re_from e = StackedMerge)"
    using assms(2) by (intro locked_step[OF assms(1)]) (simp add: stack_inv_def)
  ultimately show ?thesis by (simp add: stack_inv_def)
qed

lemma stack_reach_inv: "stack_reach s s' \<Longrightarrow> stack_inv s \<Longrightarrow> stack_inv s'"
  by (induction rule: stack_reach.induct) (auto intro: stack_inv_step)

lemmas stack_reach_init_inv = stack_reach_inv[OF _ stack_inv_init]

lemma stack_run_reach: "stack_run evs s = Some s' \<Longrightarrow> stack_reach s0 s \<Longrightarrow> stack_reach s0 s'"
  by (induction evs arbitrary: s) (auto split: option.splits intro: stack_reach.intros)

lemmas stack_run_reach_init = stack_run_reach[OF _ stack_refl]

text \<open>What the accounts say of one attempt.\<close>

lemma stack_inv_account: "stack_inv s \<Longrightarrow> account s i = 0"
  by (simp add: stack_inv_def)

lemma account_owed:
  assumes "stack_inv s" "i \<notin> set (map fst (st_inline s))"
  shows "count_list (owing s) i + count_list (map fst (st_settled s)) i = (if i < st_next s then 1 else 0)"
  using stack_inv_account[OF assms(1), of i] inline_ended_notin[OF assms(2)] by (simp add: account_def split: if_splits)

lemma in_count: "i \<in> set xs \<Longrightarrow> 1 \<le> count_list xs i"
  using count_list_0_iff[of xs i] by linarith

lemma owing_not_inline: "stack_inv s \<Longrightarrow> i \<in> set (owing s) \<Longrightarrow> i \<notin> set (map fst (st_inline s))"
proof
  assume inv: "stack_inv s" and i: "i \<in> set (owing s)" "i \<in> set (map fst (st_inline s))"
  from inv i(2) have "1 \<le> excess s i" by (auto simp: stack_inv_def)
  with stack_inv_account[OF inv, of i] in_count[OF i(1)] show False by (simp add: account_def excess_def split: if_splits)
qed

section \<open>Every claim is settled, once\<close>


section \<open>A failed merge stops the stack\<close>

text \<open>Whether an attempt is at work: its body runs, or is about to.\<close>

definition works_on :: "stack \<Rightarrow> nat \<Rightarrow> bool" where
  "works_on s i \<longleftrightarrow> i \<in> set (in_slot s) \<or> (i, None) \<in> set (st_inline s)"

definition abandoned :: "nat \<Rightarrow> stack \<Rightarrow> bool" where
  "abandoned i s \<longleftrightarrow> (i \<in> set (st_drained s) \<or> (i, False) \<in> set (st_settled s)) \<and> i \<notin> set (map fst (st_inline s)) \<and> i < st_next s"

lemma settled_step: "stack_step ev s = Some s' \<Longrightarrow> set (st_settled s) \<subseteq> set (st_settled s')"
  by (cases ev) (auto simp: stack_defs split: if_splits option.splits run_phase.splits origin.splits prod.splits list.splits)

lemma drained_step:
  assumes "stack_step ev s = Some s'" "i \<in> set (st_drained s)"
  shows "i \<in> set (st_drained s') \<or> (i, False) \<in> set (st_settled s')"
proof (cases ev)
  case (ReleaseDrained n)
  with assms(1) have n: "n < length (st_drained s)" "s' = settle (st_drained s ! n) False (s\<lparr>st_drained := remove_at n (st_drained s)\<rparr>)"
    by (auto split: if_splits)
  from assms(2) count_remove_at[OF n(1), of i] have "i \<in> set (remove_at n (st_drained s)) \<or> st_drained s ! n = i"
    by (metis add.right_neutral count_list_0_iff)
  with n show ?thesis by (auto simp: settle_def)
qed (use assms in \<open>auto simp: stack_defs split: if_splits option.splits run_phase.splits origin.splits prod.splits list.splits\<close>)

lemma abandoned_once:
  assumes "stack_inv s" "abandoned i s"
  shows "(i \<in> set (st_drained s) \<longrightarrow> i \<notin> set (map fst (st_settled s)) \<and> count_list (owing s) i = 1) \<and>
    ((i, False) \<in> set (st_settled s) \<longrightarrow> i \<notin> set (owing s) \<and> count_list (map fst (st_settled s)) i = 1)"
proof -
  have one: "count_list (owing s) i + count_list (map fst (st_settled s)) i = 1"
    using account_owed[OF assms(1)] assms(2) by (simp add: abandoned_def)
  have "i \<in> set (st_drained s) \<Longrightarrow> 1 \<le> count_list (owing s) i" by (rule in_count) (simp add: owing_def)
  moreover have "(i, False) \<in> set (st_settled s) \<Longrightarrow> 1 \<le> count_list (map fst (st_settled s)) i" by (rule in_count) force
  moreover have "count_list (map fst (st_settled s)) i = 0 \<Longrightarrow> i \<notin> set (map fst (st_settled s))"
    "count_list (owing s) i = 0 \<Longrightarrow> i \<notin> set (owing s)" by (simp_all only: count_list_0_iff not_False_eq_True)
  ultimately show ?thesis using one by linarith
qed

lemma abandoned_step:
  assumes "stack_inv s" "abandoned i s" "stack_step ev s = Some s'"
  shows "abandoned i s'"
proof -
  have "i \<in> set (st_drained s') \<or> (i, False) \<in> set (st_settled s')"
    using assms(2) drained_step[OF assms(3)] settled_step[OF assms(3)] by (auto simp: abandoned_def)
  moreover have "i \<notin> set (map fst (st_inline s'))"
  proof
    assume "i \<in> set (map fst (st_inline s'))"
    from inline_step[OF assms(3) this] assms(2) obtain e where e: "st_running s = Some e" "re_phase e = Starting" "i = re_id e"
      by (auto simp: abandoned_def)
    then have slot: "in_slot s = [i]" by (simp add: in_slot_def)
    then have "i \<in> set (owing s)" by (simp add: owing_def)
    with abandoned_once[OF assms(1,2)] assms(2) have "i \<in> set (st_drained s)" "count_list (owing s) i = 1"
      by (auto simp: abandoned_def)
    with slot in_count[of i "st_drained s"] show False by (simp add: owing_def)
  qed
  moreover have "i < st_next s'" using assms(2) next_step[OF assms(3)] by (simp add: abandoned_def)
  ultimately show ?thesis by (simp add: abandoned_def)
qed

lemma abandoned_reach: "stack_reach s s' \<Longrightarrow> stack_inv s \<Longrightarrow> abandoned i s \<Longrightarrow> abandoned i s'"
  by (induction rule: stack_reach.induct) (auto intro: abandoned_step stack_reach_inv)

lemma abandoned_idle:
  assumes "stack_inv s" "abandoned i s"
  shows "\<not> works_on s i" "i \<notin> set (st_queue s)" "(i, True) \<notin> set (st_settled s)"
proof -
  note once = abandoned_once[OF assms]
  have places: "count_list (owing s) i \<ge> count_list (in_slot s) i + count_list (st_queue s) i + count_list (st_drained s) i"
    by (simp add: owing_def)
  have owed: "count_list (in_slot s) i = 0 \<and> count_list (st_queue s) i = 0"
  proof (cases "i \<in> set (st_drained s)")
    case True
    with once places in_count[OF True] show ?thesis by linarith
  next
    case False
    with assms(2) once have "i \<notin> set (owing s)" by (auto simp: abandoned_def)
    then have "count_list (owing s) i = 0" by (simp only: count_list_0_iff not_False_eq_True)
    with places show ?thesis by linarith
  qed
  have "i \<notin> set (in_slot s)" "i \<notin> set (st_queue s)" using owed by (simp_all only: count_list_0_iff not_False_eq_True)
  moreover from assms(2) have "(i, None) \<notin> set (st_inline s)" by (force simp: abandoned_def)
  ultimately show "\<not> works_on s i" "i \<notin> set (st_queue s)" by (simp_all add: works_on_def)
  show "(i, True) \<notin> set (st_settled s)"
  proof
    assume t: "(i, True) \<in> set (st_settled s)"
    with once assms(2) have f: "(i, False) \<in> set (st_settled s)" by (force simp: abandoned_def)
    with once have "count_list (map fst (st_settled s)) i = 1" by blast
    moreover have "2 \<le> count_list (map fst xs) i" if "(i, True) \<in> set xs" "(i, False) \<in> set xs" for xs :: "(nat \<times> bool) list"
      using that
    proof (induction xs)
      case (Cons x xs)
      then consider "x = (i, True)" "(i, False) \<in> set xs" | "x = (i, False)" "(i, True) \<in> set xs"
        | "(i, True) \<in> set xs" "(i, False) \<in> set xs" by auto
      then show ?case
      proof cases
        case 1
        then have "i \<in> set (map fst xs)" by force
        from in_count[OF this] 1 show ?thesis by simp
      next
        case 2
        then have "i \<in> set (map fst xs)" by force
        from in_count[OF this] 2 show ?thesis by simp
      qed (use Cons.IH in auto)
    qed simp
    from this[OF t f] calculation show False by linarith
  qed
qed


section \<open>Stranding\<close>

text \<open>Merges wait, and nothing that would start them is left: no job, no hook, no drain.\<close>

definition stranded :: "stack \<Rightarrow> bool" where
  "stranded s \<longleftrightarrow> st_queue s \<noteq> [] \<and> st_running s = None \<and> st_hooks s = [] \<and> st_undispatched s = []"

lemma remove_at_Nil: "remove_at n xs = [] \<Longrightarrow> n < length xs \<Longrightarrow> xs = [xs ! n]"
  by (cases xs; cases n) (auto simp: remove_at_def)

text \<open>
  The only step that strands a stack is a job that fails to start for a handler, while a merge
  that found the slot taken is queued behind it: every other step, the failed start of a dequeued merge
  included, leaves somebody to dequeue or to drain.
\<close>

theorem only_failed_starts_strand:
  assumes "stack_reach stack_init s" "stack_step ev s = Some s'" "\<not> stranded s" "stranded s'"
  shows "ev = StartFails \<and> st_queue s \<noteq> [] \<and> (\<exists>e. st_running s = Some e \<and> re_from e \<noteq> StackedMerge)"
proof (cases ev)
  case (DrainRest n)
  with assms show ?thesis by (auto simp: stranded_def drain_rest_def split: if_splits)
next
  case (RunHook n)
  with assms show ?thesis by (auto simp: stranded_def stack_defs split: if_splits prod.splits list.splits option.splits)
next
  case StartFails
  with assms show ?thesis by (auto simp: stranded_def stack_defs split: if_splits option.splits origin.splits)
next
  case (CallMergeAsync disabled claimed)
  with assms show ?thesis by (auto simp: stranded_def stack_defs split: if_splits)
qed (use assms in \<open>auto simp: stranded_def stack_defs split: if_splits option.splits run_phase.splits prod.splits\<close>)

fun is_merge_call :: "stack_event \<Rightarrow> bool" where
  "is_merge_call (CallMergeAsync _ _) = True"
| "is_merge_call _ = False"

text \<open>
  A stranded stack stays stranded under every further asynchronous merge: each is refused or
  queued behind, and none of the claims held by the queue is ever settled by it.
\<close>

theorem stranded_merges_pile_up:
  assumes "stranded s" "st_locked s = False" "list_all is_merge_call evs" "stack_run evs s = Some s'"
  shows "stranded s' \<and> (\<exists>more. st_queue s' = st_queue s @ more) \<and> st_settled s' = st_settled s"
  using assms
proof (induction evs arbitrary: s)
  case (Cons ev evs)
  then obtain disabled claimed where ev: "ev = CallMergeAsync disabled claimed" by (cases ev) auto
  define t where "t = merge_async_section disabled claimed s"
  with ev Cons.prems have t: "stack_run evs t = Some s'" by simp
  have "st_locked t = False" "stranded t" "\<exists>m. st_queue t = st_queue s @ m" "st_settled t = st_settled s"
    using Cons.prems(1,2) unfolding t_def by (auto simp: merge_async_section_def stranded_def Let_def)
  with Cons.IH[of t] Cons.prems(3) t show ?case by fastforce
qed simp

section \<open>The inline fallback\<close>

text \<open>
  A blocking merge whose job cannot be started settles its claim as not landed before it runs
  inline, and settles it again when it lands: a run of the model does this, so the first settlement
  releases the attestation and the second finds no claim to consume.
\<close>

theorem inline_fallback_releases_first:
  "map_option st_settled (stack_run [CallMerge True, StartClaims 0, StartFails, InlineEnds 0 True] stack_init) =
   Some [(0, False), (0, True)]"
  by code_simp

section \<open>Concrete runs\<close>

text \<open>A merge is at work and another is stacked behind it.\<close>

definition stacked_run :: "stack_event list" where
  "stacked_run = [CallMergeAsync False True, StartClaims 0, StartReturns, CallMergeAsync False True]"

definition stacked :: stack where "stacked = the (stack_run stacked_run stack_init)"

lemma stacked_reach: "stack_reach stack_init stacked"
proof -
  have "stack_run stacked_run stack_init = Some stacked" unfolding stacked_def by code_simp
  then show ?thesis by (rule stack_run_reach_init)
qed


text \<open>The merge fails, and its completion hook is about to run.\<close>

definition failing :: stack where "failing = the (stack_run (stacked_run @ [BodyReturns False, JobEnds]) stack_init)"
definition failed :: stack where "failed = the (stack_step (RunHook 0) failing)"


text \<open>The slot is taken, a second merge is queued behind it, and then the job fails to start.\<close>

definition racing_run :: "stack_event list" where
  "racing_run = [CallMergeAsync False True, StartClaims 0, CallMergeAsync False True]"

definition racing :: stack where "racing = the (stack_run racing_run stack_init)"
definition stranded_stack :: stack where "stranded_stack = the (stack_step StartFails racing)"

theorem only_failed_starts_strand_witness:
  "StartFails = StartFails \<and> st_queue racing \<noteq> [] \<and> (\<exists>e. st_running racing = Some e \<and> re_from e \<noteq> StackedMerge)"
proof (rule only_failed_starts_strand)
  have "stack_run racing_run stack_init = Some racing" unfolding racing_def by code_simp
  then show "stack_reach stack_init racing" by (rule stack_run_reach_init)
  show "stack_step StartFails racing = Some stranded_stack" "\<not> stranded racing" "stranded stranded_stack" by code_simp+
qed

theorem stranded_merges_pile_up_witness:
  "stranded (the (stack_run [CallMergeAsync False True] stranded_stack)) \<and>
   (\<exists>more. st_queue (the (stack_run [CallMergeAsync False True] stranded_stack)) = st_queue stranded_stack @ more) \<and>
   st_settled (the (stack_run [CallMergeAsync False True] stranded_stack)) = st_settled stranded_stack"
proof (rule stranded_merges_pile_up[where evs = "[CallMergeAsync False True]"])
  show "stranded stranded_stack" "st_locked stranded_stack = False" "list_all is_merge_call [CallMergeAsync False True]"
    "stack_run [CallMergeAsync False True] stranded_stack = Some (the (stack_run [CallMergeAsync False True] stranded_stack))"
    by code_simp+
qed

end
