(* ===== verification/MergePolicy.thy ===== *)
theory MergePolicy
  imports Attestation GoPath
begin

text \<open>
  The pre-merge policy stage (\<open>src/internal/delta/merge/policy.go\<close>) and the gate decision of the merge
  tools that it completes (\<open>src/cmd/spinclass/commands_mcp_only.go\<close>): an attested merge is admitted by
  its claim, an unattested one only by a predicate that the sweatfile at the merge base declares. Git,
  the sweatfile at a commit and the predicate's process are parameters over a world they may change.
\<close>

section \<open>The gate decision\<close>

datatype AttestationGate = GateTerminal | GateAttested | GateNeedsExemption

text \<open>
  The sweatfile the gate is read from (\<open>None\<close> when it does not load) and the session's slot. An
  implicit session never gets here.
\<close>

definition peekGate :: "Machine \<Rightarrow> Sweatfile option \<Rightarrow> Slot \<Rightarrow> refusal option" where
  "peekGate m loaded sl =
     (case loaded of
        None \<Rightarrow> None
      | Some merged \<Rightarrow> if length (ActivePreMergeSkills merged) = 0 then None else Peek m merged sl)"

definition decideMergeGate :: "Machine \<Rightarrow> Sweatfile option \<Rightarrow> Slot \<Rightarrow> refusal + AttestationGate" where
  "decideMergeGate m loaded sl =
     (case peekGate m loaded sl of
        None \<Rightarrow> Inr GateAttested
      | Some msg \<Rightarrow>
          (case loaded of
             Some merged \<Rightarrow> if length (ActivePreMergeExemptions merged) > 0 then Inr GateNeedsExemption else Inl msg
           | None \<Rightarrow> Inl msg))"

text \<open>A hold is the slot's ticket; the zero ticket settles to nothing.\<close>

definition holdGate :: "Machine \<Rightarrow> int \<Rightarrow> Time \<Rightarrow> Sweatfile option \<Rightarrow> Slot \<Rightarrow> claim_result \<times> Slot" where
  "holdGate m pid now loaded sl =
     (case loaded of
        None \<Rightarrow> (Claimed zero_ticket, sl)
      | Some merged \<Rightarrow> if length (ActivePreMergeSkills merged) = 0 then (Claimed zero_ticket, sl) else Claim m pid now merged sl)"

section \<open>Test points and labels\<close>

datatype point = PointOk string | PointSkip string string | PointNotOk string string

definition policyLabel :: string where "policyLabel = ''pre-merge policy''"

definition PolicyTerminalBypassReason :: string where
  "PolicyTerminalBypassReason =
     ''attestation bypassed (terminal): sc merge / sc run are exempt from [[pre-merge-skills]] by policy''"

definition shortSha :: "string \<Rightarrow> string" where
  "shortSha sha = (if length sha > 12 then take 12 sha else sha)"

definition ellipsis :: string where "ellipsis = [CHR 0xE2, CHR 0x80, CHR 0xA6]"

definition tail_of :: "string \<Rightarrow> nat \<Rightarrow> string" where
  "tail_of s n = (if length s \<le> n then s else ellipsis @ drop (length s - n) s)"

definition sha_char :: "char \<Rightarrow> bool" where
  "sha_char c \<longleftrightarrow> CHR ''0'' \<le> c \<and> c \<le> CHR ''9'' \<or> CHR ''a'' \<le> c \<and> c \<le> CHR ''f''"

text \<open>\<open>^[0-9a-f]{7,64}$\<close>\<close>

definition attestedShaPattern :: "string \<Rightarrow> bool" where
  "attestedShaPattern s \<longleftrightarrow> 7 \<le> length s \<and> length s \<le> 64 \<and> list_all sha_char s"

definition first_line :: "string \<Rightarrow> string" where
  "first_line s = (case Cut s [newline] of None \<Rightarrow> s | Some (a, _) \<Rightarrow> a)"

definition nonblank_lines :: "string \<Rightarrow> string list" where
  "nonblank_lines out = filter (\<lambda>l. l \<noteq> []) (map TrimSpace (split1 newline out))"

text \<open>The parameter is \<open>git rev-list\<close> over the commits the attestation never saw: its error or its output.\<close>

definition attestedLabel :: "(string \<Rightarrow> string \<Rightarrow> string \<Rightarrow> string + string) \<Rightarrow> string \<Rightarrow> string \<Rightarrow> string \<Rightarrow> string" where
  "attestedLabel revList targetRef attestedSha pinnedSha =
     (let plain = policyLabel @ '': attested'';
          cannotCompare = (\<lambda>cause. policyLabel @ '': attested; could not compare with the attested commit '' @
                             shortSha attestedSha @ ''; '' @ cause)
      in if attestedSha = [] then plain
         else if \<not> attestedShaPattern attestedSha then cannotCompare ''not a commit sha''
         else (case revList attestedSha pinnedSha targetRef of
             Inl err \<Rightarrow> cannotCompare (first_line (TrimSpace err))
           | Inr out \<Rightarrow>
               let shas = nonblank_lines out; n = length shas in
               if n = 0 then plain
               else
                 let noun = (if n = 1 then ''commit'' else ''commits'');
                     shown = map shortSha (take (min n 5) shas);
                     listed = Join shown '' '' @ (if n > 5 then '' '' @ ellipsis else [])
                 in policyLabel @ '': attested; '' @ Itoa (int n) @ '' '' @ noun @ '' since the attestation at '' @
                    shortSha attestedSha @ '': '' @ listed))"

section \<open>Transient worktrees\<close>

definition ExemptWorktreePrefix :: string where "ExemptWorktreePrefix = ''.exempt-''"

definition transient_path :: "string \<Rightarrow> string \<Rightarrow> string \<Rightarrow> string \<Rightarrow> int \<Rightarrow> string" where
  "transient_path repoPath prefix branch sha pid =
     JoinPath [JoinPath [repoPath, ''.worktrees''], prefix @ ReplaceAll branch ''/'' ''-'' @ ''-'' @ shortSha sha @ ''-'' @ Itoa pid]"

text \<open>
  The world of a merge's external calls: what the file system and git do to make and remove a worktree
  (each may fail, with a message), and how a predicate's shell ends.
\<close>

datatype cmd_end = CmdOk | CmdExit int | CmdOther string

record 'w outside =
  o_pid :: int
  o_mkdirAll :: "string \<Rightarrow> 'w \<Rightarrow> string option \<times> 'w"
  o_removeAll :: "string \<Rightarrow> 'w \<Rightarrow> string option \<times> 'w"
  o_worktreeAdd :: "string \<Rightarrow> string \<Rightarrow> 'w \<Rightarrow> string option \<times> 'w"
  o_worktreeRemove :: "string \<Rightarrow> 'w \<Rightarrow> 'w"
  o_mergeBase :: "string \<Rightarrow> string \<Rightarrow> 'w \<Rightarrow> string + string"
  o_revList :: "string \<Rightarrow> string \<Rightarrow> string \<Rightarrow> 'w \<Rightarrow> string + string"
  o_home :: string
  o_sweatfileAt :: "string \<Rightarrow> 'w \<Rightarrow> Sweatfile option"
  o_shell :: "string \<Rightarrow> string \<Rightarrow> string list \<Rightarrow> 'w \<Rightarrow> (cmd_end \<times> bool \<times> string) \<times> 'w"

definition addTransientWorktree ::
  "'w outside \<Rightarrow> string \<Rightarrow> string \<Rightarrow> string \<Rightarrow> string \<Rightarrow> 'w \<Rightarrow> (string + string) \<times> 'w" where
  "addTransientWorktree X repoPath prefix branch sha w =
     (let parent = JoinPath [repoPath, ''.worktrees'']; path = transient_path repoPath prefix branch sha (o_pid X) in
      case o_mkdirAll X parent w of
        (Some e, w) \<Rightarrow> (Inl (''create worktree parent '' @ parent @ '': '' @ e), w)
      | (None, w) \<Rightarrow>
          (case o_removeAll X path w of
             (Some e, w) \<Rightarrow> (Inl (''remove stale worktree dir '' @ path @ '': '' @ e), w)
           | (None, w) \<Rightarrow>
               (case o_worktreeAdd X path sha w of
                  (Some e, w) \<Rightarrow> (Inl (''create worktree at '' @ path @ '': '' @ e), w)
                | (None, w) \<Rightarrow> (Inr path, w))))"

section \<open>Predicates\<close>

text \<open>The boolean is whether the shared deadline has passed when the shell ends.\<close>

definition runExemption ::
  "'w outside \<Rightarrow> PreMergeExemption \<Rightarrow> string \<Rightarrow> string list \<Rightarrow> 'w \<Rightarrow> (string \<times> string) \<times> 'w" where
  "runExemption X e dir env w =
     (case o_shell X (NormalizeCommand (pe_Command e)) dir (env @ [''SPINCLASS_EXEMPTION='' @ pe_Name e]) w of
        ((ended, late, raw), w') \<Rightarrow>
          (let output = TrimSpace raw in
           if ended = CmdOk then (([], output), w')
           else if late then ((''timeout'', output), w')
           else (case ended of
               CmdExit n \<Rightarrow> ((''exit '' @ Itoa n, output), w')
             | CmdOther err \<Rightarrow> ((''spawn-failed: '' @ err, output), w')
             | CmdOk \<Rightarrow> (([], output), w'))))"

text \<open>The predicates in turn, until one exempts; else what each declined with.\<close>

fun run_exemptions ::
  "'w outside \<Rightarrow> string \<Rightarrow> string list \<Rightarrow> PreMergeExemption list \<Rightarrow> string list \<Rightarrow> 'w \<Rightarrow>
     (string list + PreMergeExemption) \<times> 'w" where
  "run_exemptions X dir env [] declined w = (Inl declined, w)"
| "run_exemptions X dir env (e # es) declined w =
     (case runExemption X e dir env w of
        ((verdict, out), w') \<Rightarrow>
          if verdict = [] then (Inr e, w')
          else run_exemptions X dir env es
                 (declined @ [pe_Name e @ '' ('' @ verdict @ '')'' @ (if out \<noteq> [] then '': '' @ tail_of out 400 else [])]) w')"

datatype policy_error = BaseUnresolved string | NoBaseWorktree string | NotExempt string

definition declined_message :: "string list \<Rightarrow> string" where
  "declined_message declined =
     (if length declined > 0 then ''declined: '' @ Join declined ''; '' else ''no predicate is declared at the merge base'')"

definition predicate_env :: "string \<Rightarrow> string \<Rightarrow> string \<Rightarrow> string \<Rightarrow> string \<Rightarrow> string \<Rightarrow> string \<Rightarrow> string list" where
  "predicate_env basePath base landingSha pinnedSha branch defaultBranch repoPath =
     [''WORKTREE='' @ basePath, ''SPINCLASS_MERGE_BASE='' @ base, ''SPINCLASS_LANDING_SHA='' @ landingSha,
      ''SPINCLASS_PINNED_SHA='' @ pinnedSha, ''SPINCLASS_MERGED_BRANCH='' @ branch,
      ''SPINCLASS_DEFAULT_BRANCH='' @ defaultBranch, ''SPINCLASS_REPO_PATH='' @ repoPath]"

definition base_exemptions :: "'w outside \<Rightarrow> string \<Rightarrow> 'w \<Rightarrow> PreMergeExemption list" where
  "base_exemptions X base w =
     (if o_home X \<noteq> [] then (case o_sweatfileAt X base w of Some sf \<Rightarrow> ActivePreMergeExemptions sf | None \<Rightarrow> []) else [])"

section \<open>The stage\<close>

record merge_shas =
  ms_repoPath :: string
  ms_branch :: string
  ms_defaultBranch :: string
  ms_targetRef :: string
  ms_pinned :: string
  ms_landing :: string
  ms_attested :: string

definition exempt_label :: "PreMergeExemption \<Rightarrow> string \<Rightarrow> string \<Rightarrow> string" where
  "exempt_label e base landing = policyLabel @ '': exempt ('' @ pe_Name e @ '') base='' @ shortSha base @ '' landing='' @ shortSha landing"

definition policy_failure :: "policy_error \<Rightarrow> point" where
  "policy_failure e = PointNotOk policyLabel (case e of BaseUnresolved m \<Rightarrow> m | NoBaseWorktree m \<Rightarrow> m | NotExempt m \<Rightarrow> m)"

definition runAttestationPolicy ::
  "'w outside \<Rightarrow> AttestationGate \<Rightarrow> Sweatfile \<Rightarrow> merge_shas \<Rightarrow> 'w \<Rightarrow> (policy_error option \<times> point list) \<times> 'w" where
  "runAttestationPolicy X gate session M w =
     (if length (ActivePreMergeSkills session) = 0 \<and> gate \<noteq> GateNeedsExemption then ((None, []), w)
      else case gate of
        GateTerminal \<Rightarrow> ((None, [PointSkip policyLabel PolicyTerminalBypassReason]), w)
      | GateAttested \<Rightarrow>
          ((None, [PointOk (attestedLabel (\<lambda>a p t. o_revList X a p t w) (ms_targetRef M) (ms_attested M) (ms_pinned M))]), w)
      | GateNeedsExemption \<Rightarrow>
          (case o_mergeBase X (ms_targetRef M) (ms_landing M) w of
             Inl e \<Rightarrow> (let err = BaseUnresolved e in ((Some err, [policy_failure err]), w))
           | Inr base \<Rightarrow>
               (case addTransientWorktree X (ms_repoPath M) ExemptWorktreePrefix (ms_branch M) base w of
                  (Inl e, w) \<Rightarrow> (let err = NoBaseWorktree e in ((Some err, [policy_failure err]), w))
                | (Inr basePath, w) \<Rightarrow>
                    (case run_exemptions X basePath
                            (predicate_env basePath base (ms_landing M) (ms_pinned M) (ms_branch M) (ms_defaultBranch M) (ms_repoPath M))
                            (base_exemptions X base w) [] w of
                       (Inr e, w) \<Rightarrow> ((None, [PointOk (exempt_label e base (ms_landing M))]), o_worktreeRemove X basePath w)
                     | (Inl declined, w) \<Rightarrow>
                         (let err = NotExempt (declined_message declined)
                          in ((Some err, [policy_failure err]), o_worktreeRemove X basePath w))))))"

section \<open>What the gate decides\<close>

text \<open>
  The gate admits a merge as attested exactly when it is dormant (no sweatfile loads, or none of
  its skills is active) or an attestation is buffered that no live claim holds; a merge without one is
  sent on to the exemptions exactly when the sweatfile declares an active one, and refused otherwise.
\<close>

theorem decideMergeGate_spec:
  "decideMergeGate m loaded sl =
   (case loaded of
      None \<Rightarrow> Inr GateAttested
    | Some sf \<Rightarrow>
        if ActivePreMergeSkills sf = [] then Inr GateAttested
        else case sl_state sl of
            SlotHeld st \<Rightarrow>
              (case s_PreMergeAttestation st of
                 None \<Rightarrow> if ActivePreMergeExemptions sf \<noteq> [] then Inr GateNeedsExemption else Inl NoneBuffered
               | Some a \<Rightarrow>
                   (case pa_Claim a of
                      None \<Rightarrow> Inr GateAttested
                    | Some c \<Rightarrow>
                        if \<not> IsAlive m (ac_PID c) then Inr GateAttested
                        else if ActivePreMergeExemptions sf \<noteq> [] then Inr GateNeedsExemption
                        else Inl (HeldByLive (ac_ClaimedAt c) (ac_PID c))))
          | _ \<Rightarrow> if ActivePreMergeExemptions sf \<noteq> [] then Inr GateNeedsExemption else Inl LoadFailure)"
  by (simp add: decideMergeGate_def peekGate_def Peek_def evaluate_def split: option.split slot_state.split)

section \<open>Who may land without an attestation\<close>

definition exempts :: "'w outside \<Rightarrow> PreMergeExemption \<Rightarrow> string \<Rightarrow> string list \<Rightarrow> 'w \<Rightarrow> bool" where
  "exempts X e dir env w \<longleftrightarrow>
     fst (fst (o_shell X (NormalizeCommand (pe_Command e)) dir (env @ [''SPINCLASS_EXEMPTION='' @ pe_Name e]) w)) = CmdOk"

lemma verdict_words: "''timeout'' \<noteq> []" "''exit '' @ s \<noteq> []" "''spawn-failed: '' @ s \<noteq> []"
  by simp_all

lemma runExemption_exempts: "fst (fst (runExemption X e dir env w)) = [] \<longleftrightarrow> exempts X e dir env w"
  unfolding runExemption_def exempts_def Let_def by (auto split: prod.split cmd_end.split)

lemma run_exemptions_vouched:
  "run_exemptions X dir env es declined w = (Inr e, w') \<Longrightarrow> e \<in> set es \<and> (\<exists>w1. exempts X e dir env w1)"
proof (induction es arbitrary: declined w)
  case (Cons f es)
  obtain verdict out w1 where r: "runExemption X f dir env w = ((verdict, out), w1)" by (metis surj_pair)
  show ?case
  proof (cases "verdict = []")
    case True
    with r have "exempts X f dir env w" using runExemption_exempts[of X f dir env w] by simp
    moreover have "e = f" using Cons.prems r True by simp
    ultimately show ?thesis by auto
  next
    case False
    with Cons r show ?thesis by (auto simp del: append_assoc)
  qed
qed simp

lemma base_exemptions_declared:
  "e \<in> set (base_exemptions X base w) \<Longrightarrow> \<exists>sf. o_sweatfileAt X base w = Some sf \<and> e \<in> set (ActivePreMergeExemptions sf)"
  by (cases "o_sweatfileAt X base w"; cases "o_home X = []") (simp_all add: base_exemptions_def)

text \<open>
  C20. A merge that was admitted for its exemptions gets past the stage only if a predicate vouched for
  it: one that the sweatfile committed at the merge base of the landing declares, run in a checkout of
  that base and exiting zero. What the session's hierarchy declares by then does not matter.
\<close>

theorem exempted_by_the_base:
  assumes "fst (runAttestationPolicy X GateNeedsExemption session M w) = (None, points)"
  shows "\<exists>base sf e w1 w2. o_mergeBase X (ms_targetRef M) (ms_landing M) w = Inr base \<and> o_sweatfileAt X base w1 = Some sf \<and>
    e \<in> set (ActivePreMergeExemptions sf) \<and>
    exempts X e (transient_path (ms_repoPath M) ExemptWorktreePrefix (ms_branch M) base (o_pid X))
      (predicate_env (transient_path (ms_repoPath M) ExemptWorktreePrefix (ms_branch M) base (o_pid X))
         base (ms_landing M) (ms_pinned M) (ms_branch M) (ms_defaultBranch M) (ms_repoPath M)) w2 \<and>
    points = [PointOk (exempt_label e base (ms_landing M))]"
proof -
  define path where "path = (\<lambda>base. transient_path (ms_repoPath M) ExemptWorktreePrefix (ms_branch M) base (o_pid X))"
  obtain base where base: "o_mergeBase X (ms_targetRef M) (ms_landing M) w = Inr base"
    using assms by (cases "o_mergeBase X (ms_targetRef M) (ms_landing M) w") (auto simp: runAttestationPolicy_def Let_def)
  obtain made w1 where made: "addTransientWorktree X (ms_repoPath M) ExemptWorktreePrefix (ms_branch M) base w = (made, w1)"
    by (metis surj_pair)
  have "made = Inr (path base)"
  proof (cases made)
    case (Inl e)
    with assms base made show ?thesis by (simp add: runAttestationPolicy_def Let_def)
  next
    case (Inr p)
    with made show ?thesis
      by (auto simp: addTransientWorktree_def Let_def path_def split: prod.splits option.splits)
  qed
  with made have made': "addTransientWorktree X (ms_repoPath M) ExemptWorktreePrefix (ms_branch M) base w = (Inr (path base), w1)" by simp
  define env where "env = predicate_env (path base) base (ms_landing M) (ms_pinned M) (ms_branch M) (ms_defaultBranch M) (ms_repoPath M)"
  obtain r w2 where r: "run_exemptions X (path base) env (base_exemptions X base w1) [] w1 = (r, w2)" by (metis surj_pair)
  then obtain e where e: "r = Inr e" "points = [PointOk (exempt_label e base (ms_landing M))]"
    using assms base made' by (cases r) (auto simp: runAttestationPolicy_def Let_def env_def)
  from r e(1) have "run_exemptions X (path base) env (base_exemptions X base w1) [] w1 = (Inr e, w2)" by simp
  note vouched = run_exemptions_vouched[OF this]
  have v1: "e \<in> set (base_exemptions X base w1)" by (rule conjunct1[OF vouched])
  obtain sf where sf: "o_sweatfileAt X base w1 = Some sf" "e \<in> set (ActivePreMergeExemptions sf)"
    using base_exemptions_declared[OF v1] by blast
  have "\<exists>w2. exempts X e (path base) env w2" by (rule conjunct2[OF vouched])
  with base sf e(2) show ?thesis unfolding path_def env_def by fast
qed

text \<open>
  The stage never fails or runs anything for a terminal merge or one admitted as attested: with a
  live gate it adds exactly one passing or skipped point, with a dormant one none.
\<close>

theorem admitted_merges_pass:
  assumes "gate \<noteq> GateNeedsExemption"
  shows "\<exists>points. runAttestationPolicy X gate session M w = ((None, points), w) \<and>
    length points = (if ActivePreMergeSkills session = [] then 0 else 1) \<and>
    list_all (\<lambda>p. case p of PointNotOk _ _ \<Rightarrow> False | _ \<Rightarrow> True) points"
  using assms by (cases gate) (simp_all add: runAttestationPolicy_def)

text \<open>
  A merge admitted while the gate was dormant claims nothing, and is still reported as attested
  where the hierarchy read at the landing has skills: no attestation stands behind that line.
\<close>

theorem dormant_admission_reads_attested:
  assumes "loaded = None \<or> ActivePreMergeSkills (the loaded) = []" "ActivePreMergeSkills session \<noteq> []"
    and "ms_attested M = tk_HeadSha zero_ticket"
  shows "decideMergeGate m loaded sl = Inr GateAttested \<and> holdGate m pid now loaded sl = (Claimed zero_ticket, sl) \<and>
    fst (runAttestationPolicy X GateAttested session M w) = (None, [PointOk (policyLabel @ '': attested'')])"
  using assms
  by (auto simp: decideMergeGate_def peekGate_def holdGate_def runAttestationPolicy_def attestedLabel_def zero_ticket_def
      split: option.split)

section \<open>The inline fallback and the attestation\<close>

text \<open>
  Settling a claim as not landed first, as the blocking merge does when its job cannot be started,
  frees the attestation for anybody, and the settlement that follows the landing no longer consumes it.
\<close>

theorem fallback_landing_keeps_attestation:
  assumes "Claim m pid now merged sl = (Claimed tk, sl')" "ActivePreMergeSkills merged \<noteq> []"
  shows "snd (Settle tk True (snd (Settle tk False sl'))) = snd (Settle tk False sl') \<and>
    attested (snd (Settle tk False sl')) \<noteq> None \<and> decideMergeGate m' (Some merged) (snd (Settle tk False sl')) = Inr GateAttested"
proof -
  from claim_holds[OF assms] obtain st a where held: "sl_state sl' = SlotHeld st" "sl_writable sl'" "s_PreMergeAttestation st = Some a"
    "pa_Claim a = Some \<lparr>ac_ID = tk_ClaimID tk, ac_PID = pid, ac_ClaimedAt = now\<rparr>" "tk_ClaimID tk \<noteq> []"
    using claim_id_nonempty by (auto simp: holds_claim_def live_slot_def)
  then have freed: "snd (Settle tk False sl') = sl'\<lparr>sl_state := SlotHeld (st\<lparr>s_PreMergeAttestation := Some (a\<lparr>pa_Claim := None\<rparr>)\<rparr>)\<rparr>"
    by (simp add: Settle_def slot_update_def)
  then have "snd (Settle tk True (snd (Settle tk False sl'))) = snd (Settle tk False sl')"
    by (intro Settle_other) (auto simp: attested_def)
  moreover have "Peek m' merged (snd (Settle tk False sl')) = None" by (simp add: freed Peek_def evaluate_def)
  ultimately show ?thesis by (simp add: freed attested_def decideMergeGate_def peekGate_def)
qed

section \<open>Concrete merges\<close>

definition exempting_sweatfile :: Sweatfile where
  "exempting_sweatfile =
     empty_Sweatfile\<lparr>sf_PreMergeExemptions := [\<lparr>pe_Name = ''docs'', pe_Command = ''only-docs''\<rparr>]\<rparr>"

definition sample_outside :: "unit outside" where
  "sample_outside =
     \<lparr>o_pid = 7, o_mkdirAll = (\<lambda>_ w. (None, w)), o_removeAll = (\<lambda>_ w. (None, w)), o_worktreeAdd = (\<lambda>_ _ w. (None, w)),
      o_worktreeRemove = (\<lambda>_ w. w), o_mergeBase = (\<lambda>_ _ _. Inr ''b1''), o_revList = (\<lambda>_ _ _ _. Inl ''bad revision''),
      o_home = ''/h'', o_sweatfileAt = (\<lambda>c _. if c = ''b1'' then Some exempting_sweatfile else None),
      o_shell = (\<lambda>_ _ _ w. ((CmdOk, False, []), w))\<rparr>"

definition sample_shas :: merge_shas where
  "sample_shas = \<lparr>ms_repoPath = ''/r'', ms_branch = ''w'', ms_defaultBranch = ''main'', ms_targetRef = ''refs/heads/main'',
     ms_pinned = ''p1'', ms_landing = ''l1'', ms_attested = []\<rparr>"

lemma exempting_active: "ActivePreMergeExemptions exempting_sweatfile = [\<lparr>pe_Name = ''docs'', pe_Command = ''only-docs''\<rparr>]"
  by code_simp

theorem exempted_by_the_base_witness:
  "\<exists>base sf e w1 w2. o_mergeBase sample_outside ''refs/heads/main'' ''l1'' () = Inr base \<and>
    o_sweatfileAt sample_outside base w1 = Some sf \<and> e \<in> set (ActivePreMergeExemptions sf) \<and>
    exempts sample_outside e (transient_path ''/r'' ExemptWorktreePrefix ''w'' base 7)
      (predicate_env (transient_path ''/r'' ExemptWorktreePrefix ''w'' base 7) base ''l1'' ''p1'' ''w'' ''main'' ''/r'') w2 \<and>
    [PointOk (exempt_label \<lparr>pe_Name = ''docs'', pe_Command = ''only-docs''\<rparr> ''b1'' ''l1'')] = [PointOk (exempt_label e base ''l1'')]"
proof -
  have "fst (runAttestationPolicy sample_outside GateNeedsExemption empty_Sweatfile sample_shas ()) =
      (None, [PointOk (exempt_label \<lparr>pe_Name = ''docs'', pe_Command = ''only-docs''\<rparr> ''b1'' ''l1'')])"
    by (simp add: runAttestationPolicy_def addTransientWorktree_def base_exemptions_def runExemption_def sample_outside_def
        sample_shas_def exempting_active Let_def)
  from exempted_by_the_base[OF this] show ?thesis by (simp add: sample_shas_def sample_outside_def)
qed

theorem admitted_merges_pass_witness:
  "\<exists>points. runAttestationPolicy sample_outside GateTerminal gated_sweatfile sample_shas () = ((None, points), ()) \<and>
    length points = (if ActivePreMergeSkills gated_sweatfile = [] then 0 else 1) \<and>
    list_all (\<lambda>p. case p of PointNotOk _ _ \<Rightarrow> False | _ \<Rightarrow> True) points"
  by (rule admitted_merges_pass) simp

theorem dormant_admission_reads_attested_witness:
  "decideMergeGate busy_machine None sample_slot = Inr GateAttested \<and>
   holdGate busy_machine 7 3 None sample_slot = (Claimed zero_ticket, sample_slot) \<and>
   fst (runAttestationPolicy sample_outside GateAttested gated_sweatfile sample_shas ()) = (None, [PointOk (policyLabel @ '': attested'')])"
  by (rule dormant_admission_reads_attested) (simp_all add: sample_gate sample_shas_def zero_ticket_def)

theorem fallback_landing_keeps_attestation_witness:
  "snd (Settle (claim_ticket 7 3 sample_attestation) True (snd (Settle (claim_ticket 7 3 sample_attestation) False claimed_slot))) =
     snd (Settle (claim_ticket 7 3 sample_attestation) False claimed_slot) \<and>
   attested (snd (Settle (claim_ticket 7 3 sample_attestation) False claimed_slot)) \<noteq> None \<and>
   decideMergeGate busy_machine (Some gated_sweatfile) (snd (Settle (claim_ticket 7 3 sample_attestation) False claimed_slot)) = Inr GateAttested"
  by (rule fallback_landing_keeps_attestation[OF sample_claim sample_gate])

end
