(* ===== verification/MergeSection.thy ===== *)
theory MergeSection
  imports MergePolicy GoUnicode GoClock
begin

text \<open>
  The post-merge section (\<open>src/internal/delta/merge/postmerge_section.go\<close>): everything a sweatfile says
  about what runs on the frontend after a landing, its canonical JSON and digest, and the rule that a
  merge changing it is refused unless an operator gave the digest. Also the choice of the targets
  (\<open>selectPostMergeTargets\<close> of \<open>merge.go\<close>) and the options of one merge (\<open>postmerge_options.go\<close>).
  \<open>sha256.Sum256\<close> and the sweatfile committed at a revision are parameters.
\<close>

section \<open>The section\<close>

record PostMergeSectionTarget =
  pst_Name :: string
  pst_Command :: string
  pst_Verify :: "string ptr"

record PostMergeSection =
  pms_LegacyHook :: "string ptr"
  pms_Timeout :: "string ptr"
  pms_Disabled :: bool
  pms_Targets :: "PostMergeSectionTarget list"

definition section_target :: "PostMergeTarget \<Rightarrow> PostMergeSectionTarget" where
  "section_target t = \<lparr>pst_Name = pt_Name t, pst_Command = pt_Command t, pst_Verify = pt_Verify t\<rparr>"

definition PostMergeSectionOf :: "Sweatfile \<Rightarrow> PostMergeSection" where
  "PostMergeSectionOf sf =
     \<lparr>pms_LegacyHook = PostMergeHookCommand sf,
      pms_Timeout = (case sf_Hooks sf of None \<Rightarrow> None | Some h \<Rightarrow> hk_PostMergeTimeout h),
      pms_Disabled = PostMergeDisabled sf,
      pms_Targets = map section_target (ActivePostMergeTargets sf)\<rparr>"

section \<open>Its canonical JSON\<close>

text \<open>How \<open>encoding/json\<close> writes a rune of a string, HTML escapes included; an invalid byte is U+FFFD.\<close>

definition hex_char :: "nat \<Rightarrow> char" where
  "hex_char n = (''0123456789abcdef'') ! (n mod 16)"

abbreviation backslash :: char where "backslash \<equiv> CHR 0x5C"
abbreviation quote :: char where "quote \<equiv> CHR 0x22"

definition json_byte :: "char \<Rightarrow> string" where
  "json_byte c =
     (if c = quote \<or> c = backslash then [backslash, c]
      else if c = CHR 0x08 then [backslash, CHR ''b'']
      else if c = CHR 0x0C then [backslash, CHR ''f'']
      else if c = newline then [backslash, CHR ''n'']
      else if c = CHR 0x0D then [backslash, CHR ''r'']
      else if c = CHR 0x09 then [backslash, CHR ''t'']
      else if c < CHR 0x20 \<or> c = CHR ''<'' \<or> c = CHR ''>'' \<or> c = CHR ''&''
        then backslash # ''u00'' @ [hex_char (of_char c div 16), hex_char (of_char c)]
      else if c \<le> CHR 0x7F then [c]
      else backslash # ''ufffd'')"

definition json_rune :: "string \<Rightarrow> string" where
  "json_rune r =
     (case r of
        [c] \<Rightarrow> json_byte c
      | _ \<Rightarrow>
          if r = [CHR 0xE2, CHR 0x80, CHR 0xA8] then backslash # ''u2028''
          else if r = [CHR 0xE2, CHR 0x80, CHR 0xA9] then backslash # ''u2029''
          else r)"

definition json_string :: "string \<Rightarrow> string" where
  "json_string s = quote # concat (map json_rune (runes s)) @ [quote]"

definition json_ptr :: "string ptr \<Rightarrow> string" where
  "json_ptr p = (case p of None \<Rightarrow> ''null'' | Some s \<Rightarrow> json_string s)"

definition json_bool :: "bool \<Rightarrow> string" where
  "json_bool b = (if b then ''true'' else ''false'')"

definition json_key :: "string \<Rightarrow> string" where
  "json_key k = quote # k @ [quote, CHR '':'']"

definition target_json :: "PostMergeSectionTarget \<Rightarrow> string" where
  "target_json t =
     ''{'' @ json_key ''name'' @ json_string (pst_Name t) @ '','' @ json_key ''command'' @ json_string (pst_Command t) @
     '','' @ json_key ''verify'' @ json_ptr (pst_Verify t) @ ''}''"

definition Canonical :: "PostMergeSection \<Rightarrow> string" where
  "Canonical s =
     ''{'' @ json_key ''legacy_hook'' @ json_ptr (pms_LegacyHook s) @ '','' @ json_key ''timeout'' @ json_ptr (pms_Timeout s) @
     '','' @ json_key ''disabled'' @ json_bool (pms_Disabled s) @ '','' @ json_key ''targets'' @
     ''['' @ Join (map target_json (pms_Targets s)) '','' @ '']'' @ ''}''"

definition hex_string :: "string \<Rightarrow> string" where
  "hex_string bs = concat (map (\<lambda>b. [hex_char (of_char b div 16), hex_char (of_char b)]) bs)"

definition Digest :: "(string \<Rightarrow> string) \<Rightarrow> PostMergeSection \<Rightarrow> string" where
  "Digest sum256 s = ''sha256:'' @ hex_string (sum256 (Canonical s))"

section \<open>What changed\<close>

definition byName :: "PostMergeSectionTarget list \<Rightarrow> string \<Rightarrow> PostMergeSectionTarget option" where
  "byName ts = map_of (map (\<lambda>t. (pst_Name t, t)) (rev ts))"

definition sorted_names :: "PostMergeSectionTarget list \<Rightarrow> string list" where
  "sorted_names ts = sort (remdups (map pst_Name ts))"

definition added_names :: "PostMergeSectionTarget list \<Rightarrow> PostMergeSectionTarget list \<Rightarrow> string list" where
  "added_names old cur = filter (\<lambda>n. byName old n = None) (sorted_names cur)"

definition target_changed :: "PostMergeSectionTarget option \<Rightarrow> PostMergeSectionTarget option \<Rightarrow> bool" where
  "target_changed old cur =
     (case (old, cur) of
        (Some a, Some b) \<Rightarrow> pst_Command a \<noteq> pst_Command b \<or> pst_Verify a \<noteq> pst_Verify b
      | _ \<Rightarrow> False)"

definition changed_names :: "PostMergeSectionTarget list \<Rightarrow> PostMergeSectionTarget list \<Rightarrow> string list" where
  "changed_names old cur = filter (\<lambda>n. target_changed (byName old n) (byName cur n)) (sorted_names cur)"

definition named_part :: "string \<Rightarrow> string list \<Rightarrow> string list" where
  "named_part label names = (if length names > 0 then [label @ '': '' @ Join names '', ''] else [])"

definition prefix_first :: "string \<Rightarrow> string list \<Rightarrow> string list" where
  "prefix_first p parts = (case parts of [] \<Rightarrow> [] | x # xs \<Rightarrow> (p @ x) # xs)"

definition ChangesFrom :: "PostMergeSection \<Rightarrow> PostMergeSection \<Rightarrow> string" where
  "ChangesFrom s tip =
     (let old = pms_Targets tip; cur = pms_Targets s;
          parts = prefix_first ''targets ''
              (named_part ''added'' (added_names old cur) @ named_part ''removed'' (added_names cur old) @
               named_part ''changed'' (changed_names old cur)) @
            (if pms_LegacyHook s \<noteq> pms_LegacyHook tip then [''legacy hook changed''] else []) @
            (if pms_Timeout s \<noteq> pms_Timeout tip then [''timeout changed''] else []) @
            (if pms_Disabled s \<noteq> pms_Disabled tip then [''disable-post-merge changed''] else [])
      in if length parts = 0 then ''no change'' else Join parts ''; '')"

section \<open>The rule\<close>

text \<open>The section at a commit, when a hierarchy loads there (\<open>None\<close> also where there is no home).\<close>

definition PostMergeSectionAt :: "(string \<Rightarrow> Sweatfile option) \<Rightarrow> string \<Rightarrow> PostMergeSection option" where
  "PostMergeSectionAt sweatfileAt commit = map_option PostMergeSectionOf (sweatfileAt commit)"

datatype section_verdict = SectionPasses "point list" | SectionRefused string

definition section_refusal :: "(string \<Rightarrow> string) \<Rightarrow> string \<Rightarrow> string \<Rightarrow> string \<Rightarrow> PostMergeSection \<Rightarrow> PostMergeSection \<Rightarrow> string" where
  "section_refusal sum256 branch landingSha accept tip merged =
     ''this merge changes the post-merge section, which runs commands on the frontend after landing; nothing landed'' @ [newline] @
     ''  default branch tip: '' @ Digest sum256 tip @ [newline] @
     ''  this merge ('' @ shortSha landingSha @ ''): '' @ Digest sum256 merged @ [newline] @
     (if accept \<noteq> [] then ''  the given digest '' @ accept @ '' does not match this merge's section digest'' @ [newline] else []) @
     ''  change: '' @ ChangesFrom merged tip @ [newline] @
     ''an operator must review and accept it at a terminal (agents cannot):'' @ [newline] @
     ''  sc merge --show-post-merge '' @ branch @ [newline] @
     ''  sc merge --accept-post-merge '' @ Digest sum256 merged @ '' '' @ branch"

definition requirePostMergeSectionAccepted ::
  "(string \<Rightarrow> string) \<Rightarrow> (string \<Rightarrow> Sweatfile option) \<Rightarrow> string \<Rightarrow> string \<Rightarrow> string \<Rightarrow> string \<Rightarrow> bool \<Rightarrow> section_verdict" where
  "requirePostMergeSectionAccepted sum256 sweatfileAt branch tipRef landingSha accept announce =
     (case PostMergeSectionAt sweatfileAt landingSha of
        None \<Rightarrow> SectionPasses []
      | Some merged \<Rightarrow>
          (let tip = (case PostMergeSectionAt sweatfileAt tipRef of None \<Rightarrow> PostMergeSectionOf empty_Sweatfile | Some t \<Rightarrow> t);
               label = ''post-merge section '' @ branch
           in if Digest sum256 tip = Digest sum256 merged then SectionPasses []
              else if accept = Digest sum256 merged
                then SectionPasses (if announce
                       then [PointOk (label @ '': changed post-merge section accepted ('' @ Digest sum256 merged @ '')'')] else [])
              else SectionRefused (section_refusal sum256 branch landingSha accept tip merged)))"

section \<open>Choosing targets\<close>

definition postMergeTargetNames :: "PostMergeTarget list \<Rightarrow> string" where
  "postMergeTargetNames ts = (if length ts = 0 then ''(none)'' else Join (map pt_Name ts) '', '')"

definition selectPostMergeTargets :: "PostMergeTarget list \<Rightarrow> string list option \<Rightarrow> string + PostMergeTarget list" where
  "selectPostMergeTargets active requested =
     (case requested of
        None \<Rightarrow> Inr active
      | Some names \<Rightarrow>
          (let unknown = filter (\<lambda>n. n \<notin> set (map pt_Name active)) names in
           if length unknown > 0
           then Inl (''unknown post-merge target(s): '' @ Join unknown '', '' @ '' (declared: '' @ postMergeTargetNames active @ '')'')
           else Inr (filter (\<lambda>t. pt_Name t \<in> set names) active)))"

text \<open>The parameter is the sweatfile at the pin: no home, unreadable, or read.\<close>

datatype pinned_sweatfile = NoHome | Unreadable string | ReadAt Sweatfile

definition validatePostMergeSelection :: "pinned_sweatfile \<Rightarrow> string \<Rightarrow> string list option \<Rightarrow> string option" where
  "validatePostMergeSelection at pinnedSha requested =
     (if requested = None then None
      else case at of
          Unreadable e \<Rightarrow> Some (''sweatfile at '' @ shortSha pinnedSha @ '' unreadable, cannot validate --post-merge-targets: '' @ e)
        | NoHome \<Rightarrow> (case selectPostMergeTargets [] requested of Inl e \<Rightarrow> Some e | Inr _ \<Rightarrow> None)
        | ReadAt sf \<Rightarrow> (case selectPostMergeTargets (ActivePostMergeTargets sf) requested of Inl e \<Rightarrow> Some e | Inr _ \<Rightarrow> None))"

definition splitCommaList :: "string \<Rightarrow> string list" where
  "splitCommaList s = filter (\<lambda>t. t \<noteq> []) (map TrimSpace (split1 (CHR '','') s))"

text \<open>A list flag that yields nothing gives a nil slice, which selects all.\<close>

definition TargetsFromFlags :: "bool \<Rightarrow> string \<Rightarrow> string list option" where
  "TargetsFromFlags noPostMerge targets =
     (if noPostMerge then Some []
      else if targets \<noteq> [] then (let ts = splitCommaList targets in if ts = [] then None else Some ts)
      else None)"

definition EffectiveTimeout :: "Duration option \<Rightarrow> Sweatfile \<Rightarrow> Duration" where
  "EffectiveTimeout cap sf = (case cap of Some d \<Rightarrow> d | None \<Rightarrow> PostMergeTimeoutValue sf)"

section \<open>The canonical JSON is unambiguous\<close>

text \<open>A reader of JSON string bodies: the bytes up to the closing quote, and what follows it.\<close>

definition unhex :: "char \<Rightarrow> nat" where
  "unhex c = (if CHR ''0'' \<le> c \<and> c \<le> CHR ''9'' then of_char c - 48 else of_char c - 87)"

fun unescape :: "string \<Rightarrow> (string \<times> string) option" where
  "unescape (c # cs) =
     (if c = CHR ''u'' then
        (case cs of
           a # b # d # e # rest \<Rightarrow>
             Some (if [a, b, d] = ''202'' then [CHR 0xE2, CHR 0x80, if e = CHR ''8'' then CHR 0xA8 else CHR 0xA9]
                   else [char_of (unhex d * 16 + unhex e)], rest)
         | _ \<Rightarrow> None)
      else Some ([if c = CHR ''b'' then CHR 0x08 else if c = CHR ''f'' then CHR 0x0C else if c = CHR ''n'' then newline
                  else if c = CHR ''r'' then CHR 0x0D else if c = CHR ''t'' then CHR 0x09 else c], cs))"
| "unescape [] = None"

lemma unescape_shorter: "unescape s = Some (b, t) \<Longrightarrow> length t < length s"
  by (cases s) (auto split: if_splits list.splits)

function unjson :: "string \<Rightarrow> (string \<times> string) option" where
  "unjson [] = None"
| "unjson (c # cs) =
     (if c = quote then Some ([], cs)
      else if c = backslash then
        (case unescape cs of
           None \<Rightarrow> None
         | Some (b, rest) \<Rightarrow> map_option (\<lambda>(s, r). (b @ s, r)) (unjson rest))
      else map_option (\<lambda>(s, r). (c # s, r)) (unjson cs))"
  by pat_completeness auto
termination by (relation "measure length") (auto dest!: unescape_shorter)

definition high :: "char \<Rightarrow> bool" where "high c \<longleftrightarrow> CHR 0x80 \<le> c"

lemma high_of: "high c \<longleftrightarrow> (128 :: nat) \<le> of_char c"
  by (simp add: high_def less_eq_char_def)

lemma not_low_high: "\<not> c \<le> CHR 0x7F \<Longrightarrow> high c"
  by (simp add: high_of less_eq_char_def)

lemma high_ranges:
  "byte_in (CHR 0x80) (CHR 0xBF) c \<Longrightarrow> high c" "byte_in (CHR 0xA0) (CHR 0xBF) c \<Longrightarrow> high c"
  "byte_in (CHR 0x80) (CHR 0x9F) c \<Longrightarrow> high c" "byte_in (CHR 0x90) (CHR 0xBF) c \<Longrightarrow> high c"
  "byte_in (CHR 0x80) (CHR 0x8F) c \<Longrightarrow> high c"
  by (simp_all add: byte_in_def high_of less_eq_char_def)

definition two_bytes :: "char \<Rightarrow> char \<Rightarrow> bool" where
  "two_bytes a b \<longleftrightarrow> byte_in (CHR 0xC2) (CHR 0xDF) a \<and> cont_byte b"

definition three_bytes :: "char \<Rightarrow> char \<Rightarrow> char \<Rightarrow> bool" where
  "three_bytes a b c \<longleftrightarrow>
     cont_byte c \<and>
     (a = CHR 0xE0 \<and> byte_in (CHR 0xA0) (CHR 0xBF) b \<or>
      a = CHR 0xED \<and> byte_in (CHR 0x80) (CHR 0x9F) b \<or>
      byte_in (CHR 0xE1) (CHR 0xEF) a \<and> a \<noteq> CHR 0xED \<and> cont_byte b)"

definition four_bytes :: "char \<Rightarrow> char \<Rightarrow> char \<Rightarrow> char \<Rightarrow> bool" where
  "four_bytes a b c d \<longleftrightarrow>
     cont_byte c \<and> cont_byte d \<and>
     (a = CHR 0xF0 \<and> byte_in (CHR 0x90) (CHR 0xBF) b \<or>
      byte_in (CHR 0xF1) (CHR 0xF3) a \<and> cont_byte b \<or>
      a = CHR 0xF4 \<and> byte_in (CHR 0x80) (CHR 0x8F) b)"

lemma rune_width_shape:
  "rune_width (a # t) =
     (if a \<le> CHR 0x7F then 1
      else case t of [] \<Rightarrow> 0 | b # u \<Rightarrow>
        if two_bytes a b then 2
        else case u of [] \<Rightarrow> 0 | c # v \<Rightarrow>
          if three_bytes a b c then 3 else case v of [] \<Rightarrow> 0 | d # _ \<Rightarrow> if four_bytes a b c d then 4 else 0)"
  by (simp only: rune_width_def two_bytes_def three_bytes_def four_bytes_def list.case)

lemma bytes_high: "two_bytes a b \<Longrightarrow> high b" "three_bytes a b c \<Longrightarrow> high b \<and> high c" "four_bytes a b c d \<Longrightarrow> high b \<and> high c \<and> high d"
  by (auto simp: two_bytes_def three_bytes_def four_bytes_def dest: high_ranges)

lemma rune_width_high: assumes "2 \<le> rune_width s" shows "list_all high (take (rune_width s) s) \<and> rune_width s \<le> length s"
proof -
  from assms obtain a t where s: "s = a # t" by (cases s) (auto simp: rune_width_def)
  with assms have a: "\<not> a \<le> CHR 0x7F" by (auto simp: rune_width_shape)
  note high = not_low_high[OF a]
  from assms s a obtain b u where t: "t = b # u" by (cases t) (auto simp: rune_width_shape)
  show ?thesis
  proof (cases "two_bytes a b")
    case True
    with high bytes_high(1)[OF True] show ?thesis by (simp add: s t a rune_width_shape)
  next
    case two: False
    with assms obtain c v where u: "u = c # v" by (cases u) (auto simp: s t a rune_width_shape)
    show ?thesis
    proof (cases "three_bytes a b c")
      case True
      with high two bytes_high(2)[OF True] show ?thesis by (simp add: s t u a rune_width_shape)
    next
      case three: False
      with two assms obtain d w where v: "v = d # w" by (cases v) (auto simp: s t u a rune_width_shape)
      with two three assms have four: "four_bytes a b c d" by (simp add: s t u a rune_width_shape split: if_splits)
      with high two three bytes_high(3)[OF four] show ?thesis by (simp add: s t u v a rune_width_shape)
    qed
  qed
qed

text \<open>A rune of a valid string is one ASCII byte, or bytes above them.\<close>

lemma valid_runes: "r \<in> set (runes s) \<Longrightarrow> rune_width r \<noteq> 0 \<Longrightarrow> (\<exists>c. r = [c] \<and> c \<le> CHR 0x7F) \<or> 2 \<le> length r \<and> list_all high r"
proof (induction s rule: runes.induct)
  case (2 c cs)
  show ?case
  proof (cases "r \<in> set (runes (drop (max 1 (rune_width (c # cs))) (c # cs)))")
    case True
    with 2 show ?thesis by blast
  next
    case False
    with 2(2) have r: "r = take (max 1 (rune_width (c # cs))) (c # cs)" by (simp add: runes.simps(2) Let_def)
    show ?thesis
    proof (cases "2 \<le> rune_width (c # cs)")
      case True
      with rune_width_high[OF this] r show ?thesis by (simp add: max_def)
    next
      case False
      then have "max 1 (rune_width (c # cs)) = 1" by simp
      with r have "r = [c]" by simp
      with 2(3) show ?thesis by (simp add: rune_width_def split: if_splits)
    qed
  qed
qed simp

lemma high_plain: "high c \<Longrightarrow> c \<noteq> quote \<and> c \<noteq> backslash"
  by (auto simp: high_def less_eq_char_def)

lemma unjson_high: "list_all high r \<Longrightarrow> unjson (r @ t) = map_option (\<lambda>(s, u). (r @ s, u)) (unjson t)"
  by (induction r) (auto simp: high_plain option.map_comp comp_def case_prod_beta map_option_case split: option.split)

lemma hex_pair_nat: "list_all (\<lambda>n. unhex (hex_char (n div 16)) * 16 + unhex (hex_char n) = n) [0..<128]"
  by code_simp

lemma hex_pair:
  fixes c :: char
  assumes "c \<le> CHR 0x7F"
  shows "char_of (unhex (hex_char (of_char c div 16)) * 16 + unhex (hex_char (of_char c))) = c"
proof -
  from assms have "(of_char c :: nat) < 128" by (simp add: less_eq_char_def)
  with hex_pair_nat have "unhex (hex_char (of_char c div 16)) * 16 + unhex (hex_char (of_char c)) = of_char c"
    by (simp add: list_all_iff)
  then show ?thesis by simp
qed

lemma unescape_hex:
  "c \<le> CHR 0x7F \<Longrightarrow> unescape (''u00'' @ [hex_char (of_char c div 16), hex_char (of_char c)] @ t) = Some ([c], t)"
  using hex_pair[of c] by simp

lemma unjson_plain: "c \<noteq> quote \<Longrightarrow> c \<noteq> backslash \<Longrightarrow> unjson (c # t) = map_option (\<lambda>(s, u). (c # s, u)) (unjson t)"
  by simp

lemma unjson_escape: "unescape (e @ t) = Some (b, t) \<Longrightarrow> unjson (backslash # e @ t) = map_option (\<lambda>(s, u). (b @ s, u)) (unjson t)"
  by simp

lemma unjson_byte:
  assumes "c \<le> CHR 0x7F"
  shows "unjson (json_byte c @ t) = map_option (\<lambda>(s, u). (c # s, u)) (unjson t)"
proof -
  consider "c = quote" | "c = backslash" | "c = CHR 0x08" | "c = CHR 0x0C" | "c = newline" | "c = CHR 0x0D" | "c = CHR 0x09"
    | "json_byte c = backslash # ''u00'' @ [hex_char (of_char c div 16), hex_char (of_char c)]"
    | "c \<noteq> quote" "c \<noteq> backslash" "json_byte c = [c]"
    using assms unfolding json_byte_def by presburger
  then show ?thesis
  proof cases
    case 8
    with unjson_escape[of "''u00'' @ [hex_char (of_char c div 16), hex_char (of_char c)]" t "[c]"] unescape_hex[OF assms, of t]
    show ?thesis by (simp del: unescape.simps unjson.simps)
  next
    case 9
    then show ?thesis by (simp only: append.simps) (rule unjson_plain)
  qed (simp_all add: json_byte_def)
qed

definition plain_rune :: "string \<Rightarrow> bool" where
  "plain_rune r \<longleftrightarrow> (\<exists>c. r = [c] \<and> c \<le> CHR 0x7F) \<or> 2 \<le> length r \<and> list_all high r"

lemma unjson_rune: assumes "plain_rune r" shows "unjson (json_rune r @ t) = map_option (\<lambda>(s, u). (r @ s, u)) (unjson t)"
proof (cases "2 \<le> length r \<and> list_all high r")
  case r: True
  show ?thesis
  proof (cases "r = [CHR 0xE2, CHR 0x80, CHR 0xA8] \<or> r = [CHR 0xE2, CHR 0x80, CHR 0xA9]")
    case True
    then show ?thesis by (auto simp: json_rune_def)
  next
    case False
    with r have "json_rune r = r" by (auto simp: json_rune_def split: list.split)
    with r unjson_high show ?thesis by simp
  qed
next
  case False
  with assms obtain c where c: "r = [c]" "c \<le> CHR 0x7F" unfolding plain_rune_def by blast
  have "json_rune r = json_byte c" by (simp add: json_rune_def c(1))
  with unjson_byte[OF c(2), of t] c(1) show ?thesis by (simp only: append.simps)
qed

text \<open>Reading back what was written.\<close>

lemma unjson_runes: "list_all plain_rune rs \<Longrightarrow> unjson (concat (map json_rune rs) @ quote # t) = Some (concat rs, t)"
proof (induction rs)
  case (Cons r rs)
  then have "unjson (json_rune r @ (concat (map json_rune rs) @ quote # t)) = Some (r @ concat rs, t)"
    by (subst unjson_rune) simp_all
  then show ?case by simp
qed simp

lemma unjson_string: "ValidString s \<Longrightarrow> unjson (concat (map json_rune (runes s)) @ quote # t) = Some (s, t)"
proof -
  assume "ValidString s"
  then have "list_all plain_rune (runes s)"
    using valid_runes unfolding ValidString_def list_all_iff[of _ "runes s"] plain_rune_def by blast
  from unjson_runes[OF this, of t] show ?thesis by (simp add: concat_runes)
qed

lemma json_string_prefix: assumes "ValidString s" "ValidString t" "json_string s @ x = json_string t @ y" shows "s = t \<and> x = y"
proof -
  from assms(3) have "concat (map json_rune (runes s)) @ quote # x = concat (map json_rune (runes t)) @ quote # y"
    by (simp add: json_string_def)
  then have "unjson (concat (map json_rune (runes s)) @ quote # x) = unjson (concat (map json_rune (runes t)) @ quote # y)"
    by (rule arg_cong)
  then show ?thesis unfolding unjson_string[OF assms(1)] unjson_string[OF assms(2)] by simp
qed

definition valid_ptr :: "string ptr \<Rightarrow> bool" where
  "valid_ptr p = (case p of None \<Rightarrow> True | Some s \<Rightarrow> ValidString s)"

lemma json_ptr_heads: "''null'' @ x \<noteq> json_string s @ y"
  by (simp add: json_string_def)

lemma json_ptr_prefix: assumes "valid_ptr p" "valid_ptr q" "json_ptr p @ x = json_ptr q @ y" shows "p = q \<and> x = y"
proof (cases p)
  case None
  show ?thesis
  proof (cases q)
    case None
    with \<open>p = None\<close> assms(3) show ?thesis by (simp add: json_ptr_def)
  next
    case (Some s)
    with None assms(3) json_ptr_heads[of x s y] show ?thesis by (simp add: json_ptr_def)
  qed
next
  case (Some s)
  show ?thesis
  proof (cases q)
    case None
    with Some assms(3) json_ptr_heads[of y s x] show ?thesis by (simp add: json_ptr_def)
  next
    case (Some t)
    with \<open>p = Some s\<close> assms json_string_prefix[of s t x y] show ?thesis by (simp add: json_ptr_def valid_ptr_def)
  qed
qed

lemma json_bool_prefix: "json_bool b @ x = json_bool c @ y \<Longrightarrow> b = c \<and> x = y"
  by (cases b; cases c) (simp_all add: json_bool_def)

definition valid_target :: "PostMergeSectionTarget \<Rightarrow> bool" where
  "valid_target t \<longleftrightarrow> ValidString (pst_Name t) \<and> ValidString (pst_Command t) \<and> valid_ptr (pst_Verify t)"

lemma target_json_prefix:
  assumes "valid_target t" "valid_target u" "target_json t @ x = target_json u @ y"
  shows "t = u \<and> x = y"
proof -
  from assms(3) have "json_string (pst_Name t) @ '','' @ json_key ''command'' @ json_string (pst_Command t) @
       '','' @ json_key ''verify'' @ json_ptr (pst_Verify t) @ ''}'' @ x =
     json_string (pst_Name u) @ '','' @ json_key ''command'' @ json_string (pst_Command u) @
       '','' @ json_key ''verify'' @ json_ptr (pst_Verify u) @ ''}'' @ y"
    by (simp add: target_json_def)
  from json_string_prefix[OF _ _ this] assms(1,2) have n: "pst_Name t = pst_Name u"
    "json_string (pst_Command t) @ '','' @ json_key ''verify'' @ json_ptr (pst_Verify t) @ ''}'' @ x =
     json_string (pst_Command u) @ '','' @ json_key ''verify'' @ json_ptr (pst_Verify u) @ ''}'' @ y"
    by (simp_all add: valid_target_def)
  from json_string_prefix[OF _ _ n(2)] assms(1,2) have c: "pst_Command t = pst_Command u"
    "json_ptr (pst_Verify t) @ ''}'' @ x = json_ptr (pst_Verify u) @ ''}'' @ y"
    by (simp_all add: valid_target_def)
  from json_ptr_prefix[OF _ _ c(2)] assms(1,2) n(1) c(1) show ?thesis by (simp add: valid_target_def)
qed

lemma Join_concat: "Join (x # xs) sep = x @ concat (map (\<lambda>y. sep @ y) xs)"
  by (induction xs arbitrary: x) simp_all

definition more_targets :: "PostMergeSectionTarget list \<Rightarrow> string" where
  "more_targets ts = concat (map (\<lambda>t. '','' @ target_json t) ts)"

lemma more_targets_simps:
  "more_targets [] = []" "more_targets (t # ts) @ x = CHR '','' # target_json t @ more_targets ts @ x"
  by (simp_all add: more_targets_def)

lemma more_targets_prefix:
  "list_all valid_target ts \<Longrightarrow> list_all valid_target us \<Longrightarrow> more_targets ts @ CHR '']'' # x = more_targets us @ CHR '']'' # y \<Longrightarrow>
   ts = us \<and> x = y"
proof (induction ts arbitrary: us)
  case Nil
  then show ?case by (cases us) (simp_all add: more_targets_simps)
next
  case (Cons t ts)
  then obtain u us' where us: "us = u # us'" by (cases us) (auto simp: more_targets_simps)
  with Cons.prems have "target_json t @ more_targets ts @ CHR '']'' # x = target_json u @ more_targets us' @ CHR '']'' # y"
    by (simp add: more_targets_simps)
  from target_json_prefix[OF _ _ this] Cons.prems us have "t = u" "more_targets ts @ CHR '']'' # x = more_targets us' @ CHR '']'' # y"
    by simp_all
  with Cons us show ?case by simp
qed

lemma targets_json: "Join (map target_json ts) '','' = (case ts of [] \<Rightarrow> [] | t # ts \<Rightarrow> target_json t @ more_targets ts)"
  by (cases ts) (simp_all add: Join_concat more_targets_def comp_def del: Join.simps(3))

lemma target_json_head: "\<exists>r. target_json t = CHR ''{'' # r"
  by (simp add: target_json_def)

lemma targets_prefix:
  assumes "list_all valid_target ts" "list_all valid_target us"
    "Join (map target_json ts) '','' @ CHR '']'' # x = Join (map target_json us) '','' @ CHR '']'' # y"
  shows "ts = us \<and> x = y"
proof (cases ts)
  case Nil
  with assms(3) show ?thesis
  proof (cases us)
    case Nil
    with \<open>ts = []\<close> assms(3) show ?thesis by (simp add: targets_json)
  next
    case (Cons u us')
    obtain r where r: "target_json u = CHR ''{'' # r" using target_json_head by blast
    have "CHR '']'' # x = target_json u @ more_targets us' @ CHR '']'' # y"
      using assms(3) unfolding targets_json \<open>ts = []\<close> Cons by simp
    with r show ?thesis by simp
  qed
next
  case (Cons t ts')
  show ?thesis
  proof (cases us)
    case Nil
    obtain r where r: "target_json t = CHR ''{'' # r" using target_json_head by blast
    have "target_json t @ more_targets ts' @ CHR '']'' # x = CHR '']'' # y"
      using assms(3) unfolding targets_json Nil Cons by simp
    with r show ?thesis by simp
  next
    case (Cons u us')
    have "target_json t @ more_targets ts' @ CHR '']'' # x = target_json u @ more_targets us' @ CHR '']'' # y"
      using assms(3) unfolding targets_json \<open>ts = t # ts'\<close> Cons by simp
    from target_json_prefix[OF _ _ this] assms(1,2) Cons \<open>ts = t # ts'\<close>
    have "t = u" "more_targets ts' @ CHR '']'' # x = more_targets us' @ CHR '']'' # y" by simp_all
    with more_targets_prefix[OF _ _ this(2)] assms(1,2) Cons \<open>ts = t # ts'\<close> show ?thesis by simp
  qed
qed

definition valid_section :: "PostMergeSection \<Rightarrow> bool" where
  "valid_section s \<longleftrightarrow> valid_ptr (pms_LegacyHook s) \<and> valid_ptr (pms_Timeout s) \<and> list_all valid_target (pms_Targets s)"

lemma Canonical_inj:
  assumes "valid_section s" "valid_section t" "Canonical s = Canonical t"
  shows "s = t"
proof -
  from assms(3) have "json_ptr (pms_LegacyHook s) @ '','' @ json_key ''timeout'' @ json_ptr (pms_Timeout s) @
     '','' @ json_key ''disabled'' @ json_bool (pms_Disabled s) @ '','' @ json_key ''targets'' @
     ''['' @ Join (map target_json (pms_Targets s)) '','' @ '']'' @ ''}'' =
     json_ptr (pms_LegacyHook t) @ '','' @ json_key ''timeout'' @ json_ptr (pms_Timeout t) @
     '','' @ json_key ''disabled'' @ json_bool (pms_Disabled t) @ '','' @ json_key ''targets'' @
     ''['' @ Join (map target_json (pms_Targets t)) '','' @ '']'' @ ''}''"
    by (simp add: Canonical_def)
  from json_ptr_prefix[OF _ _ this] assms(1,2) have l: "pms_LegacyHook s = pms_LegacyHook t"
    "json_ptr (pms_Timeout s) @ '','' @ json_key ''disabled'' @ json_bool (pms_Disabled s) @ '','' @ json_key ''targets'' @
     ''['' @ Join (map target_json (pms_Targets s)) '','' @ '']'' @ ''}'' =
     json_ptr (pms_Timeout t) @ '','' @ json_key ''disabled'' @ json_bool (pms_Disabled t) @ '','' @ json_key ''targets'' @
     ''['' @ Join (map target_json (pms_Targets t)) '','' @ '']'' @ ''}''"
    by (simp_all add: valid_section_def)
  from json_ptr_prefix[OF _ _ l(2)] assms(1,2) have m: "pms_Timeout s = pms_Timeout t"
    "json_bool (pms_Disabled s) @ '','' @ json_key ''targets'' @ ''['' @ Join (map target_json (pms_Targets s)) '','' @ '']'' @ ''}'' =
     json_bool (pms_Disabled t) @ '','' @ json_key ''targets'' @ ''['' @ Join (map target_json (pms_Targets t)) '','' @ '']'' @ ''}''"
    by (simp_all add: valid_section_def)
  from json_bool_prefix[OF m(2)] have d: "pms_Disabled s = pms_Disabled t"
    "Join (map target_json (pms_Targets s)) '','' @ CHR '']'' # ''}'' = Join (map target_json (pms_Targets t)) '','' @ CHR '']'' # ''}''"
    by (simp_all add: json_key_def)
  from targets_prefix[OF _ _ d(2)] assms(1,2) l(1) m(1) d(1) show ?thesis by (simp add: valid_section_def)
qed

lemma hex_char_mod: "hex_char m = hex_char n \<Longrightarrow> m mod 16 = n mod 16"
proof -
  assume eq: "hex_char m = hex_char n"
  have "list_all (\<lambda>a. list_all (\<lambda>b. hex_char a = hex_char b \<longrightarrow> a = b) [0..<16]) [0..<16]" by code_simp
  then have "hex_char (m mod 16) = hex_char (n mod 16) \<longrightarrow> m mod 16 = n mod 16" by (simp only: list_all_iff) simp
  with eq show ?thesis by (simp add: hex_char_def)
qed

lemma hex_char_pair:
  assumes "a < 256" "b < 256" "hex_char (a div 16) = hex_char (b div 16)" "hex_char a = hex_char b"
  shows "a = b"
proof -
  have "a div 16 = b div 16" using hex_char_mod[OF assms(3)] assms(1,2) by (simp add: less_mult_imp_div_less)
  with hex_char_mod[OF assms(4)] show ?thesis by (metis div_mult_mod_eq)
qed

lemma hex_string_inj: "hex_string a = hex_string b \<Longrightarrow> a = b"
proof (induction a arbitrary: b)
  case Nil
  then show ?case by (cases b) (simp_all add: hex_string_def)
next
  case (Cons x a)
  then obtain y b' where b: "b = y # b'" by (cases b) (simp_all add: hex_string_def)
  with Cons.prems have "hex_char (of_char x div 16) = hex_char (of_char y div 16)" "hex_char (of_char x) = hex_char (of_char y)"
    "hex_string a = hex_string b'" by (simp_all add: hex_string_def)
  moreover have "(of_char x :: nat) < 256" "(of_char y :: nat) < 256" by (simp_all add: nat_of_char_less_256)
  ultimately have "(of_char x :: nat) = of_char y" "a = b'" using hex_char_pair Cons.IH by blast+
  with b show ?case by simp
qed

section \<open>The rule, and the choice of targets\<close>

definition tip_section :: "(string \<Rightarrow> Sweatfile option) \<Rightarrow> string \<Rightarrow> PostMergeSection" where
  "tip_section sweatfileAt tipRef =
     (case PostMergeSectionAt sweatfileAt tipRef of None \<Rightarrow> PostMergeSectionOf empty_Sweatfile | Some t \<Rightarrow> t)"

lemma section_pass_digest:
  assumes "requirePostMergeSectionAccepted sum256 sweatfileAt branch tipRef landingSha accept announce = SectionPasses points"
    and "sweatfileAt landingSha = Some sf"
  shows "Digest sum256 (tip_section sweatfileAt tipRef) = Digest sum256 (PostMergeSectionOf sf) \<or> accept = Digest sum256 (PostMergeSectionOf sf)"
  using assms
  by (simp add: requirePostMergeSectionAccepted_def PostMergeSectionAt_def tip_section_def Let_def split: if_splits)

text \<open>
  What a landing would run on the frontend is what the default branch already declares, or what an
  operator confirmed: a merge whose landed sweatfile loads passes the rule only if its section (every
  target, the legacy hook, the cap and the disable flag) is the tip's, or the digest given is exactly
  that section's. It needs SHA-256 not to collide on the two sections, and their text to be UTF-8.
\<close>

theorem post_merge_change_needs_the_digest:
  assumes "requirePostMergeSectionAccepted sum256 sweatfileAt branch tipRef landingSha accept announce = SectionPasses points"
    and "sweatfileAt landingSha = Some sf" "valid_section (PostMergeSectionOf sf)" "valid_section (tip_section sweatfileAt tipRef)"
    and "inj_on sum256 {Canonical (PostMergeSectionOf sf), Canonical (tip_section sweatfileAt tipRef)}"
  shows "PostMergeSectionOf sf = tip_section sweatfileAt tipRef \<or> accept = Digest sum256 (PostMergeSectionOf sf)"
proof -
  have "Digest sum256 (tip_section sweatfileAt tipRef) = Digest sum256 (PostMergeSectionOf sf) \<or> accept = Digest sum256 (PostMergeSectionOf sf)"
    using assms(1,2) by (rule section_pass_digest)
  moreover have "PostMergeSectionOf sf = tip_section sweatfileAt tipRef"
    if "Digest sum256 (tip_section sweatfileAt tipRef) = Digest sum256 (PostMergeSectionOf sf)"
  proof -
    from that have "sum256 (Canonical (tip_section sweatfileAt tipRef)) = sum256 (Canonical (PostMergeSectionOf sf))"
      by (simp add: Digest_def hex_string_inj)
    from inj_onD[OF assms(5) this] have "Canonical (PostMergeSectionOf sf) = Canonical (tip_section sweatfileAt tipRef)" by simp
    then show ?thesis by (rule Canonical_inj[OF assms(3,4)])
  qed
  ultimately show ?thesis by blast
qed

text \<open>
  An explicit selection deploys exactly the active targets it names, in declaration order, and fails
  exactly when it names one that is not active; no selection deploys all of them, an empty one none.
\<close>

theorem selectPostMergeTargets_spec:
  "case selectPostMergeTargets active requested of
     Inl _ \<Rightarrow> \<exists>names. requested = Some names \<and> (\<exists>n \<in> set names. n \<notin> pt_Name ` set active)
   | Inr chosen \<Rightarrow>
       (requested = None \<and> chosen = active \<or>
        (\<exists>names. requested = Some names \<and> set names \<subseteq> pt_Name ` set active \<and> pt_Name ` set chosen = set names \<and>
           chosen = filter (\<lambda>t. pt_Name t \<in> set names) active))"
proof (cases requested)
  case None
  then show ?thesis by (simp add: selectPostMergeTargets_def)
next
  case (Some names)
  show ?thesis
  proof (cases "filter (\<lambda>n. n \<notin> set (map pt_Name active)) names = []")
    case True
    then have "set names \<subseteq> pt_Name ` set active" by (auto simp: filter_empty_conv)
    with Some True show ?thesis by (auto simp: selectPostMergeTargets_def)
  next
    case False
    then have "\<exists>n \<in> set names. n \<notin> pt_Name ` set active" by (auto simp: filter_empty_conv)
    with Some False show ?thesis by (simp add: selectPostMergeTargets_def Let_def)
  qed
qed

text \<open>A list flag of separators only is no selection, so it deploys every target.\<close>

lemma blank_list_selects_all:
  "TargetsFromFlags False '','' = None" "selectPostMergeTargets active (TargetsFromFlags False '','') = Inr active"
proof -
  show "TargetsFromFlags False '','' = None" by code_simp
  then show "selectPostMergeTargets active (TargetsFromFlags False '','') = Inr active"
    by (simp add: selectPostMergeTargets_def)
qed

section \<open>A changed section\<close>

definition deploying_sweatfile :: Sweatfile where
  "deploying_sweatfile =
     empty_Sweatfile\<lparr>sf_PostMerge := [\<lparr>pt_Name = ''site'', pt_Command = ''deploy'', pt_Verify = None\<rparr>]\<rparr>"

theorem post_merge_change_needs_the_digest_witness:
  "PostMergeSectionOf deploying_sweatfile = tip_section (\<lambda>c. if c = ''l1'' then Some deploying_sweatfile else None) ''tip'' \<or>
   Digest id (PostMergeSectionOf deploying_sweatfile) = Digest id (PostMergeSectionOf deploying_sweatfile)"
proof (rule post_merge_change_needs_the_digest)
  show "requirePostMergeSectionAccepted id (\<lambda>c. if c = ''l1'' then Some deploying_sweatfile else None) ''w'' ''tip'' ''l1''
      (Digest id (PostMergeSectionOf deploying_sweatfile)) False = SectionPasses []"
    by (simp add: requirePostMergeSectionAccepted_def PostMergeSectionAt_def Let_def)
  show "valid_section (PostMergeSectionOf deploying_sweatfile)" by code_simp
  have "tip_section (\<lambda>c. if c = ''l1'' then Some deploying_sweatfile else None) ''tip'' = PostMergeSectionOf empty_Sweatfile"
    by (simp add: tip_section_def PostMergeSectionAt_def)
  moreover have "valid_section (PostMergeSectionOf empty_Sweatfile)" by code_simp
  ultimately show "valid_section (tip_section (\<lambda>c. if c = ''l1'' then Some deploying_sweatfile else None) ''tip'')" by simp
qed simp_all

end
