(* ===== verification/Landing.thy ===== *)
theory Landing
  imports Prelude
begin

text \<open>
  Where a merge lands (\<open>src/internal/alfa/landing/landing.go\<close>): the target of a merge, and the one
  primitive behind landing on it and advancing the local default branch, a fast-forward that never
  rewinds. What git reports and does is a parameter over a world it changes.
\<close>

section \<open>Git\<close>

text \<open>
  A failed command has a message. \<open>mergeFF\<close> is \<open>git merge --ff-only\<close> in a worktree, with its output;
  \<open>branchWorktree\<close> is the worktree that has a branch checked out, empty when none does.
\<close>

record 'w git =
  g_revParse :: "string \<Rightarrow> 'w \<Rightarrow> string option"
  g_isAncestor :: "string \<Rightarrow> string \<Rightarrow> 'w \<Rightarrow> bool"
  g_branchWorktree :: "string \<Rightarrow> 'w \<Rightarrow> string + string"
  g_branchSetTo :: "string \<Rightarrow> string \<Rightarrow> 'w \<Rightarrow> string option \<times> 'w"
  g_mergeFF :: "string \<Rightarrow> string \<Rightarrow> 'w \<Rightarrow> (string \<times> string option) \<times> 'w"
  g_hasDirty :: "string \<Rightarrow> 'w \<Rightarrow> bool"
  g_branchRemote :: "string \<Rightarrow> 'w \<Rightarrow> string"
  g_defaultBranch :: "'w \<Rightarrow> string option"
  g_fetch :: "string \<Rightarrow> string \<Rightarrow> string \<Rightarrow> 'w \<Rightarrow> (string \<times> string option) \<times> 'w"
  g_pushRef :: "string \<Rightarrow> string \<Rightarrow> string \<Rightarrow> string \<Rightarrow> 'w \<Rightarrow> (string \<times> string option) \<times> 'w"

section \<open>Targets\<close>

record Target =
  t_RepoPath :: string
  t_Branch :: string
  t_Remote :: string

definition RemoteTarget :: "string \<Rightarrow> string \<Rightarrow> string \<Rightarrow> Target" where
  "RemoteTarget repoPath branch remote = \<lparr>t_RepoPath = repoPath, t_Branch = branch, t_Remote = remote\<rparr>"

definition SelfTarget :: "string \<Rightarrow> string \<Rightarrow> Target" where
  "SelfTarget repoPath branch = \<lparr>t_RepoPath = repoPath, t_Branch = branch, t_Remote = []\<rparr>"

definition ForMerge :: "('w, 'x) git_scheme \<Rightarrow> 'w \<Rightarrow> string \<Rightarrow> string \<Rightarrow> bool \<Rightarrow> Target" where
  "ForMerge G w repoPath branch gitSync =
     (if \<not> gitSync then SelfTarget repoPath branch else RemoteTarget repoPath branch (g_branchRemote G branch w))"

definition IsSelf :: "Target \<Rightarrow> bool" where "IsSelf t \<longleftrightarrow> t_Remote t = []"

definition local_ref :: "string \<Rightarrow> string" where "local_ref branch = ''refs/heads/'' @ branch"

definition LocalRef :: "Target \<Rightarrow> string" where "LocalRef t = local_ref (t_Branch t)"

definition TargetRef :: "Target \<Rightarrow> string" where
  "TargetRef t = (if IsSelf t then LocalRef t else ''refs/remotes/'' @ t_Remote t @ ''/'' @ t_Branch t)"

definition TargetLabel :: "Target \<Rightarrow> string" where
  "TargetLabel t = (if IsSelf t then t_Branch t else t_Remote t @ ''/'' @ t_Branch t)"

definition DefaultBranchRef :: "('w, 'x) git_scheme \<Rightarrow> 'w \<Rightarrow> string \<Rightarrow> string option" where
  "DefaultBranchRef G w repoPath =
     (case g_defaultBranch G w of
        None \<Rightarrow> None
      | Some name \<Rightarrow>
          (let ref = TargetRef (ForMerge G w repoPath name True)
           in Some (if g_revParse G ref w = None then TargetRef (SelfTarget repoPath name) else ref)))"

definition FetchTarget :: "('w, 'x) git_scheme \<Rightarrow> Target \<Rightarrow> string \<Rightarrow> 'w \<Rightarrow> (string \<times> string option) \<times> 'w" where
  "FetchTarget G t credDir w = (if IsSelf t then (([], None), w) else g_fetch G credDir (t_Remote t) (t_Branch t) w)"

section \<open>The fast-forward\<close>

datatype Outcome = Advanced | Current | Ahead | Diverged | Blocked | FailedAdvance

text \<open>The order of the constants.\<close>

definition outcome_rank :: "Outcome \<Rightarrow> nat" where
  "outcome_rank x = (case x of Advanced \<Rightarrow> 0 | Current \<Rightarrow> 1 | Ahead \<Rightarrow> 2 | Diverged \<Rightarrow> 3 | Blocked \<Rightarrow> 4 | FailedAdvance \<Rightarrow> 5)"

record Advance =
  adv_Outcome :: Outcome
  adv_Branch :: string
  adv_To :: string
  adv_Holder :: string
  adv_Reason :: string
  adv_Reconcile :: string
  adv_Detail :: string
  adv_Dirty :: bool

definition Skipped :: "Advance \<Rightarrow> bool" where "Skipped a \<longleftrightarrow> outcome_rank (adv_Outcome a) \<ge> outcome_rank Ahead"

definition SkipSlug :: "Advance \<Rightarrow> string" where
  "SkipSlug a =
     (if \<not> Skipped a then []
      else if adv_Outcome a = Ahead then ''ahead''
      else if adv_Outcome a = Diverged then ''diverged''
      else if adv_Outcome a = Blocked \<and> adv_Dirty a then ''dirty_overlap''
      else ''error'')"

definition ManPage :: string where "ManPage = ''spinclass-local-default-ref(7)''"

definition SkipReason :: "Advance \<Rightarrow> string" where
  "SkipReason a =
     (adv_Reason a @ (if adv_Reconcile a \<noteq> [] then ''; reconcile: '' @ adv_Reconcile a else [])) @ '' (see '' @ ManPage @ '')''"

definition new_advance :: "string \<Rightarrow> string \<Rightarrow> Advance" where
  "new_advance branch to =
     \<lparr>adv_Outcome = Advanced, adv_Branch = branch, adv_To = to, adv_Holder = [], adv_Reason = [], adv_Reconcile = [],
      adv_Detail = [], adv_Dirty = False\<rparr>"

definition fastForward :: "('w, 'x) git_scheme \<Rightarrow> string \<Rightarrow> string \<Rightarrow> string \<Rightarrow> string \<Rightarrow> 'w \<Rightarrow> Advance \<times> 'w" where
  "fastForward G repoPath branch commitish toLabel w =
     (let adv = new_advance branch toLabel; localRef = local_ref branch in
      case g_revParse G localRef w of
        None \<Rightarrow> (adv\<lparr>adv_Outcome := FailedAdvance, adv_Reason := ''local '' @ branch @ '' does not exist''\<rparr>, w)
      | Some here \<Rightarrow>
          (case g_revParse G (commitish @ ''^{commit}'') w of
             None \<Rightarrow> (adv\<lparr>adv_Outcome := FailedAdvance, adv_Reason := ''could not resolve '' @ toLabel\<rparr>, w)
           | Some target \<Rightarrow>
               if here = target then (adv\<lparr>adv_Outcome := Current\<rparr>, w)
               else (case g_branchWorktree G branch w of
                   Inl err \<Rightarrow>
                     (adv\<lparr>adv_Outcome := FailedAdvance,
                         adv_Reason := ''could not locate the worktree holding '' @ branch @ '': '' @ err\<rparr>, w)
                 | Inr holder \<Rightarrow>
                     (let adv = adv\<lparr>adv_Holder := holder\<rparr>; dir = (if holder = [] then repoPath else holder) in
                      if g_isAncestor G target here w then
                        (adv\<lparr>adv_Outcome := Ahead, adv_Reason := ''local '' @ branch @ '' is ahead of '' @ toLabel,
                            adv_Reconcile := ''push or drop the local-only commits on '' @ branch @ '' (git -C '' @ dir @ '' log '' @
                              target @ ''..'' @ localRef @ '')''\<rparr>, w)
                      else if \<not> g_isAncestor G here target w then
                        (adv\<lparr>adv_Outcome := Diverged, adv_Reason := ''local '' @ branch @ '' has diverged from '' @ toLabel,
                            adv_Reconcile := ''rebase or reset local '' @ branch @ '' onto '' @ toLabel @ '' in '' @ dir\<rparr>, w)
                      else if holder = [] then
                        (case g_branchSetTo G branch target w of
                           (Some err, w) \<Rightarrow>
                             (adv\<lparr>adv_Outcome := FailedAdvance,
                                 adv_Reason := ''could not move '' @ branch @ '' to '' @ toLabel @ '': '' @ err,
                                 adv_Reconcile := ''git -C '' @ repoPath @ '' branch -f '' @ branch @ '' '' @ target\<rparr>, w)
                         | (None, w) \<Rightarrow> (adv\<lparr>adv_Outcome := Advanced\<rparr>, w))
                      else
                        (case g_mergeFF G holder target w of
                           ((out, Some err), w) \<Rightarrow>
                             (let adv = adv\<lparr>adv_Outcome := Blocked, adv_Detail := TrimSpace out,
                                    adv_Reconcile := ''git -C '' @ holder @ '' merge --ff-only '' @ target\<rparr>
                              in if g_hasDirty G holder w
                                 then (adv\<lparr>adv_Dirty := True,
                                         adv_Reason := ''uncommitted changes in '' @ holder @ '' block the fast-forward of '' @ branch,
                                         adv_Reconcile := ''commit or stash them, then '' @ adv_Reconcile adv\<rparr>, w)
                                 else (adv\<lparr>adv_Reason := ''git refused to fast-forward '' @ branch @ '' in '' @ holder @ '': '' @ err\<rparr>, w))
                         | ((_, None), w) \<Rightarrow> (adv\<lparr>adv_Outcome := Advanced\<rparr>, w))))))"

definition land_sha :: "string \<Rightarrow> string" where
  "land_sha sha = (if length sha > 7 then take 7 sha else sha)"

definition Land :: "('w, 'x) git_scheme \<Rightarrow> Target \<Rightarrow> string \<Rightarrow> string \<Rightarrow> 'w \<Rightarrow> (string \<times> string option) \<times> 'w" where
  "Land G t landDir sha w =
     (if \<not> IsSelf t then g_pushRef G landDir (t_Remote t) sha (t_Branch t) w
      else (case fastForward G (t_RepoPath t) (t_Branch t) sha (land_sha sha) w of
          (adv, w') \<Rightarrow> if Skipped adv then ((adv_Detail adv, Some (adv_Reason adv)), w') else (([], None), w')))"

definition AdvanceLocal :: "('w, 'x) git_scheme \<Rightarrow> Target \<Rightarrow> string \<Rightarrow> 'w \<Rightarrow> Advance \<times> 'w" where
  "AdvanceLocal G t commitish w =
     (if IsSelf t then ((new_advance (t_Branch t) (t_Branch t))\<lparr>adv_Outcome := Current\<rparr>, w)
      else fastForward G (t_RepoPath t) (t_Branch t) commitish (TargetLabel t) w)"

section \<open>It never rewinds\<close>

text \<open>
  What \<open>git branch -f\<close> and \<open>git merge --ff-only\<close> do: the former moves the one branch or fails; the latter
  moves the branch checked out in the worktree to the commit, or fails and moves nothing.
\<close>

definition moves_one_ref :: "('w, 'x) git_scheme \<Rightarrow> string \<Rightarrow> string \<Rightarrow> 'w \<Rightarrow> 'w \<Rightarrow> bool" where
  "moves_one_ref G branch sha w w' \<longleftrightarrow>
     (\<forall>ref. g_revParse G (''refs/heads/'' @ ref) w' =
        (if ref = branch then Some sha else g_revParse G (''refs/heads/'' @ ref) w))"

definition moves_no_ref :: "('w, 'x) git_scheme \<Rightarrow> 'w \<Rightarrow> 'w \<Rightarrow> bool" where
  "moves_no_ref G w w' \<longleftrightarrow> (\<forall>ref. g_revParse G (''refs/heads/'' @ ref) w' = g_revParse G (''refs/heads/'' @ ref) w)"

definition ref_moves :: "('w, 'x) git_scheme \<Rightarrow> bool" where
  "ref_moves G \<longleftrightarrow>
     (\<forall>branch sha w. case g_branchSetTo G branch sha w of
        (None, w') \<Rightarrow> moves_one_ref G branch sha w w' | (Some _, w') \<Rightarrow> moves_no_ref G w w') \<and>
     (\<forall>branch dir sha w. g_branchWorktree G branch w = Inr dir \<longrightarrow> dir \<noteq> [] \<longrightarrow>
        (case g_mergeFF G dir sha w of
           ((_, None), w') \<Rightarrow> moves_one_ref G branch sha w w' | ((_, Some _), w') \<Rightarrow> moves_no_ref G w w'))"

lemma skipped_ranks [simp]: "Skipped a \<longleftrightarrow> adv_Outcome a \<notin> {Advanced, Current}"
  by (cases "adv_Outcome a") (simp_all add: Skipped_def outcome_rank_def)

lemma branchSetTo_moves:
  assumes "ref_moves G" "g_branchSetTo G branch sha w = (e, w')"
  shows "case e of None \<Rightarrow> moves_one_ref G branch sha w w' | Some _ \<Rightarrow> moves_no_ref G w w'"
proof -
  have "case g_branchSetTo G branch sha w of
      (None, w') \<Rightarrow> moves_one_ref G branch sha w w' | (Some _, w') \<Rightarrow> moves_no_ref G w w'"
    using assms(1) by (simp add: ref_moves_def)
  then show ?thesis unfolding assms(2) by (cases e) simp_all
qed

lemma mergeFF_moves:
  assumes "ref_moves G" "g_branchWorktree G branch w = Inr dir" "dir \<noteq> []" "g_mergeFF G dir sha w = ((out, e), w')"
  shows "case e of None \<Rightarrow> moves_one_ref G branch sha w w' | Some _ \<Rightarrow> moves_no_ref G w w'"
proof -
  have "case g_mergeFF G dir sha w of
      ((_, None), w') \<Rightarrow> moves_one_ref G branch sha w w' | ((_, Some _), w') \<Rightarrow> moves_no_ref G w w'"
    using assms(1-3) by (simp add: ref_moves_def)
  then show ?thesis unfolding assms(4) by (cases e) simp_all
qed

lemma fastForward_cases:
  assumes "ref_moves G" "fastForward G repoPath branch commitish toLabel w = (adv, w')"
  shows "case adv_Outcome adv of
      Advanced \<Rightarrow> \<exists>old new. g_revParse G (local_ref branch) w = Some old \<and> g_revParse G (commitish @ ''^{commit}'') w = Some new \<and>
        g_isAncestor G old new w \<and> moves_one_ref G branch new w w'
    | Current \<Rightarrow> w' = w \<and> g_revParse G (local_ref branch) w \<noteq> None \<and>
        g_revParse G (commitish @ ''^{commit}'') w = g_revParse G (local_ref branch) w
    | _ \<Rightarrow> moves_no_ref G w w' \<and> Skipped adv"
proof -
  have still: "moves_no_ref G w w" by (simp add: moves_no_ref_def)
  note defs = fastForward_def new_advance_def Let_def
  show ?thesis
  proof (cases "g_revParse G (local_ref branch) w")
    case None
    with assms(2) still show ?thesis by (auto simp: defs)
  next
    case here: (Some here)
    show ?thesis
    proof (cases "g_revParse G (commitish @ ''^{commit}'') w")
      case None
      with assms(2) here still show ?thesis by (auto simp: defs)
    next
      case target: (Some target)
      show ?thesis
      proof (cases "here = target")
        case True
        with assms(2) here target show ?thesis by (auto simp: defs)
      next
        case ne: False
        show ?thesis
        proof (cases "g_branchWorktree G branch w")
          case (Inl err)
          with assms(2) here target ne still show ?thesis by (auto simp: defs)
        next
          case (Inr holder)
          show ?thesis
          proof (cases "g_isAncestor G target here w \<or> \<not> g_isAncestor G here target w")
            case True
            with assms(2) here target ne Inr still show ?thesis by (auto simp: defs split: if_splits)
          next
            case anc: False
            show ?thesis
            proof (cases "holder = []")
              case True
              obtain e w1 where m: "g_branchSetTo G branch target w = (e, w1)" by fastforce
              from branchSetTo_moves[OF assms(1) m] assms(2) here target ne Inr anc True m show ?thesis by (cases e) (auto simp: defs)
            next
              case False
              obtain out e w1 where m: "g_mergeFF G holder target w = ((out, e), w1)" by (metis surj_pair)
              from mergeFF_moves[OF assms(1) Inr False m] assms(2) here target ne Inr anc False m show ?thesis by (cases e) (auto simp: defs split: if_splits)
            qed
          qed
        qed
      qed
    qed
  qed
qed


text \<open>
  Landing on self succeeds exactly when the local default branch ends up at the landing commit, by a
  fast-forward or because it was there already.
\<close>

theorem self_landing_moves_the_branch:
  assumes "ref_moves G" "IsSelf t" "g_revParse G (sha @ ''^{commit}'') w = Some sha" "Land G t dir sha w = ((out, err), w')"
  shows "if err = None then g_revParse G (LocalRef t) w' = Some sha else moves_no_ref G w w'"
proof -
  obtain adv w1 where ff: "fastForward G (t_RepoPath t) (t_Branch t) sha (land_sha sha) w = (adv, w1)" by fastforce
  with assms(2,4) have r: "w' = w1" "err = None \<longleftrightarrow> \<not> Skipped adv" by (auto simp: Land_def split: if_splits)
  from fastForward_cases[OF assms(1) ff] assms(3) r show ?thesis
    by (cases "adv_Outcome adv") (auto simp: moves_one_ref_def LocalRef_def local_ref_def)
qed

section \<open>A repository of two branches\<close>

text \<open>Commits are strings, an ancestor is a prefix, and no worktree holds a branch.\<close>

definition prefix_git :: "(string \<Rightarrow> string option) git" where
  "prefix_git =
     \<lparr>g_revParse = (\<lambda>r w. case CutPrefix r ''refs/heads/'' of Some b \<Rightarrow> w b
                          | None \<Rightarrow> if HasSuffix r ''^{commit}'' then Some (TrimSuffix r ''^{commit}'') else None),
      g_isAncestor = (\<lambda>a b _. HasPrefix b a), g_branchWorktree = (\<lambda>_ _. Inr []),
      g_branchSetTo = (\<lambda>b sha w. (None, w(b := Some sha))), g_mergeFF = (\<lambda>_ _ w. (([], Some ''refused''), w)),
      g_hasDirty = (\<lambda>_ _. False), g_branchRemote = (\<lambda>_ _. ''origin''), g_defaultBranch = (\<lambda>_. Some ''main''),
      g_fetch = (\<lambda>_ _ _ w. (([], None), w)), g_pushRef = (\<lambda>_ _ _ _ w. (([], None), w))\<rparr>"

definition two_branches :: "string \<Rightarrow> string option" where
  "two_branches = [''main'' \<mapsto> ''ab'', ''topic'' \<mapsto> ''abc'']"

lemma prefix_git_moves: "ref_moves prefix_git"
  by (simp add: ref_moves_def prefix_git_def moves_one_ref_def CutPrefix_def)


theorem self_landing_moves_the_branch_witness:
  "g_revParse prefix_git (LocalRef (SelfTarget ''/r'' ''main''))
     (snd (Land prefix_git (SelfTarget ''/r'' ''main'') [] ''abc'' two_branches)) = Some ''abc''"
proof -
  have l: "Land prefix_git (SelfTarget ''/r'' ''main'') [] ''abc'' two_branches = (([], None), two_branches(''main'' \<mapsto> ''abc''))"
    by (simp add: Land_def IsSelf_def SelfTarget_def fastForward_def prefix_git_def two_branches_def local_ref_def new_advance_def
        Let_def go_string_simps HasSuffix_def)
  have "g_revParse prefix_git (''abc'' @ ''^{commit}'') two_branches = Some ''abc''"
    by (simp add: prefix_git_def go_string_simps HasSuffix_def)
  from self_landing_moves_the_branch[OF prefix_git_moves _ this l]
  have "g_revParse prefix_git (LocalRef (SelfTarget ''/r'' ''main'')) (two_branches(''main'' \<mapsto> ''abc'')) = Some ''abc''"
    by (simp add: IsSelf_def SelfTarget_def)
  then show ?thesis by (simp only: l snd_conv)
qed

end
