(* ===== verification/MergeFlow.thy ===== *)
theory MergeFlow
  imports MergeSection Landing Loader
begin

text \<open>
  A merge from end to end (\<open>src/internal/delta/merge/merge.go\<close>, \<open>autostash.go\<close>, \<open>guarded.go\<close>): the prefix that
  rebases and pins the branch, the suffix that verifies and lands under the merge lock, the teardown and
  the choice of the post-merge commands. Git, the hooks, the credential store and the file system are
  operations on a world that they may change in any way; the model threads the world through them in
  the order of the code, with the test points emitted and the stages passed.
\<close>

section \<open>The run of a merge\<close>

text \<open>A stage is recorded where the code has passed it; its argument is what it was passed with.\<close>

datatype stage =
    Locked | Fetched | LandTree string | Mirrored | RebasedTo string | SectionOk string | PolicyOk string | GateOk string
  | LandedAt string | TipRead "string option" | WorktreeRemoved | BranchDeleted | PhaseRun "string list" | LandTreeRemoved string | Unlocked
  | TipExpected | Shelved nat | ShelfApplied nat | ShelfKept nat | ShelfDropped nat | SessionRebased | RepairRan bool | PinnedAt string | SelectionOk

record 'w run =
  r_world :: 'w
  r_points :: "point list"
  r_stages :: "stage list"

type_synonym ('w, 'a) step = "'w run \<Rightarrow> (string + 'a) \<times> 'w run"

definition give :: "'a \<Rightarrow> ('w, 'a) step" where
  "give x r = (Inr x, r)"

definition andThen :: "('w, 'a) step \<Rightarrow> ('a \<Rightarrow> ('w, 'b) step) \<Rightarrow> ('w, 'b) step" where
  "andThen m k r = (case m r of (Inl e, r') \<Rightarrow> (Inl e, r') | (Inr x, r') \<Rightarrow> k x r')"

definition emit :: "point list \<Rightarrow> ('w, unit) step" where
  "emit ps r = (Inr (), r\<lparr>r_points := r_points r @ ps\<rparr>)"

definition passed :: "stage \<Rightarrow> ('w, unit) step" where
  "passed st r = (Inr (), r\<lparr>r_stages := r_stages r @ [st]\<rparr>)"

definition failStep :: "string \<Rightarrow> string \<Rightarrow> ('w, 'a) step" where
  "failStep label err r = (Inl err, r\<lparr>r_points := r_points r @ [PointNotOk label err]\<rparr>)"

text \<open>A question to the world, and an operation on it.\<close>

definition ask :: "('w \<Rightarrow> 'a) \<Rightarrow> ('w, 'a) step" where
  "ask f r = (Inr (f (r_world r)), r)"

definition act :: "('w \<Rightarrow> 'a \<times> 'w) \<Rightarrow> ('w, 'a) step" where
  "act f r = (case f (r_world r) of (x, w) \<Rightarrow> (Inr x, r\<lparr>r_world := w\<rparr>))"

definition when_step :: "bool \<Rightarrow> ('w, unit) step \<Rightarrow> ('w, unit) step" where
  "when_step b m = (if b then m else give ())"

text \<open>A deferred cleanup runs on every way out, and its own result is dropped.\<close>

definition deferring :: "('w run \<Rightarrow> 'w run) \<Rightarrow> ('w, 'a) step \<Rightarrow> ('w, 'a) step" where
  "deferring cleanup m r = (case m r of (res, r') \<Rightarrow> (res, cleanup r'))"

section \<open>The world of a merge\<close>

text \<open>
  An operation that can fail answers with a message. \<open>m_preMergeHook\<close> and \<open>m_guardedGate\<close> are the gates of
  \<open>charlie/check\<close>, at the commit they judge; \<open>m_trusted\<close> is the hierarchy with the repository's layer as
  committed at a ref. The texts of failures leave out what another tool printed.
\<close>

record PostMergeFacts =
  pf_LandedSha :: string
  pf_PinnedSha :: string
  pf_Branch :: string
  pf_DefaultBranch :: string
  pf_RepoPath :: string
  pf_Pushed :: bool
  pf_Timeout :: Duration
  pf_AttestationBlob :: string
  pf_AttestationStore :: string

datatype repair_end = RepairOk | RepairFailed string | RepairTimedOut string
datatype shelf_error = ShelfConflict "string list" | ShelfError string

record 'w merge_ops = "'w git" +
  m_outside :: "'w outside"
  m_sum256 :: "string \<Rightarrow> string"
  m_trusted :: "string \<Rightarrow> 'w \<Rightarrow> Hierarchy option"
  m_commonGitDir :: "'w \<Rightarrow> string option"
  m_lock :: "'w \<Rightarrow> (string option \<times> string option) \<times> 'w"
  m_unlock :: "'w \<Rightarrow> 'w"
  m_mirror :: "string \<Rightarrow> 'w \<Rightarrow> string option \<times> 'w"
  m_driversInPlay :: "string \<Rightarrow> string \<Rightarrow> 'w \<Rightarrow> string + (string \<times> string) list"
  m_rebase :: "string \<Rightarrow> string \<Rightarrow> 'w \<Rightarrow> string option \<times> 'w"
  m_rebaseSession :: "string \<Rightarrow> string \<Rightarrow> 'w \<Rightarrow> string option \<times> 'w"
  m_rebaseAbort :: "string \<Rightarrow> 'w \<Rightarrow> 'w"
  m_unmerged :: "string \<Rightarrow> 'w \<Rightarrow> string + string list"
  m_head :: "string \<Rightarrow> 'w \<Rightarrow> string option"
  m_revParseIn :: "string \<Rightarrow> string \<Rightarrow> 'w \<Rightarrow> string option"
  m_commitsAhead :: "string \<Rightarrow> string \<Rightarrow> string \<Rightarrow> 'w \<Rightarrow> nat"
  m_dirtyTracked :: "string \<Rightarrow> 'w \<Rightarrow> string + string list"
  m_guarded :: "string \<Rightarrow> 'w \<Rightarrow> bool"
  m_preMergeHook :: "Hierarchy \<Rightarrow> string \<Rightarrow> 'w \<Rightarrow> (string option \<times> point list) \<times> 'w"
  m_guardedGate :: "Hierarchy \<Rightarrow> string \<Rightarrow> 'w \<Rightarrow> (string option \<times> point list) \<times> 'w"
  m_insideWorktree :: "string \<Rightarrow> 'w \<Rightarrow> bool"
  m_live :: "string \<Rightarrow> 'w \<Rightarrow> bool"
  m_shelfNotEmpty :: "string \<Rightarrow> 'w \<Rightarrow> bool"
  m_revokeCredential :: "string \<Rightarrow> 'w \<Rightarrow> point list \<times> 'w"
  m_revokeRights :: "string \<Rightarrow> 'w \<Rightarrow> 'w"
  m_worktreeRemove :: "string \<Rightarrow> 'w \<Rightarrow> string option \<times> 'w"
  m_branchDelete :: "bool \<Rightarrow> string \<Rightarrow> 'w \<Rightarrow> string option \<times> 'w"
  m_push :: "'w \<Rightarrow> string option \<times> 'w"
  m_requestClose :: "string \<Rightarrow> 'w \<Rightarrow> 'w"
  m_mergeFFRoot :: "string \<Rightarrow> 'w \<Rightarrow> string option \<times> 'w"
  m_onLanded :: "string \<Rightarrow> 'w \<Rightarrow> 'w"
  m_isDir :: "string \<Rightarrow> 'w \<Rightarrow> bool"
  m_runPhase :: "PostMergeTarget list \<Rightarrow> string \<Rightarrow> PostMergeFacts \<Rightarrow> 'w \<Rightarrow> point list \<times> 'w"
  m_runLegacy :: "string \<Rightarrow> string \<Rightarrow> PostMergeFacts \<Rightarrow> 'w \<Rightarrow> string option \<times> 'w"
  m_coActive :: "'w \<Rightarrow> string + string list"
  m_repairHook :: "Sweatfile \<Rightarrow> string \<Rightarrow> 'w \<Rightarrow> repair_end \<times> 'w"
  m_indexLock :: "string \<Rightarrow> 'w \<Rightarrow> string option"
  m_pathsChanged :: "string \<Rightarrow> string \<Rightarrow> string \<Rightarrow> 'w \<Rightarrow> string + string list"
  m_resetMixed :: "string \<Rightarrow> string \<Rightarrow> 'w \<Rightarrow> string option \<times> 'w"
  m_intentToAdd :: "string \<Rightarrow> 'w \<Rightarrow> string + string list"
  m_shelfSave :: "string \<Rightarrow> 'w \<Rightarrow> (string + nat) \<times> 'w"
  m_shelfApply :: "string \<Rightarrow> nat \<Rightarrow> 'w \<Rightarrow> shelf_error option \<times> 'w"
  m_shelfDrop :: "string \<Rightarrow> nat \<Rightarrow> 'w \<Rightarrow> string option \<times> 'w"
  m_addIntent :: "string \<Rightarrow> string list \<Rightarrow> 'w \<Rightarrow> string option \<times> 'w"

record PostMergeOptions =
  pm_Targets :: "string list option"
  pm_NoAutostash :: bool
  pm_ExpectSha :: string
  pm_Timeout :: "Duration option"
  pm_Gate :: AttestationGate
  pm_AttestedSha :: string
  pm_AcceptPostMergeDigest :: string
  pm_GuardedGate :: bool
  pm_AttestationBlob :: string
  pm_AttestationStore :: string

record merge_args =
  ma_repoPath :: string
  ma_wtPath :: string
  ma_branch :: string
  ma_defaultBranch :: string
  ma_gitSync :: bool
  ma_inSession :: bool

definition merge_target :: "'w merge_ops \<Rightarrow> merge_args \<Rightarrow> 'w \<Rightarrow> Target" where
  "merge_target M A w = ForMerge M w (ma_repoPath A) (ma_defaultBranch A) (ma_gitSync A)"

definition trustedHierarchy :: "'w merge_ops \<Rightarrow> merge_args \<Rightarrow> 'w \<Rightarrow> Hierarchy option" where
  "trustedHierarchy M A w = (if o_home (m_outside M) = [] then None else m_trusted M (TargetRef (merge_target M A w)) w)"

definition session_sweatfile :: "'w merge_ops \<Rightarrow> merge_args \<Rightarrow> 'w \<Rightarrow> Sweatfile" where
  "session_sweatfile M A w = (case trustedHierarchy M A w of None \<Rightarrow> empty_Sweatfile | Some h \<Rightarrow> h_Merged h)"

text \<open>\<open>loadCommitHierarchy\<close> needs a home.\<close>

definition sweatfile_at :: "'w merge_ops \<Rightarrow> 'w \<Rightarrow> string \<Rightarrow> Sweatfile option" where
  "sweatfile_at M w commit = (if o_home (m_outside M) = [] then None else o_sweatfileAt (m_outside M) commit w)"

definition guardedMerge :: "'w merge_ops \<Rightarrow> PostMergeOptions \<Rightarrow> merge_args \<Rightarrow> 'w \<Rightarrow> bool" where
  "guardedMerge M pm A w \<longleftrightarrow> pm_GuardedGate pm \<or> m_guarded M (ma_wtPath A) w"

section \<open>Shared stages\<close>

definition fetchTarget :: "'w merge_ops \<Rightarrow> merge_args \<Rightarrow> Target \<Rightarrow> string \<Rightarrow> ('w, unit) step" where
  "fetchTarget M A t suffix =
     (if IsSelf t then give ()
      else andThen (act (FetchTarget M t (ma_wtPath A))) (\<lambda>(out, err).
        case err of
          Some e \<Rightarrow> failStep (''fetch '' @ TargetLabel t @ suffix) e
        | None \<Rightarrow> andThen (emit [PointOk (''fetch '' @ TargetLabel t @ suffix)]) (\<lambda>_. passed Fetched)))"

definition requireSection :: "'w merge_ops \<Rightarrow> merge_args \<Rightarrow> PostMergeOptions \<Rightarrow> Target \<Rightarrow> string \<Rightarrow> bool \<Rightarrow> ('w, unit) step" where
  "requireSection M A pm t sha announce =
     andThen (ask (\<lambda>w. requirePostMergeSectionAccepted (m_sum256 M) (sweatfile_at M w) (ma_branch A) (TargetRef t) sha
                         (pm_AcceptPostMergeDigest pm) announce)) (\<lambda>v.
       case v of
         SectionRefused msg \<Rightarrow> failStep (''post-merge section '' @ ma_branch A) msg
       | SectionPasses ps \<Rightarrow> andThen (emit ps) (\<lambda>_. passed (SectionOk sha)))"

definition policy_text :: "policy_error \<Rightarrow> string" where
  "policy_text e = (case e of BaseUnresolved m \<Rightarrow> m | NoBaseWorktree m \<Rightarrow> m | NotExempt m \<Rightarrow> m)"

definition merge_shas_of :: "merge_args \<Rightarrow> PostMergeOptions \<Rightarrow> Target \<Rightarrow> string \<Rightarrow> string \<Rightarrow> merge_shas" where
  "merge_shas_of A pm t pinned landing =
     \<lparr>ms_repoPath = ma_repoPath A, ms_branch = ma_branch A, ms_defaultBranch = ma_defaultBranch A, ms_targetRef = TargetRef t,
      ms_pinned = pinned, ms_landing = landing, ms_attested = pm_AttestedSha pm\<rparr>"

definition policyStage ::
  "'w merge_ops \<Rightarrow> merge_args \<Rightarrow> PostMergeOptions \<Rightarrow> Sweatfile \<Rightarrow> Target \<Rightarrow> string \<Rightarrow> string \<Rightarrow> ('w, unit) step" where
  "policyStage M A pm session t pinned landing =
     andThen (act (runAttestationPolicy (m_outside M) (pm_Gate pm) session (merge_shas_of A pm t pinned landing))) (\<lambda>(err, ps).
       andThen (emit ps) (\<lambda>_.
         case err of Some e \<Rightarrow> (\<lambda>r. (Inl (policy_text e), r)) | None \<Rightarrow> passed (PolicyOk landing)))"

text \<open>A guarded merge whose trusted hierarchy does not load is refused; an unguarded one has no hook.\<close>

definition runPreMergeHookContext ::
  "'w merge_ops \<Rightarrow> merge_args \<Rightarrow> string \<Rightarrow> bool \<Rightarrow> ('w, unit) step" where
  "runPreMergeHookContext M A sha guarded =
     andThen (ask (trustedHierarchy M A)) (\<lambda>h.
       let judge = (\<lambda>gate. andThen (act gate) (\<lambda>(err, ps). andThen (emit ps) (\<lambda>_.
             case err of Some e \<Rightarrow> (\<lambda>r. (Inl e, r)) | None \<Rightarrow> passed (GateOk sha))))
       in case h of
           Some h \<Rightarrow> judge (if guarded then m_guardedGate M h sha else m_preMergeHook M h sha)
         | None \<Rightarrow>
             if guarded then failStep (''guarded gate '' @ ma_branch A)
               ''the trusted sweatfile hierarchy did not load (home unresolvable, or the default branch's sweatfile unreadable), so no guarded gate could be chosen; nothing landed''
             else passed (GateOk sha))"

section \<open>The landing\<close>

definition LandWorktreePrefix :: string where "LandWorktreePrefix = ''.land-''"

definition addLandingWorktree :: "'w merge_ops \<Rightarrow> merge_args \<Rightarrow> string \<Rightarrow> ('w, string) step" where
  "addLandingWorktree M A pinned =
     andThen (act (addTransientWorktree (m_outside M) (ma_repoPath A) LandWorktreePrefix (ma_branch A) pinned)) (\<lambda>made.
       case made of
         Inl e \<Rightarrow> failStep (''land '' @ ma_branch A) (''landing worktree: '' @ e)
       | Inr path \<Rightarrow> andThen (passed (LandTree path)) (\<lambda>_. give path))"

text \<open>The drivers a rebase would invoke, each with the reason it does not resolve (empty when it does).\<close>

definition MergeDriverRefusal :: "string + (string \<times> string) list \<Rightarrow> string list \<times> string option" where
  "MergeDriverRefusal found =
     (case found of
        Inl e \<Rightarrow> ([], Some e)
      | Inr drivers \<Rightarrow>
          (let names = map fst drivers; missing = filter (\<lambda>reason. reason \<noteq> []) (map snd drivers) in
           (names, if length missing > 0
                   then Some (Join missing ''; '' @ ''; without it git keeps the \"ours\" side silently, with no conflict markers'')
                   else None)))"

definition PreflightMergeDrivers :: "'w merge_ops \<Rightarrow> merge_args \<Rightarrow> string \<Rightarrow> string \<Rightarrow> ('w, string option) step" where
  "PreflightMergeDrivers M A dir theirs =
     andThen (ask (\<lambda>w. MergeDriverRefusal (m_driversInPlay M dir theirs w))) (\<lambda>(names, err).
       let label = ''merge drivers '' @ ma_branch A in
       case err of
         Some e \<Rightarrow> andThen (emit [PointNotOk label e]) (\<lambda>_. give (Some e))
       | None \<Rightarrow> andThen (emit (if length names > 0 then [PointOk (label @ '': '' @ Join names '', '')] else [])) (\<lambda>_. give None))"

definition integration_conflict :: string where
  "integration_conflict = ''integration conflict with commits that landed during the merge gate''"

definition conflict_guidance :: string where
  "conflict_guidance =
     ''commits landed during the gate conflict with this branch; re-merge to rebase and resolve in the session worktree''"

definition rebaseLanding :: "'w merge_ops \<Rightarrow> merge_args \<Rightarrow> string \<Rightarrow> string \<Rightarrow> ('w, string) step" where
  "rebaseLanding M A landPath targetRef =
     andThen (PreflightMergeDrivers M A landPath targetRef) (\<lambda>refused.
       case refused of
         Some e \<Rightarrow> (\<lambda>r. (Inl (integration_conflict @ '': '' @ e @ ''; install the driver, then re-merge''), r))
       | None \<Rightarrow>
           andThen (act (m_rebase M landPath targetRef)) (\<lambda>failed.
             case failed of
               Some _ \<Rightarrow>
                 andThen (ask (m_unmerged M landPath)) (\<lambda>conflicted.
                 andThen (act (\<lambda>w. ((), m_rebaseAbort M landPath w))) (\<lambda>_.
                   failStep (''land '' @ ma_branch A)
                     (integration_conflict @
                      (case conflicted of
                         Inr (f # fs) \<Rightarrow> '' (conflicting: '' @ Join (f # fs) '', '' @ '')'' | _ \<Rightarrow> []) @ '': '' @ conflict_guidance)))
             | None \<Rightarrow>
                 andThen (ask (m_head M landPath)) (\<lambda>head.
                   case head of
                     None \<Rightarrow> failStep (''land '' @ ma_branch A) ''could not resolve landing HEAD''
                   | Some sha \<Rightarrow> andThen (passed (RebasedTo sha)) (\<lambda>_. give sha))))"

definition reportPush :: "Target \<Rightarrow> string \<Rightarrow> ('w, unit) step" where
  "reportPush t sha =
     emit [if IsSelf t
           then PointSkip ''push'' (''merge landed on local '' @ t_Branch t @ '' at '' @ shortSha sha @
                  '' only; NOT pushed to any remote (local-only merge, or the repo has no remote)'')
           else PointOk (''push '' @ TargetLabel t @ '' '' @ shortSha sha)]"

definition LocalAdvanceSkipPrefix :: string where "LocalAdvanceSkipPrefix = ''merge LANDED on ''"

definition reportLocalAdvance :: "'w merge_ops \<Rightarrow> Target \<Rightarrow> string \<Rightarrow> ('w, unit) step" where
  "reportLocalAdvance M t sha =
     (if IsSelf t then give ()
      else andThen (act (AdvanceLocal M t sha)) (\<lambda>adv.
        emit [if \<not> Skipped adv then PointOk (''advance local '' @ t_Branch t @ '' to '' @ shortSha sha)
              else PointSkip (''advance local '' @ t_Branch t)
                (LocalAdvanceSkipPrefix @ TargetLabel t @ '' at '' @ shortSha sha @ ''; only local '' @ t_Branch t @
                 '' was not advanced: '' @ SkipReason adv)]))"

text \<open>The teardown of the session's worktree and branch, and the push of the unqueued path.\<close>

definition remove_session :: "'w merge_ops \<Rightarrow> merge_args \<Rightarrow> bool \<Rightarrow> ('w, unit) step" where
  "remove_session M A forced =
     (let branch = ma_branch A in
      andThen (act (m_revokeCredential M branch)) (\<lambda>ps.
      andThen (emit ps) (\<lambda>_.
      andThen (act (\<lambda>w. ((), m_revokeRights M branch w))) (\<lambda>_.
      andThen (act (m_worktreeRemove M (ma_wtPath A))) (\<lambda>removed.
        case removed of
          Some e \<Rightarrow> failStep (''remove worktree '' @ branch) e
        | None \<Rightarrow>
            andThen (emit [PointOk (''remove worktree '' @ branch)]) (\<lambda>_.
            andThen (passed WorktreeRemoved) (\<lambda>_.
            andThen (act (m_branchDelete M forced branch)) (\<lambda>deleted.
              case deleted of
                Some e \<Rightarrow> failStep (''delete branch '' @ branch) e
              | None \<Rightarrow> andThen (emit [PointOk (''delete branch '' @ branch)]) (\<lambda>_. passed BranchDeleted)))))))))"

definition keep_reason :: "'w merge_ops \<Rightarrow> merge_args \<Rightarrow> bool \<Rightarrow> 'w \<Rightarrow> string option" where
  "keep_reason M A tipMatchesPin w =
     (if \<not> tipMatchesPin then Some ''commits added since pin; left for a later merge''
      else if m_shelfNotEmpty M (ma_wtPath A) w then Some ''stash shelf not empty; drop its entries or run sc close''
      else (case m_dirtyTracked M (ma_wtPath A) w of
          Inr (f # fs) \<Rightarrow> Some (''uncommitted changes: '' @ Join (f # fs) '', '' @ ''; commit them or run sc close'')
        | _ \<Rightarrow> None))"

definition teardownAndPush :: "'w merge_ops \<Rightarrow> merge_args \<Rightarrow> bool \<Rightarrow> bool \<Rightarrow> bool \<Rightarrow> ('w, unit) step" where
  "teardownAndPush M A push forced tipMatchesPin =
     (let branch = ma_branch A; keep = (\<lambda>why. PointOk (''keep worktree '' @ branch @ '' ('' @ why @ '')'')) in
      andThen (ask (m_insideWorktree M (ma_wtPath A))) (\<lambda>inside.
      andThen (ask (\<lambda>w. \<not> ma_inSession A \<and> \<not> inside \<and> m_live M branch w)) (\<lambda>live.
      andThen (when_step live (emit [keep ''its session is live; run sc close once its agent is done''])) (\<lambda>_.
      andThen (when_step (\<not> ma_inSession A \<and> \<not> inside \<and> \<not> live)
                 (andThen (ask (keep_reason M A tipMatchesPin)) (\<lambda>why.
                    case why of Some y \<Rightarrow> emit [keep y] | None \<Rightarrow> remove_session M A forced))) (\<lambda>_.
      andThen (if push
               then andThen (act (m_push M)) (\<lambda>err. case err of Some e \<Rightarrow> failStep ''push'' e | None \<Rightarrow> emit [PointOk ''push''])
               else give ()) (\<lambda>_.
        if ma_inSession A \<or> live then give () else act (\<lambda>w. ((), m_requestClose M branch w))))))))"

section \<open>The post-merge phase\<close>

text \<open>Where it runs: the landing worktree, or a fresh checkout (with its removal), or a fallback with a warning.\<close>

definition postMergeRunDir :: "'w merge_ops \<Rightarrow> merge_args \<Rightarrow> string \<Rightarrow> string \<Rightarrow> ('w, string \<times> string option) step" where
  "postMergeRunDir M A landDir landed =
     andThen (ask (\<lambda>w. landDir \<noteq> [] \<and> m_isDir M landDir w)) (\<lambda>there.
       if there then give (landDir, None)
       else andThen (act (addTransientWorktree (m_outside M) (ma_repoPath A) LandWorktreePrefix (ma_branch A) landed)) (\<lambda>made.
         case made of
           Inr dir \<Rightarrow> give (dir, Some dir)
         | Inl e \<Rightarrow>
             andThen (ask (\<lambda>w. if ma_wtPath A \<noteq> [] \<and> m_isDir M (ma_wtPath A) w then ma_wtPath A else ma_repoPath A)) (\<lambda>fallback.
             andThen (emit [PointNotOk (''post-merge checkout '' @ ma_branch A @ '' ('' @ shortSha landed @ '')'')
                (''could not check out the landed '' @ shortSha landed @ '' for post-merge ('' @ e @ ''); running in '' @ fallback @
                 '' instead, which may not match what landed'')]) (\<lambda>_. give (fallback, None)))))"

text \<open>The facts a command is given; the phase's deadline is one cap from now, and is left out.\<close>

definition phase_facts :: "merge_args \<Rightarrow> PostMergeOptions \<Rightarrow> string \<Rightarrow> string \<Rightarrow> Sweatfile \<Rightarrow> PostMergeFacts" where
  "phase_facts A pm pinned landed sf =
     \<lparr>pf_LandedSha = landed, pf_PinnedSha = pinned, pf_Branch = ma_branch A, pf_DefaultBranch = ma_defaultBranch A,
      pf_RepoPath = ma_repoPath A, pf_Pushed = ma_gitSync A, pf_Timeout = EffectiveTimeout (pm_Timeout pm) sf,
      pf_AttestationBlob = pm_AttestationBlob pm, pf_AttestationStore = pm_AttestationStore pm\<rparr>"

definition em_dash :: string where "em_dash = [CHR 0xE2, CHR 0x80, CHR 0x94]"

definition already_landed :: string where
  "already_landed = '' (the merge already landed '' @ em_dash @ '' nothing was rolled back)''"

definition phase_commands ::
  "'w merge_ops \<Rightarrow> merge_args \<Rightarrow> Sweatfile \<Rightarrow> PostMergeTarget list \<Rightarrow> PostMergeOptions \<Rightarrow> string \<Rightarrow> string \<Rightarrow> string \<Rightarrow> ('w, unit) step" where
  "phase_commands M A sf selected pm pinned landed dir =
     (let facts = phase_facts A pm pinned landed sf; label = ''post-merge '' @ ma_branch A @ '' ('' @ shortSha landed @ '')'' in
      if length (ActivePostMergeTargets sf) > 0 then
        andThen (act (m_runPhase M selected dir facts)) (\<lambda>ps. andThen (emit ps) (\<lambda>_. passed (PhaseRun (map pt_Command selected))))
      else if pm_Targets pm \<noteq> None then give ()
      else (case PostMergeHookCommand sf of
          None \<Rightarrow> give ()
        | Some c \<Rightarrow> andThen (act (m_runLegacy M c dir facts)) (\<lambda>err.
            andThen (emit [case err of None \<Rightarrow> PointOk label | Some e \<Rightarrow> PointNotOk label (''post-merge hook failed: '' @ e @ already_landed)]) (\<lambda>_.
              passed (PhaseRun [c])))))"

definition runPostMergePhase ::
  "'w merge_ops \<Rightarrow> merge_args \<Rightarrow> PostMergeOptions \<Rightarrow> string \<Rightarrow> string \<Rightarrow> string \<Rightarrow> ('w, unit) step" where
  "runPostMergePhase M A pm landDir pinned landed =
     andThen (act (\<lambda>w. ((), m_onLanded M landed w))) (\<lambda>_.
       if o_home (m_outside M) = [] then give ()
       else andThen (ask (o_sweatfileAt (m_outside M) landed)) (\<lambda>at.
         case at of
           None \<Rightarrow> emit [PointNotOk (''post-merge sweatfile ('' @ shortSha landed @ '')'')
                         (''post-merge skipped: sweatfile at '' @ shortSha landed @ '' unreadable'' @ already_landed)]
         | Some sf \<Rightarrow>
             (case (if PostMergeDisabled sf then Inr [] else selectPostMergeTargets (ActivePostMergeTargets sf) (pm_Targets pm)) of
                Inl e \<Rightarrow> emit [PointNotOk (''post-merge selection ('' @ shortSha landed @ '')'') e]
              | Inr selected \<Rightarrow>
                  if \<not> PostMergePhaseActive sf then give ()
                  else andThen (postMergeRunDir M A landDir landed) (\<lambda>(dir, temporary).
                    deferring (\<lambda>r. case temporary of
                        None \<Rightarrow> r | Some d \<Rightarrow> r\<lparr>r_world := o_worktreeRemove (m_outside M) d (r_world r)\<rparr>)
                      (phase_commands M A sf selected pm pinned landed dir)))))"

section \<open>Verifying and landing\<close>

text \<open>The stages on the commit that lands, and everything after the landing.\<close>

definition verify_and_land ::
  "'w merge_ops \<Rightarrow> merge_args \<Rightarrow> PostMergeOptions \<Rightarrow> Sweatfile \<Rightarrow> Target \<Rightarrow> string \<Rightarrow> string \<Rightarrow> string \<Rightarrow> bool \<Rightarrow> ('w, unit) step" where
  "verify_and_land M A pm session t landPath pinned sha rebased =
     (let branch = ma_branch A;
          mergeLabel = ''merge '' @ branch @ (if rebased then '' (rebased onto moved '' @ ma_defaultBranch A @ '')'' else []) in
      andThen (requireSection M A pm t sha True) (\<lambda>_.
      andThen (policyStage M A pm session t pinned sha) (\<lambda>_.
      andThen (ask (guardedMerge M pm A)) (\<lambda>guarded.
      andThen (runPreMergeHookContext M A sha guarded) (\<lambda>_.
      andThen (act (Land M t landPath sha)) (\<lambda>(out, err).
        case err of
          Some e \<Rightarrow> failStep mergeLabel e
        | None \<Rightarrow>
            andThen (passed (LandedAt sha)) (\<lambda>_.
            andThen (emit [PointOk mergeLabel]) (\<lambda>_.
            andThen (reportPush t sha) (\<lambda>_.
            andThen (reportLocalAdvance M t sha) (\<lambda>_.
            andThen (ask (g_revParse M (''refs/heads/'' @ branch))) (\<lambda>tip.
            andThen (passed (TipRead tip)) (\<lambda>_.
            andThen (teardownAndPush M A False True (tip = Some pinned)) (\<lambda>_.
              runPostMergePhase M A pm landPath pinned sha)))))))))))))"

definition land_from ::
  "'w merge_ops \<Rightarrow> merge_args \<Rightarrow> PostMergeOptions \<Rightarrow> Sweatfile \<Rightarrow> Target \<Rightarrow> string \<Rightarrow> string \<Rightarrow> bool \<Rightarrow> ('w, unit) step" where
  "land_from M A pm session t landPath pinned needRebase =
     andThen (if ma_gitSync A
              then andThen (act (m_mirror M landPath)) (\<lambda>err. case err of
                  Some e \<Rightarrow> failStep (''land '' @ ma_branch A) (''mirror push credential into landing worktree: '' @ e)
                | None \<Rightarrow> passed Mirrored)
              else give ()) (\<lambda>_.
     andThen (if needRebase then rebaseLanding M A landPath (TargetRef t) else give pinned) (\<lambda>sha.
       verify_and_land M A pm session t landPath pinned sha needRebase))"

definition drop_land_tree :: "'w merge_ops \<Rightarrow> string \<Rightarrow> 'w run \<Rightarrow> 'w run" where
  "drop_land_tree M path r =
     (if path = [] then r
      else r\<lparr>r_world := o_worktreeRemove (m_outside M) path (r_world r), r_stages := r_stages r @ [LandTreeRemoved path]\<rparr>)"

text \<open>What runs under the lock.\<close>

definition locked_landing :: "'w merge_ops \<Rightarrow> merge_args \<Rightarrow> PostMergeOptions \<Rightarrow> Sweatfile \<Rightarrow> string \<Rightarrow> ('w, unit) step" where
  "locked_landing M A pm session pinned =
     andThen (ask (merge_target M A)) (\<lambda>t.
     andThen (fetchTarget M A t '' (landing)'') (\<lambda>_.
     andThen (ask (\<lambda>w. \<not> g_isAncestor M (TargetRef t) pinned w)) (\<lambda>needRebase.
     andThen (if ma_gitSync A \<or> needRebase then addLandingWorktree M A pinned else give []) (\<lambda>landPath.
       deferring (drop_land_tree M landPath) (land_from M A pm session t landPath pinned needRebase)))))"

definition release_lock :: "'w merge_ops \<Rightarrow> 'w run \<Rightarrow> 'w run" where
  "release_lock M r = r\<lparr>r_world := m_unlock M (r_world r), r_stages := r_stages r @ [Unlocked]\<rparr>"

text \<open>The path behind \<open>[hooks].disable-merge-queue\<close>.\<close>

definition finishMergeUnqueued :: "'w merge_ops \<Rightarrow> merge_args \<Rightarrow> PostMergeOptions \<Rightarrow> Sweatfile \<Rightarrow> string \<Rightarrow> ('w, unit) step" where
  "finishMergeUnqueued M A pm session pinned =
     andThen (ask (merge_target M A)) (\<lambda>t.
     andThen (requireSection M A pm t pinned True) (\<lambda>_.
     andThen (policyStage M A pm session t pinned pinned) (\<lambda>_.
     andThen (ask (guardedMerge M pm A)) (\<lambda>guarded.
     andThen (runPreMergeHookContext M A pinned guarded) (\<lambda>_.
     andThen (act (m_mergeFFRoot M pinned)) (\<lambda>err.
       case err of
         Some e \<Rightarrow> failStep (''merge '' @ ma_branch A) e
       | None \<Rightarrow>
           andThen (passed (LandedAt pinned)) (\<lambda>_.
           andThen (emit [PointOk (''merge '' @ ma_branch A)]) (\<lambda>_.
           andThen (if \<not> ma_gitSync A then reportPush t pinned else give ()) (\<lambda>_.
           andThen (teardownAndPush M A (ma_gitSync A) False True) (\<lambda>_.
             runPostMergePhase M A pm [] pinned pinned))))))))))"

definition finishMergeQueued :: "'w merge_ops \<Rightarrow> merge_args \<Rightarrow> PostMergeOptions \<Rightarrow> Sweatfile \<Rightarrow> string \<Rightarrow> ('w, unit) step" where
  "finishMergeQueued M A pm session pinned =
     andThen (ask (m_commonGitDir M)) (\<lambda>unresolved.
       case unresolved of
         Some e \<Rightarrow> failStep (''merge queue '' @ ma_branch A) (''resolve git common dir for merge lock: '' @ e)
       | None \<Rightarrow>
           andThen (act (m_lock M)) (\<lambda>(err, waited).
             case err of
               Some e \<Rightarrow> failStep (''merge queue '' @ ma_branch A) e
             | None \<Rightarrow>
                 andThen (passed Locked) (\<lambda>_.
                   deferring (release_lock M)
                     (andThen (emit (case waited of None \<Rightarrow> [] | Some l \<Rightarrow> [PointOk l])) (\<lambda>_. locked_landing M A pm session pinned)))))"

definition FinishMerge :: "'w merge_ops \<Rightarrow> merge_args \<Rightarrow> PostMergeOptions \<Rightarrow> string \<Rightarrow> ('w, unit) step" where
  "FinishMerge M A pm pinned =
     andThen (ask (session_sweatfile M A)) (\<lambda>session.
       if DisableMergeQueueEnabled session then finishMergeUnqueued M A pm session pinned
       else finishMergeQueued M A pm session pinned)"

section \<open>Reasoning about stages\<close>

text \<open>
  \<open>adds m P\<close>: whatever the world, \<open>m\<close> only appends stages, and \<open>P\<close> relates its result and those stages.
\<close>

definition adds :: "('w, 'a) step \<Rightarrow> (string + 'a \<Rightarrow> stage list \<Rightarrow> bool) \<Rightarrow> bool" where
  "adds m P \<longleftrightarrow> (\<forall>r res r'. m r = (res, r') \<longrightarrow> (\<exists>st. r_stages r' = r_stages r @ st \<and> P res st))"

lemma adds_give: "adds (give x) (\<lambda>res st. res = Inr x \<and> st = [])"
  by (simp add: adds_def give_def)

lemma adds_emit: "adds (emit ps) (\<lambda>res st. res = Inr () \<and> st = [])"
  by (auto simp: adds_def emit_def)

lemma adds_passed: "adds (passed s) (\<lambda>res st. res = Inr () \<and> st = [s])"
  by (auto simp: adds_def passed_def)

lemma adds_failStep: "adds (failStep l e) (\<lambda>res st. res = Inl e \<and> st = [])"
  by (auto simp: adds_def failStep_def)

lemma adds_fail: "adds (\<lambda>r. (Inl e, r)) (\<lambda>res st. res = Inl e \<and> st = [])"
  by (auto simp: adds_def)

lemma adds_ask: "adds (ask f) (\<lambda>res st. st = [] \<and> (\<exists>w. res = Inr (f w)))"
  by (auto simp: adds_def ask_def)

lemma adds_act: "adds (act f) (\<lambda>res st. st = [] \<and> (\<exists>w. res = Inr (fst (f w))))"
  by (auto simp: adds_def act_def split: prod.splits) (metis fst_conv)

lemma adds_mono: "adds m P \<Longrightarrow> (\<And>res st. P res st \<Longrightarrow> Q res st) \<Longrightarrow> adds m Q"
  unfolding adds_def by blast

lemma adds_andThen:
  assumes "adds m P" "\<And>x. adds (k x) (K x)"
    and "\<And>e st. P (Inl e) st \<Longrightarrow> Q (Inl e) st" "\<And>x s1 res s2. P (Inr x) s1 \<Longrightarrow> K x res s2 \<Longrightarrow> Q res (s1 @ s2)"
  shows "adds (andThen m k) Q"
  unfolding adds_def
proof (intro allI impI)
  fix r res r'
  assume run: "andThen m k r = (res, r')"
  obtain a r1 where m: "m r = (a, r1)" by fastforce
  with assms(1) obtain s1 where s1: "r_stages r1 = r_stages r @ s1" "P a s1" unfolding adds_def by blast
  show "\<exists>st. r_stages r' = r_stages r @ st \<and> Q res st"
  proof (cases a)
    case (Inl e)
    with run m s1 assms(3) show ?thesis by (auto simp: andThen_def)
  next
    case (Inr x)
    with run m have "k x r1 = (res, r')" by (simp add: andThen_def)
    with assms(2) obtain s2 where "r_stages r' = r_stages r1 @ s2" "K x res s2" unfolding adds_def by blast
    with s1 Inr assms(4) show ?thesis by (intro exI[of _ "s1 @ s2"]) simp
  qed
qed

lemma adds_deferring:
  assumes "adds m P" "\<And>r. r_stages (cleanup r) = r_stages r @ tail" "\<And>res st. P res st \<Longrightarrow> Q res (st @ tail)"
  shows "adds (deferring cleanup m) Q"
  unfolding adds_def
proof (intro allI impI)
  fix r res r'
  assume run: "deferring cleanup m r = (res, r')"
  obtain a r1 where m: "m r = (a, r1)" by fastforce
  with assms(1) obtain s1 where s1: "r_stages r1 = r_stages r @ s1" "P a s1" unfolding adds_def by blast
  from run m have "res = a" "r' = cleanup r1" by (simp_all add: deferring_def)
  with s1 assms(2,3) show "\<exists>st. r_stages r' = r_stages r @ st \<and> Q res st" by (intro exI[of _ "s1 @ tail"]) simp
qed

text \<open>A step that passes no stage, and its combinations.\<close>

definition quiet :: "('w, 'a) step \<Rightarrow> bool" where
  "quiet m \<longleftrightarrow> adds m (\<lambda>_ st. st = [])"

lemma quiet_basic [simp]: "quiet (give x)" "quiet (emit ps)" "quiet (failStep l e)" "quiet (\<lambda>r. (Inl e, r))" "quiet (ask f)" "quiet (act g)"
  unfolding quiet_def
  by (rule adds_mono[OF adds_give] adds_mono[OF adds_emit] adds_mono[OF adds_failStep] adds_mono[OF adds_fail]
      adds_mono[OF adds_ask] adds_mono[OF adds_act], simp)+

lemma quiet_andThen: "quiet m \<Longrightarrow> (\<And>x. quiet (k x)) \<Longrightarrow> quiet (andThen m k)"
  unfolding quiet_def by (erule adds_andThen[where K = "\<lambda>_ _ st. st = []"]) auto

lemma quiet_when: "quiet m \<Longrightarrow> quiet (when_step b m)"
  by (simp add: when_step_def)

text \<open>A quiet start of a chain does not matter; an asked value is one of some world.\<close>

lemma adds_after_quiet:
  "quiet m \<Longrightarrow> (\<And>x. adds (k x) Q) \<Longrightarrow> (\<And>e. Q (Inl e) []) \<Longrightarrow> adds (andThen m k) Q"
  unfolding quiet_def by (erule adds_andThen[where K = "\<lambda>_. Q"]) auto

lemma adds_after_ask: "(\<And>w. adds (k (f w)) Q) \<Longrightarrow> adds (andThen (ask f) k) Q"
  by (auto simp: adds_def andThen_def ask_def)

lemma adds_after_act: "(\<And>w. adds (k (fst (f w))) Q) \<Longrightarrow> adds (andThen (act f) k) Q"
  unfolding adds_def andThen_def act_def
  by (auto split: prod.splits) (metis fst_conv run.select_convs(3) run.surjective run.update_convs(1))

lemma adds_if: "(b \<Longrightarrow> adds m Q) \<Longrightarrow> (\<not> b \<Longrightarrow> adds n Q) \<Longrightarrow> adds (if b then m else n) Q"
  by simp

text \<open>The answers of git: an option, and an error or a list.\<close>

lemma adds_option: "(x = None \<Longrightarrow> adds n Q) \<Longrightarrow> (\<And>a. x = Some a \<Longrightarrow> adds (s a) Q) \<Longrightarrow> adds (case x of None \<Rightarrow> n | Some a \<Rightarrow> s a) Q"
  by (cases x) simp_all

lemma adds_answer:
  "(\<And>e. x = Inl e \<Longrightarrow> adds (l e) Q) \<Longrightarrow> (x = Inr [] \<Longrightarrow> adds n Q) \<Longrightarrow> (\<And>p ps. x = Inr (p # ps) \<Longrightarrow> adds (c p ps) Q) \<Longrightarrow>
   adds (case x of Inl e \<Rightarrow> l e | Inr ys \<Rightarrow> (case ys of [] \<Rightarrow> n | p # ps \<Rightarrow> c p ps)) Q"
  by (auto split: sum.split list.split)

section \<open>What each part records\<close>

definition either :: "(string \<Rightarrow> stage list \<Rightarrow> bool) \<Rightarrow> ('a \<Rightarrow> stage list \<Rightarrow> bool) \<Rightarrow> string + 'a \<Rightarrow> stage list \<Rightarrow> bool" where
  "either L R res st = (case res of Inl e \<Rightarrow> L e st | Inr x \<Rightarrow> R x st)"

lemma either_simps [simp]: "either L R (Inl e) st = L e st" "either L R (Inr x) st = R x st"
  by (simp_all add: either_def)

abbreviation none_yet :: "string \<Rightarrow> stage list \<Rightarrow> bool" where "none_yet \<equiv> \<lambda>_ st. st = []"

lemma fetchTarget_adds: "adds (fetchTarget M A t suffix) (\<lambda>res st. st = [] \<or> st = [Fetched])"
proof -
  have "adds (andThen (emit ps) (\<lambda>_. passed Fetched)) (\<lambda>res st. st = [] \<or> st = [Fetched])" for ps
    by (rule adds_after_quiet) (auto intro: adds_mono[OF adds_passed])
  then show ?thesis unfolding fetchTarget_def
    by (auto intro!: adds_if adds_after_act adds_mono[OF adds_give] adds_mono[OF adds_failStep] split: prod.split option.split)
qed

text \<open>The verdicts behind two of the stages, in the world they were asked in.\<close>

definition section_passes :: "'w merge_ops \<Rightarrow> merge_args \<Rightarrow> PostMergeOptions \<Rightarrow> Target \<Rightarrow> string \<Rightarrow> bool" where
  "section_passes M A pm t sha \<longleftrightarrow>
     (\<exists>w announce ps. requirePostMergeSectionAccepted (m_sum256 M) (sweatfile_at M w) (ma_branch A) (TargetRef t) sha
        (pm_AcceptPostMergeDigest pm) announce = SectionPasses ps)"

definition policy_passes :: "'w merge_ops \<Rightarrow> merge_args \<Rightarrow> PostMergeOptions \<Rightarrow> Sweatfile \<Rightarrow> Target \<Rightarrow> string \<Rightarrow> string \<Rightarrow> bool" where
  "policy_passes M A pm session t pinned landing \<longleftrightarrow>
     (\<exists>w ps. fst (runAttestationPolicy (m_outside M) (pm_Gate pm) session (merge_shas_of A pm t pinned landing) w) = (None, ps))"

lemma requireSection_adds:
  "adds (requireSection M A pm t sha announce) (either none_yet (\<lambda>_ st. st = [SectionOk sha] \<and> section_passes M A pm t sha))"
  unfolding requireSection_def
proof (rule adds_after_ask)
  fix w
  let ?v = "requirePostMergeSectionAccepted (m_sum256 M) (sweatfile_at M w) (ma_branch A) (TargetRef t) sha (pm_AcceptPostMergeDigest pm) announce"
  show "adds (case ?v of SectionPasses ps \<Rightarrow> andThen (emit ps) (\<lambda>_. passed (SectionOk sha))
        | SectionRefused msg \<Rightarrow> failStep (''post-merge section '' @ ma_branch A) msg)
     (either none_yet (\<lambda>_ st. st = [SectionOk sha] \<and> section_passes M A pm t sha))"
  proof (cases ?v)
    case (SectionPasses ps)
    then have "section_passes M A pm t sha" unfolding section_passes_def by blast
    with SectionPasses show ?thesis by (auto intro!: adds_after_quiet adds_mono[OF adds_passed])
  next
    case (SectionRefused msg)
    then show ?thesis by (auto intro!: adds_mono[OF adds_failStep])
  qed
qed

lemma policyStage_adds:
  "adds (policyStage M A pm session t pinned landing)
     (either none_yet (\<lambda>_ st. st = [PolicyOk landing] \<and> policy_passes M A pm session t pinned landing))"
  unfolding policyStage_def
proof (rule adds_after_act)
  fix w
  obtain err ps where v: "fst (runAttestationPolicy (m_outside M) (pm_Gate pm) session (merge_shas_of A pm t pinned landing) w) = (err, ps)"
    by fastforce
  have "adds (case err of None \<Rightarrow> passed (PolicyOk landing) | Some e \<Rightarrow> (\<lambda>r. (Inl (policy_text e), r)))
     (either none_yet (\<lambda>_ st. st = [PolicyOk landing] \<and> policy_passes M A pm session t pinned landing))"
  proof (cases err)
    case None
    with v have "policy_passes M A pm session t pinned landing" unfolding policy_passes_def by blast
    with None show ?thesis by (auto intro: adds_mono[OF adds_passed])
  qed (auto intro: adds_mono[OF adds_fail])
  then show "adds (case fst (runAttestationPolicy (m_outside M) (pm_Gate pm) session (merge_shas_of A pm t pinned landing) w) of
       (err, ps) \<Rightarrow> andThen (emit ps) (\<lambda>_. case err of None \<Rightarrow> passed (PolicyOk landing) | Some e \<Rightarrow> (\<lambda>r. (Inl (policy_text e), r))))
     (either none_yet (\<lambda>_ st. st = [PolicyOk landing] \<and> policy_passes M A pm session t pinned landing))"
    unfolding v prod.case by (rule adds_after_quiet[rotated]) simp_all
qed

lemma judged_adds:
  "adds (andThen (act gate) (\<lambda>(err, ps). andThen (emit ps) (\<lambda>_. case err of Some e \<Rightarrow> (\<lambda>r. (Inl e, r)) | None \<Rightarrow> passed (GateOk sha))))
     (either none_yet (\<lambda>_ st. st = [GateOk sha]))"
proof (rule adds_after_act)
  fix w
  show "adds (case fst (gate w) of (err, ps) \<Rightarrow> andThen (emit ps) (\<lambda>_. case err of Some e \<Rightarrow> (\<lambda>r. (Inl e, r)) | None \<Rightarrow> passed (GateOk sha)))
     (either none_yet (\<lambda>_ st. st = [GateOk sha]))"
    by (auto split: prod.split option.split intro!: adds_after_quiet intro: adds_mono[OF adds_passed] adds_mono[OF adds_fail])
qed

lemma preMerge_adds: "adds (runPreMergeHookContext M A sha guarded) (either none_yet (\<lambda>_ st. st = [GateOk sha]))"
  unfolding runPreMergeHookContext_def Let_def
proof (rule adds_after_ask)
  fix w
  show "adds (case trustedHierarchy M A w of
       None \<Rightarrow> if guarded then failStep (''guarded gate '' @ ma_branch A)
           ''the trusted sweatfile hierarchy did not load (home unresolvable, or the default branch's sweatfile unreadable), so no guarded gate could be chosen; nothing landed''
         else passed (GateOk sha)
     | Some h \<Rightarrow> andThen (act (if guarded then m_guardedGate M h sha else m_preMergeHook M h sha))
         (\<lambda>(err, ps). andThen (emit ps) (\<lambda>_. case err of None \<Rightarrow> passed (GateOk sha) | Some e \<Rightarrow> (\<lambda>r. (Inl e, r)))))
     (either none_yet (\<lambda>_ st. st = [GateOk sha]))"
    by (auto split: option.split intro!: adds_if judged_adds[simplified] adds_mono[OF adds_failStep] adds_mono[OF adds_passed])
qed

lemma addLandingWorktree_adds:
  "adds (addLandingWorktree M A pinned) (either none_yet (\<lambda>p st. st = [LandTree p]))"
  unfolding addLandingWorktree_def
proof (rule adds_after_act)
  fix w
  have "adds (andThen (passed (LandTree p)) (\<lambda>_. give p)) (either none_yet (\<lambda>p st. st = [LandTree p]))" for p
    by (rule adds_andThen[OF adds_passed adds_give]) auto
  then show "adds (case fst (addTransientWorktree (m_outside M) (ma_repoPath A) LandWorktreePrefix (ma_branch A) pinned w) of
        Inl e \<Rightarrow> failStep (''land '' @ ma_branch A) (''landing worktree: '' @ e)
      | Inr path \<Rightarrow> andThen (passed (LandTree path)) (\<lambda>_. give path)) (either none_yet (\<lambda>p st. st = [LandTree p]))"
    by (auto split: sum.split intro: adds_mono[OF adds_failStep])
qed

lemma preflight_quiet: "quiet (PreflightMergeDrivers M A d r)"
  unfolding PreflightMergeDrivers_def Let_def
  by (rule quiet_andThen) (auto split: prod.split option.split intro: quiet_andThen)

lemma rebaseLanding_adds: "adds (rebaseLanding M A landPath ref) (either none_yet (\<lambda>sha st. st = [RebasedTo sha]))"
proof -
  let ?Q = "either none_yet (\<lambda>sha st. st = [RebasedTo sha])"
  have fails: "adds (failStep l e) ?Q" for l e by (rule adds_mono[OF adds_failStep]) simp
  have rebased: "adds (andThen (passed (RebasedTo sha)) (\<lambda>_. give sha)) ?Q" for sha
    by (rule adds_andThen[OF adds_passed adds_give]) auto
  have head: "adds (case head of None \<Rightarrow> failStep (''land '' @ ma_branch A) ''could not resolve landing HEAD''
      | Some sha \<Rightarrow> andThen (passed (RebasedTo sha)) (\<lambda>_. give sha)) ?Q" for head
    using rebased fails by (cases head) simp_all
  show ?thesis unfolding rebaseLanding_def
    by (rule adds_after_quiet[OF preflight_quiet])
       (auto split: option.split intro!: adds_after_act adds_after_ask head fails rebased adds_mono[OF adds_fail])
qed

text \<open>The teardown removes only when nothing keeps the worktree.\<close>

definition teardown_stages :: "merge_args \<Rightarrow> bool \<Rightarrow> stage list \<Rightarrow> bool" where
  "teardown_stages A tipMatchesPin st \<longleftrightarrow>
     st = [] \<or> (st = [WorktreeRemoved] \<or> st = [WorktreeRemoved, BranchDeleted]) \<and> tipMatchesPin \<and> \<not> ma_inSession A"

lemma remove_session_adds:
  "adds (remove_session M A forced) (\<lambda>_ st. st = [] \<or> st = [WorktreeRemoved] \<or> st = [WorktreeRemoved, BranchDeleted])"
proof -
  let ?Q = "\<lambda>_ st. st = [] \<or> st = [WorktreeRemoved] \<or> st = [WorktreeRemoved, BranchDeleted]"
  have deleted: "adds (andThen (act (m_branchDelete M forced (ma_branch A))) (\<lambda>deleted. case deleted of
      Some e \<Rightarrow> failStep l e
    | None \<Rightarrow> andThen (emit ps) (\<lambda>_. passed BranchDeleted))) (\<lambda>_ st. st = [] \<or> st = [BranchDeleted])" for ps l
    by (auto intro!: adds_after_act adds_after_quiet adds_mono[OF adds_failStep] adds_mono[OF adds_passed] split: option.split)
  have removed: "adds (andThen (passed WorktreeRemoved) (\<lambda>_. andThen (act (m_branchDelete M forced (ma_branch A))) (\<lambda>deleted. case deleted of
      Some e \<Rightarrow> failStep l e
    | None \<Rightarrow> andThen (emit ps) (\<lambda>_. passed BranchDeleted)))) ?Q" for ps l
    by (rule adds_andThen[OF adds_passed deleted]) auto
  show ?thesis unfolding remove_session_def Let_def
    by (intro adds_after_act adds_after_quiet[OF quiet_basic(2)])
       (auto split: option.split intro!: adds_after_quiet[OF quiet_basic(2)] removed adds_mono[OF adds_failStep])
qed

lemma teardown_adds: "adds (teardownAndPush M A push forced tipMatchesPin) (\<lambda>_ st. teardown_stages A tipMatchesPin st)"
proof -
  let ?Q = "\<lambda>_ st. teardown_stages A tipMatchesPin st"
  have why: "adds (case keep_reason M A tipMatchesPin w of Some y \<Rightarrow> emit [p y] | None \<Rightarrow> remove_session M A forced)
      (\<lambda>_ st. st = [] \<or> (st = [WorktreeRemoved] \<or> st = [WorktreeRemoved, BranchDeleted]) \<and> tipMatchesPin)" for w p
  proof (cases "keep_reason M A tipMatchesPin w")
    case None
    then have "tipMatchesPin" by (auto simp: keep_reason_def split: if_splits)
    with None remove_session_adds[of M A forced] show ?thesis by (simp add: adds_mono)
  qed (auto intro: adds_mono[OF adds_emit])
  have removal: "adds (when_step (\<not> ma_inSession A \<and> \<not> inside \<and> \<not> live)
       (andThen (ask (keep_reason M A tipMatchesPin)) (\<lambda>why. case why of Some y \<Rightarrow> emit [p y] | None \<Rightarrow> remove_session M A forced))) ?Q"
    for inside live p
    unfolding when_step_def
    by (auto intro!: adds_after_ask adds_mono[OF why] adds_mono[OF adds_give] simp: teardown_stages_def)
  have rest: "quiet (andThen (if push
        then andThen (act (m_push M)) (\<lambda>err. case err of Some e \<Rightarrow> failStep ''push'' e | None \<Rightarrow> emit [PointOk ''push''])
        else give ()) (\<lambda>_. if ma_inSession A \<or> live then give () else act (\<lambda>w. ((), m_requestClose M (ma_branch A) w))))" for live
    by (auto intro!: quiet_andThen split: option.split)
  show ?thesis unfolding teardownAndPush_def Let_def
    by (intro adds_after_ask adds_after_quiet[OF quiet_when[OF quiet_basic(2)]] adds_andThen[OF removal rest[unfolded quiet_def]])
       (auto simp: teardown_stages_def)
qed

text \<open>What the phase runs is named by the sweatfile at the landed commit.\<close>

definition section_commands :: "PostMergeSection \<Rightarrow> string set" where
  "section_commands s = pst_Command ` set (pms_Targets s) \<union> set_option (pms_LegacyHook s)"

definition phase_stages :: "'w merge_ops \<Rightarrow> string \<Rightarrow> stage list \<Rightarrow> bool" where
  "phase_stages M landed st \<longleftrightarrow>
     st = [] \<or> (\<exists>cmds w sf. st = [PhaseRun cmds] \<and> sweatfile_at M w landed = Some sf \<and> PostMergePhaseActive sf \<and>
       set cmds \<subseteq> section_commands (PostMergeSectionOf sf))"

lemma selected_subset: "selectPostMergeTargets active requested = Inr chosen \<Longrightarrow> set chosen \<subseteq> set active"
  by (auto simp: selectPostMergeTargets_def Let_def split: option.splits if_splits)

lemma section_command_target: "t \<in> set (ActivePostMergeTargets sf) \<Longrightarrow> pt_Command t \<in> section_commands (PostMergeSectionOf sf)"
  by (force simp: section_commands_def PostMergeSectionOf_def section_target_def)

lemma section_command_hook: "PostMergeHookCommand sf = Some c \<Longrightarrow> c \<in> section_commands (PostMergeSectionOf sf)"
  by (simp add: section_commands_def PostMergeSectionOf_def)

lemma phase_commands_adds:
  assumes "sweatfile_at M w landed = Some sf" "PostMergePhaseActive sf" "set selected \<subseteq> set (ActivePostMergeTargets sf)"
  shows "adds (phase_commands M A sf selected pm pinned landed dir) (\<lambda>_ st. phase_stages M landed st)"
proof -
  have ran: "adds (andThen (act f) (\<lambda>x. andThen (emit (g x)) (\<lambda>_. passed (PhaseRun cmds)))) (\<lambda>_ st. phase_stages M landed st)"
    if "set cmds \<subseteq> section_commands (PostMergeSectionOf sf)" for f :: "'a \<Rightarrow> 'x \<times> 'a" and g cmds
  proof -
    have "phase_stages M landed [PhaseRun cmds]" using that assms(1,2) unfolding phase_stages_def by blast
    moreover have "phase_stages M landed []" by (simp add: phase_stages_def)
    ultimately show ?thesis by (auto intro!: adds_after_act adds_after_quiet adds_mono[OF adds_passed])
  qed
  have none: "adds (give ()) (\<lambda>_ st. phase_stages M landed st)" by (rule adds_mono[OF adds_give]) (simp add: phase_stages_def)
  have "set (map pt_Command selected) \<subseteq> section_commands (PostMergeSectionOf sf)"
    using assms(3) section_command_target by auto
  with section_command_hook[of sf] show ?thesis
    unfolding phase_commands_def Let_def by (auto split: option.split intro!: ran none)
qed

lemma runDir_quiet: "quiet (postMergeRunDir M A landDir landed)"
  unfolding postMergeRunDir_def by (auto intro!: quiet_andThen split: sum.split)

lemma phase_adds: "adds (runPostMergePhase M A pm landDir pinned landed) (\<lambda>_ st. phase_stages M landed st)"
proof -
  have none: "phase_stages M landed []" by (simp add: phase_stages_def)
  have active: "adds (andThen (postMergeRunDir M A landDir landed) (\<lambda>(dir, temporary).
      deferring (\<lambda>r. case temporary of None \<Rightarrow> r | Some d \<Rightarrow> r\<lparr>r_world := o_worktreeRemove (m_outside M) d (r_world r)\<rparr>)
        (phase_commands M A sf chosen pm pinned landed dir))) (\<lambda>_ st. phase_stages M landed st)"
    if "o_home (m_outside M) \<noteq> []" "o_sweatfileAt (m_outside M) landed w = Some sf" "PostMergePhaseActive sf"
       "set chosen \<subseteq> set (ActivePostMergeTargets sf)" for sf w chosen
  proof (rule adds_after_quiet[OF runDir_quiet])
    have at: "sweatfile_at M w landed = Some sf" using that by (simp add: sweatfile_at_def)
    show "adds (case d of (dir, temporary) \<Rightarrow>
        deferring (\<lambda>r. case temporary of None \<Rightarrow> r | Some d \<Rightarrow> r\<lparr>r_world := o_worktreeRemove (m_outside M) d (r_world r)\<rparr>)
        (phase_commands M A sf chosen pm pinned landed dir)) (\<lambda>_ st. phase_stages M landed st)" for d
      by (cases d) (auto intro!: adds_deferring[OF phase_commands_adds[OF at that(3,4)], where tail = "[]"] split: option.split)
  qed (rule none)
  show ?thesis unfolding runPostMergePhase_def
    by (intro adds_after_act adds_if adds_after_ask)
       (auto intro!: adds_mono[OF adds_give] adds_mono[OF adds_emit] active none dest: selected_subset[THEN subsetD]
         split: option.split sum.split if_split)
qed

section \<open>The trace of a merge\<close>

text \<open>Stages before, or after, anything that cannot be taken back.\<close>

fun early :: "stage \<Rightarrow> bool" where
  "early (LandedAt _) = False"
| "early (TipRead _) = False"
| "early WorktreeRemoved = False"
| "early BranchDeleted = False"
| "early (PhaseRun _) = False"
| "early _ = True"

definition landed_stages :: "'w merge_ops \<Rightarrow> merge_args \<Rightarrow> bool \<Rightarrow> string \<Rightarrow> string \<Rightarrow> stage list \<Rightarrow> bool" where
  "landed_stages M A queued pinned sha st \<longleftrightarrow>
     (\<exists>tip removed ran. st = LandedAt sha # tip @ removed @ ran \<and> phase_stages M sha ran \<and>
        (tip = [] \<and> teardown_stages A True removed \<and> (queued \<longrightarrow> removed = []) \<or> (\<exists>v. tip = [TipRead v] \<and> teardown_stages A (v = Some pinned) removed)))"

definition verified_stages ::
  "'w merge_ops \<Rightarrow> merge_args \<Rightarrow> PostMergeOptions \<Rightarrow> Sweatfile \<Rightarrow> Target \<Rightarrow> bool \<Rightarrow> string \<Rightarrow> string \<Rightarrow> stage list \<Rightarrow> bool" where
  "verified_stages M A pm session t queued pinned sha st \<longleftrightarrow>
     (\<exists>landed. st = [SectionOk sha, PolicyOk sha, GateOk sha] @ landed \<and> landed_stages M A queued pinned sha landed \<and>
        section_passes M A pm t sha \<and> policy_passes M A pm session t pinned sha)"

definition failed_early :: "string + unit \<Rightarrow> stage list \<Rightarrow> bool" where
  "failed_early res st \<longleftrightarrow> (\<exists>e. res = Inl e) \<and> list_all early st"

lemma failed_early_simps [simp]: "failed_early (Inl e) st = list_all early st" "failed_early (Inr x) st = False"
  by (simp_all add: failed_early_def)

lemma failed_early_Cons [simp]: "early x \<Longrightarrow> failed_early res s \<Longrightarrow> failed_early res (x # s)"
  by (auto simp: failed_early_def)

lemma failed_early_append [simp]: "list_all early s1 \<Longrightarrow> failed_early res s2 \<Longrightarrow> failed_early res (s1 @ s2)"
  by (auto simp: failed_early_def)

text \<open>The three verdicts in front of a landing.\<close>

lemma verdicts_adds:
  assumes landed: "adds land (\<lambda>res st. failed_early res st \<or> landed_stages M A queued pinned sha st)"
  shows "adds (andThen (requireSection M A pm t sha True) (\<lambda>_. andThen (policyStage M A pm session t pinned sha) (\<lambda>_.
      andThen (ask (guardedMerge M pm A)) (\<lambda>guarded. andThen (runPreMergeHookContext M A sha guarded) (\<lambda>_. land)))))
    (\<lambda>res st. failed_early res st \<or> verified_stages M A pm session t queued pinned sha st)"
proof -
  have gate: "adds (andThen (runPreMergeHookContext M A sha guarded) (\<lambda>_. land))
      (\<lambda>res st. failed_early res st \<or> (\<exists>u. st = GateOk sha # u \<and> landed_stages M A queued pinned sha u))" for guarded
    by (rule adds_andThen[OF preMerge_adds landed]) auto
  have asked: "adds (andThen (ask (guardedMerge M pm A)) (\<lambda>guarded. andThen (runPreMergeHookContext M A sha guarded) (\<lambda>_. land)))
      (\<lambda>res st. failed_early res st \<or> (\<exists>u. st = GateOk sha # u \<and> landed_stages M A queued pinned sha u))"
    by (rule adds_after_ask) (rule gate)
  have policy: "adds (andThen (policyStage M A pm session t pinned sha) (\<lambda>_.
      andThen (ask (guardedMerge M pm A)) (\<lambda>guarded. andThen (runPreMergeHookContext M A sha guarded) (\<lambda>_. land))))
      (\<lambda>res st. failed_early res st \<or> policy_passes M A pm session t pinned sha \<and>
         (\<exists>u. st = PolicyOk sha # GateOk sha # u \<and> landed_stages M A queued pinned sha u))"
    by (rule adds_andThen[OF policyStage_adds asked]) auto
  show ?thesis
  proof (rule adds_andThen[OF requireSection_adds policy])
    fix x s1 res s2
    assume one: "either none_yet (\<lambda>_ st. st = [SectionOk sha] \<and> section_passes M A pm t sha) (Inr x) s1"
      and two: "failed_early res s2 \<or> policy_passes M A pm session t pinned sha \<and>
         (\<exists>u. s2 = PolicyOk sha # GateOk sha # u \<and> landed_stages M A queued pinned sha u)"
    from one have s1: "s1 = [SectionOk sha]" "section_passes M A pm t sha" by simp_all
    from two show "failed_early res (s1 @ s2) \<or> verified_stages M A pm session t queued pinned sha (s1 @ s2)"
    proof
      assume "failed_early res s2"
      with s1 show ?thesis by (simp only: failed_early_append list.pred_inject early.simps simp_thms)
    next
      assume "policy_passes M A pm session t pinned sha \<and>
         (\<exists>u. s2 = PolicyOk sha # GateOk sha # u \<and> landed_stages M A queued pinned sha u)"
      with s1 show ?thesis unfolding verified_stages_def by auto
    qed
  qed simp
qed

text \<open>Passing a stage in front, or a quiet step, keeps these forms.\<close>

lemma landed_tip:
  "phase_stages M sha phase \<Longrightarrow> teardown_stages A (tip = Some pinned) removed \<Longrightarrow>
   landed_stages M A True pinned sha (LandedAt sha # TipRead tip # removed @ phase)"
  unfolding landed_stages_def
  by (intro exI[of _ "[TipRead tip]"] exI[of _ removed] exI[of _ phase]) simp

lemma landing_adds:
  "adds (andThen (passed (LandedAt sha)) (\<lambda>_. andThen (emit ps) (\<lambda>_. andThen (reportPush t sha) (\<lambda>_.
      andThen (reportLocalAdvance M t sha) (\<lambda>_. andThen (ask (g_revParse M ref)) (\<lambda>tip. andThen (passed (TipRead tip)) (\<lambda>_.
      andThen (teardownAndPush M A False True (tip = Some pinned)) (\<lambda>_. runPostMergePhase M A pm landPath pinned sha))))))))
    (\<lambda>res st. landed_stages M A True pinned sha st)"
proof -
  have none: "phase_stages M sha []" "teardown_stages A b []" for b by (simp_all add: phase_stages_def teardown_stages_def)
  have after: "adds (andThen (teardownAndPush M A False True (tip = Some pinned)) (\<lambda>_. runPostMergePhase M A pm landPath pinned sha))
      (\<lambda>_ st. \<exists>removed ran. st = removed @ ran \<and> phase_stages M sha ran \<and> teardown_stages A (tip = Some pinned) removed)" for tip
    by (rule adds_andThen[OF teardown_adds phase_adds]) (use none in auto)
  have tip: "adds (andThen (passed (TipRead tip)) (\<lambda>_.
      andThen (teardownAndPush M A False True (tip = Some pinned)) (\<lambda>_. runPostMergePhase M A pm landPath pinned sha)))
      (\<lambda>_ st. landed_stages M A True pinned sha (LandedAt sha # st))" for tip
    by (rule adds_andThen[OF adds_passed after]) (use landed_tip in auto)
  have quiet: "quiet (reportPush t sha :: ('a, unit) step)" "quiet (reportLocalAdvance M t sha)"
    unfolding reportPush_def reportLocalAdvance_def by (auto intro: quiet_andThen)
  have unrun: "landed_stages M A True pinned sha [LandedAt sha]" using none by (auto simp: landed_stages_def)
  have rest: "adds (andThen (emit ps) (\<lambda>_. andThen (reportPush t sha) (\<lambda>_.
      andThen (reportLocalAdvance M t sha) (\<lambda>_. andThen (ask (g_revParse M ref)) (\<lambda>tip. andThen (passed (TipRead tip)) (\<lambda>_.
      andThen (teardownAndPush M A False True (tip = Some pinned)) (\<lambda>_. runPostMergePhase M A pm landPath pinned sha)))))))
      (\<lambda>_ st. landed_stages M A True pinned sha (LandedAt sha # st))"
    by (intro adds_after_quiet[OF quiet_basic(2)] adds_after_quiet[OF quiet(1)] adds_after_quiet[OF quiet(2)] adds_after_ask tip)
       (simp_all only: unrun)
  show ?thesis by (rule adds_andThen[OF adds_passed rest]) auto
qed

lemma verify_and_land_adds:
  "adds (verify_and_land M A pm session t landPath pinned sha rebased)
     (\<lambda>res st. failed_early res st \<or> verified_stages M A pm session t True pinned sha st)"
  unfolding verify_and_land_def Let_def
proof (rule verdicts_adds, rule adds_after_act)
  let ?l = "''merge '' @ ma_branch A @ (if rebased then '' (rebased onto moved '' @ ma_defaultBranch A @ '')'' else [])"
  fix w
  obtain out err where v: "fst (Land M t landPath sha w) = (out, err)" by fastforce
  show "adds (case fst (Land M t landPath sha w) of (out, err) \<Rightarrow> case err of
        Some e \<Rightarrow> failStep ?l e
      | None \<Rightarrow> andThen (passed (LandedAt sha)) (\<lambda>_. andThen (emit [PointOk ?l]) (\<lambda>_. andThen (reportPush t sha) (\<lambda>_.
          andThen (reportLocalAdvance M t sha) (\<lambda>_. andThen (ask (g_revParse M (''refs/heads/'' @ ma_branch A))) (\<lambda>tip.
          andThen (passed (TipRead tip)) (\<lambda>_. andThen (teardownAndPush M A False True (tip = Some pinned)) (\<lambda>_.
            runPostMergePhase M A pm landPath pinned sha))))))))
      (\<lambda>res st. failed_early res st \<or> landed_stages M A True pinned sha st)"
  proof (cases err)
    case None
    show ?thesis unfolding v prod.case None option.case by (rule adds_mono[OF landing_adds]) blast
  next
    case (Some e)
    show ?thesis unfolding v prod.case Some option.case by (rule adds_mono[OF adds_failStep]) (simp add: failed_early_def)
  qed
qed

text \<open>The stages of a whole merge: what it landed was judged, and nothing else was landed.\<close>

definition merged_stages ::
  "'w merge_ops \<Rightarrow> merge_args \<Rightarrow> PostMergeOptions \<Rightarrow> Sweatfile \<Rightarrow> Target \<Rightarrow> bool \<Rightarrow> string \<Rightarrow> stage list \<Rightarrow> bool" where
  "merged_stages M A pm session t queued pinned st \<longleftrightarrow>
     (\<exists>pre sha body post. st = pre @ body @ post \<and> list_all early pre \<and> list_all early post \<and>
        (sha = pinned \<or> RebasedTo sha \<in> set pre) \<and> verified_stages M A pm session t queued pinned sha body)"

lemma merged_stagesI:
  "list_all early pre \<Longrightarrow> list_all early post \<Longrightarrow> sha = pinned \<or> RebasedTo sha \<in> set pre \<Longrightarrow>
   verified_stages M A pm session t queued pinned sha body \<Longrightarrow> merged_stages M A pm session t queued pinned (pre @ body @ post)"
  unfolding merged_stages_def by blast

lemma merged_stagesE:
  assumes "merged_stages M A pm session t queued pinned st"
  obtains pre sha body post where "st = pre @ body @ post" "list_all early pre" "list_all early post"
    "sha = pinned \<or> RebasedTo sha \<in> set pre" "verified_stages M A pm session t queued pinned sha body"
  using assms unfolding merged_stages_def by blast

lemma merged_Cons:
  assumes "early x" "merged_stages M A pm session t queued pinned st"
  shows "merged_stages M A pm session t queued pinned (x # st)"
  using assms(2)
proof (cases rule: merged_stagesE)
  case (1 pre sha body post)
  have "merged_stages M A pm session t queued pinned ((x # pre) @ body @ post)"
    by (rule merged_stagesI) (use 1 assms(1) in auto)
  with 1(1) show ?thesis by simp
qed

lemma merged_append:
  "list_all early s1 \<Longrightarrow> merged_stages M A pm session t queued pinned st \<Longrightarrow> merged_stages M A pm session t queued pinned (s1 @ st)"
  by (induction s1) (simp_all add: merged_Cons)

lemma merged_snoc:
  assumes "early x" "merged_stages M A pm session t queued pinned st"
  shows "merged_stages M A pm session t queued pinned (st @ [x])"
  using assms(2)
proof (cases rule: merged_stagesE)
  case (1 pre sha body post)
  have "merged_stages M A pm session t queued pinned (pre @ body @ post @ [x])"
    by (rule merged_stagesI) (use 1 assms(1) in auto)
  with 1(1) show ?thesis by simp
qed

lemma verified_merged: "verified_stages M A pm session t queued pinned pinned st \<Longrightarrow> merged_stages M A pm session t queued pinned st"
  using merged_stagesI[of "[]" "[]" pinned pinned M A pm session t queued st] by simp

lemma rebased_merged:
  "verified_stages M A pm session t queued pinned sha st \<Longrightarrow> merged_stages M A pm session t queued pinned (RebasedTo sha # st)"
  using merged_stagesI[of "[RebasedTo sha]" "[]" sha pinned M A pm session t queued st] by simp

lemma land_from_adds:
  "adds (land_from M A pm session t landPath pinned needRebase)
     (\<lambda>res st. failed_early res st \<or> merged_stages M A pm session t True pinned st)"
proof -
  let ?Q = "\<lambda>res st. failed_early res st \<or> merged_stages M A pm session t True pinned st"
  have chosen: "adds (andThen (if needRebase then rebaseLanding M A landPath (TargetRef t) else give pinned) (\<lambda>sha.
      verify_and_land M A pm session t landPath pinned sha needRebase)) ?Q"
  proof (cases needRebase)
    case True
    show ?thesis unfolding if_P[OF True]
      by (rule adds_andThen[OF rebaseLanding_adds verify_and_land_adds]) (auto simp: rebased_merged)
  next
    case False
    show ?thesis unfolding if_not_P[OF False]
      by (rule adds_andThen[OF adds_give verify_and_land_adds]) (auto simp: verified_merged)
  qed
  have mirrored: "adds (if ma_gitSync A
      then andThen (act (m_mirror M landPath)) (\<lambda>err. case err of
          Some e \<Rightarrow> failStep (''land '' @ ma_branch A) (''mirror push credential into landing worktree: '' @ e)
        | None \<Rightarrow> passed Mirrored)
      else give ()) (\<lambda>_ st. st = [] \<or> st = [Mirrored])"
    by (auto intro!: adds_if adds_after_act adds_mono[OF adds_give] adds_mono[OF adds_failStep] adds_mono[OF adds_passed] split: option.split)
  show ?thesis unfolding land_from_def
    by (rule adds_andThen[OF mirrored chosen]) (auto simp: merged_Cons)
qed

lemma locked_landing_adds:
  "adds (locked_landing M A pm session pinned)
     (\<lambda>res st. failed_early res st \<or> (\<exists>w. merged_stages M A pm session (merge_target M A w) True pinned st))"
  unfolding locked_landing_def
proof (rule adds_after_ask)
  fix w
  let ?t = "merge_target M A w"
  let ?Q = "\<lambda>res st. failed_early res st \<or> merged_stages M A pm session ?t True pinned st"
  have tree: "adds (deferring (drop_land_tree M landPath) (land_from M A pm session ?t landPath pinned needRebase)) ?Q" for landPath needRebase
  proof (cases "landPath = []")
    case True
    show ?thesis by (rule adds_deferring[OF land_from_adds, where tail = "[]"]) (auto simp: drop_land_tree_def True)
  next
    case False
    show ?thesis
      by (rule adds_deferring[OF land_from_adds, where tail = "[LandTreeRemoved landPath]"])
         (auto simp: drop_land_tree_def False failed_early_def merged_snoc)
  qed
  have made: "adds (if ma_gitSync A \<or> needRebase then addLandingWorktree M A pinned else give [])
      (either none_yet (\<lambda>p st. st = [] \<or> st = [LandTree p]))" for needRebase
    by (auto intro!: adds_if adds_mono[OF adds_give] adds_mono[OF addLandingWorktree_adds] simp: either_def split: sum.split sum.splits)
  have landing: "adds (andThen (if ma_gitSync A \<or> needRebase then addLandingWorktree M A pinned else give []) (\<lambda>landPath.
      deferring (drop_land_tree M landPath) (land_from M A pm session ?t landPath pinned needRebase))) ?Q" for needRebase
    by (rule adds_andThen[OF made tree]) (auto simp: merged_Cons)
  have chosen: "adds (andThen (ask (\<lambda>w. \<not> g_isAncestor M (TargetRef ?t) pinned w)) (\<lambda>needRebase.
     andThen (if ma_gitSync A \<or> needRebase then addLandingWorktree M A pinned else give []) (\<lambda>landPath.
       deferring (drop_land_tree M landPath) (land_from M A pm session ?t landPath pinned needRebase)))) ?Q"
    by (rule adds_after_ask) (rule landing)
  show "adds (andThen (fetchTarget M A ?t '' (landing)'') (\<lambda>_.
     andThen (ask (\<lambda>w. \<not> g_isAncestor M (TargetRef ?t) pinned w)) (\<lambda>needRebase.
     andThen (if ma_gitSync A \<or> needRebase then addLandingWorktree M A pinned else give []) (\<lambda>landPath.
       deferring (drop_land_tree M landPath) (land_from M A pm session ?t landPath pinned needRebase)))))
     (\<lambda>res st. failed_early res st \<or> (\<exists>w. merged_stages M A pm session (merge_target M A w) True pinned st))"
  proof (rule adds_mono)
    show "adds (andThen (fetchTarget M A ?t '' (landing)'') (\<lambda>_.
       andThen (ask (\<lambda>w. \<not> g_isAncestor M (TargetRef ?t) pinned w)) (\<lambda>needRebase.
       andThen (if ma_gitSync A \<or> needRebase then addLandingWorktree M A pinned else give []) (\<lambda>landPath.
         deferring (drop_land_tree M landPath) (land_from M A pm session ?t landPath pinned needRebase))))) ?Q"
      by (rule adds_andThen[OF fetchTarget_adds chosen]) (auto simp: merged_Cons)
  qed blast
qed

text \<open>The unqueued path lands the pin itself, and reads no tip.\<close>

lemma landed_no_tip:
  "phase_stages M sha phase \<Longrightarrow> teardown_stages A True removed \<Longrightarrow> landed_stages M A False pinned sha (LandedAt sha # removed @ phase)"
  unfolding landed_stages_def
  by (intro exI[of _ "[]"] exI[of _ removed] exI[of _ phase]) simp

lemma unqueued_adds:
  "adds (finishMergeUnqueued M A pm session pinned)
     (\<lambda>res st. failed_early res st \<or> (\<exists>w. merged_stages M A pm session (merge_target M A w) False pinned st))"
  unfolding finishMergeUnqueued_def
proof (rule adds_after_ask)
  fix w
  let ?t = "merge_target M A w"
  let ?tail = "andThen (emit [PointOk (''merge '' @ ma_branch A)]) (\<lambda>_.
      andThen (if \<not> ma_gitSync A then reportPush ?t pinned else give ()) (\<lambda>_.
      andThen (teardownAndPush M A (ma_gitSync A) False True) (\<lambda>_. runPostMergePhase M A pm [] pinned pinned)))"
  have none: "phase_stages M pinned []" "teardown_stages A True []" by (simp_all add: phase_stages_def teardown_stages_def)
  have after: "adds (andThen (teardownAndPush M A (ma_gitSync A) False True) (\<lambda>_. runPostMergePhase M A pm [] pinned pinned))
      (\<lambda>_ st. landed_stages M A False pinned pinned (LandedAt pinned # st))"
    by (rule adds_andThen[OF teardown_adds phase_adds]) (use none landed_no_tip in force)+
  have unrun: "landed_stages M A False pinned pinned [LandedAt pinned]" using none landed_no_tip by fastforce
  have quiet: "quiet (if \<not> ma_gitSync A then reportPush ?t pinned else give () :: ('a, unit) step)"
    by (auto simp: reportPush_def)
  have tail: "adds ?tail (\<lambda>_ st. landed_stages M A False pinned pinned (LandedAt pinned # st))"
    by (intro adds_after_quiet[OF quiet_basic(2)] adds_after_quiet[OF quiet] after) (simp_all only: unrun)
  have recorded: "adds (andThen (passed (LandedAt pinned)) (\<lambda>_. ?tail)) (\<lambda>_ st. landed_stages M A False pinned pinned st)"
    by (rule adds_andThen[OF adds_passed tail]) auto
  have landed: "adds (case err of Some e \<Rightarrow> failStep l e | None \<Rightarrow> andThen (passed (LandedAt pinned)) (\<lambda>_. ?tail))
      (\<lambda>res st. failed_early res st \<or> landed_stages M A False pinned pinned st)" for err l
  proof (cases err)
    case None
    show ?thesis unfolding None option.case by (rule adds_mono[OF recorded]) blast
  next
    case (Some e)
    show ?thesis unfolding Some option.case by (rule adds_mono[OF adds_failStep]) (simp add: failed_early_def)
  qed
  show "adds (andThen (requireSection M A pm ?t pinned True) (\<lambda>_.
     andThen (policyStage M A pm session ?t pinned pinned) (\<lambda>_.
     andThen (ask (guardedMerge M pm A)) (\<lambda>guarded.
     andThen (runPreMergeHookContext M A pinned guarded) (\<lambda>_.
     andThen (act (m_mergeFFRoot M pinned)) (\<lambda>err.
       case err of Some e \<Rightarrow> failStep (''merge '' @ ma_branch A) e | None \<Rightarrow> andThen (passed (LandedAt pinned)) (\<lambda>_. ?tail)))))))
     (\<lambda>res st. failed_early res st \<or> (\<exists>w. merged_stages M A pm session (merge_target M A w) False pinned st))"
    by (rule adds_mono[OF verdicts_adds[OF adds_after_act[OF landed]]]) (blast intro: verified_merged)
qed

text \<open>The stages of \<open>FinishMerge\<close>.\<close>

definition finished_stages :: "'w merge_ops \<Rightarrow> merge_args \<Rightarrow> PostMergeOptions \<Rightarrow> Sweatfile \<Rightarrow> string \<Rightarrow> string + unit \<Rightarrow> stage list \<Rightarrow> bool" where
  "finished_stages M A pm session pinned res st \<longleftrightarrow>
     (if DisableMergeQueueEnabled session
      then failed_early res st \<or> (\<exists>w. merged_stages M A pm session (merge_target M A w) False pinned st)
      else (\<exists>e. res = Inl e) \<and> st = [] \<or>
        (\<exists>mid. st = Locked # mid @ [Unlocked] \<and>
           (failed_early res mid \<or> (\<exists>w. merged_stages M A pm session (merge_target M A w) True pinned mid))))"

lemma finish_adds:
  "adds (if DisableMergeQueueEnabled session then finishMergeUnqueued M A pm session pinned else finishMergeQueued M A pm session pinned)
     (finished_stages M A pm session pinned)"
proof (cases "DisableMergeQueueEnabled session")
  case True
  show ?thesis unfolding if_P[OF True]
    by (rule adds_mono[OF unqueued_adds]) (simp only: finished_stages_def if_P[OF True])
next
  case False
  let ?R = "finished_stages M A pm session pinned"
  have refused: "adds (failStep l e) ?R" for l e
    by (rule adds_mono[OF adds_failStep]) (simp add: finished_stages_def False)
  have body: "adds (andThen (emit ps) (\<lambda>_. locked_landing M A pm session pinned))
      (\<lambda>res st. failed_early res st \<or> (\<exists>w. merged_stages M A pm session (merge_target M A w) True pinned st))" for ps
    by (rule adds_after_quiet[OF quiet_basic(2) locked_landing_adds]) simp
  have held: "adds (deferring (release_lock M) (andThen (emit ps) (\<lambda>_. locked_landing M A pm session pinned)))
      (\<lambda>res st. \<exists>mid. st = mid @ [Unlocked] \<and>
         (failed_early res mid \<or> (\<exists>w. merged_stages M A pm session (merge_target M A w) True pinned mid)))" for ps
    by (rule adds_deferring[OF body, where tail = "[Unlocked]"]) (auto simp: release_lock_def)
  have locked: "adds (andThen (passed Locked) (\<lambda>_. deferring (release_lock M)
      (andThen (emit ps) (\<lambda>_. locked_landing M A pm session pinned)))) ?R" for ps
    by (rule adds_andThen[OF adds_passed held]) (auto simp: finished_stages_def False)
  have answered: "adds (case a of (err, waited) \<Rightarrow> case err of
        Some e \<Rightarrow> failStep (''merge queue '' @ ma_branch A) e
      | None \<Rightarrow> andThen (passed Locked) (\<lambda>_. deferring (release_lock M)
          (andThen (emit (case waited of None \<Rightarrow> [] | Some l \<Rightarrow> [PointOk l])) (\<lambda>_. locked_landing M A pm session pinned)))) ?R" for a
  proof -
    obtain err waited where "a = (err, waited)" by fastforce
    with refused locked show ?thesis by (cases err) (simp_all only: prod.case option.case)
  qed
  have queue: "adds (case unresolved of
       Some e \<Rightarrow> failStep (''merge queue '' @ ma_branch A) (''resolve git common dir for merge lock: '' @ e)
     | None \<Rightarrow> andThen (act (m_lock M)) (\<lambda>(err, waited). case err of
           Some e \<Rightarrow> failStep (''merge queue '' @ ma_branch A) e
         | None \<Rightarrow> andThen (passed Locked) (\<lambda>_. deferring (release_lock M)
             (andThen (emit (case waited of None \<Rightarrow> [] | Some l \<Rightarrow> [PointOk l])) (\<lambda>_. locked_landing M A pm session pinned))))) ?R" for unresolved
    by (cases unresolved; simp only: option.case) (rule adds_after_act, rule answered, rule refused)
  show ?thesis unfolding if_not_P[OF False] finishMergeQueued_def by (rule adds_after_ask) (rule queue)
qed

lemma FinishMerge_stages:
  assumes "FinishMerge M A pm pinned r = (res, r')"
  obtains st where "r_stages r' = r_stages r @ st" "finished_stages M A pm (session_sweatfile M A (r_world r)) pinned res st"
proof -
  from assms have "(if DisableMergeQueueEnabled (session_sweatfile M A (r_world r))
      then finishMergeUnqueued M A pm (session_sweatfile M A (r_world r)) pinned
      else finishMergeQueued M A pm (session_sweatfile M A (r_world r)) pinned) r = (res, r')"
    by (simp only: FinishMerge_def andThen_def[of "ask _"] ask_def prod.case sum.case)
  with finish_adds show ?thesis using that unfolding adds_def by blast
qed

text \<open>A run that passed a stage it cannot take back landed.\<close>

lemma early_only:
  assumes "list_all early st"
  shows "LandedAt sha \<notin> set st" "TipRead v \<notin> set st" "WorktreeRemoved \<notin> set st" "BranchDeleted \<notin> set st" "PhaseRun c \<notin> set st"
  using assms by (force simp: list_all_iff)+

definition finished_parts ::
  "'w merge_ops \<Rightarrow> merge_args \<Rightarrow> PostMergeOptions \<Rightarrow> Sweatfile \<Rightarrow> string \<Rightarrow> stage list \<Rightarrow>
   stage list \<Rightarrow> string \<Rightarrow> stage list \<Rightarrow> stage list \<Rightarrow> stage list \<Rightarrow> stage list \<Rightarrow> Target \<Rightarrow> bool" where
  "finished_parts M A pm session pinned st pre sha tip removed phase post t \<longleftrightarrow>
     st = pre @ [SectionOk sha, PolicyOk sha, GateOk sha, LandedAt sha] @ tip @ removed @ phase @ post \<and>
     list_all early pre \<and> list_all early post \<and> (sha = pinned \<or> RebasedTo sha \<in> set pre) \<and>
     (\<exists>w. t = merge_target M A w) \<and> section_passes M A pm t sha \<and> policy_passes M A pm session t pinned sha \<and>
     phase_stages M sha phase \<and>
     (tip = [] \<and> teardown_stages A True removed \<and> (removed \<noteq> [] \<longrightarrow> DisableMergeQueueEnabled session) \<or>
      (\<exists>v. tip = [TipRead v] \<and> teardown_stages A (v = Some pinned) removed)) \<and>
     (\<not> DisableMergeQueueEnabled session \<longrightarrow> (\<exists>mid. pre = Locked # mid) \<and> (\<exists>mid. post = mid @ [Unlocked]))"

lemma merged_parts:
  assumes "merged_stages M A pm session (merge_target M A w) queued pinned mid" "queued = (\<not> DisableMergeQueueEnabled session)"
    and "st = (if queued then Locked # mid @ [Unlocked] else mid)"
  shows "\<exists>pre sha tip removed phase post t. finished_parts M A pm session pinned st pre sha tip removed phase post t"
proof -
  from assms(1) obtain pre sha body post where mid: "mid = pre @ body @ post" "list_all early pre" "list_all early post"
      "sha = pinned \<or> RebasedTo sha \<in> set pre" "verified_stages M A pm session (merge_target M A w) queued pinned sha body"
    by (rule merged_stagesE)
  from mid(5) obtain landed where body: "body = [SectionOk sha, PolicyOk sha, GateOk sha] @ landed" "landed_stages M A queued pinned sha landed"
      "section_passes M A pm (merge_target M A w) sha" "policy_passes M A pm session (merge_target M A w) pinned sha"
    unfolding verified_stages_def by blast
  from body(2) obtain tip removed phase where landed: "landed = LandedAt sha # tip @ removed @ phase" "phase_stages M sha phase"
      "tip = [] \<and> teardown_stages A True removed \<and> (queued \<longrightarrow> removed = []) \<or>
       (\<exists>v. tip = [TipRead v] \<and> teardown_stages A (v = Some pinned) removed)"
    unfolding landed_stages_def by blast
  have "finished_parts M A pm session pinned st ((if queued then [Locked] else []) @ pre) sha tip removed phase
      (post @ (if queued then [Unlocked] else [])) (merge_target M A w)"
    unfolding finished_parts_def using mid(1-4) body(1,3,4) landed assms(2,3) by auto
  then show ?thesis by blast
qed

lemma finished_cases:
  assumes "finished_stages M A pm session pinned res st"
  obtains "list_all early st"
  | pre sha tip removed phase post t where "finished_parts M A pm session pinned st pre sha tip removed phase post t"
proof (cases "DisableMergeQueueEnabled session")
  case True
  with assms consider "list_all early st" | w where "merged_stages M A pm session (merge_target M A w) False pinned st"
    by (auto simp: finished_stages_def failed_early_def)
  then show ?thesis
  proof cases
    case 2
    with merged_parts[OF 2, of st] True that show ?thesis by auto
  qed (rule that)
next
  case False
  with assms consider "st = []" | mid where "st = Locked # mid @ [Unlocked]" "list_all early mid"
    | mid w where "st = Locked # mid @ [Unlocked]" "merged_stages M A pm session (merge_target M A w) True pinned mid"
    by (auto simp: finished_stages_def failed_early_def)
  then show ?thesis
  proof cases
    case 3
    with merged_parts[OF 3(2), of st] False that show ?thesis by auto
  qed (auto intro: that)
qed

lemma teardown_set: "teardown_stages A ok st \<Longrightarrow> set st \<subseteq> {WorktreeRemoved, BranchDeleted}"
  by (auto simp: teardown_stages_def)

lemma phase_set: "phase_stages M sha st \<Longrightarrow> set st \<subseteq> range PhaseRun"
  by (auto simp: phase_stages_def)

text \<open>What a run of stages says about a landing it holds.\<close>

lemma finished_landing:
  assumes "finished_stages M A pm session pinned res st" "LandedAt sha \<in> set st"
  obtains pre post t where "st = pre @ [SectionOk sha, PolicyOk sha, GateOk sha, LandedAt sha] @ post"
    "sha = pinned \<or> RebasedTo sha \<in> set pre" "\<forall>s. LandedAt s \<notin> set (pre @ post)"
    "section_passes M A pm t sha" "policy_passes M A pm session t pinned sha"
    "DisableMergeQueueEnabled session \<or> hd st = Locked \<and> last st = Unlocked"
  using assms(1)
proof (cases rule: finished_cases)
  case 1
  with assms(2) early_only(1)[of st sha] show ?thesis by simp
next
  case (2 pre landed tip removed phase post t)
  note parts = this[unfolded finished_parts_def]
  have tip: "LandedAt s \<notin> set tip" for s using parts by auto
  have removed: "LandedAt s \<notin> set removed" for s using parts teardown_set by blast
  have phase: "LandedAt s \<notin> set phase" for s using parts phase_set by blast
  have others: "LandedAt s \<notin> set pre" "LandedAt s \<notin> set post" for s using parts early_only by blast+
  have "landed = sha" using assms(2) parts tip removed phase others by auto
  moreover have "DisableMergeQueueEnabled session \<or> hd st = Locked \<and> last st = Unlocked" using parts by auto
  ultimately show ?thesis using parts tip removed phase others
    by (intro that[of pre "tip @ removed @ phase @ post" t]) auto
qed

section \<open>Properties of a merge\<close>


text \<open>
  C11. A merge removes the session's worktree or deletes its branch only after landing, and never for a
  session it runs inside of; with the queue on only when the branch still is at the pinned commit, as
  read after the landing, so that commits made during the gate are not thrown away.
\<close>

theorem teardown_keeps_late_commits:
  assumes "FinishMerge M A pm pinned r = (res, r')" "r_stages r = []"
    and "WorktreeRemoved \<in> set (r_stages r') \<or> BranchDeleted \<in> set (r_stages r')"
  shows "\<not> ma_inSession A \<and> (\<exists>pre sha tip post. r_stages r' = pre @ [LandedAt sha] @ tip @ WorktreeRemoved # post \<and>
      WorktreeRemoved \<notin> set pre \<and> BranchDeleted \<notin> set pre \<and>
      (tip = [TipRead (Some pinned)] \<or> tip = [] \<and> DisableMergeQueueEnabled (session_sweatfile M A (r_world r))))"
proof -
  let ?session = "session_sweatfile M A (r_world r)"
  from assms(1) obtain st where st: "r_stages r' = r_stages r @ st" "finished_stages M A pm ?session pinned res st"
    by (rule FinishMerge_stages)
  from st(2) have "\<not> ma_inSession A \<and> (\<exists>pre sha tip post. st = pre @ [LandedAt sha] @ tip @ WorktreeRemoved # post \<and>
      WorktreeRemoved \<notin> set pre \<and> BranchDeleted \<notin> set pre \<and>
      (tip = [TipRead (Some pinned)] \<or> tip = [] \<and> DisableMergeQueueEnabled ?session))"
  proof (cases rule: finished_cases)
    case 1
    with assms(2,3) st(1) early_only(3,4)[of st] show ?thesis by simp
  next
    case (2 pre sha tip removed phase post t)
    note parts = this[unfolded finished_parts_def]
    have phase: "WorktreeRemoved \<notin> set phase" "BranchDeleted \<notin> set phase" using parts phase_set by blast+
    have others: "WorktreeRemoved \<notin> set pre" "WorktreeRemoved \<notin> set post" "BranchDeleted \<notin> set pre" "BranchDeleted \<notin> set post"
      using parts early_only by blast+
    have "WorktreeRemoved \<notin> set tip" "BranchDeleted \<notin> set tip" using parts by auto
    with phase others assms(2,3) st(1) parts have "removed \<noteq> []" by auto
    with parts obtain rest where gone: "removed = WorktreeRemoved # rest" "\<not> ma_inSession A"
        "tip = [TipRead (Some pinned)] \<or> tip = [] \<and> DisableMergeQueueEnabled ?session"
      unfolding teardown_stages_def by auto
    with parts others show ?thesis
      by (intro conjI exI[of _ "pre @ [SectionOk sha, PolicyOk sha, GateOk sha]"] exI[of _ sha] exI[of _ tip] exI[of _ "rest @ phase @ post"]) auto
  qed
  with st(1) assms(2) show ?thesis by simp
qed


section \<open>A merge that deploys\<close>

definition sample_merge :: "unit merge_ops" where
  "sample_merge =
     \<lparr>g_revParse = (\<lambda>ref _. Some (if ref = ''refs/heads/main'' then ''m1'' else ''p1'')), g_isAncestor = (\<lambda>a _ _. a \<noteq> ''p1''), g_branchWorktree = (\<lambda>_ _. Inr ''/r''),
      g_branchSetTo = (\<lambda>_ _ w. (None, w)), g_mergeFF = (\<lambda>_ _ w. (([], None), w)), g_hasDirty = (\<lambda>_ _. False),
      g_branchRemote = (\<lambda>_ _. ''origin''), g_defaultBranch = (\<lambda>_. Some ''main''), g_fetch = (\<lambda>_ _ _ w. (([], None), w)),
      g_pushRef = (\<lambda>_ _ _ _ w. (([], None), w)),
      m_outside = sample_outside\<lparr>o_home := ''/h'', o_sweatfileAt := (\<lambda>c _. if c = ''p1'' then Some deploying_sweatfile else None)\<rparr>,
      m_sum256 = (\<lambda>x. x), m_trusted = (\<lambda>_ _. Some \<lparr>h_Sources = [], h_Merged = empty_Sweatfile\<rparr>), m_commonGitDir = (\<lambda>_. None), m_lock = (\<lambda>w. ((None, None), w)),
      m_unlock = (\<lambda>w. w), m_mirror = (\<lambda>_ w. (None, w)), m_driversInPlay = (\<lambda>_ _ _. Inr []), m_rebase = (\<lambda>_ _ w. (None, w)),
      m_rebaseSession = (\<lambda>_ _ w. (None, w)), m_rebaseAbort = (\<lambda>_ w. w), m_unmerged = (\<lambda>_ _. Inr []), m_head = (\<lambda>_ _. Some ''l1''), m_revParseIn = (\<lambda>_ _ _. Some ''p1''),
      m_commitsAhead = (\<lambda>_ _ _ _. 1), m_dirtyTracked = (\<lambda>_ _. Inr []), m_guarded = (\<lambda>_ _. False),
      m_preMergeHook = (\<lambda>_ _ w. ((None, []), w)), m_guardedGate = (\<lambda>_ _ w. ((None, []), w)), m_insideWorktree = (\<lambda>_ _. False),
      m_live = (\<lambda>_ _. False), m_shelfNotEmpty = (\<lambda>_ _. False), m_revokeCredential = (\<lambda>_ w. ([], w)), m_revokeRights = (\<lambda>_ w. w),
      m_worktreeRemove = (\<lambda>_ w. (None, w)), m_branchDelete = (\<lambda>_ _ w. (None, w)), m_push = (\<lambda>w. (None, w)), m_requestClose = (\<lambda>_ w. w),
      m_mergeFFRoot = (\<lambda>_ w. (None, w)), m_onLanded = (\<lambda>_ w. w), m_isDir = (\<lambda>_ _. True), m_runPhase = (\<lambda>_ _ _ w. ([], w)),
      m_runLegacy = (\<lambda>_ _ _ w. (None, w)), m_coActive = (\<lambda>_. Inr []), m_repairHook = (\<lambda>_ _ w. (RepairOk, w)), m_indexLock = (\<lambda>_ _. None), m_pathsChanged = (\<lambda>_ _ _ _. Inr []),
      m_resetMixed = (\<lambda>_ _ w. (None, w)), m_intentToAdd = (\<lambda>_ _. Inr []), m_shelfSave = (\<lambda>_ w. (Inr 0, w)),
      m_shelfApply = (\<lambda>_ _ w. (None, w)), m_shelfDrop = (\<lambda>_ _ w. (None, w)), m_addIntent = (\<lambda>_ _ w. (None, w))\<rparr>"

definition sample_args :: merge_args where
  "sample_args =
     \<lparr>ma_repoPath = ''/r'', ma_wtPath = ''/r/.worktrees/w'', ma_branch = ''w'', ma_defaultBranch = ''main'', ma_gitSync = False, ma_inSession = False\<rparr>"

definition sample_options :: PostMergeOptions where
  "sample_options =
     \<lparr>pm_Targets = None, pm_NoAutostash = False, pm_ExpectSha = [], pm_Timeout = None, pm_Gate = GateTerminal, pm_AttestedSha = [],
      pm_AcceptPostMergeDigest = Digest (\<lambda>x. x) (PostMergeSectionOf deploying_sweatfile), pm_GuardedGate = False,
      pm_AttestationBlob = [], pm_AttestationStore = []\<rparr>"

definition sample_start :: "unit run" where
  "sample_start = \<lparr>r_world = (), r_points = [], r_stages = []\<rparr>"

lemma sample_ops [simp]:
  "g_revParse sample_merge = (\<lambda>ref _. Some (if ref = ''refs/heads/main'' then ''m1'' else ''p1''))"
  "g_isAncestor sample_merge = (\<lambda>a _ _. a \<noteq> ''p1'')"
  "g_branchWorktree sample_merge = (\<lambda>_ _. Inr ''/r'')"
  "g_branchSetTo sample_merge = (\<lambda>_ _ w. (None, w))"
  "g_mergeFF sample_merge = (\<lambda>_ _ w. (([], None), w))"
  "g_hasDirty sample_merge = (\<lambda>_ _. False)"
  "g_branchRemote sample_merge = (\<lambda>_ _. ''origin'')"
  "g_defaultBranch sample_merge = (\<lambda>_. Some ''main'')"
  "g_fetch sample_merge = (\<lambda>_ _ _ w. (([], None), w))"
  "g_pushRef sample_merge = (\<lambda>_ _ _ _ w. (([], None), w))"
  "m_outside sample_merge = sample_outside\<lparr>o_home := ''/h'', o_sweatfileAt := (\<lambda>c _. if c = ''p1'' then Some deploying_sweatfile else None)\<rparr>"
  "m_sum256 sample_merge = (\<lambda>x. x)"
  "m_trusted sample_merge = (\<lambda>_ _. Some \<lparr>h_Sources = [], h_Merged = empty_Sweatfile\<rparr>)"
  "m_commonGitDir sample_merge = (\<lambda>_. None)"
  "m_lock sample_merge = (\<lambda>w. ((None, None), w))"
  "m_unlock sample_merge = (\<lambda>w. w)"
  "m_mirror sample_merge = (\<lambda>_ w. (None, w))"
  "m_driversInPlay sample_merge = (\<lambda>_ _ _. Inr [])"
  "m_rebase sample_merge = (\<lambda>_ _ w. (None, w))"
  "m_rebaseSession sample_merge = (\<lambda>_ _ w. (None, w))"
  "m_rebaseAbort sample_merge = (\<lambda>_ w. w)"
  "m_unmerged sample_merge = (\<lambda>_ _. Inr [])"
  "m_head sample_merge = (\<lambda>_ _. Some ''l1'')"
  "m_revParseIn sample_merge = (\<lambda>_ _ _. Some ''p1'')"
  "m_commitsAhead sample_merge = (\<lambda>_ _ _ _. 1)"
  "m_dirtyTracked sample_merge = (\<lambda>_ _. Inr [])"
  "m_guarded sample_merge = (\<lambda>_ _. False)"
  "m_preMergeHook sample_merge = (\<lambda>_ _ w. ((None, []), w))"
  "m_guardedGate sample_merge = (\<lambda>_ _ w. ((None, []), w))"
  "m_insideWorktree sample_merge = (\<lambda>_ _. False)"
  "m_live sample_merge = (\<lambda>_ _. False)"
  "m_shelfNotEmpty sample_merge = (\<lambda>_ _. False)"
  "m_revokeCredential sample_merge = (\<lambda>_ w. ([], w))"
  "m_revokeRights sample_merge = (\<lambda>_ w. w)"
  "m_worktreeRemove sample_merge = (\<lambda>_ w. (None, w))"
  "m_branchDelete sample_merge = (\<lambda>_ _ w. (None, w))"
  "m_push sample_merge = (\<lambda>w. (None, w))"
  "m_requestClose sample_merge = (\<lambda>_ w. w)"
  "m_mergeFFRoot sample_merge = (\<lambda>_ w. (None, w))"
  "m_onLanded sample_merge = (\<lambda>_ w. w)"
  "m_isDir sample_merge = (\<lambda>_ _. True)"
  "m_runPhase sample_merge = (\<lambda>_ _ _ w. ([], w))"
  "m_runLegacy sample_merge = (\<lambda>_ _ _ w. (None, w))"
  "m_coActive sample_merge = (\<lambda>_. Inr [])"
  "m_repairHook sample_merge = (\<lambda>_ _ w. (RepairOk, w))"
  "m_indexLock sample_merge = (\<lambda>_ _. None)"
  "m_pathsChanged sample_merge = (\<lambda>_ _ _ _. Inr [])"
  "m_resetMixed sample_merge = (\<lambda>_ _ w. (None, w))"
  "m_intentToAdd sample_merge = (\<lambda>_ _. Inr [])"
  "m_shelfSave sample_merge = (\<lambda>_ w. (Inr 0, w))"
  "m_shelfApply sample_merge = (\<lambda>_ _ w. (None, w))"
  "m_shelfDrop sample_merge = (\<lambda>_ _ w. (None, w))"
  "m_addIntent sample_merge = (\<lambda>_ _ w. (None, w))"
  by (simp_all add: sample_merge_def)

lemma sample_arguments [simp]:
  "ma_gitSync sample_args = False" "ma_inSession sample_args = False" "ma_branch sample_args = ''w''" "ma_defaultBranch sample_args = ''main''"
  "ma_repoPath sample_args = ''/r''"
  by (simp_all add: sample_args_def)

lemma sample_choices [simp]:
  "pm_Gate sample_options = GateTerminal" "pm_Targets sample_options = None" "pm_GuardedGate sample_options = False"
  "pm_AcceptPostMergeDigest sample_options = Digest (\<lambda>x. x) (PostMergeSectionOf deploying_sweatfile)"
  by (simp_all add: sample_options_def)

lemma sample_home [simp]: "o_home sample_outside \<noteq> []"
  by (simp add: sample_outside_def)

lemma sample_at: "sweatfile_at sample_merge w ''p1'' = Some deploying_sweatfile"
  by (simp add: sweatfile_at_def)

lemma sample_section:
  obtains r' where "requireSection sample_merge A sample_options t ''p1'' True r = (Inr (), r')" "r_stages r' = r_stages r @ [SectionOk ''p1'']"
proof -
  have "\<exists>r'. requireSection sample_merge A sample_options t ''p1'' True r = (Inr (), r') \<and> r_stages r' = r_stages r @ [SectionOk ''p1'']"
    by (auto simp: requireSection_def requirePostMergeSectionAccepted_def PostMergeSectionAt_def sample_at Let_def
        andThen_def ask_def emit_def passed_def)
  with that show ?thesis by blast
qed

lemma sample_policy: "policyStage sample_merge A sample_options empty_Sweatfile t p l r = (Inr (), r\<lparr>r_stages := r_stages r @ [PolicyOk l]\<rparr>)"
  by (simp add: policyStage_def runAttestationPolicy_def andThen_def act_def emit_def passed_def ActivePreMergeSkills_def empty_Sweatfile_def)

lemma sample_judged: "runPreMergeHookContext sample_merge A l False r = (Inr (), r\<lparr>r_stages := r_stages r @ [GateOk l]\<rparr>)"
  by (simp add: runPreMergeHookContext_def trustedHierarchy_def Let_def andThen_def ask_def act_def emit_def passed_def)

lemma sample_target: "merge_target sample_merge sample_args w = SelfTarget ''/r'' ''main''"
  by (simp add: merge_target_def ForMerge_def)

lemma sample_landing: "\<exists>out. Land sample_merge (SelfTarget ''/r'' ''main'') d ''p1'' v = ((out, None), v)"
  by (auto simp: Land_def SelfTarget_def IsSelf_def Let_def fastForward_def local_ref_def Skipped_def)

lemma sample_phase: "r_stages (snd (runPostMergePhase sample_merge sample_args sample_options [] ''p1'' ''p1'' r)) = r_stages r @ [PhaseRun [''deploy'']]"
proof -
  have active: "ActivePostMergeTargets deploying_sweatfile = [\<lparr>pt_Name = ''site'', pt_Command = ''deploy'', pt_Verify = None\<rparr>]"
      "PostMergePhaseActive deploying_sweatfile" "\<not> PostMergeDisabled deploying_sweatfile"
    by code_simp+
  have checkout: "fst (addTransientWorktree (m_outside sample_merge) d LandWorktreePrefix b ''p1'' w) =
      Inr (transient_path d LandWorktreePrefix b ''p1'' 7)" for d b w
    by (simp add: addTransientWorktree_def sample_outside_def)
  show ?thesis
    by (simp add: runPostMergePhase_def postMergeRunDir_def phase_commands_def selectPostMergeTargets_def active Let_def checkout[simplified]
        andThen_def act_def ask_def emit_def passed_def give_def deferring_def case_prod_beta)
qed

lemma sample_teardown: "\<exists>r'. teardownAndPush sample_merge sample_args False True True r = (Inr (), r') \<and> r_stages r' = r_stages r @ [WorktreeRemoved, BranchDeleted]"
  by (simp add: teardownAndPush_def remove_session_def keep_reason_def when_step_def Let_def andThen_def act_def ask_def emit_def passed_def give_def)

lemma sample_reports: "reportLocalAdvance sample_merge (SelfTarget ''/r'' ''main'') s r = (Inr (), r)"
  by (simp add: reportLocalAdvance_def SelfTarget_def IsSelf_def give_def)

lemma sample_verified:
  "r_stages (snd (verify_and_land sample_merge sample_args sample_options empty_Sweatfile (SelfTarget ''/r'' ''main'') [] ''p1'' ''p1'' False r)) =
     r_stages r @ [SectionOk ''p1'', PolicyOk ''p1'', GateOk ''p1'', LandedAt ''p1'', TipRead (Some ''p1''), WorktreeRemoved, BranchDeleted, PhaseRun [''deploy'']]"
proof -
  let ?t = "SelfTarget ''/r'' ''main''"
  obtain r1 where r1: "requireSection sample_merge sample_args sample_options ?t ''p1'' True r = (Inr (), r1)" "r_stages r1 = r_stages r @ [SectionOk ''p1'']"
    by (rule sample_section)
  obtain out where land: "Land sample_merge ?t [] ''p1'' () = ((out, None), ())" using sample_landing by blast
  obtain after where td: "\<And>s. teardownAndPush sample_merge sample_args False True True s = (Inr (), after s)"
      "\<And>s. r_stages (after s) = r_stages s @ [WorktreeRemoved, BranchDeleted]"
    using sample_teardown by metis
  show ?thesis
    by (simp add: verify_and_land_def Let_def andThen_def r1 sample_policy ask_def guardedMerge_def sample_judged act_def land passed_def emit_def
      reportPush_def sample_reports td sample_phase split del: if_split)
qed

lemma sample_stages:
  "r_stages (snd (FinishMerge sample_merge sample_args sample_options ''p1'' r)) =
     r_stages r @ [Locked, SectionOk ''p1'', PolicyOk ''p1'', GateOk ''p1'', LandedAt ''p1'', TipRead (Some ''p1''), WorktreeRemoved, BranchDeleted,
      PhaseRun [''deploy''], Unlocked]"
proof -
  have session: "session_sweatfile sample_merge sample_args () = empty_Sweatfile" "\<not> DisableMergeQueueEnabled empty_Sweatfile"
    by (simp_all add: session_sweatfile_def trustedHierarchy_def) code_simp
  have lock: "TargetRef (SelfTarget ''/r'' ''main'') \<noteq> ''p1''" by code_simp
  have unfetched: "fetchTarget sample_merge A (SelfTarget ''/r'' ''main'') l = give ()" for A l
    by (simp add: fetchTarget_def SelfTarget_def IsSelf_def)
  show ?thesis
    by (simp add: FinishMerge_def finishMergeQueued_def locked_landing_def land_from_def sample_target unfetched lock sample_verified session
        andThen_def ask_def act_def passed_def emit_def give_def deferring_def release_lock_def drop_land_tree_def case_prod_beta)
qed

lemma sample_start_empty: "r_stages sample_start = []"
  by (simp add: sample_start_def)

lemma sample_run:
  obtains res r' where "FinishMerge sample_merge sample_args sample_options ''p1'' sample_start = (res, r')"
    "r_stages r' = [Locked, SectionOk ''p1'', PolicyOk ''p1'', GateOk ''p1'', LandedAt ''p1'', TipRead (Some ''p1''), WorktreeRemoved, BranchDeleted,
       PhaseRun [''deploy''], Unlocked]"
  using sample_stages[of sample_start] sample_start_empty by (metis append_Nil prod.collapse)


theorem teardown_keeps_late_commits_witness:
  "\<exists>res r' pre sha tip post. FinishMerge sample_merge sample_args sample_options ''p1'' sample_start = (res, r') \<and>
     r_stages r' = pre @ [LandedAt sha] @ tip @ WorktreeRemoved # post"
proof (rule sample_run)
  fix res r'
  assume run: "FinishMerge sample_merge sample_args sample_options ''p1'' sample_start = (res, r')"
    and "r_stages r' = [Locked, SectionOk ''p1'', PolicyOk ''p1'', GateOk ''p1'', LandedAt ''p1'', TipRead (Some ''p1''), WorktreeRemoved,
       BranchDeleted, PhaseRun [''deploy''], Unlocked]"
  then have "WorktreeRemoved \<in> set (r_stages r') \<or> BranchDeleted \<in> set (r_stages r')" by simp
  from teardown_keeps_late_commits[OF run sample_start_empty this] run show ?thesis by blast
qed


end
