(* ===== verification/MergePrepare.thy ===== *)
theory MergePrepare
  imports MergeFlow
begin

text \<open>
  The prefix of a merge and the whole of it (\<open>src/internal/delta/merge/merge.go\<close>, \<open>autostash.go\<close>,
  \<open>guarded.go\<close>): the refusals that come before anything is touched, the fetch and the merge-driver
  pre-flight, the autostash, the rebase of the session's worktree, the repair phase, the pin and its
  checks, and \<open>ResolvedContext\<close>, which runs this prefix and then \<open>FinishMerge\<close>. The reporter's phase lines
  (\<open>reportRebaseRewrite\<close>) and the timers are left out.
\<close>

section \<open>Before anything is touched\<close>

definition CoActiveSummary :: "string \<Rightarrow> string \<Rightarrow> string list \<Rightarrow> string" where
  "CoActiveSummary adjective repo entries =
     Itoa (int (length entries)) @ '' '' @ adjective @ '' '' @ (if length entries = 1 then ''session'' else ''sessions'') @
     '' on '' @ repo @ '': '' @ Join entries '', ''"

definition emitCoActiveSessions :: "'w merge_ops \<Rightarrow> merge_args \<Rightarrow> ('w, unit) step" where
  "emitCoActiveSessions M A =
     andThen (ask (m_coActive M)) (\<lambda>others.
       case others of
         Inr (n # ns) \<Rightarrow> emit [PointOk (CoActiveSummary ''co-active'' (Base (ma_repoPath A)) (n # ns))]
       | _ \<Rightarrow> give ())"

text \<open>The most specific layer that set the key.\<close>

definition disableMergeSource :: "Hierarchy \<Rightarrow> string" where
  "disableMergeSource h =
     (case filter (\<lambda>s. ls_Found s \<and> DisableMergeEnabled (ls_File s)) (rev (h_Sources h)) of
        [] \<Rightarrow> ''<unknown>''
      | s # _ \<Rightarrow> ls_Path s)"

definition loadAndGate :: "'w merge_ops \<Rightarrow> merge_args \<Rightarrow> ('w, Hierarchy option) step" where
  "loadAndGate M A =
     andThen (emitCoActiveSessions M A) (\<lambda>_.
     andThen (ask (trustedHierarchy M A)) (\<lambda>h.
       case h of
         None \<Rightarrow> give None
       | Some h \<Rightarrow>
           if DisableMergeEnabled (h_Merged h)
           then failStep (''merge '' @ ma_branch A)
             (''merge disabled by sweatfile (disable-merge=true at '' @ disableMergeSource h @
              ''); use `sc check` to run the pre-merge hook without merging'')
           else give (Some h)))"

definition checkExpectedTip :: "'w merge_ops \<Rightarrow> merge_args \<Rightarrow> string \<Rightarrow> ('w, unit) step" where
  "checkExpectedTip M A expect =
     (if expect = [] then give ()
      else (let label = ''expect '' @ ma_branch A @ '' at '' @ expect in
        andThen (ask (m_revParseIn M (ma_wtPath A) (expect @ ''^{commit}''))) (\<lambda>want.
          case want of
            None \<Rightarrow> failStep label (expect @ '' does not name a commit'')
          | Some want \<Rightarrow>
              andThen (ask (m_revParseIn M (ma_wtPath A) (''refs/heads/'' @ ma_branch A))) (\<lambda>tip.
                case tip of
                  None \<Rightarrow> failStep label (''could not resolve '' @ ma_branch A)
                | Some tip \<Rightarrow>
                    if tip \<noteq> want
                    then failStep label (''branch moved: '' @ ma_branch A @ '' is at '' @ shortSha tip @ '', not the expected '' @
                      shortSha want @ ''; nothing was merged'')
                    else andThen (emit [PointOk label]) (\<lambda>_. passed TipExpected)))))"

section \<open>The autostash\<close>

definition describePaths :: "string list \<Rightarrow> string" where
  "describePaths paths =
     Itoa (int (length paths)) @ '' tracked '' @ (if length paths = 1 then ''file'' else ''files'') @ '' ('' @ Join paths '', '' @ '')''"

text \<open>The entry with the paths it holds and those to mark intent-to-add again; nothing for a clean worktree.\<close>

definition autostash :: "'w merge_ops \<Rightarrow> merge_args \<Rightarrow> ('w, (nat \<times> string list \<times> string list) option) step" where
  "autostash M A =
     (let label = ''autostash '' @ ma_branch A in
      andThen (ask (m_dirtyTracked M (ma_wtPath A))) (\<lambda>dirty.
        case dirty of
          Inl e \<Rightarrow> failStep label e
        | Inr [] \<Rightarrow> give None
        | Inr (p # ps) \<Rightarrow>
            andThen (ask (m_intentToAdd M (ma_wtPath A))) (\<lambda>intent.
              case intent of
                Inl e \<Rightarrow> failStep label e
              | Inr intentToAdd \<Rightarrow>
                  andThen (act (m_shelfSave M (ma_wtPath A))) (\<lambda>saved.
                    case saved of
                      Inl e \<Rightarrow> failStep label e
                    | Inr entry \<Rightarrow>
                        andThen (passed (Shelved entry)) (\<lambda>_.
                        andThen (emit [PointOk (label @ '': '' @ describePaths (p # ps) @ '' as stash entry '' @ Itoa (int entry))]) (\<lambda>_.
                          give (Some (entry, p # ps, intentToAdd))))))))"

definition shelf_detail :: "shelf_error \<Rightarrow> string" where
  "shelf_detail e = (case e of ShelfConflict paths \<Rightarrow> ''conflicts in '' @ Join paths '', '' | ShelfError m \<Rightarrow> m)"

definition restoreAutostash ::
  "'w merge_ops \<Rightarrow> merge_args \<Rightarrow> nat \<Rightarrow> string list \<Rightarrow> string list \<Rightarrow> ('w, unit) step" where
  "restoreAutostash M A entry paths intentToAdd =
     (let label = ''restore autostash '' @ ma_branch A; number = Itoa (int entry) in
      andThen (act (m_shelfApply M (ma_wtPath A) entry)) (\<lambda>failed.
        case failed of
          Some e \<Rightarrow>
            andThen (passed (ShelfKept entry)) (\<lambda>_.
              emit [PointSkip label (''could not restore '' @ describePaths paths @ '': '' @ shelf_detail e @
                ''; your changes are kept as stash entry '' @ number @ '': resolve the conflict, then grit_stash drop stash_ref='' @ number @
                '', or grit_stash apply stash_ref='' @ number @ '' on a clean tree'')])
        | None \<Rightarrow>
            andThen (passed (ShelfApplied entry)) (\<lambda>_.
            andThen (act (m_shelfDrop M (ma_wtPath A) entry)) (\<lambda>undropped.
              case undropped of
                Some e \<Rightarrow>
                  andThen (passed (ShelfKept entry)) (\<lambda>_.
                    emit [PointSkip label (''restored '' @ describePaths paths @ '' but could not drop stash entry '' @ number @ '': '' @ e @
                      ''; grit_stash drop stash_ref='' @ number)])
              | None \<Rightarrow>
                  andThen (passed (ShelfDropped entry)) (\<lambda>_.
                  andThen (if length intentToAdd > 0 then act (m_addIntent M (ma_wtPath A) intentToAdd) else give None) (\<lambda>unmarked.
                    case unmarked of
                      Some e \<Rightarrow>
                        emit [PointSkip label (''restored '' @ describePaths paths @ '' but could not mark '' @ Join intentToAdd '', '' @
                          '' intent-to-add again: '' @ e @ ''; git add -N them, or a nix build of this tree will miss them'')]
                    | None \<Rightarrow> emit [PointOk (label @ '': '' @ describePaths paths)]))))))"

section \<open>Repair and pin\<close>

definition skipRepairForGuardedMerge :: "merge_args \<Rightarrow> Hierarchy option \<Rightarrow> ('w, unit) step" where
  "skipRepairForGuardedMerge A h =
     (case h of
        Some h \<Rightarrow>
          if RepairActive (h_Merged h)
          then emit [PointOk (''repair '' @ ma_branch A @
            '' (skipped: a guarded merge runs no repair, it would execute the branch's tree in the session worktree's devshell)'')]
          else give ()
      | None \<Rightarrow> give ())"

definition withLeftoverIndexLock :: "string \<Rightarrow> string option \<Rightarrow> string" where
  "withLeftoverIndexLock err lock =
     (case lock of
        None \<Rightarrow> err
      | Some l \<Rightarrow> err @ ''; the killed repair left '' @ l @ '' behind (remove it once no git process is using it)'')"

text \<open>An amend that adds or removes a path is undone and refused.\<close>

definition undo_amend :: "'w merge_ops \<Rightarrow> merge_args \<Rightarrow> string \<Rightarrow> string \<Rightarrow> string \<Rightarrow> ('w, unit) step" where
  "undo_amend M A sha0 sha1 reason =
     andThen (act (m_resetMixed M (ma_wtPath A) sha0)) (\<lambda>failed.
       case failed of
         Some e \<Rightarrow>
           failStep (''repair '' @ ma_branch A) (reason @ ''; undoing the amend also failed, HEAD is still '' @ shortSha sha1 @ '': '' @ e)
       | None \<Rightarrow>
           failStep (''repair '' @ ma_branch A)
             (reason @ ''; the amend was undone (HEAD back to '' @ shortSha sha0 @ '', worktree kept), nothing was merged''))"

definition runRepairPhase :: "'w merge_ops \<Rightarrow> merge_args \<Rightarrow> Sweatfile \<Rightarrow> ('w, unit) step" where
  "runRepairPhase M A sf =
     (let label = ''repair '' @ ma_branch A; wt = ma_wtPath A in
      andThen (ask (\<lambda>w. case m_revParseIn M wt ''HEAD'' w of None \<Rightarrow> [] | Some sha \<Rightarrow> sha)) (\<lambda>sha0.
      andThen (act (m_repairHook M sf wt)) (\<lambda>ended.
        case ended of
          RepairFailed e \<Rightarrow> failStep label (''repair hook failed: '' @ e)
        | RepairTimedOut e \<Rightarrow> andThen (ask (m_indexLock M wt)) (\<lambda>lock. failStep label (withLeftoverIndexLock (''repair hook failed: '' @ e) lock))
        | RepairOk \<Rightarrow>
            andThen (ask (m_revParseIn M wt ''HEAD'')) (\<lambda>head.
              case head of
                None \<Rightarrow> failStep label ''could not resolve HEAD after repair''
              | Some sha1 \<Rightarrow>
                  if sha1 = sha0 then andThen (passed (RepairRan False)) (\<lambda>_. emit [PointOk (label @ '' (already conformant)'')])
                  else andThen (ask (m_pathsChanged M wt sha0 sha1)) (\<lambda>changed.
                    case changed of
                      Inl e \<Rightarrow> undo_amend M A sha0 sha1 (''could not compare the repaired commit with '' @ shortSha sha0 @ '': '' @ e)
                    | Inr (p # ps) \<Rightarrow> undo_amend M A sha0 sha1 (''repair added or removed paths in the commit: '' @ Join (p # ps) '', '')
                    | Inr [] \<Rightarrow>
                        andThen (passed (RepairRan True)) (\<lambda>_. emit [PointOk (label @ '' (amended '' @ shortSha sha1 @ '')'')]))))))"

definition repair :: "'w merge_ops \<Rightarrow> merge_args \<Rightarrow> Hierarchy option \<Rightarrow> ('w, unit) step" where
  "repair M A h =
     (case h of
        None \<Rightarrow> give ()
      | Some h \<Rightarrow>
          if \<not> RepairActive (h_Merged h) then give ()
          else andThen (ask (m_dirtyTracked M (ma_wtPath A))) (\<lambda>dirty.
            case dirty of
              Inl e \<Rightarrow> failStep (''dirty check '' @ ma_branch A) e
            | Inr (p # ps) \<Rightarrow>
                failStep (''dirty check '' @ ma_branch A)
                  (''uncommitted changes in the worktree would be amended into the merged commit by the repair phase: '' @
                   Join (p # ps) '', '' @ ''; commit or stash them, then re-merge'')
            | Inr [] \<Rightarrow> runRepairPhase M A (h_Merged h)))"

definition pinHead :: "'w merge_ops \<Rightarrow> merge_args \<Rightarrow> ('w, string) step" where
  "pinHead M A =
     andThen (ask (m_revParseIn M (ma_wtPath A) ''HEAD'')) (\<lambda>head.
       case head of
         None \<Rightarrow> failStep (''merge '' @ ma_branch A) (''could not resolve '' @ ma_branch A @ '' HEAD'')
       | Some sha \<Rightarrow> andThen (passed (PinnedAt sha)) (\<lambda>_. give sha))"

definition selectionStage :: "'w merge_ops \<Rightarrow> merge_args \<Rightarrow> PostMergeOptions \<Rightarrow> string \<Rightarrow> ('w, unit) step" where
  "selectionStage M A pm pinned =
     andThen (ask (\<lambda>w. if o_home (m_outside M) = [] then NoHome
                       else case o_sweatfileAt (m_outside M) pinned w of None \<Rightarrow> Unreadable [] | Some sf \<Rightarrow> ReadAt sf)) (\<lambda>at.
       case validatePostMergeSelection at pinned (pm_Targets pm) of
         Some e \<Rightarrow> failStep (''post-merge selection '' @ ma_branch A) e
       | None \<Rightarrow> passed SelectionOk)"

section \<open>The prefix\<close>

definition rebase_and_pin ::
  "'w merge_ops \<Rightarrow> merge_args \<Rightarrow> PostMergeOptions \<Rightarrow> Target \<Rightarrow> Hierarchy option \<Rightarrow> ('w, string) step" where
  "rebase_and_pin M A pm t h0 =
     (let wt = ma_wtPath A; branch = ma_branch A in
      andThen (act (m_rebaseSession M wt (TargetRef t))) (\<lambda>failed.
        case failed of
          Some e \<Rightarrow> failStep (''rebase '' @ branch) e
        | None \<Rightarrow>
            andThen (passed SessionRebased) (\<lambda>_.
            andThen (emit [PointOk (''rebase '' @ branch)]) (\<lambda>_.
            andThen (ask (m_unmerged M wt)) (\<lambda>conflicted.
              case conflicted of
                Inl e \<Rightarrow> failStep (''conflict check '' @ branch) e
              | Inr (p # ps) \<Rightarrow>
                  failStep (''conflict check '' @ branch)
                    (''unresolved conflicts after rebase (resolve them in the worktree, then re-merge): '' @ Join (p # ps) '', '')
              | Inr [] \<Rightarrow>
                  andThen (ask (m_commitsAhead M wt (TargetRef t) branch)) (\<lambda>n.
                    if n = 0
                    then failStep (''merge '' @ branch) (''nothing to merge: '' @ branch @ '' has no commits ahead of '' @ TargetLabel t)
                    else
                      andThen (ask (\<lambda>w. case trustedHierarchy M A w of Some h \<Rightarrow> Some h | None \<Rightarrow> h0)) (\<lambda>h.
                      andThen (ask (guardedMerge M pm A)) (\<lambda>guarded.
                      andThen (if guarded then skipRepairForGuardedMerge A h else repair M A h) (\<lambda>_.
                      andThen (pinHead M A) (\<lambda>pinned.
                      andThen (selectionStage M A pm pinned) (\<lambda>_.
                      andThen (requireSection M A pm t pinned False) (\<lambda>_. give pinned))))))))))))"

definition put_back :: "'w merge_ops \<Rightarrow> merge_args \<Rightarrow> (nat \<times> string list \<times> string list) option \<Rightarrow> 'w run \<Rightarrow> 'w run" where
  "put_back M A shelved r =
     (case shelved of
        None \<Rightarrow> r
      | Some (entry, paths, intentToAdd) \<Rightarrow> snd (restoreAutostash M A entry paths intentToAdd r))"

definition PrepareMergeWith :: "'w merge_ops \<Rightarrow> merge_args \<Rightarrow> PostMergeOptions \<Rightarrow> ('w, string) step" where
  "PrepareMergeWith M A pm =
     andThen (loadAndGate M A) (\<lambda>h0.
     andThen (checkExpectedTip M A (pm_ExpectSha pm)) (\<lambda>_.
     andThen (ask (merge_target M A)) (\<lambda>t.
     andThen (fetchTarget M A t []) (\<lambda>_.
     andThen (PreflightMergeDrivers M A (ma_wtPath A) (TargetRef t)) (\<lambda>refused.
       case refused of
         Some e \<Rightarrow> (\<lambda>r. (Inl e, r))
       | None \<Rightarrow>
           if pm_NoAutostash pm then rebase_and_pin M A pm t h0
           else andThen (autostash M A) (\<lambda>shelved. deferring (put_back M A shelved) (rebase_and_pin M A pm t h0)))))))"

definition ResolvedContext :: "'w merge_ops \<Rightarrow> merge_args \<Rightarrow> PostMergeOptions \<Rightarrow> ('w, unit) step" where
  "ResolvedContext M A pm =
     andThen (ask (m_isDir M (ma_repoPath A))) (\<lambda>there.
       if \<not> there then (\<lambda>r. (Inl (''repository not found: '' @ ma_repoPath A), r))
       else if ma_defaultBranch A = []
         then (\<lambda>r. (Inl ''default branch not resolved: callers must resolve it (ResolveDefaultBranch) before ResolvedContext'', r))
       else andThen (PrepareMergeWith M A pm) (FinishMerge M A pm))"

section \<open>What the prefix records\<close>

text \<open>Where the repair ran: on a rebased, unconflicted, clean worktree of an unguarded merge; an amend adds or removes no path.\<close>

definition repair_allowed :: "'w merge_ops \<Rightarrow> merge_args \<Rightarrow> PostMergeOptions \<Rightarrow> bool \<Rightarrow> bool" where
  "repair_allowed M A pm amended \<longleftrightarrow>
     (\<exists>w. m_unmerged M (ma_wtPath A) w = Inr []) \<and> (\<exists>w. \<not> guardedMerge M pm A w) \<and> (\<exists>w. m_dirtyTracked M (ma_wtPath A) w = Inr []) \<and>
     (amended \<longrightarrow> (\<exists>sha0 sha1 w. m_pathsChanged M (ma_wtPath A) sha0 sha1 w = Inr []))"

fun shelf_stage :: "stage \<Rightarrow> bool" where
  "shelf_stage (Shelved _) = True"
| "shelf_stage (ShelfApplied _) = True"
| "shelf_stage (ShelfKept _) = True"
| "shelf_stage (ShelfDropped _) = True"
| "shelf_stage _ = False"

definition plain_stages :: "'w merge_ops \<Rightarrow> merge_args \<Rightarrow> PostMergeOptions \<Rightarrow> stage list \<Rightarrow> bool" where
  "plain_stages M A pm st \<longleftrightarrow> list_all (\<lambda>s. early s \<and> \<not> shelf_stage s) st \<and> (\<forall>b. RepairRan b \<in> set st \<longrightarrow> repair_allowed M A pm b)"

lemma plain_stages_simps [simp]:
  "plain_stages M A pm []"
  "plain_stages M A pm (s1 @ s2) \<longleftrightarrow> plain_stages M A pm s1 \<and> plain_stages M A pm s2"
  by (auto simp: plain_stages_def)

lemma plain_stage:
  "early s \<Longrightarrow> \<not> shelf_stage s \<Longrightarrow> (\<And>b. s = RepairRan b \<Longrightarrow> repair_allowed M A pm b) \<Longrightarrow> plain_stages M A pm [s]"
  by (auto simp: plain_stages_def)

definition pinning :: "string + string \<Rightarrow> stage list \<Rightarrow> bool" where
  "pinning res st \<longleftrightarrow> (\<forall>p. res = Inr p \<longrightarrow> PinnedAt p \<in> set st)"

lemma undo_quiet: "quiet (undo_amend M A sha0 sha1 reason)"
  unfolding undo_amend_def by (rule quiet_andThen) (auto split: option.split)

lemma undo_adds: "adds (undo_amend M A sha0 sha1 reason) (\<lambda>_ st. plain_stages M A pm st)"
  by (rule adds_mono[OF undo_quiet[unfolded quiet_def]]) simp

lemma amend_allowed:
  "repair_allowed M A pm False \<Longrightarrow> m_pathsChanged M (ma_wtPath A) sha0 sha1 w = Inr [] \<Longrightarrow> repair_allowed M A pm True"
  unfolding repair_allowed_def by blast

lemma runRepairPhase_adds:
  assumes "repair_allowed M A pm False"
  shows "adds (runRepairPhase M A sf) (\<lambda>_ st. plain_stages M A pm st)"
proof -
  let ?Q = "\<lambda>_ st. plain_stages M A pm st"
  have fails: "adds (failStep l e) ?Q" for l e by (rule adds_mono[OF adds_failStep]) simp
  have ran: "adds (andThen (passed (RepairRan b)) (\<lambda>_. emit ps)) ?Q" if "repair_allowed M A pm b" for b ps
    by (rule adds_andThen[OF adds_passed adds_emit]) (use that in \<open>auto intro!: plain_stage\<close>)
  have ended: "adds (case e of RepairOk \<Rightarrow> k | RepairFailed m \<Rightarrow> failStep l m' | RepairTimedOut m \<Rightarrow> andThen (ask f) (\<lambda>x. failStep l (g x m))) ?Q"
    if "adds k ?Q" for e k l m' f g
    using that by (cases e) (auto intro!: adds_after_ask fails)
  show ?thesis unfolding runRepairPhase_def Let_def
    by (rule adds_after_ask, rule adds_after_act)
       (auto split: repair_end.split intro!: adds_after_ask fails adds_option adds_if adds_answer undo_adds ran[OF assms]
          ran[OF amend_allowed[OF assms]])
qed

lemma repair_adds:
  assumes "m_unmerged M (ma_wtPath A) w = Inr []" "\<not> guardedMerge M pm A v"
  shows "adds (repair M A h) (\<lambda>_ st. plain_stages M A pm st)"
proof -
  let ?Q = "\<lambda>_ st. plain_stages M A pm st"
  have fails: "adds (failStep l e) ?Q" for l e by (rule adds_mono[OF adds_failStep]) simp
  have none: "adds (give ()) ?Q" by (rule adds_mono[OF adds_give]) simp
  have allowed: "repair_allowed M A pm False" if "m_dirtyTracked M (ma_wtPath A) u = Inr []" for u
    using assms that unfolding repair_allowed_def by blast
  show ?thesis unfolding repair_def
    by (intro adds_option none adds_if adds_after_ask adds_answer fails) (rule runRepairPhase_adds, rule allowed)
qed

lemma skip_quiet: "quiet (skipRepairForGuardedMerge A h)"
  unfolding skipRepairForGuardedMerge_def by (auto split: option.split)

text \<open>From the pin on.\<close>

definition prefix_stages :: "'w merge_ops \<Rightarrow> merge_args \<Rightarrow> PostMergeOptions \<Rightarrow> string + string \<Rightarrow> stage list \<Rightarrow> bool" where
  "prefix_stages M A pm res st \<longleftrightarrow> plain_stages M A pm st \<and> pinning res st"

lemma prefix_stages_fail: "adds (failStep l e) (prefix_stages M A pm)"
  by (rule adds_mono[OF adds_failStep]) (simp add: prefix_stages_def pinning_def)

lemma prefix_stages_append: "plain_stages M A pm s1 \<Longrightarrow> prefix_stages M A pm res s2 \<Longrightarrow> prefix_stages M A pm res (s1 @ s2)"
  by (simp add: prefix_stages_def pinning_def)

lemma prefix_stages_after:
  assumes "adds m (\<lambda>_ st. plain_stages M A pm st)" "\<And>x. adds (k x) (prefix_stages M A pm)"
  shows "adds (andThen m k) (prefix_stages M A pm)"
  by (rule adds_andThen[OF assms]) (auto simp: prefix_stages_append, simp add: prefix_stages_def pinning_def)

lemma pin_adds:
  "adds (andThen (pinHead M A) (\<lambda>pinned. andThen (selectionStage M A pm pinned) (\<lambda>_.
     andThen (requireSection M A pm t pinned False) (\<lambda>_. give pinned)))) (prefix_stages M A pm)"
proof -
  have selection: "adds (selectionStage M A pm pinned) (\<lambda>_ st. plain_stages M A pm st)" for pinned
    unfolding selectionStage_def
    by (rule adds_after_ask) (auto split: option.split intro!: adds_mono[OF adds_failStep] adds_mono[OF adds_passed] plain_stage)
  have sect: "adds (requireSection M A pm t pinned False) (\<lambda>_ st. plain_stages M A pm st)" for pinned
    by (rule adds_mono[OF requireSection_adds]) (auto simp: either_def split: sum.splits intro!: plain_stage)
  have given: "adds (andThen (requireSection M A pm t pinned False) (\<lambda>_. give pinned))
      (\<lambda>res st. plain_stages M A pm st \<and> (\<forall>p. res = Inr p \<longrightarrow> p = pinned))" for pinned
    by (rule adds_andThen[OF sect adds_give]) auto
  have checks: "adds (andThen (selectionStage M A pm pinned) (\<lambda>_. andThen (requireSection M A pm t pinned False) (\<lambda>_. give pinned)))
      (\<lambda>res st. plain_stages M A pm st \<and> (\<forall>p. res = Inr p \<longrightarrow> p = pinned))" for pinned
    by (rule adds_andThen[OF selection given]) auto
  have one: "adds (andThen (passed (PinnedAt sha)) (\<lambda>_. give sha)) (either none_yet (\<lambda>p st. st = [PinnedAt p]))" for sha
    by (rule adds_andThen[OF adds_passed adds_give]) auto
  have head: "adds (pinHead M A) (either none_yet (\<lambda>p st. st = [PinnedAt p]))"
    unfolding pinHead_def by (intro adds_after_ask adds_option one adds_mono[OF adds_failStep]) simp
  have pinned: "prefix_stages M A pm res ([PinnedAt p] @ s2)"
    if "plain_stages M A pm s2 \<and> (\<forall>q. res = Inr q \<longrightarrow> q = p)" for s2 p and res :: "string + string"
  proof -
    have "plain_stages M A pm [PinnedAt p]" by (rule plain_stage) auto
    with that show ?thesis unfolding prefix_stages_def plain_stages_simps pinning_def by auto
  qed
  show ?thesis
  proof (rule adds_andThen[OF head checks])
    fix p s1 s2 and res :: "string + string"
    assume "either none_yet (\<lambda>p st. st = [PinnedAt p]) (Inr p) s1" "plain_stages M A pm s2 \<and> (\<forall>q. res = Inr q \<longrightarrow> q = p)"
    with pinned show "prefix_stages M A pm res (s1 @ s2)" by simp
  qed (simp add: prefix_stages_def pinning_def)
qed

lemma repaired_adds:
  assumes "m_unmerged M (ma_wtPath A) w = Inr []" "\<And>x. adds (k x) (prefix_stages M A pm)"
  shows "adds (andThen (if guardedMerge M pm A v then skipRepairForGuardedMerge A h else repair M A h) k) (prefix_stages M A pm)"
proof (cases "guardedMerge M pm A v")
  case True
  show ?thesis unfolding if_P[OF True]
    by (rule adds_after_quiet[OF skip_quiet assms(2)]) (simp add: prefix_stages_def pinning_def)
next
  case False
  show ?thesis unfolding if_not_P[OF False] by (rule prefix_stages_after[OF repair_adds[OF assms(1) False] assms(2)])
qed

lemma rebase_and_pin_adds: "adds (rebase_and_pin M A pm t h0) (prefix_stages M A pm)"
proof -
  have rebased: "adds (passed SessionRebased) (\<lambda>_ st. plain_stages M A pm st)"
    by (rule adds_mono[OF adds_passed]) (auto intro: plain_stage)
  have quiet: "adds (emit ps) (\<lambda>_ st. plain_stages M A pm st)" for ps by (rule adds_mono[OF adds_emit]) simp
  show ?thesis unfolding rebase_and_pin_def Let_def
    by (intro adds_after_act adds_option adds_after_ask adds_if adds_answer prefix_stages_fail
          prefix_stages_after[OF rebased] prefix_stages_after[OF quiet])
       (rule repaired_adds[OF _ pin_adds], assumption)
qed

section \<open>The autostash comes back\<close>

definition put_back_stages :: "nat \<Rightarrow> stage list \<Rightarrow> bool" where
  "put_back_stages e st \<longleftrightarrow> st = [ShelfKept e] \<or> st = [ShelfApplied e, ShelfKept e] \<or> st = [ShelfApplied e, ShelfDropped e]"

lemma restore_adds: "adds (restoreAutostash M A e paths intentToAdd) (\<lambda>_ st. put_back_stages e st)"
proof -
  have kept: "adds (andThen (passed (ShelfKept e)) (\<lambda>_. emit ps)) (\<lambda>_ st. st = [ShelfKept e])" for ps
    by (rule adds_andThen[OF adds_passed adds_emit]) auto
  have marked: "adds (if b then act f else give None) (\<lambda>res st. st = [] \<and> (\<exists>x. res = Inr x))" for b and f :: "'a \<Rightarrow> string option \<times> 'a"
    by (cases b) (auto intro: adds_mono[OF adds_act] adds_mono[OF adds_give])
  have said: "adds (case x of Some m \<Rightarrow> emit (ps m) | None \<Rightarrow> emit qs) (\<lambda>_ st. st = [])" for x :: "string option" and ps qs
    by (cases x) (auto intro: adds_mono[OF adds_emit])
  have reported: "adds (andThen (if b then act f else give None) (\<lambda>x. case x of Some m \<Rightarrow> emit (ps m) | None \<Rightarrow> emit qs)) (\<lambda>_ st. st = [])"
    for b and f :: "'a \<Rightarrow> string option \<times> 'a" and ps qs
    by (rule adds_andThen[OF marked said]) auto
  have dropped: "adds (andThen (passed (ShelfDropped e)) (\<lambda>_. andThen (if b then act f else give None)
      (\<lambda>x. case x of Some m \<Rightarrow> emit (ps m) | None \<Rightarrow> emit qs))) (\<lambda>_ st. st = [ShelfDropped e])"
    for b and f :: "'a \<Rightarrow> string option \<times> 'a" and ps qs
    by (rule adds_andThen[OF adds_passed reported]) auto
  have undropped: "adds (case y of
      Some m \<Rightarrow> andThen (passed (ShelfKept e)) (\<lambda>_. emit (rs m))
    | None \<Rightarrow> andThen (passed (ShelfDropped e)) (\<lambda>_. andThen (if b then act f else give None)
        (\<lambda>x. case x of Some m \<Rightarrow> emit (ps m) | None \<Rightarrow> emit qs))) (\<lambda>_ st. st = [ShelfKept e] \<or> st = [ShelfDropped e])"
    for y :: "string option" and rs b and f :: "'a \<Rightarrow> string option \<times> 'a" and ps qs
    by (intro adds_option adds_mono[OF kept] adds_mono[OF dropped]) simp_all
  have applied: "adds (andThen (passed (ShelfApplied e)) (\<lambda>_. andThen (act g) (\<lambda>y. case y of
      Some m \<Rightarrow> andThen (passed (ShelfKept e)) (\<lambda>_. emit (rs m))
    | None \<Rightarrow> andThen (passed (ShelfDropped e)) (\<lambda>_. andThen (if b then act f else give None)
        (\<lambda>x. case x of Some m \<Rightarrow> emit (ps m) | None \<Rightarrow> emit qs))))) (\<lambda>_ st. put_back_stages e st)"
    for g :: "'a \<Rightarrow> string option \<times> 'a" and rs b and f :: "'a \<Rightarrow> string option \<times> 'a" and ps qs
    by (rule adds_andThen[OF adds_passed adds_after_act[OF undropped]]) (auto simp: put_back_stages_def)
  show ?thesis unfolding restoreAutostash_def Let_def
    by (intro adds_after_act adds_option applied adds_mono[OF kept]) (simp add: put_back_stages_def)
qed

text \<open>The stages of the prefix: what it did, between shelving and putting back when it shelved.\<close>

definition prepared_stages :: "'w merge_ops \<Rightarrow> merge_args \<Rightarrow> PostMergeOptions \<Rightarrow> string + string \<Rightarrow> stage list \<Rightarrow> bool" where
  "prepared_stages M A pm res st \<longleftrightarrow>
     prefix_stages M A pm res st \<or>
     (\<exists>e pre body rest. st = pre @ [Shelved e] @ body @ rest \<and> plain_stages M A pm pre \<and> prefix_stages M A pm res body \<and> put_back_stages e rest)"

lemma prepared_append:
  assumes "plain_stages M A pm s1" "prepared_stages M A pm res s2"
  shows "prepared_stages M A pm res (s1 @ s2)"
proof (cases "prefix_stages M A pm res s2")
  case True
  with assms(1) show ?thesis unfolding prepared_stages_def by (blast intro: prefix_stages_append)
next
  case False
  with assms(2) obtain e pre body rest where "s2 = pre @ [Shelved e] @ body @ rest" "plain_stages M A pm pre"
      "prefix_stages M A pm res body" "put_back_stages e rest"
    unfolding prepared_stages_def by blast
  with assms(1) show ?thesis unfolding prepared_stages_def
    by (intro disjI2 exI[of _ e] exI[of _ "s1 @ pre"] exI[of _ body] exI[of _ rest]) simp
qed

lemma prepared_shelved:
  "prefix_stages M A pm res body \<Longrightarrow> put_back_stages e rest \<Longrightarrow> prepared_stages M A pm res (Shelved e # body @ rest)"
  unfolding prepared_stages_def
  by (intro disjI2 exI[of _ e] exI[of _ "[]"] exI[of _ body] exI[of _ rest]) simp

lemma prepared_unshelved: "prefix_stages M A pm res st \<Longrightarrow> prepared_stages M A pm res st"
  by (simp add: prepared_stages_def)

lemma prepared_fail: "plain_stages M A pm st \<Longrightarrow> prepared_stages M A pm (Inl e) st"
  by (simp add: prepared_stages_def prefix_stages_def pinning_def)

lemma prepared_after:
  assumes "adds m (\<lambda>_ st. plain_stages M A pm st)" "\<And>x. adds (k x) (prepared_stages M A pm)"
  shows "adds (andThen m k) (prepared_stages M A pm)"
  by (rule adds_andThen[OF assms]) (simp_all add: prepared_append prepared_fail)

lemma shelving_adds:
  "adds (andThen (autostash M A) (\<lambda>shelved. deferring (put_back M A shelved) (rebase_and_pin M A pm t h0))) (prepared_stages M A pm)"
proof -
  let ?Q = "prepared_stages M A pm"
  have saved: "adds (andThen (passed (Shelved e)) (\<lambda>_. andThen (emit ps) (\<lambda>_. give (Some (e, x))))) (either none_yet (\<lambda>v st. v = Some (e, x) \<and> st = [Shelved e]))"
    for e ps and x :: "string list \<times> string list"
  proof -
    have "adds (andThen (emit ps) (\<lambda>_. give (Some (e, x)))) (\<lambda>res st. res = Inr (Some (e, x)) \<and> st = [])"
      by (rule adds_andThen[OF adds_emit adds_give]) auto
    then show ?thesis by (rule adds_andThen[OF adds_passed]) auto
  qed
  define R :: "string + (nat \<times> string list \<times> string list) option \<Rightarrow> stage list \<Rightarrow> bool" where "R = either none_yet (\<lambda>v st. st = (case v of None \<Rightarrow> [] | Some (e, paths, intent) \<Rightarrow> [Shelved e]))"
  have shelved: "adds (autostash M A) R"
    unfolding autostash_def Let_def
    by (intro adds_after_ask adds_after_act adds_answer adds_option; (rule adds_mono[OF adds_failStep] adds_mono[OF adds_give])?)
       (auto simp: R_def either_def split: sum.split intro!: adds_after_ask adds_after_act adds_mono[OF adds_failStep] adds_mono[OF saved])
  have body: "adds (deferring (put_back M A v) (rebase_and_pin M A pm t h0))
      (\<lambda>res st. \<exists>s rest. st = s @ rest \<and> prefix_stages M A pm res s \<and> (case v of None \<Rightarrow> rest = [] | Some (e, x) \<Rightarrow> put_back_stages e rest))" for v
    unfolding adds_def
  proof (intro allI impI)
    fix r res r'
    assume run: "deferring (put_back M A v) (rebase_and_pin M A pm t h0) r = (res, r')"
    obtain a r1 where m: "rebase_and_pin M A pm t h0 r = (a, r1)" by fastforce
    with rebase_and_pin_adds obtain s where s: "r_stages r1 = r_stages r @ s" "prefix_stages M A pm a s" unfolding adds_def by blast
    from run m have r': "res = a" "r' = put_back M A v r1" by (simp_all add: deferring_def)
    obtain rest where "r_stages (put_back M A v r1) = r_stages r1 @ rest" "case v of None \<Rightarrow> rest = [] | Some (e, x) \<Rightarrow> put_back_stages e rest"
    proof (cases v)
      case None
      then show ?thesis using that[of "[]"] by (simp add: put_back_def)
    next
      case (Some q)
      obtain e paths intent where q: "q = (e, paths, intent)" by (cases q) auto
      obtain x r2 where r2: "restoreAutostash M A e paths intent r1 = (x, r2)" by fastforce
      with restore_adds obtain rest where "r_stages r2 = r_stages r1 @ rest" "put_back_stages e rest" unfolding adds_def by blast
      with that[of rest] show ?thesis by (simp add: put_back_def Some q r2)
    qed
    with s r' show "\<exists>st. r_stages r' = r_stages r @ st \<and> (\<exists>s rest. st = s @ rest \<and> prefix_stages M A pm res s \<and>
        (case v of None \<Rightarrow> rest = [] | Some (e, x) \<Rightarrow> put_back_stages e rest))"
      by (intro exI[of _ "s @ rest"] conjI exI[of _ s] exI[of _ rest]) auto
  qed
  show ?thesis
  proof (rule adds_andThen[OF shelved body])
    fix v s1 s2 and res :: "string + string"
    assume "R (Inr v) s1" and "\<exists>s rest. s2 = s @ rest \<and> prefix_stages M A pm res s \<and> (case v of None \<Rightarrow> rest = [] | Some (e, x) \<Rightarrow> put_back_stages e rest)"
    then show "?Q res (s1 @ s2)"
      by (cases v) (auto simp: R_def prepared_shelved prepared_unshelved)
  qed (simp add: R_def prepared_fail)
qed

lemma PrepareMergeWith_adds: "adds (PrepareMergeWith M A pm) (prepared_stages M A pm)"
proof -
  have none: "plain_stages M A pm []" by simp
  have gate: "adds (loadAndGate M A) (\<lambda>_ st. plain_stages M A pm st)"
  proof -
    have "quiet (loadAndGate M A)" unfolding loadAndGate_def emitCoActiveSessions_def
      by (intro quiet_andThen) (auto split: option.split sum.split list.split)
    then show ?thesis unfolding quiet_def by (rule adds_mono) simp
  qed
  have tip: "adds (checkExpectedTip M A expect) (\<lambda>_ st. plain_stages M A pm st)" for expect
  proof -
    have "adds (andThen (emit ps) (\<lambda>_. passed TipExpected)) (\<lambda>_ st. plain_stages M A pm st)" for ps
      by (rule adds_after_quiet) (auto intro!: adds_mono[OF adds_passed] plain_stage)
    then show ?thesis unfolding checkExpectedTip_def Let_def
      by (intro adds_if adds_after_ask adds_option adds_mono[OF adds_failStep] adds_mono[OF adds_give]) simp_all
  qed
  have fetched: "adds (fetchTarget M A t l) (\<lambda>_ st. plain_stages M A pm st)" for t l
    by (rule adds_mono[OF fetchTarget_adds]) (auto intro!: plain_stage)
  have drivers: "adds (PreflightMergeDrivers M A d l) (\<lambda>_ st. plain_stages M A pm st)" for d l
    by (rule adds_mono[OF preflight_quiet[unfolded quiet_def]]) simp
  have unstashed: "adds (rebase_and_pin M A pm t h0) (prepared_stages M A pm)" for t h0
    by (rule adds_mono[OF rebase_and_pin_adds]) (simp add: prepared_stages_def)
  show ?thesis unfolding PrepareMergeWith_def
    by (intro prepared_after[OF gate] prepared_after[OF tip] adds_after_ask prepared_after[OF fetched] prepared_after[OF drivers]
          adds_option adds_if shelving_adds unstashed adds_mono[OF adds_fail]) (simp add: prepared_fail)
qed

section \<open>Properties of the prefix\<close>

lemma prepared_early: "prepared_stages M A pm res st \<Longrightarrow> list_all early st"
  by (auto simp: prepared_stages_def prefix_stages_def plain_stages_def put_back_stages_def list_all_iff)

lemma prepared_pin: "prepared_stages M A pm (Inr pinned) st \<Longrightarrow> PinnedAt pinned \<in> set st"
  by (auto simp: prepared_stages_def prefix_stages_def pinning_def)

lemma plain_no_shelf:
  "plain_stages M A pm st \<Longrightarrow> Shelved e \<notin> set st \<and> ShelfApplied e \<notin> set st \<and> ShelfKept e \<notin> set st \<and> ShelfDropped e \<notin> set st"
  by (auto simp: plain_stages_def list_all_iff)


text \<open>A guarded merge runs no repair.\<close>

lemma guarded_merge_runs_no_repair:
  assumes "PrepareMergeWith M A pm r = (res, r')" "r_stages r = []" "RepairRan amended \<in> set (r_stages r')"
  shows "\<not> pm_GuardedGate pm"
proof -
  from assms(1,2) PrepareMergeWith_adds[of M A pm] have st: "prepared_stages M A pm res (r_stages r')"
    unfolding adds_def by (metis append_Nil)
  with assms(3) have "repair_allowed M A pm amended"
    by (auto simp: prepared_stages_def prefix_stages_def plain_stages_def put_back_stages_def)
  then show ?thesis unfolding repair_allowed_def guardedMerge_def by blast
qed

definition head_before :: "'w merge_ops \<Rightarrow> merge_args \<Rightarrow> 'w \<Rightarrow> string" where
  "head_before M A w = (case m_revParseIn M (ma_wtPath A) ''HEAD'' w of None \<Rightarrow> [] | Some sha \<Rightarrow> sha)"

text \<open>
  A repair that a merge goes on from ran on a worktree with no uncommitted tracked change, ended well,
  and left the branch's commit as it was or replaced it by one with the same set of paths; any other
  amend is undone and fails the merge.
\<close>

theorem repair_keeps_the_paths:
  assumes "repair M A (Some h) r = (Inr (), r')" "RepairActive (h_Merged h)"
  shows "m_dirtyTracked M (ma_wtPath A) (r_world r) = Inr [] \<and>
    m_repairHook M (h_Merged h) (ma_wtPath A) (r_world r) = (RepairOk, r_world r') \<and>
    (\<exists>sha. m_revParseIn M (ma_wtPath A) ''HEAD'' (r_world r') = Some sha \<and>
      (sha = head_before M A (r_world r) \<or> m_pathsChanged M (ma_wtPath A) (head_before M A (r_world r)) sha (r_world r') = Inr []))"
proof -
  have undone: "undo_amend M A s0 s1 m q \<noteq> (Inr (), q')" for s0 s1 m q q'
    by (auto simp: undo_amend_def andThen_def act_def failStep_def split: prod.split option.split)
  have clean: "m_dirtyTracked M (ma_wtPath A) (r_world r) = Inr []" "runRepairPhase M A (h_Merged h) r = (Inr (), r')"
    using assms by (auto simp: repair_def andThen_def ask_def failStep_def split: sum.splits list.splits)
  obtain e w where hook: "m_repairHook M (h_Merged h) (ma_wtPath A) (r_world r) = (e, w)" by fastforce
  have "e = RepairOk"
    using clean(2) hook by (cases e) (auto simp: runRepairPhase_def Let_def andThen_def ask_def act_def failStep_def)
  with clean(2) hook undone have "r_world r' = w \<and> (\<exists>sha. m_revParseIn M (ma_wtPath A) ''HEAD'' w = Some sha \<and>
      (sha = head_before M A (r_world r) \<or> m_pathsChanged M (ma_wtPath A) (head_before M A (r_world r)) sha w = Inr []))"
    by (auto simp: runRepairPhase_def Let_def andThen_def ask_def act_def failStep_def passed_def emit_def head_before_def[symmetric]
        split: option.splits sum.splits list.splits if_splits)
  with clean(1) hook \<open>e = RepairOk\<close> show ?thesis by simp
qed

text \<open>Nothing is touched before the two refusals.\<close>

definition tip_expected :: "'w merge_ops \<Rightarrow> merge_args \<Rightarrow> string \<Rightarrow> 'w \<Rightarrow> bool" where
  "tip_expected M A expect w \<longleftrightarrow> expect = [] \<or>
     (\<exists>tip. m_revParseIn M (ma_wtPath A) (expect @ ''^{commit}'') w = Some tip \<and>
        m_revParseIn M (ma_wtPath A) (''refs/heads/'' @ ma_branch A) w = Some tip)"

definition merge_enabled :: "'w merge_ops \<Rightarrow> merge_args \<Rightarrow> 'w \<Rightarrow> bool" where
  "merge_enabled M A w \<longleftrightarrow> (case trustedHierarchy M A w of None \<Rightarrow> True | Some h \<Rightarrow> \<not> DisableMergeEnabled (h_Merged h))"

lemma loadAndGate_run:
  "\<exists>ps. loadAndGate M A r = (if merge_enabled M A (r_world r) then Inr (trustedHierarchy M A (r_world r))
      else Inl (''merge disabled by sweatfile (disable-merge=true at '' @ disableMergeSource (the (trustedHierarchy M A (r_world r))) @
              ''); use `sc check` to run the pre-merge hook without merging''), r\<lparr>r_points := ps\<rparr>)"
proof -
  obtain ps where said: "emitCoActiveSessions M A r = (Inr (), r\<lparr>r_points := ps\<rparr>)"
  proof -
    have "\<exists>ps. emitCoActiveSessions M A r = (Inr (), r\<lparr>r_points := ps\<rparr>)"
      by (auto simp: emitCoActiveSessions_def andThen_def ask_def emit_def give_def split: sum.split list.split intro: exI[of _ "r_points r"])
    with that show ?thesis by blast
  qed
  show ?thesis
    by (cases "trustedHierarchy M A (r_world r)")
       (auto simp: loadAndGate_def andThen_def said ask_def give_def failStep_def merge_enabled_def)
qed

lemma checkExpectedTip_refuses:
  "\<not> tip_expected M A expect (r_world r) \<Longrightarrow> \<exists>e ps. checkExpectedTip M A expect r = (Inl e, r\<lparr>r_points := ps\<rparr>)"
  by (auto simp: checkExpectedTip_def tip_expected_def Let_def andThen_def ask_def failStep_def split: option.split)

lemma prepare_refuses:
  assumes "\<not> merge_enabled M A (r_world r) \<or> \<not> tip_expected M A (pm_ExpectSha pm) (r_world r)"
  shows "\<exists>e ps. PrepareMergeWith M A pm r = (Inl e, r\<lparr>r_points := ps\<rparr>)"
proof -
  obtain ps where gate: "loadAndGate M A r = (if merge_enabled M A (r_world r) then Inr (trustedHierarchy M A (r_world r))
      else Inl (''merge disabled by sweatfile (disable-merge=true at '' @ disableMergeSource (the (trustedHierarchy M A (r_world r))) @
              ''); use `sc check` to run the pre-merge hook without merging''), r\<lparr>r_points := ps\<rparr>)"
    using loadAndGate_run by blast
  show ?thesis
  proof (cases "merge_enabled M A (r_world r)")
    case False
    have "\<exists>e. PrepareMergeWith M A pm r = (Inl e, r\<lparr>r_points := ps\<rparr>)"
      unfolding PrepareMergeWith_def andThen_def[of "loadAndGate M A"] gate if_not_P[OF False] by simp
    then show ?thesis by blast
  next
    case True
    with assms have "\<not> tip_expected M A (pm_ExpectSha pm) (r_world (r\<lparr>r_points := ps\<rparr>))" by simp
    from checkExpectedTip_refuses[OF this] obtain e qs where
      "checkExpectedTip M A (pm_ExpectSha pm) (r\<lparr>r_points := ps\<rparr>) = (Inl e, r\<lparr>r_points := ps\<rparr>\<lparr>r_points := qs\<rparr>)"
      by blast
    then have "PrepareMergeWith M A pm r = (Inl e, r\<lparr>r_points := qs\<rparr>)"
      unfolding PrepareMergeWith_def andThen_def[of "loadAndGate M A"] andThen_def[of "checkExpectedTip M A _"] gate if_P[OF True] by simp
    then show ?thesis by blast
  qed
qed

text \<open>
  A merge that the trusted sweatfile disables, or whose branch is not at the commit the caller expected,
  fails having touched nothing: no operation ran on the repository, no stage was passed.
\<close>

theorem early_refusals_touch_nothing:
  assumes "\<not> merge_enabled M A (r_world r) \<or> \<not> tip_expected M A (pm_ExpectSha pm) (r_world r)"
  shows "\<exists>e ps. ResolvedContext M A pm r = (Inl e, r\<lparr>r_points := ps\<rparr>)"
proof -
  from prepare_refuses[OF assms] obtain e ps where "PrepareMergeWith M A pm r = (Inl e, r\<lparr>r_points := ps\<rparr>)" by blast
  then have "\<exists>e. ResolvedContext M A pm r = (Inl e, r) \<or> ResolvedContext M A pm r = (Inl e, r\<lparr>r_points := ps\<rparr>)"
    by (auto simp: ResolvedContext_def andThen_def ask_def)
  moreover have "r = r\<lparr>r_points := r_points r\<rparr>" by simp
  ultimately show ?thesis by metis
qed

text \<open>The whole merge.\<close>


section \<open>Samples\<close>

text \<open>A worktree with an uncommitted change, and a repository with a repair command.\<close>

definition dirty_merge :: "unit merge_ops" where
  "dirty_merge = sample_merge\<lparr>m_dirtyTracked := (\<lambda>_ _. Inr [''notes''])\<rparr>"

definition repairing_merge :: "unit merge_ops" where
  "repairing_merge =
     sample_merge\<lparr>m_trusted := (\<lambda>_ _. Some \<lparr>h_Sources = [],
       h_Merged = empty_Sweatfile\<lparr>sf_Hooks := Some (empty_Hooks\<lparr>hk_Repair := Some ''fmt''\<rparr>)\<rparr>\<rparr>)\<rparr>"

definition moved_merge :: "unit merge_ops" where
  "moved_merge = sample_merge\<lparr>m_revParseIn := (\<lambda>_ ref _. if ref = ''refs/heads/w'' then Some ''p2'' else Some ''p1'')\<rparr>"

lemma silent_section:
  "sweatfile_at M (r_world r) sha = Some sf \<Longrightarrow> pm_AcceptPostMergeDigest pm = Digest (m_sum256 M) (PostMergeSectionOf sf) \<Longrightarrow>
   requireSection M A pm t sha False r = (Inr (), r\<lparr>r_stages := r_stages r @ [SectionOk sha]\<rparr>)"
  by (auto simp: requireSection_def requirePostMergeSectionAccepted_def PostMergeSectionAt_def Let_def andThen_def ask_def emit_def passed_def)

lemma sample_expect [simp]: "pm_ExpectSha sample_options = []" "pm_NoAutostash sample_options = False"
  by (simp_all add: sample_options_def)

lemma sample_loaded: "\<not> DisableMergeEnabled empty_Sweatfile" "\<not> RepairActive empty_Sweatfile"
  by code_simp+

lemmas prefix_defs =
  PrepareMergeWith_def loadAndGate_def emitCoActiveSessions_def checkExpectedTip_def merge_target_def ForMerge_def fetchTarget_def
  PreflightMergeDrivers_def MergeDriverRefusal_def autostash_def rebase_and_pin_def guardedMerge_def repair_def pinHead_def
  selectionStage_def validatePostMergeSelection_def put_back_def restoreAutostash_def trustedHierarchy_def
  andThen_def ask_def act_def emit_def passed_def give_def deferring_def Let_def SelfTarget_def IsSelf_def

lemma dirty_prepared:
  "r_stages (snd (PrepareMergeWith dirty_merge sample_args sample_options sample_start)) =
     [Shelved 0, SessionRebased, PinnedAt ''p1'', SelectionOk, SectionOk ''p1'', ShelfApplied 0, ShelfDropped 0]"
proof -
  have at: "sweatfile_at dirty_merge w ''p1'' = Some deploying_sweatfile" for w by (simp add: dirty_merge_def sweatfile_at_def)
  have sect: "requireSection dirty_merge A sample_options t ''p1'' False r = (Inr (), r\<lparr>r_stages := r_stages r @ [SectionOk ''p1'']\<rparr>)" for A t r
    by (rule silent_section[OF at]) (simp add: dirty_merge_def)
  have ops: "m_coActive dirty_merge = m_coActive sample_merge" "m_trusted dirty_merge = m_trusted sample_merge"
      "m_outside dirty_merge = m_outside sample_merge" "m_driversInPlay dirty_merge = m_driversInPlay sample_merge"
      "m_dirtyTracked dirty_merge = (\<lambda>_ _. Inr [''notes''])" "m_intentToAdd dirty_merge = m_intentToAdd sample_merge"
      "m_shelfSave dirty_merge = m_shelfSave sample_merge" "m_shelfApply dirty_merge = m_shelfApply sample_merge"
      "m_shelfDrop dirty_merge = m_shelfDrop sample_merge" "m_rebaseSession dirty_merge = m_rebaseSession sample_merge"
      "m_unmerged dirty_merge = m_unmerged sample_merge" "m_commitsAhead dirty_merge = m_commitsAhead sample_merge"
      "m_guarded dirty_merge = m_guarded sample_merge" "m_revParseIn dirty_merge = m_revParseIn sample_merge"
    by (simp_all add: dirty_merge_def)
  show ?thesis
    by (simp add: prefix_defs ops sect sample_loaded sample_start_def split del: if_split)
qed

lemma sample_prepared:
  "\<exists>r'. PrepareMergeWith sample_merge sample_args sample_options r = (Inr ''p1'', r') \<and>
     r_stages r' = r_stages r @ [SessionRebased, PinnedAt ''p1'', SelectionOk, SectionOk ''p1'']"
proof -
  have sect: "requireSection sample_merge A sample_options t ''p1'' False r = (Inr (), r\<lparr>r_stages := r_stages r @ [SectionOk ''p1'']\<rparr>)" for A t r
    by (rule silent_section[OF sample_at]) simp
  show ?thesis by (simp add: prefix_defs sect sample_loaded split del: if_split)
qed


theorem repair_keeps_the_paths_witness:
  "\<exists>r'. m_repairHook repairing_merge (empty_Sweatfile\<lparr>sf_Hooks := Some (empty_Hooks\<lparr>hk_Repair := Some ''fmt''\<rparr>)\<rparr>) (ma_wtPath sample_args) () =
     (RepairOk, r_world (r' :: unit run))"
proof -
  let ?sf = "empty_Sweatfile\<lparr>sf_Hooks := Some (empty_Hooks\<lparr>hk_Repair := Some ''fmt''\<rparr>)\<rparr>"
  let ?h = "\<lparr>h_Sources = [], h_Merged = ?sf\<rparr>"
  have active: "RepairActive (h_Merged ?h)" by code_simp
  obtain r' where "repair repairing_merge sample_args (Some ?h) sample_start = (Inr (), r')"
    using active by (auto simp: repair_def runRepairPhase_def Let_def andThen_def ask_def act_def passed_def emit_def repairing_merge_def)
  from repair_keeps_the_paths[OF this active] show ?thesis by (auto simp: sample_start_def)
qed

theorem early_refusals_touch_nothing_witness:
  "\<exists>e ps. ResolvedContext moved_merge sample_args (sample_options\<lparr>pm_ExpectSha := ''p1''\<rparr>) sample_start = (Inl e, sample_start\<lparr>r_points := ps\<rparr>)"
  by (rule early_refusals_touch_nothing) (simp add: tip_expected_def moved_merge_def)


end
