(* ===== verification/SessionClean.thy ===== *)
theory SessionClean
  imports MergeFlow
begin

text \<open>
  The sweep of merged worktrees (\<open>src/internal/echo/clean/clean.go\<close>) with the parts of
  \<open>src/internal/0/git/git.go\<close>, \<open>src/internal/alfa/worktree/worktree.go\<close>, \<open>src/internal/0/proccwd/proccwd.go\<close>,
  \<open>src/internal/0/attestationindex/attestationindex.go\<close> and \<open>src/internal/delta/merge/merge.go\<close> it decides by.
  Git, the file system, the credential store and the prompt are operations on a world; what the sweep
  does to the world is recorded in order in a trace.
\<close>

section \<open>Numbers in names\<close>

text \<open>What follows the last dash: \<open>name[strings.LastIndex(name, "-")+1:]\<close>, or none without a dash.\<close>

definition after_last_dash :: "string \<Rightarrow> string option" where
  "after_last_dash name =
     (if CHR ''-'' \<in> set name then Some (rev (takeWhile (\<lambda>c. c \<noteq> CHR ''-'') (rev name))) else None)"

definition BuildWorktreePrefix :: string where "BuildWorktreePrefix = ''.merge-''"

definition isTransientMergeWorktreeName :: "string \<Rightarrow> bool" where
  "isTransientMergeWorktreeName name \<longleftrightarrow>
     HasPrefix name BuildWorktreePrefix \<or> HasPrefix name LandWorktreePrefix \<or> HasPrefix name ExemptWorktreePrefix"

definition pidFromTransientWorktreeName :: "string \<Rightarrow> int option" where
  "pidFromTransientWorktreeName name =
     (case after_last_dash name of
        None \<Rightarrow> None
      | Some seg \<Rightarrow>
          if seg = [] then None
          else (case Atoi seg of (pid, err) \<Rightarrow> if err \<or> pid \<le> 0 then None else Some pid))"

section \<open>The status of a worktree\<close>

record FileChange =
  fc_Code :: string
  fc_Path :: string

definition parse_change :: "string \<Rightarrow> FileChange" where
  "parse_change line =
     \<lparr>fc_Code = take 2 line,
      fc_Path = (case Cut (drop 3 line) '' -> '' of Some (_, new) \<Rightarrow> new | None \<Rightarrow> drop 3 line)\<rparr>"

definition ParsePorcelain :: "string \<Rightarrow> FileChange list" where
  "ParsePorcelain porcelain = map parse_change (filter (\<lambda>line. \<not> length line < 4) (split1 (CHR 0x0A) porcelain))"

definition Description :: "FileChange \<Rightarrow> string" where
  "Description fc =
     (if fc_Code fc = ''??'' then ''untracked''
      else if fc_Code fc ! 1 = CHR ''D'' \<or> fc_Code fc ! 0 = CHR ''D'' then ''deleted''
      else if fc_Code fc ! 0 = CHR ''A'' then ''added''
      else if fc_Code fc ! 0 = CHR ''R'' then ''renamed''
      else ''modified'')"

section \<open>The world of a sweep\<close>

record worktreeInfo =
  wt_repo :: string
  wt_branch :: string
  wt_repoPath :: string
  wt_worktreePath :: string
  wt_merged :: bool
  wt_dirty :: bool
  wt_shelved :: bool
  wt_live :: bool

record NixPlan =
  np_Roots :: "string list"
  np_Closure :: "string list"

record ReapSummary =
  rs_Reclaimed :: nat
  rs_Kept :: nat
  rs_TimedOut :: nat
  rs_BytesFreed :: int
  rs_BytesKept :: int
  rs_Errors :: "string list"

record Identity =
  id_RepoPath :: string
  id_WorktreePath :: string
  id_Branch :: string
  id_SessionKey :: string

record RevokeOutcome =
  ro_Ran :: bool
  ro_Skipped :: string
  ro_Note :: string
  ro_Err :: "string option"
  ro_Output :: string

record IndexEntry =
  ie_ClaimID :: string
  ie_RecordedAt :: Time

text \<open>The TAP stream, or the log lines when the format is not TAP. The last five events are those of a close.\<close>

datatype line =
    TapOk string | TapNotOk string "(string \<times> string) list" | TapSkip string string | TapComment string
  | TapBlock string "string list" "string option" | TapPlan | TapSubtest string
  | Stderr string | LogInfo string "(string \<times> string) list" | LogWarn string "(string \<times> string) list" | LogError string "(string \<times> string) list"

datatype event =
    Said line | Prompted string | GitRan string "string list" | FileRemoved string | TreeRemoved string
  | CredentialRevoked Identity | CredentialFileRemoved string | BindingRevoked string | RecordRemoved string string
  | Reaped NixPlan | TombstonesCollected Duration | IndexEntryRemoved string
  | ClosingMarked | ClosingCleared | ProcessSignalled int | UnitStopped string | Tombstoned string string string

text \<open>
  The reads take the world as it is. A directory listing gives each entry's name and whether it is a
  directory; \<open>c_isDir\<close> and \<open>c_lstatDir\<close> are \<open>os.Stat\<close> and \<open>os.Lstat\<close>. \<open>c_gitRead\<close> is the untrimmed output of
  a git command that only reads, \<open>c_git\<close> runs one that writes.
\<close>

record 'w clean_ops =
  c_style :: "string \<Rightarrow> string"
  c_human :: "int \<Rightarrow> string"
  c_readDir :: "string \<Rightarrow> 'w \<Rightarrow> (string \<times> bool) list option"
  c_isDir :: "string \<Rightarrow> 'w \<Rightarrow> bool option"
  c_lstatDir :: "string \<Rightarrow> 'w \<Rightarrow> bool option"
  c_evalSymlinks :: "string \<Rightarrow> 'w \<Rightarrow> string option"
  c_processes :: "'w \<Rightarrow> (string \<times> string option) list option"
  c_machine :: "'w \<Rightarrow> Machine"
  c_gitRead :: "string \<Rightarrow> string list \<Rightarrow> 'w \<Rightarrow> string + string"
  c_git :: "string \<Rightarrow> string list \<Rightarrow> 'w \<Rightarrow> (string + string) \<times> 'w"
  c_shelfEntries :: "string \<Rightarrow> 'w \<Rightarrow> nat option"
  c_presence :: "string \<Rightarrow> 'w \<Rightarrow> nat"
  c_session :: "string \<Rightarrow> string \<Rightarrow> 'w \<Rightarrow> State option"
  c_listAll :: "'w \<Rightarrow> State list option"
  c_sessionRemove :: "string \<Rightarrow> string \<Rightarrow> 'w \<Rightarrow> 'w"
  c_nixDisabled :: "string \<Rightarrow> string \<Rightarrow> 'w \<Rightarrow> bool"
  c_nixPlan :: "string \<Rightarrow> 'w \<Rightarrow> NixPlan option"
  c_reap :: "NixPlan \<Rightarrow> 'w \<Rightarrow> (string list \<times> ReapSummary) \<times> 'w"
  c_revoke :: "Identity \<Rightarrow> 'w \<Rightarrow> RevokeOutcome \<times> 'w"
  c_removeCredential :: "string \<Rightarrow> 'w \<Rightarrow> 'w"
  c_revokeSession :: "string \<Rightarrow> 'w \<Rightarrow> string option \<times> 'w"
  c_interactive :: "'w \<Rightarrow> bool"
  c_confirm :: "string \<Rightarrow> 'w \<Rightarrow> (string + bool) \<times> 'w"
  c_removeFile :: "string \<Rightarrow> 'w \<Rightarrow> string option \<times> 'w"
  c_removeAll :: "string \<Rightarrow> 'w \<Rightarrow> string option \<times> 'w"
  c_home :: "'w \<Rightarrow> string option"
  c_mergedSweatfile :: "string \<Rightarrow> string \<Rightarrow> 'w \<Rightarrow> Sweatfile option"
  c_now :: "'w \<Rightarrow> Time"
  c_gcTombstones :: "Duration \<Rightarrow> 'w \<Rightarrow> (string + nat) \<times> 'w"
  c_indexEntries :: "'w \<Rightarrow> string + IndexEntry list"
  c_indexRemove :: "string \<Rightarrow> 'w \<Rightarrow> string option \<times> 'w"

record 'w scene =
  cs_world :: 'w
  cs_trace :: "event list"

definition perform :: "event \<Rightarrow> ('w \<Rightarrow> 'a \<times> 'w) \<Rightarrow> 'w scene \<Rightarrow> 'a \<times> 'w scene" where
  "perform ev f s = (case f (cs_world s) of (x, w) \<Rightarrow> (x, s\<lparr>cs_world := w, cs_trace := cs_trace s @ [ev]\<rparr>))"

definition effect :: "event \<Rightarrow> ('w \<Rightarrow> 'w) \<Rightarrow> 'w scene \<Rightarrow> 'w scene" where
  "effect ev f s = s\<lparr>cs_world := f (cs_world s), cs_trace := cs_trace s @ [ev]\<rparr>"

text \<open>A line of the TAP stream when there is one, else a log line.\<close>

definition say :: "line \<Rightarrow> 'w scene \<Rightarrow> 'w scene" where
  "say l = effect (Said l) (\<lambda>w. w)"

definition report :: "bool \<Rightarrow> line \<Rightarrow> line \<Rightarrow> 'w scene \<Rightarrow> 'w scene" where
  "report tap t l = say (if tap then t else l)"

definition report_tap :: "bool \<Rightarrow> line \<Rightarrow> 'w scene \<Rightarrow> 'w scene" where
  "report_tap tap t s = (if tap then say t s else s)"

section \<open>What git says\<close>

text \<open>\<open>git.Run\<close>: the output trimmed at both ends.\<close>

definition Run_git :: "'w clean_ops \<Rightarrow> string \<Rightarrow> string list \<Rightarrow> 'w \<Rightarrow> string + string" where
  "Run_git C dir args w = map_sum (\<lambda>e. e) TrimSpace (c_gitRead C dir args w)"

definition Run_git_ok :: "'w clean_ops \<Rightarrow> string \<Rightarrow> string list \<Rightarrow> 'w \<Rightarrow> bool" where
  "Run_git_ok C dir args w = (case Run_git C dir args w of Inl _ \<Rightarrow> False | Inr _ \<Rightarrow> True)"

definition BranchExists :: "'w clean_ops \<Rightarrow> string \<Rightarrow> string \<Rightarrow> 'w \<Rightarrow> bool" where
  "BranchExists C repoPath branch w = Run_git_ok C repoPath [''rev-parse'', ''--verify'', ''refs/heads/'' @ branch] w"

definition RemoteBranchExists :: "'w clean_ops \<Rightarrow> string \<Rightarrow> string \<Rightarrow> 'w \<Rightarrow> bool" where
  "RemoteBranchExists C repoPath branch w =
     Run_git_ok C repoPath [''rev-parse'', ''--verify'', ''refs/remotes/origin/'' @ branch] w"

definition DefaultBranch :: "'w clean_ops \<Rightarrow> string \<Rightarrow> 'w \<Rightarrow> string + string" where
  "DefaultBranch C repoPath w =
     (let hasMain = BranchExists C repoPath ''main'' w; hasMaster = BranchExists C repoPath ''master'' w;
          current = Run_git C repoPath [''branch'', ''--show-current''] w in
      if hasMain \<and> hasMaster then Inl ''both main and master branches exist''
      else if hasMaster then Inr ''master''
      else if hasMain then Inr ''main''
      else (case Run_git C repoPath [''symbolic-ref'', ''refs/remotes/origin/HEAD''] w of
              Inl _ \<Rightarrow> current
            | Inr out \<Rightarrow>
                (let branch = TrimPrefix out ''refs/remotes/origin/'' in if branch \<noteq> [] then Inr branch else current)))"

definition BranchRemote :: "'w clean_ops \<Rightarrow> string \<Rightarrow> string \<Rightarrow> 'w \<Rightarrow> string" where
  "BranchRemote C dir branch w =
     (case Run_git C dir [''config'', ''--get'', ''branch.'' @ branch @ ''.remote''] w of
        Inl _ \<Rightarrow> ''origin''
      | Inr out \<Rightarrow> if out = [] then ''origin'' else out)"

text \<open>A git that fails counts no commits, as does an output that is no number.\<close>

definition unintegrated_args :: "'w clean_ops \<Rightarrow> string \<Rightarrow> string \<Rightarrow> string \<Rightarrow> 'w \<Rightarrow> string list" where
  "unintegrated_args C worktreePath defaultBranch branch w =
     (let tracking = ''refs/remotes/'' @ BranchRemote C worktreePath defaultBranch w @ ''/'' @ defaultBranch in
      [''rev-list'', ''--count'', branch, CHR ''^'' # defaultBranch] @
      (if Run_git_ok C worktreePath [''rev-parse'', ''--verify'', ''--quiet'', tracking] w then [CHR ''^'' # tracking] else []))"

definition CommitsUnintegrated :: "'w clean_ops \<Rightarrow> string \<Rightarrow> string \<Rightarrow> string \<Rightarrow> 'w \<Rightarrow> int" where
  "CommitsUnintegrated C worktreePath defaultBranch branch w =
     (case Run_git C worktreePath (unintegrated_args C worktreePath defaultBranch branch w) w of
        Inl _ \<Rightarrow> 0
      | Inr out \<Rightarrow> fst (Atoi out))"

definition StatusPorcelain :: "'w clean_ops \<Rightarrow> string \<Rightarrow> 'w \<Rightarrow> string" where
  "StatusPorcelain C path w =
     (case Run_git C path [''status'', ''--porcelain''] w of Inl _ \<Rightarrow> [] | Inr out \<Rightarrow> out)"

section \<open>The worktrees\<close>

definition WorktreesDir :: string where "WorktreesDir = ''.worktrees''"

definition IsWorktree :: "'w clean_ops \<Rightarrow> string \<Rightarrow> 'w \<Rightarrow> bool" where
  "IsWorktree C path w = (c_lstatDir C (JoinPath [path, ''.git'']) w = Some False)"

definition isRepoWithWorktrees :: "'w clean_ops \<Rightarrow> string \<Rightarrow> 'w \<Rightarrow> bool" where
  "isRepoWithWorktrees C dir w =
     (if c_isDir C (JoinPath [dir, ''.git'']) w \<noteq> Some True then False
      else if c_isDir C (JoinPath [dir, WorktreesDir]) w \<noteq> Some True then False
      else True)"

definition ScanRepos :: "'w clean_ops \<Rightarrow> string \<Rightarrow> 'w \<Rightarrow> string list" where
  "ScanRepos C startDir w =
     (if isRepoWithWorktrees C startDir w then [startDir]
      else (case c_readDir C startDir w of
              None \<Rightarrow> []
            | Some entries \<Rightarrow>
                filter (\<lambda>child. isRepoWithWorktrees C child w)
                  (map (\<lambda>(name, _). JoinPath [startDir, name]) (filter snd entries))))"

definition ListWorktrees :: "'w clean_ops \<Rightarrow> string \<Rightarrow> 'w \<Rightarrow> string list" where
  "ListWorktrees C repoPath w =
     (let wtDir = JoinPath [repoPath, WorktreesDir] in
      case c_readDir C wtDir w of
        None \<Rightarrow> []
      | Some entries \<Rightarrow>
          filter (\<lambda>wtPath. IsWorktree C wtPath w) (map (\<lambda>(name, _). JoinPath [wtDir, name]) (filter snd entries)))"

definition ShelfNotEmpty :: "'w clean_ops \<Rightarrow> string \<Rightarrow> 'w \<Rightarrow> bool" where
  "ShelfNotEmpty C worktree w = (case c_shelfEntries C worktree w of None \<Rightarrow> True | Some n \<Rightarrow> n > 0)"

text \<open>\<open>sessionKeyFor\<close>, which the two revocations below write out inline.\<close>

definition sessionKeyFor :: "'w clean_ops \<Rightarrow> string \<Rightarrow> string \<Rightarrow> 'w \<Rightarrow> string" where
  "sessionKeyFor C repoPath branch w =
     (let derived = Base repoPath @ ''/'' @ branch in
      case c_session C repoPath branch w of
        Some st \<Rightarrow> if s_SessionKey st \<noteq> [] then s_SessionKey st else derived
      | None \<Rightarrow> derived)"

definition SessionIsLive :: "'w clean_ops \<Rightarrow> string \<Rightarrow> string \<Rightarrow> 'w \<Rightarrow> bool" where
  "SessionIsLive C repoPath branch w =
     (if c_presence C (sessionKeyFor C repoPath branch w) w > 0 then True
      else (case c_session C repoPath branch w of
              None \<Rightarrow> False
            | Some st \<Rightarrow> s_SessionState st = StateActive \<and> IsAlive (c_machine C w) (s_PID st)))"

definition scan_worktree :: "'w clean_ops \<Rightarrow> string \<Rightarrow> string \<Rightarrow> 'w \<Rightarrow> string \<Rightarrow> worktreeInfo" where
  "scan_worktree C repoPath defaultBranch w wtPath =
     (let branch = Base wtPath; ahead = CommitsUnintegrated C wtPath defaultBranch branch w; merged = (ahead = 0);
          porcelain = StatusPorcelain C wtPath w in
      \<lparr>wt_repo = Base repoPath, wt_branch = branch, wt_repoPath = repoPath, wt_worktreePath = wtPath,
       wt_merged = merged, wt_dirty = (porcelain \<noteq> []), wt_shelved = ShelfNotEmpty C wtPath w,
       wt_live = (merged \<and> SessionIsLive C repoPath branch w)\<rparr>)"

definition scan_repo :: "'w clean_ops \<Rightarrow> 'w \<Rightarrow> string \<Rightarrow> worktreeInfo list" where
  "scan_repo C w repoPath =
     (case DefaultBranch C repoPath w of
        Inl _ \<Rightarrow> []
      | Inr defaultBranch \<Rightarrow>
          if defaultBranch = [] then []
          else map (scan_worktree C repoPath defaultBranch w) (ListWorktrees C repoPath w))"

definition scanWorktrees :: "'w clean_ops \<Rightarrow> string \<Rightarrow> 'w \<Rightarrow> worktreeInfo list" where
  "scanWorktrees C startDir w = concat (map (scan_repo C w) (ScanRepos C startDir w))"

section \<open>A free name for a fork\<close>

text \<open>
  \<open>ForkName\<close> tries \<open>source-1\<close>, \<open>source-2\<close>, ... until one is free; the loop has no bound. A stat that fails
  in any other way than not finding the directory counts as taken.
\<close>

definition fork_taken :: "'w clean_ops \<Rightarrow> string \<Rightarrow> 'w \<Rightarrow> string \<Rightarrow> bool" where
  "fork_taken C repoPath w candidate \<longleftrightarrow>
     m_Stat (c_machine C w) (JoinPath [JoinPath [repoPath, WorktreesDir], candidate]) \<noteq> Missing \<or>
     BranchExists C repoPath candidate w \<or> RemoteBranchExists C repoPath candidate w"

partial_function (option) fork_search :: "(string \<Rightarrow> bool) \<Rightarrow> string \<Rightarrow> nat \<Rightarrow> string option" where
  "fork_search taken sourceBranch n =
     (if taken (sourceBranch @ ''-'' @ Itoa (int n)) then fork_search taken sourceBranch (Suc n)
      else Some (sourceBranch @ ''-'' @ Itoa (int n)))"

definition ForkName :: "'w clean_ops \<Rightarrow> string \<Rightarrow> string \<Rightarrow> 'w \<Rightarrow> string option" where
  "ForkName C repoPath sourceBranch w = fork_search (fork_taken C repoPath w) sourceBranch 1"

section \<open>Removing a worktree\<close>

definition planNixGCForClean :: "'w clean_ops \<Rightarrow> string \<Rightarrow> string \<Rightarrow> 'w \<Rightarrow> NixPlan option" where
  "planNixGCForClean C repoPath wtPath w =
     (if c_nixDisabled C repoPath wtPath w then None
      else (case c_nixPlan C wtPath w of
              None \<Rightarrow> None
            | Some plan \<Rightarrow> if length (np_Roots plan) = 0 then None else Some plan))"

definition revokeCredential :: "'w clean_ops \<Rightarrow> bool \<Rightarrow> worktreeInfo \<Rightarrow> 'w scene \<Rightarrow> 'w scene" where
  "revokeCredential C tap wt s =
     (let key = sessionKeyFor C (wt_repoPath wt) (wt_branch wt) (cs_world s);
          ident = \<lparr>id_RepoPath = wt_repoPath wt, id_WorktreePath = wt_worktreePath wt, id_Branch = wt_branch wt, id_SessionKey = key\<rparr>;
          branch = (''branch'', wt_branch wt); desc = ''revoke credential '' @ wt_branch wt in
      case perform (CredentialRevoked ident) (c_revoke C ident) s of (res, s) \<Rightarrow>
        (let s = (if ro_Note res \<noteq> [] then report tap (TapComment (desc @ '': '' @ ro_Note res)) (LogWarn (ro_Note res) [branch]) s else s) in
         if \<not> ro_Ran res then
           report tap (TapSkip desc (ro_Skipped res)) (LogInfo ''credential not revoked'' [branch, (''reason'', ro_Skipped res)]) s
         else (case ro_Err res of
                 Some err \<Rightarrow>
                   (let out = TrimSpace (ro_Output res) in
                    report tap
                      (TapNotOk desc ([(''severity'', ''warn''), (''message'', err)] @ (if out \<noteq> [] then [(''output'', out)] else [])))
                      (LogWarn ''credential revoke failed'' [branch, (''err'', err)]) s)
               | None \<Rightarrow> report_tap tap (TapOk desc) s)))"

definition revokeProfileBinding :: "'w clean_ops \<Rightarrow> bool \<Rightarrow> worktreeInfo \<Rightarrow> 'w scene \<Rightarrow> 'w scene" where
  "revokeProfileBinding C tap wt s =
     (let key = sessionKeyFor C (wt_repoPath wt) (wt_branch wt) (cs_world s) in
      case perform (BindingRevoked key) (c_revokeSession C key) s of
        (None, s) \<Rightarrow> s
      | (Some err, s) \<Rightarrow>
          report tap (TapNotOk (''revoke profile binding '' @ wt_branch wt) [(''severity'', ''warn''), (''message'', err)])
            (LogWarn ''profile binding revoke failed'' [(''branch'', wt_branch wt), (''err'', err)]) s)"

definition reap_summary_lines :: "'w clean_ops \<Rightarrow> NixPlan \<Rightarrow> ReapSummary \<Rightarrow> string list" where
  "reap_summary_lines C plan summary =
     [''reclaimed: '' @ Itoa (int (rs_Reclaimed summary)), ''kept: '' @ Itoa (int (rs_Kept summary)),
      ''timed_out: '' @ Itoa (int (rs_TimedOut summary)), ''closure: '' @ Itoa (int (length (np_Closure plan))),
      ''bytes_freed: '' @ Itoa (rs_BytesFreed summary), ''bytes_freed_human: '' @ c_human C (rs_BytesFreed summary),
      ''bytes_kept: '' @ Itoa (rs_BytesKept summary), ''bytes_kept_human: '' @ c_human C (rs_BytesKept summary)]"

text \<open>The extra fields of a failed block's diagnostic are left out, its message kept.\<close>

definition runReap :: "'w clean_ops \<Rightarrow> bool \<Rightarrow> NixPlan \<Rightarrow> string \<Rightarrow> 'w scene \<Rightarrow> 'w scene" where
  "runReap C tap plan branch s =
     (case perform (Reaped plan) (c_reap C plan) s of ((progress, summary), s) \<Rightarrow>
        report_tap tap
          (let desc = ''nix-gc reap '' @ branch in
           if rs_TimedOut summary > 0 then
             TapBlock desc progress
               (Some (Itoa (int (rs_TimedOut summary)) @ '' path(s) still in flight when nix-store --delete timed out (see #68)''))
           else if length (rs_Errors summary) > 0 then
             TapBlock desc progress (Some (Itoa (int (length (rs_Errors summary))) @ '' path(s) failed to delete''))
           else TapBlock desc (progress @ reap_summary_lines C plan summary) None) s)"

text \<open>The gc roots are read before the worktree goes, the reap runs after it. \<open>None\<close> is success.\<close>

definition removeWorktree :: "'w clean_ops \<Rightarrow> bool \<Rightarrow> worktreeInfo \<Rightarrow> 'w scene \<Rightarrow> string option \<times> 'w scene" where
  "removeWorktree C tap wt s =
     (let gcPlan = planNixGCForClean C (wt_repoPath wt) (wt_worktreePath wt) (cs_world s);
          s = revokeCredential C tap wt s;
          s = effect (CredentialFileRemoved (wt_worktreePath wt)) (c_removeCredential C (wt_worktreePath wt)) s;
          s = revokeProfileBinding C tap wt s;
          rm = [''worktree'', ''remove'', wt_worktreePath wt]; del = [''branch'', ''-d'', wt_branch wt] in
      case perform (GitRan (wt_repoPath wt) rm) (c_git C (wt_repoPath wt) rm) s of
        (Inl err, s) \<Rightarrow> (Some (''removing worktree '' @ wt_branch wt @ '': '' @ err), s)
      | (Inr _, s) \<Rightarrow>
          (case perform (GitRan (wt_repoPath wt) del) (c_git C (wt_repoPath wt) del) s of
             (Inl err, s) \<Rightarrow> (Some (''deleting branch '' @ wt_branch wt @ '': '' @ err), s)
           | (Inr _, s) \<Rightarrow>
               (let s = effect (RecordRemoved (wt_repoPath wt) (wt_branch wt)) (c_sessionRemove C (wt_repoPath wt) (wt_branch wt)) s in
                (None, case gcPlan of None \<Rightarrow> s | Some plan \<Rightarrow> runReap C tap plan (wt_branch wt) s))))"

section \<open>Reviewing a dirty worktree\<close>

definition git_step :: "'w clean_ops \<Rightarrow> string \<Rightarrow> string list \<Rightarrow> 'w scene \<Rightarrow> string option \<times> 'w scene" where
  "git_step C dir args s =
     (case perform (GitRan dir args) (c_git C dir args) s of (Inl e, s) \<Rightarrow> (Some e, s) | (Inr _, s) \<Rightarrow> (None, s))"

definition discardFile :: "'w clean_ops \<Rightarrow> string \<Rightarrow> FileChange \<Rightarrow> 'w scene \<Rightarrow> string option \<times> 'w scene" where
  "discardFile C wtPath fc s =
     (if fc_Code fc = ''??'' then
        (let path = JoinPath [wtPath, fc_Path fc] in perform (FileRemoved path) (c_removeFile C path) s)
      else
        (case (if fc_Code fc ! 0 \<noteq> CHR '' '' then git_step C wtPath [''reset'', ''HEAD'', ''--'', fc_Path fc] s else (None, s)) of
           (Some err, s) \<Rightarrow> (Some err, s)
         | (None, s) \<Rightarrow> git_step C wtPath [''checkout'', ''--'', fc_Path fc] s))"

fun review_changes :: "'w clean_ops \<Rightarrow> string \<Rightarrow> FileChange list \<Rightarrow> 'w scene \<Rightarrow> string option \<times> 'w scene" where
  "review_changes C wtPath [] s = (None, s)"
| "review_changes C wtPath (fc # fcs) s =
     (let prompt = ''Discard '' @ fc_Path fc @ '' ('' @ Description fc @ '')?'' in
      case perform (Prompted prompt) (c_confirm C prompt) s of
        (Inl err, s) \<Rightarrow> (Some err, s)
      | (Inr discard, s) \<Rightarrow>
          review_changes C wtPath fcs
            (if discard then
               (case discardFile C wtPath fc s of
                  (Some err, s) \<Rightarrow> say (LogWarn ''failed to discard file'' [(''file'', fc_Path fc), (''err'', err)]) s
                | (None, s) \<Rightarrow> s)
             else s))"

definition handleDirtyWorktree :: "'w clean_ops \<Rightarrow> bool \<Rightarrow> worktreeInfo \<Rightarrow> 'w scene \<Rightarrow> (string + bool) \<times> 'w scene" where
  "handleDirtyWorktree C tap wt s =
     (let changes = ParsePorcelain (StatusPorcelain C (wt_worktreePath wt) (cs_world s)) in
      if \<not> c_interactive C (cs_world s) then
        (Inl ''sc clean -i requires an interactive terminal to review dirty files; omit -i to skip dirty worktrees'', s)
      else
        (case review_changes C (wt_worktreePath wt) changes s of
           (Some err, s) \<Rightarrow> (Inl err, s)
         | (None, s) \<Rightarrow>
             if StatusPorcelain C (wt_worktreePath wt) (cs_world s) \<noteq> [] then (Inr False, s)
             else (case removeWorktree C tap wt s of (Some err, s) \<Rightarrow> (Inl err, s) | (None, s) \<Rightarrow> (Inr True, s))))"

section \<open>Records, leftovers and index entries\<close>

definition countAbandonedSessions :: "'w clean_ops \<Rightarrow> 'w \<Rightarrow> nat \<times> State list" where
  "countAbandonedSessions C w =
     (case c_listAll C w of
        None \<Rightarrow> (0, [])
      | Some states \<Rightarrow>
          (let abandoned = filter (\<lambda>s. ResolveState (c_machine C w) s = StateAbandoned \<and> \<not> s_isTombstone s) states in
           (length abandoned, abandoned)))"

fun removeAbandonedSessions :: "'w clean_ops \<Rightarrow> State list \<Rightarrow> 'w scene \<Rightarrow> nat \<times> 'w scene" where
  "removeAbandonedSessions C [] s = (0, s)"
| "removeAbandonedSessions C (st # sts) s =
     (let key = (if s_SessionKey st = [] then Base (s_RepoPath st) @ ''/'' @ s_Branch st else s_SessionKey st);
          s = snd (perform (BindingRevoked key) (c_revokeSession C key) s);
          s = effect (CredentialFileRemoved (s_WorktreePath st)) (c_removeCredential C (s_WorktreePath st)) s;
          s = effect (RecordRemoved (s_RepoPath st) (s_Branch st)) (c_sessionRemove C (s_RepoPath st) (s_Branch st)) s in
      case removeAbandonedSessions C sts s of (n, s) \<Rightarrow> (Suc n, s))"

record orphanTransientWorktree =
  or_repoPath :: string
  or_path :: string
  or_name :: string

definition is_orphan :: "'w clean_ops \<Rightarrow> 'w \<Rightarrow> string \<times> bool \<Rightarrow> bool" where
  "is_orphan C w e =
     (case e of (name, isDir) \<Rightarrow>
        if \<not> isDir \<or> \<not> isTransientMergeWorktreeName name then False
        else (case pidFromTransientWorktreeName name of
                None \<Rightarrow> False
              | Some pid \<Rightarrow> if IsAlive (c_machine C w) pid then False else True))"

definition repo_orphans :: "'w clean_ops \<Rightarrow> 'w \<Rightarrow> string \<Rightarrow> orphanTransientWorktree list" where
  "repo_orphans C w repoPath =
     (let wtDir = JoinPath [repoPath, WorktreesDir] in
      case c_readDir C wtDir w of
        None \<Rightarrow> []
      | Some entries \<Rightarrow>
          map (\<lambda>(name, _). \<lparr>or_repoPath = repoPath, or_path = JoinPath [wtDir, name], or_name = name\<rparr>)
            (filter (is_orphan C w) entries))"

definition findOrphanTransientWorktrees :: "'w clean_ops \<Rightarrow> string \<Rightarrow> 'w \<Rightarrow> orphanTransientWorktree list" where
  "findOrphanTransientWorktrees C startDir w = concat (map (repo_orphans C w) (ScanRepos C startDir w))"

text \<open>The processes of \<open>/proc\<close>, each name with the link target of its \<open>cwd\<close> where it can be read.\<close>

definition Inside :: "'w clean_ops \<Rightarrow> string \<Rightarrow> 'w \<Rightarrow> int list" where
  "Inside C dir w =
     (case c_evalSymlinks C dir w of
        None \<Rightarrow> []
      | Some real \<Rightarrow>
          (case c_processes C w of
             None \<Rightarrow> []
           | Some entries \<Rightarrow>
               sort (concat (map (\<lambda>(name, cwd).
                 (case Atoi name of (pid, err) \<Rightarrow>
                    if err then []
                    else (case cwd of
                            None \<Rightarrow> []
                          | Some d \<Rightarrow> if d = real \<or> HasPrefix d (real @ ''/'') then [pid] else []))) entries))))"

definition in_use_error :: "string \<Rightarrow> int list \<Rightarrow> string" where
  "in_use_error dir pids =
     dir @ '' is the working directory of live process(es) '' @ Join (map Itoa pids) '', '' @ ''; left in place''"

datatype orphan_result = OrphanInUse string "int list" | OrphanError string | OrphanGone

definition removeOrphanTransientWorktree :: "'w clean_ops \<Rightarrow> orphanTransientWorktree \<Rightarrow> 'w scene \<Rightarrow> orphan_result \<times> 'w scene" where
  "removeOrphanTransientWorktree C orphan s =
     (let pids = Inside C (or_path orphan) (cs_world s);
          force = [''worktree'', ''remove'', ''--force'', or_path orphan]; prune = [''worktree'', ''prune''] in
      if length pids > 0 then (OrphanInUse (in_use_error (or_path orphan) pids) pids, s)
      else
        (let s = snd (perform (GitRan (or_repoPath orphan) force) (c_git C (or_repoPath orphan) force) s) in
         case perform (TreeRemoved (or_path orphan)) (c_removeAll C (or_path orphan)) s of
           (Some err, s) \<Rightarrow> (OrphanError err, s)
         | (None, s) \<Rightarrow> (OrphanGone, snd (perform (GitRan (or_repoPath orphan) prune) (c_git C (or_repoPath orphan) prune) s))))"

definition countStaleTombstones :: "'w clean_ops \<Rightarrow> Duration \<Rightarrow> 'w \<Rightarrow> nat" where
  "countStaleTombstones C retention w =
     (if retention \<le> 0 then 0
      else (case c_listAll C w of
              None \<Rightarrow> 0
            | Some states \<Rightarrow>
                (let cutoff = c_now C w - retention in
                 length (filter (\<lambda>s. s_isTombstone s \<and> (case s_ExitedAt s of None \<Rightarrow> False | Some t \<Rightarrow> \<not> t > cutoff)) states))))"

definition DefaultTombstoneRetention :: Duration where "DefaultTombstoneRetention = 30 * 24 * Hour"

definition resolveTombstoneRetention :: "'w clean_ops \<Rightarrow> string \<Rightarrow> 'w \<Rightarrow> Duration" where
  "resolveTombstoneRetention C startDir w =
     (case c_home C w of
        None \<Rightarrow> DefaultTombstoneRetention
      | Some home \<Rightarrow>
          (case c_mergedSweatfile C home startDir w of
             None \<Rightarrow> DefaultTombstoneRetention
           | Some merged \<Rightarrow>
               (case TombstoneRetention merged of Some d \<Rightarrow> d | None \<Rightarrow> DefaultTombstoneRetention)))"

text \<open>The cutoff, or none when retention is off.\<close>

definition resolveAttestationRetention :: "'w clean_ops \<Rightarrow> string \<Rightarrow> 'w \<Rightarrow> Time option" where
  "resolveAttestationRetention C startDir w =
     (case c_home C w of
        None \<Rightarrow> None
      | Some home \<Rightarrow>
          (case c_mergedSweatfile C home startDir w of
             None \<Rightarrow> None
           | Some merged \<Rightarrow> map_option (\<lambda>d. c_now C w - d) (AttestationRetention merged)))"

definition Stale :: "'w clean_ops \<Rightarrow> Time \<Rightarrow> 'w \<Rightarrow> string + IndexEntry list" where
  "Stale C cutoff w =
     map_sum (\<lambda>e. e) (\<lambda>es. sort_key ie_RecordedAt (filter (\<lambda>e. ie_RecordedAt e < cutoff) es)) (c_indexEntries C w)"

definition countStaleAttestations :: "'w clean_ops \<Rightarrow> Time option \<Rightarrow> 'w \<Rightarrow> nat" where
  "countStaleAttestations C cutoff w =
     (case cutoff of
        None \<Rightarrow> 0
      | Some t \<Rightarrow> (case Stale C t w of Inl _ \<Rightarrow> 0 | Inr stale \<Rightarrow> length stale))"

fun prune_entries :: "'w clean_ops \<Rightarrow> IndexEntry list \<Rightarrow> 'w scene \<Rightarrow> (string list \<times> string option) \<times> 'w scene" where
  "prune_entries C [] s = (([], None), s)"
| "prune_entries C (e # es) s =
     (case perform (IndexEntryRemoved (ie_ClaimID e)) (c_indexRemove C (ie_ClaimID e)) s of
        (Some err, s) \<Rightarrow> (([], Some err), s)
      | (None, s) \<Rightarrow> (case prune_entries C es s of ((ids, err), s) \<Rightarrow> ((ie_ClaimID e # ids, err), s)))"

definition Prune :: "'w clean_ops \<Rightarrow> Time \<Rightarrow> 'w scene \<Rightarrow> (string list \<times> string option) \<times> 'w scene" where
  "Prune C cutoff s =
     (case Stale C cutoff (cs_world s) of
        Inl err \<Rightarrow> (([], Some err), s)
      | Inr stale \<Rightarrow> prune_entries C stale s)"

section \<open>The plan\<close>

datatype action = Remove | SkipDirty | SkipShelved | SkipLive | Interactive

record cleanAction =
  ca_wt :: worktreeInfo
  ca_label :: string
  ca_action :: action

definition plan_action :: "bool \<Rightarrow> worktreeInfo \<Rightarrow> action" where
  "plan_action interactive wt =
     (if wt_live wt then SkipLive
      else if wt_shelved wt then SkipShelved
      else if \<not> wt_dirty wt then Remove
      else if interactive then Interactive
      else SkipDirty)"

definition planClean :: "'w clean_ops \<Rightarrow> worktreeInfo list \<Rightarrow> bool \<Rightarrow> cleanAction list" where
  "planClean C worktrees interactive =
     map (\<lambda>wt. \<lparr>ca_wt = wt, ca_label = JoinPath [wt_repo wt, WorktreesDir] @ ''/'' @ c_style C (wt_branch wt),
                ca_action = plan_action interactive wt\<rparr>)
       (filter wt_merged worktrees)"

definition shelvedSkipReason :: string where "shelvedSkipReason = ''stash shelf not empty (drop its entries first)''"

definition liveSkipReason :: string where "liveSkipReason = ''session still running (close it first)''"

text \<open>The lines of a skipped worktree; the plan's log names its label, the sweep's its branch.\<close>

fun skip_lines :: "action \<Rightarrow> string \<Rightarrow> (string \<times> string) \<Rightarrow> line \<times> line" where
  "skip_lines SkipShelved label field =
     (TapSkip (''remove '' @ label) shelvedSkipReason, LogWarn ''skipping worktree with a stash shelf'' [field])"
| "skip_lines SkipLive label field =
     (TapSkip (''remove '' @ label) liveSkipReason, LogWarn ''skipping worktree of a running session'' [field])"
| "skip_lines _ label field = (TapSkip (''remove '' @ label) ''dirty worktree'', LogWarn ''skipping dirty worktree'' [field])"

definition plan_lines :: "bool \<Rightarrow> cleanAction \<Rightarrow> line \<times> line" where
  "plan_lines dryRun a =
     (let label = ca_label a; field = (''worktree'', label) in
      case ca_action a of
        Remove \<Rightarrow>
          if dryRun then (TapSkip (''remove '' @ label) ''dry-run'', LogInfo ''would remove'' [field])
          else (TapSkip (''remove '' @ label) ''pending confirmation'', LogInfo ''will remove'' [field])
      | Interactive \<Rightarrow> (TapSkip (''remove '' @ label) ''dirty, will prompt'', LogInfo ''dirty, will prompt'' [field])
      | other \<Rightarrow> skip_lines other label field)"

definition count_lines :: "bool \<Rightarrow> nat \<Rightarrow> string \<Rightarrow> string \<Rightarrow> (line \<times> line) list" where
  "count_lines dryRun n before behind =
     (let msg = before @ Itoa (int n) @ behind in
      if n > 0 then
        [if dryRun then (TapSkip msg ''dry-run'', LogInfo (''would '' @ msg) [])
         else (TapSkip msg ''pending confirmation'', LogInfo (''will '' @ msg) [])]
      else [])"

definition report_all :: "bool \<Rightarrow> (line \<times> line) list \<Rightarrow> 'w scene \<Rightarrow> 'w scene" where
  "report_all tap ls s = fold (\<lambda>(t, l). report tap t l) ls s"

definition emitPlan :: "bool \<Rightarrow> cleanAction list \<Rightarrow> nat \<Rightarrow> nat \<Rightarrow> nat \<Rightarrow> nat \<Rightarrow> bool \<Rightarrow> 'w scene \<Rightarrow> 'w scene" where
  "emitPlan tap actions abandoned tombstones orphans attestations dryRun =
     report_all tap
       (map (plan_lines dryRun) actions @
        count_lines dryRun abandoned ''clean '' '' abandoned session(s)'' @
        count_lines dryRun tombstones ''GC '' '' stale tombstone(s)'' @
        count_lines dryRun orphans ''prune '' '' orphaned transient worktree(s)'' @
        count_lines dryRun attestations ''expire '' '' attestation index entries past [madder].retain'')"

definition count_part :: "nat \<Rightarrow> string \<Rightarrow> string list" where
  "count_part n what = (if n > 0 then [Itoa (int n) @ what] else [])"

definition confirmClean :: "'w clean_ops \<Rightarrow> nat \<Rightarrow> nat \<Rightarrow> nat \<Rightarrow> nat \<Rightarrow> nat \<Rightarrow> 'w scene \<Rightarrow> (string + bool) \<times> 'w scene" where
  "confirmClean C removes abandoned tombstones orphans attestations s =
     (if \<not> c_interactive C (cs_world s) then
        (Inl ''sc clean requires an interactive terminal to confirm; use --yes to skip (and omit -i to skip dirty-file review)'', s)
      else
        (let parts = count_part removes '' worktree(s)'' @ count_part abandoned '' abandoned session(s)'' @
               count_part tombstones '' stale tombstone(s)'' @ count_part orphans '' orphaned transient worktree(s)'' @
               count_part attestations '' expired attestation index entries'';
             prompt = ''Remove '' @ Join parts '' and '' @ ''?'' in
         perform (Prompted prompt) (c_confirm C prompt) s))"

section \<open>The sweep\<close>

definition execute_action :: "'w clean_ops \<Rightarrow> bool \<Rightarrow> cleanAction \<Rightarrow> 'w scene \<Rightarrow> 'w scene" where
  "execute_action C tap a s =
     (let wt = ca_wt a; label = ''remove '' @ ca_label a; field = (''branch'', wt_branch wt);
          failed = (\<lambda>err. report tap (TapNotOk label [(''error'', err)]) (LogError ''failed to remove worktree'' [field, (''error'', err)]));
          removed = report tap (TapOk label) (LogInfo ''removed merged worktree'' [field]) in
      case ca_action a of
        Remove \<Rightarrow> (case removeWorktree C tap wt s of (Some err, s) \<Rightarrow> failed err s | (None, s) \<Rightarrow> removed s)
      | Interactive \<Rightarrow>
          (case handleDirtyWorktree C tap wt s of
             (Inl err, s) \<Rightarrow> failed err s
           | (Inr True, s) \<Rightarrow> removed s
           | (Inr False, s) \<Rightarrow>
               report tap (TapSkip label ''kept after interactive review'') (LogInfo ''kept worktree after interactive review'' [field]) s)
      | other \<Rightarrow> (case skip_lines other (ca_label a) field of (t, l) \<Rightarrow> report tap t l s))"

fun execute_actions :: "'w clean_ops \<Rightarrow> bool \<Rightarrow> cleanAction list \<Rightarrow> 'w scene \<Rightarrow> 'w scene" where
  "execute_actions C tap [] s = s"
| "execute_actions C tap (a # as) s = execute_actions C tap as (execute_action C tap a s)"

fun prune_orphans :: "'w clean_ops \<Rightarrow> bool \<Rightarrow> orphanTransientWorktree list \<Rightarrow> 'w scene \<Rightarrow> nat \<times> 'w scene" where
  "prune_orphans C tap [] s = (0, s)"
| "prune_orphans C tap (x # xs) s =
     (let label = ''prune orphaned transient worktree '' @ or_name x; field = (''name'', or_name x) in
      case removeOrphanTransientWorktree C x s of
        (OrphanInUse err pids, s) \<Rightarrow>
          prune_orphans C tap xs
            (report tap (TapSkip label err) (LogWarn ''skipping orphaned transient worktree in use'' [field, (''pids'', Join (map Itoa pids) '' '')]) s)
      | (OrphanError err, s) \<Rightarrow>
          prune_orphans C tap xs
            (report tap (TapNotOk label [(''error'', err)]) (LogError ''failed to prune orphaned transient worktree'' [field, (''error'', err)]) s)
      | (OrphanGone, s) \<Rightarrow> (case prune_orphans C tap xs s of (n, s) \<Rightarrow> (Suc n, s)))"

definition sweep_abandoned :: "'w clean_ops \<Rightarrow> bool \<Rightarrow> State list \<Rightarrow> 'w scene \<Rightarrow> 'w scene" where
  "sweep_abandoned C tap abandoned s =
     (if length abandoned > 0 then
        (case removeAbandonedSessions C abandoned s of (removed, s) \<Rightarrow>
           report_tap tap (TapOk (''cleaned '' @ Itoa (int removed) @ '' abandoned session(s)'')) s)
      else s)"

definition sweep_orphans :: "'w clean_ops \<Rightarrow> bool \<Rightarrow> orphanTransientWorktree list \<Rightarrow> 'w scene \<Rightarrow> 'w scene" where
  "sweep_orphans C tap orphans s =
     (case prune_orphans C tap orphans s of (pruned, s) \<Rightarrow>
        if pruned > 0 then
          report tap (TapOk (''pruned '' @ Itoa (int pruned) @ '' orphaned transient worktree(s)''))
            (LogInfo ''pruned orphaned transient worktrees'' [(''count'', Itoa (int pruned))]) s
        else s)"

definition sweep_tombstones :: "'w clean_ops \<Rightarrow> bool \<Rightarrow> Duration \<Rightarrow> 'w scene \<Rightarrow> 'w scene" where
  "sweep_tombstones C tap retention s =
     (if retention > 0 then
        (case perform (TombstonesCollected retention) (c_gcTombstones C retention) s of
           (Inl err, s) \<Rightarrow> report tap (TapNotOk ''GC tombstones'' [(''error'', err)]) (LogError ''failed to GC tombstones'' [(''error'', err)]) s
         | (Inr n, s) \<Rightarrow>
             if n > 0 then
               report tap (TapOk (''GC'' @ [CHR 0x27] @ ''d '' @ Itoa (int n) @ '' stale tombstone(s)''))
                 (LogInfo (''GC'' @ [CHR 0x27] @ ''d stale tombstones'') [(''count'', Itoa (int n))]) s
             else s)
      else s)"

definition sweep_index :: "'w clean_ops \<Rightarrow> bool \<Rightarrow> Time option \<Rightarrow> 'w scene \<Rightarrow> 'w scene" where
  "sweep_index C tap cutoff s =
     (case cutoff of
        None \<Rightarrow> s
      | Some t \<Rightarrow>
          (case Prune C t s of
             ((_, Some err), s) \<Rightarrow>
               report tap (TapNotOk ''expire attestation index entries'' [(''error'', err)])
                 (LogError ''failed to expire attestation index entries'' [(''error'', err)]) s
           | ((removed, None), s) \<Rightarrow>
               if length removed > 0 then
                 report tap (TapOk (''expired '' @ Itoa (int (length removed)) @ '' attestation index entries past [madder].retain''))
                   (LogInfo ''expired attestation index entries'' [(''count'', Itoa (int (length removed)))]) s
               else s))"

definition executeClean ::
  "'w clean_ops \<Rightarrow> bool \<Rightarrow> cleanAction list \<Rightarrow> State list \<Rightarrow> orphanTransientWorktree list \<Rightarrow> Duration \<Rightarrow> Time option \<Rightarrow>
   'w scene \<Rightarrow> 'w scene" where
  "executeClean C tap actions abandoned orphans retention attestCutoff s =
     (let s = execute_actions C tap actions s;
          s = sweep_abandoned C tap abandoned s;
          s = sweep_orphans C tap orphans s;
          s = sweep_tombstones C tap retention s in
      sweep_index C tap attestCutoff s)"

definition CleanRun :: "'w clean_ops \<Rightarrow> string \<Rightarrow> bool \<Rightarrow> bool \<Rightarrow> bool \<Rightarrow> string \<Rightarrow> 'w scene \<Rightarrow> string option \<times> 'w scene" where
  "CleanRun C startDir interactive dryRun yes format s =
     (let tap = (format = ''tap''); w = cs_world s; plan = report_tap tap TapPlan;
          worktrees = scanWorktrees C startDir w;
          (abandonedCount, abandoned) = countAbandonedSessions C w;
          retention = resolveTombstoneRetention C startDir w;
          tombstoneCount = countStaleTombstones C retention w;
          orphans = findOrphanTransientWorktrees C startDir w;
          orphanCount = length orphans;
          attestCutoff = resolveAttestationRetention C startDir w;
          attestCount = countStaleAttestations C attestCutoff w in
      if length worktrees = 0 \<and> abandonedCount = 0 \<and> tombstoneCount = 0 \<and> orphanCount = 0 \<and> attestCount = 0 then
        (None, plan (report tap (TapSkip ''clean'' ''no worktrees found'') (LogInfo ''no worktrees found'' []) s))
      else
        (let actions = planClean C worktrees interactive;
             removeCount = length (filter (\<lambda>a. ca_action a = Remove \<or> ca_action a = Interactive) actions);
             s = emitPlan tap actions abandonedCount tombstoneCount orphanCount attestCount dryRun s;
             go = (\<lambda>s. (None, plan (executeClean C tap actions abandoned orphans retention attestCutoff s))) in
         if removeCount = 0 \<and> abandonedCount = 0 \<and> tombstoneCount = 0 \<and> orphanCount = 0 \<and> attestCount = 0 then (None, plan s)
         else if dryRun then (None, plan s)
         else if yes then go s
         else (case confirmClean C removeCount abandonedCount tombstoneCount orphanCount attestCount s of
                 (Inl err, s) \<Rightarrow> (Some err, plan s)
               | (Inr confirmed, s) \<Rightarrow>
                   if \<not> confirmed then
                     (None, plan (report tap (TapSkip ''clean'' ''cancelled by user'') (LogInfo ''clean cancelled'' []) s))
                   else go s)))"

section \<open>Names of transient worktrees\<close>

lemma after_last_dash_append:
  "CHR ''-'' \<notin> set seg \<Longrightarrow> after_last_dash (a @ CHR ''-'' # seg) = Some seg"
  by (simp add: after_last_dash_def takeWhile_append2 rev_eq_Cons_iff takeWhile_append)

lemma Itoa_no_dash: "0 \<le> i \<Longrightarrow> CHR ''-'' \<notin> set (Itoa i)"
  by (simp add: Itoa_def pad_digits_no_dash del: pad_digits.simps)

lemma pid_read_back:
  assumes "0 < pid" "pid < 2 ^ 63"
  shows "pidFromTransientWorktreeName (a @ ''-'' @ Itoa pid) = Some pid"
proof -
  have ne: "Itoa pid \<noteq> []" using assms by (simp add: Itoa_def)
  from assms show ?thesis
    by (simp add: pidFromTransientWorktreeName_def after_last_dash_append Itoa_no_dash ne Atoi_Itoa)
qed

definition transient_name :: "string \<Rightarrow> string \<Rightarrow> string \<Rightarrow> int \<Rightarrow> string" where
  "transient_name prefix branch sha pid = prefix @ ReplaceAll branch ''/'' ''-'' @ ''-'' @ shortSha sha @ ''-'' @ Itoa pid"

lemma ReplaceAll_no_slash: "slash \<notin> set (ReplaceAll s ''/'' ''-'')"
  by (auto simp: ReplaceAll_byte split: if_splits)

lemma pad_digits_no_slash: "slash \<notin> set (pad_digits w n)"
proof
  assume "slash \<in> set (pad_digits w n)"
  from read_digits_digit[OF read_pad_digits_all this] show False by (simp add: digit_of_def)
qed

lemma shortSha_chars: "set (shortSha sha) \<subseteq> set sha"
  by (auto simp: shortSha_def dest: in_set_takeD)

lemma transient_name_plain:
  assumes "slash \<notin> set prefix" "slash \<notin> set sha" "0 < pid"
  shows "plain_elem (transient_name prefix branch sha pid)"
proof -
  have "slash \<notin> set (Itoa pid)" using assms(3) pad_digits_no_slash by (simp add: Itoa_def del: pad_digits.simps)
  moreover have "CHR ''-'' \<in> set (transient_name prefix branch sha pid)" by (simp add: transient_name_def)
  then have "transient_name prefix branch sha pid \<notin> {[], ''.'', ''..''}" by force
  moreover have "slash \<notin> set (transient_name prefix branch sha pid)"
    using assms calculation(1) ReplaceAll_no_slash shortSha_chars[of sha] by (auto simp: transient_name_def)
  ultimately show ?thesis by (simp add: plain_elem_def)
qed

lemma transient_path_name:
  assumes "\<forall>e \<in> set es. plain_elem e" "slash \<notin> set prefix" "slash \<notin> set sha" "0 < pid"
  shows "transient_path (abs_path es) prefix branch sha pid =
           abs_path ((es @ [WorktreesDir]) @ [transient_name prefix branch sha pid])"
proof -
  have w: "plain_elem WorktreesDir" by (simp add: plain_elem_def WorktreesDir_def)
  have "JoinPath [abs_path es, ''.worktrees''] = abs_path (es @ [WorktreesDir])"
    using JoinPath_abs_path[OF assms(1) w] by (simp add: WorktreesDir_def)
  moreover have "\<forall>e \<in> set (es @ [WorktreesDir]). plain_elem e" using assms(1) w by simp
  ultimately show ?thesis
    using JoinPath_abs_path[OF _ transient_name_plain[OF assms(2-4), of branch], of "es @ [WorktreesDir]"]
    by (simp add: transient_path_def transient_name_def)
qed

section \<open>What a sweep may do\<close>

text \<open>\<open>s'\<close> comes after \<open>s\<close>, and everything done in between is one of \<open>P\<close>.\<close>

definition onward :: "(event \<Rightarrow> bool) \<Rightarrow> 'w scene \<Rightarrow> 'w scene \<Rightarrow> bool" where
  "onward P s s' \<longleftrightarrow> (\<exists>evs. cs_trace s' = cs_trace s @ evs \<and> (\<forall>ev \<in> set evs. P ev))"

definition done_since :: "'w scene \<Rightarrow> 'w scene \<Rightarrow> event list" where
  "done_since s s' = drop (length (cs_trace s)) (cs_trace s')"

named_theorems onward_rules

lemma onward_refl [simp, intro]: "onward P s s"
  by (simp add: onward_def)

lemma onward_trans: "onward P s t \<Longrightarrow> onward P t u \<Longrightarrow> onward P s u"
  by (fastforce simp: onward_def)

lemma onward_done: "onward P s t \<Longrightarrow> ev \<in> set (done_since s t) \<Longrightarrow> P ev"
  by (auto simp: onward_def done_since_def)

lemma onward_perform_snd [onward_rules]: "onward P s t \<Longrightarrow> P ev \<Longrightarrow> onward P s (snd (perform ev f t))"
  by (auto simp: perform_def onward_def split: prod.splits)

lemma onward_via: "p = (x, t) \<Longrightarrow> onward P s (snd p) \<Longrightarrow> onward P s t"
  by simp

lemma onward_effect [onward_rules]: "onward P s t \<Longrightarrow> P ev \<Longrightarrow> onward P s (effect ev f t)"
  by (auto simp: effect_def onward_def)

text \<open>The events a sweep is judged by are git's commands and the removal of whole directories.\<close>

definition judged :: "(string \<Rightarrow> string list \<Rightarrow> bool) \<Rightarrow> (string \<Rightarrow> bool) \<Rightarrow> event \<Rightarrow> bool" where
  "judged Q T ev = (case ev of GitRan dir args \<Rightarrow> Q dir args | TreeRemoved path \<Rightarrow> T path | _ \<Rightarrow> True)"

lemma judged_simps [simp]:
  "judged Q T (GitRan dir args) = Q dir args" "judged Q T (TreeRemoved path) = T path"
  "judged Q T (Said l)" "judged Q T (Prompted p)" "judged Q T (FileRemoved f)" "judged Q T (CredentialRevoked i)"
  "judged Q T (CredentialFileRemoved f)" "judged Q T (BindingRevoked k)" "judged Q T (RecordRemoved r b)"
  "judged Q T (Reaped pl)" "judged Q T (TombstonesCollected d)" "judged Q T (IndexEntryRemoved c)"
  "judged Q T ClosingMarked" "judged Q T ClosingCleared" "judged Q T (ProcessSignalled n)" "judged Q T (UnitStopped f)"
  "judged Q T (Tombstoned r b sha)"
  by (simp_all add: judged_def)

lemma onward_say [onward_rules]: "onward P s t \<Longrightarrow> P (Said l) \<Longrightarrow> onward P s (say l t)"
  by (simp add: say_def onward_effect)

lemma onward_report [onward_rules]: "onward P s u \<Longrightarrow> P (Said t) \<Longrightarrow> P (Said l) \<Longrightarrow> onward P s (report tap t l u)"
  by (simp add: report_def onward_say)

lemma onward_report_tap [onward_rules]: "onward P s u \<Longrightarrow> P (Said t) \<Longrightarrow> onward P s (report_tap tap t u)"
  by (simp add: report_tap_def onward_say)

lemma onward_report_all: "(\<And>l. P (Said l)) \<Longrightarrow> onward P s u \<Longrightarrow> onward P s (report_all tap ls u)"
  by (induction ls arbitrary: u) (auto simp: report_all_def onward_report)

lemma onward_prod [onward_rules]: "(\<And>x t. p = (x, t) \<Longrightarrow> onward P s (f x t)) \<Longrightarrow> onward P s (case p of (x, t) \<Rightarrow> f x t)"
  by (cases p) simp

lemma onward_if [onward_rules]: "(b \<Longrightarrow> onward P s t) \<Longrightarrow> (\<not> b \<Longrightarrow> onward P s u) \<Longrightarrow> onward P s (if b then t else u)"
  by simp

lemma onward_option [onward_rules]:
  "(p = None \<Longrightarrow> onward P s t) \<Longrightarrow> (\<And>x. p = Some x \<Longrightarrow> onward P s (f x)) \<Longrightarrow> onward P s (case p of None \<Rightarrow> t | Some x \<Rightarrow> f x)"
  by (cases p) simp_all

lemma onward_revokeCredential [onward_rules]:
  "onward (judged Q T) s u \<Longrightarrow> onward (judged Q T) s (revokeCredential C tap wt u)"
  unfolding revokeCredential_def Let_def
  by (assumption | rule onward_rules judged_simps | erule onward_via)+

lemma onward_revokeProfileBinding [onward_rules]:
  "onward (judged Q T) s u \<Longrightarrow> onward (judged Q T) s (revokeProfileBinding C tap wt u)"
  unfolding revokeProfileBinding_def Let_def
  by (assumption | rule onward_rules judged_simps | erule onward_via)+

lemma onward_runReap [onward_rules]:
  "onward (judged Q T) s u \<Longrightarrow> onward (judged Q T) s (runReap C tap plan branch u)"
  unfolding runReap_def Let_def
  by (assumption | rule onward_rules judged_simps | erule onward_via)+

text \<open>The same for the results that carry a scene.\<close>

lemma onward_snd_prod [onward_rules]:
  "(\<And>x t. p = (x, t) \<Longrightarrow> onward P s (snd (f x t))) \<Longrightarrow> onward P s (snd (case p of (x, t) \<Rightarrow> f x t))"
  by (cases p) simp

lemma onward_snd_if [onward_rules]:
  "(b \<Longrightarrow> onward P s (snd t)) \<Longrightarrow> (\<not> b \<Longrightarrow> onward P s (snd u)) \<Longrightarrow> onward P s (snd (if b then t else u))"
  by simp

lemma onward_snd_option [onward_rules]:
  "(p = None \<Longrightarrow> onward P s (snd t)) \<Longrightarrow> (\<And>x. p = Some x \<Longrightarrow> onward P s (snd (f x))) \<Longrightarrow>
   onward P s (snd (case p of None \<Rightarrow> t | Some x \<Rightarrow> f x))"
  by (cases p) simp_all

lemma onward_snd_sum [onward_rules]:
  "(\<And>x. p = Inl x \<Longrightarrow> onward P s (snd (f x))) \<Longrightarrow> (\<And>x. p = Inr x \<Longrightarrow> onward P s (snd (g x))) \<Longrightarrow>
   onward P s (snd (case p of Inl x \<Rightarrow> f x | Inr x \<Rightarrow> g x))"
  by (cases p) simp_all

lemma onward_snd_pair [onward_rules]: "onward P s t \<Longrightarrow> onward P s (snd (x, t))"
  by simp

lemma onward_sum [onward_rules]:
  "(\<And>x. p = Inl x \<Longrightarrow> onward P s (f x)) \<Longrightarrow> (\<And>x. p = Inr x \<Longrightarrow> onward P s (g x)) \<Longrightarrow>
   onward P s (case p of Inl x \<Rightarrow> f x | Inr x \<Rightarrow> g x)"
  by (cases p) simp_all

lemma onward_bool [onward_rules]:
  "(p \<Longrightarrow> onward P s t) \<Longrightarrow> (\<not> p \<Longrightarrow> onward P s u) \<Longrightarrow> onward P s (case p of True \<Rightarrow> t | False \<Rightarrow> u)"
  by (cases p) simp_all

lemma judged_gitI [onward_rules]: "Q dir args \<Longrightarrow> judged Q T (GitRan dir args)"
  by simp

lemma judged_treeI [onward_rules]: "T path \<Longrightarrow> judged Q T (TreeRemoved path)"
  by simp

lemmas judged_others [onward_rules] = judged_simps(3-)

text \<open>A sweep removes a session's worktree and deletes its branch without force.\<close>

definition may_remove :: "(string \<Rightarrow> string list \<Rightarrow> bool) \<Rightarrow> worktreeInfo \<Rightarrow> bool" where
  "may_remove Q wt \<longleftrightarrow>
     Q (wt_repoPath wt) [''worktree'', ''remove'', wt_worktreePath wt] \<and> Q (wt_repoPath wt) [''branch'', ''-d'', wt_branch wt]"

lemma may_removeD:
  "may_remove Q wt \<Longrightarrow> Q (wt_repoPath wt) [''worktree'', ''remove'', wt_worktreePath wt]"
  "may_remove Q wt \<Longrightarrow> Q (wt_repoPath wt) [''branch'', ''-d'', wt_branch wt]"
  by (simp_all only: may_remove_def)

definition may_discard :: "(string \<Rightarrow> string list \<Rightarrow> bool) \<Rightarrow> string \<Rightarrow> bool" where
  "may_discard Q dir \<longleftrightarrow> (\<forall>p. Q dir [''reset'', ''HEAD'', ''--'', p] \<and> Q dir [''checkout'', ''--'', p])"

lemma may_discardD:
  "may_discard Q dir \<Longrightarrow> Q dir [''reset'', ''HEAD'', ''--'', p]"
  "may_discard Q dir \<Longrightarrow> Q dir [''checkout'', ''--'', p]"
  by (simp_all only: may_discard_def)

lemma onward_removeWorktree [onward_rules]:
  assumes "may_remove Q wt" and "onward (judged Q T) s u"
  shows "onward (judged Q T) s (snd (removeWorktree C tap wt u))"
  unfolding removeWorktree_def Let_def
  by (insert assms(2)) (assumption | rule onward_rules may_removeD[OF assms(1)] | erule onward_via)+

lemma onward_git_step [onward_rules]:
  "Q dir args \<Longrightarrow> onward (judged Q T) s u \<Longrightarrow> onward (judged Q T) s (snd (git_step C dir args u))"
  unfolding git_step_def Let_def
  by (assumption | rule onward_rules | erule onward_via)+

lemma onward_discardFile [onward_rules]:
  assumes "may_discard Q dir" and "onward (judged Q T) s u"
  shows "onward (judged Q T) s (snd (discardFile C dir fc u))"
  unfolding discardFile_def Let_def
  by (insert assms(2)) (assumption | rule onward_rules may_discardD[OF assms(1)] | erule onward_via)+

lemma onward_review_changes [onward_rules]:
  assumes "may_discard Q dir"
  shows "onward (judged Q T) s u \<Longrightarrow> onward (judged Q T) s (snd (review_changes C dir fcs u))"
proof (induction fcs arbitrary: u)
  case Nil
  then show ?case by simp
next
  case (Cons fc fcs)
  note step = Cons.IH
  show ?case
    unfolding review_changes.simps Let_def
    by (insert Cons.prems) (assumption | rule onward_rules step assms | erule onward_via)+
qed

lemma onward_handleDirtyWorktree [onward_rules]:
  assumes "may_remove Q wt" "may_discard Q (wt_worktreePath wt)" and "onward (judged Q T) s u"
  shows "onward (judged Q T) s (snd (handleDirtyWorktree C tap wt u))"
  unfolding handleDirtyWorktree_def Let_def
  by (insert assms(3)) (assumption | rule onward_rules assms(1,2) | erule onward_via)+

definition may_execute :: "(string \<Rightarrow> string list \<Rightarrow> bool) \<Rightarrow> cleanAction \<Rightarrow> bool" where
  "may_execute Q a \<longleftrightarrow>
     (ca_action a = Remove \<or> ca_action a = Interactive \<longrightarrow> may_remove Q (ca_wt a)) \<and>
     (ca_action a = Interactive \<longrightarrow> may_discard Q (wt_worktreePath (ca_wt a)))"

lemma onward_execute_action [onward_rules]:
  assumes "may_execute Q a" and "onward (judged Q T) s u"
  shows "onward (judged Q T) s (execute_action C tap a u)"
proof (cases "ca_action a")
  case Remove
  with assms(1) have r: "may_remove Q (ca_wt a)" by (simp add: may_execute_def)
  show ?thesis
    unfolding execute_action_def Let_def Remove action.case
    by (insert assms(2)) (assumption | rule onward_rules r | erule onward_via)+
next
  case Interactive
  with assms(1) have r: "may_remove Q (ca_wt a)" "may_discard Q (wt_worktreePath (ca_wt a))"
    by (simp_all add: may_execute_def)
  show ?thesis
    unfolding execute_action_def Let_def Interactive action.case
    by (insert assms(2)) (assumption | rule onward_rules r | erule onward_via)+
qed (unfold execute_action_def Let_def, simp_all only: action.case skip_lines.simps prod.case,
     (insert assms(2), (assumption | rule onward_rules)+)+)

lemma onward_execute_actions [onward_rules]:
  "(\<And>a. a \<in> set as \<Longrightarrow> may_execute Q a) \<Longrightarrow> onward (judged Q T) s u \<Longrightarrow>
   onward (judged Q T) s (execute_actions C tap as u)"
  by (induction as arbitrary: u) (simp_all add: onward_execute_action)

lemma onward_removeAbandonedSessions [onward_rules]:
  "onward (judged Q T) s u \<Longrightarrow> onward (judged Q T) s (snd (removeAbandonedSessions C sts u))"
proof (induction sts arbitrary: u)
  case Nil
  then show ?case by simp
next
  case (Cons st sts)
  note step = Cons.IH
  show ?case
    unfolding removeAbandonedSessions.simps Let_def
    by (insert Cons.prems) (assumption | rule onward_rules step | erule onward_via)+
qed

lemma onward_sweep_abandoned [onward_rules]:
  "onward (judged Q T) s u \<Longrightarrow> onward (judged Q T) s (sweep_abandoned C tap abandoned u)"
  unfolding sweep_abandoned_def
  by (assumption | rule onward_rules | erule onward_via)+

definition may_force :: "(string \<Rightarrow> string list \<Rightarrow> bool) \<Rightarrow> (string \<Rightarrow> bool) \<Rightarrow> orphanTransientWorktree \<Rightarrow> bool" where
  "may_force Q T x \<longleftrightarrow>
     Q (or_repoPath x) [''worktree'', ''remove'', ''--force'', or_path x] \<and> Q (or_repoPath x) [''worktree'', ''prune''] \<and> T (or_path x)"

lemma may_forceD:
  assumes "may_force Q T x"
  shows "Q (or_repoPath x) [''worktree'', ''remove'', ''--force'', or_path x]" "Q (or_repoPath x) [''worktree'', ''prune'']" "T (or_path x)"
  using assms by (simp_all only: may_force_def)

lemma onward_removeOrphan [onward_rules]:
  assumes "may_force Q T x" and "onward (judged Q T) s u"
  shows "onward (judged Q T) s (snd (removeOrphanTransientWorktree C x u))"
  unfolding removeOrphanTransientWorktree_def Let_def
  by (insert assms(2)) (assumption | rule onward_rules may_forceD[OF assms(1)] | erule onward_via)+

lemma onward_orphan_result [onward_rules]:
  "(\<And>e ps. p = OrphanInUse e ps \<Longrightarrow> onward P s (snd (f e ps))) \<Longrightarrow> (\<And>e. p = OrphanError e \<Longrightarrow> onward P s (snd (g e))) \<Longrightarrow>
   (p = OrphanGone \<Longrightarrow> onward P s (snd h)) \<Longrightarrow>
   onward P s (snd (case p of OrphanInUse e ps \<Rightarrow> f e ps | OrphanError e \<Rightarrow> g e | OrphanGone \<Rightarrow> h))"
  by (cases p) simp_all

lemma onward_prune_orphans [onward_rules]:
  "(\<And>x. x \<in> set xs \<Longrightarrow> may_force Q T x) \<Longrightarrow> onward (judged Q T) s u \<Longrightarrow>
   onward (judged Q T) s (snd (prune_orphans C tap xs u))"
proof (induction xs arbitrary: u)
  case Nil
  then show ?case by simp
next
  case (Cons x xs)
  have x: "may_force Q T x" using Cons.prems(1) by simp
  have step: "onward (judged Q T) s v \<Longrightarrow> onward (judged Q T) s (snd (prune_orphans C tap xs v))" for v
    using Cons.IH Cons.prems(1) by simp
  show ?case
    unfolding prune_orphans.simps Let_def
    by (insert Cons.prems(2)) (assumption | rule onward_rules step x | erule onward_via)+
qed

lemma onward_sweep_orphans [onward_rules]:
  assumes "\<And>x. x \<in> set orphans \<Longrightarrow> may_force Q T x" and "onward (judged Q T) s u"
  shows "onward (judged Q T) s (sweep_orphans C tap orphans u)"
proof -
  note step = onward_prune_orphans[OF assms(1)]
  show ?thesis
    unfolding sweep_orphans_def
    by (insert assms(2)) (assumption | rule onward_rules(1-12) onward_if onward_prod step judged_others | erule onward_via)+
qed

lemma onward_sweep_tombstones [onward_rules]:
  "onward (judged Q T) s u \<Longrightarrow> onward (judged Q T) s (sweep_tombstones C tap retention u)"
  unfolding sweep_tombstones_def
  by (assumption | rule onward_rules | erule onward_via)+

lemma onward_prune_entries [onward_rules]:
  "onward (judged Q T) s u \<Longrightarrow> onward (judged Q T) s (snd (prune_entries C es u))"
proof (induction es arbitrary: u)
  case Nil
  then show ?case by simp
next
  case (Cons e es)
  note step = Cons.IH
  show ?case
    unfolding prune_entries.simps Let_def
    by (insert Cons.prems) (assumption | rule onward_rules step | erule onward_via)+
qed

lemma onward_Prune [onward_rules]:
  "onward (judged Q T) s u \<Longrightarrow> onward (judged Q T) s (snd (Prune C cutoff u))"
  unfolding Prune_def
  by (assumption | rule onward_rules | erule onward_via)+

lemma onward_sweep_index [onward_rules]:
  "onward (judged Q T) s u \<Longrightarrow> onward (judged Q T) s (sweep_index C tap cutoff u)"
  unfolding sweep_index_def
  by (assumption | rule onward_rules | erule onward_via)+

lemma onward_executeClean:
  assumes "\<And>a. a \<in> set actions \<Longrightarrow> may_execute Q a" "\<And>x. x \<in> set orphans \<Longrightarrow> may_force Q T x"
    and "onward (judged Q T) s u"
  shows "onward (judged Q T) s (executeClean C tap actions abandoned orphans retention cutoff u)"
proof -
  have "onward (judged Q T) s (execute_actions C tap actions u)"
    using assms(1,3) by (rule onward_execute_actions)
  then have "onward (judged Q T) s (sweep_abandoned C tap abandoned (execute_actions C tap actions u))"
    by (rule onward_sweep_abandoned)
  with assms(2) have "onward (judged Q T) s (sweep_orphans C tap orphans (sweep_abandoned C tap abandoned (execute_actions C tap actions u)))"
    by (rule onward_sweep_orphans)
  then show ?thesis
    unfolding executeClean_def Let_def by (intro onward_sweep_index onward_sweep_tombstones)
qed

lemma emitPlan_world: "cs_world (emitPlan tap as a b c d dryRun s) = cs_world s"
proof -
  have "cs_world (report_all tap ls s) = cs_world s" for ls
    by (induction ls arbitrary: s) (auto simp: report_all_def report_def say_def effect_def)
  then show ?thesis by (simp add: emitPlan_def)
qed

lemma report_world [simp]: "cs_world (report tap t l s) = cs_world s" "cs_world (report_tap tap t s) = cs_world s"
  by (simp_all add: report_def report_tap_def say_def effect_def)

lemma onward_emitPlan: "(\<And>l. P (Said l)) \<Longrightarrow> onward P s u \<Longrightarrow> onward P s (emitPlan tap as a b c d dryRun u)"
  by (simp add: emitPlan_def onward_report_all)

section \<open>The three ways through a sweep\<close>

text \<open>
  Every run either only says something (with the world as it was), or asks and is refused, or executes
  the plan after a yes.
\<close>

definition talk :: "event \<Rightarrow> bool" where
  "talk ev \<longleftrightarrow> (case ev of Said _ \<Rightarrow> True | Prompted _ \<Rightarrow> True | _ \<Rightarrow> False)"

definition go_ahead :: "'w clean_ops \<Rightarrow> bool \<Rightarrow> bool \<Rightarrow> 'w \<Rightarrow> bool" where
  "go_ahead C dryRun yes w \<longleftrightarrow> \<not> dryRun \<and> (yes \<or> c_interactive C w \<and> (\<exists>prompt. fst (c_confirm C prompt w) = Inr True))"

definition swept :: "'w clean_ops \<Rightarrow> string \<Rightarrow> bool \<Rightarrow> string \<Rightarrow> 'w scene \<Rightarrow> 'w scene \<Rightarrow> 'w scene" where
  "swept C startDir interactive format s u =
     (let w = cs_world s; tap = (format = ''tap'') in
      report_tap tap TapPlan
        (executeClean C tap (planClean C (scanWorktrees C startDir w) interactive) (snd (countAbandonedSessions C w))
          (findOrphanTransientWorktrees C startDir w) (resolveTombstoneRetention C startDir w)
          (resolveAttestationRetention C startDir w) u))"

lemma talk_simps [simp]: "talk (Said l)" "talk (Prompted p)"
  by (simp_all add: talk_def)

lemma confirmClean_asks:
  assumes "confirmClean C a b c d e v = (ans, u)"
  shows "onward talk s v \<Longrightarrow> onward talk s u"
    and "ans = Inr True \<Longrightarrow> c_interactive C (cs_world v) \<and> (\<exists>prompt. fst (c_confirm C prompt (cs_world v)) = Inr True)"
proof -
  define parts where "parts = count_part a '' worktree(s)'' @ count_part b '' abandoned session(s)'' @
    count_part c '' stale tombstone(s)'' @ count_part d '' orphaned transient worktree(s)'' @
    count_part e '' expired attestation index entries''"
  define prompt where "prompt = ''Remove '' @ Join parts '' and '' @ ''?''"
  note q = assms[unfolded confirmClean_def Let_def parts_def[symmetric], folded prompt_def]
  show "onward talk s v \<Longrightarrow> onward talk s u"
    using q onward_perform_snd[of talk s v "Prompted prompt" "c_confirm C prompt"] by (auto split: if_splits)
  show "ans = Inr True \<Longrightarrow> c_interactive C (cs_world v) \<and> (\<exists>prompt. fst (c_confirm C prompt (cs_world v)) = Inr True)"
    using q by (cases "c_confirm C prompt (cs_world v)") (auto simp: perform_def split: if_splits intro!: exI[of _ prompt])
qed

lemma CleanRun_ways:
  assumes "CleanRun C startDir interactive dryRun yes format s = (res, t)"
  obtains (talked) "cs_world t = cs_world s" "onward talk s t"
  | (refused) "\<not> dryRun" "\<not> yes" "onward talk s t"
  | (swept) u where "go_ahead C dryRun yes (cs_world s)" "onward talk s u" "t = swept C startDir interactive format s u"
proof -
  obtain an as where ab: "countAbandonedSessions C (cs_world s) = (an, as)" by fastforce
  let ?tap = "format = ''tap''" and ?w = "cs_world s"
  let ?acts = "planClean C (scanWorktrees C startDir ?w) interactive"
  let ?ret = "resolveTombstoneRetention C startDir ?w"
  let ?tc = "countStaleTombstones C ?ret ?w" and ?orph = "findOrphanTransientWorktrees C startDir ?w"
  let ?ac = "countStaleAttestations C (resolveAttestationRetention C startDir ?w) ?w"
  let ?rc = "length (filter (\<lambda>a. ca_action a = Remove \<or> ca_action a = Interactive) ?acts)"
  define v where "v = emitPlan ?tap ?acts an ?tc (length ?orph) ?ac dryRun s"
  have v: "cs_world v = ?w" "onward talk s v"
    by (simp_all add: v_def emitPlan_world onward_emitPlan)
  show thesis
  proof (cases "length (scanWorktrees C startDir ?w) = 0 \<and> an = 0 \<and> ?tc = 0 \<and> length ?orph = 0 \<and> ?ac = 0")
    case True
    with assms ab have "t = report_tap ?tap TapPlan (report ?tap (TapSkip ''clean'' ''no worktrees found'') (LogInfo ''no worktrees found'' []) s)"
      unfolding CleanRun_def Let_def by (simp only: prod.case if_True) simp
    then show thesis by (intro talked) (simp_all add: onward_report onward_report_tap)
  next
    case False
    note run = assms[unfolded CleanRun_def Let_def ab prod.case if_not_P[OF False] v_def[symmetric]]
    show thesis
    proof (cases "(?rc = 0 \<and> an = 0 \<and> ?tc = 0 \<and> length ?orph = 0 \<and> ?ac = 0) \<or> dryRun")
      case True
      with run have "t = report_tap ?tap TapPlan v" by (auto split: if_splits)
      then show thesis by (intro talked) (simp_all add: onward_report_tap v)
    next
      case go: False
      have sw: "swept C startDir interactive format s u =
          report_tap ?tap TapPlan (executeClean C ?tap ?acts as ?orph ?ret (resolveAttestationRetention C startDir ?w) u)" for u
        by (simp add: swept_def Let_def ab)
      show thesis
      proof (cases yes)
        case True
        with run go have "t = swept C startDir interactive format s v" by (auto simp: sw split: if_splits)
        with True go v show thesis by (intro swept) (simp_all add: go_ahead_def)
      next
        case False
        obtain ans u where cf: "confirmClean C ?rc an ?tc (length ?orph) ?ac v = (ans, u)" by fastforce
        have u: "onward talk s u" using confirmClean_asks(1)[OF cf] v(2) by blast
        show thesis
        proof (cases "ans = Inr True")
          case True
          have "go_ahead C dryRun yes ?w"
            using confirmClean_asks(2)[OF cf True] go v(1) by (auto simp: go_ahead_def)
          moreover from run go False cf True have "t = swept C startDir interactive format s u"
            by (auto simp: sw split: if_splits)
          ultimately show thesis using u by (intro swept)
        next
          case no: False
          from run go False cf no u have "onward talk s t"
            by (auto split: if_splits sum.splits intro!: onward_report onward_report_tap)
          with go False show thesis by (intro refused) simp_all
        qed
      qed
    qed
  qed
qed

lemma talk_judged: "talk ev \<Longrightarrow> judged Q T ev"
  by (simp add: talk_def split: event.splits)

lemma onward_talk: "onward talk s t \<Longrightarrow> onward (judged Q T) s t"
  by (auto simp: onward_def intro: talk_judged)

lemma onward_swept:
  assumes "\<And>a. a \<in> set (planClean C (scanWorktrees C startDir (cs_world s)) interactive) \<Longrightarrow> may_execute Q a"
    and "\<And>x. x \<in> set (findOrphanTransientWorktrees C startDir (cs_world s)) \<Longrightarrow> may_force Q T x"
    and "onward (judged Q T) v u"
  shows "onward (judged Q T) v (swept C startDir interactive format s u)"
  unfolding swept_def Let_def
  by (intro onward_report_tap onward_executeClean assms judged_simps)

lemma CleanRun_judged:
  assumes run: "CleanRun C startDir interactive dryRun yes format s = (res, t)"
    and acts: "\<And>a. a \<in> set (planClean C (scanWorktrees C startDir (cs_world s)) interactive) \<Longrightarrow> may_execute Q a"
    and orphans: "\<And>x. x \<in> set (findOrphanTransientWorktrees C startDir (cs_world s)) \<Longrightarrow> may_force Q T x"
  shows "onward (judged Q T) s t"
  using run
proof (cases rule: CleanRun_ways)
  case (swept u)
  from onward_swept[OF acts orphans onward_talk[OF swept(2)]] swept(3) show ?thesis by simp
qed (auto intro: onward_talk)

lemma CleanRun_unasked:
  assumes "CleanRun C startDir interactive dryRun yes format s = (res, t)" and "\<not> go_ahead C dryRun yes (cs_world s)"
  shows "onward talk s t"
  using assms(1) by (cases rule: CleanRun_ways) (use assms(2) in auto)

lemma planned_action:
  "a \<in> set (planClean C wts interactive) \<Longrightarrow>
   ca_wt a \<in> set wts \<and> wt_merged (ca_wt a) \<and> ca_action a = plan_action interactive (ca_wt a)"
  by (auto simp: planClean_def)

lemma plan_action_removes:
  "plan_action interactive wt = Remove \<longleftrightarrow> \<not> wt_live wt \<and> \<not> wt_shelved wt \<and> \<not> wt_dirty wt"
  "plan_action interactive wt = Interactive \<longleftrightarrow> \<not> wt_live wt \<and> \<not> wt_shelved wt \<and> wt_dirty wt \<and> interactive"
  by (auto simp: plan_action_def)

lemma may_executeI:
  assumes "\<And>args. args = [''worktree'', ''remove'', wt_worktreePath (ca_wt a)] \<or> args = [''branch'', ''-d'', wt_branch (ca_wt a)] \<Longrightarrow>
             ca_action a = Remove \<or> ca_action a = Interactive \<Longrightarrow> Q (wt_repoPath (ca_wt a)) args"
    and "\<And>p args. args = [''reset'', ''HEAD'', ''--'', p] \<or> args = [''checkout'', ''--'', p] \<Longrightarrow> Q (wt_worktreePath (ca_wt a)) args"
  shows "may_execute Q a"
  unfolding may_execute_def may_remove_def may_discard_def using assms by blast

lemma is_orphan_iff:
  "is_orphan C w (name, isDir) \<longleftrightarrow>
     isDir \<and> isTransientMergeWorktreeName name \<and>
     (\<exists>pid. pidFromTransientWorktreeName name = Some pid \<and> \<not> IsAlive (c_machine C w) pid)"
  by (auto simp: is_orphan_def split: option.split)

lemma repo_orphans_iff:
  "x \<in> set (repo_orphans C w repoPath) \<longleftrightarrow>
     (\<exists>entries isDir. c_readDir C (JoinPath [repoPath, WorktreesDir]) w = Some entries \<and> (or_name x, isDir) \<in> set entries \<and>
        is_orphan C w (or_name x, isDir) \<and>
        x = \<lparr>or_repoPath = repoPath, or_path = JoinPath [JoinPath [repoPath, WorktreesDir], or_name x], or_name = or_name x\<rparr>)"
  unfolding repo_orphans_def Let_def
  by (cases "c_readDir C (JoinPath [repoPath, WorktreesDir]) w"; cases x) (auto simp del: JoinPath.simps)

lemma orphan_dead:
  "x \<in> set (findOrphanTransientWorktrees C startDir w) \<Longrightarrow>
   isTransientMergeWorktreeName (or_name x) \<and>
   (\<exists>pid. pidFromTransientWorktreeName (or_name x) = Some pid \<and> \<not> IsAlive (c_machine C w) pid)"
  unfolding findOrphanTransientWorktrees_def
  by (auto simp: repo_orphans_iff is_orphan_iff simp del: JoinPath.simps)

section \<open>What is planned is done\<close>

lemma done_since_trans:
  "onward P s t \<Longrightarrow> onward P' t u \<Longrightarrow> done_since s u = done_since s t @ done_since t u"
  by (auto simp: onward_def done_since_def)

lemma done_perform: "perform ev f s = (x, t) \<Longrightarrow> done_since s t = [ev]"
  by (auto simp: perform_def done_since_def split: prod.splits)

abbreviation anything :: "event \<Rightarrow> bool" where "anything \<equiv> judged (\<lambda>_ _. True) (\<lambda>_. True)"

lemma anything_allowed: "may_execute (\<lambda>_ _. True) a" "may_force (\<lambda>_ _. True) (\<lambda>_. True) x" "may_remove (\<lambda>_ _. True) wt"
  by (simp_all add: may_execute_def may_remove_def may_discard_def may_force_def)

lemma removeWorktree_runs:
  "GitRan (wt_repoPath wt) [''worktree'', ''remove'', wt_worktreePath wt] \<in> set (done_since s (snd (removeWorktree C tap wt s)))"
proof -
  define pre where "pre = revokeProfileBinding C tap wt
    (effect (CredentialFileRemoved (wt_worktreePath wt)) (c_removeCredential C (wt_worktreePath wt)) (revokeCredential C tap wt s))"
  define rm where "rm = GitRan (wt_repoPath wt) [''worktree'', ''remove'', wt_worktreePath wt]"
  obtain x t where p: "perform rm (c_git C (wt_repoPath wt) [''worktree'', ''remove'', wt_worktreePath wt]) pre = (x, t)"
    by fastforce
  have pre: "onward anything s pre"
    unfolding pre_def by (intro onward_rules onward_refl judged_simps)
  have ev: "onward anything pre t"
    using p onward_perform_snd[of anything pre pre rm] by (metis onward_refl judged_simps(1) rm_def snd_conv)
  have "onward anything t (snd (removeWorktree C tap wt s))"
    unfolding removeWorktree_def Let_def pre_def[symmetric] rm_def[symmetric] p prod.case
    by (assumption | rule onward_refl TrueI onward_rules | erule onward_via)+
  note post = this
  have "done_since s t = done_since s pre @ [rm]"
    using done_since_trans[OF pre ev] done_perform[OF p] by simp
  then show ?thesis
    using done_since_trans[OF onward_trans[OF pre ev] post] by (simp only: rm_def[symmetric]) simp
qed

lemma execute_actions_run:
  "a \<in> set as \<Longrightarrow> ca_action a = Remove \<Longrightarrow>
   GitRan (wt_repoPath (ca_wt a)) [''worktree'', ''remove'', wt_worktreePath (ca_wt a)] \<in> set (done_since s (execute_actions C tap as s))"
proof (induction as arbitrary: s)
  case (Cons b as)
  let ?ev = "GitRan (wt_repoPath (ca_wt a)) [''worktree'', ''remove'', wt_worktreePath (ca_wt a)]"
  have b: "onward anything s (execute_action C tap b s)"
    by (intro onward_execute_action anything_allowed onward_refl)
  have rest: "onward anything (execute_action C tap b s) (execute_actions C tap as (execute_action C tap b s))"
    by (intro onward_execute_actions anything_allowed onward_refl)
  show ?case
  proof (cases "a \<in> set as")
    case True
    from Cons.IH[OF this Cons.prems(2)] show ?thesis
      by (simp only: execute_actions.simps done_since_trans[OF b rest] set_append Un_iff simp_thms)
  next
    case False
    with Cons.prems have a: "b = a" by auto
    obtain r t where rm: "removeWorktree C tap (ca_wt a) s = (r, t)" by fastforce
    have "onward anything s (snd (removeWorktree C tap (ca_wt a) s))"
      by (intro onward_removeWorktree anything_allowed onward_refl)
    then have st: "onward anything s t" by (simp add: rm)
    have post: "onward anything t (execute_action C tap b s)"
      unfolding execute_action_def Let_def a Cons.prems(2) action.case rm prod.case
      by (rule onward_option onward_report onward_refl judged_simps)+
    have "?ev \<in> set (done_since s (execute_action C tap b s))"
      using removeWorktree_runs[of "ca_wt a" s C tap] by (simp only: rm snd_conv done_since_trans[OF st post] set_append Un_iff simp_thms)
    then show ?thesis by (simp only: execute_actions.simps done_since_trans[OF b rest] set_append Un_iff simp_thms)
  qed
qed simp

lemma swept_runs:
  assumes "a \<in> set (planClean C (scanWorktrees C startDir (cs_world s)) interactive)" "ca_action a = Remove"
  shows "GitRan (wt_repoPath (ca_wt a)) [''worktree'', ''remove'', wt_worktreePath (ca_wt a)]
           \<in> set (done_since u (swept C startDir interactive format s u))"
proof -
  define tap where "tap = (format = ''tap'')"
  define as where "as = planClean C (scanWorktrees C startDir (cs_world s)) interactive"
  let ?x = "execute_actions C tap as u"
  have ux: "onward anything u ?x"
    by (intro onward_execute_actions anything_allowed onward_refl)
  have post: "onward anything ?x (swept C startDir interactive format s u)"
    unfolding swept_def Let_def executeClean_def tap_def[symmetric] as_def[symmetric]
    by (intro onward_report_tap onward_sweep_index onward_sweep_tombstones onward_sweep_orphans onward_sweep_abandoned
      anything_allowed onward_refl judged_simps)
  show ?thesis
    using execute_actions_run[OF assms[folded as_def], of u C tap] by (simp only: done_since_trans[OF ux post] set_append Un_iff simp_thms)
qed

lemma CleanRun_yes:
  assumes "a \<in> set (planClean C (scanWorktrees C startDir (cs_world s)) interactive)" "ca_action a = Remove"
  obtains v where "onward talk s v" "CleanRun C startDir interactive False True format s = (None, swept C startDir interactive format s v)"
proof -
  obtain an as where ab: "countAbandonedSessions C (cs_world s) = (an, as)" by fastforce
  let ?acts = "planClean C (scanWorktrees C startDir (cs_world s)) interactive"
  have ne: "length (scanWorktrees C startDir (cs_world s)) \<noteq> 0" using assms(1) by (auto simp: planClean_def)
  have rc: "length (filter (\<lambda>a. ca_action a = Remove \<or> ca_action a = Interactive) ?acts) \<noteq> 0"
    using assms by (auto simp: filter_empty_conv)
  let ?v = "emitPlan (format = ''tap'') ?acts an (countStaleTombstones C (resolveTombstoneRetention C startDir (cs_world s)) (cs_world s))
    (length (findOrphanTransientWorktrees C startDir (cs_world s)))
    (countStaleAttestations C (resolveAttestationRetention C startDir (cs_world s)) (cs_world s)) False s"
  show thesis
  proof (rule that)
    show "onward talk s ?v" by (intro onward_emitPlan talk_simps onward_refl)
    show "CleanRun C startDir interactive False True format s = (None, swept C startDir interactive format s ?v)"
      unfolding CleanRun_def Let_def ab prod.case swept_def by (simp only: ne rc simp_thms if_False if_True snd_conv)
  qed
qed

section \<open>Properties of a sweep\<close>

text \<open>
  C36. Without a go-ahead (\<open>--yes\<close>, or a yes to the prompt on a terminal) a sweep does nothing but talk,
  and a dry run leaves the world as it is.
\<close>

theorem clean_acts_only_on_a_yes:
  assumes "CleanRun C startDir interactive dryRun yes format s = (res, t)"
  shows "((\<exists>ev \<in> set (done_since s t). \<not> talk ev) \<longrightarrow> go_ahead C dryRun yes (cs_world s)) \<and>
         (dryRun \<longrightarrow> cs_world t = cs_world s)"
proof
  show "(\<exists>ev \<in> set (done_since s t). \<not> talk ev) \<longrightarrow> go_ahead C dryRun yes (cs_world s)"
    using CleanRun_unasked[OF assms] onward_done by blast
  from assms show "dryRun \<longrightarrow> cs_world t = cs_world s"
    by (cases rule: CleanRun_ways) (auto simp: go_ahead_def)
qed


text \<open>
  A sweep never deletes a branch by force, and the directories it removes by force are leftover
  transient worktrees whose creating process was dead when it looked.
\<close>

theorem clean_forces_only_dead_orphans:
  assumes run: "CleanRun C startDir interactive dryRun yes format s = (res, t)"
    and forced: "TreeRemoved path \<in> set (done_since s t) \<or> GitRan repo [''worktree'', ''remove'', ''--force'', path] \<in> set (done_since s t) \<or>
                 GitRan repo [''branch'', ''-D'', path] \<in> set (done_since s t)"
  shows "\<exists>x \<in> set (findOrphanTransientWorktrees C startDir (cs_world s)). or_path x = path \<and>
           isTransientMergeWorktreeName (or_name x) \<and>
           (\<exists>pid. pidFromTransientWorktreeName (or_name x) = Some pid \<and> \<not> IsAlive (c_machine C (cs_world s)) pid)"
proof -
  define T where "T = (\<lambda>path. \<exists>x \<in> set (findOrphanTransientWorktrees C startDir (cs_world s)). or_path x = path \<and>
    isTransientMergeWorktreeName (or_name x) \<and>
    (\<exists>pid. pidFromTransientWorktreeName (or_name x) = Some pid \<and> \<not> IsAlive (c_machine C (cs_world s)) pid))"
  define Q where "Q = (\<lambda>(dir :: string) args. \<forall>path. args = [''worktree'', ''remove'', ''--force'', path] \<or> args = [''branch'', ''-D'', path] \<longrightarrow> T path)"
  have "onward (judged Q T) s t"
  proof (rule CleanRun_judged[OF run])
    fix a show "may_execute Q a" by (rule may_executeI) (auto simp: Q_def)
  next
    fix x assume x: "x \<in> set (findOrphanTransientWorktrees C startDir (cs_world s))"
    from orphan_dead[OF this] x have "T (or_path x)" unfolding T_def by blast
    then show "may_force Q T x" by (simp add: may_force_def Q_def)
  qed
  from forced onward_done[OF this] show ?thesis by (fastforce simp: Q_def T_def)
qed

section \<open>What a scan sees\<close>

lemma scanned:
  assumes "repoPath \<in> set (ScanRepos C startDir w)" "DefaultBranch C repoPath w = Inr d" "d \<noteq> []"
    and "wtPath \<in> set (ListWorktrees C repoPath w)"
  shows "scan_worktree C repoPath d w wtPath \<in> set (scanWorktrees C startDir w)"
proof -
  have "scan_worktree C repoPath d w wtPath \<in> set (scan_repo C w repoPath)"
    using assms(2-4) by (simp add: scan_repo_def)
  with assms(1) show ?thesis unfolding scanWorktrees_def set_concat set_map by blast
qed

lemma planned_removal:
  assumes "wt \<in> set wts" "wt_merged wt" "\<not> wt_live wt" "\<not> wt_shelved wt" "\<not> wt_dirty wt"
  obtains a where "a \<in> set (planClean C wts interactive)" "ca_wt a = wt" "ca_action a = Remove"
proof -
  have "wt \<in> ca_wt ` set (planClean C wts interactive)"
    using assms(1,2) unfolding planClean_def set_map image_image by simp
  then obtain a where a: "a \<in> set (planClean C wts interactive)" "ca_wt a = wt" by blast
  with planned_action[OF a(1)] assms(3-5) have "ca_action a = Remove" by (simp add: plan_action_def)
  with a that show thesis by blast
qed

lemma listed:
  assumes "c_readDir C (JoinPath [repoPath, WorktreesDir]) w = Some entries" "(name, True) \<in> set entries"
    and "p = JoinPath [JoinPath [repoPath, WorktreesDir], name]" "IsWorktree C p w"
  shows "p \<in> set (ListWorktrees C repoPath w)"
proof -
  have "p \<in> (\<lambda>(name, _). JoinPath [JoinPath [repoPath, WorktreesDir], name]) ` set (filter snd entries)"
    using assms(2,3) by (force simp del: JoinPath.simps)
  with assms(1,4) show ?thesis unfolding ListWorktrees_def Let_def by (simp del: JoinPath.simps)
qed

lemma scan_unmade_branch:
  assumes "Run_git_ok C wtPath (unintegrated_args C wtPath d (Base wtPath) w) w = False"
    and "StatusPorcelain C wtPath w = []" "c_shelfEntries C wtPath w = Some 0"
    and "c_presence C (sessionKeyFor C repoPath (Base wtPath) w) w = 0" "c_session C repoPath (Base wtPath) w = None"
  shows "wt_merged (scan_worktree C repoPath d w wtPath) \<and> \<not> wt_live (scan_worktree C repoPath d w wtPath) \<and>
    \<not> wt_shelved (scan_worktree C repoPath d w wtPath) \<and> \<not> wt_dirty (scan_worktree C repoPath d w wtPath) \<and>
    wt_repoPath (scan_worktree C repoPath d w wtPath) = repoPath \<and> wt_worktreePath (scan_worktree C repoPath d w wtPath) = wtPath"
proof -
  have "CommitsUnintegrated C wtPath d (Base wtPath) w = 0"
    using assms(1) by (auto simp: CommitsUnintegrated_def Run_git_ok_def split: sum.splits)
  with assms(2-) show ?thesis
    by (simp add: scan_worktree_def Let_def SessionIsLive_def ShelfNotEmpty_def)
qed

lemma yes_removes:
  assumes "wt \<in> set (scanWorktrees C startDir (cs_world s))" "wt_merged wt" "\<not> wt_live wt" "\<not> wt_shelved wt" "\<not> wt_dirty wt"
  shows "GitRan (wt_repoPath wt) [''worktree'', ''remove'', wt_worktreePath wt]
           \<in> set (done_since s (snd (CleanRun C startDir interactive False True format s)))"
proof -
  from assms obtain a where a: "a \<in> set (planClean C (scanWorktrees C startDir (cs_world s)) interactive)" "ca_wt a = wt" "ca_action a = Remove"
    by (rule planned_removal)
  from CleanRun_yes[OF a(1,3)] obtain v where v: "onward talk s v"
    "CleanRun C startDir interactive False True format s = (None, swept C startDir interactive format s v)" .
  have "onward anything v (swept C startDir interactive format s v)"
    by (intro onward_swept anything_allowed onward_refl)
  from done_since_trans[OF v(1) this] swept_runs[OF a(1,3), of v format] show ?thesis
    by (simp only: v(2) snd_conv a(2) set_append Un_iff simp_thms)
qed

text \<open>
  C28. A directory that holds a linked worktree under a name that is no branch, clean and with no session,
  counts as merged, because a failing count of its commits reads as none: a sweep with \<open>--yes\<close> removes
  it, whether or not the process that its name belongs to still runs. The transient worktrees of a merge
  that is running are such directories.
\<close>

theorem clean_removes_worktrees_of_running_merges:
  assumes "repoPath \<in> set (ScanRepos C startDir (cs_world s))" "DefaultBranch C repoPath (cs_world s) = Inr d" "d \<noteq> []"
    and "wtPath \<in> set (ListWorktrees C repoPath (cs_world s))"
    and "\<not> Run_git_ok C wtPath (unintegrated_args C wtPath d (Base wtPath) (cs_world s)) (cs_world s)"
    and "StatusPorcelain C wtPath (cs_world s) = []" "c_shelfEntries C wtPath (cs_world s) = Some 0"
    and "c_presence C (sessionKeyFor C repoPath (Base wtPath) (cs_world s)) (cs_world s) = 0"
    and "c_session C repoPath (Base wtPath) (cs_world s) = None"
    and "isTransientMergeWorktreeName (Base wtPath)" "pidFromTransientWorktreeName (Base wtPath) = Some pid"
    and "IsAlive (c_machine C (cs_world s)) pid"
  shows "GitRan repoPath [''worktree'', ''remove'', wtPath]
           \<in> set (done_since s (snd (CleanRun C startDir interactive False True format s))) \<and>
         (\<forall>x \<in> set (findOrphanTransientWorktrees C startDir (cs_world s)). or_name x \<noteq> Base wtPath)"
proof
  let ?wt = "scan_worktree C repoPath d (cs_world s) wtPath"
  have wt: "wt_merged ?wt \<and> \<not> wt_live ?wt \<and> \<not> wt_shelved ?wt \<and> \<not> wt_dirty ?wt \<and> wt_repoPath ?wt = repoPath \<and> wt_worktreePath ?wt = wtPath"
    by (rule scan_unmade_branch) (use assms(5-9) in auto)
  then show "GitRan repoPath [''worktree'', ''remove'', wtPath] \<in> set (done_since s (snd (CleanRun C startDir interactive False True format s)))"
    using yes_removes[OF scanned[OF assms(1-4)], of interactive format] by simp
  show "\<forall>x \<in> set (findOrphanTransientWorktrees C startDir (cs_world s)). or_name x \<noteq> Base wtPath"
    using orphan_dead[of _ C startDir "cs_world s"] assms(11,12) by fastforce
qed

text \<open>
  The directory a merge makes for its process, listed among a repository's worktrees, is a leftover to
  be pruned exactly when that process is dead: the process number the name was printed with is read back.
\<close>

theorem leftovers_are_those_of_dead_processes:
  assumes "repoPath = abs_path es" "\<forall>e \<in> set es. plain_elem e"
    and "prefix \<in> {BuildWorktreePrefix, LandWorktreePrefix, ExemptWorktreePrefix}" "slash \<notin> set sha" "0 < pid" "pid < 2 ^ 63"
    and "repoPath \<in> set (ScanRepos C startDir w)" "c_readDir C (JoinPath [repoPath, WorktreesDir]) w = Some entries"
    and "(Base (transient_path repoPath prefix branch sha pid), True) \<in> set entries"
  shows "(\<exists>x \<in> set (findOrphanTransientWorktrees C startDir w).
            or_repoPath x = repoPath \<and> or_name x = Base (transient_path repoPath prefix branch sha pid) \<and>
            or_path x = transient_path repoPath prefix branch sha pid) \<longleftrightarrow> \<not> IsAlive (c_machine C w) pid"
proof -
  define name where "name = transient_name prefix branch sha pid"
  have pre: "slash \<notin> set prefix"
    using assms(3) by (auto simp: BuildWorktreePrefix_def LandWorktreePrefix_def ExemptWorktreePrefix_def)
  have w: "\<forall>e \<in> set (es @ [WorktreesDir]). plain_elem e"
    using assms(2) by (simp add: plain_elem_def WorktreesDir_def)
  have n: "plain_elem name" unfolding name_def by (rule transient_name_plain[OF pre assms(4,5)])
  have path: "transient_path repoPath prefix branch sha pid = abs_path ((es @ [WorktreesDir]) @ [name])"
    unfolding assms(1) name_def by (rule transient_path_name[OF assms(2) pre assms(4,5)])
  have base: "Base (transient_path repoPath prefix branch sha pid) = name"
    unfolding path by (rule Base_abs_path) (use w n in auto)
  have dir: "JoinPath [repoPath, WorktreesDir] = abs_path (es @ [WorktreesDir])"
    unfolding assms(1) by (rule JoinPath_abs_path) (use assms(2) w in auto)
  have full: "JoinPath [JoinPath [repoPath, WorktreesDir], name] = abs_path ((es @ [WorktreesDir]) @ [name])"
    unfolding dir by (rule JoinPath_abs_path[OF w n])
  have pid: "pidFromTransientWorktreeName name = Some pid"
    using pid_read_back[OF assms(5,6), of "prefix @ ReplaceAll branch ''/'' ''-'' @ ''-'' @ shortSha sha"]
    by (simp add: name_def transient_name_def)
  have transient: "isTransientMergeWorktreeName name"
    using assms(3) by (auto simp: isTransientMergeWorktreeName_def name_def transient_name_def)
  let ?x = "\<lparr>or_repoPath = repoPath, or_path = abs_path ((es @ [WorktreesDir]) @ [name]), or_name = name\<rparr>"
  have "?x \<in> set (findOrphanTransientWorktrees C startDir w)" if "\<not> IsAlive (c_machine C w) pid"
  proof -
    have "is_orphan C w (name, True)" using that pid transient by (simp add: is_orphan_iff)
    then have "?x \<in> set (repo_orphans C w repoPath)"
      unfolding repo_orphans_iff using assms(8,9) base full by (auto simp del: JoinPath.simps)
    then show ?thesis using assms(7) unfolding findOrphanTransientWorktrees_def set_concat set_map by blast
  qed
  moreover have "\<not> IsAlive (c_machine C w) pid" if "x \<in> set (findOrphanTransientWorktrees C startDir w)" "or_name x = name" for x
    using orphan_dead[OF that(1)] that(2) pid by auto
  ultimately show ?thesis unfolding base unfolding path by (metis orphanTransientWorktree.select_convs)
qed

section \<open>Reading the status\<close>

lemma Cut_tail: "Cut (c # cs) sep = None \<Longrightarrow> Cut cs sep = None"
  by (simp split: if_splits)

lemma strip_one_other: "(\<And>e. e \<in> set encs \<Longrightarrow> e \<noteq> [] \<and> hd e \<noteq> c) \<Longrightarrow> strip_one encs (c # cs) = None"
proof -
  assume e: "\<And>e. e \<in> set encs \<Longrightarrow> e \<noteq> [] \<and> hd e \<noteq> c"
  have "\<not> HasPrefix (c # cs) e" if "e \<in> set encs" for e
    using e[OF that] by (cases e) auto
  then have "filter (\<lambda>e. e \<noteq> [] \<and> HasPrefix (c # cs) e) encs = []" by (simp add: filter_empty_conv)
  then show ?thesis by (simp only: strip_one_def list.case)
qed

lemma trim_front_other: "(\<And>e. e \<in> set encs \<Longrightarrow> e \<noteq> [] \<and> hd e \<noteq> c) \<Longrightarrow> trim_front encs (c # cs) = c # cs"
  by (simp add: trim_front.simps[of encs "c # cs"] strip_one_other)

lemma TrimSpace_blank_line:
  assumes "c \<notin> last ` set space_encodings"
  shows "TrimSpace (CHR '' '' # CHR ''M'' # s @ [c, CHR 0x0A]) = CHR ''M'' # s @ [c]"
proof -
  have M: "trim_front space_encodings (CHR ''M'' # t) = CHR ''M'' # t" for t
    by (rule trim_front_other) (auto simp: space_encodings_def)
  have "strip_one space_encodings (CHR '' '' # t) = Some t" for t
    by (simp add: strip_one_def space_encodings_def)
  then have front: "trim_front space_encodings (CHR '' '' # CHR ''M'' # t) = CHR ''M'' # t" for t
    by (simp add: trim_front.simps[of _ "CHR '' '' # _"] M)
  have c: "trim_front (map rev space_encodings) (c # t) = c # t" for t
  proof (rule trim_front_other)
    fix e assume "e \<in> set (map rev space_encodings)"
    then obtain e' where "e = rev e'" "e' \<in> set space_encodings" by auto
    moreover from this(2) have "e' \<noteq> []" by (auto simp: space_encodings_def)
    ultimately show "e \<noteq> [] \<and> hd e \<noteq> c" using assms by (auto simp: hd_rev)
  qed
  have "strip_one (map rev space_encodings) (CHR 0x0A # t) = Some t" for t
    by (simp add: strip_one_def space_encodings_def)
  then have behind: "trim_front (map rev space_encodings) (CHR 0x0A # c # t) = c # t" for t
    by (simp add: trim_front.simps[of _ "CHR 0x0A # _"] c)
  show ?thesis by (simp add: TrimSpace_def front behind)
qed

text \<open>
  The status is read trimmed at both ends: of a worktree with one file changed and not staged, the
  review names the file without its first letter and takes the change for a staged one, or names no
  file at all, where the status as git prints it names the file.
\<close>

theorem review_misreads_the_first_change:
  assumes "c_gitRead C dir [''status'', ''--porcelain''] w = Inr ('' M '' @ p @ [CHR 0x0A])"
    and "CHR 0x0A \<notin> set p" "Cut p '' -> '' = None" "p \<noteq> []" "last p \<notin> last ` set space_encodings"
  shows "ParsePorcelain (StatusPorcelain C dir w) =
           (if length p = 1 then [] else [\<lparr>fc_Code = ''M '', fc_Path = tl p\<rparr>]) \<and>
         ParsePorcelain ('' M '' @ p @ [CHR 0x0A]) = [\<lparr>fc_Code = '' M'', fc_Path = p\<rparr>]"
proof -
  obtain q c where p: "p = q @ [c]" using assms(4) by (metis rev_exhaust)
  have "StatusPorcelain C dir w = TrimSpace ('' M '' @ p @ [CHR 0x0A])"
    using assms(1) by (simp add: StatusPorcelain_def Run_git_def)
  also have "\<dots> = ''M '' @ p"
    using TrimSpace_blank_line[of c "CHR '' '' # q"] assms(5) by (simp add: p)
  finally have st: "StatusPorcelain C dir w = ''M '' @ p" .
  have one: "split1 (CHR 0x0A) (''M '' @ p) = [''M '' @ p]" using assms(2) by simp
  have two: "split1 (CHR 0x0A) ('' M '' @ p @ [CHR 0x0A]) = ['' M '' @ p, []]"
    using split1_append[of "CHR 0x0A" "'' M '' @ p" "[]"] assms(2) by simp
  obtain x xs where x: "p = x # xs" using assms(4) by (cases p) auto
  have "ParsePorcelain (''M '' @ p) = (if length p = 1 then [] else [\<lparr>fc_Code = ''M '', fc_Path = tl p\<rparr>])"
    unfolding ParsePorcelain_def one using assms(3) Cut_tail[of x xs "'' -> ''"]
    by (simp add: parse_change_def x numeral_eq_Suc del: Cut.simps)
  moreover have "ParsePorcelain ('' M '' @ p @ [CHR 0x0A]) = [\<lparr>fc_Code = '' M'', fc_Path = p\<rparr>]"
    unfolding ParsePorcelain_def two using assms(3) by (simp add: parse_change_def x numeral_eq_Suc del: Cut.simps)
  ultimately show ?thesis by (simp only: st simp_thms)
qed

section \<open>The search for a free name ends\<close>

lemma fork_search_reaches:
  "\<not> taken (src @ ''-'' @ Itoa (int (n + k))) \<Longrightarrow> \<forall>i < k. taken (src @ ''-'' @ Itoa (int (n + i))) \<Longrightarrow>
   fork_search taken src n = Some (src @ ''-'' @ Itoa (int (n + k)))"
proof (induction k arbitrary: n)
  case 0
  then show ?case by (subst fork_search.simps) simp
next
  case (Suc k)
  from Suc.prems(2) have "taken (src @ ''-'' @ Itoa (int n))" by (metis add_0_right zero_less_Suc)
  moreover have "taken (src @ ''-'' @ Itoa (int (Suc n + i)))" if "i < k" for i
    using Suc.prems(2)[rule_format, of "Suc i"] that by (simp only: add_Suc_right add_Suc Suc_less_eq)
  then have "fork_search taken src (Suc n) = Some (src @ ''-'' @ Itoa (int (Suc n + k)))"
    by (intro Suc.IH allI impI) (use Suc.prems(1) in \<open>simp_all only: add_Suc_right add_Suc simp_thms\<close>)
  ultimately show ?case by (subst fork_search.simps) simp
qed

lemma Itoa_inj: "Itoa (int m) = Itoa (int n) \<Longrightarrow> m = n"
  by (simp add: Itoa_def pad_digits_inj del: pad_digits.simps)

text \<open>
  C37. Where only finitely many names are taken, the search for a fork's name ends, with the first free one.
\<close>

theorem fork_name_is_found:
  assumes "finite {c. fork_taken C repoPath w c}"
  shows "\<exists>n \<ge> 1. ForkName C repoPath sourceBranch w = Some (sourceBranch @ ''-'' @ Itoa (int n)) \<and>
           \<not> fork_taken C repoPath w (sourceBranch @ ''-'' @ Itoa (int n)) \<and>
           (\<forall>m. 1 \<le> m \<and> m < n \<longrightarrow> fork_taken C repoPath w (sourceBranch @ ''-'' @ Itoa (int m)))"
proof -
  let ?name = "\<lambda>n. sourceBranch @ ''-'' @ Itoa (int n)" and ?taken = "fork_taken C repoPath w"
  have "inj_on (\<lambda>n. ?name (1 + n)) UNIV"
  proof (rule inj_onI)
    fix x y :: nat assume "?name (1 + x) = ?name (1 + y)"
    then have "Itoa (int (1 + x)) = Itoa (int (1 + y))" by (simp only: same_append_eq)
    from Itoa_inj[OF this] show "x = y" by simp
  qed
  then have "infinite (range (\<lambda>n. ?name (1 + n)))" using finite_imageD infinite_UNIV_nat by blast
  then have "\<exists>n. \<not> ?taken (?name (1 + n))"
    using assms finite_subset[of "range (\<lambda>n. ?name (1 + n))" "{c. ?taken c}"] by blast
  then obtain k where k: "\<not> ?taken (?name (1 + k))" "\<forall>i < k. ?taken (?name (1 + i))"
    using exists_least_iff[of "\<lambda>n. \<not> ?taken (?name (1 + n))"] by blast
  have "ForkName C repoPath sourceBranch w = Some (?name (1 + k))"
    unfolding ForkName_def by (rule fork_search_reaches[OF k])
  moreover have "?taken (?name m)" if "1 \<le> m" "m < 1 + k" for m
    using k(2) that by (metis add_diff_inverse_nat not_less less_diff_conv2 add.commute)
  ultimately show ?thesis using k(1) by (intro exI[of _ "1 + k"]) auto
qed

section \<open>A repository in the middle of a merge\<close>

text \<open>
  The repository has the branches \<open>main\<close> and \<open>w-1\<close> and three linked worktrees: those of two merges, one of a
  running process and one of a dead one, and one of a session whose branch git no longer knows.
\<close>

definition sample_clean :: "unit clean_ops" where
  "sample_clean =
     \<lparr>c_style = (\<lambda>s. s), c_human = (\<lambda>_. []),
      c_readDir = (\<lambda>_ _. Some [(''.merge-w-p1-7'', True), (''.merge-w-p1-8'', True), (''w'', True)]),
      c_isDir = (\<lambda>_ _. Some True), c_lstatDir = (\<lambda>_ _. Some False), c_evalSymlinks = (\<lambda>p _. Some p), c_processes = (\<lambda>_. None),
      c_machine = (\<lambda>_. \<lparr>m_Stat = (\<lambda>_. Missing), m_Lstat = (\<lambda>_. Missing), m_Kill0 = (\<lambda>pid. pid = 7), m_ConfinedUnitRunning = None\<rparr>),
      c_gitRead = (\<lambda>_ args _.
        if args = [''rev-parse'', ''--verify'', ''refs/heads/main''] \<or> args = [''rev-parse'', ''--verify'', ''refs/heads/w-1''] then Inr ''p1''
        else if args = [''status'', ''--porcelain''] then Inr [] else Inl ''fatal''),
      c_git = (\<lambda>_ _ w. (Inr [], w)), c_shelfEntries = (\<lambda>_ _. Some 0), c_presence = (\<lambda>_ _. 0), c_session = (\<lambda>_ _ _. None),
      c_listAll = (\<lambda>_. Some []), c_sessionRemove = (\<lambda>_ _ w. w), c_nixDisabled = (\<lambda>_ _ _. True), c_nixPlan = (\<lambda>_ _. None),
      c_reap = (\<lambda>_ w. (([], \<lparr>rs_Reclaimed = 0, rs_Kept = 0, rs_TimedOut = 0, rs_BytesFreed = 0, rs_BytesKept = 0, rs_Errors = []\<rparr>), w)),
      c_revoke = (\<lambda>_ w. (\<lparr>ro_Ran = False, ro_Skipped = ''none'', ro_Note = [], ro_Err = None, ro_Output = []\<rparr>, w)),
      c_removeCredential = (\<lambda>_ w. w), c_revokeSession = (\<lambda>_ w. (None, w)), c_interactive = (\<lambda>_. False),
      c_confirm = (\<lambda>_ w. (Inr False, w)), c_removeFile = (\<lambda>_ w. (None, w)), c_removeAll = (\<lambda>_ w. (None, w)),
      c_home = (\<lambda>_. None), c_mergedSweatfile = (\<lambda>_ _ _. None), c_now = (\<lambda>_. 0), c_gcTombstones = (\<lambda>_ w. (Inr 0, w)),
      c_indexEntries = (\<lambda>_. Inr []), c_indexRemove = (\<lambda>_ w. (None, w))\<rparr>"

definition sample_scene :: "unit scene" where "sample_scene = \<lparr>cs_world = (), cs_trace = []\<rparr>"

lemma sample_clean_simps:
  "c_readDir sample_clean p () = Some [(''.merge-w-p1-7'', True), (''.merge-w-p1-8'', True), (''w'', True)]"
  "c_isDir sample_clean p () = Some True" "c_lstatDir sample_clean p () = Some False"
  "IsAlive (c_machine sample_clean ()) 7" "\<not> IsAlive (c_machine sample_clean ()) 8"
  "m_Stat (c_machine sample_clean ()) p = Missing"
  "c_gitRead sample_clean d args () =
     (if args = [''rev-parse'', ''--verify'', ''refs/heads/main''] \<or> args = [''rev-parse'', ''--verify'', ''refs/heads/w-1''] then Inr ''p1''
      else if args = [''status'', ''--porcelain''] then Inr [] else Inl ''fatal'')"
  "c_shelfEntries sample_clean p () = Some 0" "c_presence sample_clean p () = 0" "c_session sample_clean p b () = None"
  by (simp_all add: sample_clean_def IsAlive_def del: One_nat_def)

lemma sample_paths:
  "JoinPath [''/r'', ''.worktrees''] = ''/r/.worktrees''"
  "JoinPath [''/r/.worktrees'', ''.merge-w-p1-7''] = ''/r/.worktrees/.merge-w-p1-7''"
  "Base ''/r/.worktrees/.merge-w-p1-7'' = ''.merge-w-p1-7''"
  "transient_path ''/r'' BuildWorktreePrefix ''w'' ''p1'' 8 = ''/r/.worktrees/.merge-w-p1-8''"
  "Base ''/r/.worktrees/.merge-w-p1-8'' = ''.merge-w-p1-8''"
  by code_simp+

lemma sample_repos: "ScanRepos sample_clean ''/r'' () = [''/r'']"
  by (simp add: ScanRepos_def isRepoWithWorktrees_def sample_clean_simps)

lemma sample_default: "DefaultBranch sample_clean ''/r'' () = Inr ''main''"
  by (simp add: DefaultBranch_def BranchExists_def Run_git_ok_def Run_git_def sample_clean_simps)

lemma sample_worktrees: "''/r/.worktrees/.merge-w-p1-7'' \<in> set (ListWorktrees sample_clean ''/r'' ())"
  by (rule listed[OF sample_clean_simps(1) list.set_intros(1)])
    (simp_all only: WorktreesDir_def sample_paths IsWorktree_def sample_clean_simps list.set_intros simp_thms)

lemma sample_no_count:
  "\<not> Run_git_ok sample_clean dir (unintegrated_args sample_clean dir d b ()) ()"
  by (simp add: Run_git_ok_def Run_git_def unintegrated_args_def Let_def sample_clean_simps)

lemma sample_status: "StatusPorcelain sample_clean dir () = []"
proof -
  have t: "TrimSpace [] = []" by code_simp
  show ?thesis unfolding StatusPorcelain_def Run_git_def sample_clean_simps by (simp add: t)
qed

lemma sample_pid: "isTransientMergeWorktreeName ''.merge-w-p1-7''" "pidFromTransientWorktreeName ''.merge-w-p1-7'' = Some 7"
proof -
  show "isTransientMergeWorktreeName ''.merge-w-p1-7''" by (simp add: isTransientMergeWorktreeName_def BuildWorktreePrefix_def)
  have "Itoa 7 = ''7''" by code_simp
  then show "pidFromTransientWorktreeName ''.merge-w-p1-7'' = Some 7"
    using pid_read_back[of 7 "''.merge-w-p1''"] by simp
qed

lemma sample_removal:
  "GitRan ''/r'' [''worktree'', ''remove'', ''/r/.worktrees/.merge-w-p1-7'']
     \<in> set (done_since sample_scene (snd (CleanRun sample_clean ''/r'' False False True ''tap'' sample_scene)))"
proof -
  let ?p = "''/r/.worktrees/.merge-w-p1-7''"
  let ?wt = "scan_worktree sample_clean ''/r'' ''main'' () ?p"
  have w: "cs_world sample_scene = ()" by simp
  have "wt_merged ?wt \<and> \<not> wt_live ?wt \<and> \<not> wt_shelved ?wt \<and> \<not> wt_dirty ?wt \<and> wt_repoPath ?wt = ''/r'' \<and> wt_worktreePath ?wt = ?p"
    by (rule scan_unmade_branch) (simp_all add: sample_no_count sample_status sample_clean_simps)
  moreover have "?wt \<in> set (scanWorktrees sample_clean ''/r'' (cs_world sample_scene))"
    unfolding w by (rule scanned[OF _ sample_default _ sample_worktrees]) (simp_all add: sample_repos)
  ultimately show ?thesis
    using yes_removes[of ?wt sample_clean "''/r''" sample_scene False "''tap''"] by simp
qed

lemma clean_acts_only_on_a_yes_witness:
  "go_ahead sample_clean False True () \<and>
   cs_world (snd (CleanRun sample_clean ''/r'' False True True ''tap'' sample_scene)) = cs_world sample_scene"
proof
  let ?run = "CleanRun sample_clean ''/r'' False False True ''tap'' sample_scene"
  obtain res t where run: "?run = (res, t)" by fastforce
  have "\<not> talk (GitRan ''/r'' [''worktree'', ''remove'', ''/r/.worktrees/.merge-w-p1-7''])" by (simp add: talk_def)
  then show "go_ahead sample_clean False True ()"
    using clean_acts_only_on_a_yes[OF run] sample_removal[unfolded run snd_conv] by (simp add: sample_scene_def) blast
next
  obtain res t where run: "CleanRun sample_clean ''/r'' False True True ''tap'' sample_scene = (res, t)" by fastforce
  show "cs_world (snd (CleanRun sample_clean ''/r'' False True True ''tap'' sample_scene)) = cs_world sample_scene"
    using clean_acts_only_on_a_yes[OF run] by (simp add: run)
qed


lemma clean_removes_worktrees_of_running_merges_witness:
  "GitRan ''/r'' [''worktree'', ''remove'', ''/r/.worktrees/.merge-w-p1-7'']
     \<in> set (done_since sample_scene (snd (CleanRun sample_clean ''/r'' False False True ''tap'' sample_scene)))"
proof -
  have w: "cs_world sample_scene = ()" by simp
  note fact = clean_removes_worktrees_of_running_merges[of "''/r''" sample_clean "''/r''" sample_scene "''main''"
    "''/r/.worktrees/.merge-w-p1-7''" 7 False "''tap''"]
  show ?thesis
    by (rule conjunct1[OF fact])
      (simp_all only: w sample_repos sample_default sample_worktrees sample_no_count sample_status sample_clean_simps
        sample_paths sample_pid list.set_intros list.distinct simp_thms)
qed

lemma leftovers_are_those_of_dead_processes_witness:
  "\<exists>x \<in> set (findOrphanTransientWorktrees sample_clean ''/r'' ()). or_path x = ''/r/.worktrees/.merge-w-p1-8''"
proof -
  have r: "''/r'' = abs_path [''r'']" by code_simp
  have e: "\<forall>e \<in> set [''r'']. plain_elem e" by (simp add: plain_elem_def)
  have "(\<exists>x \<in> set (findOrphanTransientWorktrees sample_clean ''/r'' ()).
            or_repoPath x = ''/r'' \<and> or_name x = Base (transient_path ''/r'' BuildWorktreePrefix ''w'' ''p1'' 8) \<and>
            or_path x = transient_path ''/r'' BuildWorktreePrefix ''w'' ''p1'' 8) \<longleftrightarrow> \<not> IsAlive (c_machine sample_clean ()) 8"
    by (rule leftovers_are_those_of_dead_processes[OF r e, where entries = "[(''.merge-w-p1-7'', True), (''.merge-w-p1-8'', True), (''w'', True)]"])
      (simp_all add: sample_repos sample_paths sample_clean_simps del: JoinPath.simps)
  then show ?thesis unfolding sample_paths using sample_clean_simps(5) by blast
qed

lemma fork_name_is_found_witness: "ForkName sample_clean ''/r'' ''w'' () = Some ''w-2''"
proof -
  have taken: "fork_taken sample_clean ''/r'' () c \<longleftrightarrow> c = ''main'' \<or> c = ''w-1''" for c
    by (auto simp: fork_taken_def BranchExists_def RemoteBranchExists_def Run_git_ok_def Run_git_def sample_clean_simps)
  then have fin: "finite {c. fork_taken sample_clean ''/r'' () c}" by simp
  have i: "Itoa (int 1) = ''1''" "Itoa (int 2) = ''2''" by code_simp+
  from fork_name_is_found[OF fin, of "''w''"] obtain n where n: "n \<ge> 1"
    "ForkName sample_clean ''/r'' ''w'' () = Some (''w'' @ ''-'' @ Itoa (int n))"
    "\<not> fork_taken sample_clean ''/r'' () (''w'' @ ''-'' @ Itoa (int n))"
    "\<forall>m. 1 \<le> m \<and> m < n \<longrightarrow> fork_taken sample_clean ''/r'' () (''w'' @ ''-'' @ Itoa (int m))" by blast
  from n(3) i have "n \<noteq> 1" by (auto simp: taken)
  moreover have "\<not> 2 < n" using n(4)[rule_format, of 2] i by (auto simp: taken)
  ultimately have "n = 2" using n(1) by simp
  with n(2) i show ?thesis by simp
qed

lemma review_misreads_the_first_change_witness:
  "ParsePorcelain (StatusPorcelain (sample_clean\<lparr>c_gitRead := (\<lambda>_ _ _. Inr ('' M '' @ ''ab'' @ [CHR 0x0A]))\<rparr>) ''/r'' ()) =
     [\<lparr>fc_Code = ''M '', fc_Path = ''b''\<rparr>]"
  using review_misreads_the_first_change[of "sample_clean\<lparr>c_gitRead := (\<lambda>_ _ _. Inr ('' M '' @ ''ab'' @ [CHR 0x0A]))\<rparr>" "''/r''" "()" "''ab''"]
  by (simp add: space_encodings_def)

end
