(* ===== verification/SessionClose.thy ===== *)
theory SessionClose
  imports SessionClean
begin

text \<open>
  Closing a session (\<open>src/internal/delta/close/close.go\<close>) with the signal to its recorded process
  (\<open>src/internal/charlie/executor/close_signal.go\<close>): the refusals that protect unfinished work, the mark that
  keeps a restart out, the teardown in its order, and the close of a worktree git no longer has. It works
  in the world of the sweep (\<open>SessionClean\<close>) and on the same trace.
\<close>

section \<open>The world of a close\<close>

record shelfEntry =
  sh_ID :: int
  sh_Message :: string

record CloseSignal =
  sig_Signalled :: int
  sig_Note :: string
  sig_Unstopped :: bool

text \<open>
  \<open>k_quote\<close> is \<open>%q\<close> and \<open>k_format\<close> prints a time; \<open>k_record\<close> is the session's record read under its lock, and
  \<open>k_write\<close> writes it. A leftover directory that does not exist lists as empty.
\<close>

record 'w close_ops =
  k_clean :: "'w clean_ops"
  k_quote :: "string \<Rightarrow> string"
  k_format :: "Time \<Rightarrow> string"
  k_shelfCount :: "string \<Rightarrow> 'w \<Rightarrow> string + nat"
  k_shelfList :: "string \<Rightarrow> 'w \<Rightarrow> shelfEntry list option"
  k_record :: "string \<Rightarrow> string \<Rightarrow> 'w \<Rightarrow> string + State"
  k_write :: "State \<Rightarrow> 'w \<Rightarrow> string option \<times> 'w"
  k_stateDir :: "'w \<Rightarrow> string option"
  k_unitRecordPath :: "string \<Rightarrow> string \<Rightarrow> string"
  k_unitSpecPath :: "string \<Rightarrow> string \<Rightarrow> string"
  k_exists :: "string \<Rightarrow> 'w \<Rightarrow> bool"
  k_cwd :: "int \<Rightarrow> 'w \<Rightarrow> string option"
  k_environ :: "int \<Rightarrow> 'w \<Rightarrow> string option"
  k_hangup :: "int \<Rightarrow> 'w \<Rightarrow> string option \<times> 'w"
  k_wait :: "int \<Rightarrow> 'w \<Rightarrow> 'w"
  k_stopUnit :: "string \<Rightarrow> string \<Rightarrow> 'w \<Rightarrow> (bool \<times> string option) \<times> 'w"
  k_tombstone :: "string \<Rightarrow> string \<Rightarrow> string \<Rightarrow> 'w \<Rightarrow> string option \<times> 'w"
  k_leftovers :: "string \<Rightarrow> 'w \<Rightarrow> string + string list"

section \<open>The recorded process\<close>

definition hasUnitRecord :: "'w close_ops \<Rightarrow> string \<Rightarrow> 'w \<Rightarrow> bool" where
  "hasUnitRecord K worktree w =
     (if worktree = [] then False
      else (case k_stateDir K w of
              None \<Rightarrow> True
            | Some d \<Rightarrow> list_ex (\<lambda>p. k_exists K p w) [k_unitRecordPath K d worktree, k_unitSpecPath K d worktree]))"

definition pathWithin :: "string \<Rightarrow> string \<Rightarrow> bool" where
  "pathWithin p d = (case Rel (Clean d) (Clean p) of None \<Rightarrow> False | Some rel \<Rightarrow> rel \<noteq> ''..'' \<and> \<not> HasPrefix rel ''../'')"

text \<open>The environment is the process's, its entries ended by zero bytes.\<close>

definition pidBelongsToSession :: "'w close_ops \<Rightarrow> int \<Rightarrow> string \<Rightarrow> string \<Rightarrow> 'w \<Rightarrow> bool" where
  "pidBelongsToSession K pid worktree key w =
     (if worktree \<noteq> [] \<and> (case k_cwd K pid w of None \<Rightarrow> False | Some cwd \<Rightarrow> pathWithin cwd worktree) then True
      else if key = [] then False
      else (case k_environ K pid w of
              None \<Rightarrow> False
            | Some environ \<Rightarrow> list_ex (\<lambda>kv. kv = ''SPINCLASS_SESSION_ID='' @ key) (split1 (CHR 0x00) environ)))"

definition requestCloseOf :: "'w close_ops \<Rightarrow> State \<Rightarrow> 'w scene \<Rightarrow> CloseSignal \<times> 'w scene" where
  "requestCloseOf K st s =
     (let pid = s_PID st; w = cs_world s; silent = \<lparr>sig_Signalled = 0, sig_Note = [], sig_Unstopped = False\<rparr> in
      if pid \<le> 0 then (silent, s)
      else if hasUnitRecord K (s_WorktreePath st) w then
        (silent\<lparr>sig_Note := ''confined session: recorded pid '' @ Itoa pid @ '' not signalled; its agent unit is stopped instead''\<rparr>, s)
      else if \<not> IsAlive (c_machine (k_clean K) w) pid then (silent, s)
      else if \<not> pidBelongsToSession K pid (s_WorktreePath st) (s_SessionKey st) w then
        (silent\<lparr>sig_Unstopped := True, sig_Note := ''recorded pid '' @ Itoa pid @
           '' is not provably this session'' @ [CHR 0x27] @ ''s process (cwd outside the worktree, no session key in its environment); not signalled''\<rparr>, s)
      else (case perform (ProcessSignalled pid) (k_hangup K pid) s of
              (Some err, s) \<Rightarrow> (silent\<lparr>sig_Unstopped := True, sig_Note := ''signalling pid '' @ Itoa pid @ '': '' @ err\<rparr>, s)
            | (None, s) \<Rightarrow> (silent\<lparr>sig_Signalled := pid\<rparr>, s)))"

definition RequestClose :: "'w close_ops \<Rightarrow> string \<Rightarrow> string \<Rightarrow> 'w scene \<Rightarrow> CloseSignal \<times> 'w scene" where
  "RequestClose K repoPath branch s =
     (case c_session (k_clean K) repoPath branch (cs_world s) of
        None \<Rightarrow> (\<lparr>sig_Signalled = 0, sig_Note = [], sig_Unstopped = False\<rparr>, s)
      | Some st \<Rightarrow> requestCloseOf K st s)"

definition warn_diag :: "string \<Rightarrow> (string \<times> string) list" where
  "warn_diag message = [(''severity'', ''warn''), (''message'', message)]"

definition signalSessionProcess :: "'w close_ops \<Rightarrow> bool \<Rightarrow> string \<Rightarrow> string \<Rightarrow> 'w scene \<Rightarrow> 'w scene" where
  "signalSessionProcess K tap repoPath branch s =
     (case RequestClose K repoPath branch s of (sg, s) \<Rightarrow>
        (let desc = ''stop session process '' @ branch;
             message = sig_Note sg @ ''; if it is the session'' @ [CHR 0x27] @ ''s agent or frontend it is still running, so stop it by hand'';
             s = (if sig_Unstopped sg then
                    report tap (TapNotOk desc (warn_diag message)) (Stderr (''spinclass: '' @ desc @ '': '' @ message)) s
                  else if sig_Note sg \<noteq> [] then
                    report tap (TapComment (''close '' @ branch @ '': '' @ sig_Note sg)) (Stderr (''spinclass: close '' @ branch @ '': '' @ sig_Note sg)) s
                  else s) in
         s\<lparr>cs_world := (if sig_Signalled sg \<le> 0 then cs_world s else k_wait K (sig_Signalled sg) (cs_world s))\<rparr>))"

section \<open>The mark against a restart\<close>

text \<open>The record is read, judged and written under its lock; \<open>Some\<close> is the refusal.\<close>

definition beginClosing :: "'w close_ops \<Rightarrow> string \<Rightarrow> string \<Rightarrow> bool \<Rightarrow> 'w scene \<Rightarrow> string option \<times> 'w scene" where
  "beginClosing K repoPath branch force s =
     (let now = c_now (k_clean K) (cs_world s) in
      case k_record K repoPath branch (cs_world s) of
        Inl _ \<Rightarrow> (None, s)
      | Inr st \<Rightarrow>
          if \<not> force \<and> RestartInFlight st now then
            (let since = (case s_RestartingAt st of Some t \<Rightarrow> t | None \<Rightarrow> now) in
             (Some (''close '' @ branch @ '': a restart of this session is in flight (the frontend took it at '' @ k_format K since @
                ''); retry after '' @ k_format K (since + RestartInFlightWindow) @ '', or close with --force''), s))
          else (None, snd (perform ClosingMarked (k_write K (st\<lparr>s_ClosingAt := Some now\<rparr>)) s)))"

definition clearClosing :: "'w close_ops \<Rightarrow> string \<Rightarrow> string \<Rightarrow> 'w scene \<Rightarrow> 'w scene" where
  "clearClosing K repoPath branch s =
     (case k_record K repoPath branch (cs_world s) of
        Inl _ \<Rightarrow> s
      | Inr st \<Rightarrow> snd (perform ClosingCleared (k_write K (st\<lparr>s_ClosingAt := None\<rparr>)) s))"

definition stopConfinedUnit :: "'w close_ops \<Rightarrow> bool \<Rightarrow> string \<Rightarrow> string \<Rightarrow> bool \<Rightarrow> 'w scene \<Rightarrow> string option \<times> 'w scene" where
  "stopConfinedUnit K tap wtPath branch force s =
     (case k_stateDir K (cs_world s) of
        None \<Rightarrow> (None, s)
      | Some stateDir \<Rightarrow>
          (let desc = ''stop agent unit '' @ branch in
           case perform (UnitStopped wtPath) (k_stopUnit K stateDir wtPath) s of
             ((_, Some err), s) \<Rightarrow>
               if \<not> force then
                 (Some (''stopping the agent unit of '' @ branch @ '': '' @ err @ '' (use --force to close anyway)''),
                  report_tap tap (TapNotOk desc [(''error'', err)]) s)
               else (None, report tap (TapNotOk desc (warn_diag err)) (Stderr (''spinclass: '' @ desc @ '' failed: '' @ err)) s)
           | ((stopped, None), s) \<Rightarrow> (None, if stopped then report_tap tap (TapOk desc) s else s)))"

section \<open>Credentials and gc roots\<close>

definition activeKey :: "'w close_ops \<Rightarrow> string \<Rightarrow> string \<Rightarrow> 'w \<Rightarrow> string" where
  "activeKey K repoPath branch w =
     (case c_session (k_clean K) repoPath branch w of
        Some st \<Rightarrow> if s_SessionKey st \<noteq> [] then s_SessionKey st else Base repoPath @ ''/'' @ branch
      | None \<Rightarrow> Base repoPath @ ''/'' @ branch)"

definition close_revokeProfileBinding :: "'w close_ops \<Rightarrow> bool \<Rightarrow> string \<Rightarrow> string \<Rightarrow> 'w scene \<Rightarrow> 'w scene" where
  "close_revokeProfileBinding K tap branch key s =
     (case perform (BindingRevoked key) (c_revokeSession (k_clean K) key) s of
        (None, s) \<Rightarrow> s
      | (Some err, s) \<Rightarrow>
          (let desc = ''revoke profile binding '' @ branch in
           report tap (TapNotOk desc (warn_diag err)) (Stderr (''spinclass: '' @ desc @ '' failed: '' @ err)) s))"

definition close_revokeCredential :: "'w close_ops \<Rightarrow> bool \<Rightarrow> string \<Rightarrow> string \<Rightarrow> string \<Rightarrow> string \<Rightarrow> 'w scene \<Rightarrow> 'w scene" where
  "close_revokeCredential K tap repoPath wtPath branch key s =
     (let ident = \<lparr>id_RepoPath = repoPath, id_WorktreePath = wtPath, id_Branch = branch, id_SessionKey = key\<rparr>;
          desc = ''revoke credential '' @ branch in
      case perform (CredentialRevoked ident) (c_revoke (k_clean K) ident) s of (res, s) \<Rightarrow>
        (let s = (if ro_Note res \<noteq> [] then report tap (TapComment (desc @ '': '' @ ro_Note res)) (Stderr (''spinclass: '' @ desc @ '': '' @ ro_Note res)) s else s) in
         if \<not> ro_Ran res then
           report tap (TapSkip desc (ro_Skipped res)) (Stderr (''spinclass: '' @ desc @ '' skipped: '' @ ro_Skipped res)) s
         else (case ro_Err res of
                 Some err \<Rightarrow>
                   (let out = TrimSpace (ro_Output res) in
                    report tap (TapNotOk desc (warn_diag err @ (if out \<noteq> [] then [(''output'', out)] else [])))
                      (Stderr (''spinclass: '' @ desc @ '' failed: '' @ err)) s)
               | None \<Rightarrow> report_tap tap (TapOk desc) s)))"

text \<open>The setting that turns the gc off, overridden for one close.\<close>

definition planNixGC :: "'w close_ops \<Rightarrow> string \<Rightarrow> string \<Rightarrow> bool option \<Rightarrow> 'w \<Rightarrow> NixPlan option" where
  "planNixGC K repoPath wtPath gcOverride w =
     (let enabled = (case gcOverride of Some b \<Rightarrow> b | None \<Rightarrow> \<not> c_nixDisabled (k_clean K) repoPath wtPath w) in
      if \<not> enabled then None
      else (case c_nixPlan (k_clean K) wtPath w of
              None \<Rightarrow> None
            | Some plan \<Rightarrow> if length (np_Roots plan) = 0 then None else Some plan))"

section \<open>Unfinished work\<close>

definition describeShelf :: "nat \<Rightarrow> string" where
  "describeShelf shelved =
     Itoa (int shelved) @ '' stash '' @ (if shelved = 1 then ''entry'' else ''entries'') @ '' that would be lost with the worktree''"

definition describeUnintegrated :: "'w close_ops \<Rightarrow> string \<Rightarrow> bool \<Rightarrow> bool \<Rightarrow> nat \<Rightarrow> string" where
  "describeUnintegrated K branch unintegrated dirty shelved =
     (let b = ''Branch '' @ k_quote K branch;
          base = (if unintegrated \<and> dirty then b @ '' has unintegrated commits and uncommitted changes.''
                  else if unintegrated then b @ '' has commits not yet integrated into the default branch.''
                  else if dirty then b @ '' has uncommitted changes.'' else []);
          lost = describeShelf shelved in
      if shelved = 0 then base
      else if base = [] then b @ '' has '' @ lost @ ''.''
      else base @ '' It also has '' @ lost @ ''.'')"

definition shelfRecovery :: "'w close_ops \<Rightarrow> string \<Rightarrow> 'w \<Rightarrow> string" where
  "shelfRecovery K wtPath w =
     (case k_shelfList K wtPath w of
        Some (e # es) \<Rightarrow>
          (let names = map (\<lambda>e. ''entry '' @ Itoa (sh_ID e) @ '' ('' @ sh_Message e @ '')'') (e # es); n = Itoa (sh_ID e) in
           '' Stash: '' @ Join names '', '' @ ''. Recover one with grit_stash apply stash_ref='' @ n @ '', then grit_stash drop stash_ref='' @ n @
           ''; or drop it if it is not needed.'')
      | _ \<Rightarrow> [])"

definition warnShelfDiscarded :: "bool \<Rightarrow> string \<Rightarrow> nat \<Rightarrow> 'w scene \<Rightarrow> 'w scene" where
  "warnShelfDiscarded tap branch shelved =
     (let desc = ''discard stash shelf '' @ branch; message = ''discarding '' @ describeShelf shelved in
      report tap (TapNotOk desc (warn_diag message)) (Stderr (''spinclass: '' @ desc @ '': '' @ message)))"

definition has_unintegrated :: "'w close_ops \<Rightarrow> string \<Rightarrow> string \<Rightarrow> string \<Rightarrow> 'w \<Rightarrow> bool" where
  "has_unintegrated K repoPath wtPath branch w =
     (case DefaultBranch (k_clean K) repoPath w of
        Inl _ \<Rightarrow> False
      | Inr d \<Rightarrow> CommitsUnintegrated (k_clean K) wtPath d branch w > 0)"

definition is_dirty :: "'w close_ops \<Rightarrow> string \<Rightarrow> 'w \<Rightarrow> bool" where
  "is_dirty K wtPath w \<longleftrightarrow> StatusPorcelain (k_clean K) wtPath w \<noteq> []"

definition shelved_count :: "'w close_ops \<Rightarrow> string \<Rightarrow> 'w \<Rightarrow> nat" where
  "shelved_count K wtPath w = (case k_shelfCount K wtPath w of Inl _ \<Rightarrow> 0 | Inr n \<Rightarrow> n)"

text \<open>Why a close without force would be refused; the empty text when it would go through.\<close>

definition Blocker :: "'w close_ops \<Rightarrow> string \<Rightarrow> string \<Rightarrow> string \<Rightarrow> 'w \<Rightarrow> string + string" where
  "Blocker K repoPath wtPath branch w =
     (let unintegrated = has_unintegrated K repoPath wtPath branch w; dirty = is_dirty K wtPath w in
      case k_shelfCount K wtPath w of
        Inl err \<Rightarrow> Inl (''reading the stash shelf of '' @ branch @ '': '' @ err)
      | Inr shelved \<Rightarrow>
          if unintegrated \<or> dirty \<or> shelved > 0
          then Inr (describeUnintegrated K branch unintegrated dirty shelved @ shelfRecovery K wtPath w)
          else Inr [])"

section \<open>The teardown\<close>

text \<open>Stopping the agent and taking its rights away.\<close>

definition disarm :: "'w close_ops \<Rightarrow> bool \<Rightarrow> string \<Rightarrow> string \<Rightarrow> string \<Rightarrow> 'w scene \<Rightarrow> 'w scene" where
  "disarm K tap repoPath wtPath branch s =
     (let s = close_revokeCredential K tap repoPath wtPath branch (activeKey K repoPath branch (cs_world s)) s;
          s = effect (CredentialFileRemoved wtPath) (c_removeCredential (k_clean K) wtPath) s in
      close_revokeProfileBinding K tap branch (activeKey K repoPath branch (cs_world s)) s)"

definition bury :: "'w close_ops \<Rightarrow> string \<Rightarrow> string \<Rightarrow> string \<Rightarrow> 'w scene \<Rightarrow> 'w scene" where
  "bury K repoPath branch sha s =
     (case perform (Tombstoned repoPath branch sha) (k_tombstone K repoPath branch sha) s of
        (None, s) \<Rightarrow> s
      | (Some _, s) \<Rightarrow> effect (RecordRemoved repoPath branch) (c_sessionRemove (k_clean K) repoPath branch) s)"

definition remove_worktree_and_branch ::
  "'w close_ops \<Rightarrow> bool \<Rightarrow> string \<Rightarrow> string \<Rightarrow> string \<Rightarrow> bool option \<Rightarrow> 'w scene \<Rightarrow> string option \<times> 'w scene" where
  "remove_worktree_and_branch K tap repoPath wtPath branch gcOverride s =
     (let C = k_clean K; gcPlan = planNixGC K repoPath wtPath gcOverride (cs_world s);
          rm = [''worktree'', ''remove'', ''--force'', wtPath]; del = [''branch'', ''-D'', branch] in
      case perform (GitRan repoPath rm) (c_git C repoPath rm) s of
        (Inl err, s) \<Rightarrow>
          (Some (''removing worktree '' @ branch @ '': '' @ err), report_tap tap (TapNotOk (''remove worktree '' @ branch) [(''error'', err)]) s)
      | (Inr _, s) \<Rightarrow>
          (case perform (GitRan repoPath del) (c_git C repoPath del) s of
             (Inl err, s) \<Rightarrow>
               (Some (''deleting branch '' @ branch @ '': '' @ err), report_tap tap (TapNotOk (''delete branch '' @ branch) [(''error'', err)]) s)
           | (Inr _, s) \<Rightarrow>
               (let s = report_tap tap (TapOk (''close '' @ branch)) s in
                (None, case gcPlan of None \<Rightarrow> s | Some plan \<Rightarrow> runReap C tap plan branch s))))"

text \<open>The close once decided: marked, and the mark taken back by every way out before the tombstone.\<close>

definition decided ::
  "'w close_ops \<Rightarrow> bool \<Rightarrow> string \<Rightarrow> string \<Rightarrow> string \<Rightarrow> bool \<Rightarrow> bool option \<Rightarrow> 'w scene \<Rightarrow> string option \<times> 'w scene" where
  "decided K tap repoPath wtPath branch force gcOverride s =
     (case beginClosing K repoPath branch force s of
        (Some err, s) \<Rightarrow> (Some err, s)
      | (None, s) \<Rightarrow>
          (case stopConfinedUnit K tap wtPath branch force (signalSessionProcess K tap repoPath branch s) of
             (Some err, s) \<Rightarrow> (Some err, clearClosing K repoPath branch s)
           | (None, s) \<Rightarrow>
               (let s = disarm K tap repoPath wtPath branch s;
                    sha = (case Run_git (k_clean K) wtPath [''rev-parse'', ''HEAD''] (cs_world s) of Inl _ \<Rightarrow> [] | Inr sha \<Rightarrow> sha) in
                remove_worktree_and_branch K tap repoPath wtPath branch gcOverride (bury K repoPath branch sha s))))"

section \<open>A worktree git no longer has\<close>

definition vanishedLeftoversOK :: "string list" where "vanishedLeftoversOK = [''.tmp'', ''.spinclass'']"

definition worktree_slots :: "string \<Rightarrow> string" where
  "worktree_slots repoPath = JoinPath [Clean repoPath, ''.worktrees''] @ ''/''"

definition vanished_refusal :: "'w close_ops \<Rightarrow> string \<Rightarrow> string \<Rightarrow> string \<Rightarrow> bool \<Rightarrow> 'w \<Rightarrow> string option" where
  "vanished_refusal K repoPath wtPath branch force w =
     (let C = k_clean K; slots = worktree_slots repoPath in
      if \<not> HasPrefix (Clean wtPath) slots then
        Some (wtPath @ '' is not a git worktree and not under '' @ slots @ ''; refusing to close it as a vanished worktree'')
      else if c_lstatDir C (JoinPath [wtPath, ''.git'']) w \<noteq> None then
        Some (wtPath @ '' has a .git entry but is not a linked worktree; refusing to delete it'')
      else if (case c_session C repoPath branch w of None \<Rightarrow> True | Some st \<Rightarrow> s_isTombstone st) then
        Some (wtPath @ '' is not a git worktree and '' @ branch @ '' has no live session to close (already closed, or never recorded)'')
      else (case k_leftovers K wtPath w of
              Inl err \<Rightarrow> Some (''reading the leftover directory of '' @ branch @ '': '' @ err)
            | Inr entries \<Rightarrow>
                (let unexpected = filter (\<lambda>e. e \<notin> set vanishedLeftoversOK) entries in
                 if length unexpected > 0 \<and> \<not> force then
                   Some (''the worktree of '' @ branch @ '' is already gone from git, but '' @ wtPath @ '' still holds '' @ Join unexpected '', '' @
                     ''; inspect it, then use --force to close and delete it'')
                 else if BranchExists C repoPath branch w \<and> \<not> force \<and>
                         (case DefaultBranch C repoPath w of Inl _ \<Rightarrow> True | Inr d \<Rightarrow> CommitsUnintegrated C repoPath d branch w > 0) then
                   Some (''the worktree of '' @ branch @ '' is already gone from git, but its branch still has commits not on the default branch; '' @
                     ''merge them, or use --force to close and delete it'')
                 else None)))"

definition vanished_tip :: "'w close_ops \<Rightarrow> string \<Rightarrow> string \<Rightarrow> 'w \<Rightarrow> string" where
  "vanished_tip K repoPath branch w =
     (if BranchExists (k_clean K) repoPath branch w then
        (case Run_git (k_clean K) repoPath [''rev-parse'', ''--verify'', ''-q'', ''refs/heads/'' @ branch] w of Inl _ \<Rightarrow> [] | Inr sha \<Rightarrow> sha)
      else [])"

definition closeVanished :: "'w close_ops \<Rightarrow> bool \<Rightarrow> string \<Rightarrow> string \<Rightarrow> string \<Rightarrow> bool \<Rightarrow> 'w scene \<Rightarrow> string option \<times> 'w scene" where
  "closeVanished K tap repoPath wtPath branch force s =
     (let C = k_clean K; prune = [''worktree'', ''prune'']; del = [''branch'', ''-D'', branch];
          tip = vanished_tip K repoPath branch (cs_world s) in
      case vanished_refusal K repoPath wtPath branch force (cs_world s) of
        Some err \<Rightarrow> (Some err, s)
      | None \<Rightarrow>
          (case stopConfinedUnit K tap wtPath branch force (signalSessionProcess K tap repoPath branch s) of
             (Some err, s) \<Rightarrow> (Some err, s)
           | (None, s) \<Rightarrow>
               (let s = bury K repoPath branch tip (disarm K tap repoPath wtPath branch s) in
                case perform (TreeRemoved wtPath) (c_removeAll C wtPath) s of
                  (Some err, s) \<Rightarrow>
                    (Some (''removing the leftover directory of '' @ branch @ '': '' @ err),
                     report_tap tap (TapNotOk (''remove leftover directory '' @ branch) [(''error'', err)]) s)
                | (None, s) \<Rightarrow>
                    (let s = snd (perform (GitRan repoPath prune) (c_git C repoPath prune) s);
                         closed = (\<lambda>s. (None, report_tap tap (TapOk (''close '' @ branch @ '' (worktree already removed)'')) s)) in
                     if BranchExists C repoPath branch (cs_world s) then
                       (case perform (GitRan repoPath del) (c_git C repoPath del) s of
                          (Inl err, s) \<Rightarrow>
                            (Some (''deleting branch '' @ branch @ '': '' @ err), report_tap tap (TapNotOk (''delete branch '' @ branch) [(''error'', err), (''output'', [])]) s)
                        | (Inr _, s) \<Rightarrow> closed s)
                     else closed s))))"

section \<open>The close\<close>

definition runResolvedInto ::
  "'w close_ops \<Rightarrow> bool \<Rightarrow> string \<Rightarrow> string \<Rightarrow> string \<Rightarrow> bool \<Rightarrow> bool option \<Rightarrow> 'w scene \<Rightarrow> string option \<times> 'w scene" where
  "runResolvedInto K tap repoPath wtPath branch force gcOverride s =
     (let C = k_clean K; w = cs_world s in
      if \<not> IsWorktree C wtPath w then closeVanished K tap repoPath wtPath branch force s
      else
        (let unintegrated = has_unintegrated K repoPath wtPath branch w; dirty = is_dirty K wtPath w;
             shelved = shelved_count K wtPath w in
         case (k_shelfCount K wtPath w, force) of
           (Inl err, False) \<Rightarrow> (Some (''reading the stash shelf of '' @ branch @ '': '' @ err @ '' (use --force to close anyway)''), s)
         | _ \<Rightarrow>
             (let s = (if shelved > 0 \<and> force then warnShelfDiscarded tap branch shelved s else s);
                  reason = describeUnintegrated K branch unintegrated dirty shelved @ shelfRecovery K wtPath w in
              if (unintegrated \<or> dirty \<or> shelved > 0) \<and> \<not> force then
                (if \<not> c_interactive C (cs_world s) then
                   (Some (reason @ '' Close requires an interactive terminal to confirm; use --force to skip''), s)
                 else
                   (case perform (Prompted (reason @ '' Close anyway?'')) (c_confirm C (reason @ '' Close anyway?'')) s of
                      (Inl _, s) \<Rightarrow> (Some ''confirmation cancelled'', s)
                    | (Inr proceed, s) \<Rightarrow>
                        if \<not> proceed then (None, report_tap tap (TapSkip (''close '' @ branch) ''user declined'') s)
                        else decided K tap repoPath wtPath branch force gcOverride s))
              else decided K tap repoPath wtPath branch force gcOverride s)))"

definition RunResolved ::
  "'w close_ops \<Rightarrow> string \<Rightarrow> string \<Rightarrow> string \<Rightarrow> bool \<Rightarrow> bool option \<Rightarrow> string \<Rightarrow> 'w scene \<Rightarrow> string option \<times> 'w scene" where
  "RunResolved K repoPath wtPath branch force gcOverride format s =
     (let tap = (format = ''tap'') in
      case runResolvedInto K tap repoPath wtPath branch force gcOverride s of (err, s) \<Rightarrow> (err, report_tap tap TapPlan s))"

text \<open>
  Several targets in one document: each is resolved and closed on its own, and its verdict is the parent's
  point. A failed point inside, without a failed close, only shows in that point.
\<close>

fun failure_line :: "event \<Rightarrow> bool" where
  "failure_line (Said (TapNotOk _ _)) = True"
| "failure_line (Said (TapBlock _ _ (Some _))) = True"
| "failure_line _ = False"

definition close_one ::
  "'w close_ops \<Rightarrow> (string \<Rightarrow> 'w \<Rightarrow> string + string \<times> string \<times> string) \<Rightarrow> bool \<Rightarrow> bool \<Rightarrow> bool option \<Rightarrow> string \<Rightarrow>
   'w scene \<Rightarrow> bool \<times> 'w scene" where
  "close_one K resolve tap force gcOverride target s =
     (case resolve target (cs_world s) of
        Inl err \<Rightarrow>
          (False,
           if tap then fold say [TapSubtest target, TapNotOk (''resolve '' @ target) [(''error'', err)], TapPlan, TapNotOk target [(''error'', err)]] s
           else say (Stderr (''spinclass: '' @ target @ '': '' @ err)) s)
      | Inr (repoPath, wtPath, branch) \<Rightarrow>
          (let sub = report_tap tap (TapSubtest target) s in
           case runResolvedInto K tap repoPath wtPath branch force gcOverride sub of (res, t) \<Rightarrow>
             (let failing = list_ex failure_line (drop (length (cs_trace sub)) (cs_trace t)); t = report_tap tap TapPlan t in
              case res of
                Some err \<Rightarrow> (False, report tap (TapNotOk target [(''error'', err)]) (Stderr (''spinclass: '' @ target @ '': '' @ err)) t)
              | None \<Rightarrow> (True, report_tap tap (if failing then TapNotOk target [] else TapOk target) t))))"

fun close_each ::
  "'w close_ops \<Rightarrow> (string \<Rightarrow> 'w \<Rightarrow> string + string \<times> string \<times> string) \<Rightarrow> bool \<Rightarrow> bool \<Rightarrow> bool option \<Rightarrow> string list \<Rightarrow>
   'w scene \<Rightarrow> string list \<times> 'w scene" where
  "close_each K resolve tap force gcOverride [] s = ([], s)"
| "close_each K resolve tap force gcOverride (target # targets) s =
     (case close_one K resolve tap force gcOverride target s of (ok, s) \<Rightarrow>
        (case close_each K resolve tap force gcOverride targets s of (failed, s) \<Rightarrow>
           (if ok then failed else target # failed, s)))"

definition RunMany ::
  "'w close_ops \<Rightarrow> (string \<Rightarrow> 'w \<Rightarrow> string + string \<times> string \<times> string) \<Rightarrow> string list \<Rightarrow> bool \<Rightarrow> bool option \<Rightarrow> string \<Rightarrow>
   'w scene \<Rightarrow> string option \<times> 'w scene" where
  "RunMany K resolve targets force gcOverride format s =
     (let tap = (format = ''tap'') in
      case close_each K resolve tap force gcOverride targets s of (failed, s) \<Rightarrow>
        (if length failed > 0 then
           Some (''failed to close '' @ Itoa (int (length failed)) @ '' of '' @ Itoa (int (length targets)) @ '' sessions: '' @ Join failed '', '')
         else None,
         report_tap tap TapPlan s))"

section \<open>What a close may do\<close>

lemma onward_world: "onward P s t \<Longrightarrow> onward P s (t\<lparr>cs_world := w\<rparr>)"
  by (simp add: onward_def)

lemma onward_requestCloseOf [onward_rules]:
  "onward (judged Q T) s u \<Longrightarrow> onward (judged Q T) s (snd (requestCloseOf K st u))"
  unfolding requestCloseOf_def Let_def
  by (assumption | rule onward_rules | erule onward_via)+

lemma onward_RequestClose [onward_rules]:
  "onward (judged Q T) s u \<Longrightarrow> onward (judged Q T) s (snd (RequestClose K repoPath branch u))"
  unfolding RequestClose_def
  by (assumption | rule onward_rules | erule onward_via)+

lemma onward_signalSessionProcess [onward_rules]:
  "onward (judged Q T) s u \<Longrightarrow> onward (judged Q T) s (signalSessionProcess K tap repoPath branch u)"
  unfolding signalSessionProcess_def Let_def
  by (assumption | rule onward_rules onward_world | erule onward_via)+

lemma onward_beginClosing [onward_rules]:
  "onward (judged Q T) s u \<Longrightarrow> onward (judged Q T) s (snd (beginClosing K repoPath branch force u))"
  unfolding beginClosing_def Let_def
  by (assumption | rule onward_rules | erule onward_via)+

lemma onward_clearClosing [onward_rules]:
  "onward (judged Q T) s u \<Longrightarrow> onward (judged Q T) s (clearClosing K repoPath branch u)"
  unfolding clearClosing_def
  by (assumption | rule onward_rules | erule onward_via)+

lemma onward_stopConfinedUnit [onward_rules]:
  "onward (judged Q T) s u \<Longrightarrow> onward (judged Q T) s (snd (stopConfinedUnit K tap wtPath branch force u))"
  unfolding stopConfinedUnit_def Let_def
  by (assumption | rule onward_rules | erule onward_via)+

lemma onward_close_revokeProfileBinding [onward_rules]:
  "onward (judged Q T) s u \<Longrightarrow> onward (judged Q T) s (close_revokeProfileBinding K tap branch key u)"
  unfolding close_revokeProfileBinding_def Let_def
  by (assumption | rule onward_rules | erule onward_via)+

lemma onward_close_revokeCredential [onward_rules]:
  "onward (judged Q T) s u \<Longrightarrow> onward (judged Q T) s (close_revokeCredential K tap repoPath wtPath branch key u)"
  unfolding close_revokeCredential_def Let_def
  by (assumption | rule onward_rules | erule onward_via)+

lemma onward_disarm [onward_rules]:
  "onward (judged Q T) s u \<Longrightarrow> onward (judged Q T) s (disarm K tap repoPath wtPath branch u)"
  unfolding disarm_def Let_def
  by (assumption | rule onward_rules | erule onward_via)+

lemma onward_bury [onward_rules]:
  "onward (judged Q T) s u \<Longrightarrow> onward (judged Q T) s (bury K repoPath branch sha u)"
  unfolding bury_def
  by (assumption | rule onward_rules | erule onward_via)+

lemma onward_remove_worktree_and_branch [onward_rules]:
  assumes "Q repoPath [''worktree'', ''remove'', ''--force'', wtPath]" "Q repoPath [''branch'', ''-D'', branch]"
    and "onward (judged Q T) s u"
  shows "onward (judged Q T) s (snd (remove_worktree_and_branch K tap repoPath wtPath branch gcOverride u))"
  unfolding remove_worktree_and_branch_def Let_def
  by (insert assms(3)) (assumption | rule onward_rules assms(1,2) | erule onward_via)+

section \<open>The ways through a close\<close>

definition confirmed :: "'w clean_ops \<Rightarrow> 'w \<Rightarrow> bool" where
  "confirmed C w \<longleftrightarrow> c_interactive C w \<and> (\<exists>prompt. fst (c_confirm C prompt w) = Inr True)"

lemma describeUnintegrated_says:
  "u \<or> d \<or> n > 0 \<Longrightarrow> describeUnintegrated K branch u d n \<noteq> []"
  by (auto simp: describeUnintegrated_def Let_def)

lemma Blocker_clear:
  "Blocker K repoPath wtPath branch w = Inr [] \<longleftrightarrow>
     \<not> has_unintegrated K repoPath wtPath branch w \<and> \<not> is_dirty K wtPath w \<and> k_shelfCount K wtPath w = Inr 0"
  using describeUnintegrated_says[of "has_unintegrated K repoPath wtPath branch w" "is_dirty K wtPath w" _ K branch]
  by (auto simp: Blocker_def Let_def split: sum.splits)

lemma warnShelf_world: "cs_world (warnShelfDiscarded tap branch n s) = cs_world s"
  by (simp add: warnShelfDiscarded_def Let_def)

lemma onward_warnShelf: "onward talk s (warnShelfDiscarded tap branch n s)"
  unfolding warnShelfDiscarded_def Let_def by (intro onward_report onward_refl talk_simps)

lemma runResolved_ways:
  assumes run: "runResolvedInto K tap repoPath wtPath branch force gcOverride s = (res, t)"
    and wt: "IsWorktree (k_clean K) wtPath (cs_world s)"
  obtains (talked) "onward talk s t"
  | (decided) u where "onward talk s u" "decided K tap repoPath wtPath branch force gcOverride u = (res, t)"
      "force \<or> Blocker K repoPath wtPath branch (cs_world s) = Inr [] \<or> confirmed (k_clean K) (cs_world s)"
proof -
  let ?C = "k_clean K" and ?w = "cs_world s"
  let ?u = "has_unintegrated K repoPath wtPath branch ?w" and ?d = "is_dirty K wtPath ?w" and ?n = "shelved_count K wtPath ?w"
  note run = run[unfolded runResolvedInto_def Let_def, simplified wt not_True_eq_False if_False]
  show thesis
  proof (cases force)
    case True
    define v where "v = (if ?n > 0 then warnShelfDiscarded tap branch ?n s else s)"
    have "onward talk s v" by (simp add: v_def onward_warnShelf)
    moreover have "decided K tap repoPath wtPath branch force gcOverride v = (res, t)"
      using run True by (auto simp: v_def split: sum.splits)
    ultimately show thesis using True by (intro decided) auto
  next
    case False
    show thesis
    proof (cases "k_shelfCount K wtPath ?w")
      case (Inl err)
      with run False have "t = s" by simp
      then show thesis by (intro talked) simp
    next
      case (Inr n)
      then have n: "?n = n" by (simp add: shelved_count_def)
      show thesis
      proof (cases "?u \<or> ?d \<or> n > 0")
        case clear: False
        with run False Inr n have "decided K tap repoPath wtPath branch force gcOverride s = (res, t)" by simp
        moreover have "Blocker K repoPath wtPath branch ?w = Inr []" using clear Inr by (simp add: Blocker_clear)
        ultimately show thesis by (intro decided) auto
      next
        case blocked: True
        define reason where "reason = describeUnintegrated K branch ?u ?d n @ shelfRecovery K wtPath ?w"
        obtain ans v where p: "perform (Prompted (reason @ '' Close anyway?'')) (c_confirm ?C (reason @ '' Close anyway?'')) s = (ans, v)"
          by fastforce
        have v: "onward talk s v"
          using onward_perform_snd[of talk s s "Prompted (reason @ '' Close anyway?'')"] p by (metis onward_refl snd_conv talk_simps(2))
        have run': "(if \<not> c_interactive ?C ?w then
             (Some (reason @ '' Close requires an interactive terminal to confirm; use --force to skip''), s)
           else (case (ans, v) of
               (Inl _, s) \<Rightarrow> (Some ''confirmation cancelled'', s)
             | (Inr proceed, s) \<Rightarrow>
                 if \<not> proceed then (None, report_tap tap (TapSkip (''close '' @ branch) ''user declined'') s)
                 else decided K tap repoPath wtPath branch force gcOverride s)) = (res, t)"
          using run False Inr blocked unfolding n by (simp only: reason_def[symmetric] p sum.case prod.case if_True if_False simp_thms bool.case)
        show thesis
        proof (cases "c_interactive ?C ?w \<and> ans = Inr True")
          case True
          then have "confirmed ?C ?w"
            using p by (auto simp: confirmed_def perform_def split: prod.splits intro!: exI[of _ "reason @ '' Close anyway?''"])
          moreover from run' True have "decided K tap repoPath wtPath branch force gcOverride v = (res, t)" by simp
          ultimately show thesis using v by (intro decided) auto
        next
          case False
          from run' False v have "onward talk s t"
            by (auto split: if_splits sum.splits intro: onward_report_tap)
          then show thesis by (rule talked)
        qed
      qed
    qed
  qed
qed

section \<open>The order of a teardown\<close>

text \<open>No command of git that writes has been run.\<close>

abbreviation gitless :: "event \<Rightarrow> bool" where "gitless \<equiv> judged (\<lambda>_ _. False) (\<lambda>_. False)"

lemma onward_talk_gitless: "onward talk s t \<Longrightarrow> onward gitless s t"
  by (rule onward_talk)

lemma done_mono:
  assumes "onward P s t" "onward P' t u"
  shows "set (done_since s t) \<subseteq> set (done_since s u)" "set (done_since t u) \<subseteq> set (done_since s u)"
  unfolding done_since_trans[OF assms] by simp_all

lemma onward_performed: "perform ev f s = (x, t) \<Longrightarrow> P ev \<Longrightarrow> onward P s t"
  by (auto simp: perform_def onward_def split: prod.splits)

lemma bury_does: "Tombstoned repoPath branch sha \<in> set (done_since s (bury K repoPath branch sha s))"
proof -
  obtain r t where p: "perform (Tombstoned repoPath branch sha) (k_tombstone K repoPath branch sha) s = (r, t)" by fastforce
  have s: "onward gitless s t" by (rule onward_performed[OF p]) simp
  have "onward gitless t (bury K repoPath branch sha s)"
    unfolding bury_def p prod.case by (assumption | rule onward_refl onward_rules | erule onward_via)+
  from done_mono(1)[OF s this] done_perform[OF p] show ?thesis by auto
qed

lemma disarm_does:
  "\<exists>ident key. {CredentialRevoked ident, CredentialFileRemoved wtPath, BindingRevoked key} \<subseteq> set (done_since s (disarm K tap repoPath wtPath branch s))"
proof -
  define key where "key = activeKey K repoPath branch (cs_world s)"
  define ident where "ident = \<lparr>id_RepoPath = repoPath, id_WorktreePath = wtPath, id_Branch = branch, id_SessionKey = key\<rparr>"
  define a where "a = close_revokeCredential K tap repoPath wtPath branch key s"
  define b where "b = effect (CredentialFileRemoved wtPath) (c_removeCredential (k_clean K) wtPath) a"
  define key' where "key' = activeKey K repoPath branch (cs_world b)"
  define d where "d = close_revokeProfileBinding K tap branch key' b"
  have d: "disarm K tap repoPath wtPath branch s = d"
    by (simp add: disarm_def Let_def d_def b_def a_def key_def key'_def)
  obtain r t where p: "perform (CredentialRevoked ident) (c_revoke (k_clean K) ident) s = (r, t)" by fastforce
  have st: "onward gitless s t" by (rule onward_performed[OF p]) simp
  have ta: "onward gitless t a"
    unfolding a_def close_revokeCredential_def Let_def ident_def[symmetric] p prod.case
    by (assumption | rule onward_refl onward_rules | erule onward_via)+
  have ab: "onward gitless a b" unfolding b_def by (rule onward_refl onward_rules)+
  obtain r' t' where p': "perform (BindingRevoked key') (c_revokeSession (k_clean K) key') b = (r', t')" by fastforce
  have bt: "onward gitless b t'" by (rule onward_performed[OF p']) simp
  have td: "onward gitless t' d"
    unfolding d_def close_revokeProfileBinding_def Let_def p' prod.case
    by (assumption | rule onward_refl onward_rules | erule onward_via)+
  have sb: "onward gitless s b" using st ta ab onward_trans by blast
  have bd: "onward gitless b d" using bt td onward_trans by blast
  have "done_since a b = [CredentialFileRemoved wtPath]" by (simp add: b_def effect_def done_since_def)
  moreover have "onward gitless s a" using st ta onward_trans by blast
  ultimately have "CredentialFileRemoved wtPath \<in> set (done_since s b)"
    using done_since_trans[OF _ ab, of gitless s] by simp
  moreover have "CredentialRevoked ident \<in> set (done_since s b)"
    using done_perform[OF p] done_since_trans[OF st onward_trans[OF ta ab]] by simp
  moreover have "BindingRevoked key' \<in> set (done_since b d)"
    using done_perform[OF p'] done_since_trans[OF bt td] by simp
  ultimately have "{CredentialRevoked ident, CredentialFileRemoved wtPath, BindingRevoked key'} \<subseteq> set (done_since s d)"
    using done_since_trans[OF sb bd] by auto
  then show ?thesis unfolding d by blast
qed

lemma decided_ways:
  assumes "decided K tap repoPath wtPath branch force gcOverride s = (res, t)"
  obtains (refused) err where "beginClosing K repoPath branch force s = (Some err, t)" "res = Some err"
  | (unstopped) err u where "onward gitless (snd (beginClosing K repoPath branch force s)) u" "\<not> force" "res = Some err"
      "t = clearClosing K repoPath branch u" "\<exists>w. k_stateDir K w \<noteq> None"
  | (torn) sha u v where "onward gitless (snd (beginClosing K repoPath branch force s)) u"
      "v = bury K repoPath branch sha (disarm K tap repoPath wtPath branch u)"
      "(res, t) = remove_worktree_and_branch K tap repoPath wtPath branch gcOverride v"
      "fst (beginClosing K repoPath branch force s) = None"
proof -
  obtain r b where bg: "beginClosing K repoPath branch force s = (r, b)" by fastforce
  show thesis
  proof (cases r)
    case (Some err)
    with assms bg show thesis by (intro refused) (auto simp: decided_def)
  next
    case None
    obtain r' u where st: "stopConfinedUnit K tap wtPath branch force (signalSessionProcess K tap repoPath branch b) = (r', u)" by fastforce
    have u: "onward gitless b u"
      by (rule onward_via[OF st]) (intro onward_stopConfinedUnit onward_signalSessionProcess onward_refl)
    show thesis
    proof (cases r')
      case (Some err)
      have "\<not> force" "k_stateDir K (cs_world (signalSessionProcess K tap repoPath branch b)) \<noteq> None"
        using st Some by (auto simp: stopConfinedUnit_def Let_def split: option.splits prod.splits if_splits)
      with Some assms bg None st u show thesis by (intro unstopped) (auto simp: decided_def)
    next
      case r': None
      define sha where "sha = (case Run_git (k_clean K) wtPath [''rev-parse'', ''HEAD''] (cs_world (disarm K tap repoPath wtPath branch u)) of
        Inl _ \<Rightarrow> [] | Inr sha \<Rightarrow> sha)"
      have "(res, t) = remove_worktree_and_branch K tap repoPath wtPath branch gcOverride (bury K repoPath branch sha (disarm K tap repoPath wtPath branch u))"
        using assms bg None st r' by (simp add: decided_def Let_def sha_def)
      then show thesis using u bg None by (intro torn[OF _ refl, where sha = sha]) simp_all
    qed
  qed
qed

lemma before_first:
  assumes "onward gitless s v" "onward P v t" "done_since s t = pre @ GitRan d a # post"
  shows "set (done_since s v) \<subseteq> set pre"
proof -
  have eq: "done_since s v @ done_since v t = pre @ GitRan d a # post"
    using done_since_trans[OF assms(1,2)] assms(3) by simp
  have no: "GitRan d a \<notin> set (done_since s v)"
    using onward_done[OF assms(1)] by fastforce
  from eq obtain us where "done_since s v = pre @ us \<and> us @ done_since v t = GitRan d a # post \<or>
      done_since s v @ us = pre \<and> done_since v t = us @ GitRan d a # post"
    unfolding append_eq_append_conv2 by blast
  then show ?thesis
  proof
    assume h: "done_since s v = pre @ us \<and> us @ done_since v t = GitRan d a # post"
    with no have "us = []" by (cases us) auto
    with h show ?thesis by simp
  qed auto
qed

lemma onward_begin: "onward gitless s (snd (beginClosing K repoPath branch force s))"
  by (intro onward_beginClosing onward_refl)

lemma onward_torn:
  assumes "(res, t) = remove_worktree_and_branch K tap repoPath wtPath branch gcOverride v"
  shows "onward anything v t"
proof -
  have "onward anything v (snd (remove_worktree_and_branch K tap repoPath wtPath branch gcOverride v))"
    by (intro onward_remove_worktree_and_branch onward_refl TrueI)
  with assms show ?thesis by (metis snd_conv)
qed

lemma torn_runs:
  assumes "(res, t) = remove_worktree_and_branch K tap repoPath wtPath branch gcOverride v"
  shows "GitRan repoPath [''worktree'', ''remove'', ''--force'', wtPath] \<in> set (done_since v t)"
proof -
  define ev where "ev = GitRan repoPath [''worktree'', ''remove'', ''--force'', wtPath]"
  obtain x u where p: "perform ev (c_git (k_clean K) repoPath [''worktree'', ''remove'', ''--force'', wtPath]) v = (x, u)" by fastforce
  have vu: "onward anything v u" by (rule onward_performed[OF p]) (simp add: ev_def)
  have "onward anything u (snd (remove_worktree_and_branch K tap repoPath wtPath branch gcOverride v))"
    unfolding remove_worktree_and_branch_def Let_def ev_def[symmetric] p prod.case
    by (assumption | rule onward_refl TrueI onward_rules | erule onward_via)+
  with assms have "onward anything u t" by (metis snd_conv)
  from done_mono(1)[OF vu this] done_perform[OF p] show ?thesis by (auto simp: ev_def)
qed

lemma begin_marks:
  assumes "k_record K repoPath branch (cs_world s) = Inr st" "fst (beginClosing K repoPath branch force s) = None"
  shows "ClosingMarked \<in> set (done_since s (snd (beginClosing K repoPath branch force s)))"
  using assms by (auto simp: beginClosing_def Let_def perform_def done_since_def split: prod.split if_splits)

lemma closes:
  assumes "IsWorktree (k_clean K) wtPath (cs_world s)" "\<not> has_unintegrated K repoPath wtPath branch (cs_world s)"
    and "\<not> is_dirty K wtPath (cs_world s)" "k_shelfCount K wtPath (cs_world s) = Inr 0"
    and "fst (beginClosing K repoPath branch False s) = None" "k_stateDir K = (\<lambda>_. None)"
  shows "GitRan repoPath [''worktree'', ''remove'', ''--force'', wtPath]
           \<in> set (done_since s (snd (runResolvedInto K tap repoPath wtPath branch False gcOverride s)))"
    and "k_record K repoPath branch (cs_world s) = Inr st \<Longrightarrow>
         ClosingMarked \<in> set (done_since s (snd (runResolvedInto K tap repoPath wtPath branch False gcOverride s)))"
proof -
  obtain res t where d: "decided K tap repoPath wtPath branch False gcOverride s = (res, t)" by fastforce
  have run: "runResolvedInto K tap repoPath wtPath branch False gcOverride s = (res, t)"
    using assms(1-4) d by (simp add: runResolvedInto_def Let_def shelved_count_def)
  let ?b = "snd (beginClosing K repoPath branch False s)"
  have "\<exists>u v. onward gitless ?b u \<and> onward gitless u v \<and> onward anything v t \<and>
    GitRan repoPath [''worktree'', ''remove'', ''--force'', wtPath] \<in> set (done_since v t)"
    using d
  proof (cases rule: decided_ways)
    case (torn sha u v)
    have "onward gitless u v" unfolding torn(2) by (intro onward_bury onward_disarm onward_refl)
    with torn(1) onward_torn[OF torn(3)] torn_runs[OF torn(3)] show ?thesis by blast
  qed (use assms(5,6) in simp_all)
  then obtain u v where uv: "onward gitless ?b u" "onward gitless u v" "onward anything v t"
    "GitRan repoPath [''worktree'', ''remove'', ''--force'', wtPath] \<in> set (done_since v t)" by blast
  have bv: "onward gitless ?b v" using uv(1,2) by (rule onward_trans)
  have sv: "onward gitless s v" using onward_begin bv by (rule onward_trans)
  show "GitRan repoPath [''worktree'', ''remove'', ''--force'', wtPath]
      \<in> set (done_since s (snd (runResolvedInto K tap repoPath wtPath branch False gcOverride s)))"
    unfolding run snd_conv using done_mono(2)[OF sv uv(3)] uv(4) by blast
  show "ClosingMarked \<in> set (done_since s (snd (runResolvedInto K tap repoPath wtPath branch False gcOverride s)))"
    if r: "k_record K repoPath branch (cs_world s) = Inr st"
  proof -
    have "ClosingMarked \<in> set (done_since s ?b)" by (rule begin_marks[OF r assms(5)])
    then have "ClosingMarked \<in> set (done_since s v)" using done_mono(1)[OF onward_begin bv] by blast
    then show ?thesis unfolding run snd_conv using done_mono(1)[OF sv uv(3)] by blast
  qed
qed

lemma onward_closeVanished:
  assumes "T wtPath" and "onward (judged (\<lambda>_ _. True) T) s u"
  shows "onward (judged (\<lambda>_ _. True) T) s (snd (closeVanished K tap repoPath wtPath branch force u))"
  unfolding closeVanished_def Let_def
  by (insert assms(2)) (assumption | rule onward_rules TrueI assms(1) | erule onward_via)+

lemma vanished_removes:
  assumes "vanished_refusal K repoPath wtPath branch force (cs_world s) = None" "k_stateDir K = (\<lambda>_. None)"
  shows "TreeRemoved wtPath \<in> set (done_since s (snd (closeVanished K tap repoPath wtPath branch force s)))"
proof -
  define u where "u = bury K repoPath branch (vanished_tip K repoPath branch (cs_world s))
    (disarm K tap repoPath wtPath branch (signalSessionProcess K tap repoPath branch s))"
  obtain r v where p: "perform (TreeRemoved wtPath) (c_removeAll (k_clean K) wtPath) u = (r, v)" by fastforce
  have stop: "stopConfinedUnit K tap wtPath branch force x = (None, x)" for x
    by (simp add: stopConfinedUnit_def assms(2))
  have su: "onward anything s u"
    unfolding u_def by (intro onward_bury onward_disarm onward_signalSessionProcess onward_refl)
  have uv: "onward anything u v" by (rule onward_performed[OF p]) simp
  have "onward anything v (snd (closeVanished K tap repoPath wtPath branch force s))"
    unfolding closeVanished_def Let_def assms(1) option.case stop prod.case u_def[symmetric] p
    by (assumption | rule onward_refl onward_rules TrueI | erule onward_via)+
  from done_mono(1)[OF onward_trans[OF su uv] this] done_mono(2)[OF su uv] done_perform[OF p] show ?thesis by auto
qed

section \<open>Properties of a close\<close>

text \<open>
  C16. A close of an existing worktree without force does something only if nothing blocks it (no
  unintegrated commits found, no uncommitted changes, an empty readable shelf) or a user on a terminal
  confirmed it.
\<close>

theorem close_needs_finished_work:
  assumes "runResolvedInto K tap repoPath wtPath branch False gcOverride s = (res, t)"
    and "IsWorktree (k_clean K) wtPath (cs_world s)" and "ev \<in> set (done_since s t)" "\<not> talk ev"
  shows "Blocker K repoPath wtPath branch (cs_world s) = Inr [] \<or> confirmed (k_clean K) (cs_world s)"
  using assms(1,2)
proof (cases rule: runResolved_ways)
  case talked
  from onward_done[OF this assms(3)] assms(4) show ?thesis by simp
qed simp

text \<open>
  C26. When a close of an existing worktree first has git change something, the session's tombstone has been
  asked for and its credential, its credential file and its profile binding have been dealt with.
\<close>

theorem close_buries_before_it_removes:
  assumes run: "runResolvedInto K tap repoPath wtPath branch force gcOverride s = (res, t)"
    and wt: "IsWorktree (k_clean K) wtPath (cs_world s)"
    and first: "done_since s t = pre @ GitRan dir args # post"
  shows "\<exists>sha ident key. {Tombstoned repoPath branch sha, CredentialRevoked ident, CredentialFileRemoved wtPath, BindingRevoked key} \<subseteq> set pre"
proof -
  have ev: "GitRan dir args \<in> set (done_since s t)" by (simp add: first)
  have no: "\<not> onward gitless s t" using onward_done[OF _ ev, of gitless] by auto
  from run wt show ?thesis
  proof (cases rule: runResolved_ways)
    case talked
    with no onward_talk_gitless show ?thesis by blast
  next
    case (decided u)
    have su: "onward gitless s u" by (rule onward_talk_gitless[OF decided(1)])
    have sb: "onward gitless s (snd (beginClosing K repoPath branch force u))"
      using su onward_begin onward_trans by blast
    from decided(2) show ?thesis
    proof (cases rule: decided_ways)
      case (refused err)
      with sb no show ?thesis by simp
    next
      case (unstopped err x)
      have "onward gitless s x" using sb unstopped(1) onward_trans by blast
      then have "onward gitless s t" unfolding unstopped(4) by (rule onward_clearClosing)
      with no show ?thesis by simp
    next
      case (torn sha x v)
      have sx: "onward gitless s x" using sb torn(1) onward_trans by blast
      let ?d = "disarm K tap repoPath wtPath branch x"
      have xd: "onward gitless x ?d" by (intro onward_disarm onward_refl)
      have dv: "onward gitless ?d v" unfolding torn(2) by (intro onward_bury onward_refl)
      obtain ident key where d: "{CredentialRevoked ident, CredentialFileRemoved wtPath, BindingRevoked key} \<subseteq> set (done_since x ?d)"
        using disarm_does by blast
      have b: "Tombstoned repoPath branch sha \<in> set (done_since ?d v)" unfolding torn(2) by (rule bury_does)
      have sv: "onward gitless s v" using sx xd dv onward_trans by blast
      have "set (done_since x ?d) \<union> set (done_since ?d v) \<subseteq> set (done_since s v)"
        using done_since_trans[OF sx onward_trans[OF xd dv]] done_since_trans[OF xd dv] by auto
      moreover have "set (done_since s v) \<subseteq> set pre"
        by (rule before_first[OF sv onward_torn[OF torn(3)] first])
      ultimately show ?thesis using d b by blast
    qed
  qed
qed

text \<open>
  A close that has marked its session as closing ends with the session's tombstone asked for or the
  mark taken back, unless the record cannot be read any more.
\<close>

theorem closing_mark_is_settled:
  assumes run: "runResolvedInto K tap repoPath wtPath branch force gcOverride s = (res, t)"
    and wt: "IsWorktree (k_clean K) wtPath (cs_world s)" and marked: "ClosingMarked \<in> set (done_since s t)"
  shows "(\<exists>sha. Tombstoned repoPath branch sha \<in> set (done_since s t)) \<or> ClosingCleared \<in> set (done_since s t) \<or>
         (\<exists>e. k_record K repoPath branch (cs_world t) = Inl e)"
  using run wt
proof (cases rule: runResolved_ways)
  case talked
  from onward_done[OF this marked] show ?thesis by (simp add: talk_def)
next
  case (decided u)
  have su: "onward gitless s u" by (rule onward_talk_gitless[OF decided(1)])
  from decided(2) show ?thesis
  proof (cases rule: decided_ways)
    case (refused err)
    then have "t = u" by (auto simp: beginClosing_def Let_def split: sum.splits if_splits)
    with onward_done[OF decided(1)] marked show ?thesis by (fastforce simp: talk_def)
  next
    case (unstopped err x)
    have sx: "onward gitless s x" using su onward_begin unstopped(1) onward_trans by blast
    have xt: "onward gitless x t" unfolding unstopped(4) by (intro onward_clearClosing onward_refl)
    show ?thesis
    proof (cases "k_record K repoPath branch (cs_world x)")
      case (Inl e)
      then show ?thesis unfolding unstopped(4) by (simp add: clearClosing_def)
    next
      case (Inr st)
      then have "ClosingCleared \<in> set (done_since x t)"
        unfolding unstopped(4) by (auto simp: clearClosing_def perform_def done_since_def split: prod.split)
      then show ?thesis using done_mono(2)[OF sx xt] by blast
    qed
  next
    case (torn sha x v)
    let ?d = "disarm K tap repoPath wtPath branch x"
    have "onward gitless s x" using su onward_begin torn(1) onward_trans by blast
    then have sd: "onward gitless s ?d" by (rule onward_disarm)
    have dv: "onward gitless ?d v" unfolding torn(2) by (intro onward_bury onward_refl)
    have "Tombstoned repoPath branch sha \<in> set (done_since ?d v)" unfolding torn(2) by (rule bury_does)
    then have "Tombstoned repoPath branch sha \<in> set (done_since s v)" using done_mono(2)[OF sd dv] by blast
    then show ?thesis using done_mono(1)[OF onward_trans[OF sd dv] onward_torn[OF torn(3)]] by blast
  qed
qed

text \<open>
  Where both a main and a master branch exist, a close without force does not ask whether the session's
  commits are integrated: with a clean worktree and an empty shelf it goes through to the removal by force,
  whatever the session committed.
\<close>

theorem close_drops_commits_without_a_default_branch:
  assumes "IsWorktree (k_clean K) wtPath (cs_world s)"
    and "BranchExists (k_clean K) repoPath ''main'' (cs_world s)" "BranchExists (k_clean K) repoPath ''master'' (cs_world s)"
    and "StatusPorcelain (k_clean K) wtPath (cs_world s) = []" "k_shelfCount K wtPath (cs_world s) = Inr 0"
    and "fst (beginClosing K repoPath branch False s) = None" "k_stateDir K = (\<lambda>_. None)"
    and "CommitsUnintegrated (k_clean K) wtPath ''main'' branch (cs_world s) > 0"
  shows "GitRan repoPath [''worktree'', ''remove'', ''--force'', wtPath]
           \<in> set (done_since s (snd (runResolvedInto K tap repoPath wtPath branch False gcOverride s)))"
proof (rule closes(1))
  show "\<not> has_unintegrated K repoPath wtPath branch (cs_world s)"
    using assms(2,3) by (simp add: has_unintegrated_def DefaultBranch_def Let_def)
  show "\<not> is_dirty K wtPath (cs_world s)" using assms(4) by (simp add: is_dirty_def)
qed (use assms in auto)

text \<open>
  A close deletes a directory only when git has no worktree there, and then only the session's own
  path, under the repository's worktree directory, without any git entry; without force it holds nothing
  but the session's scratch and the surviving branch is known to be integrated.
\<close>

theorem close_deletes_only_a_vanished_slot:
  assumes run: "runResolvedInto K tap repoPath wtPath branch force gcOverride s = (res, t)"
    and removed: "TreeRemoved path \<in> set (done_since s t)"
  shows "path = wtPath \<and> \<not> IsWorktree (k_clean K) wtPath (cs_world s) \<and> HasPrefix (Clean wtPath) (worktree_slots repoPath) \<and>
         c_lstatDir (k_clean K) (JoinPath [wtPath, ''.git'']) (cs_world s) = None \<and>
         (\<not> force \<longrightarrow> (\<exists>entries. k_leftovers K wtPath (cs_world s) = Inr entries \<and> set entries \<subseteq> {''.tmp'', ''.spinclass''}) \<and>
            (BranchExists (k_clean K) repoPath branch (cs_world s) \<longrightarrow>
               (\<exists>d. DefaultBranch (k_clean K) repoPath (cs_world s) = Inr d \<and>
                    CommitsUnintegrated (k_clean K) repoPath d branch (cs_world s) \<le> 0)))"
proof -
  have gone: "\<not> IsWorktree (k_clean K) wtPath (cs_world s)"
  proof
    assume wt: "IsWorktree (k_clean K) wtPath (cs_world s)"
    let ?P = "judged (\<lambda>_ _. True) (\<lambda>_. False)"
    have "onward ?P s t"
      using run wt
    proof (cases rule: runResolved_ways)
      case talked
      then show ?thesis by (rule onward_talk)
    next
      case (decided u)
      have "onward ?P u (snd (decided K tap repoPath wtPath branch force gcOverride u))"
        unfolding decided_def Let_def
        by (assumption | rule onward_refl onward_rules TrueI | erule onward_via)+
      with onward_talk[OF decided(1)] decided(2) show ?thesis using onward_trans by (metis snd_conv)
    qed
    from onward_done[OF this removed] show False by simp
  qed
  have v: "closeVanished K tap repoPath wtPath branch force s = (res, t)"
    using run gone by (simp add: runResolvedInto_def Let_def)
  have "onward (judged (\<lambda>_ _. True) (\<lambda>p. p = wtPath)) s t"
    by (rule onward_via[OF v]) (intro onward_closeVanished onward_refl refl)
  from onward_done[OF this removed] have path: "path = wtPath" by simp
  have ok: "vanished_refusal K repoPath wtPath branch force (cs_world s) = None"
  proof (rule ccontr)
    assume "vanished_refusal K repoPath wtPath branch force (cs_world s) \<noteq> None"
    with v have "t = s" by (auto simp: closeVanished_def Let_def)
    with removed show False by (simp add: done_since_def)
  qed
  have "set (filter (\<lambda>e. e \<notin> set vanishedLeftoversOK) entries) = {} \<Longrightarrow> set entries \<subseteq> {''.tmp'', ''.spinclass''}" for entries
    by (auto simp: vanishedLeftoversOK_def)
  with ok path gone show ?thesis
    unfolding vanished_refusal_def Let_def
    by (auto simp: not_less filter_empty_conv vanishedLeftoversOK_def simp del: JoinPath.simps
      split: if_splits option.splits sum.splits)
qed

section \<open>A session to close\<close>

definition sample_close :: "unit close_ops" where
  "sample_close =
     \<lparr>k_clean = sample_clean, k_quote = (\<lambda>s. s), k_format = (\<lambda>_. []), k_shelfCount = (\<lambda>_ _. Inr 0), k_shelfList = (\<lambda>_ _. None),
      k_record = (\<lambda>_ _ _. Inr empty_State), k_write = (\<lambda>_ w. (None, w)), k_stateDir = (\<lambda>_. None),
      k_unitRecordPath = (\<lambda>d _. d), k_unitSpecPath = (\<lambda>d _. d), k_exists = (\<lambda>_ _. False), k_cwd = (\<lambda>_ _. None),
      k_environ = (\<lambda>_ _. None), k_hangup = (\<lambda>_ w. (None, w)), k_wait = (\<lambda>_ w. w), k_stopUnit = (\<lambda>_ _ w. ((False, None), w)),
      k_tombstone = (\<lambda>_ _ _ w. (None, w)), k_leftovers = (\<lambda>_ _. Inr [''.tmp''])\<rparr>"

text \<open>The same repository with a second default branch and three commits on the session's branch, and the
  same with the worktree gone.\<close>

definition sample_ambiguous :: "unit close_ops" where
  "sample_ambiguous = sample_close\<lparr>k_clean := sample_clean\<lparr>c_gitRead := (\<lambda>_ args _.
     if args = [''rev-list'', ''--count'', ''w'', ''^main''] then Inr ''3'' else if args = [''status'', ''--porcelain''] then Inr []
     else if args = [''rev-parse'', ''--verify'', ''refs/heads/main''] \<or> args = [''rev-parse'', ''--verify'', ''refs/heads/master''] then Inr ''p1''
     else Inl ''fatal'')\<rparr>\<rparr>"

definition sample_vanished :: "unit close_ops" where
  "sample_vanished = sample_close\<lparr>k_clean := sample_clean\<lparr>c_lstatDir := (\<lambda>_ _. None), c_session := (\<lambda>_ _ _. Some empty_State)\<rparr>\<rparr>"

abbreviation sample_path :: string where "sample_path \<equiv> ''/r/.worktrees/w''"

lemma sample_close_clear:
  "IsWorktree (k_clean sample_close) sample_path ()" "\<not> has_unintegrated sample_close ''/r'' sample_path ''w'' ()"
  "\<not> is_dirty sample_close sample_path ()" "k_shelfCount sample_close sample_path () = Inr 0"
  "fst (beginClosing sample_close ''/r'' ''w'' False sample_scene) = None" "k_stateDir sample_close = (\<lambda>_. None)"
  "k_record sample_close ''/r'' ''w'' () = Inr empty_State"
proof -
  have c: "k_clean sample_close = sample_clean" by (simp add: sample_close_def)
  show "IsWorktree (k_clean sample_close) sample_path ()" by (simp add: c IsWorktree_def sample_clean_simps)
  have "CommitsUnintegrated sample_clean sample_path ''main'' ''w'' () = 0"
    using sample_no_count[of sample_path "''main''" "''w''"] by (auto simp: CommitsUnintegrated_def Run_git_ok_def split: sum.splits)
  then show "\<not> has_unintegrated sample_close ''/r'' sample_path ''w'' ()" by (simp add: has_unintegrated_def c sample_default)
  show "\<not> is_dirty sample_close sample_path ()" by (simp add: is_dirty_def c sample_status)
  show "fst (beginClosing sample_close ''/r'' ''w'' False sample_scene) = None"
    by (simp add: beginClosing_def Let_def sample_close_def RestartInFlight_def empty_State_def)
qed (simp_all add: sample_close_def)

lemma sample_close_runs:
  "GitRan ''/r'' [''worktree'', ''remove'', ''--force'', sample_path]
     \<in> set (done_since sample_scene (snd (runResolvedInto sample_close True ''/r'' sample_path ''w'' False None sample_scene)))"
  "ClosingMarked \<in> set (done_since sample_scene (snd (runResolvedInto sample_close True ''/r'' sample_path ''w'' False None sample_scene)))"
proof -
  have w: "cs_world sample_scene = ()" by simp
  note clear = closes[of sample_close sample_path sample_scene "''/r''" "''w''", unfolded w, OF sample_close_clear(1-6)]
  show "GitRan ''/r'' [''worktree'', ''remove'', ''--force'', sample_path]
     \<in> set (done_since sample_scene (snd (runResolvedInto sample_close True ''/r'' sample_path ''w'' False None sample_scene)))"
    by (rule clear(1))
  show "ClosingMarked \<in> set (done_since sample_scene (snd (runResolvedInto sample_close True ''/r'' sample_path ''w'' False None sample_scene)))"
    by (rule clear(2)[OF sample_close_clear(7)])
qed

lemma close_needs_finished_work_witness: "Blocker sample_close ''/r'' sample_path ''w'' () = Inr []"
proof -
  obtain res t where run: "runResolvedInto sample_close True ''/r'' sample_path ''w'' False None sample_scene = (res, t)" by fastforce
  have "\<not> talk (GitRan ''/r'' [''worktree'', ''remove'', ''--force'', sample_path])" by (simp add: talk_def)
  from close_needs_finished_work[OF run _ sample_close_runs(1)[unfolded run snd_conv] this]
  have "Blocker sample_close ''/r'' sample_path ''w'' () = Inr [] \<or> confirmed (k_clean sample_close) ()"
    using sample_close_clear(1) by simp
  then show ?thesis by (auto simp: confirmed_def sample_close_def sample_clean_def)
qed

lemma close_buries_before_it_removes_witness:
  "\<exists>pre post. done_since sample_scene (snd (runResolvedInto sample_close True ''/r'' sample_path ''w'' False None sample_scene)) =
       pre @ GitRan ''/r'' [''worktree'', ''remove'', ''--force'', sample_path] # post \<and>
     (\<exists>sha. Tombstoned ''/r'' ''w'' sha \<in> set pre)"
proof -
  obtain res t where run: "runResolvedInto sample_close True ''/r'' sample_path ''w'' False None sample_scene = (res, t)" by fastforce
  from split_list[OF sample_close_runs(1)[unfolded run snd_conv]] obtain pre post where
    f: "done_since sample_scene t = pre @ GitRan ''/r'' [''worktree'', ''remove'', ''--force'', sample_path] # post" by blast
  from close_buries_before_it_removes[OF run _ f] sample_close_clear(1)
  have "\<exists>sha. Tombstoned ''/r'' ''w'' sha \<in> set pre" by auto
  with f show ?thesis unfolding run snd_conv by blast
qed

lemma closing_mark_is_settled_witness:
  "(\<exists>sha. Tombstoned ''/r'' ''w'' sha \<in> set (done_since sample_scene (snd (runResolvedInto sample_close True ''/r'' sample_path ''w'' False None sample_scene)))) \<or>
   ClosingCleared \<in> set (done_since sample_scene (snd (runResolvedInto sample_close True ''/r'' sample_path ''w'' False None sample_scene)))"
proof -
  obtain res t where run: "runResolvedInto sample_close True ''/r'' sample_path ''w'' False None sample_scene = (res, t)" by fastforce
  from closing_mark_is_settled[OF run _ sample_close_runs(2)[unfolded run snd_conv]] sample_close_clear(1,7)
  show ?thesis unfolding run snd_conv by simp
qed

lemma close_drops_commits_without_a_default_branch_witness:
  "GitRan ''/r'' [''worktree'', ''remove'', ''--force'', sample_path]
     \<in> set (done_since sample_scene (snd (runResolvedInto sample_ambiguous True ''/r'' sample_path ''w'' False None sample_scene)))"
proof (rule close_drops_commits_without_a_default_branch)
  have t: "TrimSpace [] = []" "TrimSpace ''3'' = ''3''" by code_simp+
  have "Itoa 3 = ''3''" by code_simp
  then have a: "Atoi ''3'' = (3, False)" using Atoi_Itoa[of 3] by simp
  let ?C = "k_clean sample_ambiguous"
  have r: "c_gitRead ?C d args () =
     (if args = [''rev-list'', ''--count'', ''w'', ''^main''] then Inr ''3'' else if args = [''status'', ''--porcelain''] then Inr []
      else if args = [''rev-parse'', ''--verify'', ''refs/heads/main''] \<or> args = [''rev-parse'', ''--verify'', ''refs/heads/master''] then Inr ''p1''
      else Inl ''fatal'')" for d args
    by (simp add: sample_ambiguous_def)
  show "IsWorktree ?C sample_path (cs_world sample_scene)"
    by (simp add: IsWorktree_def sample_ambiguous_def sample_clean_def)
  show "BranchExists ?C ''/r'' ''main'' (cs_world sample_scene)" "BranchExists ?C ''/r'' ''master'' (cs_world sample_scene)"
    by (simp_all add: BranchExists_def Run_git_ok_def Run_git_def r)
  show "StatusPorcelain ?C sample_path (cs_world sample_scene) = []"
    by (simp add: StatusPorcelain_def Run_git_def r t)
  show "CommitsUnintegrated ?C sample_path ''main'' ''w'' (cs_world sample_scene) > 0"
    by (simp add: CommitsUnintegrated_def unintegrated_args_def Run_git_ok_def Run_git_def r t a)
  show "fst (beginClosing sample_ambiguous ''/r'' ''w'' False sample_scene) = None"
    by (simp add: beginClosing_def Let_def sample_ambiguous_def sample_close_def RestartInFlight_def empty_State_def)
qed (simp_all add: sample_ambiguous_def sample_close_def)

lemma close_deletes_only_a_vanished_slot_witness:
  "HasPrefix (Clean sample_path) (worktree_slots ''/r'') \<and> \<not> IsWorktree (k_clean sample_vanished) sample_path ()"
proof -
  let ?C = "k_clean sample_vanished"
  have gone: "\<not> IsWorktree ?C sample_path ()" by (simp add: IsWorktree_def sample_vanished_def)
  obtain res t where run: "runResolvedInto sample_vanished True ''/r'' sample_path ''w'' False None sample_scene = (res, t)" by fastforce
  have "Run_git_ok ?C ''/r'' [''rev-parse'', ''--verify'', ''refs/heads/w''] () = False"
    by (simp add: Run_git_ok_def Run_git_def sample_vanished_def sample_clean_simps)
  then have "vanished_refusal sample_vanished ''/r'' sample_path ''w'' False (cs_world sample_scene) = None"
  proof -
    assume b: "Run_git_ok ?C ''/r'' [''rev-parse'', ''--verify'', ''refs/heads/w''] () = False"
    have "HasPrefix (Clean sample_path) (worktree_slots ''/r'')" by code_simp
    moreover have "c_lstatDir ?C p () = None" "c_session ?C r br () = Some empty_State" "k_leftovers sample_vanished p () = Inr [''.tmp'']" for p r br
      by (simp_all add: sample_vanished_def sample_close_def)
    moreover have "\<not> s_isTombstone empty_State" by (simp add: empty_State_def)
    ultimately show ?thesis
      using b by (simp add: vanished_refusal_def Let_def BranchExists_def vanishedLeftoversOK_def del: JoinPath.simps)
  qed
  then have "TreeRemoved sample_path \<in> set (done_since sample_scene (snd (closeVanished sample_vanished True ''/r'' sample_path ''w'' False sample_scene)))"
    by (rule vanished_removes) (simp add: sample_vanished_def sample_close_def)
  moreover have "closeVanished sample_vanished True ''/r'' sample_path ''w'' False sample_scene = (res, t)"
    using run gone by (simp add: runResolvedInto_def Let_def)
  ultimately have "TreeRemoved sample_path \<in> set (done_since sample_scene t)" by simp
  from close_deletes_only_a_vanished_slot[OF run this] show ?thesis by simp
qed

end
