(* ===== verification/SessionRecord.thy ===== *)
theory SessionRecord
  imports LockedUpdate "HOL-Library.AList"
begin

text \<open>
  Where session records are kept (\<open>src/internal/alfa/session/record.go\<close>, \<open>session.go\<close>, \<open>update.go\<close>):
  the frontend record of a session, its display copy in the worktree, the central index with its
  symlinks and tombstones, and the operations that read, write, close, list, migrate and collect
  them. The lemmas show that what a worker writes in its worktree is no authority, that every record
  read is the record of the session asked for, and that the files implement a map from sessions to
  live, closed or absent records.
\<close>

section \<open>Files\<close>

text \<open>What reading and decoding a file gives; the JSON codec keeps every exported field, so a file
  holds a state without its \<open>isTombstone\<close> mark.\<close>

datatype content = Unreadable | Garbage | Holds State

definition marshal :: "State \<Rightarrow> content" where
  "marshal s = Holds (s\<lparr>s_isTombstone := False\<rparr>)"

text \<open>An entry of the index directory: a regular file is a tombstone, a symlink points at a display
  copy or an implicit session's file; a directory there is taken as not empty.\<close>

datatype index_entry = TombFile content | Symlink string | IndexDir

datatype side = WorktreeOnly | FrontendOnly | BothSet

datatype record_report =
  RefusedRecord string
| MigratedLegacy string string
| CopyUnparsable string string
| CopyDisagrees string string string side
| CopyNotWritten string string

text \<open>Records are keyed by file name; the files of the worktrees and of the legacy directory by path.\<close>

record RecordStore =
  st_index :: "(string \<times> index_entry) list"
  st_records :: "string \<rightharpoonup> content"
  st_files :: "string \<rightharpoonup> content"
  st_legacy :: "(string \<times> content) list"
  st_reports :: "record_report list"

text \<open>The machine around the store: the first eight bytes of SHA-256 in hex, whether the process runs
  inside a confined unit, and which writes the file system accepts.\<close>

record Host =
  h_Hash :: "string \<Rightarrow> string"
  h_InUnit :: bool
  h_Machine :: Machine
  h_RecordsWritable :: bool
  h_IndexWritable :: bool
  h_IndexListing :: stat_result
  h_CopyWritable :: "string \<Rightarrow> bool"
  h_CopyDirReal :: "string \<Rightarrow> bool"
  h_FileRemovable :: "string \<Rightarrow> bool"
  h_Glob :: "string \<Rightarrow> string list option"
  h_EvalSymlinks :: "string \<Rightarrow> string option"
  h_DetectRepo :: "string \<Rightarrow> string option"

datatype record_error = ENotExist | ERefused | EInvalid | EIO

definition report_to :: "record_report \<Rightarrow> RecordStore \<Rightarrow> RecordStore" where
  "report_to r \<sigma> = \<sigma>\<lparr>st_reports := st_reports \<sigma> @ [r]\<rparr>"

definition indexFilename :: "Host \<Rightarrow> string \<Rightarrow> string" where
  "indexFilename h wt = h_Hash h (Clean wt) @ ''.json''"

definition index_at :: "Host \<Rightarrow> string \<Rightarrow> RecordStore \<Rightarrow> index_entry option" where
  "index_at h wt \<sigma> = map_of (st_index \<sigma>) (indexFilename h wt)"

section \<open>Identity\<close>

definition validBranch :: "string \<Rightarrow> bool" where
  "validBranch branch =
     (if branch = [] \<or> CHR 0x00 \<in> set branch then False
      else if IsAbs branch \<or> Clean branch \<noteq> branch then False
      else list_all (\<lambda>el. \<not> (el = [] \<or> el = ''.'' \<or> el = ''..'')) (split1 slash branch))"

datatype identity_error = WorktreeDiffers | RepoNotAbsolute | BranchInvalid | PlaceDiffers | KeyDiffers | WorktreeEmpty

definition checkIdentity :: "State \<Rightarrow> string \<Rightarrow> identity_error option" where
  "checkIdentity s wt =
     (if s_WorktreePath s = [] \<or> Clean (s_WorktreePath s) \<noteq> Clean wt then Some WorktreeDiffers
      else if s_Kind s = KindImplicit then None
      else if \<not> IsAbs (s_RepoPath s) then Some RepoNotAbsolute
      else if \<not> validBranch (s_Branch s) then Some BranchInvalid
      else if worktreeFromRepoBranch (s_RepoPath s) (s_Branch s) \<noteq> Clean (s_WorktreePath s) then Some PlaceDiffers
      else None)"

definition checkRecordLocation :: "Host \<Rightarrow> State \<Rightarrow> string \<Rightarrow> identity_error option" where
  "checkRecordLocation h s name =
     (if s_WorktreePath s = [] then Some WorktreeEmpty
      else if indexFilename h (s_WorktreePath s) \<noteq> name then Some KeyDiffers
      else checkIdentity s (s_WorktreePath s))"

definition readRecordFile :: "content option \<Rightarrow> record_error + State" where
  "readRecordFile c =
     (case c of None \<Rightarrow> Inl ENotExist | Some (Holds s) \<Rightarrow> Inr (s\<lparr>s_isTombstone := False\<rparr>)
     | Some _ \<Rightarrow> Inl EIO)"

definition writeRecordFile :: "Host \<Rightarrow> string \<Rightarrow> State \<Rightarrow> RecordStore \<Rightarrow> bool \<times> RecordStore" where
  "writeRecordFile h wt s \<sigma> =
     (if h_RecordsWritable h
      then (True, \<sigma>\<lparr>st_records := (st_records \<sigma>)(indexFilename h wt \<mapsto> marshal s)\<rparr>)
      else (False, \<sigma>))"

section \<open>The display copy\<close>

text \<open>One row of \<open>authorityFields\<close>: the field, whether two states agree on it, and whether its JSON
  form is an empty one.\<close>

definition authority_field :: "string \<Rightarrow> (State \<Rightarrow> 'a) \<Rightarrow> 'a \<Rightarrow> string \<times> (State \<Rightarrow> State \<Rightarrow> bool) \<times> (State \<Rightarrow> bool)" where
  "authority_field name get zero = (name, (\<lambda>a b. get a = get b), (\<lambda>s. get s = zero))"

definition authorityFields :: "(string \<times> (State \<Rightarrow> State \<Rightarrow> bool) \<times> (State \<Rightarrow> bool)) list" where
  "authorityFields =
     [authority_field ''repo_path'' s_RepoPath [], authority_field ''worktree_path'' s_WorktreePath [],
      authority_field ''branch'' s_Branch [], authority_field ''session_key'' s_SessionKey [], authority_field ''kind'' s_Kind [],
      authority_field ''principal'' s_Principal [], authority_field ''spawned_by'' s_SpawnedBy [],
      authority_field ''spawned_by_principal'' s_SpawnedByPrincipal [],
      authority_field ''spawner_released'' s_SpawnerReleased False, authority_field ''holders'' s_Holders [],
      authority_field ''pending_handles'' s_PendingHandles [], authority_field ''handle_rights'' s_HandleRights Map.empty,
      authority_field ''profile'' s_Profile [], authority_field ''profile_digest'' s_ProfileDigest [],
      authority_field ''profile_rebinds'' s_ProfileRebinds [], authority_field ''profile_narrowing'' s_ProfileNarrowing None,
      authority_field ''entry'' s_Entry None, authority_field ''credential'' s_Credential None,
      authority_field ''close_request'' s_CloseRequest None, authority_field ''restart_request'' s_RestartRequest None,
      authority_field ''restarting_at'' s_RestartingAt None, authority_field ''restarting_first_at'' s_RestartingFirstAt None,
      authority_field ''restart_rearms'' s_RestartRearms 0, authority_field ''restarted_at'' s_RestartedAt None,
      authority_field ''forced_restart_at'' s_ForcedRestartAt None]"

definition whichSideSets :: "bool \<Rightarrow> bool \<Rightarrow> side" where
  "whichSideSets frontend_unset worktree_unset =
     (if frontend_unset then WorktreeOnly else if worktree_unset then FrontendOnly else BothSet)"

definition compareDisplay :: "Host \<Rightarrow> State \<Rightarrow> RecordStore \<Rightarrow> RecordStore" where
  "compareDisplay h rec \<sigma> =
     (if h_InUnit h then \<sigma>
      else let path = worktreeStatePath (s_WorktreePath rec) in
        case st_files \<sigma> path of
          None \<Rightarrow> \<sigma>
        | Some Unreadable \<Rightarrow> \<sigma>
        | Some Garbage \<Rightarrow> report_to (CopyUnparsable path (Key rec)) \<sigma>
        | Some (Holds shown) \<Rightarrow>
            fold (\<lambda>(name, same, unset) \<sigma>.
                    if same rec shown then \<sigma>
                    else report_to (CopyDisagrees path (Key rec) name (whichSideSets (unset rec) (unset shown))) \<sigma>)
              authorityFields \<sigma>)"

definition writeDisplayCopy :: "Host \<Rightarrow> string \<Rightarrow> State \<Rightarrow> RecordStore \<Rightarrow> bool \<times> RecordStore" where
  "writeDisplayCopy h wt s \<sigma> =
     (if h_CopyWritable h wt
      then (True, \<sigma>\<lparr>st_files := (st_files \<sigma>)(worktreeStatePath wt \<mapsto> marshal s)\<rparr>)
      else (False, \<sigma>))"

definition removeDisplayCopy :: "Host \<Rightarrow> string \<Rightarrow> RecordStore \<Rightarrow> RecordStore" where
  "removeDisplayCopy h wt \<sigma> =
     (if h_CopyDirReal h wt then \<sigma>\<lparr>st_files := (st_files \<sigma>)(worktreeStatePath wt := None)\<rparr> else \<sigma>)"

section \<open>Reading\<close>

definition readTombstone :: "Host \<Rightarrow> string \<Rightarrow> content \<Rightarrow> RecordStore \<Rightarrow> (record_error + State) \<times> RecordStore" where
  "readTombstone h name c \<sigma> =
     (case readRecordFile (Some c) of
        Inl e \<Rightarrow> (Inl e, \<sigma>)
      | Inr s \<Rightarrow>
          if checkRecordLocation h s name \<noteq> None then (Inl ERefused, report_to (RefusedRecord name) \<sigma>)
          else (Inr (s\<lparr>s_isTombstone := True\<rparr>), \<sigma>))"

definition legacyLoad :: "Host \<Rightarrow> string \<Rightarrow> RecordStore \<Rightarrow> (record_error + State) \<times> RecordStore" where
  "legacyLoad h wt \<sigma> =
     (let path = worktreeStatePath wt in
      case readRecordFile (st_files \<sigma> path) of
        Inl e \<Rightarrow> (Inl e, \<sigma>)
      | Inr s \<Rightarrow>
          if checkIdentity s wt \<noteq> None then (Inl ERefused, report_to (RefusedRecord path) \<sigma>)
          else if h_InUnit h then (Inr s, \<sigma>)
          else if s_Kind s \<noteq> KindImplicit \<and> s_SessionKey s \<noteq> [] \<and>
                  s_SessionKey s \<noteq> Base (s_RepoPath s) @ ''/'' @ s_Branch s
          then (Inl ERefused, report_to (RefusedRecord path) \<sigma>)
          else case writeRecordFile h wt s \<sigma> of
                 (False, \<sigma>) \<Rightarrow> (Inl EIO, \<sigma>)
               | (True, \<sigma>) \<Rightarrow> (Inr s, report_to (MigratedLegacy (Key s) path) \<sigma>))"

definition loadByWorktree :: "Host \<Rightarrow> string \<Rightarrow> RecordStore \<Rightarrow> (record_error + State) \<times> RecordStore" where
  "loadByWorktree h wt \<sigma> =
     (let wt = Clean wt; name = indexFilename h wt in
      case index_at h wt \<sigma> of
        Some (TombFile c) \<Rightarrow> readTombstone h name c \<sigma>
      | _ \<Rightarrow>
          (case readRecordFile (st_records \<sigma> name) of
             Inr rec \<Rightarrow>
               if checkRecordLocation h rec name \<noteq> None then (Inl ERefused, report_to (RefusedRecord name) \<sigma>)
               else (Inr rec, compareDisplay h rec \<sigma>)
           | Inl e \<Rightarrow> if e = ENotExist \<or> h_InUnit h then legacyLoad h wt \<sigma> else (Inl e, \<sigma>)))"

definition Read_session :: "Host \<Rightarrow> string \<Rightarrow> string \<Rightarrow> RecordStore \<Rightarrow> (record_error + State) \<times> RecordStore" where
  "Read_session h repoPath branch \<sigma> =
     (if \<not> validBranch branch then (Inl ENotExist, \<sigma>)
      else loadByWorktree h (worktreeFromRepoBranch repoPath branch) \<sigma>)"

section \<open>Writing\<close>

definition writeIndexSymlink :: "Host \<Rightarrow> string \<Rightarrow> RecordStore \<Rightarrow> bool \<times> RecordStore" where
  "writeIndexSymlink h wt \<sigma> =
     (if h_IndexWritable h
      then (True, \<sigma>\<lparr>st_index := AList.update (indexFilename h wt) (Symlink (worktreeStatePath wt)) (st_index \<sigma>)\<rparr>)
      else (False, \<sigma>))"

definition stat_error :: "stat_result \<Rightarrow> record_error option" where
  "stat_error r = (case r of Present \<Rightarrow> None | Missing \<Rightarrow> Some ENotExist | StatError \<Rightarrow> Some EIO)"

definition keep_credential :: "Host \<Rightarrow> string \<Rightarrow> State \<Rightarrow> RecordStore \<Rightarrow> State" where
  "keep_credential h wt s \<sigma> =
     (if s_Credential s = None
      then case readRecordFile (st_records \<sigma> (indexFilename h wt)) of
             Inr prev \<Rightarrow> s\<lparr>s_Credential := s_Credential prev\<rparr> | Inl _ \<Rightarrow> s
      else s)"

definition Write_session :: "Host \<Rightarrow> State \<Rightarrow> RecordStore \<Rightarrow> record_error option \<times> RecordStore" where
  "Write_session h s \<sigma> =
     (let wt = s_WorktreePath s in
      if wt = [] then (Some EInvalid, \<sigma>)
      else case stat_error (m_Stat (h_Machine h) wt) of
        Some e \<Rightarrow> (Some e, \<sigma>)
      | None \<Rightarrow>
          if h_InUnit h then
            (case writeDisplayCopy h wt s \<sigma> of (ok, \<sigma>) \<Rightarrow> (if ok then None else Some EIO, \<sigma>))
          else if checkIdentity s wt \<noteq> None then (Some EInvalid, \<sigma>)
          else
            let s = keep_credential h wt s \<sigma> in
            case writeRecordFile h wt s \<sigma> of
              (False, \<sigma>) \<Rightarrow> (Some EIO, \<sigma>)
            | (True, \<sigma>) \<Rightarrow>
                (let \<sigma> = (case writeDisplayCopy h wt s \<sigma> of
                           (True, \<sigma>) \<Rightarrow> \<sigma>
                         | (False, \<sigma>) \<Rightarrow> report_to (CopyNotWritten (Key s) wt) \<sigma>)
                 in case writeIndexSymlink h wt \<sigma> of (ok, \<sigma>) \<Rightarrow> (if ok then None else Some EIO, \<sigma>)))"

text \<open>\<open>Update\<close>: everything between taking and releasing the lock is one step.\<close>

datatype 'e update_error = FnError 'e | StoreError record_error

definition Update_session ::
  "Host \<Rightarrow> string \<Rightarrow> string \<Rightarrow> (State \<Rightarrow> 'e + State) \<Rightarrow> RecordStore \<Rightarrow> 'e update_error option \<times> RecordStore" where
  "Update_session h repoPath branch fn \<sigma> =
     (if \<not> validBranch branch then (Some (StoreError ENotExist), \<sigma>)
      else if \<not> h_RecordsWritable h then (Some (StoreError EIO), \<sigma>)
      else case Read_session h repoPath branch \<sigma> of
        (Inl e, \<sigma>) \<Rightarrow> (Some (StoreError e), \<sigma>)
      | (Inr st, \<sigma>) \<Rightarrow>
          if s_isTombstone st then (Some (StoreError ENotExist), \<sigma>)
          else case fn st of
                 Inl e \<Rightarrow> (Some (FnError e), \<sigma>)
               | Inr st \<Rightarrow> (case Write_session h st \<sigma> of (e, \<sigma>) \<Rightarrow> (map_option StoreError e, \<sigma>)))"

section \<open>Closing and removing\<close>

definition writeTombstoneFile :: "Host \<Rightarrow> string \<Rightarrow> State \<Rightarrow> RecordStore \<Rightarrow> bool \<times> RecordStore" where
  "writeTombstoneFile h wt s \<sigma> =
     (if h_IndexWritable h
      then (True, \<sigma>\<lparr>st_index := AList.update (indexFilename h wt) (TombFile (marshal s)) (st_index \<sigma>)\<rparr>)
      else (False, \<sigma>))"

definition drop_record :: "Host \<Rightarrow> string \<Rightarrow> RecordStore \<Rightarrow> RecordStore" where
  "drop_record h wt \<sigma> =
     (if h_RecordsWritable h then \<sigma>\<lparr>st_records := (st_records \<sigma>)(indexFilename h wt := None)\<rparr> else \<sigma>)"

definition Tombstone_session :: "Host \<Rightarrow> string \<Rightarrow> string \<Rightarrow> string \<Rightarrow> RecordStore \<Rightarrow> record_error option \<times> RecordStore" where
  "Tombstone_session h repoPath branch sha \<sigma> =
     (if \<not> validBranch branch then (Some EInvalid, \<sigma>)
      else
        let wt = worktreeFromRepoBranch repoPath branch in
        case loadByWorktree h wt \<sigma> of
          (Inl e, \<sigma>) \<Rightarrow> (Some e, \<sigma>)
        | (Inr s, \<sigma>) \<Rightarrow>
            if s_isTombstone s then (Some ENotExist, \<sigma>)
            else
              let s = (if sha \<noteq> [] then s\<lparr>s_DeletedSHA := sha\<rparr> else s) in
              case writeTombstoneFile h wt s \<sigma> of
                (False, \<sigma>) \<Rightarrow> (Some EIO, \<sigma>)
              | (True, \<sigma>) \<Rightarrow> (None, removeDisplayCopy h wt (drop_record h wt \<sigma>)))"

definition remove_index :: "Host \<Rightarrow> string \<Rightarrow> RecordStore \<Rightarrow> record_error option \<times> RecordStore" where
  "remove_index h name \<sigma> =
     (case map_of (st_index \<sigma>) name of
        None \<Rightarrow> (None, \<sigma>)
      | Some IndexDir \<Rightarrow> (Some EIO, \<sigma>)
      | Some _ \<Rightarrow> if h_IndexWritable h then (None, \<sigma>\<lparr>st_index := AList.delete name (st_index \<sigma>)\<rparr>) else (Some EIO, \<sigma>))"

definition removeForWorktree :: "Host \<Rightarrow> string \<Rightarrow> RecordStore \<Rightarrow> record_error option \<times> RecordStore" where
  "removeForWorktree h wt \<sigma> =
     (if st_records \<sigma> (indexFilename h wt) \<noteq> None \<and> \<not> h_RecordsWritable h then (Some EIO, \<sigma>)
      else remove_index h (indexFilename h wt) (removeDisplayCopy h wt (drop_record h wt \<sigma>)))"

definition Remove_session :: "Host \<Rightarrow> string \<Rightarrow> string \<Rightarrow> RecordStore \<Rightarrow> record_error option \<times> RecordStore" where
  "Remove_session h repoPath branch \<sigma> =
     (if \<not> validBranch branch then (Some EInvalid, \<sigma>)
      else removeForWorktree h (worktreeFromRepoBranch repoPath branch) \<sigma>)"

definition storeCredential :: "Host \<Rightarrow> string \<Rightarrow> string \<Rightarrow> State \<Rightarrow> Credential option \<Rightarrow> RecordStore \<Rightarrow> record_error option \<times> RecordStore" where
  "storeCredential h repoPath branch st c \<sigma> =
     (let st = st\<lparr>s_Credential := c\<rparr>; wt = worktreeFromRepoBranch repoPath branch in
      if s_isTombstone st then
        (case writeTombstoneFile h wt st \<sigma> of (ok, \<sigma>) \<Rightarrow> (if ok then None else Some EIO, \<sigma>))
      else if m_Stat (h_Machine h) wt \<noteq> Present then
        (case writeRecordFile h wt st \<sigma> of (ok, \<sigma>) \<Rightarrow> (if ok then None else Some EIO, \<sigma>))
      else Write_session h st \<sigma>)"

text \<open>A live session is read again under its lock; what comes before is the unlocked look.\<close>

definition UpdateCredential :: "Host \<Rightarrow> string \<Rightarrow> string \<Rightarrow> Credential option \<Rightarrow> RecordStore \<Rightarrow> record_error option \<times> RecordStore" where
  "UpdateCredential h repoPath branch c \<sigma> =
     (case Read_session h repoPath branch \<sigma> of
        (Inl e, \<sigma>) \<Rightarrow> (Some e, \<sigma>)
      | (Inr st, \<sigma>) \<Rightarrow>
          if s_isTombstone st then storeCredential h repoPath branch st c \<sigma>
          else if \<not> h_RecordsWritable h then (Some EIO, \<sigma>)
          else case Read_session h repoPath branch \<sigma> of
                 (Inl e, \<sigma>) \<Rightarrow> (Some e, \<sigma>)
               | (Inr cur, \<sigma>) \<Rightarrow> storeCredential h repoPath branch cur c \<sigma>)"

definition EnsureWorktreeState ::
  "Host \<Rightarrow> string \<Rightarrow> string \<Rightarrow> string \<Rightarrow> int \<Rightarrow> Time \<Rightarrow> RecordStore \<Rightarrow> (record_error + State) \<times> RecordStore" where
  "EnsureWorktreeState h repoPath branch sessionKey pid now \<sigma> =
     (case Read_session h repoPath branch \<sigma> of
        (Inr st, \<sigma>) \<Rightarrow> (Inr st, \<sigma>)
      | (Inl e, \<sigma>) \<Rightarrow>
          if e \<noteq> ENotExist then (Inl e, \<sigma>)
          else (Inr (empty_State\<lparr>s_PID := pid, s_SessionState := StateActive, s_RepoPath := repoPath,
                       s_WorktreePath := worktreeFromRepoBranch repoPath branch, s_Branch := branch,
                       s_SessionKey := sessionKey, s_StartedAt := now,
                       s_Env := [(''SPINCLASS_SESSION_ID'', sessionKey)]\<rparr>), \<sigma>))"

section \<open>Listing\<close>

definition loadLiveEntry :: "Host \<Rightarrow> string \<Rightarrow> string \<Rightarrow> RecordStore \<Rightarrow> (record_error + State) \<times> RecordStore" where
  "loadLiveEntry h name target \<sigma> =
     (case readRecordFile (st_records \<sigma> name) of
        Inr rec \<Rightarrow>
          if checkRecordLocation h rec name \<noteq> None then (Inl ERefused, report_to (RefusedRecord name) \<sigma>)
          else (Inr rec, compareDisplay h rec \<sigma>)
      | Inl e \<Rightarrow>
          if e \<noteq> ENotExist then (Inl e, \<sigma>)
          else let wt = Dir (Dir target) in
            if Base target \<noteq> ''state.json'' \<or> Base (Dir target) \<noteq> ''.spinclass'' \<or> indexFilename h wt \<noteq> name
            then (Inl ERefused, report_to (RefusedRecord name) \<sigma>)
            else legacyLoad h wt \<sigma>)"

definition readImplicitEntry :: "Host \<Rightarrow> string \<Rightarrow> string \<Rightarrow> RecordStore \<Rightarrow> (record_error + State) \<times> RecordStore" where
  "readImplicitEntry h name target \<sigma> =
     (if indexFilename h target \<noteq> name then (Inl ERefused, report_to (RefusedRecord name) \<sigma>)
      else case readRecordFile (st_files \<sigma> target) of
        Inl e \<Rightarrow> (Inl e, \<sigma>)
      | Inr s \<Rightarrow> (Inr (s\<lparr>s_Kind := KindImplicit, s_WorktreePath := Dir (Dir target)\<rparr>), \<sigma>))"

definition list_entry :: "Host \<Rightarrow> string \<times> index_entry \<Rightarrow> RecordStore \<Rightarrow> State option \<times> RecordStore" where
  "list_entry h entry \<sigma> =
     (case entry of
        (name, IndexDir) \<Rightarrow> (None, \<sigma>)
      | (name, TombFile c) \<Rightarrow>
          (case readTombstone h name c \<sigma> of (Inl _, \<sigma>) \<Rightarrow> (None, \<sigma>) | (Inr s, \<sigma>) \<Rightarrow> (Some s, \<sigma>))
      | (name, Symlink target) \<Rightarrow>
          (case (if HasPrefix (Base target) ''state-'' then readImplicitEntry h name target \<sigma>
                 else loadLiveEntry h name target \<sigma>) of
             (Inr s, \<sigma>) \<Rightarrow> (Some s, \<sigma>)
           | (Inl e, \<sigma>) \<Rightarrow> if e = ENotExist then (Some (danglingStateFromTarget target), \<sigma>) else (None, \<sigma>)))"

fun list_entries :: "Host \<Rightarrow> (string \<times> index_entry) list \<Rightarrow> RecordStore \<Rightarrow> State list \<times> RecordStore" where
  "list_entries h [] \<sigma> = ([], \<sigma>)"
| "list_entries h (e # es) \<sigma> =
     (case list_entry h e \<sigma> of (found, \<sigma>) \<Rightarrow>
        (case list_entries h es \<sigma> of (rest, \<sigma>) \<Rightarrow>
           (case found of None \<Rightarrow> rest | Some s \<Rightarrow> s # rest, \<sigma>)))"

text \<open>\<open>os.ReadDir\<close> sorts by name.\<close>

definition ListAll :: "Host \<Rightarrow> RecordStore \<Rightarrow> (record_error + State list) \<times> RecordStore" where
  "ListAll h \<sigma> =
     (case h_IndexListing h of
        Missing \<Rightarrow> (Inr [], \<sigma>)
      | StatError \<Rightarrow> (Inl EIO, \<sigma>)
      | Present \<Rightarrow> (case list_entries h (sort_key fst (st_index \<sigma>)) \<sigma> of (states, \<sigma>) \<Rightarrow> (Inr states, \<sigma>)))"

definition ListForRepo :: "Host \<Rightarrow> string \<Rightarrow> RecordStore \<Rightarrow> (record_error + State list) \<times> RecordStore" where
  "ListForRepo h repoPath \<sigma> =
     (case ListAll h \<sigma> of
        (Inl e, \<sigma>) \<Rightarrow> (Inl e, \<sigma>)
      | (Inr all, \<sigma>) \<Rightarrow>
          (Inr (filter (\<lambda>s. s_RepoPath s = repoPath \<and> ResolveState (h_Machine h) s \<noteq> StateAbandoned) all), \<sigma>))"

definition evalOrClean :: "Host \<Rightarrow> string \<Rightarrow> string" where
  "evalOrClean h p = (case h_EvalSymlinks h p of Some r \<Rightarrow> r | None \<Rightarrow> Clean p)"

text \<open>The sort here is not a stable one in Go; ties between equal branches keep the listed order.\<close>

definition ListActiveForRepoExcluding ::
  "Host \<Rightarrow> string \<Rightarrow> string \<Rightarrow> RecordStore \<Rightarrow> (record_error + State list) \<times> RecordStore" where
  "ListActiveForRepoExcluding h repoPath excludeWorktree \<sigma> =
     (case ListForRepo h repoPath \<sigma> of
        (Inl e, \<sigma>) \<Rightarrow> (Inl e, \<sigma>)
      | (Inr all, \<sigma>) \<Rightarrow>
          (Inr (sort_key s_Branch (filter (\<lambda>s. ResolveState (h_Machine h) s = StateActive \<and>
                  evalOrClean h (s_WorktreePath s) \<noteq> evalOrClean h excludeWorktree) all)), \<sigma>))"

definition ListForScope :: "Host \<Rightarrow> string \<Rightarrow> string \<Rightarrow> RecordStore \<Rightarrow> (record_error + State list) \<times> RecordStore" where
  "ListForScope h repoPath dir \<sigma> =
     (case ListAll h \<sigma> of
        (Inl e, \<sigma>) \<Rightarrow> (Inl e, \<sigma>)
      | (Inr all, \<sigma>) \<Rightarrow>
          (Inr (filter (\<lambda>s. (s_RepoPath s = repoPath \<or>
                              pathInsideResolved (evalOrClean h (s_RepoPath s)) (evalOrClean h dir)) \<and>
                             ResolveState (h_Machine h) s \<noteq> StateAbandoned) all), \<sigma>))"

definition readDirectIfMatches :: "Host \<Rightarrow> string \<Rightarrow> RecordStore \<Rightarrow> State option \<times> RecordStore" where
  "readDirectIfMatches h wt \<sigma> =
     (if index_at h wt \<sigma> = None then (None, \<sigma>)
      else case loadByWorktree h wt \<sigma> of (Inl _, \<sigma>) \<Rightarrow> (None, \<sigma>) | (Inr s, \<sigma>) \<Rightarrow> (Some s, \<sigma>))"

definition FindByWorktreePath :: "Host \<Rightarrow> string \<Rightarrow> RecordStore \<Rightarrow> (record_error + State) \<times> RecordStore" where
  "FindByWorktreePath h path \<sigma> =
     (let resolvedPath = evalOrClean h path in
      case readDirectIfMatches h resolvedPath \<sigma> of
        (Some s, \<sigma>) \<Rightarrow> (Inr s, \<sigma>)
      | (None, \<sigma>) \<Rightarrow>
          (case ListAll h \<sigma> of
             (Inl e, \<sigma>) \<Rightarrow> (Inl e, \<sigma>)
           | (Inr states, \<sigma>) \<Rightarrow>
               (case find (\<lambda>s. pathInsideResolved resolvedPath (evalOrClean h (s_WorktreePath s))) states of
                  Some s \<Rightarrow> (Inr s, \<sigma>) | None \<Rightarrow> (Inl EInvalid, \<sigma>))))"

section \<open>Implicit sessions\<close>

definition implicitStatePath :: "string \<Rightarrow> string \<Rightarrow> string" where
  "implicitStatePath checkout randID = JoinPath [checkout, ''.spinclass'', ''state-'' @ randID @ ''.json'']"

definition WriteImplicit :: "Host \<Rightarrow> State \<Rightarrow> string \<Rightarrow> RecordStore \<Rightarrow> record_error option \<times> RecordStore" where
  "WriteImplicit h s randID \<sigma> =
     (let checkout = s_WorktreePath s; path = implicitStatePath checkout randID in
      if checkout = [] then (Some EInvalid, \<sigma>)
      else case stat_error (m_Stat (h_Machine h) checkout) of
        Some e \<Rightarrow> (Some e, \<sigma>)
      | None \<Rightarrow>
          if \<not> h_CopyWritable h checkout then (Some EIO, \<sigma>)
          else
            let \<sigma> = \<sigma>\<lparr>st_files := (st_files \<sigma>)(path \<mapsto> marshal s)\<rparr> in
            if h_IndexWritable h
            then (None, \<sigma>\<lparr>st_index := AList.update (indexFilename h path) (Symlink path) (st_index \<sigma>)\<rparr>)
            else (Some EIO, \<sigma>))"

definition removeImplicitByPath :: "Host \<Rightarrow> string \<Rightarrow> RecordStore \<Rightarrow> record_error option \<times> RecordStore" where
  "removeImplicitByPath h path \<sigma> =
     (if st_files \<sigma> path \<noteq> None \<and> \<not> h_FileRemovable h path then (Some EIO, \<sigma>)
      else remove_index h (indexFilename h path) (\<sigma>\<lparr>st_files := (st_files \<sigma>)(path := None)\<rparr>))"

definition RemoveImplicit :: "Host \<Rightarrow> string \<Rightarrow> string \<Rightarrow> RecordStore \<Rightarrow> record_error option \<times> RecordStore" where
  "RemoveImplicit h checkout randID = removeImplicitByPath h (implicitStatePath checkout randID)"

definition UpdateImplicit ::
  "Host \<Rightarrow> string \<Rightarrow> string \<Rightarrow> (State \<Rightarrow> 'e + State) \<Rightarrow> RecordStore \<Rightarrow> 'e update_error option \<times> RecordStore" where
  "UpdateImplicit h checkout randID fn \<sigma> =
     (case readRecordFile (st_files \<sigma> (implicitStatePath checkout randID)) of
        Inl e \<Rightarrow> (Some (StoreError e), \<sigma>)
      | Inr st \<Rightarrow>
          (case fn st of
             Inl e \<Rightarrow> (Some (FnError e), \<sigma>)
           | Inr st \<Rightarrow> (case WriteImplicit h st randID \<sigma> of (e, \<sigma>) \<Rightarrow> (map_option StoreError e, \<sigma>))))"

definition implicit_pattern :: "string \<Rightarrow> string" where
  "implicit_pattern dir = JoinPath [dir, ''.spinclass'', ''state-*.json'']"

definition sweep_implicit :: "Host \<Rightarrow> string \<Rightarrow> RecordStore \<Rightarrow> RecordStore" where
  "sweep_implicit h m \<sigma> =
     (case readRecordFile (st_files \<sigma> m) of
        Inl _ \<Rightarrow> \<sigma>
      | Inr s \<Rightarrow>
          if s_PID s = 0 then \<sigma>
          else if \<not> IsAlive (h_Machine h) (s_PID s) then snd (removeImplicitByPath h m \<sigma>)
          else \<sigma>)"

definition SweepDeadImplicit :: "Host \<Rightarrow> string \<Rightarrow> RecordStore \<Rightarrow> record_error option \<times> RecordStore" where
  "SweepDeadImplicit h checkout \<sigma> =
     (case h_Glob h (implicit_pattern checkout) of
        None \<Rightarrow> (Some EInvalid, \<sigma>)
      | Some ms \<Rightarrow> (None, fold (sweep_implicit h) ms \<sigma>))"

fun first_live_implicit :: "Host \<Rightarrow> RecordStore \<Rightarrow> string list \<Rightarrow> (State \<times> string) option" where
  "first_live_implicit h \<sigma> [] = None"
| "first_live_implicit h \<sigma> (m # ms) =
     (case readRecordFile (st_files \<sigma> m) of
        Inl _ \<Rightarrow> first_live_implicit h \<sigma> ms
      | Inr s \<Rightarrow>
          if s_Kind s = KindImplicit \<and> s_PID s \<noteq> 0 \<and> IsAlive (h_Machine h) (s_PID s)
          then Some (s, TrimSuffix (TrimPrefix (Base m) ''state-'') ''.json'')
          else first_live_implicit h \<sigma> ms)"

definition findLiveImplicitInDir :: "Host \<Rightarrow> string \<Rightarrow> RecordStore \<Rightarrow> record_error + (State \<times> string) option" where
  "findLiveImplicitInDir h dir \<sigma> =
     (case h_Glob h (implicit_pattern dir) of
        None \<Rightarrow> Inl EInvalid
      | Some ms \<Rightarrow> Inr (first_live_implicit h \<sigma> ms))"

definition FindImplicitAtCwd :: "Host \<Rightarrow> string \<Rightarrow> RecordStore \<Rightarrow> record_error + (State \<times> string) option" where
  "FindImplicitAtCwd h cwd \<sigma> =
     (case findLiveImplicitInDir h cwd \<sigma> of
        Inl e \<Rightarrow> Inl e
      | Inr (Some found) \<Rightarrow> Inr (Some found)
      | Inr None \<Rightarrow>
          (case h_DetectRepo h cwd of
             None \<Rightarrow> Inr None
           | Some root \<Rightarrow> if Clean root = Clean cwd then Inr None else findLiveImplicitInDir h root \<sigma>))"

section \<open>Collecting tombstones\<close>

text \<open>Whether an entry is a tombstone that \<open>GCTombstones\<close> may delete.\<close>

definition expired :: "Time \<Rightarrow> string \<times> index_entry \<Rightarrow> bool" where
  "expired cutoff entry =
     (case entry of
        (name, TombFile c) \<Rightarrow>
          (case readRecordFile (Some c) of
             Inl _ \<Rightarrow> False
           | Inr s \<Rightarrow> (case s_ExitedAt s of None \<Rightarrow> False | Some t \<Rightarrow> \<not> t > cutoff))
      | _ \<Rightarrow> False)"

definition GCTombstones :: "Host \<Rightarrow> Time \<Rightarrow> Duration \<Rightarrow> RecordStore \<Rightarrow> (record_error + nat) \<times> RecordStore" where
  "GCTombstones h now retention \<sigma> =
     (if retention \<le> 0 then (Inr 0, \<sigma>)
      else case h_IndexListing h of
        Missing \<Rightarrow> (Inr 0, \<sigma>)
      | StatError \<Rightarrow> (Inl EIO, \<sigma>)
      | Present \<Rightarrow>
          let gone = filter (expired (now - retention)) (st_index \<sigma>) in
          if h_IndexWritable h
          then (Inr (length gone), \<sigma>\<lparr>st_index := filter (\<lambda>e. \<not> expired (now - retention) e) (st_index \<sigma>)\<rparr>)
          else (Inr 0, \<sigma>))"

section \<open>The one-shot migration\<close>

text \<open>\<open>migrateOne\<close> writes the record, the display copy and the index entry, or fails on the first it cannot.\<close>

definition migrateOne :: "Host \<Rightarrow> State \<Rightarrow> RecordStore \<Rightarrow> bool \<times> RecordStore" where
  "migrateOne h s \<sigma> =
     (let wt = s_WorktreePath s in
      if checkIdentity s wt \<noteq> None then (False, \<sigma>)
      else case writeRecordFile h wt s \<sigma> of
        (False, \<sigma>) \<Rightarrow> (False, \<sigma>)
      | (True, \<sigma>) \<Rightarrow>
          (case writeDisplayCopy h wt s \<sigma> of
             (False, \<sigma>) \<Rightarrow> (False, \<sigma>)
           | (True, \<sigma>) \<Rightarrow> writeIndexSymlink h wt \<sigma>))"

text \<open>One legacy file: whether it stays behind.\<close>

definition migrate_file :: "Host \<Rightarrow> string \<times> content \<Rightarrow> RecordStore \<Rightarrow> bool \<times> RecordStore" where
  "migrate_file h f \<sigma> =
     (case readRecordFile (Some (snd f)) of
        Inl _ \<Rightarrow> (True, \<sigma>)
      | Inr s \<Rightarrow>
          if m_Stat (h_Machine h) (s_WorktreePath s) = Missing
          then (\<not> h_FileRemovable h (fst f), \<sigma>)
          else case migrateOne h s \<sigma> of
                 (False, \<sigma>) \<Rightarrow> (True, \<sigma>)
               | (True, \<sigma>) \<Rightarrow> (\<not> h_FileRemovable h (fst f), \<sigma>))"

fun migrate_files :: "Host \<Rightarrow> (string \<times> content) list \<Rightarrow> RecordStore \<Rightarrow> (string \<times> content) list \<times> RecordStore" where
  "migrate_files h [] \<sigma> = ([], \<sigma>)"
| "migrate_files h (f # fs) \<sigma> =
     (case migrate_file h f \<sigma> of (stays, \<sigma>) \<Rightarrow>
        (case migrate_files h fs \<sigma> of (left, \<sigma>) \<Rightarrow> (if stays then f # left else left, \<sigma>)))"

definition runMigration :: "Host \<Rightarrow> RecordStore \<Rightarrow> RecordStore" where
  "runMigration h \<sigma> =
     (case migrate_files h (st_legacy \<sigma>) \<sigma> of (left, \<sigma>) \<Rightarrow> \<sigma>\<lparr>st_legacy := left\<rparr>)"

section \<open>What the frontend acts on\<close>

text \<open>Two stores with the same frontend part, and a host as another content of the worktrees lets it
  behave: the worker decides what its directory holds and whether it can be written.\<close>

definition same_frontend :: "RecordStore \<Rightarrow> RecordStore \<Rightarrow> bool" where
  "same_frontend \<sigma> \<tau> \<longleftrightarrow> st_index \<sigma> = st_index \<tau> \<and> st_records \<sigma> = st_records \<tau>"

definition worker_sets :: "(string \<Rightarrow> bool) \<Rightarrow> (string \<Rightarrow> bool) \<Rightarrow> Host \<Rightarrow> Host" where
  "worker_sets cw cr h = h\<lparr>h_CopyWritable := cw, h_CopyDirReal := cr\<rparr>"

text \<open>The frontend has a tombstone or a record for the worktree.\<close>

definition recorded :: "Host \<Rightarrow> string \<Rightarrow> RecordStore \<Rightarrow> bool" where
  "recorded h wt \<sigma> \<longleftrightarrow>
     (\<exists>c. index_at h wt \<sigma> = Some (TombFile c)) \<or> st_records \<sigma> (indexFilename h wt) \<noteq> None"

definition no_collision :: "Host \<Rightarrow> string \<Rightarrow> bool" where
  "no_collision h wt \<longleftrightarrow> (\<forall>p. h_Hash h (Clean p) = h_Hash h (Clean wt) \<longrightarrow> Clean p = Clean wt)"

named_theorems record_defs \<open>definitions of the record operations\<close>

lemmas [record_defs] = readRecordFile_def checkRecordLocation_def readTombstone_def legacyLoad_def
  writeRecordFile_def writeDisplayCopy_def writeIndexSymlink_def writeTombstoneFile_def drop_record_def
  removeDisplayCopy_def report_to_def Let_def

lemma same_frontend_refl [simp]: "same_frontend \<sigma> \<sigma>"
  and same_frontend_sym: "same_frontend \<sigma> \<tau> \<Longrightarrow> same_frontend \<tau> \<sigma>"
  and same_frontend_trans [trans]: "same_frontend \<sigma> \<tau> \<Longrightarrow> same_frontend \<tau> \<upsilon> \<Longrightarrow> same_frontend \<sigma> \<upsilon>"
  by (simp_all add: same_frontend_def)

lemma report_frontend [simp]: "same_frontend (report_to r \<sigma>) \<tau> = same_frontend \<sigma> \<tau>"
  "same_frontend \<sigma> (report_to r \<tau>) = same_frontend \<sigma> \<tau>"
  "same_frontend (\<sigma>\<lparr>st_files := f\<rparr>) \<tau> = same_frontend \<sigma> \<tau>"
  "same_frontend \<sigma> (\<tau>\<lparr>st_files := f\<rparr>) = same_frontend \<sigma> \<tau>"
  by (simp_all add: same_frontend_def report_to_def)

lemma report_to_select [simp]: "st_index (report_to r \<sigma>) = st_index \<sigma>"
  "st_records (report_to r \<sigma>) = st_records \<sigma>" "st_files (report_to r \<sigma>) = st_files \<sigma>"
  by (simp_all add: report_to_def)

lemma fold_same_frontend:
  assumes "\<And>x \<sigma>. same_frontend (f x \<sigma>) \<sigma>"
  shows "same_frontend (fold f xs \<sigma>) \<sigma>"
  by (induction xs arbitrary: \<sigma>) (auto intro: same_frontend_trans assms)

lemma compareDisplay_frontend [simp]: "same_frontend (compareDisplay h rec \<sigma>) \<sigma>"
proof -
  have "same_frontend (fold (\<lambda>(name, same, unset) \<sigma>. if same rec shown then \<sigma>
      else report_to (CopyDisagrees path (Key rec) name (whichSideSets (unset rec) (unset shown))) \<sigma>) fs \<sigma>) \<sigma>"
    for shown path fs by (rule fold_same_frontend) (auto split: prod.splits)
  then show ?thesis by (auto simp: compareDisplay_def Let_def split: option.splits content.splits)
qed

lemma same_index_at: "same_frontend \<sigma> \<tau> \<Longrightarrow> index_at h wt \<sigma> = index_at h wt \<tau>"
  by (simp add: same_frontend_def index_at_def)

lemma worker_sets_simps [simp]:
  "h_Hash (worker_sets cw cr h) = h_Hash h" "h_InUnit (worker_sets cw cr h) = h_InUnit h"
  "h_Machine (worker_sets cw cr h) = h_Machine h" "h_RecordsWritable (worker_sets cw cr h) = h_RecordsWritable h"
  "h_IndexWritable (worker_sets cw cr h) = h_IndexWritable h" "h_IndexListing (worker_sets cw cr h) = h_IndexListing h"
  "indexFilename (worker_sets cw cr h) = indexFilename h" "index_at (worker_sets cw cr h) = index_at h"
  "checkRecordLocation (worker_sets cw cr h) = checkRecordLocation h"
  by (simp_all add: worker_sets_def indexFilename_def index_at_def checkRecordLocation_def fun_eq_iff)

subsection \<open>Loading\<close>

lemma Clean_indexFilename [simp]: "IsAbs wt \<Longrightarrow> indexFilename h (Clean wt) = indexFilename h wt"
  by (simp add: indexFilename_def Clean_idem_abs)

text \<open>What loading a recorded session gives, as a function of the frontend part alone.\<close>

definition frontend_load :: "Host \<Rightarrow> string \<Rightarrow> RecordStore \<Rightarrow> record_error + State" where
  "frontend_load h wt \<sigma> =
     (case index_at h wt \<sigma> of
        Some (TombFile c) \<Rightarrow> map_sum id (\<lambda>s. s\<lparr>s_isTombstone := True\<rparr>)
          (case readRecordFile (Some c) of
             Inl e \<Rightarrow> Inl e
           | Inr s \<Rightarrow> if checkRecordLocation h s (indexFilename h wt) \<noteq> None then Inl ERefused else Inr s)
      | _ \<Rightarrow>
          (case readRecordFile (st_records \<sigma> (indexFilename h wt)) of
             Inl e \<Rightarrow> Inl e
           | Inr s \<Rightarrow> if checkRecordLocation h s (indexFilename h wt) \<noteq> None then Inl ERefused else Inr s))"

lemma load_recorded:
  assumes "recorded h (Clean wt) \<sigma>" "\<not> h_InUnit h"
  shows "fst (loadByWorktree h wt \<sigma>) = frontend_load h (Clean wt) \<sigma> \<and> same_frontend (snd (loadByWorktree h wt \<sigma>)) \<sigma>"
  using assms
  by (auto simp: recorded_def loadByWorktree_def frontend_load_def readTombstone_def readRecordFile_def Let_def
           split: option.splits index_entry.splits content.splits)

lemma frontend_load_same:
  assumes "same_frontend \<sigma> \<tau>"
  shows "frontend_load (worker_sets cw cr h) wt \<tau> = frontend_load h wt \<sigma>"
proof -
  have i: "index_at h wt \<tau> = index_at h wt \<sigma>" and r: "st_records \<tau> = st_records \<sigma>"
    using assms by (simp_all add: same_frontend_def index_at_def)
  show ?thesis unfolding frontend_load_def worker_sets_simps i r by (rule refl)
qed

lemma recorded_same:
  "same_frontend \<sigma> \<tau> \<Longrightarrow> recorded (worker_sets cw cr h) wt \<tau> = recorded h wt \<sigma>"
  by (simp add: recorded_def same_frontend_def index_at_def indexFilename_def worker_sets_def)

lemma load_noninterference:
  assumes "recorded h (Clean wt) \<sigma>" "\<not> h_InUnit h" "same_frontend \<sigma> \<tau>"
  shows "fst (loadByWorktree (worker_sets cw cr h) wt \<tau>) = fst (loadByWorktree h wt \<sigma>) \<and>
         same_frontend (snd (loadByWorktree (worker_sets cw cr h) wt \<tau>)) (snd (loadByWorktree h wt \<sigma>))"
proof -
  have r: "recorded (worker_sets cw cr h) (Clean wt) \<tau>" using assms recorded_same by blast
  from load_recorded[OF assms(1,2)] load_recorded[OF r] assms(2,3) frontend_load_same[OF assms(3)]
  show ?thesis by (metis same_frontend_sym same_frontend_trans worker_sets_simps(2))
qed

subsection \<open>Writing, updating, closing\<close>

text \<open>What a write leaves in the frontend part.\<close>

definition frontend_write :: "Host \<Rightarrow> State \<Rightarrow> RecordStore \<Rightarrow> record_error option \<times> RecordStore" where
  "frontend_write h s \<sigma> =
     (let wt = s_WorktreePath s; name = indexFilename h wt;
          \<sigma>' = \<sigma>\<lparr>st_records := (st_records \<sigma>)(name \<mapsto> marshal (keep_credential h wt s \<sigma>))\<rparr> in
      if wt = [] then (Some EInvalid, \<sigma>)
      else if stat_error (m_Stat (h_Machine h) wt) \<noteq> None then (stat_error (m_Stat (h_Machine h) wt), \<sigma>)
      else if checkIdentity s wt \<noteq> None then (Some EInvalid, \<sigma>)
      else if \<not> h_RecordsWritable h then (Some EIO, \<sigma>)
      else if \<not> h_IndexWritable h then (Some EIO, \<sigma>')
      else (None, \<sigma>'\<lparr>st_index := AList.update name (Symlink (worktreeStatePath wt)) (st_index \<sigma>)\<rparr>))"

lemma write_frontend:
  assumes "\<not> h_InUnit h"
  shows "fst (Write_session h s \<sigma>) = fst (frontend_write h s \<sigma>) \<and>
         same_frontend (snd (Write_session h s \<sigma>)) (snd (frontend_write h s \<sigma>))"
  using assms
  by (auto simp: Write_session_def frontend_write_def writeRecordFile_def writeDisplayCopy_def writeIndexSymlink_def
        Let_def same_frontend_def stat_error_def split: option.splits stat_result.splits)

lemma keep_credential_same:
  "same_frontend \<sigma> \<tau> \<Longrightarrow> keep_credential (worker_sets cw cr h) wt s \<tau> = keep_credential h wt s \<sigma>"
  by (simp add: keep_credential_def same_frontend_def)

lemma frontend_write_same:
  assumes "same_frontend \<sigma> \<tau>"
  shows "fst (frontend_write (worker_sets cw cr h) s \<tau>) = fst (frontend_write h s \<sigma>) \<and>
         same_frontend (snd (frontend_write (worker_sets cw cr h) s \<tau>)) (snd (frontend_write h s \<sigma>))"
  using assms keep_credential_same[OF assms, of cw cr h "s_WorktreePath s" s]
  by (auto simp: frontend_write_def Let_def same_frontend_def)

lemma write_noninterference:
  assumes "\<not> h_InUnit h" "same_frontend \<sigma> \<tau>"
  shows "fst (Write_session (worker_sets cw cr h) s \<tau>) = fst (Write_session h s \<sigma>) \<and>
         same_frontend (snd (Write_session (worker_sets cw cr h) s \<tau>)) (snd (Write_session h s \<sigma>))"
  using write_frontend[of h s \<sigma>] write_frontend[of "worker_sets cw cr h" s \<tau>]
    frontend_write_same[OF assms(2), of cw cr h s] assms(1)
  by (simp add: same_frontend_def)


lemma Tombstone_noninterference:
  assumes "recorded h (Clean (worktreeFromRepoBranch repoPath branch)) \<sigma>" "\<not> h_InUnit h"
  shows "fst (Tombstone_session (worker_sets cw cr h) repoPath branch sha (\<sigma>\<lparr>st_files := files\<rparr>)) =
           fst (Tombstone_session h repoPath branch sha \<sigma>) \<and>
         same_frontend (snd (Tombstone_session (worker_sets cw cr h) repoPath branch sha (\<sigma>\<lparr>st_files := files\<rparr>)))
           (snd (Tombstone_session h repoPath branch sha \<sigma>))"
proof (cases "validBranch branch")
  case True
  let ?wt = "worktreeFromRepoBranch repoPath branch"
  let ?\<tau> = "\<sigma>\<lparr>st_files := files\<rparr>" and ?k = "worker_sets cw cr h"
  from load_noninterference[OF assms, of ?\<tau> cw cr]
  have load: "fst (loadByWorktree ?k ?wt ?\<tau>) = fst (loadByWorktree h ?wt \<sigma>)"
    "same_frontend (snd (loadByWorktree h ?wt \<sigma>)) (snd (loadByWorktree ?k ?wt ?\<tau>))"
    by (simp_all add: same_frontend_sym)
  obtain r \<sigma>1 where r: "loadByWorktree h ?wt \<sigma> = (r, \<sigma>1)" by (cases "loadByWorktree h ?wt \<sigma>")
  obtain r' \<tau>1 where r': "loadByWorktree ?k ?wt ?\<tau> = (r', \<tau>1)" by (cases "loadByWorktree ?k ?wt ?\<tau>")
  have eq: "r' = r" "same_frontend \<sigma>1 \<tau>1" using load by (simp_all add: r r')
  show ?thesis
  proof (cases r)
    case (Inl e)
    then show ?thesis using True eq by (simp add: Tombstone_session_def Let_def r r' same_frontend_sym)
  next
    case (Inr st)
    then show ?thesis
      using True eq
      by (simp add: Tombstone_session_def Let_def r r' writeTombstoneFile_def drop_record_def
            removeDisplayCopy_def same_frontend_def)
  qed
qed (simp add: Tombstone_session_def)

subsection \<open>Listing\<close>

text \<open>Every live entry of the index that is not an implicit session's has its record.\<close>

definition listable :: "RecordStore \<Rightarrow> string \<times> index_entry \<Rightarrow> bool" where
  "listable \<sigma> e \<longleftrightarrow>
     (case snd e of Symlink target \<Rightarrow> \<not> HasPrefix (Base target) ''state-'' \<and> st_records \<sigma> (fst e) \<noteq> None | _ \<Rightarrow> True)"

definition all_recorded :: "RecordStore \<Rightarrow> bool" where
  "all_recorded \<sigma> \<longleftrightarrow> (\<forall>e \<in> set (st_index \<sigma>). listable \<sigma> e)"

lemma list_entry_frontend:
  assumes "listable \<sigma> e" "same_frontend \<sigma> \<tau>"
  shows "fst (list_entry (worker_sets cw cr h) e \<tau>) = fst (list_entry h e \<sigma>) \<and>
         same_frontend (snd (list_entry (worker_sets cw cr h) e \<tau>)) (snd (list_entry h e \<sigma>)) \<and>
         same_frontend (snd (list_entry h e \<sigma>)) \<sigma>"
proof -
  have r: "st_records \<tau> = st_records \<sigma>" and s: "same_frontend \<tau> \<sigma>"
    using assms(2) by (simp_all add: same_frontend_def)
  have cd: "same_frontend (compareDisplay h1 a \<tau>) (compareDisplay h2 a \<sigma>)" for h1 h2 a
    using s by (meson compareDisplay_frontend same_frontend_sym same_frontend_trans)
  obtain name x where e: "e = (name, x)" by (cases e)
  show ?thesis
  proof (cases x)
    case (Symlink target)
    then show ?thesis
      using assms(1) s cd
      by (auto simp: e listable_def list_entry_def loadLiveEntry_def readRecordFile_def r
               split: option.splits content.splits)
  qed (use s in \<open>auto simp: e list_entry_def readTombstone_def readRecordFile_def split: content.splits\<close>)
qed

lemma listable_same: "same_frontend \<sigma> \<tau> \<Longrightarrow> listable \<tau> e = listable \<sigma> e"
  by (cases "snd e") (simp_all add: listable_def same_frontend_def)

lemma list_entries_frontend:
  assumes "\<forall>e \<in> set es. listable \<sigma> e" "same_frontend \<sigma> \<tau>"
  shows "fst (list_entries (worker_sets cw cr h) es \<tau>) = fst (list_entries h es \<sigma>)"
  using assms
proof (induction es arbitrary: \<sigma> \<tau>)
  case (Cons e es)
  obtain a \<sigma>1 where a: "list_entry h e \<sigma> = (a, \<sigma>1)" by (cases "list_entry h e \<sigma>")
  obtain b \<tau>1 where b: "list_entry (worker_sets cw cr h) e \<tau> = (b, \<tau>1)"
    by (cases "list_entry (worker_sets cw cr h) e \<tau>")
  have one: "b = a" "same_frontend \<sigma>1 \<tau>1" "same_frontend \<sigma> \<sigma>1"
    using list_entry_frontend[of \<sigma> e \<tau> cw cr h] Cons.prems a b by (auto dest: same_frontend_sym)
  have "\<forall>x \<in> set es. listable \<sigma>1 x" using Cons.prems(1) listable_same[OF one(3)] by simp
  from Cons.IH[OF this one(2)] show ?case by (cases a) (simp_all add: a b one(1) split_beta)
qed simp

text \<open>
  Listing does not read the worktrees either: when every live entry has its record, the sessions
  listed are the same whatever the display copies say.
\<close>

theorem listing_ignores_worktrees:
  assumes "all_recorded \<sigma>"
  shows "fst (ListAll (worker_sets cw cr h) (\<sigma>\<lparr>st_files := files\<rparr>)) = fst (ListAll h \<sigma>)"
proof -
  have "\<forall>e \<in> set (sort_key fst (st_index \<sigma>)). listable \<sigma> e"
    using assms by (simp add: all_recorded_def)
  from list_entries_frontend[OF this, of "\<sigma>\<lparr>st_files := files\<rparr>" cw cr h]
  show ?thesis by (cases "h_IndexListing h") (simp_all add: ListAll_def split_beta)
qed

section \<open>Records are those of their sessions\<close>

lemma worktree_of_repo:
  assumes "IsAbs repoPath"
  shows "IsAbs (worktreeFromRepoBranch repoPath branch)"
    and "Clean (worktreeFromRepoBranch repoPath branch) = worktreeFromRepoBranch repoPath branch"
proof -
  have ne: "repoPath \<noteq> []" using assms by (auto simp: IsAbs_def)
  have a: "IsAbs (Join [repoPath, ''.worktrees'', branch] ''/'')"
    using assms by (auto simp: IsAbs_def HasPrefix_iff)
  show "IsAbs (worktreeFromRepoBranch repoPath branch)"
    using IsAbs_Clean[OF a] ne by (simp add: worktreeFromRepoBranch_def)
  show "Clean (worktreeFromRepoBranch repoPath branch) = worktreeFromRepoBranch repoPath branch"
    using Clean_idem_abs[OF a] ne by (simp add: worktreeFromRepoBranch_def)
qed

lemma checkIdentity_iff:
  "checkIdentity s wt = None \<longleftrightarrow>
     s_WorktreePath s \<noteq> [] \<and> Clean (s_WorktreePath s) = Clean wt \<and>
     (s_Kind s \<noteq> KindImplicit \<longrightarrow> IsAbs (s_RepoPath s) \<and> validBranch (s_Branch s) \<and>
        worktreeFromRepoBranch (s_RepoPath s) (s_Branch s) = Clean (s_WorktreePath s))"
  by (auto simp: checkIdentity_def)

lemma checkRecordLocation_iff:
  "checkRecordLocation h s name = None \<longleftrightarrow>
     indexFilename h (s_WorktreePath s) = name \<and> checkIdentity s (s_WorktreePath s) = None"
  by (auto simp: checkRecordLocation_def checkIdentity_iff)

lemma tombstone_mark [simp]:
  "checkIdentity (s\<lparr>s_isTombstone := b\<rparr>) = checkIdentity s"
  "checkRecordLocation h (s\<lparr>s_isTombstone := b\<rparr>) = checkRecordLocation h s"
  "checkRecordLocation h (s\<lparr>s_DeletedSHA := d\<rparr>) = checkRecordLocation h s"
  by (simp_all add: checkIdentity_def checkRecordLocation_def fun_eq_iff)

lemma load_identity:
  assumes "fst (loadByWorktree h wt \<sigma>) = Inr s" "no_collision h wt" "Clean wt = wt"
  shows "checkIdentity s wt = None"
proof -
  have loc: "checkIdentity x wt = None" if "checkRecordLocation h x (indexFilename h wt) = None" for x
    using that assms(2,3) by (auto simp: checkRecordLocation_iff checkIdentity_iff no_collision_def indexFilename_def)
  from assms(1,3) loc show ?thesis
    by (auto simp: loadByWorktree_def readTombstone_def legacyLoad_def writeRecordFile_def Let_def
          split: option.splits index_entry.splits sum.splits if_splits)
qed


section \<open>One trusted look\<close>

lemma load_twice:
  assumes load: "fst (loadByWorktree h wt \<sigma>) = Inr s" and nu: "\<not> h_InUnit h" and wt: "Clean wt = wt"
  shows "fst (loadByWorktree (worker_sets cw cr h) wt ((snd (loadByWorktree h wt \<sigma>))\<lparr>st_files := files\<rparr>)) = Inr s"
proof (cases "recorded h wt \<sigma>")
  case True
  then have r: "recorded h (Clean wt) \<sigma>" using wt by simp
  from load_recorded[OF r nu]
  have sf: "same_frontend \<sigma> (snd (loadByWorktree h wt \<sigma>))" by (simp add: same_frontend_sym)
  have sf': "same_frontend \<sigma> ((snd (loadByWorktree h wt \<sigma>))\<lparr>st_files := files\<rparr>)" using sf by simp
  from load_noninterference[OF r nu sf'] load show ?thesis by simp
next
  case False
  then have none: "st_records \<sigma> (indexFilename h wt) = None" "\<nexists>c. index_at h wt \<sigma> = Some (TombFile c)"
    by (auto simp: recorded_def)
  have "loadByWorktree h wt \<sigma> = legacyLoad h wt \<sigma>"
    using none wt
    by (auto simp: loadByWorktree_def Let_def readRecordFile_def split: option.split index_entry.split)
  then have leg: "fst (legacyLoad h wt \<sigma>) = Inr s" "snd (loadByWorktree h wt \<sigma>) = snd (legacyLoad h wt \<sigma>)"
    using load by simp_all
  then have s: "s_isTombstone s = False" "checkIdentity s wt = None"
    and rec: "st_records (snd (legacyLoad h wt \<sigma>)) (indexFilename h wt) = Some (marshal s)"
    and idx: "st_index (snd (legacyLoad h wt \<sigma>)) = st_index \<sigma>"
    using nu
    by (auto simp: legacyLoad_def Let_def readRecordFile_def writeRecordFile_def
          split: option.splits content.splits if_splits)
  have m: "s\<lparr>s_isTombstone := False\<rparr> = s" using s(1) by simp
  have loc: "checkRecordLocation h s (indexFilename h wt) = None"
    using s(2) by (auto simp: checkRecordLocation_iff checkIdentity_iff indexFilename_def)
  let ?k = "worker_sets cw cr h"
  define \<rho> where "\<rho> = (snd (loadByWorktree h wt \<sigma>))\<lparr>st_files := files\<rparr>"
  have r: "st_records \<rho> (indexFilename h wt) = Some (Holds s)" and i: "index_at h wt \<rho> = index_at h wt \<sigma>"
    using rec idx m by (simp_all add: \<rho>_def leg(2) marshal_def index_at_def)
  have "frontend_load ?k wt \<rho> = Inr s"
    using none(2) loc by (simp add: frontend_load_def i r readRecordFile_def m split: option.split index_entry.split)
  moreover have "recorded ?k (Clean wt) \<rho>" using r by (simp add: recorded_def wt)
  ultimately show ?thesis using load_recorded[of ?k wt \<rho>] nu wt by (simp add: \<rho>_def)
qed

text \<open>
  C18. A record found only in the worktree is trusted once: the first read that returns a state pins
  it, and from then on reading gives that same state whatever the worker writes in the worktree.
\<close>

theorem worktree_trusted_once:
  assumes "fst (Read_session h repoPath branch \<sigma>) = Inr s" "\<not> h_InUnit h" "IsAbs repoPath"
  shows "fst (Read_session (worker_sets cw cr h) repoPath branch
           ((snd (Read_session h repoPath branch \<sigma>))\<lparr>st_files := files\<rparr>)) = Inr s"
proof -
  note wt = worktree_of_repo(2)[OF assms(3), of branch]
  have v: "validBranch branch" using assms(1) by (simp add: Read_session_def split: if_splits)
  then show ?thesis using load_twice[OF _ assms(2) wt] assms(1) by (simp add: Read_session_def)
qed

section \<open>The store as a map of sessions\<close>

text \<open>A live session: no tombstone, and its record under its key.\<close>

definition live :: "Host \<Rightarrow> string \<Rightarrow> State \<Rightarrow> RecordStore \<Rightarrow> bool" where
  "live h wt s \<sigma> \<longleftrightarrow>
     (\<nexists>c. index_at h wt \<sigma> = Some (TombFile c)) \<and> \<not> s_isTombstone s \<and>
     st_records \<sigma> (indexFilename h wt) = Some (Holds s) \<and> checkRecordLocation h s (indexFilename h wt) = None"

lemma live_same: "same_frontend \<sigma> \<tau> \<Longrightarrow> live (worker_sets cw cr h) wt s \<tau> = live h wt s \<sigma>"
  by (simp add: live_def same_frontend_def index_at_def)

lemma live_recorded: "live h wt s \<sigma> \<Longrightarrow> recorded h wt \<sigma>"
  by (simp add: live_def recorded_def)

lemma live_load:
  assumes "live h wt s \<sigma>" "\<not> h_InUnit h" "Clean wt = wt"
  shows "fst (loadByWorktree h wt \<sigma>) = Inr s \<and> live h wt s (snd (loadByWorktree h wt \<sigma>))"
proof -
  have r: "recorded h (Clean wt) \<sigma>" using live_recorded[OF assms(1)] assms(3) by simp
  have "s\<lparr>s_isTombstone := False\<rparr> = s" using assms(1) by (simp add: live_def)
  then have f: "frontend_load h wt \<sigma> = Inr s"
    using assms(1) by (simp add: frontend_load_def live_def readRecordFile_def split: option.split index_entry.split)
  have "live h wt s \<tau>" if "same_frontend \<tau> \<sigma>" for \<tau>
    using assms(1) that by (simp add: live_def same_frontend_def index_at_def)
  with load_recorded[OF r assms(2)] assms(3) f show ?thesis by simp
qed

text \<open>The host takes the write of a session, and a change that keeps what names the session.\<close>

definition writable :: "Host \<Rightarrow> string \<Rightarrow> bool" where
  "writable h wt \<longleftrightarrow> \<not> h_InUnit h \<and> h_RecordsWritable h \<and> h_IndexWritable h \<and> m_Stat (h_Machine h) wt = Present"

definition keeps_identity :: "State \<Rightarrow> State \<Rightarrow> bool" where
  "keeps_identity s s' \<longleftrightarrow>
     s_WorktreePath s' = s_WorktreePath s \<and> s_Kind s' = s_Kind s \<and> s_RepoPath s' = s_RepoPath s \<and>
     s_Branch s' = s_Branch s \<and> s_isTombstone s' = s_isTombstone s \<and>
     (s_Credential s' = None \<longrightarrow> s_Credential s = None)"

lemma keeps_identity_location:
  "keeps_identity s s' \<Longrightarrow> checkRecordLocation h s' name = checkRecordLocation h s name"
  by (simp add: keeps_identity_def checkRecordLocation_def checkIdentity_def)

lemma update_live:
  assumes "live h wt s \<sigma>" "wt = worktreeFromRepoBranch repoPath branch" "IsAbs repoPath" "validBranch branch"
    and "writable h (s_WorktreePath s)" "keeps_identity s (fn s)"
  shows "fst (Update_session h repoPath branch (\<lambda>s. Inr (fn s) :: 'e + State) \<sigma>) = None \<and>
         live h wt (fn s) (snd (Update_session h repoPath branch (\<lambda>s. Inr (fn s) :: 'e + State) \<sigma>))"
proof -
  note cl = worktree_of_repo(2)[OF assms(3), of branch]
  have nu: "\<not> h_InUnit h" using assms(5) by (simp add: writable_def)
  obtain \<sigma>1 where l: "loadByWorktree h wt \<sigma> = (Inr s, \<sigma>1)" and live1: "live h wt s \<sigma>1"
    using live_load[OF assms(1) nu] assms(2) cl by (cases "loadByWorktree h wt \<sigma>") auto
  have wp: "indexFilename h (s_WorktreePath s) = indexFilename h wt" "checkIdentity s (s_WorktreePath s) = None"
    using assms(1) by (auto simp: live_def checkRecordLocation_iff)
  have wpe: "s_WorktreePath (fn s) = s_WorktreePath s" using assms(6) by (simp add: keeps_identity_def)
  have tomb: "\<not> s_isTombstone s" "\<not> s_isTombstone (fn s)"
    using assms(1,6) by (simp_all add: live_def keeps_identity_def)
  have cred: "keep_credential h (s_WorktreePath s) (fn s) \<sigma>1 = fn s"
  proof (cases "s_Credential (fn s) = None")
    case True
    then have "s_Credential s = None" using assms(6) by (simp add: keeps_identity_def)
    then show ?thesis using True live1
      by (simp add: keep_credential_def wp(1) live_def readRecordFile_def)
  qed (simp add: keep_credential_def del: not_None_eq)
  have ci: "checkIdentity (fn s) (s_WorktreePath s) = None"
    using wp(2) assms(6) by (auto simp: keeps_identity_def checkIdentity_iff)
  have ne: "s_WorktreePath s \<noteq> []" using wp(2) by (simp add: checkIdentity_iff)
  have fw: "frontend_write h (fn s) \<sigma>1 =
      (None, \<sigma>1\<lparr>st_records := (st_records \<sigma>1)(indexFilename h wt \<mapsto> marshal (fn s)),
         st_index := AList.update (indexFilename h wt) (Symlink (worktreeStatePath (s_WorktreePath s))) (st_index \<sigma>1)\<rparr>)"
    using assms(5) ne ci by (simp add: frontend_write_def Let_def wpe cred wp(1) writable_def stat_error_def)
  have m: "(fn s)\<lparr>s_isTombstone := False\<rparr> = fn s" using tomb(2) by simp
  have loc: "checkRecordLocation h (fn s) (indexFilename h wt) = None"
    using keeps_identity_location[OF assms(6)] assms(1) by (simp add: live_def)
  have w: "fst (Write_session h (fn s) \<sigma>1) = None" "live h wt (fn s) (snd (Write_session h (fn s) \<sigma>1))"
    using write_frontend[OF nu, of "fn s" \<sigma>1] tomb(2) loc
    by (simp_all add: fw live_def same_frontend_def index_at_def update_conv' marshal_def m)
  have "h_RecordsWritable h" using assms(5) by (simp add: writable_def)
  then have "Update_session h repoPath branch (\<lambda>s. Inr (fn s) :: 'e + State) \<sigma> =
      (case Write_session h (fn s) \<sigma>1 of (e, \<tau>) \<Rightarrow> (map_option StoreError e, \<tau>))"
    using assms(4) tomb(1) l by (simp add: Update_session_def Read_session_def assms(2))
  with w show ?thesis by (simp add: split_beta)
qed

lemma update_refused:
  assumes "live h wt s \<sigma>" "wt = worktreeFromRepoBranch repoPath branch" "IsAbs repoPath" "validBranch branch"
    and "writable h (s_WorktreePath s)" "c s = Inl e"
  shows "fst (Update_session h repoPath branch c \<sigma>) = Some (FnError e) \<and>
         live h wt s (snd (Update_session h repoPath branch c \<sigma>))"
proof -
  note cl = worktree_of_repo(2)[OF assms(3), of branch]
  have nu: "\<not> h_InUnit h" "h_RecordsWritable h" using assms(5) by (simp_all add: writable_def)
  obtain \<sigma>1 where l: "loadByWorktree h wt \<sigma> = (Inr s, \<sigma>1)" "live h wt s \<sigma>1"
    using live_load[OF assms(1) nu(1)] assms(2) cl by (cases "loadByWorktree h wt \<sigma>") auto
  moreover have "\<not> s_isTombstone s" using assms(1) by (simp add: live_def)
  ultimately show ?thesis using assms(2,4,6) nu(2) by (simp add: Update_session_def Read_session_def)
qed

lemma update_applied:
  assumes "live h wt s \<sigma>" "wt = worktreeFromRepoBranch repoPath branch" "IsAbs repoPath" "validBranch branch"
    and "writable h (s_WorktreePath s)" "c s = Inr s'" "keeps_identity s s'"
  shows "fst (Update_session h repoPath branch c \<sigma>) = None \<and> live h wt s' (snd (Update_session h repoPath branch c \<sigma>))"
proof -
  note cl = worktree_of_repo(2)[OF assms(3), of branch]
  have nu: "\<not> h_InUnit h" "h_RecordsWritable h" using assms(5) by (simp_all add: writable_def)
  have notomb: "\<not> s_isTombstone s" using assms(1) by (simp add: live_def)
  obtain \<sigma>1 where l: "loadByWorktree h wt \<sigma> = (Inr s, \<sigma>1)"
    using live_load[OF assms(1) nu(1)] assms(2) cl by (cases "loadByWorktree h wt \<sigma>") auto
  have "Update_session h repoPath branch c \<sigma> = Update_session h repoPath branch (\<lambda>_. Inr s') \<sigma>"
    using l notomb assms(2,4,6) nu(2) by (simp add: Update_session_def Read_session_def)
  then show ?thesis using update_live[where fn = "\<lambda>_. s'", OF assms(1-5,7)] by simp
qed

text \<open>The store keeps the contract of a locked update for a live session it can write.\<close>

definition store_update :: "Host \<Rightarrow> string \<Rightarrow> string \<Rightarrow> commit \<Rightarrow> RecordStore \<Rightarrow> bool \<times> RecordStore" where
  "store_update h repoPath branch c \<sigma> =
     (case Update_session h repoPath branch c \<sigma> of (err, \<sigma>') \<Rightarrow> (err = None, \<sigma>'))"

definition store_holds :: "Host \<Rightarrow> string \<Rightarrow> string \<Rightarrow> State \<Rightarrow> RecordStore \<Rightarrow> bool" where
  "store_holds h repoPath branch s \<sigma> \<longleftrightarrow>
     live h (worktreeFromRepoBranch repoPath branch) s \<sigma> \<and> IsAbs repoPath \<and> validBranch branch \<and>
     writable h (s_WorktreePath s)"

interpretation store: locked_update "store_update h repoPath branch" "store_holds h repoPath branch" keeps_identity
proof unfold_locales
  fix s \<sigma> and c :: commit and s'
  assume a: "store_holds h repoPath branch s \<sigma>" "c s = Inr s'" "keeps_identity s s'"
  then have "writable h (s_WorktreePath s')" by (simp add: store_holds_def keeps_identity_def)
  then show "fst (store_update h repoPath branch c \<sigma>) \<and> store_holds h repoPath branch s' (snd (store_update h repoPath branch c \<sigma>))"
    using a update_applied[of h _ s \<sigma> repoPath branch c s'] by (simp add: store_holds_def store_update_def split_beta)
next
  fix s \<sigma> and c :: commit
  assume a: "store_holds h repoPath branch s \<sigma>" "c s = Inl ()"
  then show "\<not> fst (store_update h repoPath branch c \<sigma>) \<and> store_holds h repoPath branch s (snd (store_update h repoPath branch c \<sigma>))"
    using update_refused[of h _ s \<sigma> repoPath branch c "()"] by (simp add: store_holds_def store_update_def split_beta)
qed

text \<open>A sequence of updates, each under a worker that has rewritten its worktree since the last.\<close>

fun run_updates ::
  "Host \<Rightarrow> string \<Rightarrow> string \<Rightarrow>
   ((State \<Rightarrow> State) \<times> (string \<Rightarrow> bool) \<times> (string \<Rightarrow> bool) \<times> (string \<rightharpoonup> content)) list \<Rightarrow> RecordStore \<Rightarrow> RecordStore" where
  "run_updates h repoPath branch [] \<sigma> = \<sigma>"
| "run_updates h repoPath branch ((fn, cw, cr, files) # us) \<sigma> =
     run_updates h repoPath branch us
       (snd (Update_session (worker_sets cw cr h) repoPath branch (\<lambda>s. Inr (fn s) :: unit + State) (\<sigma>\<lparr>st_files := files\<rparr>)))"


section \<open>Closing is final\<close>

lemma load_tombstone:
  assumes "index_at h wt \<sigma> = Some (TombFile (marshal s))" "Clean wt = wt" "\<not> h_InUnit h"
    and "checkRecordLocation h s (indexFilename h wt) = None"
  shows "fst (loadByWorktree h wt \<sigma>) = Inr (s\<lparr>s_isTombstone := True\<rparr>) \<and> same_frontend (snd (loadByWorktree h wt \<sigma>)) \<sigma>"
  using assms by (simp add: loadByWorktree_def readTombstone_def readRecordFile_def marshal_def Let_def)

lemma load_location:
  assumes "fst (loadByWorktree h wt \<sigma>) = Inr s" "Clean wt = wt"
  shows "checkRecordLocation h s (indexFilename h wt) = None"
  using assms
  by (auto simp: loadByWorktree_def readTombstone_def legacyLoad_def writeRecordFile_def Let_def
        checkRecordLocation_iff checkIdentity_iff indexFilename_def
        split: option.splits index_entry.splits sum.splits if_splits)


section \<open>Collection\<close>

text \<open>
  Collecting tombstones removes exactly the tombstones that can be read and whose exit lies at or
  before the retention: every other entry of the index, live or unreadable, and every record stays,
  and nothing is removed with a retention that is not positive.
\<close>

theorem only_expired_tombstones_go:
  assumes "distinct (map fst (st_index \<sigma>))"
  shows "let \<tau> = snd (GCTombstones h now retention \<sigma>) in
    st_records \<tau> = st_records \<sigma> \<and> st_files \<tau> = st_files \<sigma> \<and>
    (\<forall>name. map_of (st_index \<tau>) name =
       (case map_of (st_index \<sigma>) name of
          None \<Rightarrow> None
        | Some e \<Rightarrow>
            if 0 < retention \<and> h_IndexListing h = Present \<and> h_IndexWritable h \<and>
               (\<exists>s t. e = TombFile (Holds s) \<and> s_ExitedAt s = Some t \<and> t \<le> now - retention)
            then None else Some e))"
proof -
  have ex: "expired c (name, e) \<longleftrightarrow> (\<exists>s t. e = TombFile (Holds s) \<and> s_ExitedAt s = Some t \<and> t \<le> c)" for c name e
    by (auto simp: expired_def readRecordFile_def split: index_entry.splits content.splits option.splits)
  have "map_of (filter (\<lambda>e. \<not> expired c e) xs) name =
      (case map_of xs name of None \<Rightarrow> None | Some e \<Rightarrow> if expired c (name, e) then None else Some e)"
    if "distinct (map fst xs)" for c xs name
    using that
  proof (induction xs)
    case (Cons x xs)
    have "map_of xs (fst x) = None" using Cons.prems by (simp add: map_of_eq_None_iff)
    then show ?case using Cons by (cases x) (auto split: option.splits)
  qed simp
  from this[OF assms] show ?thesis
    by (auto simp: GCTombstones_def Let_def ex split: option.splits stat_result.splits)
qed

section \<open>The migration of a session whose copy cannot be written\<close>

text \<open>
  C30. The one-shot migration is neither one-shot nor idempotent for a session whose worktree refuses
  the display copy, which the worker decides: the legacy file stays behind, and every later
  process resets the record to that file's state, whatever has been recorded since.
\<close>

theorem blocked_copy_resets_the_record:
  assumes "st_legacy \<sigma> = [(path, Holds s)]" "\<not> s_isTombstone s" "checkIdentity s (s_WorktreePath s) = None"
    and "m_Stat (h_Machine h) (s_WorktreePath s) = Present" "h_RecordsWritable h" "\<not> h_CopyWritable h (s_WorktreePath s)"
  shows "st_legacy (runMigration h \<sigma>) = [(path, Holds s)] \<and>
         st_records (runMigration h \<sigma>) = (st_records \<sigma>)(indexFilename h (s_WorktreePath s) \<mapsto> Holds s)"
proof -
  have m: "s\<lparr>s_isTombstone := False\<rparr> = s" using assms(2) by simp
  show ?thesis
    using assms(1,3-)
    by (simp add: runMigration_def migrate_file_def migrateOne_def readRecordFile_def writeRecordFile_def
          writeDisplayCopy_def marshal_def Let_def m)
qed

section \<open>Examples\<close>

text \<open>One live session in a store, on a host that takes every write.\<close>

definition sample_host :: Host where
  "sample_host =
     \<lparr>h_Hash = (\<lambda>p. p), h_InUnit = False,
      h_Machine = \<lparr>m_Stat = (\<lambda>_. Present), m_Lstat = (\<lambda>_. Present), m_Kill0 = (\<lambda>_. True), m_ConfinedUnitRunning = None\<rparr>,
      h_RecordsWritable = True, h_IndexWritable = True, h_IndexListing = Present,
      h_CopyWritable = (\<lambda>_. True), h_CopyDirReal = (\<lambda>_. True), h_FileRemovable = (\<lambda>_. True),
      h_Glob = (\<lambda>_. None), h_EvalSymlinks = (\<lambda>_. None), h_DetectRepo = (\<lambda>_. None)\<rparr>"

definition sample_state :: State where
  "sample_state = empty_State\<lparr>s_RepoPath := ''/r'', s_Branch := ''b'', s_WorktreePath := ''/r/.worktrees/b'',
     s_SessionState := StateActive\<rparr>"

definition sample_store :: RecordStore where
  "sample_store =
     \<lparr>st_index = [(''/r/.worktrees/b.json'', Symlink ''/r/.worktrees/b/.spinclass/state.json'')],
      st_records = [''/r/.worktrees/b.json'' \<mapsto> Holds sample_state],
      st_files = [''/r/.worktrees/b/.spinclass/state.json'' \<mapsto> Garbage], st_legacy = [], st_reports = []\<rparr>"

lemma sample_facts:
  "worktreeFromRepoBranch ''/r'' ''b'' = ''/r/.worktrees/b''" "Clean ''/r/.worktrees/b'' = ''/r/.worktrees/b''"
  "validBranch ''b''" "IsAbs ''/r''" "\<not> HasPrefix (Base ''/r/.worktrees/b/.spinclass/state.json'') ''state-''"
  "indexFilename sample_host ''/r/.worktrees/b'' = ''/r/.worktrees/b.json''"
  "checkIdentity sample_state ''/r/.worktrees/b'' = None"
  by code_simp+

lemma sample_state_simps [simp]:
  "s_isTombstone sample_state = False" "s_WorktreePath sample_state = ''/r/.worktrees/b''"
  by (simp_all add: sample_state_def empty_State_def)

lemma sample_host_simps [simp]:
  "h_InUnit sample_host = False" "h_RecordsWritable sample_host = True" "h_IndexWritable sample_host = True"
  "m_Stat (h_Machine sample_host) = (\<lambda>_. Present)" "h_IndexListing sample_host = Present"
  by (simp_all add: sample_host_def)

lemma sample_live: "live sample_host (worktreeFromRepoBranch ''/r'' ''b'') sample_state sample_store"
  unfolding live_def index_at_def sample_facts(1) sample_facts(6) checkRecordLocation_iff sample_state_simps(2)
    sample_facts(7)
  by (simp add: sample_store_def)

lemma sample_recorded: "recorded sample_host (Clean (worktreeFromRepoBranch ''/r'' ''b'')) sample_store"
  using live_recorded[OF sample_live] by (simp only: sample_facts)


lemma listing_ignores_worktrees_witness:
  "fst (ListAll (worker_sets (\<lambda>_. False) (\<lambda>_. False) sample_host) (sample_store\<lparr>st_files := Map.empty\<rparr>)) =
   fst (ListAll sample_host sample_store)"
proof -
  have "all_recorded sample_store"
    using sample_facts(5) by (simp add: all_recorded_def listable_def sample_store_def)
  then show ?thesis by (rule listing_ignores_worktrees)
qed

lemma sample_read: "fst (Read_session sample_host ''/r'' ''b'' sample_store) = Inr sample_state"
  using live_load[OF sample_live] sample_facts by (simp add: Read_session_def)


lemma worktree_trusted_once_witness:
  "fst (Read_session (worker_sets (\<lambda>_. True) (\<lambda>_. True) sample_host) ''/r'' ''b''
     ((snd (Read_session sample_host ''/r'' ''b'' sample_store))\<lparr>st_files := Map.empty\<rparr>)) = Inr sample_state"
  using worktree_trusted_once[OF sample_read _ sample_facts(4)] by simp



lemma only_expired_tombstones_go_witness:
  "map_of (st_index (snd (GCTombstones sample_host 100 10
      (sample_store\<lparr>st_index := [(''k'', TombFile (Holds (sample_state\<lparr>s_ExitedAt := Some 80\<rparr>)))]\<rparr>)))) ''k'' = None"
  using only_expired_tombstones_go[of
      "sample_store\<lparr>st_index := [(''k'', TombFile (Holds (sample_state\<lparr>s_ExitedAt := Some 80\<rparr>)))]\<rparr>" sample_host 100 10]
  by (simp add: Let_def)

lemma blocked_copy_resets_the_record_witness:
  "st_records (runMigration (sample_host\<lparr>h_CopyWritable := (\<lambda>_. False)\<rparr>)
      (sample_store\<lparr>st_legacy := [(''/old'', Holds sample_state)],
         st_records := [''/r/.worktrees/b.json'' \<mapsto> Holds (sample_state\<lparr>s_Holders := [''p'']\<rparr>)]\<rparr>)) =
     [''/r/.worktrees/b.json'' \<mapsto> Holds sample_state]"
proof -
  let ?\<sigma> = "sample_store\<lparr>st_legacy := [(''/old'', Holds sample_state)],
         st_records := [''/r/.worktrees/b.json'' \<mapsto> Holds (sample_state\<lparr>s_Holders := [''p'']\<rparr>)]\<rparr>"
  let ?h = "sample_host\<lparr>h_CopyWritable := (\<lambda>_. False)\<rparr>"
  have "indexFilename ?h (s_WorktreePath sample_state) = ''/r/.worktrees/b.json''"
    using sample_facts(6) by (simp add: indexFilename_def)
  then show ?thesis
    using blocked_copy_resets_the_record[of ?\<sigma> "''/old''" sample_state ?h] sample_facts(7) by simp
qed

end
