(* ===== verification/Restart.thy ===== *)
theory Restart
  imports SessionRecord SessionHandles Trust SessionClose
begin

text \<open>
  Restarting a session (\<open>src/cmd/spinclass/restart_cmd.go\<close>, \<open>restart_hung_cmd.go\<close>, the handle guards of
  \<open>handles_cmd.go\<close>, \<open>close_child_cmd.go\<close> and \<open>close_self_cmd.go\<close>, \<open>resume_principal.go\<close>, and the return
  mark of \<open>delta/hooks/hooks.go\<close>): a request recorded and handed off, the frontend's preflight that
  consumes it, its re-arming, its cancellation, the watchdog and the bounded forced restart, over the
  session records of \<open>SessionRecord\<close>. What runs outside (the hand-off command, the job file, the
  frontend's principal mapping, the sweatfile hierarchy on disk, the wakes) is the environment.
  Each locked update is one function on the record; the last sections interleave them.
\<close>

section \<open>The principal a session resumes as\<close>

definition principalPlaceholder :: string where
  "principalPlaceholder = ''{principal}''"

definition lower_hex :: "char \<Rightarrow> bool" where
  "lower_hex c \<longleftrightarrow> c \<in> set ''0123456789abcdef''"

definition uuidShaped :: "string \<Rightarrow> bool" where
  "uuidShaped s \<longleftrightarrow>
     map length (split1 CHR ''-'' s) = [8, 4, 4, 4, 12] \<and> list_all (list_all lower_hex) (split1 CHR ''-'' s)"

datatype resume_error = EnforcedWithoutPlaceholder string | NoRecordedPrincipal | NotUUID string

text \<open>The entry to run and whether it warns.\<close>

definition applyRecordedPrincipal ::
  "string list \<Rightarrow> string \<Rightarrow> bool \<Rightarrow> bool \<Rightarrow> resume_error + (string list \<times> bool)" where
  "applyRecordedPrincipal entry prin enforced shellFallback =
     (if shellFallback then Inr (entry, False)
      else if \<not> list_ex (\<lambda>a. Contains a principalPlaceholder) entry then
        (if prin = [] then Inr (entry, False)
         else if enforced then Inl (EnforcedWithoutPlaceholder prin)
         else Inr (entry, True))
      else if prin = [] then Inl NoRecordedPrincipal
      else if \<not> uuidShaped prin then Inl (NotUUID prin)
      else Inr (map (\<lambda>a. ReplaceAll a principalPlaceholder prin) entry, False))"

section \<open>The environment\<close>

record Job =
  jb_ID :: string
  jb_Kind :: string
  jb_Status :: string

record restart_env =
  re_host :: Host
  re_World :: World
  re_home :: "string option"
  re_LoadHierarchy :: "string \<Rightarrow> string \<Rightarrow> Hierarchy option"
  re_ReadJob :: "string \<Rightarrow> Job option"
  re_StateDir :: bool
  re_PrincipalOfSession :: "string \<Rightarrow> string \<Rightarrow> string + string option"
  re_LaunchedConfined :: "string \<Rightarrow> bool"
  re_SessionKeyOfPrincipal :: "string \<Rightarrow> string option"
  re_currentPrincipal :: string
  re_currentSessionKey :: string
  re_callerConfined :: bool
  re_Handoff :: "string \<Rightarrow> string list \<Rightarrow> bool"
  re_RestartRefusalOf :: "State \<Rightarrow> Time option"

datatype wake =
  RestartingNow string string
| RefusedAndCleared
| RearmRefused
| CancelledBy string
| NotBack
| CancelledByClown Time
| ForceRestarted string

datatype restart_event =
  HandedOff string "string list"
| Woken string wake
| WatchdogArmed string Time

record restart_world =
  rw_store :: RecordStore
  rw_now :: Time
  rw_events :: "restart_event list"

definition happens :: "restart_event list \<Rightarrow> restart_world \<Rightarrow> restart_world" where
  "happens es w = w\<lparr>rw_events := rw_events w @ es\<rparr>"

datatype obstacle = MainCheckout | CannotResume resume_error | NoHandoffConfigured | JobRunning string string

datatype guard_error = ImplicitTarget | ClosedTarget
datatype handle_error = NoCaller | SpawnerHasReleased | NoHandleHeld | RightNotHeld string | RightsPanic
datatype owner_error = NoStateDir | MappingFailed string | ConfinedUnmapped | NoPrincipalRecorded

datatype restart_error =
  Blocked obstacle
| HomeUnresolved
| HierarchyUnreadable
| StoreFailed record_error
| HandoffFailed
| NoRestartSession
| NoSuchSession
| AmbiguousTarget
| Guarded guard_error
| Unauthorized handle_error
| OwnerUnknown owner_error
| ChildRequired
| ConfinedCaller
| RestartsItselfAsHung
| NotHung
| CoolingDown Time

section \<open>Sessions and handles\<close>

definition find_session :: "restart_env \<Rightarrow> string \<Rightarrow> restart_world \<Rightarrow> (restart_error + State) \<times> restart_world" where
  "find_session e target w =
     (case ListAll (re_host e) (rw_store w) of
        (Inl err, \<sigma>) \<Rightarrow> (Inl (StoreFailed err), w\<lparr>rw_store := \<sigma>\<rparr>)
      | (Inr states, \<sigma>) \<Rightarrow>
          (case FindByTarget states target of
             TargetNotFound _ \<Rightarrow> Inl NoSuchSession
           | Ambiguous _ _ \<Rightarrow> Inl AmbiguousTarget
           | Found st \<Rightarrow> Inr st, w\<lparr>rw_store := \<sigma>\<rparr>))"

definition guardHandleTarget :: "Host \<Rightarrow> State \<Rightarrow> guard_error option" where
  "guardHandleTarget h child =
     (if s_Kind child = KindImplicit then Some ImplicitTarget
      else if ResolveState (h_Machine h) child = StateAbandoned then Some ClosedTarget
      else None)"

text \<open>\<open>mutate\<close> returns the changed record, or \<open>None\<close> for no change. The state handed in comes back as
  it was written.\<close>

definition updateLoadedSession ::
  "restart_env \<Rightarrow> State \<Rightarrow> (State \<Rightarrow> State option) \<Rightarrow> restart_world \<Rightarrow> record_error option \<times> State \<times> restart_world" where
  "updateLoadedSession e st mutate w =
     (let h = re_host e; repo = s_RepoPath st; branch = s_Branch st;
          fn = (\<lambda>cur. case mutate cur of None \<Rightarrow> Inl () | Some new \<Rightarrow> Inr new);
          reached = validBranch branch \<and> h_RecordsWritable h;
          seen = (case fst (Read_session h repo branch (rw_store w)) of
                    Inl _ \<Rightarrow> None | Inr cur \<Rightarrow> if s_isTombstone cur \<or> \<not> reached then None else mutate cur)
      in case Update_session h repo branch fn (rw_store w) of (res, \<sigma>) \<Rightarrow>
           (case res of Some (StoreError err) \<Rightarrow> Some err | _ \<Rightarrow> None,
            case seen of None \<Rightarrow> st | Some new \<Rightarrow> new,
            w\<lparr>rw_store := \<sigma>\<rparr>))"

definition keyPathMatches :: "string \<Rightarrow> State \<Rightarrow> bool" where
  "keyPathMatches callerKey child \<longleftrightarrow> callerKey \<noteq> [] \<and> s_SpawnedBy child = callerKey"

definition authorizeHandleUse :: "string \<Rightarrow> string \<Rightarrow> State \<Rightarrow> handle_error option" where
  "authorizeHandleUse callerPrincipal callerKey child =
     (if callerPrincipal = [] then Some NoCaller
      else if IsHolder child callerPrincipal then None
      else if keyPathMatches callerKey child then
        (if s_SpawnerReleased child then Some SpawnerHasReleased else None)
      else Some NoHandleHeld)"

definition callerHandleRights :: "string \<Rightarrow> State \<Rightarrow> HandleRightSet go_result" where
  "callerHandleRights callerPrincipal child =
     (case RightsOf child callerPrincipal of
        Panic \<Rightarrow> Panic
      | Ret (Some r) \<Rightarrow> if IsHolder child callerPrincipal then Ret r else Ret (set HandleRightNames)
      | Ret None \<Rightarrow> Ret (set HandleRightNames))"

definition requireHandleRight :: "string \<Rightarrow> string \<Rightarrow> State \<Rightarrow> handle_error option" where
  "requireHandleRight right callerPrincipal child =
     (case callerHandleRights callerPrincipal child of
        Panic \<Rightarrow> Some RightsPanic
      | Ret held \<Rightarrow>
          if right \<in> held then None
          else (case HoldersWith child right of Panic \<Rightarrow> Some RightsPanic | Ret _ \<Rightarrow> Some (RightNotHeld right)))"

definition ownerPrincipal :: "restart_env \<Rightarrow> State \<Rightarrow> string \<Rightarrow> owner_error + string" where
  "ownerPrincipal e st implied =
     (if \<not> re_StateDir e then Inl NoStateDir
      else case re_PrincipalOfSession e (Key st) (s_WorktreePath st) of
        Inl err \<Rightarrow> Inl (MappingFailed err)
      | Inr (Some p) \<Rightarrow> Inr p
      | Inr None \<Rightarrow>
          if re_LaunchedConfined e (s_WorktreePath st) then Inl ConfinedUnmapped
          else if implied \<noteq> [] then Inr implied
          else if s_Principal st \<noteq> [] then Inr (s_Principal st)
          else Inl NoPrincipalRecorded)"

definition callerSession :: "restart_env \<Rightarrow> restart_world \<Rightarrow> (restart_error + string \<times> State) \<times> restart_world" where
  "callerSession e w =
     (let prin = re_currentPrincipal e in
      case re_SessionKeyOfPrincipal e prin of
        None \<Rightarrow> (Inl NoRestartSession, w)
      | Some key \<Rightarrow>
          (case find_session e key w of
             (Inl err, w) \<Rightarrow> (Inl err, w)
           | (Inr st, w) \<Rightarrow>
               (case guardHandleTarget (re_host e) st of
                  Some g \<Rightarrow> (Inl (Guarded g), w)
                | None \<Rightarrow> (Inr (prin, st), w))))"

definition accept_commit :: "string \<Rightarrow> State \<Rightarrow> State option" where
  "accept_commit who cur = (case AcceptHandle cur who of (new, changed) \<Rightarrow> if changed then Some new else None)"

definition authorizeRestartChild ::
  "restart_env \<Rightarrow> string \<Rightarrow> restart_world \<Rightarrow> (restart_error + State \<times> string) \<times> restart_world" where
  "authorizeRestartChild e target w =
     (let caller = re_currentPrincipal e; callerKey = re_currentSessionKey e;
          decide = (\<lambda>child. case authorizeHandleUse caller callerKey child of
              Some err \<Rightarrow> Inl (Unauthorized err)
            | None \<Rightarrow> (case requireHandleRight ''restart'' caller child of
                         Some err \<Rightarrow> Inl (Unauthorized err)
                       | None \<Rightarrow> Inr (child, caller)))
      in case find_session e target w of
        (Inl err, w) \<Rightarrow> (Inl err, w)
      | (Inr child, w) \<Rightarrow>
          (case guardHandleTarget (re_host e) child of
             Some g \<Rightarrow> (Inl (Guarded g), w)
           | None \<Rightarrow>
               if IsPendingHolder child caller then
                 (case updateLoadedSession e (fst (AcceptHandle child caller)) (accept_commit caller) w of
                    (Some err, _, w) \<Rightarrow> (Inl (StoreFailed err), w)
                  | (None, child, w) \<Rightarrow> (decide child, w))
               else (decide child, w)))"

section \<open>Queueing a restart\<close>

definition restartWhenIdle :: string where "restartWhenIdle = ''idle''"
definition restartWhenNow :: string where "restartWhenNow = ''now''"

text \<open>\<open>strings.NewReplacer\<close>: one pass, at each place the first pair in argument order that matches.\<close>

fun replace_first_match :: "(string \<times> string) list \<Rightarrow> string \<Rightarrow> (string \<times> string) option" where
  "replace_first_match [] s = None"
| "replace_first_match ((old, new) # ps) s =
     (if HasPrefix s old then Some (old, new) else replace_first_match ps s)"

function Replacer :: "(string \<times> string) list \<Rightarrow> string \<Rightarrow> string" where
  "Replacer ps [] = []"
| "Replacer ps (c # cs) =
     (case replace_first_match ps (c # cs) of
        None \<Rightarrow> c # Replacer ps cs
      | Some (old, new) \<Rightarrow>
          if old = [] then c # Replacer ps cs else new @ Replacer ps (drop (length old) (c # cs)))"
  by pat_completeness auto
termination by (relation "measure (length \<circ> snd)") auto

definition handoff_pairs :: "string \<Rightarrow> string \<Rightarrow> string \<Rightarrow> string \<Rightarrow> (string \<times> string) list" where
  "handoff_pairs prin key whn reason =
     [(principalPlaceholder, prin), (''{session-key}'', key), (''{when}'', whn), (''{reason}'', reason)]"

definition expandRestartHandoff :: "string list \<Rightarrow> string \<Rightarrow> string \<Rightarrow> string \<Rightarrow> string \<Rightarrow> string list" where
  "expandRestartHandoff argv prin key whn reason = map (Replacer (handoff_pairs prin key whn reason)) argv"

datatype plan = PlanFails restart_error | PlanBlocked obstacle | PlanArgv "string list"

definition restartPlan :: "restart_env \<Rightarrow> State \<Rightarrow> string \<Rightarrow> bool \<Rightarrow> plan" where
  "restartPlan e st prin force =
     (if s_Kind st = KindImplicit then PlanBlocked MainCheckout
      else case applyRecordedPrincipal [principalPlaceholder] prin False False of
        Inl err \<Rightarrow> PlanBlocked (CannotResume err)
      | Inr _ \<Rightarrow>
          (case re_home e of
             None \<Rightarrow> PlanFails HomeUnresolved
           | Some home \<Rightarrow>
               (case re_LoadHierarchy e home (s_RepoPath st) of
                  None \<Rightarrow> PlanFails HierarchyUnreadable
                | Some h \<Rightarrow>
                    let argv = slice_elems (fst (TrustedRestartHandoff (re_World e) h home (s_RepoPath st))) in
                    if length argv = 0 then PlanBlocked NoHandoffConfigured
                    else case re_ReadJob e (s_WorktreePath st) of
                      None \<Rightarrow> PlanArgv argv
                    | Some j \<Rightarrow>
                        if \<not> force \<and> jb_Status j = ''running'' then PlanBlocked (JobRunning (jb_Kind j) (jb_ID j))
                        else PlanArgv argv)))"

definition record_request :: "RestartRequest \<Rightarrow> State \<Rightarrow> State option" where
  "record_request req cur = Some (cur\<lparr>s_RestartRequest := Some req\<rparr>)"

definition clear_request :: "State \<Rightarrow> State option" where
  "clear_request cur = Some (cur\<lparr>s_RestartRequest := None\<rparr>)"

definition queueRestart ::
  "restart_env \<Rightarrow> State \<Rightarrow> string \<Rightarrow> string \<Rightarrow> string \<Rightarrow> bool \<Rightarrow> restart_world \<Rightarrow> restart_error option \<times> restart_world" where
  "queueRestart e st requester prin reason force w =
     (case restartPlan e st prin force of
        PlanFails err \<Rightarrow> (Some err, w)
      | PlanBlocked obstacle \<Rightarrow> (Some (Blocked obstacle), w)
      | PlanArgv argv \<Rightarrow>
          let whn = (if force then restartWhenNow else restartWhenIdle);
              request = \<lparr>rq_RequestedAt = rw_now w, rq_Requester = requester, rq_Reason = reason, rq_When = whn\<rparr>
          in case updateLoadedSession e st (record_request request) w of
               (Some err, _, w) \<Rightarrow> (Some (StoreFailed err), w)
             | (None, st, w) \<Rightarrow>
                 (let expanded = expandRestartHandoff argv prin (Key st) whn reason;
                      w = happens [HandedOff (s_WorktreePath st) expanded] w
                  in if re_Handoff e (s_WorktreePath st) expanded then (None, w)
                     else (Some HandoffFailed, snd (snd (updateLoadedSession e st clear_request w)))))"

definition or_default :: "string \<Rightarrow> string \<Rightarrow> string" where
  "or_default reason fallback = (if reason = [] then fallback else reason)"

definition runRestartThisSession :: "restart_env \<Rightarrow> string \<Rightarrow> bool \<Rightarrow> restart_world \<Rightarrow> restart_error option \<times> restart_world" where
  "runRestartThisSession e reason force w =
     (case callerSession e w of
        (Inl err, w) \<Rightarrow> (Some err, w)
      | (Inr (prin, st), w) \<Rightarrow>
          queueRestart e st prin prin (or_default reason ''requested by the session itself'') force w)"

definition runRestartChild :: "restart_env \<Rightarrow> string \<Rightarrow> string \<Rightarrow> bool \<Rightarrow> restart_world \<Rightarrow> restart_error option \<times> restart_world" where
  "runRestartChild e child reason force w =
     (if child = [] then (Some ChildRequired, w)
      else case authorizeRestartChild e child w of
        (Inl err, w) \<Rightarrow> (Some err, w)
      | (Inr (st, callerPrincipal), w) \<Rightarrow>
          (case ownerPrincipal e st [] of
             Inl err \<Rightarrow> (Some (OwnerUnknown err), w)
           | Inr childPrincipal \<Rightarrow>
               queueRestart e st callerPrincipal childPrincipal (or_default reason ''requested by a holder'') force w))"

definition handleRestartChildSession ::
  "restart_env \<Rightarrow> string \<Rightarrow> string \<Rightarrow> bool \<Rightarrow> restart_world \<Rightarrow> restart_error option \<times> restart_world" where
  "handleRestartChildSession e child reason force w =
     (if re_callerConfined e then (Some ConfinedCaller, w) else runRestartChild e child reason force w)"

section \<open>The frontend's preflight\<close>

datatype verdict_reason =
  NoPrincipalTied
| NoSessionNamed string
| NothingQueued
| IsImplicit
| IsClosed
| IsBeingClosed
| IsLive
| RefusedFor obstacle
| RefusedOwner owner_error
| RefusedRight handle_error
| RefusedNoRequester
| RequestedBy string string
| NewerQueued
| NotInFlight
| CameBack
| RearmsExhausted
| WindowPassed
| RearmRaced

record restartVerdict =
  rv_Verdict :: string
  rv_Reason :: verdict_reason
  rv_When :: string
  rv_State :: string

definition noRestart :: "verdict_reason \<Rightarrow> restartVerdict" where
  "noRestart r = \<lparr>rv_Verdict = ''none'', rv_Reason = r, rv_When = [], rv_State = []\<rparr>"

definition verdict_restart :: "RestartRequest \<Rightarrow> restartVerdict" where
  "verdict_restart req =
     \<lparr>rv_Verdict = ''restart'', rv_Reason = RequestedBy (rq_Requester req) (rq_Reason req), rv_When = rq_When req, rv_State = []\<rparr>"

definition verdict_refused :: "RestartRequest \<Rightarrow> verdict_reason \<Rightarrow> restartVerdict" where
  "verdict_refused req r = \<lparr>rv_Verdict = ''refused'', rv_Reason = r, rv_When = rq_When req, rv_State = []\<rparr>"

definition peek_verdict :: "verdict_reason \<Rightarrow> string \<Rightarrow> restartVerdict" where
  "peek_verdict r state = \<lparr>rv_Verdict = ''none'', rv_Reason = r, rv_When = [], rv_State = state\<rparr>"

definition peek_judge :: "Host \<Rightarrow> State \<Rightarrow> restartVerdict" where
  "peek_judge h st =
     (if s_isTombstone st \<or> ResolveState (h_Machine h) st = StateAbandoned then peek_verdict IsClosed ''closed''
      else if s_ClosingAt st \<noteq> None then peek_verdict IsBeingClosed ''closed''
      else peek_verdict IsLive ''live'')"

definition runRestartPeek :: "restart_env \<Rightarrow> string \<Rightarrow> restart_world \<Rightarrow> (restart_error + restartVerdict) \<times> restart_world" where
  "runRestartPeek e target w =
     (case (if target = [] then re_SessionKeyOfPrincipal e (re_currentPrincipal e) else Some target) of
        None \<Rightarrow> (Inr (peek_verdict NoPrincipalTied ''closed''), w)
      | Some target \<Rightarrow>
          (case find_session e target w of
             (Inl NoSuchSession, w) \<Rightarrow> (Inr (peek_verdict (NoSessionNamed target) ''closed''), w)
           | (Inl err, w) \<Rightarrow> (Inl err, w)
           | (Inr st, w) \<Rightarrow> (Inr (peek_judge (re_host e) st), w)))"

text \<open>The session and the principal it was resolved from, or the verdict to print.\<close>

definition resolveRestartTarget ::
  "restart_env \<Rightarrow> string \<Rightarrow> restart_world \<Rightarrow> (restart_error + (restartVerdict + State \<times> string)) \<times> restart_world" where
  "resolveRestartTarget e target w =
     (let implied = (if target = [] then re_currentPrincipal e else []);
          key = (if target = [] then re_SessionKeyOfPrincipal e implied else Some target)
      in case key of
           None \<Rightarrow> (Inr (Inl (noRestart NoPrincipalTied)), w)
         | Some key \<Rightarrow>
             (case find_session e key w of
                (Inl NoSuchSession, w) \<Rightarrow> (Inr (Inl (noRestart (NoSessionNamed key))), w)
              | (Inl err, w) \<Rightarrow> (Inl err, w)
              | (Inr st, w) \<Rightarrow> (Inr (Inr (st, implied)), w)))"

text \<open>What the preflight decides on the record as it read it: an answer, an internal error, a refusal
  that consumes the request, or a restart still to be committed.\<close>

datatype decision =
  Answer restartVerdict
| Failure restart_error
| Refuse string RestartRequest verdict_reason
| GoAhead string RestartRequest

definition preflight_switch :: "Host \<Rightarrow> State \<Rightarrow> verdict_reason + RestartRequest" where
  "preflight_switch h st =
     (case s_RestartRequest st of
        None \<Rightarrow> Inl NothingQueued
      | Some req \<Rightarrow>
          if s_Kind st = KindImplicit then Inl IsImplicit
          else if ResolveState (h_Machine h) st = StateAbandoned then Inl IsClosed
          else if s_ClosingAt st \<noteq> None then Inl IsBeingClosed
          else Inr req)"

definition preflight_judge :: "restart_env \<Rightarrow> State \<Rightarrow> string \<Rightarrow> decision" where
  "preflight_judge e st implied =
     (case preflight_switch (re_host e) st of
        Inl r \<Rightarrow> Answer (noRestart r)
      | Inr req \<Rightarrow>
          (case ownerPrincipal e st implied of
             Inl err \<Rightarrow> Refuse [] req (RefusedOwner err)
           | Inr prin \<Rightarrow>
               (case restartPlan e st prin (rq_When req = restartWhenNow) of
                  PlanFails err \<Rightarrow> Failure err
                | PlanBlocked ob \<Rightarrow> Refuse prin req (RefusedFor ob)
                | PlanArgv _ \<Rightarrow> GoAhead prin req)))"

text \<open>The locked update of a restart verdict.\<close>

definition consume_commit :: "RestartRequest \<Rightarrow> Time \<Rightarrow> State \<Rightarrow> unit + State" where
  "consume_commit req now cur =
     (if s_ClosingAt cur \<noteq> None then Inl ()
      else Inr (cur\<lparr>s_RestartRequest := None, s_RestartingAt := Some now, s_RestartingFirstAt := Some now,
                    s_RestartRearms := 0, s_RestartingBy := rq_Requester req, s_RestartingReason := rq_Reason req\<rparr>))"

text \<open>Everybody woken is woken best effort. A refusal goes to the other holders and the requester.\<close>

definition refusal_targets :: "State \<Rightarrow> string \<Rightarrow> RestartRequest \<Rightarrow> string list" where
  "refusal_targets st prin req =
     (let targets = OtherHolders st prin in
      if rq_Requester req \<noteq> [] \<and> rq_Requester req \<noteq> prin \<and> rq_Requester req \<notin> set targets
      then targets @ [rq_Requester req] else targets)"

definition wakeRestartAudience :: "string list \<Rightarrow> wake \<Rightarrow> restart_world \<Rightarrow> restart_world" where
  "wakeRestartAudience targets msg w = happens (map (\<lambda>t. Woken t msg) targets) w"

definition armRestartWatchdog :: "restart_env \<Rightarrow> State \<Rightarrow> Time \<Rightarrow> restart_world \<Rightarrow> restart_world" where
  "armRestartWatchdog e st restartingAt w =
     (if \<not> re_StateDir e \<or> re_LaunchedConfined e (s_WorktreePath st) then w
      else happens [WatchdogArmed (Key st) restartingAt] w)"

definition runRestartPreflight ::
  "restart_env \<Rightarrow> string \<Rightarrow> restart_world \<Rightarrow> (restart_error + restartVerdict) \<times> restart_world" where
  "runRestartPreflight e target w =
     (case resolveRestartTarget e target w of
        (Inl err, w) \<Rightarrow> (Inl err, w)
      | (Inr (Inl verdict), w) \<Rightarrow> (Inr verdict, w)
      | (Inr (Inr (st, implied)), w) \<Rightarrow>
          (case preflight_judge e st implied of
             Answer v \<Rightarrow> (Inr v, w)
           | Failure err \<Rightarrow> (Inl err, w)
           | Refuse prin req r \<Rightarrow>
               (case updateLoadedSession e st clear_request w of
                  (_, st, w) \<Rightarrow> (Inr (verdict_refused req r), wakeRestartAudience (refusal_targets st prin req) RefusedAndCleared w))
           | GoAhead prin req \<Rightarrow>
               (case Update_session (re_host e) (s_RepoPath st) (s_Branch st) (consume_commit req (rw_now w)) (rw_store w) of
                  (Some (FnError _), \<sigma>) \<Rightarrow> (Inr (noRestart IsBeingClosed), w\<lparr>rw_store := \<sigma>\<rparr>)
                | (Some (StoreError err), \<sigma>) \<Rightarrow> (Inl (StoreFailed err), w\<lparr>rw_store := \<sigma>\<rparr>)
                | (None, \<sigma>) \<Rightarrow>
                    (Inr (verdict_restart req),
                     armRestartWatchdog e st (rw_now w)
                       (wakeRestartAudience (RestartWakeTargets st (rq_Requester req) prin)
                          (RestartingNow (rq_Reason req) (rq_Requester req)) (w\<lparr>rw_store := \<sigma>\<rparr>))))))"

section \<open>Re-arming\<close>

definition maxRestartRearms :: int where "maxRestartRearms = 2"

definition restartRearmWindow :: Duration where "restartRearmWindow = RestartInFlightWindow"

definition back_since :: "State \<Rightarrow> Time \<Rightarrow> bool" where
  "back_since st t \<longleftrightarrow> (case s_RestartedAt st of None \<Rightarrow> False | Some b \<Rightarrow> \<not> b < t)"

definition rearmRequesterAllowed :: "restart_env \<Rightarrow> State \<Rightarrow> string \<Rightarrow> string \<Rightarrow> verdict_reason option" where
  "rearmRequesterAllowed e st requester own =
     (if requester = [] then Some RefusedNoRequester
      else if requester = own then None
      else
        let key = (case re_SessionKeyOfPrincipal e requester of None \<Rightarrow> [] | Some k \<Rightarrow> k) in
        case authorizeHandleUse requester key st of
          Some err \<Rightarrow> Some (RefusedRight err)
        | None \<Rightarrow> map_option RefusedRight (requireHandleRight ''restart'' requester st))"

definition rearm_switch :: "Host \<Rightarrow> Time \<Rightarrow> State \<Rightarrow> verdict_reason option" where
  "rearm_switch h now st =
     (if s_Kind st = KindImplicit then Some IsImplicit
      else if ResolveState (h_Machine h) st = StateAbandoned then Some IsClosed
      else if s_ClosingAt st \<noteq> None then Some IsBeingClosed
      else if s_RestartRequest st \<noteq> None then Some NewerQueued
      else case s_RestartingAt st of
        None \<Rightarrow> Some NotInFlight
      | Some at \<Rightarrow>
          if back_since st at then Some CameBack
          else if s_RestartRearms st \<ge> maxRestartRearms then Some RearmsExhausted
          else
            let first = (case s_RestartingFirstAt st of None \<Rightarrow> at | Some f \<Rightarrow> f) in
            if now - first \<ge> restartRearmWindow then Some WindowPassed else None)"

definition rearm_request :: "State \<Rightarrow> Time \<Rightarrow> RestartRequest" where
  "rearm_request st now =
     \<lparr>rq_RequestedAt = now, rq_Requester = s_RestartingBy st, rq_Reason = s_RestartingReason st, rq_When = restartWhenIdle\<rparr>"

definition rearm_judge :: "restart_env \<Rightarrow> State \<Rightarrow> string \<Rightarrow> Time \<Rightarrow> decision" where
  "rearm_judge e st implied now =
     (case rearm_switch (re_host e) now st of
        Some r \<Rightarrow> Answer (noRestart r)
      | None \<Rightarrow>
          let req = rearm_request st now in
          case ownerPrincipal e st implied of
            Inl err \<Rightarrow> Refuse [] req (RefusedOwner err)
          | Inr prin \<Rightarrow>
              (case rearmRequesterAllowed e st (rq_Requester req) prin of
                 Some r \<Rightarrow> Refuse prin req r
               | None \<Rightarrow>
                   (case restartPlan e st prin False of
                      PlanFails err \<Rightarrow> Failure err
                    | PlanBlocked ob \<Rightarrow> Refuse prin req (RefusedFor ob)
                    | PlanArgv _ \<Rightarrow> GoAhead prin req)))"

text \<open>The locked update of a re-arm: a close that began since, or any other change, wins.\<close>

definition rearm_commit :: "Time \<Rightarrow> State \<Rightarrow> verdict_reason + State" where
  "rearm_commit now cur =
     (if s_ClosingAt cur \<noteq> None then Inl IsBeingClosed
      else case s_RestartingAt cur of
        None \<Rightarrow> Inl RearmRaced
      | Some at \<Rightarrow>
          if s_RestartRequest cur \<noteq> None \<or> s_RestartRearms cur \<ge> maxRestartRearms \<or> back_since cur at then Inl RearmRaced
          else Inr (cur\<lparr>s_RestartingFirstAt := (case s_RestartingFirstAt cur of None \<Rightarrow> Some at | f \<Rightarrow> f),
                        s_RestartingAt := Some now, s_RestartRearms := s_RestartRearms cur + 1\<rparr>))"

definition runRestartRearm ::
  "restart_env \<Rightarrow> string \<Rightarrow> restart_world \<Rightarrow> (restart_error + restartVerdict) \<times> restart_world" where
  "runRestartRearm e target w =
     (case resolveRestartTarget e target w of
        (Inl err, w) \<Rightarrow> (Inl err, w)
      | (Inr (Inl verdict), w) \<Rightarrow> (Inr verdict, w)
      | (Inr (Inr (st, implied)), w) \<Rightarrow>
          (case rearm_judge e st implied (rw_now w) of
             Answer v \<Rightarrow> (Inr v, w)
           | Failure err \<Rightarrow> (Inl err, w)
           | Refuse prin req r \<Rightarrow>
               (Inr (verdict_refused req r), wakeRestartAudience (refusal_targets st prin req) RearmRefused w)
           | GoAhead prin req \<Rightarrow>
               (case Update_session (re_host e) (s_RepoPath st) (s_Branch st) (rearm_commit (rw_now w)) (rw_store w) of
                  (Some (FnError r), \<sigma>) \<Rightarrow> (Inr (noRestart r), w\<lparr>rw_store := \<sigma>\<rparr>)
                | (Some (StoreError err), \<sigma>) \<Rightarrow> (Inl (StoreFailed err), w\<lparr>rw_store := \<sigma>\<rparr>)
                | (None, \<sigma>) \<Rightarrow> (Inr (verdict_restart req), armRestartWatchdog e st (rw_now w) (w\<lparr>rw_store := \<sigma>\<rparr>)))))"

section \<open>Cancelling, watching, coming back\<close>

definition cancel_commit :: "State \<Rightarrow> State option" where
  "cancel_commit cur = (if s_RestartRequest cur = None then None else Some (cur\<lparr>s_RestartRequest := None\<rparr>))"

datatype cancel_result = NothingToCancel | Cancelled

definition runCancelRestart ::
  "restart_env \<Rightarrow> string \<Rightarrow> restart_world \<Rightarrow> (restart_error + cancel_result) \<times> restart_world" where
  "runCancelRestart e child w =
     (let own_or = (\<lambda>st. case ownerPrincipal e st [] of Inl _ \<Rightarrow> [] | Inr p \<Rightarrow> p) in
      case (if child = []
            then (case callerSession e w of (Inl err, w) \<Rightarrow> (Inl err, w) | (Inr (caller, st), w) \<Rightarrow> (Inr (st, caller, caller), w))
            else (case authorizeRestartChild e child w of
                    (Inl err, w) \<Rightarrow> (Inl err, w) | (Inr (st, caller), w) \<Rightarrow> (Inr (st, caller, own_or st), w))) of
        (Inl err, w) \<Rightarrow> (Inl err, w)
      | (Inr (st, caller, own), w) \<Rightarrow>
          (case s_RestartRequest st of
             None \<Rightarrow> (Inr NothingToCancel, w)
           | Some req \<Rightarrow>
               (case updateLoadedSession e st cancel_commit w of
                  (Some err, _, w) \<Rightarrow> (Inl (StoreFailed err), w)
                | (None, _, w) \<Rightarrow>
                    (Inr Cancelled,
                     if rq_Requester req = [] \<or> rq_Requester req = caller \<or> rq_Requester req = own then w
                     else happens [Woken (rq_Requester req) (CancelledBy caller)] w))))"

definition handleCancelRestart ::
  "restart_env \<Rightarrow> string \<Rightarrow> restart_world \<Rightarrow> (restart_error + cancel_result) \<times> restart_world" where
  "handleCancelRestart e child w =
     (if child \<noteq> [] \<and> re_callerConfined e then (Inl ConfinedCaller, w) else runCancelRestart e child w)"

text \<open>Whether the watchdog of the restart begun at \<open>since\<close> has anything to say.\<close>

definition watch_speaks :: "Host \<Rightarrow> Time \<Rightarrow> State \<Rightarrow> bool" where
  "watch_speaks h since st \<longleftrightarrow>
     \<not> (s_isTombstone st \<or> ResolveState (h_Machine h) st = StateAbandoned \<or> s_ClosingAt st \<noteq> None) \<and>
     \<not> back_since st since \<and>
     \<not> (case s_RestartingAt st of None \<Rightarrow> False | Some t \<Rightarrow> t > since)"

definition runRestartWatch :: "restart_env \<Rightarrow> string \<Rightarrow> Time \<Rightarrow> restart_world \<Rightarrow> restart_error option \<times> restart_world" where
  "runRestartWatch e target since w =
     (case find_session e target w of
        (Inl NoSuchSession, w) \<Rightarrow> (None, w)
      | (Inl err, w) \<Rightarrow> (Some err, w)
      | (Inr st, w) \<Rightarrow>
          if \<not> watch_speaks (re_host e) since st then (None, w)
          else let own = (case ownerPrincipal e st [] of Inl _ \<Rightarrow> [] | Inr p \<Rightarrow> p);
                   msg = (case re_RestartRefusalOf e st of
                            None \<Rightarrow> NotBack
                          | Some at \<Rightarrow> if \<not> at < since - 2 * Second then CancelledByClown at else NotBack) in
            (None, wakeRestartAudience (RestartWakeTargets st (s_RestartingBy st) own) msg w))"

text \<open>The return mark of the relaunched session's start hook.\<close>

definition return_commit :: "Time \<Rightarrow> State \<Rightarrow> unit + State" where
  "return_commit now cur =
     (case s_RestartingAt cur of
        None \<Rightarrow> Inl ()
      | Some at \<Rightarrow> if back_since cur at then Inl () else Inr (cur\<lparr>s_RestartedAt := Some now\<rparr>))"

section \<open>The forced restart of a hung session\<close>

definition hungRestartCooldown :: Duration where "hungRestartCooldown = 24 * Hour"

definition claim_day :: "Time \<Rightarrow> State \<Rightarrow> Time + State" where
  "claim_day now cur =
     (case s_ForcedRestartAt cur of
        Some t \<Rightarrow> if now - t < hungRestartCooldown then Inl t else Inr (cur\<lparr>s_ForcedRestartAt := Some now\<rparr>)
      | None \<Rightarrow> Inr (cur\<lparr>s_ForcedRestartAt := Some now\<rparr>))"

definition refuseSelfRestartAsHung :: "string \<Rightarrow> string \<Rightarrow> string \<Rightarrow> State \<Rightarrow> bool" where
  "refuseSelfRestartAsHung callerPrincipal callerKey childPrincipal child \<longleftrightarrow>
     callerPrincipal = childPrincipal \<or> (callerKey \<noteq> [] \<and> callerKey = Key child)"

text \<open>The claimed day is given back when the restart could not be queued; \<open>hung\<close> is the session's
  verdict, \<open>why\<close> its reason and \<open>previous\<close> the mark the claim found.\<close>

definition restartHungWith ::
  "restart_env \<Rightarrow> State \<Rightarrow> string \<Rightarrow> string \<Rightarrow> string \<Rightarrow> bool \<Rightarrow> string \<Rightarrow> restart_world \<Rightarrow> restart_error option \<times> restart_world" where
  "restartHungWith e child caller childPrincipal reason hung why w =
     (if \<not> hung then (Some NotHung, w)
      else
        let h = re_host e; repo = s_RepoPath child; branch = s_Branch child; now = rw_now w;
            previous = (case fst (Read_session h repo branch (rw_store w)) of Inl _ \<Rightarrow> None | Inr cur \<Rightarrow> s_ForcedRestartAt cur)
        in case Update_session h repo branch (claim_day now) (rw_store w) of
             (Some (FnError t), \<sigma>) \<Rightarrow> (Some (CoolingDown t), w\<lparr>rw_store := \<sigma>\<rparr>)
           | (Some (StoreError err), \<sigma>) \<Rightarrow> (Some (StoreFailed err), w\<lparr>rw_store := \<sigma>\<rparr>)
           | (None, \<sigma>) \<Rightarrow>
               (case queueRestart e child caller childPrincipal (''hung: '' @ or_default reason why) True (w\<lparr>rw_store := \<sigma>\<rparr>) of
                  (Some err, w) \<Rightarrow>
                    (Some err,
                     w\<lparr>rw_store := snd (Update_session h repo branch
                         (\<lambda>cur. Inr (cur\<lparr>s_ForcedRestartAt := previous\<rparr>) :: unit + State) (rw_store w))\<rparr>)
                | (None, w) \<Rightarrow>
                    (None, wakeRestartAudience (RestartWakeTargets child caller childPrincipal) (ForceRestarted caller) w)))"

definition runRestartHung ::
  "restart_env \<Rightarrow> string \<Rightarrow> string \<Rightarrow> (State \<Rightarrow> bool \<times> string) \<Rightarrow> restart_world \<Rightarrow> restart_error option \<times> restart_world" where
  "runRestartHung e child reason health w =
     (if child = [] then (Some ChildRequired, w)
      else case authorizeRestartChild e child w of
        (Inl err, w) \<Rightarrow> (Some err, w)
      | (Inr (st, caller), w) \<Rightarrow>
          (case ownerPrincipal e st [] of
             Inl err \<Rightarrow> (Some (OwnerUnknown err), w)
           | Inr childPrincipal \<Rightarrow>
               if refuseSelfRestartAsHung caller (re_currentSessionKey e) childPrincipal st then (Some RestartsItselfAsHung, w)
               else case health st of (hung, why) \<Rightarrow> restartHungWith e st caller childPrincipal reason hung why w))"

definition handleRestartHungChild ::
  "restart_env \<Rightarrow> string \<Rightarrow> string \<Rightarrow> (State \<Rightarrow> bool \<times> string) \<Rightarrow> restart_world \<Rightarrow> restart_error option \<times> restart_world" where
  "handleRestartHungChild e child reason health w =
     (if re_callerConfined e then (Some ConfinedCaller, w) else runRestartHung e child reason health w)"

section \<open>The hand-off\<close>

lemma Replacer_plain:
  assumes "CHR ''{'' \<notin> set a"
  shows "Replacer (handoff_pairs prin key whn reason) (a @ b) = a @ Replacer (handoff_pairs prin key whn reason) b"
  using assms
  by (induction a) (auto simp: handoff_pairs_def principalPlaceholder_def HasPrefix_iff)

text \<open>
  The hand-off is expanded in one pass: what stands for the reason is the reason itself, so a
  reason that contains placeholders, or anything else, reaches the frontend as one unchanged part
  of one argument, and the number of arguments is the template's.
\<close>

theorem handoff_keeps_the_reason:
  assumes "CHR ''{'' \<notin> set a" "CHR ''{'' \<notin> set b"
  shows "expandRestartHandoff (pre @ [a @ ''{reason}'' @ b] @ post) prin key whn reason =
         expandRestartHandoff pre prin key whn reason @ [a @ reason @ b] @ expandRestartHandoff post prin key whn reason"
proof -
  let ?R = "Replacer (handoff_pairs prin key whn reason)"
  have "?R (''{reason}'' @ b) = reason @ ?R b"
    by (simp add: handoff_pairs_def principalPlaceholder_def HasPrefix_iff)
  moreover have "?R b = b" using Replacer_plain[OF assms(2), of prin key whn reason "[]"] by simp
  ultimately have "?R (a @ ''{reason}'' @ b) = a @ reason @ b" using Replacer_plain[OF assms(1)] by simp
  then show ?thesis by (simp add: expandRestartHandoff_def)
qed

lemma handoff_keeps_the_reason_witness:
  "expandRestartHandoff [''--reason={reason}''] ''p'' ''k'' ''idle'' ''why {principal}'' = [''--reason=why {principal}'']"
  using handoff_keeps_the_reason[of "''--reason=''" "[]" "[]" "[]" "''p''" "''k''" "''idle''" "''why {principal}''"]
  by (simp add: expandRestartHandoff_def)

section \<open>What a restart verdict means\<close>

lemma restartPlan_argv:
  assumes "restartPlan e st prin force = PlanArgv argv"
  shows "s_Kind st \<noteq> KindImplicit \<and> uuidShaped prin \<and> argv \<noteq> [] \<and>
    (\<exists>home h. re_home e = Some home \<and> re_LoadHierarchy e home (s_RepoPath st) = Some h \<and>
       argv = slice_elems (fst (TrustedRestartHandoff (re_World e) h home (s_RepoPath st)))) \<and>
    (\<not> force \<longrightarrow> (\<forall>j. re_ReadJob e (s_WorktreePath st) = Some j \<longrightarrow> jb_Status j \<noteq> ''running''))"
proof -
  have c: "Contains principalPlaceholder principalPlaceholder" by code_simp
  from assms show ?thesis
    by (auto simp: restartPlan_def applyRecordedPrincipal_def c Let_def split: if_splits option.splits sum.splits)
qed

lemma preflight_go:
  assumes "preflight_judge e st implied = GoAhead prin req"
  shows "s_RestartRequest st = Some req \<and> s_Kind st \<noteq> KindImplicit \<and> s_ClosingAt st = None \<and>
    ResolveState (h_Machine (re_host e)) st \<noteq> StateAbandoned \<and> ownerPrincipal e st implied = Inr prin \<and>
    (\<exists>argv. restartPlan e st prin (rq_When req = restartWhenNow) = PlanArgv argv)"
  using assms
  by (auto simp: preflight_judge_def preflight_switch_def split: sum.splits option.splits plan.splits if_splits)

lemma preflight_resolved:
  assumes "resolveRestartTarget e target w = (Inr (Inr (st, implied)), w1)"
  shows "runRestartPreflight e target w = (case preflight_judge e st implied of
         Answer v \<Rightarrow> (Inr v, w1)
       | Failure err \<Rightarrow> (Inl err, w1)
       | Refuse prin req r \<Rightarrow>
           (case updateLoadedSession e st clear_request w1 of
              (_, st, w) \<Rightarrow> (Inr (verdict_refused req r), wakeRestartAudience (refusal_targets st prin req) RefusedAndCleared w))
       | GoAhead prin req \<Rightarrow>
           (case Update_session (re_host e) (s_RepoPath st) (s_Branch st) (consume_commit req (rw_now w1)) (rw_store w1) of
              (Some (FnError _), \<sigma>) \<Rightarrow> (Inr (noRestart IsBeingClosed), w1\<lparr>rw_store := \<sigma>\<rparr>)
            | (Some (StoreError err), \<sigma>) \<Rightarrow> (Inl (StoreFailed err), w1\<lparr>rw_store := \<sigma>\<rparr>)
            | (None, \<sigma>) \<Rightarrow>
                (Inr (verdict_restart req),
                 armRestartWatchdog e st (rw_now w1)
                   (wakeRestartAudience (RestartWakeTargets st (rq_Requester req) prin)
                      (RestartingNow (rq_Reason req) (rq_Requester req)) (w1\<lparr>rw_store := \<sigma>\<rparr>)))))"
  by (simp add: runRestartPreflight_def assms)

text \<open>A restart verdict comes only from a judgement that goes ahead.\<close>

lemma judged_answer: "preflight_judge e st implied = Answer v \<Longrightarrow> rv_Verdict v \<noteq> ''restart''"
  by (auto simp: preflight_judge_def noRestart_def split: sum.splits plan.splits)

lemma restart_resolved:
  assumes "runRestartPreflight e target w = (Inr v, w')" "rv_Verdict v = ''restart''"
  obtains st implied w1 where "resolveRestartTarget e target w = (Inr (Inr (st, implied)), w1)"
proof -
  have soon: "rv_Verdict x \<noteq> ''restart''" if "resolveRestartTarget e target w = (Inr (Inl x), w1)" for x w1
    using that by (auto simp: resolveRestartTarget_def noRestart_def Let_def split: option.splits prod.splits sum.splits restart_error.splits)
  obtain x w1 where x: "resolveRestartTarget e target w = (x, w1)" by (cases "resolveRestartTarget e target w")
  have "\<exists>st implied. x = Inr (Inr (st, implied))"
  proof (cases x)
    case (Inl a)
    then show ?thesis using assms(1) x by (simp add: runRestartPreflight_def)
  next
    case (Inr a)
    then show ?thesis using assms x soon by (cases a) (auto simp: runRestartPreflight_def)
  qed
  then show thesis using x that by auto
qed

lemma committed_verdict:
  assumes "fst (case (res, \<sigma>) of
      (Some (FnError _), \<sigma>) \<Rightarrow> (Inr (noRestart IsBeingClosed), f \<sigma>)
    | (Some (StoreError err), \<sigma>) \<Rightarrow> (Inl (StoreFailed err), f \<sigma>)
    | (None, \<sigma>) \<Rightarrow> (Inr (verdict_restart req), g \<sigma>)) = Inr v" "rv_Verdict v = ''restart''"
  shows "rv_When v = rq_When req"
proof (cases res)
  case None
  then have "v = verdict_restart req" using assms by simp
  then show ?thesis by (simp add: verdict_restart_def)
next
  case (Some err)
  then have "v = noRestart IsBeingClosed" using assms by (cases err) simp_all
  then show ?thesis using assms(2) by (simp add: noRestart_def)
qed

lemma restart_was_judged:
  assumes "runRestartPreflight e target w = (Inr v, w')" "rv_Verdict v = ''restart''"
    and r: "resolveRestartTarget e target w = (Inr (Inr (st, implied)), w1)"
  obtains prin req where "preflight_judge e st implied = GoAhead prin req" "rv_When v = rq_When req"
proof (cases "preflight_judge e st implied")
  case (GoAhead prin req)
  obtain res \<sigma> where u: "Update_session (re_host e) (s_RepoPath st) (s_Branch st) (consume_commit req (rw_now w1)) (rw_store w1) = (res, \<sigma>)"
    by (cases "Update_session (re_host e) (s_RepoPath st) (s_Branch st) (consume_commit req (rw_now w1)) (rw_store w1)")
  have "fst (runRestartPreflight e target w) = Inr v" using assms(1) by simp
  from committed_verdict[OF this[unfolded preflight_resolved[OF r] GoAhead u decision.case] assms(2)] GoAhead
  show thesis by (rule that[rotated])
next
  case (Refuse prin req reason)
  obtain x1 x2 x3 where "updateLoadedSession e st clear_request w1 = (x1, x2, x3)"
    by (cases "updateLoadedSession e st clear_request w1")
  then show thesis using assms preflight_resolved[OF r] Refuse by (auto simp: verdict_refused_def)
qed (use assms preflight_resolved[OF r] judged_answer in auto)

text \<open>
  C19. The frontend is told to restart a session only when a request was queued for it, it is an open
  worktree session not being closed, the principal it resumes under is known and UUID-shaped, an
  operator's sweatfile above the repository gives the hand-off, and no merge or check runs there
  unless the request was a forced one; the verdict carries the request's own timing.
\<close>

theorem restart_verdict_is_authorized:
  assumes "runRestartPreflight e target w = (Inr v, w')" "rv_Verdict v = ''restart''"
  shows "\<exists>st implied w1 prin req argv home h.
    resolveRestartTarget e target w = (Inr (Inr (st, implied)), w1) \<and>
    s_RestartRequest st = Some req \<and> rv_When v = rq_When req \<and>
    s_Kind st \<noteq> KindImplicit \<and> s_ClosingAt st = None \<and> ResolveState (h_Machine (re_host e)) st \<noteq> StateAbandoned \<and>
    ownerPrincipal e st implied = Inr prin \<and> uuidShaped prin \<and>
    re_home e = Some home \<and> re_LoadHierarchy e home (s_RepoPath st) = Some h \<and> argv \<noteq> [] \<and>
    argv = slice_elems (fst (TrustedRestartHandoff (re_World e) h home (s_RepoPath st))) \<and>
    (rq_When req \<noteq> restartWhenNow \<longrightarrow>
       (\<forall>j. re_ReadJob e (s_WorktreePath st) = Some j \<longrightarrow> jb_Status j \<noteq> ''running''))"
proof -
  from restart_resolved[OF assms] obtain st implied w1
    where r: "resolveRestartTarget e target w = (Inr (Inr (st, implied)), w1)" .
  from restart_was_judged[OF assms r] obtain prin req
    where g: "preflight_judge e st implied = GoAhead prin req" and w: "rv_When v = rq_When req" .
  note judged = preflight_go[OF g]
  then obtain argv where a: "restartPlan e st prin (rq_When req = restartWhenNow) = PlanArgv argv" by blast
  note plan = restartPlan_argv[OF a]
  then obtain home h where h: "re_home e = Some home" "re_LoadHierarchy e home (s_RepoPath st) = Some h"
    "argv = slice_elems (fst (TrustedRestartHandoff (re_World e) h home (s_RepoPath st)))" by blast
  show ?thesis
    by (intro exI[of _ st] exI[of _ implied] exI[of _ w1] exI[of _ prin] exI[of _ req] exI[of _ argv] exI[of _ home]
          exI[of _ h]) (use r judged plan h w in simp)
qed

section \<open>Interleaving\<close>

text \<open>The locked update that marks a session closing (\<open>beginClosing\<close> of the close) as a function on the
  record; the close refuses exactly when it does.\<close>

definition closing_commit :: "bool \<Rightarrow> Time \<Rightarrow> State \<Rightarrow> unit + State" where
  "closing_commit force now cur =
     (if \<not> force \<and> RestartInFlight cur now then Inl () else Inr (cur\<lparr>s_ClosingAt := Some now\<rparr>))"

lemma beginClosing_commits:
  assumes "k_record K repoPath branch (cs_world s) = Inr cur"
  shows "fst (beginClosing K repoPath branch force s) = None \<longleftrightarrow>
         closing_commit force (c_now (k_clean K) (cs_world s)) cur \<noteq> Inl ()"
  using assms by (simp add: beginClosing_def closing_commit_def Let_def)

text \<open>
  One live session's record, the clock, the preflights that have judged a request and not committed,
  the number of re-arms in the same place, and what has been said so far, newest first. Every other
  writer of the record leaves the restart fields alone.
\<close>

datatype said = Restarted Time | Rearmed Time | MarkedClosing Time bool | ClosingLifted

record restart_sys =
  ry_rec :: State
  ry_now :: Time
  ry_preflights :: "RestartRequest list"
  ry_rearms :: nat
  ry_log :: "said list"

definition same_restart :: "State \<Rightarrow> State \<Rightarrow> bool" where
  "same_restart a b \<longleftrightarrow>
     s_ClosingAt a = s_ClosingAt b \<and> s_RestartingAt a = s_RestartingAt b \<and>
     s_RestartingFirstAt a = s_RestartingFirstAt b \<and> s_RestartRearms a = s_RestartRearms b"

inductive restart_step :: "Host \<Rightarrow> restart_sys \<Rightarrow> restart_sys \<Rightarrow> bool" for h where
  tick: "d \<ge> 0 \<Longrightarrow> restart_step h s (s\<lparr>ry_now := ry_now s + d\<rparr>)"
| other: "same_restart (ry_rec s) new \<Longrightarrow> restart_step h s (s\<lparr>ry_rec := new\<rparr>)"
| request: "record_request req (ry_rec s) = Some new \<Longrightarrow> restart_step h s (s\<lparr>ry_rec := new\<rparr>)"
| clear: "clear_request (ry_rec s) = Some new \<or> cancel_commit (ry_rec s) = Some new \<Longrightarrow>
    restart_step h s (s\<lparr>ry_rec := new\<rparr>)"
| judge: "preflight_switch h (ry_rec s) = Inr req \<Longrightarrow>
    restart_step h s (s\<lparr>ry_preflights := req # ry_preflights s\<rparr>)"
| restart: "req \<in> set (ry_preflights s) \<Longrightarrow> consume_commit req (ry_now s) (ry_rec s) = Inr new \<Longrightarrow>
    restart_step h s (s\<lparr>ry_rec := new, ry_preflights := remove1 req (ry_preflights s), ry_log := Restarted (ry_now s) # ry_log s\<rparr>)"
| lost: "req \<in> set (ry_preflights s) \<Longrightarrow>
    restart_step h s (s\<lparr>ry_preflights := remove1 req (ry_preflights s)\<rparr>)"
| judge_rearm: "rearm_switch h (ry_now s) (ry_rec s) = None \<Longrightarrow> restart_step h s (s\<lparr>ry_rearms := Suc (ry_rearms s)\<rparr>)"
| rearm: "ry_rearms s = Suc n \<Longrightarrow> rearm_commit (ry_now s) (ry_rec s) = Inr new \<Longrightarrow>
    restart_step h s (s\<lparr>ry_rec := new, ry_rearms := n, ry_log := Rearmed (ry_now s) # ry_log s\<rparr>)"
| lost_rearm: "ry_rearms s = Suc n \<Longrightarrow> restart_step h s (s\<lparr>ry_rearms := n\<rparr>)"
| close: "closing_commit force (ry_now s) (ry_rec s) = Inr new \<Longrightarrow>
    restart_step h s (s\<lparr>ry_rec := new, ry_log := MarkedClosing (ry_now s) force # ry_log s\<rparr>)"
| unclose: "restart_step h s (s\<lparr>ry_rec := (ry_rec s)\<lparr>s_ClosingAt := None\<rparr>, ry_log := ClosingLifted # ry_log s\<rparr>)"
| returned: "return_commit (ry_now s) (ry_rec s) = Inr new \<Longrightarrow> restart_step h s (s\<lparr>ry_rec := new\<rparr>)"

inductive_cases restart_stepE: "restart_step h s t"

text \<open>What the log says: when the last verdict was, whether a close stands, and how many re-arms the last
  first verdict has had.\<close>

fun last_verdict :: "said list \<Rightarrow> Time option" where
  "last_verdict [] = None"
| "last_verdict (Restarted t # es) = Some t"
| "last_verdict (Rearmed t # es) = Some t"
| "last_verdict (_ # es) = last_verdict es"

fun close_stands :: "said list \<Rightarrow> bool" where
  "close_stands [] = False"
| "close_stands (MarkedClosing t force # es) = True"
| "close_stands (ClosingLifted # es) = False"
| "close_stands (_ # es) = close_stands es"

fun rearms_of_last :: "said list \<Rightarrow> nat" where
  "rearms_of_last [] = 0"
| "rearms_of_last (Restarted t # es) = 0"
| "rearms_of_last (Rearmed t # es) = Suc (rearms_of_last es)"
| "rearms_of_last (_ # es) = rearms_of_last es"

text \<open>A log in order: no verdict while a close stands, no unforced close within the in-flight window of the
  last verdict, and no third re-arm.\<close>

fun in_order :: "said list \<Rightarrow> bool" where
  "in_order [] = True"
| "in_order (Restarted t # es) \<longleftrightarrow> \<not> close_stands es \<and> in_order es"
| "in_order (Rearmed t # es) \<longleftrightarrow> \<not> close_stands es \<and> last_verdict es \<noteq> None \<and> rearms_of_last es < 2 \<and> in_order es"
| "in_order (MarkedClosing t force # es) \<longleftrightarrow>
     (force \<or> (\<forall>u. last_verdict es = Some u \<longrightarrow> t - u \<ge> RestartInFlightWindow)) \<and> in_order es"
| "in_order (ClosingLifted # es) = in_order es"

definition restart_inv :: "restart_sys \<Rightarrow> bool" where
  "restart_inv s \<longleftrightarrow>
     in_order (ry_log s) \<and> last_verdict (ry_log s) = s_RestartingAt (ry_rec s) \<and>
     close_stands (ry_log s) = (s_ClosingAt (ry_rec s) \<noteq> None) \<and>
     int (rearms_of_last (ry_log s)) = s_RestartRearms (ry_rec s)"

definition restart_init :: "restart_sys \<Rightarrow> bool" where
  "restart_init s \<longleftrightarrow>
     s_ClosingAt (ry_rec s) = None \<and> s_RestartingAt (ry_rec s) = None \<and> s_RestartRearms (ry_rec s) = 0 \<and>
     ry_preflights s = [] \<and> ry_rearms s = 0 \<and> ry_log s = []"

lemma restart_step_inv: "restart_step h s t \<Longrightarrow> restart_inv s \<Longrightarrow> restart_inv t"
  by (induction rule: restart_step.induct)
     (auto simp: restart_inv_def same_restart_def record_request_def clear_request_def cancel_commit_def
        consume_commit_def rearm_commit_def maxRestartRearms_def closing_commit_def return_commit_def RestartInFlight_def
        split: if_splits option.splits)

lemma restart_reach_inv:
  assumes "(restart_step h)\<^sup>*\<^sup>* s t" "restart_inv s"
  shows "restart_inv t"
  using assms by (induction rule: rtranclp_induct) (auto intro: restart_step_inv)

text \<open>
  C5. Close and restart are ordered, however preflights, re-arms, requests, closes and cancellations
  interleave between their looks at the record and their locked updates: the frontend is never told
  to restart a session while a close of it stands, no unforced close begins less than two minutes
  after the last verdict, and one verdict is re-armed at most twice.
\<close>

theorem close_and_restart_are_ordered:
  assumes "restart_init s" "(restart_step h)\<^sup>*\<^sup>* s t"
  shows "in_order (ry_log t) \<and> rearms_of_last (ry_log t) \<le> 2"
proof -
  have "restart_inv s" using assms(1) by (simp add: restart_inv_def restart_init_def)
  from restart_reach_inv[OF assms(2) this] have i: "in_order (ry_log t)" by (simp add: restart_inv_def)
  moreover have "rearms_of_last es \<le> 2" if "in_order es" for es
    using that by (induction es rule: in_order.induct) auto
  ultimately show ?thesis by simp
qed

text \<open>The locked updates of this component, as changes of the record.\<close>

datatype restart_commit =
  Consume RestartRequest Time | Rearm Time | Close bool Time | Lift | Return Time | Queue RestartRequest | Drop

fun commit_of :: "restart_commit \<Rightarrow> commit" where
  "commit_of (Consume req t) = consume_commit req t"
| "commit_of (Rearm t) = (\<lambda>s. map_sum (\<lambda>_. ()) id (rearm_commit t s))"
| "commit_of (Close force t) = closing_commit force t"
| "commit_of Lift = (\<lambda>s. Inr (s\<lparr>s_ClosingAt := None\<rparr>))"
| "commit_of (Return t) = return_commit t"
| "commit_of (Queue req) = (\<lambda>s. case record_request req s of None \<Rightarrow> Inl () | Some s' \<Rightarrow> Inr s')"
| "commit_of Drop = (\<lambda>s. case clear_request s of None \<Rightarrow> Inl () | Some s' \<Rightarrow> Inr s')"

lemma restart_commits_admitted: "commit_of c s = Inr s' \<Longrightarrow> keeps_identity s s'"
  by (cases c) (auto simp: consume_commit_def rearm_commit_def closing_commit_def return_commit_def record_request_def
      clear_request_def keeps_identity_def split: if_splits option.splits sum.splits)

lemma all_restart_commits_admitted: "commits_admitted keeps_identity (map commit_of cs) s"
  by (induction cs arbitrary: s) (auto intro: restart_commits_admitted split: sum.split)

text \<open>
  On the store itself: whatever locked updates of this component fall on a live session's record, in
  whatever order, the session stays live and its re-arms stay between none and two.
\<close>

lemma rearms_stay_bounded:
  assumes "store_holds h repoPath branch s \<sigma>" "0 \<le> s_RestartRearms s \<and> s_RestartRearms s \<le> maxRestartRearms"
  shows "\<exists>s'. store_holds h repoPath branch s' (fold (\<lambda>c w. snd (store_update h repoPath branch c w)) (map commit_of cs) \<sigma>) \<and>
    0 \<le> s_RestartRearms s' \<and> s_RestartRearms s' \<le> maxRestartRearms"
proof (rule store.commits_keep[where P = "\<lambda>s. 0 \<le> s_RestartRearms s \<and> s_RestartRearms s \<le> maxRestartRearms",
      OF assms(1) all_restart_commits_admitted assms(2)])
  fix c :: commit and s :: State assume "c \<in> set (map commit_of cs)" "0 \<le> s_RestartRearms s \<and> s_RestartRearms s \<le> maxRestartRearms"
  moreover obtain x where "c = commit_of x" using calculation(1) by auto
  ultimately show "0 \<le> s_RestartRearms (apply_commit c s) \<and> s_RestartRearms (apply_commit c s) \<le> maxRestartRearms"
    by (cases x) (auto simp: apply_commit_def consume_commit_def rearm_commit_def closing_commit_def return_commit_def
        record_request_def clear_request_def maxRestartRearms_def split: if_splits option.splits sum.splits)
qed

subsection \<open>What the locked update does not look at\<close>


text \<open>
  A forced restart is retried: nothing in the record says that the consumed request was a forced
  one, so the re-arm of a restart that was to happen now is admitted within its window like an idle
  one's.
\<close>

theorem forced_restart_is_rearmed:
  assumes "consume_commit req t cur = Inr new" "rq_When req = restartWhenNow"
    and "s_Kind cur \<noteq> KindImplicit" "ResolveState (h_Machine h) cur \<noteq> StateAbandoned" "s_RestartedAt cur = None"
    and "now - t < RestartInFlightWindow"
  shows "rearm_switch h now new = None \<and> (\<exists>again. rearm_commit now new = Inr again)"
  using assms
  by (auto simp: consume_commit_def rearm_switch_def rearm_commit_def back_since_def maxRestartRearms_def
        restartRearmWindow_def ResolveState_def split: if_splits)

section \<open>Requests on the record\<close>

lemma updateLoaded_live:
  assumes "live (re_host e) wt cur (rw_store w)" "wt = worktreeFromRepoBranch (s_RepoPath st) (s_Branch st)"
    and "IsAbs (s_RepoPath st)" "validBranch (s_Branch st)" "writable (re_host e) (s_WorktreePath cur)"
    and "mutate cur = Some (fn cur)" "keeps_identity cur (fn cur)"
  shows "\<exists>w'. updateLoadedSession e st mutate w = (None, fn cur, w') \<and> live (re_host e) wt (fn cur) (rw_store w') \<and>
    rw_now w' = rw_now w \<and> rw_events w' = rw_events w"
proof -
  let ?h = "re_host e" and ?g = "\<lambda>cur. case mutate cur of None \<Rightarrow> Inl () | Some new \<Rightarrow> Inr new"
  note cl = worktree_of_repo(2)[OF assms(3), of "s_Branch st"]
  have nu: "\<not> h_InUnit ?h" "h_RecordsWritable ?h" using assms(5) by (simp_all add: writable_def)
  have notomb: "\<not> s_isTombstone cur" using assms(1) by (simp add: live_def)
  obtain \<sigma>1 where l: "loadByWorktree ?h wt (rw_store w) = (Inr cur, \<sigma>1)"
    using live_load[OF assms(1) nu(1)] cl assms(2) by (cases "loadByWorktree ?h wt (rw_store w)") simp
  have u: "fst (Update_session ?h (s_RepoPath st) (s_Branch st) ?g (rw_store w)) = None"
    "live ?h wt (fn cur) (snd (Update_session ?h (s_RepoPath st) (s_Branch st) ?g (rw_store w)))"
    using update_applied[OF assms(1-5), of ?g "fn cur"] assms(6,7) by simp_all
  have "updateLoadedSession e st mutate w =
      (None, fn cur, w\<lparr>rw_store := snd (Update_session ?h (s_RepoPath st) (s_Branch st) ?g (rw_store w))\<rparr>)"
    using u(1) l notomb assms(2,4,6) nu(2)
    by (simp add: updateLoadedSession_def Let_def Read_session_def split_beta)
  then show ?thesis using u(2) by simp
qed

lemma request_keeps_identity: "keeps_identity cur (cur\<lparr>s_RestartRequest := r\<rparr>)"
  by (simp add: keeps_identity_def)

text \<open>
  C27. Queueing is all or nothing: for a live session that can be written, a queued restart is recorded
  with who asked, why and when and its hand-off has run in the session's worktree with the
  session's own principal and key filled in; a hand-off that failed leaves no request behind, and
  any other refusal leaves the record alone.
\<close>

theorem queue_is_all_or_nothing:
  assumes "live (re_host e) wt st (rw_store w)" "wt = worktreeFromRepoBranch (s_RepoPath st) (s_Branch st)"
    and "IsAbs (s_RepoPath st)" "validBranch (s_Branch st)" "writable (re_host e) (s_WorktreePath st)"
    and "queueRestart e st requester prin reason force w = (res, w')"
  shows "case res of
      None \<Rightarrow> \<exists>argv. live (re_host e) wt
          (st\<lparr>s_RestartRequest := Some \<lparr>rq_RequestedAt = rw_now w, rq_Requester = requester, rq_Reason = reason,
             rq_When = (if force then restartWhenNow else restartWhenIdle)\<rparr>\<rparr>) (rw_store w') \<and>
        restartPlan e st prin force = PlanArgv argv \<and>
        rw_events w' = rw_events w @ [HandedOff (s_WorktreePath st)
          (expandRestartHandoff argv prin (Key st) (if force then restartWhenNow else restartWhenIdle) reason)]
    | Some err \<Rightarrow>
        (if err = HandoffFailed then live (re_host e) wt (st\<lparr>s_RestartRequest := None\<rparr>) (rw_store w') else w' = w)"
proof (cases "restartPlan e st prin force")
  case (PlanFails err)
  moreover have "err \<noteq> HandoffFailed"
    using PlanFails by (auto simp: restartPlan_def Let_def split: if_splits sum.splits option.splits)
  ultimately show ?thesis using assms(6) by (auto simp: queueRestart_def)
next
  case (PlanBlocked ob)
  then show ?thesis using assms(6) by (auto simp: queueRestart_def)
next
  case (PlanArgv argv)
  let ?when = "if force then restartWhenNow else restartWhenIdle"
  let ?req = "\<lparr>rq_RequestedAt = rw_now w, rq_Requester = requester, rq_Reason = reason, rq_When = ?when\<rparr>"
  let ?st = "st\<lparr>s_RestartRequest := Some ?req\<rparr>"
  obtain w1 where w1: "updateLoadedSession e st (record_request ?req) w = (None, ?st, w1)"
    "live (re_host e) wt ?st (rw_store w1)" "rw_events w1 = rw_events w"
    using updateLoaded_live[where fn = "\<lambda>cur. cur\<lparr>s_RestartRequest := Some ?req\<rparr>", OF assms(1-5) _ request_keeps_identity,
        of "record_request ?req"] by (auto simp: record_request_def)
  have key: "Key ?st = Key st" "s_WorktreePath ?st = s_WorktreePath st" by (simp_all add: Key_def)
  let ?argv = "expandRestartHandoff argv prin (Key st) ?when reason"
  define w2 where "w2 = happens [HandedOff (s_WorktreePath st) ?argv] w1"
  have w2: "live (re_host e) wt ?st (rw_store w2)" "rw_events w2 = rw_events w @ [HandedOff (s_WorktreePath st) ?argv]"
    using w1 by (simp_all add: w2_def happens_def)
  have q: "queueRestart e st requester prin reason force w =
      (if re_Handoff e (s_WorktreePath st) ?argv then (None, w2)
       else (Some HandoffFailed, snd (snd (updateLoadedSession e ?st clear_request w2))))"
    using PlanArgv w1(1) key by (simp add: queueRestart_def Let_def w2_def)
  show ?thesis
  proof (cases "re_Handoff e (s_WorktreePath st) ?argv")
    case True
    then show ?thesis using q assms(6) w2 PlanArgv by auto
  next
    case False
    obtain w3 where w3: "updateLoadedSession e ?st clear_request w2 = (None, ?st\<lparr>s_RestartRequest := None\<rparr>, w3)"
      "live (re_host e) wt (?st\<lparr>s_RestartRequest := None\<rparr>) (rw_store w3)"
      using updateLoaded_live[where fn = "\<lambda>cur. cur\<lparr>s_RestartRequest := None\<rparr>" and st = ?st and mutate = clear_request,
          OF w2(1) _ _ _ _ _ request_keeps_identity] assms(2-5) by (auto simp: clear_request_def)
    have "?st\<lparr>s_RestartRequest := None\<rparr> = st\<lparr>s_RestartRequest := None\<rparr>" by simp
    then show ?thesis using q assms(6) w3 False by auto
  qed
qed

section \<open>The bound on forced restarts\<close>

text \<open>Claims of the day at the given times, none of them given back: the times of those that were granted.\<close>

fun granted_days :: "Time list \<Rightarrow> State \<Rightarrow> Time list" where
  "granted_days [] cur = []"
| "granted_days (t # ts) cur =
     (case claim_day t cur of Inl _ \<Rightarrow> granted_days ts cur | Inr new \<Rightarrow> t # granted_days ts new)"

lemma granted_days_apart:
  "sorted_wrt (\<lambda>t u. u - t \<ge> hungRestartCooldown) (granted_days ts cur) \<and>
   (\<forall>t. s_ForcedRestartAt cur = Some t \<longrightarrow> (\<forall>u \<in> set (granted_days ts cur). u - t \<ge> hungRestartCooldown))"
proof (induction ts arbitrary: cur)
  case (Cons t ts)
  have pos: "hungRestartCooldown > 0" by (simp add: hungRestartCooldown_def Hour_def Minute_def Second_def)
  show ?case
  proof (cases "claim_day t cur")
    case (Inl a)
    then show ?thesis using Cons by simp
  next
    case (Inr new)
    have n: "s_ForcedRestartAt new = Some t" and o: "\<forall>u. s_ForcedRestartAt cur = Some u \<longrightarrow> t - u \<ge> hungRestartCooldown"
      using Inr by (auto simp: claim_day_def split: option.splits if_splits)
    from Cons[of new] n have ih: "sorted_wrt (\<lambda>t u. u - t \<ge> hungRestartCooldown) (granted_days ts new)"
      "\<forall>u \<in> set (granted_days ts new). u - t \<ge> hungRestartCooldown" by auto
    then show ?thesis using Inr o pos by (auto; fastforce)
  qed
qed simp


section \<open>A restart taken\<close>

definition consumed :: "RestartRequest \<Rightarrow> Time \<Rightarrow> State \<Rightarrow> State" where
  "consumed req now cur =
     cur\<lparr>s_RestartRequest := None, s_RestartingAt := Some now, s_RestartingFirstAt := Some now,
         s_RestartRearms := 0, s_RestartingBy := rq_Requester req, s_RestartingReason := rq_Reason req\<rparr>"

lemma preflight_commits:
  assumes "resolveRestartTarget e target w = (Inr (Inr (st, implied)), w1)"
    and "preflight_judge e st implied = GoAhead prin req"
    and "live (re_host e) (worktreeFromRepoBranch (s_RepoPath st) (s_Branch st)) st (rw_store w1)"
    and "IsAbs (s_RepoPath st)" "validBranch (s_Branch st)" "writable (re_host e) (s_WorktreePath st)"
  shows "fst (runRestartPreflight e target w) = Inr (verdict_restart req) \<and>
    live (re_host e) (worktreeFromRepoBranch (s_RepoPath st) (s_Branch st)) (consumed req (rw_now w1) st)
      (rw_store (snd (runRestartPreflight e target w)))"
proof -
  let ?h = "re_host e" and ?wt = "worktreeFromRepoBranch (s_RepoPath st) (s_Branch st)"
  let ?fn = "consumed req (rw_now w1)"
  have "consume_commit req (rw_now w1) st = Inr (?fn st)"
    using preflight_go[OF assms(2)] by (simp add: consume_commit_def consumed_def)
  moreover have "keeps_identity st (?fn st)" by (simp add: keeps_identity_def consumed_def)
  ultimately obtain \<sigma>2 where u: "Update_session ?h (s_RepoPath st) (s_Branch st) (consume_commit req (rw_now w1)) (rw_store w1) = (None, \<sigma>2)"
    "live ?h ?wt (?fn st) \<sigma>2"
    using update_applied[OF assms(3) refl assms(4-6), of "consume_commit req (rw_now w1)" "?fn st"]
    by (cases "Update_session ?h (s_RepoPath st) (s_Branch st) (consume_commit req (rw_now w1)) (rw_store w1)") simp
  show ?thesis
    using u by (simp add: runRestartPreflight_def assms(1,2) wakeRestartAudience_def armRestartWatchdog_def happens_def)
qed

text \<open>
  A preflight whose checks pass takes the restart: on a live session that can be written and that
  nobody else changed meanwhile, the answer is restart, the request is gone from the record, and
  the record says when the restart began, who asked and why, with no re-arm used.
\<close>

theorem preflight_takes_the_restart:
  assumes "resolveRestartTarget e target w = (Inr (Inr (st, implied)), w1)"
    and "preflight_judge e st implied = GoAhead prin req"
    and "live (re_host e) (worktreeFromRepoBranch (s_RepoPath st) (s_Branch st)) st (rw_store w1)"
    and "IsAbs (s_RepoPath st)" "validBranch (s_Branch st)" "writable (re_host e) (s_WorktreePath st)"
  shows "fst (runRestartPreflight e target w) = Inr (verdict_restart req) \<and>
    live (re_host e) (worktreeFromRepoBranch (s_RepoPath st) (s_Branch st)) (consumed req (rw_now w1) st)
      (rw_store (snd (runRestartPreflight e target w)))"
  using assms by (rule preflight_commits)

section \<open>Examples\<close>

definition sample_principal :: string where
  "sample_principal = ''01234567-89ab-4cde-8f01-23456789abcd''"

definition sample_request :: RestartRequest where
  "sample_request = \<lparr>rq_RequestedAt = 5, rq_Requester = ''boss'', rq_Reason = ''update'', rq_When = restartWhenIdle\<rparr>"

definition queued_state :: State where
  "queued_state = sample_state\<lparr>s_RestartRequest := Some sample_request, s_Principal := sample_principal\<rparr>"

definition queued_store :: RecordStore where
  "queued_store = sample_store\<lparr>st_records := [''/r/.worktrees/b.json'' \<mapsto> Holds queued_state], st_files := Map.empty\<rparr>"

definition operator_layer :: LoadSource where
  "operator_layer =
     \<lparr>ls_Path = ''/u/.config/spinclass/sweatfile'', ls_Found = True,
      ls_File = empty_Sweatfile\<lparr>sf_SessionEntry := Some
        \<lparr>se_Start = [], se_Resume = [], se_Env = [], se_LivenessProbe = [], se_TombstoneRetention = [],
         se_SpawnEntry = [], se_SpawnWindow = [], se_ModelFlags = [], se_ModelIDs = [], se_DisableAutoMode = None,
         se_SpawnProfile = [], se_Restart = Some [''clown'', ''--reason={reason}''], se_UnattendedPermissionMode = None\<rparr>\<rparr>,
      ls_SkipReason = []\<rparr>"

definition sample_env :: restart_env where
  "sample_env =
     \<lparr>re_host = sample_host, re_World = \<lparr>w_EvalSymlinks = Some, w_Getwd = None\<rparr>, re_home = Some ''/u'',
      re_LoadHierarchy = (\<lambda>_ _. Some \<lparr>h_Sources = [operator_layer], h_Merged = empty_Sweatfile\<rparr>),
      re_ReadJob = (\<lambda>_. None), re_StateDir = True, re_PrincipalOfSession = (\<lambda>_ _. Inr None),
      re_LaunchedConfined = (\<lambda>_. False), re_SessionKeyOfPrincipal = (\<lambda>_. None), re_currentPrincipal = ''boss'',
      re_currentSessionKey = [], re_callerConfined = False, re_Handoff = (\<lambda>_ _. True), re_RestartRefusalOf = (\<lambda>_. None)\<rparr>"

definition queued_world :: restart_world where
  "queued_world = \<lparr>rw_store = queued_store, rw_now = 100, rw_events = []\<rparr>"

lemma sample_plan: "restartPlan sample_env queued_state sample_principal force = PlanArgv [''clown'', ''--reason={reason}'']"
proof -
  have a: "applyRecordedPrincipal [principalPlaceholder] sample_principal False False = Inr ([sample_principal], False)"
    by code_simp
  have t: "slice_elems (fst (TrustedRestartHandoff \<lparr>w_EvalSymlinks = Some, w_Getwd = None\<rparr>
      \<lparr>h_Sources = [operator_layer], h_Merged = empty_Sweatfile\<rparr> ''/u'' ''/r'')) = [''clown'', ''--reason={reason}'']"
    by code_simp
  have r: "s_RepoPath queued_state = ''/r''" "s_Kind queued_state = []"
    by (simp_all add: queued_state_def sample_state_def empty_State_def)
  show ?thesis
    unfolding restartPlan_def a r
    by (simp add: sample_env_def t)
qed

lemma queued_facts:
  "Key queued_state = ''r/b''" "s_WorktreePath queued_state = ''/r/.worktrees/b''" "s_isTombstone queued_state = False"
  "s_RepoPath queued_state = ''/r''" "s_Branch queued_state = ''b''" "s_ClosingAt queued_state = None"
  "ResolveState (h_Machine sample_host) queued_state = ''inactive''"
proof -
  show "Key queued_state = ''r/b''" by code_simp
  show "ResolveState (h_Machine sample_host) queued_state = ''inactive''"
    by (simp add: queued_state_def sample_state_def empty_State_def ResolveState_def sample_host_def IsAlive_def confinedUnitRunning_def)
qed (simp_all add: queued_state_def sample_state_def empty_State_def)

lemma queued_judge: "preflight_judge sample_env queued_state implied = GoAhead (if implied = [] then sample_principal else implied) sample_request"
  if "implied = []"
proof -
  have p: "ownerPrincipal sample_env queued_state [] = Inr sample_principal"
    by (simp add: ownerPrincipal_def sample_env_def queued_state_def sample_principal_def)
  have k: "s_RestartRequest queued_state = Some sample_request" "s_Kind queued_state = []"
    by (simp_all add: queued_state_def sample_state_def empty_State_def)
  have h: "re_host sample_env = sample_host" by (simp add: sample_env_def)
  show ?thesis
    using queued_facts(6,7) k that by (simp add: preflight_judge_def preflight_switch_def p h sample_plan)
qed

lemma queued_live: "live sample_host (worktreeFromRepoBranch ''/r'' ''b'') queued_state queued_store"
proof -
  have l: "checkIdentity queued_state ''/r/.worktrees/b'' = None" by code_simp
  show ?thesis
    unfolding live_def index_at_def sample_facts(1) sample_facts(6) checkRecordLocation_iff queued_facts(2) l
    by (simp add: queued_store_def sample_store_def queued_facts(3))
qed

lemma queued_resolve:
  "resolveRestartTarget sample_env ''r/b'' queued_world = (Inr (Inr (queued_state, [])), queued_world)"
proof -
  have i: "indexFilename sample_host (s_WorktreePath queued_state) = ''/r/.worktrees/b.json''"
    using sample_facts(6) by (simp only: queued_facts(2))
  have l: "checkIdentity queued_state (s_WorktreePath queued_state) = None" by code_simp
  have p: "worktreeStatePath ''/r/.worktrees/b'' = ''/r/.worktrees/b/.spinclass/state.json''" by code_simp
  have n: "queued_state\<lparr>s_isTombstone := False\<rparr> = queued_state" using queued_facts(3) by simp
  have loc: "checkRecordLocation sample_host queued_state ''/r/.worktrees/b.json'' = None"
    using i l by (simp add: checkRecordLocation_iff)
  have cd: "compareDisplay sample_host queued_state queued_store = queued_store"
    by (simp add: compareDisplay_def queued_store_def Let_def)
  have e: "list_entry sample_host (''/r/.worktrees/b.json'', Symlink ''/r/.worktrees/b/.spinclass/state.json'') queued_store =
      (Some queued_state, queued_store)"
    using sample_facts(5) loc cd
    by (simp add: list_entry_def loadLiveEntry_def readRecordFile_def n queued_store_def)
  have "ListAll sample_host queued_store = (Inr [queued_state], queued_store)"
  proof -
    have "st_index queued_store = [(''/r/.worktrees/b.json'', Symlink ''/r/.worktrees/b/.spinclass/state.json'')]"
      by (simp add: queued_store_def sample_store_def)
    then show ?thesis by (simp add: ListAll_def e)
  qed
  then show ?thesis
    using queued_facts(1)
    by (simp add: resolveRestartTarget_def find_session_def FindByTarget_def sample_env_def queued_world_def)
qed

lemma queued_writable: "writable sample_host wt"
  by (simp add: writable_def)

lemma preflight_takes_the_restart_witness:
  "fst (runRestartPreflight sample_env ''r/b'' queued_world) = Inr (verdict_restart sample_request)"
  using preflight_takes_the_restart[OF queued_resolve queued_judge[OF refl]] queued_live queued_facts(4,5)
    sample_facts(3,4) queued_writable
  by (simp add: sample_env_def queued_world_def)

lemma queued_restarts:
  "runRestartPreflight sample_env ''r/b'' queued_world =
     (Inr (verdict_restart sample_request), snd (runRestartPreflight sample_env ''r/b'' queued_world))"
proof -
  have "fst (runRestartPreflight sample_env ''r/b'' queued_world) = Inr (verdict_restart sample_request)"
    using preflight_commits[OF queued_resolve queued_judge[OF refl]] queued_live queued_facts(4,5)
      sample_facts(3,4) queued_writable
    by (simp add: sample_env_def queued_world_def)
  then show ?thesis by (metis prod.collapse)
qed

lemma restart_verdict_is_authorized_witness:
  "\<exists>st implied w1 req.
     resolveRestartTarget sample_env ''r/b'' queued_world = (Inr (Inr (st, implied)), w1) \<and> s_RestartRequest st = Some req"
  using restart_verdict_is_authorized[OF queued_restarts] by (auto simp: verdict_restart_def)


lemma forced_restart_is_rearmed_witness:
  "rearm_switch sample_host 130 (consumed (sample_request\<lparr>rq_When := restartWhenNow\<rparr>) 100 queued_state) = None"
proof -
  have c: "consume_commit (sample_request\<lparr>rq_When := restartWhenNow\<rparr>) 100 queued_state =
      Inr (consumed (sample_request\<lparr>rq_When := restartWhenNow\<rparr>) 100 queued_state)"
    using queued_facts(6) by (simp add: consume_commit_def consumed_def)
  have k: "s_Kind queued_state = []" "s_RestartedAt queued_state = None"
    by (simp_all add: queued_state_def sample_state_def empty_State_def)
  show ?thesis
    using forced_restart_is_rearmed[OF c, of sample_host 130] queued_facts(7) k
    by (simp add: RestartInFlightWindow_def Minute_def Second_def)
qed

lemma queue_is_all_or_nothing_witness:
  "rw_events (snd (queueRestart sample_env queued_state ''boss'' sample_principal ''why'' True queued_world)) =
     [HandedOff ''/r/.worktrees/b'' [''clown'', ''--reason=why'']]"
proof -
  have x: "expandRestartHandoff [''clown'', ''--reason={reason}''] sample_principal ''r/b'' restartWhenNow ''why'' =
      [''clown'', ''--reason=why'']" by code_simp
  have h: "re_host sample_env = sample_host" "re_Handoff sample_env = (\<lambda>_ _. True)" by (simp_all add: sample_env_def)
  have L: "live (re_host sample_env) (worktreeFromRepoBranch (s_RepoPath queued_state) (s_Branch queued_state)) queued_state (rw_store queued_world)"
    "IsAbs (s_RepoPath queued_state)" "validBranch (s_Branch queued_state)"
    "writable (re_host sample_env) (s_WorktreePath queued_state)"
    using queued_live queued_facts(4,5) sample_facts(3,4) queued_writable by (simp_all add: h queued_world_def)
  let ?req = "\<lparr>rq_RequestedAt = rw_now queued_world, rq_Requester = ''boss'', rq_Reason = ''why'', rq_When = restartWhenNow\<rparr>"
  obtain w1 where "updateLoadedSession sample_env queued_state (record_request ?req) queued_world =
      (None, queued_state\<lparr>s_RestartRequest := Some ?req\<rparr>, w1)"
    using updateLoaded_live[where fn = "\<lambda>cur. cur\<lparr>s_RestartRequest := Some ?req\<rparr>", OF L(1) refl L(2-4) _ request_keeps_identity,
        of "record_request ?req"] by (auto simp: record_request_def)
  then obtain w' where r: "queueRestart sample_env queued_state ''boss'' sample_principal ''why'' True queued_world = (None, w')"
    by (simp add: queueRestart_def sample_plan h(2) Let_def)
  from queue_is_all_or_nothing[OF L(1) refl L(2-4) r] x show ?thesis
    by (auto simp: r sample_plan queued_facts(1,2)) (simp add: queued_world_def)
qed

lemma close_and_restart_are_ordered_witness:
  "in_order [Restarted 100] \<and> rearms_of_last [Restarted 100] \<le> 2"
proof -
  let ?s = "\<lparr>ry_rec = queued_state, ry_now = 100, ry_preflights = [], ry_rearms = 0, ry_log = []\<rparr>"
  let ?s1 = "?s\<lparr>ry_preflights := [sample_request]\<rparr>"
  let ?t = "?s1\<lparr>ry_rec := consumed sample_request 100 queued_state, ry_preflights := [], ry_log := [Restarted 100]\<rparr>"
  have k: "s_RestartRequest queued_state = Some sample_request" "s_Kind queued_state = []" "s_RestartingAt queued_state = None"
    "s_RestartRearms queued_state = 0"
    by (simp_all add: queued_state_def sample_state_def empty_State_def)
  have i: "restart_init ?s" using queued_facts(6) k by (simp add: restart_init_def)
  have "restart_step sample_host ?s ?s1"
    using restart_step.judge[of sample_host ?s sample_request] k queued_facts(6,7) by (simp add: preflight_switch_def)
  moreover have "restart_step sample_host ?s1 ?t"
    using restart_step.restart[of sample_request ?s1 "consumed sample_request 100 queued_state" sample_host] queued_facts(6)
    by (simp add: consume_commit_def consumed_def)
  ultimately have "(restart_step sample_host)\<^sup>*\<^sup>* ?s ?t" by (meson rtranclp.rtrancl_into_rtrancl rtranclp.rtrancl_refl)
  from close_and_restart_are_ordered[OF i this] show ?thesis by simp
qed

end
