(* ===== verification/UnitRecords.thy ===== *)
theory UnitRecords
  imports GoPath GoStrconv "HOL-Library.Word"
begin

text \<open>
  What the frontend records of confined sessions (\<open>src/internal/bravo/confinement\<close>: \<open>record.go\<close>, \<open>mapping.go\<close>,
  \<open>caller.go\<close>, \<open>serves.go\<close>, \<open>protected.go\<close>, \<open>stop.go\<close>): the agent unit's record and its validation, the mapping
  of a principal to its session, whether a caller counts as confined, and the state directories no unit may see.
  The host is observed through \<open>System\<close>, one snapshot of it; SHA-256 and the JSON decoders are parameters
  (\<open>None\<close> is text that does not parse).
\<close>

section \<open>The host\<close>

text \<open>The classes of error the code tells apart with \<open>errors.Is\<close>; EACCES and EPERM are both permission errors.\<close>

datatype sys_err = ENoEnt | EPermission | EConnRefused | ENotDir | EROFS | EOther string

record fileinfo =
  fi_IsDir :: bool
  fi_Symlink :: bool
  fi_Dev :: "int option"
  fi_ModTime :: int

record System =
  sys_ReadFile :: "string \<Rightarrow> sys_err + string"
  sys_ReadDir :: "string \<Rightarrow> sys_err + string list"
  sys_Readlink :: "string \<Rightarrow> sys_err + string"
  sys_Stat :: "string \<Rightarrow> sys_err + fileinfo"
  sys_Lstat :: "string \<Rightarrow> sys_err + fileinfo"
  sys_CharDevice :: "string \<Rightarrow> sys_err + (64 word \<times> 64 word) option"
  sys_Connect :: "string \<Rightarrow> sys_err option"
  sys_Writable :: "string \<Rightarrow> sys_err option"
  sys_PeerPID :: "string \<Rightarrow> sys_err + int"
  sys_Getuid :: int
  sys_Getenv :: "string \<Rightarrow> string"

record UnitRecord =
  ur_Version :: int
  ur_Unit :: string
  ur_Cgroup :: string
  ur_Pty :: string
  ur_Capabilities :: "string list"
  ur_ServeSocket :: string
  ur_MainPID :: int
  ur_Principal :: string
  ur_Harness :: string
  ur_Error :: string
  ur_ExitCode :: "int option"

record PrincipalMapping =
  pm_Version :: int
  pm_Principal :: string
  pm_SessionKey :: string
  pm_Worktree :: string
  pm_Unit :: string

record ServeRecord =
  sr_Principal :: string
  sr_PID :: int
  sr_Build :: string

record UnitSpec =
  us_BindsRW :: "string list"
  us_BindsRO :: "string list"
  us_Sockets :: "string list"

text \<open>\<open>fe_KeyOf\<close> is the first eight bytes of the SHA-256 of its argument in hexadecimal.\<close>

record Frontend = System +
  fe_EvalSymlinks :: "string \<Rightarrow> sys_err + string"
  fe_KeyOf :: "string \<Rightarrow> string"
  fe_UnitRecord :: "string \<Rightarrow> UnitRecord option"
  fe_Mapping :: "string \<Rightarrow> PrincipalMapping option"
  fe_RecordHead :: "string \<Rightarrow> string option"
  fe_Serve :: "string \<Rightarrow> ServeRecord option"
  fe_UnitSpec :: "string \<Rightarrow> UnitSpec option"

text \<open>An error of the package: an error of the host it wraps, clown's own report of a failed launch, or a refusal.\<close>

datatype conf_err = Wrapped sys_err | LaunchFailed string | Refused string

definition is_not_exist :: "conf_err \<Rightarrow> bool" where
  "is_not_exist e \<longleftrightarrow> e = Wrapped ENoEnt"

definition wrapped :: "sys_err + 'a \<Rightarrow> conf_err + 'a" where
  "wrapped = map_sum Wrapped id"

section \<open>Unit records\<close>

definition UnitRecordVersion :: int where "UnitRecordVersion = 1"

definition AgentSlice :: string where "AgentSlice = ''clown-agent.slice''"

definition isAgentUnitCgroup :: "string \<Rightarrow> bool" where
  "isAgentUnitCgroup cg \<longleftrightarrow>
     HasPrefix cg ''/'' \<and> Clean cg = cg \<and>
     (let parts = split1 slash (TrimPrefix cg ''/'') in
      2 \<le> length parts \<and> HasSuffix (last parts) ''.service'' \<and> AgentSlice \<in> set (butlast parts))"

definition ParseUnitRecord :: "('a Frontend_scheme) \<Rightarrow> string \<Rightarrow> conf_err + UnitRecord" where
  "ParseUnitRecord F b =
     (case fe_UnitRecord F b of
        None \<Rightarrow> Inl (Refused ''agent unit record does not parse'')
      | Some r \<Rightarrow>
          if ur_Error r \<noteq> [] then Inl (LaunchFailed (ur_Error r))
          else if ur_Version r \<noteq> UnitRecordVersion then Inl (Refused ''agent unit record version'')
          else if ur_Unit r = [] then Inl (Refused ''agent unit record names no unit'')
          else if \<not> isAgentUnitCgroup (ur_Cgroup r) then Inl (Refused ''agent unit record cgroup is not a unit under the slice'')
          else if ur_ServeSocket r \<noteq> [] \<and> \<not> IsAbs (ur_ServeSocket r) then Inl (Refused ''serve_socket is not absolute'')
          else if ur_Pty r \<noteq> [] \<and> (Clean (ur_Pty r) \<noteq> ur_Pty r \<or> \<not> HasPrefix (ur_Pty r) ''/dev/pts/'')
          then Inl (Refused ''pty is not a /dev/pts path'')
          else Inr r)"

definition canonicalWorktree :: "('a Frontend_scheme) \<Rightarrow> string \<Rightarrow> string" where
  "canonicalWorktree F worktree =
     (case fe_EvalSymlinks F worktree of Inr resolved \<Rightarrow> Clean resolved | Inl _ \<Rightarrow> Clean worktree)"

definition unitRecordPathKeyed :: "('a Frontend_scheme) \<Rightarrow> string \<Rightarrow> string \<Rightarrow> string" where
  "unitRecordPathKeyed F stateDir key = JoinPath [stateDir, ''spinclass'', ''units'', fe_KeyOf F key @ ''.json'']"

definition UnitRecordPath :: "('a Frontend_scheme) \<Rightarrow> string \<Rightarrow> string \<Rightarrow> string" where
  "UnitRecordPath F stateDir worktree = unitRecordPathKeyed F stateDir (canonicalWorktree F worktree)"

definition specPathFor :: "string \<Rightarrow> string" where
  "specPathFor recordPath = TrimSuffix recordPath ''.json'' @ ''.spec.json''"

definition UnitSpecPath :: "('a Frontend_scheme) \<Rightarrow> string \<Rightarrow> string \<Rightarrow> string" where
  "UnitSpecPath F stateDir worktree = specPathFor (UnitRecordPath F stateDir worktree)"

definition CredentialPath :: "('a Frontend_scheme) \<Rightarrow> string \<Rightarrow> string \<Rightarrow> string" where
  "CredentialPath F stateDir worktree = JoinPath [stateDir, ''spinclass'', ''credentials'', fe_KeyOf F (Clean worktree)]"

definition LoadUnitRecord :: "('a Frontend_scheme) \<Rightarrow> string \<Rightarrow> string \<Rightarrow> conf_err + UnitRecord" where
  "LoadUnitRecord F stateDir worktree =
     (case sys_ReadFile F (UnitRecordPath F stateDir worktree) of
        Inl e \<Rightarrow> Inl (Wrapped e)
      | Inr b \<Rightarrow> ParseUnitRecord F b)"

text \<open>\<open>LaunchedConfined\<close>: only an absent record and spec, under either key, read as not confined.\<close>

definition LaunchedConfined :: "('a Frontend_scheme) \<Rightarrow> string \<Rightarrow> string \<Rightarrow> bool" where
  "LaunchedConfined F stateDir worktree =
     list_ex (\<lambda>rec. list_ex (\<lambda>f. sys_Lstat F f \<noteq> Inl ENoEnt) [rec, specPathFor rec])
       [UnitRecordPath F stateDir worktree, unitRecordPathKeyed F stateDir (Clean worktree)]"

definition GuardedWorktree :: "('a Frontend_scheme) \<Rightarrow> string option \<Rightarrow> string \<Rightarrow> bool" where
  "GuardedWorktree F defaultStateDir worktree =
     (case defaultStateDir of None \<Rightarrow> True | Some stateDir \<Rightarrow> LaunchedConfined F stateDir worktree)"

definition AgentHomeOf :: "string \<Rightarrow> string" where
  "AgentHomeOf worktree = (if worktree = [] then [] else JoinPath [worktree, ''.tmp'', ''agent-home''])"

section \<open>Principal mappings\<close>

definition principalMappingVersion :: int where "principalMappingVersion = 1"

definition UnconfinedUnit :: string where "UnconfinedUnit = ''unconfined''"

definition PrincipalMappingPath :: "string \<Rightarrow> string \<Rightarrow> string" where
  "PrincipalMappingPath stateDir prin = JoinPath [stateDir, ''spinclass'', ''principals'', prin @ ''.json'']"

definition validPrincipalName :: "string \<Rightarrow> bool" where
  "validPrincipalName p \<longleftrightarrow>
     p \<noteq> [] \<and> p \<noteq> ''.'' \<and> p \<noteq> ''..'' \<and> slash \<notin> set p \<and> CHR 0x5C \<notin> set p \<and> CHR 0x00 \<notin> set p \<and> CHR 0x0A \<notin> set p"

definition LoadPrincipalMapping :: "('a Frontend_scheme) \<Rightarrow> string \<Rightarrow> string \<Rightarrow> conf_err + PrincipalMapping" where
  "LoadPrincipalMapping F stateDir prin =
     (if \<not> validPrincipalName prin then Inl (Refused ''principal cannot name a mapping file'')
      else case sys_ReadFile F (PrincipalMappingPath stateDir prin) of
        Inl e \<Rightarrow> Inl (Wrapped e)
      | Inr b \<Rightarrow>
          (case fe_Mapping F b of
             None \<Rightarrow> Inl (Refused ''principal mapping does not parse'')
           | Some m \<Rightarrow>
               if pm_Version m \<noteq> principalMappingVersion then Inl (Refused ''principal mapping version'')
               else if pm_Principal m \<noteq> prin then Inl (Refused ''principal mapping file names another principal'')
               else if pm_SessionKey m = [] \<or> pm_Worktree m = [] \<or> pm_Unit m = [] then Inl (Refused ''principal mapping is incomplete'')
               else Inr m))"

text \<open>What a frontend writes for a session: the mapping's path and contents, or why not.\<close>

definition RecordPrincipalFromUnit ::
  "('a Frontend_scheme) \<Rightarrow> string \<Rightarrow> string \<Rightarrow> string \<Rightarrow> conf_err + (string \<times> PrincipalMapping)" where
  "RecordPrincipalFromUnit F stateDir sessionKey worktree =
     (case LoadUnitRecord F stateDir worktree of
        Inl e \<Rightarrow> Inl e
      | Inr r \<Rightarrow>
          if ur_Principal r = [] then Inl (Refused ''the unit record names no principal'')
          else if \<not> validPrincipalName (ur_Principal r) then Inl (Refused ''principal cannot name a mapping file'')
          else Inr (PrincipalMappingPath stateDir (ur_Principal r),
                    \<lparr>pm_Version = principalMappingVersion, pm_Principal = ur_Principal r, pm_SessionKey = sessionKey,
                     pm_Worktree = worktree, pm_Unit = ur_Unit r\<rparr>))"

definition RecordUnconfinedPrincipal :: "string \<Rightarrow> string \<Rightarrow> string \<Rightarrow> string \<Rightarrow> conf_err + (string \<times> PrincipalMapping)" where
  "RecordUnconfinedPrincipal stateDir prin sessionKey worktree =
     (if \<not> validPrincipalName prin then Inl (Refused ''principal cannot name a mapping file'')
      else Inr (PrincipalMappingPath stateDir prin,
                \<lparr>pm_Version = principalMappingVersion, pm_Principal = prin, pm_SessionKey = sessionKey,
                 pm_Worktree = worktree, pm_Unit = UnconfinedUnit\<rparr>))"

definition SessionKeyOfPrincipal ::
  "('a Frontend_scheme) \<Rightarrow> conf_err + string \<Rightarrow> (string \<Rightarrow> bool) \<Rightarrow> string \<Rightarrow> conf_err + string" where
  "SessionKeyOfPrincipal F defaultStateDir live prin =
     (if prin = [] then Inl (Refused ''no principal to resolve'')
      else case defaultStateDir of
        Inl e \<Rightarrow> Inl e
      | Inr stateDir \<Rightarrow>
          (case LoadPrincipalMapping F stateDir prin of
             Inl e \<Rightarrow> Inl (if is_not_exist e then Refused ''there is no frontend principal mapping'' else e)
           | Inr m \<Rightarrow>
               if \<not> live (pm_SessionKey m) then Inl (Refused ''the mapping names a session that is not live'')
               else Inr (pm_SessionKey m)))"

text \<open>The principals of the mapping files that name the session at the worktree.\<close>

definition mapping_names :: "('a Frontend_scheme) \<Rightarrow> string \<Rightarrow> string \<Rightarrow> string \<Rightarrow> string \<Rightarrow> string option" where
  "mapping_names F stateDir sessionKey worktree name =
     (if \<not> HasSuffix name ''.json'' then None
      else let p = TrimSuffix name ''.json'' in
           case LoadPrincipalMapping F stateDir p of
             Inl _ \<Rightarrow> None
           | Inr m \<Rightarrow> if pm_SessionKey m \<noteq> sessionKey \<or> Clean (pm_Worktree m) \<noteq> Clean worktree then None else Some p)"

definition PrincipalOfSession :: "('a Frontend_scheme) \<Rightarrow> string \<Rightarrow> string \<Rightarrow> string \<Rightarrow> conf_err + string option" where
  "PrincipalOfSession F stateDir sessionKey worktree =
     (case sys_ReadDir F (JoinPath [stateDir, ''spinclass'', ''principals'']) of
        Inl e \<Rightarrow> if e = ENoEnt then Inr None else Inl (Wrapped e)
      | Inr names \<Rightarrow>
          (case List.map_filter (mapping_names F stateDir sessionKey worktree) names of
             [] \<Rightarrow> Inr None
           | [p] \<Rightarrow> Inr (Some p)
           | _ \<Rightarrow> Inl (Refused ''ambiguous: several principal mappings name the session'')))"

definition SessionOfPrincipal :: "('a Frontend_scheme) \<Rightarrow> string \<Rightarrow> (string \<Rightarrow> bool) \<Rightarrow> string \<Rightarrow> string option" where
  "SessionOfPrincipal F stateDir live prin =
     (case LoadPrincipalMapping F stateDir prin of
        Inl _ \<Rightarrow> None
      | Inr m \<Rightarrow> if live (pm_SessionKey m) then Some (pm_SessionKey m) else None)"

definition WorktreeOfPrincipal :: "('a Frontend_scheme) \<Rightarrow> string \<Rightarrow> string \<Rightarrow> string option" where
  "WorktreeOfPrincipal F stateDir prin =
     (case LoadPrincipalMapping F stateDir prin of Inl _ \<Rightarrow> None | Inr m \<Rightarrow> Some (pm_Worktree m))"

definition RequiredCapabilities :: "string list" where
  "RequiredCapabilities = [''agent-unit'', ''private-network'', ''frontend-mcp-sockets'', ''in-unit-moxy'']"

definition MissingCapabilities :: "string list \<Rightarrow> string list" where
  "MissingCapabilities have = filter (\<lambda>c. \<not> list_ex (\<lambda>h. h = c) have) RequiredCapabilities"

end
