(* ===== verification/Spec2Isabelle.thy ===== *)
theory Spec2Isabelle
  imports Loader FolioRoots ActTexts MergeLock MergeQueue HookDecision ProfileRights Attestation FlakeLock
    MergeStack MergePrepare SessionClean SessionClose SessionRecord Restart UnitRecords
begin

text \<open>
  A verification library for spinclass, a Go program that runs coding agents in git worktrees: it forks a
  worktree per session, decides what the agent in it may do, gates and lands what it did, and closes,
  restarts or sweeps the session afterwards. The agent can write everything in its worktree and is not
  trusted; most theorems say what it cannot obtain that way.

  \<^bold>\<open>The program's parts and the theories.\<close>

  Configuration. A \<^emph>\<open>sweatfile\<close> is the TOML configuration of a directory level; the loader walks from the
  home directory to the repository and the worktree, and the layers are merged into one.
  \<^item> \<open>Sweatfile\<close>: the tables of \<open>internal/0/sweatfile/sweatfile.go\<close> as records, with their accessors.
  \<^item> \<open>Merge\<close>: \<open>hierarchy.go\<close>, \<open>MergeWith\<close> with one definition per table. The locale \<open>keyed_array\<close> is the
    contract of the arrays merged by key (start commands, MCP servers, skills, exemptions, remotes, post-merge
    targets); it is interpreted on each of them.
  \<^item> \<open>Loader\<close>: \<open>internal/alfa/sweatfileio/hierarchy.go\<close> and \<open>coding.go\<close>: the cascade walk, committed and
    extra layers, the linked-worktree pointer.
  \<^item> \<open>Trust\<close>: \<open>trust.go\<close>, \<open>trust_folio.go\<close>, \<open>trust_unattended.go\<close>: the readers that only look at layers above
    the repository. The locale \<open>trusted_reader\<close> is the contract every one of them is interpreted on.
  \<^item> \<open>Folio\<close>, \<open>FolioEval\<close>, \<open>FolioRoots\<close>: the allow and deny patterns of \<open>internal/0/folio/pattern.go\<close> and their
    evaluation (\<open>internal/bravo/folioeval\<close>).

  Authority. The operator's signed grants give a session rights its frontend checks at every use.
  \<^item> \<open>ProfileGrant\<close>, \<open>GrantCodec\<close>, \<open>GrantWalk\<close>: the grant record of \<open>internal/0/profilegrant\<close>, its line format
    and strict parser, and the walk of a chain of at most 32 records to a root the operator's card signed.
    \<open>maxBaseDepth\<close> (8) bounds the depth of profile stacking as the source does.
  \<^item> \<open>Transition\<close>, \<open>ActTexts\<close>: approvals of profile changes, and what a signed text determines.
  \<^item> \<open>GrantStore\<close>: \<open>internal/alfa/grantstore\<close>; \<open>content_store\<close> is the contract of its content-addressed
    directories. \<open>ProfileRights\<close>: \<open>internal/charlie/profilerights\<close>, authorizing, issuing and revoking on it.
  \<^item> \<open>Perms\<close>, \<open>HookPaths\<close>, \<open>BashGuard\<close>, \<open>PreToolUse\<close>, \<open>HookDecision\<close>: the permission tiers of
    \<open>internal/charlie/perms\<close> and the tool-use hook of \<open>internal/delta/hooks\<close>, which answers every tool call.

  Sessions. A session's record is kept by the frontend, with a display copy in the worktree.
  \<^item> \<open>SessionState\<close>, \<open>SessionHandles\<close>: the record of \<open>internal/alfa/session/session.go\<close>, its keys, states,
    sorting and lookup, and the handles with their rights.
  \<^item> \<open>SessionRecord\<close>: the store of \<open>record.go\<close> and \<open>update.go\<close>: records by key, the index with its
    tombstones, reading, writing, listing, closing, collecting and migrating. \<open>LockedUpdate\<close> states the contract of a
    locked read-modify-write as the locale \<open>locked_update\<close>; it is interpreted on this store (\<open>store\<close>) and on the
    attestation's view of one record (\<open>slot\<close>).
  \<^item> \<open>Restart\<close>: queueing, preflight, re-arm, cancellation and the watchdog (\<open>cmd/spinclass/restart_cmd.go\<close>,
    \<open>restart_hung_cmd.go\<close>, \<open>resume_principal.go\<close>), and their interleaving with a close as \<open>restart_step\<close>.
  \<^item> \<open>SessionClean\<close>, \<open>SessionClose\<close>: the sweep of \<open>internal/echo/clean\<close> and the close of
    \<open>internal/delta/close\<close>, in a state-and-error monad over a world of operations, with a trace of what they did.

  Merging. A merge pins the session's commit, checks it and lands it on the base branch.
  \<^item> \<open>MergeLock\<close>, \<open>MergeQueue\<close>: the per-repository lock of \<open>internal/0/mergelock\<close> as a step relation over
    flock and the lock file (crashes included), and the queue's depth.
  \<^item> \<open>Landing\<close>: \<open>internal/alfa/landing\<close>. \<open>MergePolicy\<close>: \<open>internal/delta/merge/policy.go\<close>.
    \<open>MergeSection\<close>: \<open>postmerge_section.go\<close>, \<open>postmerge_options.go\<close>.
  \<^item> \<open>MergeFlow\<close>, \<open>MergePrepare\<close>: \<open>merge.go\<close>, \<open>autostash.go\<close>, \<open>guarded.go\<close>, \<open>snapshot.go\<close>: \<open>PrepareMergeWith\<close>,
    \<open>FinishMerge\<close> and their composition \<open>ResolvedContext\<close>, with the trace of stages passed.
  \<^item> \<open>MergeStack\<close>: the background jobs of \<open>internal/alfa/job/runner.go\<close> and the stack of queued merges
    (\<open>cmd/spinclass/merge_queue.go\<close>, the handlers of \<open>commands_mcp_only.go\<close>) as a step relation.
  \<^item> \<open>Attestation\<close>: \<open>internal/bravo/attestation\<close>, the gate a merge consumes one recording of.
    \<open>FlakeLock\<close>: \<open>internal/charlie/check/lockpolicy.go\<close>.

  Shared theories: \<open>Prelude\<close> (Go's nil slices, pointers, errors, \<open>strings\<close>), \<open>GoPath\<close> (\<open>path/filepath\<close>),
  \<open>GoTime\<close> (durations on 64-bit words), \<open>GoClock\<close> (\<open>time.Time\<close> in UTC and RFC 3339), \<open>GoUnicode\<close> (runes).

  \<^bold>\<open>How the parts meet.\<close> The loader's layers feed the merge and the trusted readers; the folio policy, the hook
  and the profile rights read their security keys only through the latter. A merge reads its section from
  the sweatfile at the landed commit, its gate from the attestation on the session's record and its target from
  \<open>Landing\<close>; the clean and the close reuse the merge's monad, and the restart verbs reuse the close's marks
  and the record store. The hook answers with the tiers of \<open>Perms\<close> and the handles of the session's record.

  \<^bold>\<open>What the lemmas show.\<close>
  \<^item> Configuration: an array merged by name holds the nearest layer's entry of each name, a layer the agent can write decides no
    security key, and a folio policy of the whole cascade allows no more than the trusted one.
  \<^item> Authority: codecs round-trip, the signed text determines the record, the walk accepts exactly the sound
    chains (refinement of an inductive specification) and an accepted record's authority is bounded by a root.
    A new binding is exclusive.
  \<^item> The hook: the always-ask floor is never bypassed; the tiers merge to first occurrences.
  \<^item> Sessions: whatever the worktree holds, an update acts on the frontend's record, no update is lost, a closed
    session stays closed, a worktree is trusted once; the migration's reset of a record is shown as it is.
    Verdict and close are ordered under every interleaving; a forced restart comes at most once a day.
    A sweep removes only merged, unused worktrees, a close needs finished work or a yes, the shelf is respected.
  \<^item> Merging: the lock is exclusive, refines a mutex and is live; a merge lands what its prefix pinned after every
    check, tears down only after landing, runs only accepted commands, and puts an autostash back. Holds are
    settled once, a failed merge stops the stack, one recording admits one landing.

  \<^bold>\<open>Conventions.\<close> A struct is a record or a \<open>datatype\<close> with selectors, a string a list of bytes as \<open>char\<close>s, a pointer an
  \<open>option\<close>, a nil slice apart from an empty one where the code tells them apart, a fallible call a sum whose left
  side is the error. Error wording is kept only where the code branches on it or a theorem speaks of it.
  A mutex-guarded or flock-guarded section is one atomic step, and the interleavings are of these steps.
  Loops are structural over the list they range over. The walk of a chain recurses on its depth bound, the
  merge lock's wait and the job queues are relations without a bound, and the search for a fork's name is a
  partial function that may not return; that it does is a theorem.
  \<open>Specificity\<close> and \<open>UTC\<close> instances of \<open>linorder\<close> give the comparisons Go writes out.

  \<^bold>\<open>Parameters\<close>, because their code is not in the repository or is an effect of the operating system: SHA-256 and the digest of
  a grant, the check of a card's signature, symlink resolution, the shell lexer (shlex), the file system, the decoder generated from
  the sweatfile's struct tags, the store classifier, git, the evaluation of a flake by nix, the liveness of a
  process, hooks, the shelf, the credential store, prompts, the hand-off command and wakes. They are arguments or fields of
  a world record; a theorem that relies on one names what it relies on as a hypothesis, and its witness
  instantiates it.

  \<^bold>\<open>Bounds.\<close> Chains of 32 records, profile stacking of depth 8, store names of 200 bytes, the 64
  runes a refusal quotes of a name, the entries it lists, two re-arms of a restart, the two-minute window after a verdict,
  24 hours between forced restarts: each is a constant of the source and a definition here, none is a
  bound of the model's own.

  \<^bold>\<open>Not modelled\<close>: the generated codec (\<open>sweatfile_tommy.go\<close>), process and terminal control (spawn, run, shop, executors),
  git, ssh and nix wrappers, HTTP to a forge, rendering (status, TAP, system prompts), logs and metrics, the
  cryptography of signatures, flag parsing and JSON framing. They are effects or calls to other
  programs, and the components above take them as parameters. The linter of sweatfiles
  (\<open>bravo/validate\<close>), the policy broker and the setup of a confinement are not modelled either.
\<close>

end
